(* ===== verification/Prelude.thy ===== *)
theory Prelude
  imports Main "HOL-Library.Word"
begin

text \<open>
  Shared vocabulary of the development: the machine integers of the code, the exceptions the code
  throws as values of a result type, generic lemmas on results, lists and words, and the small
  locale of state machines with an invariant that the stateful components interpret.
\<close>

section \<open>Machine integers\<close>

text \<open>
  \<open>std::uint8_t\<close> to \<open>std::uint64_t\<close> are words of that width, so \<open>+\<close>, \<open>-\<close> and \<open>*\<close>
  wrap around as they do in C++. \<open>std::byte\<close> is an 8-bit word. \<open>std::size_t\<close> values that
  are container sizes are natural numbers.
\<close>

unbundle bit_operations_syntax

type_synonym u8 = "8 word"
type_synonym u16 = "16 word"
type_synonym u32 = "32 word"
type_synonym u64 = "64 word"
type_synonym byte = u8

text \<open>A \<open>std::string\<close> is a list of 8-bit characters; \<open>std::as_bytes\<close> views it as bytes.\<close>

definition as_bytes :: "string \<Rightarrow> byte list" where
  "as_bytes s = map (\<lambda>c. of_nat (of_char c)) s"

definition string_of_bytes :: "byte list \<Rightarrow> string" where
  "string_of_bytes bs = map (\<lambda>b. char_of (unat b)) bs"

lemma length_as_bytes [simp]: "length (as_bytes s) = length s"
  by (simp add: as_bytes_def)

lemma length_string_of_bytes [simp]: "length (string_of_bytes bs) = length bs"
  by (simp add: string_of_bytes_def)

lemma byte_unat_less [simp]: "unat (b :: byte) < 256"
  using unsigned_less [of b] by simp

lemma byte_unat_mod [simp]: "unat (b :: byte) mod 256 = unat b"
  by simp

lemma char_of_unat_of_char [simp]: "char_of (unat (of_nat (of_char c) :: byte)) = c"
proof -
  have "(of_char c :: nat) < 256"
    by simp
  then show ?thesis
    by (simp add: unat_of_nat)
qed

lemma string_of_bytes_as_bytes [simp]: "string_of_bytes (as_bytes s) = s"
  by (simp add: string_of_bytes_def as_bytes_def comp_def)

lemma as_bytes_string_of_bytes [simp]: "as_bytes (string_of_bytes bs) = bs"
  by (simp add: string_of_bytes_def as_bytes_def comp_def)

lemma as_bytes_inject [simp]: "as_bytes s = as_bytes t \<longleftrightarrow> s = t"
  by (metis string_of_bytes_as_bytes)

lemma as_bytes_Nil_iff [simp]: "as_bytes s = [] \<longleftrightarrow> s = []"
  by (simp add: as_bytes_def)

lemma as_bytes_Nil [simp]: "as_bytes [] = []"
  by (simp add: as_bytes_def)

lemma string_of_bytes_eq_iff: "string_of_bytes bs = s \<longleftrightarrow> bs = as_bytes s"
  by auto

lemma as_bytes_eq_iff: "as_bytes s = bs \<longleftrightarrow> s = string_of_bytes bs"
  by auto

section \<open>Exceptions as results\<close>

text \<open>
  The exception classes the code throws, with the message, and the result of a function that may
  throw: \<open>Inl\<close> the exception or \<open>Inr\<close> the value.
\<close>

datatype exn =
    Invalid_argument string
  | Length_error string
  | Logic_error string
  | Runtime_error string
  | Overflow_error string
  | Out_of_range string

type_synonym 'a result = "exn + 'a"

abbreviation throw :: "exn \<Rightarrow> 'a result" where
  "throw \<equiv> Inl"

abbreviation ok :: "'a \<Rightarrow> 'a result" where
  "ok \<equiv> Inr"

text \<open>Sequencing: an exception of the first part skips the rest.\<close>

definition and_then :: "'a result \<Rightarrow> ('a \<Rightarrow> 'b result) \<Rightarrow> 'b result" where
  "and_then m f = (case m of Inl e \<Rightarrow> Inl e | Inr x \<Rightarrow> f x)"

definition throw_if :: "bool \<Rightarrow> exn \<Rightarrow> unit result" where
  "throw_if c e = (if c then throw e else ok ())"

named_theorems result_simps \<open>rewriting results to the values they succeed with\<close>

lemma and_then_Inl [simp]: "and_then (Inl e) f = Inl e"
  by (simp add: and_then_def)

lemma and_then_Inr [simp]: "and_then (Inr x) f = f x"
  by (simp add: and_then_def)

lemma and_then_eq_Inr [result_simps]:
  "and_then m f = Inr y \<longleftrightarrow> (\<exists>x. m = Inr x \<and> f x = Inr y)"
  by (cases m) (auto simp: and_then_def)

lemma and_then_eq_Inl:
  "and_then m f = Inl e \<longleftrightarrow> m = Inl e \<or> (\<exists>x. m = Inr x \<and> f x = Inl e)"
  by (cases m) (auto simp: and_then_def)

lemma throw_if_eq_Inr [result_simps]: "throw_if c e = Inr u \<longleftrightarrow> \<not> c"
  by (simp add: throw_if_def)

lemma throw_if_eq_Inl: "throw_if c e = Inl e' \<longleftrightarrow> c \<and> e' = e"
  by (auto simp: throw_if_def)

lemma throw_if_False [simp]: "throw_if False e = Inr ()"
  by (simp add: throw_if_def)

lemma throw_if_True [simp]: "throw_if True e = Inl e"
  by (simp add: throw_if_def)

lemma if_throw_eq_Inr [result_simps]: "(if c then Inl e else m) = Inr y \<longleftrightarrow> \<not> c \<and> m = Inr y"
  by simp

text \<open>Whether a result is a value.\<close>

definition succeeds :: "'a result \<Rightarrow> bool" where
  "succeeds m \<longleftrightarrow> (case m of Inl _ \<Rightarrow> False | Inr _ \<Rightarrow> True)"

lemma succeeds_simps [simp]: "succeeds (Inr x)" "\<not> succeeds (Inl e)"
  by (simp_all add: succeeds_def)

lemma succeeds_iff: "succeeds m \<longleftrightarrow> (\<exists>x. m = Inr x)"
  by (cases m) (auto simp: succeeds_def)

section \<open>Member functions that throw\<close>

text \<open>
  A member function that may throw after it has changed the object returns the result and the new
  state in both cases: an exception does not undo what was done before it.
\<close>

type_synonym ('s, 'a) call = "'s \<Rightarrow> 'a result \<times> 's"

definition c_return :: "'a \<Rightarrow> ('s, 'a) call" where
  "c_return x s = (Inr x, s)"

definition c_throw :: "exn \<Rightarrow> ('s, 'a) call" where
  "c_throw e s = (Inl e, s)"

definition c_bind :: "('s, 'a) call \<Rightarrow> ('a \<Rightarrow> ('s, 'b) call) \<Rightarrow> ('s, 'b) call" where
  "c_bind m f s = (case m s of (Inl e, s') \<Rightarrow> (Inl e, s') | (Inr x, s') \<Rightarrow> f x s')"

text \<open>\<open>try { m } catch (...) { h; throw; }\<close>: an exception of the handler replaces the first.\<close>

definition c_catch_rethrow :: "('s, 'a) call \<Rightarrow> ('s, unit) call \<Rightarrow> ('s, 'a) call" where
  "c_catch_rethrow m h s = (case m s of
     (Inl e, s') \<Rightarrow> (case h s' of (Inl e', s'') \<Rightarrow> (Inl e', s'') | (Inr _, s'') \<Rightarrow> (Inl e, s''))
   | (Inr x, s') \<Rightarrow> (Inr x, s'))"

text \<open>\<open>try { m } catch (const std::exception&) { h }\<close>; every exception of the model is one of those.\<close>

definition c_catch :: "('s, 'a) call \<Rightarrow> ('s, 'a) call \<Rightarrow> ('s, 'a) call" where
  "c_catch m h s = (case m s of (Inl e, s') \<Rightarrow> h s' | (Inr x, s') \<Rightarrow> (Inr x, s'))"

text \<open>A check that only reads, and a change that cannot fail.\<close>

definition c_check :: "('s \<Rightarrow> unit result) \<Rightarrow> ('s, unit) call" where
  "c_check check s = (check s, s)"

definition c_modify :: "('s \<Rightarrow> 's) \<Rightarrow> ('s, unit) call" where
  "c_modify f s = (Inr (), f s)"

lemma c_return_apply [simp]: "c_return x s = (Inr x, s)"
  by (simp add: c_return_def)

lemma c_throw_apply [simp]: "c_throw e s = (Inl e, s)"
  by (simp add: c_throw_def)

lemma c_bind_eq_Inr [result_simps]:
  "c_bind m f s = (Inr y, s'') \<longleftrightarrow> (\<exists>x s'. m s = (Inr x, s') \<and> f x s' = (Inr y, s''))"
  by (auto simp: c_bind_def split: prod.split sum.split)

section \<open>State machines with an invariant\<close>

text \<open>
  A stateful object of the code is a state, the events that its member functions are, and the
  function that gives the next state. A predicate that the initial state has and every step keeps
  holds after every sequence of calls.
\<close>

locale invariant_machine =
  fixes step :: "'s \<Rightarrow> 'e \<Rightarrow> 's"
    and init :: 's
    and inv :: "'s \<Rightarrow> bool"
  assumes init_inv: "inv init"
    and step_inv: "inv s \<Longrightarrow> inv (step s e)"
begin

lemma foldl_inv: "inv s \<Longrightarrow> inv (foldl step s es)"
  by (induction es arbitrary: s) (auto intro: step_inv)

lemma run_inv: "inv (foldl step init es)"
  by (rule foldl_inv [OF init_inv])

end

text \<open>
  A quantity that no step lets decrease is monotone along every run. The order is a parameter,
  so that it can be that of words or of naturals.
\<close>

locale monotone_machine = invariant_machine step init inv
  for step :: "'s \<Rightarrow> 'e \<Rightarrow> 's" and init :: 's and inv :: "'s \<Rightarrow> bool" +
  fixes level :: "'s \<Rightarrow> 'l :: preorder"
  assumes step_level: "inv s \<Longrightarrow> level s \<le> level (step s e)"
begin

lemma run_level: "inv s \<Longrightarrow> level s \<le> level (foldl step s es)"
proof (induction es arbitrary: s)
  case Nil
  then show ?case by simp
next
  case (Cons e es)
  have "level s \<le> level (step s e)"
    using Cons.prems by (rule step_level)
  also have "\<dots> \<le> level (foldl step (step s e) es)"
    using Cons.prems by (intro Cons.IH step_inv)
  finally show ?case by simp
qed

end

section \<open>Generic lemmas\<close>

lemma take_append_drop_eq: "n \<le> length xs \<Longrightarrow> xs = take n xs @ ys \<longleftrightarrow> ys = drop n xs"
  by (metis append_take_drop_id same_append_eq)

lemma append_eq_fixed:
  "n \<le> length s \<Longrightarrow> (\<exists>post. s = x @ post \<and> length x = n \<and> P post) \<longleftrightarrow> x = take n s \<and> P (drop n s)"
  by (auto intro!: exI [of _ "drop n s"])

lemma unat_le_of_nat_bound: "n < 2 ^ LENGTH('a::len) \<Longrightarrow> unat (of_nat n :: 'a word) = n"
  by (simp add: unat_of_nat)

lemma word_ucast_le_iff:
  "LENGTH('a::len) \<le> LENGTH('b::len) \<Longrightarrow> unat (ucast (x :: 'a word) :: 'b word) = unat x"
  by (simp add: unsigned_ucast_eq take_bit_nat_eq_self_iff order_less_le_trans [OF unsigned_less])

end
