(* ===== verification/Wire.thy ===== *)
theory Wire
  imports Prelude
begin

text \<open>
  The byte-level reader and writer of \<open>desktop/src/desktop.cpp\<close> (classes \<open>Writer\<close> and
  \<open>Reader\<close>, \<open>require_magic\<close>). A writer is the bytes it has appended; a reader is the span it
  reads with its offset, and every read may throw. The locale \<open>wire_field\<close> is what a message
  codec needs of a field: reading succeeds exactly on what writing produced, and leaves the rest.
  The locale \<open>message_codec\<close> is what the rest of the program needs of a message.
\<close>

section \<open>Writer\<close>

text \<open>Each field is the bytes that \<open>Writer::u8\<close> to \<open>Writer::u64\<close> push, most significant first.\<close>

definition put_u8 :: "u8 \<Rightarrow> byte list" where
  "put_u8 v = [v]"

definition put_u16 :: "u16 \<Rightarrow> byte list" where
  "put_u16 v = [ucast (drop_bit 8 v AND 0xff), ucast (v AND 0xff)]"

definition put_u32 :: "u32 \<Rightarrow> byte list" where
  "put_u32 v = map (\<lambda>shift. ucast (drop_bit shift v AND 0xff)) [24, 16, 8, 0]"

definition put_u64 :: "u64 \<Rightarrow> byte list" where
  "put_u64 v = map (\<lambda>shift. ucast (drop_bit shift v AND 0xff)) [56, 48, 40, 32, 24, 16, 8, 0]"

section \<open>Reader\<close>

record reader =
  rd_bytes :: "byte list"
  rd_offset :: nat

type_synonym 'a parser = "reader \<Rightarrow> ('a \<times> reader) result"

text \<open>The constructor \<open>Reader(bytes)\<close>.\<close>

definition new_reader :: "byte list \<Rightarrow> reader" where
  "new_reader bs = \<lparr>rd_bytes = bs, rd_offset = 0\<rparr>"

definition rd_require :: "nat \<Rightarrow> reader \<Rightarrow> unit result" where
  "rd_require n r =
     throw_if (n > length (rd_bytes r) - rd_offset r)
       (Invalid_argument ''truncated desktop protocol message'')"

text \<open>The loop of \<open>Reader::u16\<close> to \<open>Reader::u64\<close>: shift the result left and add a byte.\<close>

fun rd_loop :: "nat \<Rightarrow> 'w::len word \<Rightarrow> reader \<Rightarrow> 'w word \<times> reader" where
  "rd_loop 0 acc r = (acc, r)"
| "rd_loop (Suc n) acc r =
     rd_loop n (push_bit 8 acc OR ucast (rd_bytes r ! rd_offset r))
       (r\<lparr>rd_offset := rd_offset r + 1\<rparr>)"

definition rd_u8 :: "u8 parser" where
  "rd_u8 r = and_then (rd_require 1 r)
     (\<lambda>_. ok (rd_bytes r ! rd_offset r, r\<lparr>rd_offset := rd_offset r + 1\<rparr>))"

definition rd_u16 :: "u16 parser" where
  "rd_u16 r = and_then (rd_require 2 r) (\<lambda>_. ok (rd_loop 2 0 r))"

definition rd_u32 :: "u32 parser" where
  "rd_u32 r = and_then (rd_require 4 r) (\<lambda>_. ok (rd_loop 4 0 r))"

definition rd_u64 :: "u64 parser" where
  "rd_u64 r = and_then (rd_require 8 r) (\<lambda>_. ok (rd_loop 8 0 r))"

text \<open>\<open>Reader::bytes(size)\<close>, a subspan.\<close>

definition rd_span :: "nat \<Rightarrow> byte list parser" where
  "rd_span n r = and_then (rd_require n r)
     (\<lambda>_. ok (take n (drop (rd_offset r) (rd_bytes r)), r\<lparr>rd_offset := rd_offset r + n\<rparr>))"

definition rd_empty :: "reader \<Rightarrow> bool" where
  "rd_empty r \<longleftrightarrow> rd_offset r = length (rd_bytes r)"

text \<open>
  The statements of a decoder: a read whose value the rest uses, \<open>if (c) throw e\<close>, and the final
  \<open>if (!reader.empty()) throw e\<close>.
\<close>

definition rseq :: "'a parser \<Rightarrow> ('a \<Rightarrow> reader \<Rightarrow> 'b result) \<Rightarrow> reader \<Rightarrow> 'b result" where
  "rseq p f r = and_then (p r) (\<lambda>(x, r'). f x r')"

definition rthrow_if :: "bool \<Rightarrow> exn \<Rightarrow> (reader \<Rightarrow> 'b result) \<Rightarrow> reader \<Rightarrow> 'b result" where
  "rthrow_if c e f r = and_then (throw_if c e) (\<lambda>_. f r)"

definition rend :: "exn \<Rightarrow> 'a result \<Rightarrow> reader \<Rightarrow> 'a result" where
  "rend e m r = and_then (throw_if (\<not> rd_empty r) e) (\<lambda>_. m)"

definition require_magic :: "byte list \<Rightarrow> unit parser" where
  "require_magic magic r = and_then (rd_span (length magic) r)
     (\<lambda>(bs, r'). and_then (throw_if (bs \<noteq> magic) (Invalid_argument ''invalid desktop protocol magic''))
       (\<lambda>_. ok ((), r')))"

section \<open>What a read does, in terms of the bytes that are left\<close>

text \<open>A reader that has consumed \<open>pre\<close> and has \<open>s\<close> left.\<close>

definition rd_at :: "byte list \<Rightarrow> byte list \<Rightarrow> reader" where
  "rd_at pre s = \<lparr>rd_bytes = pre @ s, rd_offset = length pre\<rparr>"

lemma new_reader_rd_at: "new_reader bs = rd_at [] bs"
  by (simp add: new_reader_def rd_at_def)

lemma rd_at_offset [simp]: "rd_offset (rd_at pre s) = length pre"
  by (simp add: rd_at_def)

lemma rd_at_bytes [simp]: "rd_bytes (rd_at pre s) = pre @ s"
  by (simp add: rd_at_def)

lemma rd_empty_rd_at [simp]: "rd_empty (rd_at pre s) \<longleftrightarrow> s = []"
  by (simp add: rd_empty_def)

lemma rd_at_eq_iff [simp]: "rd_at pre s = rd_at pre' s' \<longleftrightarrow> pre = pre' \<and> s = s'"
  by (auto simp: rd_at_def)

lemma rd_at_step: "rd_at pre (xs @ s)\<lparr>rd_offset := length pre + length xs\<rparr> = rd_at (pre @ xs) s"
  by (simp add: rd_at_def)

lemma rd_at_step_eq:
  "n = length xs \<Longrightarrow> rd_at pre (xs @ s)\<lparr>rd_offset := length pre + n\<rparr> = rd_at (pre @ xs) s"
  by (simp add: rd_at_def)

lemma rd_require_rd_at [simp]:
  "rd_require n (rd_at pre s) = throw_if (n > length s)
     (Invalid_argument ''truncated desktop protocol message'')"
  by (simp add: rd_require_def)

text \<open>The bytes as a big-endian number.\<close>

definition be_word :: "byte list \<Rightarrow> 'w::len word" where
  "be_word bs = foldl (\<lambda>acc b. push_bit 8 acc OR ucast b) 0 bs"

lemma rd_loop_rd_at:
  "rd_loop (length bs) acc (rd_at pre (bs @ s)) =
     (foldl (\<lambda>a b. push_bit 8 a OR ucast b) acc bs, rd_at (pre @ bs) s)"
proof (induction bs arbitrary: acc pre)
  case Nil
  then show ?case by simp
next
  case (Cons b bs)
  have step: "rd_at pre (b # bs @ s)\<lparr>rd_offset := Suc (length pre)\<rparr> = rd_at (pre @ [b]) (bs @ s)"
    by (simp add: rd_at_def)
  show ?case
    using Cons [of "push_bit 8 acc OR ucast b" "pre @ [b]"] by (simp add: step)
qed

lemma rd_loop_be_word:
  "length bs = n \<Longrightarrow> rd_loop n 0 (rd_at pre (bs @ s)) = (be_word bs, rd_at (pre @ bs) s)"
  using rd_loop_rd_at [of bs 0 pre s] by (simp add: be_word_def)

text \<open>Writing and reading a big-endian number are inverse.\<close>

lemma length_put [simp]:
  "length (put_u8 a) = 1" "length (put_u16 b) = 2" "length (put_u32 c) = 4" "length (put_u64 d) = 8"
  by (simp_all add: put_u8_def put_u16_def put_u32_def put_u64_def)

lemma and_ff: "(x :: 'w::len word) AND 0xff = take_bit 8 x"
  by (simp add: take_bit_eq_mask mask_eq_exp_minus_1)

lemma byte_take_bit [simp]: "ucast (take_bit 8 (x :: 'w::len word)) = (ucast x :: byte)"
  by (rule bit_word_eqI) (auto simp: bit_simps)

text \<open>The \<open>k\<close>-th byte of a word, counted from the least significant.\<close>

definition byte_of :: "'w::len word \<Rightarrow> nat \<Rightarrow> byte" where
  "byte_of v k = ucast (take_bit 8 (drop_bit (8 * k) v))"

lemma bit_byte_of: "bit (byte_of v k) i \<longleftrightarrow> i < 8 \<and> bit v (8 * k + i)"
  by (auto simp: byte_of_def bit_simps dest: bit_imp_le_length)

lemma foldl_bytes:
  "foldl (\<lambda>a b. push_bit 8 a OR ucast b) acc (map (byte_of v) (rev [0..<n])) =
     push_bit (8 * n) acc OR take_bit (8 * n) (v :: 'w::len word)"
proof (induction n arbitrary: acc)
  case 0
  then show ?case by simp
next
  case (Suc n)
  have "push_bit (8 * n) (ucast (byte_of v n)) OR take_bit (8 * n) v = take_bit (8 * Suc n) v"
  proof (rule bit_word_eqI)
    fix i assume "i < LENGTH('w)"
    then show "bit (push_bit (8 * n) (ucast (byte_of v n)) OR take_bit (8 * n) v) i
        \<longleftrightarrow> bit (take_bit (8 * Suc n) v) i"
      by (cases "i < 8 * n") (auto simp: bit_simps bit_byte_of)
  qed
  then show ?case
    by (simp add: Suc.IH push_bit_or or.assoc add.commute)
qed

lemma be_word_bytes:
  "LENGTH('w) \<le> 8 * n \<Longrightarrow> be_word (map (byte_of v) (rev [0..<n])) = (v :: 'w::len word)"
  by (simp add: be_word_def foldl_bytes take_bit_word_eq_self)

lemma put_bytes:
  "put_u16 b = map (byte_of b) (rev [0..<2])"
  "put_u32 c = map (byte_of c) (rev [0..<4])"
  "put_u64 d = map (byte_of d) (rev [0..<8])"
  by (simp_all add: put_u16_def put_u32_def put_u64_def byte_of_def and_ff upt_rec)

lemma be_word_put [simp]:
  "be_word (put_u16 b) = b" "be_word (put_u32 c) = c" "be_word (put_u64 d) = d"
  by (simp_all only: put_bytes) (rule be_word_bytes, simp)+

lemma be_word_snoc: "be_word (bs @ [b]) = push_bit 8 (be_word bs) OR ucast b"
  by (simp add: be_word_def)

lemma bit_be_word_bound: "bit (be_word bs :: 'w::len word) i \<Longrightarrow> i < 8 * length bs"
proof (induction bs arbitrary: i rule: rev_induct)
  case Nil
  then show ?case by (simp add: be_word_def)
next
  case (snoc b bs)
  from snoc.prems have "8 \<le> i \<and> bit (be_word bs :: 'w word) (i - 8) \<or> bit b i"
    by (auto simp: be_word_snoc bit_simps)
  then show ?case
    using snoc.IH [of "i - 8"] bit_imp_le_length [of b i] by auto
qed

lemma be_word_inj:
  assumes "length bs = length cs" "8 * length bs \<le> LENGTH('w)"
    and "be_word bs = (be_word cs :: 'w::len word)"
  shows "bs = cs"
  using assms
proof (induction bs arbitrary: cs rule: rev_induct)
  case Nil
  then show ?case by simp
next
  case (snoc b bs)
  obtain ds d where cs: "cs = ds @ [d]" and len: "length ds = length bs"
    using snoc.prems(1) by (cases cs rule: rev_cases) auto
  have bits: "bit (push_bit 8 (be_word bs) OR ucast b :: 'w word) i
      \<longleftrightarrow> bit (push_bit 8 (be_word ds) OR ucast d :: 'w word) i" for i
    using snoc.prems(3) by (simp add: cs be_word_snoc)
  have "b = d"
  proof (rule bit_word_eqI)
    fix i assume "i < LENGTH(8)"
    then show "bit b i \<longleftrightarrow> bit d i"
      using bits [of i] snoc.prems(2) by (auto simp: bit_simps)
  qed
  moreover have "be_word bs = (be_word ds :: 'w word)"
  proof (rule bit_word_eqI)
    fix i assume i: "i < LENGTH('w)"
    show "bit (be_word bs :: 'w word) i \<longleftrightarrow> bit (be_word ds :: 'w word) i"
    proof (cases "i < 8 * length bs")
      case True
      then have "i + 8 < LENGTH('w)" using snoc.prems(2) by simp
      then show ?thesis
        using bits [of "i + 8"] bit_imp_le_length [of b "i + 8"] bit_imp_le_length [of d "i + 8"]
        by (auto simp: bit_simps)
    next
      case False
      then show ?thesis
        using bit_be_word_bound [of bs i] bit_be_word_bound [of ds i] len by auto
    qed
  qed
  ultimately show ?case
    using snoc.IH [of ds] snoc.prems(2) len cs by simp
qed

lemma put_u16_be_word: "length bs = 2 \<Longrightarrow> put_u16 (be_word bs) = bs"
  by (rule be_word_inj [where 'w = 16]) simp_all

lemma put_u32_be_word: "length bs = 4 \<Longrightarrow> put_u32 (be_word bs) = bs"
  by (rule be_word_inj [where 'w = 32]) simp_all

lemma put_u64_be_word: "length bs = 8 \<Longrightarrow> put_u64 (be_word bs) = bs"
  by (rule be_word_inj [where 'w = 64]) simp_all

text \<open>Each read takes a fixed number of the bytes that are left, or throws.\<close>

lemma rd_span_rd_at:
  "rd_span n (rd_at pre s) =
     (if n \<le> length s then Inr (take n s, rd_at (pre @ take n s) (drop n s))
      else Inl (Invalid_argument ''truncated desktop protocol message''))"
  by (simp add: rd_span_def rd_at_def rd_require_def min_def)

lemma rd_word_rd_at:
  "and_then (rd_require n (rd_at pre s)) (\<lambda>_. ok (rd_loop n 0 (rd_at pre s))) =
     (if n \<le> length s then Inr (be_word (take n s), rd_at (pre @ take n s) (drop n s))
      else Inl (Invalid_argument ''truncated desktop protocol message''))"
  using rd_loop_be_word [of "take n s" n pre "drop n s"] by (auto simp: throw_if_def)

lemma rd_u8_rd_at:
  "rd_u8 (rd_at pre s) =
     (if 1 \<le> length s then Inr (hd (take 1 s), rd_at (pre @ take 1 s) (drop 1 s))
      else Inl (Invalid_argument ''truncated desktop protocol message''))"
  by (cases s) (simp_all add: rd_u8_def rd_at_def rd_require_def)

lemma take_form_eq:
  assumes get: "get (rd_at pre s) =
      (if n \<le> length s then Inr (dec (take n s), rd_at (pre @ take n s) (drop n s)) else Inl e)"
    and len: "\<And>v. length (put v) = n"
    and inv1: "\<And>v. dec (put v) = v"
    and inv2: "\<And>bs. length bs = n \<Longrightarrow> put (dec bs) = bs"
  shows "get (rd_at pre s) = Inr (x, r) \<longleftrightarrow> (\<exists>post. s = put x @ post \<and> r = rd_at (pre @ put x) post)"
proof
  assume "get (rd_at pre s) = Inr (x, r)"
  then have n: "n \<le> length s" and x: "x = dec (take n s)"
    and r: "r = rd_at (pre @ take n s) (drop n s)"
    using get by (auto split: if_splits)
  have "put x = take n s"
    using x n by (simp add: inv2)
  then show "\<exists>post. s = put x @ post \<and> r = rd_at (pre @ put x) post"
    using r by (intro exI [of _ "drop n s"]) simp
next
  assume "\<exists>post. s = put x @ post \<and> r = rd_at (pre @ put x) post"
  then show "get (rd_at pre s) = Inr (x, r)"
    using get len [of x] by (auto simp: inv1)
qed

section \<open>The laws of a field\<close>

text \<open>
  Reading from the bytes \<open>s\<close> that are left succeeds with \<open>x\<close> exactly when \<open>s\<close> starts with what
  writing \<open>x\<close> appends, and then the reader stands after it.
\<close>

locale wire_field =
  fixes put :: "'a \<Rightarrow> byte list"
    and get :: "'a parser"
  assumes get_eq: "get (rd_at pre s) = Inr (x, r) \<longleftrightarrow>
    (\<exists>post. s = put x @ post \<and> r = rd_at (pre @ put x) post)"
begin

lemma get_put: "get (rd_at pre (put x @ post)) = Inr (x, rd_at (pre @ put x) post)"
  by (simp add: get_eq)

lemma rseq_eq:
  "rseq get f (rd_at pre s) = Inr y \<longleftrightarrow>
     (\<exists>x post. s = put x @ post \<and> f x (rd_at (pre @ put x) post) = Inr y)"
  by (auto simp: rseq_def and_then_eq_Inr get_eq)

lemma put_prefix_inject: "put x @ s = put y @ t \<Longrightarrow> x = y \<and> s = t"
proof -
  assume eq: "put x @ s = put y @ t"
  have "get (rd_at [] (put x @ s)) = Inr (y, rd_at (put y) t)"
    unfolding eq using get_put [of "[]" y t] by simp
  then show ?thesis
    using get_put [of "[]" x s] by simp
qed

end

interpretation u8_field: wire_field put_u8 rd_u8
  by unfold_locales (rule take_form_eq [where n = 1 and dec = hd], rule rd_u8_rd_at,
      auto simp: put_u8_def length_Suc_conv)

interpretation u16_field: wire_field put_u16 rd_u16
  by unfold_locales
    (rule take_form_eq [where n = 2 and dec = be_word],
      simp_all only: rd_u16_def rd_word_rd_at length_put be_word_put put_u16_be_word)

interpretation u32_field: wire_field put_u32 rd_u32
  by unfold_locales
    (rule take_form_eq [where n = 4 and dec = be_word],
      simp_all only: rd_u32_def rd_word_rd_at length_put be_word_put put_u32_be_word)

interpretation u64_field: wire_field put_u64 rd_u64
  by unfold_locales
    (rule take_form_eq [where n = 8 and dec = be_word],
      simp_all only: rd_u64_def rd_word_rd_at length_put be_word_put put_u64_be_word)

lemma put_inject [simp]:
  "put_u8 a = put_u8 a' \<longleftrightarrow> a = a'" "put_u16 b = put_u16 b' \<longleftrightarrow> b = b'"
  "put_u32 c = put_u32 c' \<longleftrightarrow> c = c'" "put_u64 d = put_u64 d' \<longleftrightarrow> d = d'"
  using u8_field.put_prefix_inject [of a "[]" a' "[]"] u16_field.put_prefix_inject [of b "[]" b' "[]"]
    u32_field.put_prefix_inject [of c "[]" c' "[]"] u64_field.put_prefix_inject [of d "[]" d' "[]"]
  by auto

text \<open>A magic number is a field without content; a span is one once its size is known.\<close>

lemma rd_span_eq:
  "rd_span n (rd_at pre s) = Inr (x, r) \<longleftrightarrow>
     (\<exists>post. s = x @ post \<and> length x = n \<and> r = rd_at (pre @ x) post)"
  by (auto simp: rd_span_rd_at intro!: exI [of _ "drop n s"])

lemma require_magic_eq:
  "require_magic magic (rd_at pre s) = Inr (x, r) \<longleftrightarrow>
     (\<exists>post. s = magic @ post \<and> r = rd_at (pre @ magic) post)"
  by (auto simp: require_magic_def rd_span_eq result_simps)

interpretation magic_field: wire_field "\<lambda>_. magic" "require_magic magic" for magic
  by unfold_locales (rule require_magic_eq)

lemma rseq_span_eq:
  "rseq (rd_span n) f (rd_at pre s) = Inr y \<longleftrightarrow>
     (\<exists>x post. s = x @ post \<and> length x = n \<and> f x (rd_at (pre @ x) post) = Inr y)"
  by (auto simp: rseq_def and_then_eq_Inr rd_span_eq)

lemma rseq_magic_eq:
  "rseq (require_magic magic) f (rd_at pre s) = Inr y \<longleftrightarrow>
     (\<exists>post. s = magic @ post \<and> f () (rd_at (pre @ magic) post) = Inr y)"
  by (auto simp: magic_field.rseq_eq)

lemma rthrow_if_eq: "rthrow_if c e f r = Inr y \<longleftrightarrow> \<not> c \<and> f r = Inr y"
  by (auto simp: rthrow_if_def result_simps)

lemma rend_eq: "rend e m (rd_at pre s) = Inr y \<longleftrightarrow> s = [] \<and> m = Inr y"
  by (auto simp: rend_def result_simps)

text \<open>What a decoder accepts, as an equation on the bytes: the facts its round-trip proofs use.\<close>

lemmas decode_simps =
  new_reader_rd_at rseq_magic_eq rseq_span_eq u8_field.rseq_eq u16_field.rseq_eq u32_field.rseq_eq
  u64_field.rseq_eq rthrow_if_eq rend_eq

section \<open>The contract of a message codec\<close>

text \<open>
  A message type has an encoder and a decoder that may both throw, and \<open>repr\<close> says which values of
  the model the C++ type has (a fixed-size array is a list of that length). The contract: a decoder
  accepts exactly the encodings. So encoding then decoding gives the message back, and an accepted
  byte sequence is the one canonical encoding of what it decodes to.
\<close>

locale message_codec =
  fixes repr :: "'m \<Rightarrow> bool"
    and encode :: "'m \<Rightarrow> byte list result"
    and decode :: "byte list \<Rightarrow> 'm result"
  assumes decode_iff: "decode bs = Inr m \<longleftrightarrow> repr m \<and> encode m = Inr bs"
begin

lemma decode_encode: "repr m \<Longrightarrow> encode m = Inr bs \<Longrightarrow> decode bs = Inr m"
  by (simp add: decode_iff)

lemma encode_decode: "decode bs = Inr m \<Longrightarrow> encode m = Inr bs"
  by (simp add: decode_iff)

lemma encode_inject: "encode m = Inr bs \<Longrightarrow> encode m' = Inr bs \<Longrightarrow> repr m \<Longrightarrow> repr m' \<Longrightarrow> m = m'"
  using decode_iff [of bs m] decode_iff [of bs m'] by simp

lemma decode_inject: "decode bs = Inr m \<Longrightarrow> decode bs' = Inr m \<Longrightarrow> bs = bs'"
  using decode_iff [of bs m] decode_iff [of bs' m] by simp

text \<open>Every byte sequence is refused or is the encoding of a message, and every message is refused or
  survives the wire.\<close>

lemma codec_total:
  "(case decode bs of Inl _ \<Rightarrow> \<forall>m. repr m \<longrightarrow> encode m \<noteq> Inr bs
    | Inr m \<Rightarrow> repr m \<and> encode m = Inr bs)"
  using decode_iff [of bs] by (auto split: sum.split)

end

end
