(* ===== verification/Content_Hash.thy ===== *)
theory Content_Hash
  imports Wire
begin

text \<open>
  \<open>core/src/content_hash.cpp\<close>: the streaming SHA-256 accumulator (state words, a 64-byte block
  buffer with its fill level, a byte count, a finished flag), the one-shot digests, and the
  hexadecimal form. The reference is the block-wise definition of the standard: pad the whole
  message, cut it into 64-byte blocks, compress them in turn. The lemmas show that the accumulator
  computes the reference digest however the message is split over \<open>update\<close> calls.
\<close>

section \<open>The compression function\<close>

text \<open>The table in rows of four, as the source has it.\<close>

definition round_constants :: "u32 list" where
  "round_constants = concat [
    [0x428a2f98, 0x71374491, 0xb5c0fbcf, 0xe9b5dba5],
    [0x3956c25b, 0x59f111f1, 0x923f82a4, 0xab1c5ed5],
    [0xd807aa98, 0x12835b01, 0x243185be, 0x550c7dc3],
    [0x72be5d74, 0x80deb1fe, 0x9bdc06a7, 0xc19bf174],
    [0xe49b69c1, 0xefbe4786, 0x0fc19dc6, 0x240ca1cc],
    [0x2de92c6f, 0x4a7484aa, 0x5cb0a9dc, 0x76f988da],
    [0x983e5152, 0xa831c66d, 0xb00327c8, 0xbf597fc7],
    [0xc6e00bf3, 0xd5a79147, 0x06ca6351, 0x14292967],
    [0x27b70a85, 0x2e1b2138, 0x4d2c6dfc, 0x53380d13],
    [0x650a7354, 0x766a0abb, 0x81c2c92e, 0x92722c85],
    [0xa2bfe8a1, 0xa81a664b, 0xc24b8b70, 0xc76c51a3],
    [0xd192e819, 0xd6990624, 0xf40e3585, 0x106aa070],
    [0x19a4c116, 0x1e376c08, 0x2748774c, 0x34b0bcb5],
    [0x391c0cb3, 0x4ed8aa4a, 0x5b9cca4f, 0x682e6ff3],
    [0x748f82ee, 0x78a5636f, 0x84c87814, 0x8cc70208],
    [0x90befffa, 0xa4506ceb, 0xbef9a3f7, 0xc67178f2]]"

definition initial_state :: "u32 list" where
  "initial_state = [
    0x6a09e667, 0xbb67ae85, 0x3c6ef372, 0xa54ff53a, 0x510e527f, 0x9b05688c, 0x1f83d9ab, 0x5be0cd19]"

text \<open>The first sixteen words of the schedule are the block read as big-endian words.\<close>

definition schedule_word :: "byte list \<Rightarrow> nat \<Rightarrow> u32" where
  "schedule_word buffer index =
     push_bit 24 (ucast (buffer ! (index * 4))) OR
     push_bit 16 (ucast (buffer ! (index * 4 + 1))) OR
     push_bit 8 (ucast (buffer ! (index * 4 + 2))) OR
     ucast (buffer ! (index * 4 + 3))"

text \<open>The body of the loop that fills words 16 to 63.\<close>

definition schedule_step :: "u32 list \<Rightarrow> nat \<Rightarrow> u32 list" where
  "schedule_step schedule index =
     (let w15 = schedule ! (index - 15); w2 = schedule ! (index - 2);
          s0 = word_rotr 7 w15 XOR word_rotr 18 w15 XOR drop_bit 3 w15;
          s1 = word_rotr 17 w2 XOR word_rotr 19 w2 XOR drop_bit 10 w2
      in schedule[index := schedule ! (index - 16) + s0 + schedule ! (index - 7) + s1])"

definition message_schedule :: "byte list \<Rightarrow> u32 list" where
  "message_schedule buffer =
     foldl schedule_step (map (schedule_word buffer) [0..<16] @ replicate 48 0) [16..<64]"

text \<open>One of the 64 rounds, on the working variables \<open>a\<close> to \<open>h\<close>.\<close>

type_synonym working = "u32 \<times> u32 \<times> u32 \<times> u32 \<times> u32 \<times> u32 \<times> u32 \<times> u32"

fun compression_round :: "u32 list \<Rightarrow> working \<Rightarrow> nat \<Rightarrow> working" where
  "compression_round schedule (a, b, c, d, e, f, g, h) index =
     (let sum1 = word_rotr 6 e XOR word_rotr 11 e XOR word_rotr 25 e;
          choice = (e AND f) XOR (NOT e AND g);
          temporary1 = h + sum1 + choice + round_constants ! index + schedule ! index;
          sum0 = word_rotr 2 a XOR word_rotr 13 a XOR word_rotr 22 a;
          majority = (a AND b) XOR (a AND c) XOR (b AND c);
          temporary2 = sum0 + majority
      in (temporary1 + temporary2, a, b, c, d + temporary1, e, f, g))"

text \<open>\<open>Sha256Accumulator::transform\<close>, on the state words and the block in the buffer.\<close>

definition transform :: "u32 list \<Rightarrow> byte list \<Rightarrow> u32 list" where
  "transform state buffer =
     (let schedule = message_schedule buffer;
          (a, b, c, d, e, f, g, h) =
            foldl (compression_round schedule)
              (state ! 0, state ! 1, state ! 2, state ! 3, state ! 4, state ! 5, state ! 6, state ! 7)
              [0..<64]
      in [state ! 0 + a, state ! 1 + b, state ! 2 + c, state ! 3 + d,
          state ! 4 + e, state ! 5 + f, state ! 6 + g, state ! 7 + h])"

section \<open>The accumulator\<close>

record accumulator =
  acc_state :: "u32 list"
  acc_buffer :: "byte list"
  acc_buffer_size :: nat
  acc_total_bytes :: u64
  acc_finished :: bool

definition new_accumulator :: accumulator where
  "new_accumulator = \<lparr>acc_state = initial_state, acc_buffer = replicate 64 0,
     acc_buffer_size = 0, acc_total_bytes = 0, acc_finished = False\<rparr>"

definition bytes_received :: "accumulator \<Rightarrow> u64" where
  "bytes_received acc = acc_total_bytes acc + of_nat (acc_buffer_size acc)"

text \<open>The body of the loop of \<open>update\<close>.\<close>

definition push_byte :: "accumulator \<Rightarrow> byte \<Rightarrow> accumulator" where
  "push_byte acc v =
     (let buffer = (acc_buffer acc)[acc_buffer_size acc := v]; n = acc_buffer_size acc + 1
      in if n = 64
         then acc\<lparr>acc_state := transform (acc_state acc) buffer, acc_buffer := buffer,
                 acc_buffer_size := 0, acc_total_bytes := acc_total_bytes acc + 64\<rparr>
         else acc\<lparr>acc_buffer := buffer, acc_buffer_size := n\<rparr>)"

definition update :: "accumulator \<Rightarrow> byte list \<Rightarrow> accumulator result" where
  "update acc input =
     (if acc_finished acc then throw (Logic_error ''SHA-256 accumulator is already finished'')
      else if length input > unat (- 1 - bytes_received acc)
      then throw (Overflow_error ''SHA-256 input length overflow'')
      else ok (foldl push_byte acc input))"

text \<open>\<open>std::fill\<close> of the positions from \<open>a\<close> up to \<open>b\<close>.\<close>

definition fill_zero :: "nat \<Rightarrow> nat \<Rightarrow> byte list \<Rightarrow> byte list" where
  "fill_zero a b buffer = take a buffer @ replicate (b - a) 0 @ drop b buffer"

text \<open>The loop that writes the bit length, from the last byte of the block backwards.\<close>

definition write_length :: "u64 \<Rightarrow> byte list \<Rightarrow> byte list" where
  "write_length bit_length buffer =
     foldl (\<lambda>buf index. buf[63 - index := ucast (drop_bit (index * 8) bit_length)]) buffer [0..<8]"

definition digest_of_state :: "u32 list \<Rightarrow> byte list" where
  "digest_of_state state =
     concat (map (\<lambda>w. map (\<lambda>byte. ucast (drop_bit ((3 - byte) * 8) w)) [0..<4]) state)"

definition finish :: "accumulator \<Rightarrow> (byte list \<times> accumulator) result" where
  "finish acc =
     (if acc_finished acc then throw (Logic_error ''SHA-256 accumulator is already finished'')
      else
        let message_bytes = bytes_received acc;
            buffer = (acc_buffer acc)[acc_buffer_size acc := 0x80];
            n = acc_buffer_size acc + 1;
            (state, buffer, n) =
              (if n > 56
               then let buffer = fill_zero n 64 buffer in (transform (acc_state acc) buffer, buffer, 0)
               else (acc_state acc, buffer, n));
            buffer = write_length (message_bytes * 8) (fill_zero n 56 buffer);
            state = transform state buffer
        in ok (digest_of_state state,
             acc\<lparr>acc_state := state, acc_buffer := buffer, acc_buffer_size := n,
                 acc_finished := True\<rparr>))"

section \<open>Digests and their hexadecimal form\<close>

definition sha256 :: "byte list \<Rightarrow> byte list result" where
  "sha256 bs = and_then (update new_accumulator bs) (\<lambda>acc. and_then (finish acc) (\<lambda>(d, _). ok d))"

definition hex_digits :: string where
  "hex_digits = ''0123456789abcdef''"

definition to_hex :: "byte list \<Rightarrow> string" where
  "to_hex digest = concat (map (\<lambda>v. [hex_digits ! unat (drop_bit 4 v AND 0x0f), hex_digits ! unat (v AND 0x0f)]) digest)"

definition sha256_hex :: "byte list \<Rightarrow> string result" where
  "sha256_hex bs = and_then (sha256 bs) (\<lambda>d. ok (to_hex d))"

definition sha256_hex_text :: "string \<Rightarrow> string result" where
  "sha256_hex_text text = sha256_hex (as_bytes text)"

definition is_lower_hex_digit :: "char \<Rightarrow> bool" where
  "is_lower_hex_digit c \<longleftrightarrow>
     (let character = (of_char c :: nat)
      in (48 \<le> character \<and> character \<le> 57) \<or> (97 \<le> character \<and> character \<le> 102))"

definition is_sha256_hex :: "string \<Rightarrow> bool" where
  "is_sha256_hex value \<longleftrightarrow> length value = 64 \<and> list_all is_lower_hex_digit value"

text \<open>
  \<open>sha256_file\<close> feeds the accumulator with reads of at most 64 KiB. The file is its content, or
  \<open>None\<close> when it cannot be opened; the stream may fail before it has reached the end, when \<open>readable\<close> is false.
  The disks of this development read every file that they open.
\<close>

fun update_all :: "accumulator \<Rightarrow> byte list list \<Rightarrow> accumulator result" where
  "update_all acc [] = ok acc"
| "update_all acc (input # inputs) = and_then (update acc input) (\<lambda>acc'. update_all acc' inputs)"

fun file_reads :: "byte list \<Rightarrow> byte list list" where
  "file_reads content =
     (if content = [] then [] else take 65536 content # file_reads (drop 65536 content))"

declare file_reads.simps [simp del]

definition sha256_stream :: "bool \<Rightarrow> byte list option \<Rightarrow> string result" where
  "sha256_stream readable file = (case file of
     None \<Rightarrow> throw (Runtime_error ''content file could not be opened'')
   | Some content \<Rightarrow> and_then (update_all new_accumulator (file_reads content)) (\<lambda>acc.
       if \<not> readable then throw (Runtime_error ''content file could not be read'')
       else and_then (finish acc) (\<lambda>(d, _). ok (to_hex d))))"

definition sha256_file :: "byte list option \<Rightarrow> string result" where
  "sha256_file file = sha256_stream True file"

section \<open>The reference definition\<close>

text \<open>The message with a one bit, zeros up to 56 modulo 64, and its length in bits.\<close>

definition pad :: "byte list \<Rightarrow> byte list" where
  "pad bs = bs @ [0x80] @ replicate ((119 - length bs mod 64) mod 64) 0 @ put_u64 (of_nat (length bs) * 8)"

fun blocks :: "byte list \<Rightarrow> byte list list" where
  "blocks bs = (if length bs < 64 then [] else take 64 bs # blocks (drop 64 bs))"

declare blocks.simps [simp del]

definition sha256_reference :: "byte list \<Rightarrow> byte list" where
  "sha256_reference bs = concat (map put_u32 (foldl transform initial_state (blocks (pad bs))))"

section \<open>The accumulator holds the compressed blocks and the bytes left over\<close>

definition whole_blocks :: "byte list list \<Rightarrow> bool" where
  "whole_blocks bss \<longleftrightarrow> (\<forall>b\<in>set bss. length b = 64)"

lemma blocks_short [simp]: "length bs < 64 \<Longrightarrow> blocks bs = []"
  by (simp add: blocks.simps)

lemma blocks_block [simp]: "length b = 64 \<Longrightarrow> blocks (b @ bs) = b # blocks bs"
  by (subst blocks.simps) simp

lemma blocks_concat: "whole_blocks bss \<Longrightarrow> blocks (concat bss @ bs) = bss @ blocks bs"
  by (induction bss) (auto simp: whole_blocks_def)

lemma length_whole_blocks: "whole_blocks bss \<Longrightarrow> length (concat bss) = 64 * length bss"
  by (induction bss) (auto simp: whole_blocks_def)

definition consumed :: "byte list \<Rightarrow> accumulator \<Rightarrow> bool" where
  "consumed bs acc \<longleftrightarrow> (\<exists>bss rest.
     bs = concat bss @ rest \<and> whole_blocks bss \<and> length rest < 64 \<and>
     acc_state acc = foldl transform initial_state bss \<and>
     acc_buffer_size acc = length rest \<and> length (acc_buffer acc) = 64 \<and>
     take (length rest) (acc_buffer acc) = rest \<and>
     acc_total_bytes acc = of_nat (64 * length bss) \<and> \<not> acc_finished acc)"

lemma consumed_new: "consumed [] new_accumulator"
  by (auto simp: consumed_def new_accumulator_def whole_blocks_def intro!: exI [of _ "[]"])

lemma consumed_push:
  assumes "consumed bs acc"
  shows "consumed (bs @ [v]) (push_byte acc v)"
proof -
  obtain bss rest where bs: "bs = concat bss @ rest" and whole: "whole_blocks bss"
    and len: "length rest < 64" and state: "acc_state acc = foldl transform initial_state bss"
    and size: "acc_buffer_size acc = length rest" and blen: "length (acc_buffer acc) = 64"
    and buf: "take (length rest) (acc_buffer acc) = rest"
    and total: "acc_total_bytes acc = of_nat (64 * length bss)" and fin: "\<not> acc_finished acc"
    using assms unfolding consumed_def by blast
  have taken: "take (Suc (length rest)) ((acc_buffer acc)[length rest := v]) = rest @ [v]"
    using len blen buf by (simp add: take_Suc_conv_app_nth)
  show ?thesis
  proof (cases "length rest = 63")
    case True
    then have "(acc_buffer acc)[length rest := v] = rest @ [v]"
      using taken blen by simp
    then show ?thesis
      using bs whole state size total fin True unfolding consumed_def
      by (intro exI [of _ "bss @ [rest @ [v]]"] exI [of _ "[]"])
        (auto simp: push_byte_def Let_def whole_blocks_def)
  next
    case False
    then show ?thesis
      using bs whole len state size blen taken total fin unfolding consumed_def
      by (intro exI [of _ bss] exI [of _ "rest @ [v]"]) (auto simp: push_byte_def Let_def)
  qed
qed

lemma consumed_foldl: "consumed bs acc \<Longrightarrow> consumed (bs @ cs) (foldl push_byte acc cs)"
proof (induction cs arbitrary: bs acc)
  case Nil
  then show ?case by simp
next
  case (Cons c cs)
  show ?case
    using Cons.IH [OF consumed_push [OF Cons.prems, of c]] by simp
qed

lemma consumed_bytes_received: "consumed bs acc \<Longrightarrow> bytes_received acc = of_nat (length bs)"
  by (auto simp: consumed_def bytes_received_def length_whole_blocks)

lemma update_ok:
  assumes "consumed bs acc" "length bs + length cs < 2 ^ 64"
  shows "\<exists>acc'. update acc cs = Inr acc' \<and> consumed (bs @ cs) acc'"
proof -
  have received: "bytes_received acc = of_nat (length bs)"
    using assms(1) by (rule consumed_bytes_received)
  have "unat (- 1 - bytes_received acc) = 2 ^ 64 - 1 - length bs"
    using assms(2)
    by (simp add: received unat_sub unat_of_nat unsigned_minus_1_eq_mask mask_eq_exp_minus_1)
  then have "length cs \<le> unat (- 1 - bytes_received acc)"
    using assms(2) by simp
  then show ?thesis
    using assms(1) consumed_foldl [OF assms(1), of cs] by (auto simp: update_def consumed_def)
qed

lemma write_length_eq:
  assumes "length buffer = 64"
  shows "write_length n buffer = take 56 buffer @ put_u64 n"
proof (rule nth_equalityI)
  show "length (write_length n buffer) = length (take 56 buffer @ put_u64 n)"
    using assms by (simp add: write_length_def upt_rec)
next
  fix i assume "i < length (write_length n buffer)"
  then have i: "i < 64"
    using assms by (simp add: write_length_def upt_rec)
  show "write_length n buffer ! i = (take 56 buffer @ put_u64 n) ! i"
  proof (cases "i < 56")
    case True
    then show ?thesis
      using assms by (simp add: write_length_def upt_rec nth_append)
  next
    case False
    then have "i \<in> {56, 57, 58, 59, 60, 61, 62, 63}"
      using i by auto
    then show ?thesis
      using assms
      by (auto simp: write_length_def upt_rec nth_append put_u64_def and_ff)
  qed
qed

lemma write_length_fill_zero:
  "length buffer = 64 \<Longrightarrow> a \<le> 56 \<Longrightarrow>
     write_length n (fill_zero a 56 buffer) = take a buffer @ replicate (56 - a) 0 @ put_u64 n"
  by (simp add: fill_zero_def write_length_eq)

lemma digest_of_state_eq: "digest_of_state state = concat (map put_u32 state)"
  proof -
  have "put_u32 = (\<lambda>w. map (\<lambda>byte. ucast (drop_bit ((3 - byte) * 8) w)) [0..<4])"
    by (rule ext) (simp add: put_u32_def and_ff upt_rec)
  then show ?thesis
    by (simp add: digest_of_state_def)
qed

text \<open>The padded message ends in one or two blocks, as the two branches of \<open>finish\<close> build them.\<close>

lemma pad_rest:
  assumes "whole_blocks bss" "length rest < 64"
  shows "blocks (pad (concat bss @ rest)) = bss @
    (if length rest < 56
     then [rest @ 0x80 # replicate (55 - length rest) 0 @ put_u64 (of_nat (length (concat bss @ rest)) * 8)]
     else [rest @ 0x80 # replicate (63 - length rest) 0,
           replicate 56 0 @ put_u64 (of_nat (length (concat bss @ rest)) * 8)])"
proof -
  let ?len = "put_u64 (of_nat (length (concat bss @ rest)) * 8)"
  have r: "length (concat bss @ rest) mod 64 = length rest"
    using assms by (simp add: length_whole_blocks)
  have "pad (concat bss @ rest) =
      concat bss @ (rest @ 0x80 # replicate ((119 - length rest) mod 64) 0 @ ?len)"
    by (simp only: pad_def r) simp
  then have blocks: "blocks (pad (concat bss @ rest)) =
      bss @ blocks (rest @ 0x80 # replicate ((119 - length rest) mod 64) 0 @ ?len)"
    by (simp only: blocks_concat [OF assms(1)])
  show ?thesis
  proof (cases "length rest < 56")
    case True
    then have "(119 - length rest) mod 64 = 55 - length rest"
      by (simp add: mod_if)
    then show ?thesis
      using True blocks blocks_block [of "rest @ 0x80 # replicate (55 - length rest) 0 @ ?len" "[]"]
      by simp
  next
    case False
    then have "(119 - length rest) mod 64 = (63 - length rest) + 56"
      using assms(2) by (simp add: mod_if)
    then have "replicate ((119 - length rest) mod 64) (0 :: byte) =
        replicate (63 - length rest) 0 @ replicate 56 0"
      by (simp only: replicate_add)
    then show ?thesis
      using False assms(2) blocks blocks_block [of "rest @ 0x80 # replicate (63 - length rest) 0"
          "replicate 56 0 @ ?len"] blocks_block [of "replicate 56 0 @ ?len" "[]"]
      by simp
  qed
qed

lemma finish_ok:
  assumes "consumed bs acc"
  shows "\<exists>acc'. finish acc = Inr (sha256_reference bs, acc') \<and> acc_finished acc'"
proof -
  obtain bss rest where bs: "bs = concat bss @ rest" and whole: "whole_blocks bss"
    and len: "length rest < 64" and state: "acc_state acc = foldl transform initial_state bss"
    and size: "acc_buffer_size acc = length rest" and blen: "length (acc_buffer acc) = 64"
    and buf: "take (length rest) (acc_buffer acc) = rest" and fin: "\<not> acc_finished acc"
    using assms unfolding consumed_def by blast
  have received: "bytes_received acc = of_nat (length (concat bss @ rest))"
    using consumed_bytes_received [OF assms] bs by simp
  have taken: "take (Suc (length rest)) ((acc_buffer acc)[length rest := 0x80]) = rest @ [0x80]"
    using len blen buf by (simp add: take_Suc_conv_app_nth)
  show ?thesis
  proof (cases "length rest < 56")
    case True
    have "write_length n (fill_zero (length rest + 1) 56 ((acc_buffer acc)[length rest := 0x80])) =
        rest @ 0x80 # replicate (55 - length rest) 0 @ put_u64 n" for n
      using True taken blen by (subst write_length_fill_zero) simp_all
    then show ?thesis
      using True fin received size state
      by (simp add: finish_def Let_def bs sha256_reference_def digest_of_state_eq
          pad_rest [OF whole len])
  next
    case False
    have "fill_zero (length rest + 1) 64 ((acc_buffer acc)[length rest := 0x80]) =
        rest @ 0x80 # replicate (63 - length rest) 0"
      using taken blen by (simp add: fill_zero_def)
    moreover have "write_length n (fill_zero 0 56 b) = replicate 56 0 @ put_u64 n"
      if "length b = 64" for n b
      using that by (subst write_length_fill_zero) simp_all
    ultimately show ?thesis
      using False len fin received size state
      by (simp add: finish_def Let_def bs sha256_reference_def digest_of_state_eq
          pad_rest [OF whole len])
  qed
qed

section \<open>What a digest is to the rest of the program\<close>

lemma update_all_ok:
  "consumed bs acc \<Longrightarrow> length bs + length (concat css) < 2 ^ 64 \<Longrightarrow>
     \<exists>acc'. update_all acc css = Inr acc' \<and> consumed (bs @ concat css) acc'"
proof (induction css arbitrary: bs acc)
  case Nil
  then show ?case by simp
next
  case (Cons c css)
  obtain acc' where acc': "update acc c = Inr acc'" "consumed (bs @ c) acc'"
    using update_ok [of bs acc c] Cons.prems by auto
  then show ?case
    using Cons.IH [of "bs @ c" acc'] Cons.prems by simp
qed

lemma sha256_eq_reference: "length bs < 2 ^ 64 \<Longrightarrow> sha256 bs = Inr (sha256_reference bs)"
  using update_ok [OF consumed_new, of bs] finish_ok by (fastforce simp: sha256_def)

lemma concat_file_reads [simp]: "concat (file_reads content) = content"
proof (induction content rule: file_reads.induct)
  case (1 content)
  then show ?case
    by (subst file_reads.simps) simp
qed

lemma length_transform [simp]: "length (transform state buffer) = 8"
  by (simp add: transform_def Let_def split: prod.split)

lemma length_foldl_transform: "length state = 8 \<Longrightarrow> length (foldl transform state bss) = 8"
  by (induction bss arbitrary: state) simp_all

lemma length_concat_put_u32: "length (concat (map put_u32 ws)) = 4 * length ws"
  by (induction ws) simp_all

lemma length_sha256_reference [simp]: "length (sha256_reference bs) = 32"
  by (simp add: sha256_reference_def length_concat_put_u32 length_foldl_transform initial_state_def)

lemma sha256_length: "sha256 bs = Inr d \<Longrightarrow> length d = 32"
proof -
  assume "sha256 bs = Inr d"
  then obtain acc acc' where acc: "update new_accumulator bs = Inr acc" and fin: "finish acc = Inr (d, acc')"
    by (auto simp: sha256_def result_simps)
  have "consumed bs acc"
    using acc consumed_foldl [OF consumed_new, of bs] by (auto simp: update_def split: if_splits)
  from finish_ok [OF this] fin show ?thesis
    by auto
qed

lemma length_to_hex [simp]: "length (to_hex d) = 2 * length d"
  by (induction d) (simp_all add: to_hex_def)

lemma nibble_cases:
  fixes v :: byte
  shows "unat (v AND 0x0f) < 16" "unat (drop_bit 4 v AND 0x0f) < 16"
proof -
  have "x AND 0x0f = take_bit 4 x" for x :: byte
    by (simp add: take_bit_eq_mask mask_eq_exp_minus_1)
  then show "unat (v AND 0x0f) < 16" "unat (drop_bit 4 v AND 0x0f) < 16"
    using take_bit_nat_less_exp [of 4] by (simp_all add: unsigned_take_bit_eq)
qed

lemma hex_digits_lower: "n < 16 \<Longrightarrow> is_lower_hex_digit (hex_digits ! n)"
proof -
  assume "n < 16"
  then have "n \<in> set [0..<16]" by simp
  then show ?thesis
    by (auto simp: upt_rec hex_digits_def is_lower_hex_digit_def)
qed

lemma list_all_to_hex: "list_all is_lower_hex_digit (to_hex d)"
  by (induction d) (simp_all add: to_hex_def hex_digits_lower nibble_cases)

lemma is_sha256_hex_sha256: "sha256_hex bs = Inr h \<Longrightarrow> is_sha256_hex h"
  by (auto simp: sha256_hex_def result_simps is_sha256_hex_def list_all_to_hex dest: sha256_length)

section \<open>Properties\<close>

text \<open>C29. However the input is cut into chunks, feeding them to a new accumulator and finishing it
  gives the digest of the padded message as SHA-256 defines it, block by block, and the finished
  accumulator takes no further input.\<close>

theorem sha256_streaming:
  assumes "length (concat chunks) < 2 ^ 64"
  shows "\<exists>acc acc'. update_all new_accumulator chunks = Inr acc \<and>
    finish acc = Inr (sha256_reference (concat chunks), acc') \<and>
    (\<forall>more. \<not> succeeds (update acc' more)) \<and> \<not> succeeds (finish acc')"
proof -
  obtain acc where acc: "update_all new_accumulator chunks = Inr acc" "consumed (concat chunks) acc"
    using update_all_ok [OF consumed_new, of chunks] assms by auto
  obtain acc' where acc': "finish acc = Inr (sha256_reference (concat chunks), acc')" "acc_finished acc'"
    using finish_ok [OF acc(2)] by blast
  then have "(\<forall>more. \<not> succeeds (update acc' more)) \<and> \<not> succeeds (finish acc')"
    by (simp add: update_def finish_def)
  with acc acc' show ?thesis by blast
qed

theorem sha256_streaming_witness:
  "\<exists>acc acc'. update_all new_accumulator [[0x61], [], [0x62, 0x63]] = Inr acc \<and>
    finish acc = Inr (sha256_reference (concat [[0x61], [], [0x62, 0x63]]), acc') \<and>
    (\<forall>more. \<not> succeeds (update acc' more)) \<and> \<not> succeeds (finish acc')"
  by (rule sha256_streaming) simp

text \<open>The name a file's content gets is the same whether the file is read in buffers or hashed in
  memory: 64 lower-case hexadecimal digits that spell the SHA-256 of the content.\<close>

theorem sha256_file_names_content:
  assumes "length content < 2 ^ 64"
  shows "sha256_file (Some content) = sha256_hex content \<and>
    sha256_hex content = Inr (to_hex (sha256_reference content)) \<and>
    is_sha256_hex (to_hex (sha256_reference content))"
proof -
  have "sha256_file (Some content) = Inr (to_hex (sha256_reference content))"
    using update_all_ok [OF consumed_new, of "file_reads content"] finish_ok assms
    by (fastforce simp: sha256_file_def sha256_stream_def)
  then show ?thesis
    using sha256_eq_reference [OF assms] by (simp add: sha256_hex_def is_sha256_hex_def list_all_to_hex)
qed

theorem sha256_file_names_content_witness:
  "sha256_file (Some [0x61]) = sha256_hex [0x61] \<and>
    sha256_hex [0x61] = Inr (to_hex (sha256_reference [0x61])) \<and>
    is_sha256_hex (to_hex (sha256_reference [0x61]))"
  by (rule sha256_file_names_content) simp

end
