(* ===== verification/Authorization.thy ===== *)
theory Authorization
  imports Prelude
begin

text \<open>
  \<open>core/src/authorization.cpp\<close>: capabilities and their wire names, policies, and the decision
  which of the requested capabilities a principal is granted. Every session and every desktop
  operation asks \<open>permits\<close> of the result.
\<close>

datatype principal_kind = human | device | agent

record principal =
  prin_id :: string
  prin_kind :: principal_kind

datatype capability =
    desktop_view | desktop_control | clipboard_read | clipboard_write | workspace_read
  | workspace_write | workspace_sync | terminal_open | command_exec | build_submit | test_run
  | artifact_read | artifact_download | deploy_execute | agent_run | git_status | git_diff
  | system_admin

fun capability_to_string :: "capability \<Rightarrow> string" where
  "capability_to_string desktop_view = ''desktop.view''"
| "capability_to_string desktop_control = ''desktop.control''"
| "capability_to_string clipboard_read = ''clipboard.read''"
| "capability_to_string clipboard_write = ''clipboard.write''"
| "capability_to_string workspace_read = ''workspace.read''"
| "capability_to_string workspace_write = ''workspace.write''"
| "capability_to_string workspace_sync = ''workspace.sync''"
| "capability_to_string terminal_open = ''terminal.open''"
| "capability_to_string command_exec = ''command.exec''"
| "capability_to_string build_submit = ''build.submit''"
| "capability_to_string test_run = ''test.run''"
| "capability_to_string artifact_read = ''artifact.read''"
| "capability_to_string artifact_download = ''artifact.download''"
| "capability_to_string deploy_execute = ''deploy.execute''"
| "capability_to_string agent_run = ''agent.run''"
| "capability_to_string git_status = ''git.status''"
| "capability_to_string git_diff = ''git.diff''"
| "capability_to_string system_admin = ''system.admin''"

text \<open>The array that \<open>capability_from_string\<close> searches, and the search.\<close>

definition capabilities :: "capability list" where
  "capabilities = [desktop_view, desktop_control, clipboard_read, clipboard_write, workspace_read,
     workspace_write, workspace_sync, terminal_open, command_exec, build_submit, test_run,
     artifact_read, artifact_download, deploy_execute, agent_run, git_status, git_diff,
     system_admin]"

definition capability_from_string :: "string \<Rightarrow> capability option" where
  "capability_from_string name = List.find (\<lambda>c. capability_to_string c = name) capabilities"

record capability_request =
  cr_principal :: principal
  cr_workspace :: string
  cr_requested :: "capability set"

record policy =
  pol_principal_id :: string
  pol_workspaces :: "string set"
  pol_allowed :: "capability set"

record authorization_result =
  ar_principal_matched :: bool
  ar_workspace_allowed :: bool
  ar_granted :: "capability set"
  ar_denied :: "capability set"

definition permits :: "authorization_result \<Rightarrow> capability \<Rightarrow> bool" where
  "permits r c \<longleftrightarrow> ar_principal_matched r \<and> ar_workspace_allowed r \<and> c \<in> ar_granted r"

text \<open>
  The loop of \<open>authorize\<close> puts each requested capability into one of the two sets; over a set the
  order does not matter.
\<close>

definition authorize :: "capability_request \<Rightarrow> policy \<Rightarrow> authorization_result" where
  "authorize request pol =
     (let matched = prin_id (cr_principal request) \<noteq> [] \<and>
            prin_id (cr_principal request) = pol_principal_id pol;
          allowed = cr_workspace request \<noteq> [] \<and> cr_workspace request \<in> pol_workspaces pol;
          grant = (\<lambda>c. matched \<and> allowed \<and> c \<in> pol_allowed pol)
      in \<lparr>ar_principal_matched = matched, ar_workspace_allowed = allowed,
          ar_granted = Set.filter grant (cr_requested request),
          ar_denied = Set.filter (\<lambda>c. \<not> grant c) (cr_requested request)\<rparr>)"

definition default_agent_policy :: "string \<Rightarrow> string \<Rightarrow> policy" where
  "default_agent_policy principal_id workspace =
     \<lparr>pol_principal_id = principal_id, pol_workspaces = {workspace},
      pol_allowed = {workspace_read, workspace_write, build_submit, test_run, artifact_read,
        git_status, git_diff}\<rparr>"

section \<open>Lemmas\<close>

lemma capability_in_capabilities: "c \<in> set capabilities"
  by (cases c) (simp_all add: capabilities_def)

lemma capability_to_string_inject: "capability_to_string c = capability_to_string d \<longleftrightarrow> c = d"
  by (cases c; cases d) simp_all

lemma capability_from_string_Some:
  "capability_from_string name = Some c \<longleftrightarrow> capability_to_string c = name"
proof
  assume "capability_from_string name = Some c"
  then show "capability_to_string c = name"
    by (auto simp: capability_from_string_def find_Some_iff)
next
  assume eq: "capability_to_string c = name"
  then have "capability_from_string name \<noteq> None"
    using capability_in_capabilities [of c] by (auto simp: capability_from_string_def find_None_iff)
  then show "capability_from_string name = Some c"
    using eq by (auto simp: capability_from_string_def find_Some_iff capability_to_string_inject)
qed

lemma permits_authorize:
  "permits (authorize request pol) c \<longleftrightarrow>
     prin_id (cr_principal request) \<noteq> [] \<and> prin_id (cr_principal request) = pol_principal_id pol \<and>
     cr_workspace request \<noteq> [] \<and> cr_workspace request \<in> pol_workspaces pol \<and>
     c \<in> cr_requested request \<and> c \<in> pol_allowed pol"
  by (auto simp: permits_def authorize_def Let_def)

lemma authorize_partition:
  "ar_granted (authorize request pol) \<union> ar_denied (authorize request pol) = cr_requested request"
  "ar_granted (authorize request pol) \<inter> ar_denied (authorize request pol) = {}"
  by (auto simp: authorize_def Let_def)

text \<open>A grant without a matching principal and workspace never happens.\<close>

lemma authorize_granted_permits: "c \<in> ar_granted (authorize request pol) \<longleftrightarrow> permits (authorize request pol) c"
  by (auto simp: authorize_def permits_def Let_def)

section \<open>Properties\<close>

text \<open>A capability is permitted exactly when the principal is named and matches the policy, the
  workspace is named and listed in it, and the capability is both requested and allowed; every
  requested capability is either granted or denied, never both.\<close>

theorem authorize_sound_complete:
  "(\<forall>c. permits (authorize request pol) c =
      (prin_id (cr_principal request) \<noteq> [] \<and>
       prin_id (cr_principal request) = pol_principal_id pol \<and>
       cr_workspace request \<noteq> [] \<and> cr_workspace request \<in> pol_workspaces pol \<and>
       c \<in> cr_requested request \<and> c \<in> pol_allowed pol)) \<and>
   ar_granted (authorize request pol) \<union> ar_denied (authorize request pol) = cr_requested request \<and>
   ar_granted (authorize request pol) \<inter> ar_denied (authorize request pol) = {}"
  by (simp add: permits_authorize authorize_partition)

text \<open>Capability names parse back to the capability they print, and to nothing else.\<close>

theorem capability_names_roundtrip:
  "(capability_from_string name = Some c) = (capability_to_string c = name)"
  by (rule capability_from_string_Some)

end
