(* ===== verification/Identity.thy ===== *)
theory Identity
  imports Prelude
begin

text \<open>
  \<open>core/src/identity.cpp\<close>: paired devices with their certificates, the registry that verifies a
  presented certificate, the discovery cache of advertised nodes, the mutual-TLS trust gate and the
  pairing service that turns a six-digit code into a registered device. Time points and durations
  are integers in one clock unit.
\<close>

type_synonym time_point = int
type_synonym duration = int

abbreviation minutes_unit :: duration where
  "minutes_unit \<equiv> 60000000"

abbreviation hours_unit :: duration where
  "hours_unit \<equiv> 3600000000"

section \<open>Validation helpers\<close>

definition is_digit :: "char \<Rightarrow> bool" where
  "is_digit c \<longleftrightarrow> 48 \<le> (of_char c :: nat) \<and> (of_char c :: nat) \<le> 57"

definition is_six_digits :: "string \<Rightarrow> bool" where
  "is_six_digits value \<longleftrightarrow> length value = 6 \<and> list_all is_digit value"

definition is_canonical_fingerprint :: "string \<Rightarrow> bool" where
  "is_canonical_fingerprint fingerprint \<longleftrightarrow> length fingerprint = 64 \<and>
     list_all (\<lambda>c. is_digit c \<or> (97 \<le> (of_char c :: nat) \<and> (of_char c :: nat) \<le> 102)) fingerprint"

text \<open>
  The comparison that looks at every character: \<open>difference\<close> starts with the low byte of the
  exclusive or of the lengths and collects the differences of all positions, a missing character
  counting as zero.
\<close>

definition char_or_zero :: "string \<Rightarrow> nat \<Rightarrow> byte" where
  "char_or_zero s index = (if index < length s then of_nat (of_char (s ! index)) else 0)"

definition constant_time_equals :: "string \<Rightarrow> string \<Rightarrow> bool" where
  "constant_time_equals left right =
     (let size = max (length left) (length right);
          difference = ucast ((of_nat (length left) :: u64) XOR of_nat (length right)) :: byte
      in foldl (\<lambda>d index. d OR (char_or_zero left index XOR char_or_zero right index))
           difference [0..<size] = 0)"

definition require_nonempty :: "string \<Rightarrow> string \<Rightarrow> unit result" where
  "require_nonempty value label =
     throw_if (value = []) (Invalid_argument (label @ '' must not be empty''))"

section \<open>Devices\<close>

record peer_certificate =
  cert_device_id :: string
  cert_fingerprint :: string
  cert_serial :: string
  cert_not_before :: time_point
  cert_not_after :: time_point

record paired_device =
  dev_id :: string
  dev_display_name :: string
  dev_fingerprint :: string
  dev_certificate :: peer_certificate
  dev_revoked :: bool

datatype peer_verification =
  peer_accepted | unknown_device | fingerprint_mismatch | peer_revoked | not_yet_valid | expired

type_synonym device_registry = "string \<rightharpoonup> paired_device"

definition registry_pair :: "device_registry \<Rightarrow> paired_device \<Rightarrow> device_registry result" where
  "registry_pair devices dev =
     and_then (require_nonempty (dev_id dev) ''device id'') (\<lambda>_.
     if \<not> is_canonical_fingerprint (dev_fingerprint dev) \<or>
        cert_device_id (dev_certificate dev) \<noteq> dev_id dev \<or>
        cert_fingerprint (dev_certificate dev) \<noteq> dev_fingerprint dev \<or>
        cert_serial (dev_certificate dev) = []
     then throw (Invalid_argument ''invalid paired device certificate'')
     else if cert_not_before (dev_certificate dev) \<ge> cert_not_after (dev_certificate dev)
     then throw (Invalid_argument ''invalid certificate lifetime'')
     else if devices (dev_id dev) \<noteq> None
     then throw (Invalid_argument ''device is already paired'')
     else ok (devices(dev_id dev \<mapsto> dev)))"

definition registry_revoke :: "device_registry \<Rightarrow> string \<Rightarrow> device_registry result" where
  "registry_revoke devices device_id = (case devices device_id of
     None \<Rightarrow> throw (Invalid_argument ''unknown device cannot be revoked'')
   | Some dev \<Rightarrow> ok (devices(device_id \<mapsto> dev\<lparr>dev_revoked := True\<rparr>)))"

definition registry_verify ::
  "device_registry \<Rightarrow> peer_certificate \<Rightarrow> time_point \<Rightarrow> peer_verification" where
  "registry_verify devices certificate now = (case devices (cert_device_id certificate) of
     None \<Rightarrow> unknown_device
   | Some dev \<Rightarrow>
       if cert_serial (dev_certificate dev) \<noteq> cert_serial certificate then unknown_device
       else if \<not> constant_time_equals (dev_fingerprint dev) (cert_fingerprint certificate)
       then fingerprint_mismatch
       else if dev_revoked dev then peer_revoked
       else if now < cert_not_before certificate then not_yet_valid
       else if now \<ge> cert_not_after certificate then expired
       else peer_accepted)"

section \<open>Discovery\<close>

record node_advertisement =
  node_id :: string
  node_name :: string
  node_lan_endpoint :: string
  node_fingerprint :: string

record observed_node =
  obs_advertisement :: node_advertisement
  obs_observed_at :: time_point

record discovery_cache =
  dc_nodes :: "string \<rightharpoonup> observed_node"
  dc_max_age :: duration

definition discovery_observe ::
  "discovery_cache \<Rightarrow> node_advertisement \<Rightarrow> time_point \<Rightarrow> discovery_cache result" where
  "discovery_observe cache ad now =
     (if dc_max_age cache \<le> 0
      then throw (Logic_error ''discovery cache lifetime must be positive'')
      else and_then (require_nonempty (node_id ad) ''node id'') (\<lambda>_.
        and_then (require_nonempty (node_name ad) ''node name'') (\<lambda>_.
        and_then (require_nonempty (node_lan_endpoint ad) ''node endpoint'') (\<lambda>_.
        if \<not> is_canonical_fingerprint (node_fingerprint ad)
        then throw (Invalid_argument ''invalid node fingerprint'')
        else ok (cache\<lparr>dc_nodes := (dc_nodes cache)(node_id ad \<mapsto>
               \<lparr>obs_advertisement = ad, obs_observed_at = now\<rparr>)\<rparr>)))))"

definition discovery_find ::
  "discovery_cache \<Rightarrow> string \<Rightarrow> time_point \<Rightarrow> node_advertisement option" where
  "discovery_find cache nid now = (case dc_nodes cache nid of
     None \<Rightarrow> None
   | Some obs \<Rightarrow>
       if now < obs_observed_at obs \<or> now - obs_observed_at obs > dc_max_age cache then None
       else Some (obs_advertisement obs))"

section \<open>The mutual-TLS trust gate\<close>

record mtls_peer_evidence =
  ev_tls_1_3_negotiated :: bool
  ev_client_certificate_present :: bool
  ev_certificate_chain_valid :: bool
  ev_revocation_checked :: bool
  ev_certificate :: peer_certificate

datatype mtls_verification =
    mtls_accepted | tls_version_rejected | certificate_missing | certificate_chain_rejected
  | revocation_unverified | certificate_rejected

definition trust_gate_verify ::
  "mtls_peer_evidence \<Rightarrow> device_registry \<Rightarrow> time_point \<Rightarrow> mtls_verification" where
  "trust_gate_verify evidence registry now =
     (if \<not> ev_tls_1_3_negotiated evidence then tls_version_rejected
      else if \<not> ev_client_certificate_present evidence then certificate_missing
      else if \<not> ev_certificate_chain_valid evidence then certificate_chain_rejected
      else if \<not> ev_revocation_checked evidence then revocation_unverified
      else if registry_verify registry (ev_certificate evidence) now = peer_accepted
      then mtls_accepted else certificate_rejected)"

section \<open>Pairing\<close>

record pairing_challenge =
  pc_id :: string
  pc_node :: node_advertisement
  pc_six_digit_code :: string
  pc_expires_at :: time_point

text \<open>\<open>std::to_string\<close> of an unsigned number.\<close>

fun decimal :: "nat \<Rightarrow> string" where
  "decimal n = (if n < 10 then [char_of (48 + n)] else decimal (n div 10) @ [char_of (48 + n mod 10)])"

declare decimal.simps [simp del]

record pairing_service =
  ps_registry :: device_registry
  ps_next_challenge :: u64

text \<open>The lifetime is a count of minutes, the certificate's a count of hours.\<close>

definition pairing_begin ::
  "pairing_service \<Rightarrow> node_advertisement \<Rightarrow> string \<Rightarrow> time_point \<Rightarrow> int
     \<Rightarrow> (pairing_challenge \<times> pairing_service) result" where
  "pairing_begin ps node six_digit_code now lifetime =
     and_then (require_nonempty (node_id node) ''node id'') (\<lambda>_.
     and_then (require_nonempty (node_name node) ''node name'') (\<lambda>_.
     and_then (require_nonempty (node_lan_endpoint node) ''node endpoint'') (\<lambda>_.
     if \<not> is_canonical_fingerprint (node_fingerprint node) \<or> \<not> is_six_digits six_digit_code \<or>
        lifetime \<le> 0
     then throw (Invalid_argument ''invalid pairing challenge'')
     else
       let n = ps_next_challenge ps + 1
       in ok (\<lparr>pc_id = ''pair-'' @ decimal (unat n), pc_node = node,
               pc_six_digit_code = six_digit_code, pc_expires_at = now + lifetime * minutes_unit\<rparr>,
              ps\<lparr>ps_next_challenge := n\<rparr>))))"

definition pairing_confirm ::
  "pairing_service \<Rightarrow> pairing_challenge \<Rightarrow> string \<Rightarrow> string \<Rightarrow> string \<Rightarrow> string \<Rightarrow> time_point \<Rightarrow> int
     \<Rightarrow> (peer_certificate \<times> pairing_service) result" where
  "pairing_confirm ps challenge supplied_code device_id display_name device_fingerprint now
      certificate_lifetime =
     (if pc_id challenge = [] \<or> now \<ge> pc_expires_at challenge \<or>
         \<not> constant_time_equals (pc_six_digit_code challenge) supplied_code
      then throw (Invalid_argument ''pairing confirmation rejected'')
      else and_then (require_nonempty device_id ''device id'') (\<lambda>_.
        and_then (require_nonempty display_name ''device name'') (\<lambda>_.
        if \<not> is_canonical_fingerprint device_fingerprint \<or> certificate_lifetime \<le> 0
        then throw (Invalid_argument ''invalid paired device'')
        else
          let certificate = \<lparr>cert_device_id = device_id, cert_fingerprint = device_fingerprint,
                cert_serial = ''paired-'' @ pc_id challenge @ ''-'' @ device_id,
                cert_not_before = now,
                cert_not_after = now + certificate_lifetime * hours_unit\<rparr>
          in and_then (registry_pair (ps_registry ps)
                \<lparr>dev_id = device_id, dev_display_name = display_name,
                 dev_fingerprint = device_fingerprint, dev_certificate = certificate,
                 dev_revoked = False\<rparr>)
              (\<lambda>registry. ok (certificate, ps\<lparr>ps_registry := registry\<rparr>)))))"

section \<open>Lemmas\<close>

subsection \<open>The constant-time comparison\<close>

lemma or_eq_0_iff: "(a :: 'w::len word) OR b = 0 \<longleftrightarrow> a = 0 \<and> b = 0"
  by (metis or.right_idem or.right_neutral or.left_commute)

lemma foldl_or_eq_0:
  "foldl (\<lambda>d i. d OR f i) d xs = (0 :: 'w::len word) \<longleftrightarrow> d = 0 \<and> (\<forall>i\<in>set xs. f i = 0)"
  by (induction xs arbitrary: d) (auto simp: or_eq_0_iff)

lemma xor_eq_0_iff: "(a :: 'w::len word) XOR b = 0 \<longleftrightarrow> a = b"
  by (auto simp: bit_eq_iff bit_simps)

lemma constant_time_equals_iff:
  "constant_time_equals left right \<longleftrightarrow>
     (ucast ((of_nat (length left) :: u64) XOR of_nat (length right)) :: byte) = 0 \<and>
     (\<forall>i < max (length left) (length right). char_or_zero left i = char_or_zero right i)"
  by (simp add: constant_time_equals_def Let_def foldl_or_eq_0 xor_eq_0_iff atLeast0LessThan Ball_def)

lemma constant_time_equals_refl: "constant_time_equals s s"
  by (simp add: constant_time_equals_iff)

lemma low_byte_of_nat: "(ucast (of_nat n :: u64) :: byte) = of_nat n"
  by (rule bit_word_eqI) (simp add: bit_simps)

lemma low_byte_xor_eq_0:
  "(ucast ((of_nat m :: u64) XOR of_nat n) :: byte) = 0 \<longleftrightarrow> m mod 256 = n mod 256"
proof -
  have "(ucast ((of_nat m :: u64) XOR of_nat n) :: byte) = ucast (of_nat m :: u64) XOR ucast (of_nat n :: u64)"
    by (rule bit_word_eqI) (auto simp: bit_simps)
  then have "(ucast ((of_nat m :: u64) XOR of_nat n) :: byte) = of_nat m XOR of_nat n"
    by (simp only: low_byte_of_nat)
  then have "(ucast ((of_nat m :: u64) XOR of_nat n) :: byte) = 0 \<longleftrightarrow> (of_nat m :: byte) = of_nat n"
    by (simp add: xor_eq_0_iff)
  also have "\<dots> \<longleftrightarrow> m mod 256 = n mod 256"
    by (simp add: word_of_nat_eq_iff take_bit_eq_mod)
  finally show ?thesis .
qed

lemma of_char_byte_inject: "(of_nat (of_char c) :: byte) = of_nat (of_char d) \<longleftrightarrow> c = d"
  by (metis char_of_unat_of_char)

lemma constant_time_equals_short:
  assumes "length left < 256" "length right < 256"
  shows "constant_time_equals left right \<longleftrightarrow> left = right"
proof
  assume eq: "constant_time_equals left right"
  then have len: "length left = length right"
    using assms by (simp add: constant_time_equals_iff low_byte_xor_eq_0)
  show "left = right"
  proof (rule nth_equalityI [OF len])
    fix i assume "i < length left"
    then have "char_or_zero left i = char_or_zero right i"
      using eq by (simp add: constant_time_equals_iff)
    then show "left ! i = right ! i"
      using \<open>i < length left\<close> len by (simp add: char_or_zero_def of_char_byte_inject)
  qed
qed (simp add: constant_time_equals_refl)

text \<open>A character of value zero counts as no character, and 256 of them do not change the low byte.\<close>

lemma constant_time_equals_padded: "constant_time_equals s (s @ replicate (256 * k) (CHR 0x00))"
proof -
  have "length s mod 256 = length (s @ replicate (256 * k) (CHR 0x00)) mod 256"
    by simp
  moreover have "char_or_zero s i = char_or_zero (s @ replicate (256 * k) (CHR 0x00)) i" for i
    by (auto simp: char_or_zero_def nth_append)
  ultimately show ?thesis
    by (simp only: constant_time_equals_iff low_byte_xor_eq_0 simp_thms)
qed

subsection \<open>The registry\<close>

text \<open>What pairing establishes of every registered device.\<close>

definition device_wf :: "string \<Rightarrow> paired_device \<Rightarrow> bool" where
  "device_wf did dev \<longleftrightarrow>
     dev_id dev = did \<and> did \<noteq> [] \<and> is_canonical_fingerprint (dev_fingerprint dev) \<and>
     cert_device_id (dev_certificate dev) = did \<and>
     cert_fingerprint (dev_certificate dev) = dev_fingerprint dev \<and>
     cert_serial (dev_certificate dev) \<noteq> [] \<and>
     cert_not_before (dev_certificate dev) < cert_not_after (dev_certificate dev)"

definition registry_wf :: "device_registry \<Rightarrow> bool" where
  "registry_wf devices \<longleftrightarrow> (\<forall>did dev. devices did = Some dev \<longrightarrow> device_wf did dev)"

lemma registry_wf_empty: "registry_wf Map.empty"
  by (simp add: registry_wf_def)

lemma registry_wf_upd: "registry_wf devices \<Longrightarrow> device_wf did dev \<Longrightarrow> registry_wf (devices(did \<mapsto> dev))"
  by (simp add: registry_wf_def)

lemma registry_pair_eq:
  "registry_pair devices dev = Inr devices' \<longleftrightarrow>
     device_wf (dev_id dev) dev \<and> devices (dev_id dev) = None \<and> devices' = devices(dev_id dev \<mapsto> dev)"
  by (auto simp: registry_pair_def require_nonempty_def result_simps device_wf_def)

lemma registry_pair_wf: "registry_wf devices \<Longrightarrow> registry_pair devices dev = Inr devices' \<Longrightarrow> registry_wf devices'"
  by (auto simp: registry_pair_eq intro: registry_wf_upd)

lemma registry_revoke_eq:
  "registry_revoke devices did = Inr devices' \<longleftrightarrow>
     (\<exists>dev. devices did = Some dev \<and> devices' = devices(did \<mapsto> dev\<lparr>dev_revoked := True\<rparr>))"
  by (auto simp: registry_revoke_def split: option.splits)

lemma registry_revoke_wf: "registry_wf devices \<Longrightarrow> registry_revoke devices did = Inr devices' \<Longrightarrow> registry_wf devices'"
  by (auto simp: registry_revoke_eq intro!: registry_wf_upd) (auto simp: registry_wf_def device_wf_def)

lemma registry_verify_accepted:
  "registry_verify devices c now = peer_accepted \<longleftrightarrow>
     (\<exists>dev. devices (cert_device_id c) = Some dev \<and> cert_serial (dev_certificate dev) = cert_serial c \<and>
        constant_time_equals (dev_fingerprint dev) (cert_fingerprint c) \<and> \<not> dev_revoked dev \<and>
        cert_not_before c \<le> now \<and> now < cert_not_after c)"
  by (auto simp: registry_verify_def split: option.splits)

lemma trust_gate_accepted:
  "trust_gate_verify e devices now = mtls_accepted \<longleftrightarrow>
     ev_tls_1_3_negotiated e \<and> ev_client_certificate_present e \<and> ev_certificate_chain_valid e \<and>
     ev_revocation_checked e \<and> registry_verify devices (ev_certificate e) now = peer_accepted"
  by (simp add: trust_gate_verify_def)

lemma revoked_not_accepted:
  "registry_revoke devices did = Inr devices' \<Longrightarrow> cert_device_id c = did \<Longrightarrow>
     registry_verify devices' c now \<noteq> peer_accepted"
  by (auto simp: registry_verify_accepted registry_revoke_eq)

subsection \<open>The life of a registry\<close>

text \<open>A sequence of calls; a call that throws leaves the registry as it is.\<close>

datatype registry_call = Call_pair paired_device | Call_revoke string

definition registry_step :: "device_registry \<Rightarrow> registry_call \<Rightarrow> device_registry" where
  "registry_step devices call =
     (case (case call of Call_pair dev \<Rightarrow> registry_pair devices dev
            | Call_revoke did \<Rightarrow> registry_revoke devices did)
      of Inl _ \<Rightarrow> devices | Inr devices' \<Rightarrow> devices')"

interpretation registry: invariant_machine registry_step Map.empty registry_wf
  by unfold_locales
    (auto simp: registry_step_def registry_wf_empty
      intro: registry_pair_wf registry_revoke_wf split: registry_call.splits sum.splits)

text \<open>A revoked device stays registered and revoked.\<close>

definition is_revoked :: "string \<Rightarrow> device_registry \<Rightarrow> bool" where
  "is_revoked did devices \<longleftrightarrow> (\<exists>dev. devices did = Some dev \<and> dev_revoked dev)"

lemma registry_step_revoked: "is_revoked did devices \<Longrightarrow> is_revoked did (registry_step devices call)"
  by (auto simp: is_revoked_def registry_step_def registry_pair_eq registry_revoke_eq
      split: registry_call.splits sum.splits)

lemma registry_run_revoked: "is_revoked did devices \<Longrightarrow> is_revoked did (foldl registry_step devices calls)"
  by (induction calls arbitrary: devices) (auto intro: registry_step_revoked)

lemma registry_revoke_revoked: "registry_revoke devices did = Inr devices' \<Longrightarrow> is_revoked did devices'"
  by (auto simp: registry_revoke_eq is_revoked_def)

lemma is_revoked_not_accepted:
  "is_revoked (cert_device_id c) devices \<Longrightarrow> registry_verify devices c now \<noteq> peer_accepted"
  by (auto simp: is_revoked_def registry_verify_accepted)

lemma pairing_confirm_eq:
  "pairing_confirm ps challenge code did name fp now lifetime = Inr (c, ps') \<longleftrightarrow>
     pc_id challenge \<noteq> [] \<and> now < pc_expires_at challenge \<and>
     constant_time_equals (pc_six_digit_code challenge) code \<and> did \<noteq> [] \<and> name \<noteq> [] \<and>
     is_canonical_fingerprint fp \<and> 0 < lifetime \<and>
     c = \<lparr>cert_device_id = did, cert_fingerprint = fp,
          cert_serial = ''paired-'' @ pc_id challenge @ ''-'' @ did,
          cert_not_before = now, cert_not_after = now + lifetime * hours_unit\<rparr> \<and>
     ps_registry ps did = None \<and>
     ps' = ps\<lparr>ps_registry := (ps_registry ps)(did \<mapsto> \<lparr>dev_id = did, dev_display_name = name,
            dev_fingerprint = fp, dev_certificate = c, dev_revoked = False\<rparr>)\<rparr>"
  by (auto simp: pairing_confirm_def require_nonempty_def result_simps registry_pair_eq device_wf_def
      Let_def)

section \<open>Properties\<close>

text \<open>A confirmed pairing was given the challenge's code before it expired, and from then on the
  registry accepts the issued certificate exactly during its lifetime, while the verification of
  the certificates of every other device is unchanged.\<close>

theorem pairing_confirm_registers:
  assumes "pairing_confirm ps challenge code did name fp now lifetime = Inr (c, ps')"
    and "length (pc_six_digit_code challenge) = 6" "length code < 256"
  shows "code = pc_six_digit_code challenge \<and> now < pc_expires_at challenge \<and>
    (\<forall>t. (registry_verify (ps_registry ps') c t = peer_accepted) =
       (now \<le> t \<and> t < now + lifetime * hours_unit)) \<and>
    (\<forall>c' t. cert_device_id c' = did \<or>
       registry_verify (ps_registry ps') c' t = registry_verify (ps_registry ps) c' t)"
  using assms
  by (auto simp: pairing_confirm_eq constant_time_equals_short registry_verify_accepted
      constant_time_equals_refl registry_verify_def)

theorem pairing_confirm_registers_witness:
  "\<exists>c ps'. pairing_confirm \<lparr>ps_registry = Map.empty, ps_next_challenge = 1\<rparr>
     \<lparr>pc_id = ''pair-1'', pc_node = \<lparr>node_id = ''n'', node_name = ''n'', node_lan_endpoint = ''e'',
        node_fingerprint = replicate 64 (CHR ''a'')\<rparr>, pc_six_digit_code = ''123456'',
      pc_expires_at = 100\<rparr> ''123456'' ''viewer'' ''PC'' (replicate 64 (CHR ''b'')) 5 1 = Inr (c, ps')
   \<and> registry_verify (ps_registry ps') c 6 = peer_accepted"
proof -
  let ?ps = "\<lparr>ps_registry = Map.empty, ps_next_challenge = 1\<rparr> :: pairing_service"
  let ?ch = "\<lparr>pc_id = ''pair-1'', pc_node = \<lparr>node_id = ''n'', node_name = ''n'', node_lan_endpoint = ''e'',
        node_fingerprint = replicate 64 (CHR ''a'')\<rparr>, pc_six_digit_code = ''123456'',
      pc_expires_at = 100\<rparr>"
  obtain c ps' where r:
    "pairing_confirm ?ps ?ch ''123456'' ''viewer'' ''PC'' (replicate 64 (CHR ''b'')) 5 1 = Inr (c, ps')"
    by (simp add: pairing_confirm_eq constant_time_equals_refl is_canonical_fingerprint_def
        list_all_iff)
  have "registry_verify (ps_registry ps') c 6 = peer_accepted"
    using pairing_confirm_registers [OF r] by simp
  with r show ?thesis by blast
qed

text \<open>C30. Revocation is permanent: whatever pairings and revocations follow, no certificate that
  names a revoked device passes the trust gate again, at any time.\<close>

theorem revocation_permanent:
  assumes "registry_revoke devices did = Inr devices'"
    and "cert_device_id (ev_certificate e) = did"
  shows "trust_gate_verify e (foldl registry_step devices' calls) now \<noteq> mtls_accepted"
  using assms registry_run_revoked [OF registry_revoke_revoked [OF assms(1)]]
  by (auto simp: trust_gate_accepted is_revoked_not_accepted)

theorem revocation_permanent_witness:
  "\<exists>devices'. registry_revoke [''d'' \<mapsto> \<lparr>dev_id = ''d'', dev_display_name = ''n'',
       dev_fingerprint = ''f'', dev_certificate = \<lparr>cert_device_id = ''d'', cert_fingerprint = ''f'',
         cert_serial = ''s'', cert_not_before = 0, cert_not_after = 9\<rparr>, dev_revoked = False\<rparr>] ''d''
     = Inr devices' \<and>
   trust_gate_verify \<lparr>ev_tls_1_3_negotiated = True, ev_client_certificate_present = True,
     ev_certificate_chain_valid = True, ev_revocation_checked = True,
     ev_certificate = \<lparr>cert_device_id = ''d'', cert_fingerprint = ''f'', cert_serial = ''s'',
       cert_not_before = 0, cert_not_after = 9\<rparr>\<rparr> (foldl registry_step devices' []) 3 \<noteq> mtls_accepted"
  (is "\<exists>devices'. registry_revoke ?ds ?d = Inr devices' \<and>
     trust_gate_verify ?e (foldl registry_step devices' []) 3 \<noteq> mtls_accepted")
proof -
  obtain devices' where r: "registry_revoke ?ds ?d = Inr devices'"
    by (simp add: registry_revoke_eq)
  have "trust_gate_verify ?e (foldl registry_step devices' []) 3 \<noteq> mtls_accepted"
    by (rule revocation_permanent [OF r]) simp
  with r show ?thesis by blast
qed

text \<open>The constant-time comparison is equality on strings shorter than 256 characters, but it is
  not equality: a string and itself with 256 zero characters appended compare as equal.\<close>

theorem constant_time_equals_spec:
  "(\<forall>l r. length l \<ge> 256 \<or> length r \<ge> 256 \<or> constant_time_equals l r = (l = r)) \<and>
   (\<forall>s. constant_time_equals s (s @ replicate 256 (CHR 0x00)))"
  using constant_time_equals_short constant_time_equals_padded [of _ 1] by force

end
