(* ===== verification/Session.thy ===== *)
theory Session
  imports Authorization Identity
begin

text \<open>
  \<open>core/src/session.cpp\<close>: the life of one session, from creation over authentication and opening
  with an authorization to its lease and its end. Every operation that the state does not allow
  throws and leaves the session as it was.
\<close>

datatype session_state = sess_created | sess_authenticated | sess_open | sess_closed

record session =
  sess_id :: string
  sess_state :: session_state
  sess_expires_at :: "time_point option"

definition new_session :: "string \<Rightarrow> session result" where
  "new_session sid =
     (if sid = [] then throw (Invalid_argument ''session id must not be empty'')
      else ok \<lparr>sess_id = sid, sess_state = sess_created, sess_expires_at = None\<rparr>)"

definition session_authenticate :: "session \<Rightarrow> bool \<Rightarrow> session result" where
  "session_authenticate s peer_certificate_verified =
     (if sess_state s \<noteq> sess_created \<or> \<not> peer_certificate_verified
      then throw (Logic_error ''session authentication rejected'')
      else ok (s\<lparr>sess_state := sess_authenticated\<rparr>))"

definition session_authenticate_peer ::
  "session \<Rightarrow> peer_certificate \<Rightarrow> device_registry \<Rightarrow> time_point \<Rightarrow> session result" where
  "session_authenticate_peer s certificate registry now =
     session_authenticate s (registry_verify registry certificate now = peer_accepted)"

definition session_open :: "session \<Rightarrow> authorization_result \<Rightarrow> session result" where
  "session_open s auth =
     (if sess_state s \<noteq> sess_authenticated \<or> \<not> ar_principal_matched auth \<or>
         \<not> ar_workspace_allowed auth \<or> ar_granted auth = {}
      then throw (Logic_error ''session open rejected'')
      else ok (s\<lparr>sess_state := sess_open\<rparr>))"

definition session_active_at :: "session \<Rightarrow> time_point \<Rightarrow> bool" where
  "session_active_at s now \<longleftrightarrow> sess_state s = sess_open \<and>
     (case sess_expires_at s of None \<Rightarrow> True | Some t \<Rightarrow> now < t)"

text \<open>The extension is a count of minutes.\<close>

definition session_renew :: "session \<Rightarrow> time_point \<Rightarrow> int \<Rightarrow> session result" where
  "session_renew s now extension =
     (if \<not> session_active_at s now \<or> extension \<le> 0
      then throw (Logic_error ''session renewal rejected'')
      else ok (s\<lparr>sess_expires_at := Some (now + extension * minutes_unit)\<rparr>))"

definition session_close :: "session \<Rightarrow> session" where
  "session_close s =
     (if sess_state s = sess_closed then s
      else s\<lparr>sess_state := sess_closed, sess_expires_at := None\<rparr>)"

section \<open>Lemmas\<close>

lemma session_close_eq [simp]:
  "sess_id (session_close s) = sess_id s" "sess_state (session_close s) = sess_closed"
  by (simp_all add: session_close_def)

lemma session_renew_eq:
  "session_renew s now ext = Inr s' \<longleftrightarrow> session_active_at s now \<and> 0 < ext \<and>
     s' = s\<lparr>sess_expires_at := Some (now + ext * minutes_unit)\<rparr>"
  by (auto simp: session_renew_def result_simps)

lemma session_open_eq:
  "session_open s auth = Inr s' \<longleftrightarrow> sess_state s = sess_authenticated \<and> ar_principal_matched auth \<and>
     ar_workspace_allowed auth \<and> ar_granted auth \<noteq> {} \<and> s' = s\<lparr>sess_state := sess_open\<rparr>"
  by (auto simp: session_open_def result_simps)

lemma session_authenticate_eq:
  "session_authenticate s v = Inr s' \<longleftrightarrow>
     sess_state s = sess_created \<and> v \<and> s' = s\<lparr>sess_state := sess_authenticated\<rparr>"
  by (auto simp: session_authenticate_def result_simps)

lemma new_session_eq:
  "new_session sid = Inr s \<longleftrightarrow> sid \<noteq> [] \<and>
     s = \<lparr>sess_id = sid, sess_state = sess_created, sess_expires_at = None\<rparr>"
  by (auto simp: new_session_def result_simps)

text \<open>A closed session has no successful operation but closing, which keeps it closed.\<close>

lemma session_closed_stuck:
  assumes "sess_state s = sess_closed"
  shows "session_authenticate s v \<noteq> Inr s'" "session_open s auth \<noteq> Inr s'"
    "session_renew s now ext \<noteq> Inr s'" "\<not> session_active_at s now"
  using assms
  by (simp_all add: session_authenticate_eq session_open_eq session_renew_eq session_active_at_def)

text \<open>What opening with a lease gives: an active session until the lease ends.\<close>

lemma session_opened:
  assumes "new_session sid = Inr s0" "session_authenticate s0 v = Inr s1"
    "session_open s1 auth = Inr s2" "session_renew s2 now lease = Inr s3"
  shows "s3 = \<lparr>sess_id = sid, sess_state = sess_open,
    sess_expires_at = Some (now + lease * minutes_unit)\<rparr>"
  using assms
  by (auto simp: new_session_eq session_authenticate_eq session_open_eq session_renew_eq)

end
