(* ===== verification/Audit_Log.thy ===== *)
theory Audit_Log
  imports Identity "HOL-Library.Sublist"
begin

text \<open>
  \<open>core/src/audit.cpp\<close>: the append-only audit log. An event is validated, written to the sink as
  one line of JSON, and kept; the log keeps at most \<open>maximum_events\<close> events and drops those older
  than \<open>maximum_age\<close>. The sink is an interface of the program, so it is a parameter of the log:
  whether writing a line throws, given the lines it has written.
\<close>

section \<open>Events\<close>

datatype audit_action =
    pairing_started | pairing_confirmed | session_authenticated | session_opened | session_renewed
  | session_closed | device_revoked | workspace_sync_started | workspace_sync_committed
  | workspace_sync_failed | build_submitted | build_completed | artifact_published
  | artifact_downloaded | deployment_started | deployment_active | deployment_rolled_back
  | deployment_failed | scope_access_denied | audit_exported | agent_job_started
  | agent_review_requested | agent_review_granted | agent_tool_completed | agent_job_completed

datatype audit_result = res_allowed | res_denied | res_failed

record audit_event =
  ae_occurred_at :: time_point
  ae_principal_id :: string
  ae_device_id :: string
  ae_session_id :: string
  ae_workspace_id :: string
  ae_build_id :: string
  ae_artifact_id :: string
  ae_artifact_sha256 :: string
  ae_source_revision :: u64
  ae_deployment_id :: string
  ae_process_role :: string
  ae_reason_code :: string
  ae_agent_job_id :: string
  ae_tool_name :: string
  ae_evidence_id :: string
  ae_action :: audit_action
  ae_result :: audit_result

text \<open>The member initialisers of \<open>AuditEvent\<close>.\<close>

definition default_event :: audit_event where
  "default_event = \<lparr>ae_occurred_at = 0, ae_principal_id = [], ae_device_id = [], ae_session_id = [],
     ae_workspace_id = [], ae_build_id = [], ae_artifact_id = [], ae_artifact_sha256 = [],
     ae_source_revision = 0, ae_deployment_id = [], ae_process_role = [], ae_reason_code = [],
     ae_agent_job_id = [], ae_tool_name = [], ae_evidence_id = [],
     ae_action = session_opened, ae_result = res_allowed\<rparr>"

fun action_to_string :: "audit_action \<Rightarrow> string" where
  "action_to_string pairing_started = ''pairing.started''"
| "action_to_string pairing_confirmed = ''pairing.confirmed''"
| "action_to_string session_authenticated = ''session.authenticated''"
| "action_to_string session_opened = ''session.opened''"
| "action_to_string session_renewed = ''session.renewed''"
| "action_to_string session_closed = ''session.closed''"
| "action_to_string device_revoked = ''device.revoked''"
| "action_to_string workspace_sync_started = ''workspace.sync_started''"
| "action_to_string workspace_sync_committed = ''workspace.sync_committed''"
| "action_to_string workspace_sync_failed = ''workspace.sync_failed''"
| "action_to_string build_submitted = ''build.submitted''"
| "action_to_string build_completed = ''build.completed''"
| "action_to_string artifact_published = ''artifact.published''"
| "action_to_string artifact_downloaded = ''artifact.downloaded''"
| "action_to_string deployment_started = ''deployment.started''"
| "action_to_string deployment_active = ''deployment.active''"
| "action_to_string deployment_rolled_back = ''deployment.rolled_back''"
| "action_to_string deployment_failed = ''deployment.failed''"
| "action_to_string scope_access_denied = ''scope.access_denied''"
| "action_to_string audit_exported = ''audit.exported''"
| "action_to_string agent_job_started = ''agent.job_started''"
| "action_to_string agent_review_requested = ''agent.review_requested''"
| "action_to_string agent_review_granted = ''agent.review_granted''"
| "action_to_string agent_tool_completed = ''agent.tool_completed''"
| "action_to_string agent_job_completed = ''agent.job_completed''"

fun audit_result_to_string :: "audit_result \<Rightarrow> string" where
  "audit_result_to_string res_allowed = ''allowed''"
| "audit_result_to_string res_denied = ''denied''"
| "audit_result_to_string res_failed = ''failed''"

definition is_alnum :: "char \<Rightarrow> bool" where
  "is_alnum c \<longleftrightarrow> is_digit c \<or> (65 \<le> (of_char c :: nat) \<and> (of_char c :: nat) \<le> 90) \<or>
     (97 \<le> (of_char c :: nat) \<and> (of_char c :: nat) \<le> 122)"

definition identifier_or_empty :: "string \<Rightarrow> bool" where
  "identifier_or_empty value \<longleftrightarrow> length value \<le> 128 \<and>
     list_all (\<lambda>c. is_alnum c \<or> c = CHR ''-'' \<or> c = CHR ''_'' \<or> c = CHR ''.'') value"

definition deployment_action :: "audit_action \<Rightarrow> bool" where
  "deployment_action a \<longleftrightarrow> a = deployment_started \<or> a = deployment_active \<or>
     a = deployment_rolled_back \<or> a = deployment_failed"

definition session_action :: "audit_action \<Rightarrow> bool" where
  "session_action a \<longleftrightarrow> a = session_authenticated \<or> a = session_opened \<or> a = session_renewed \<or>
     a = session_closed"

definition artifact_action :: "audit_action \<Rightarrow> bool" where
  "artifact_action a \<longleftrightarrow> a = artifact_published \<or> a = artifact_downloaded"

definition workspace_action :: "audit_action \<Rightarrow> bool" where
  "workspace_action a \<longleftrightarrow> a = workspace_sync_started \<or> a = workspace_sync_committed \<or>
     a = workspace_sync_failed"

definition build_action :: "audit_action \<Rightarrow> bool" where
  "build_action a \<longleftrightarrow> a = build_submitted \<or> a = build_completed"

text \<open>The condition of the first \<open>if\<close> of \<open>AuditLog::append\<close>, in its order.\<close>

definition missing_metadata :: "audit_event \<Rightarrow> bool" where
  "missing_metadata e \<longleftrightarrow>
     ae_occurred_at e = 0 \<or> ae_principal_id e = [] \<or> ae_device_id e = [] \<or>
     \<not> identifier_or_empty (ae_principal_id e) \<or> \<not> identifier_or_empty (ae_device_id e) \<or>
     \<not> identifier_or_empty (ae_session_id e) \<or> \<not> identifier_or_empty (ae_workspace_id e) \<or>
     \<not> identifier_or_empty (ae_build_id e) \<or> \<not> identifier_or_empty (ae_artifact_id e) \<or>
     \<not> identifier_or_empty (ae_deployment_id e) \<or> \<not> identifier_or_empty (ae_process_role e) \<or>
     \<not> identifier_or_empty (ae_reason_code e) \<or> \<not> identifier_or_empty (ae_agent_job_id e) \<or>
     \<not> identifier_or_empty (ae_tool_name e) \<or> \<not> identifier_or_empty (ae_evidence_id e) \<or>
     (session_action (ae_action e) \<and> ae_session_id e = []) \<or>
     (artifact_action (ae_action e) \<and>
       (ae_session_id e = [] \<or> ae_workspace_id e = [] \<or> ae_build_id e = [] \<or>
        ae_artifact_id e = [] \<or> ae_artifact_sha256 e = [] \<or> ae_source_revision e = 0)) \<or>
     (deployment_action (ae_action e) \<and>
       (ae_session_id e = [] \<or> ae_workspace_id e = [] \<or> ae_build_id e = [] \<or>
        ae_artifact_id e = [] \<or> ae_artifact_sha256 e = [] \<or> ae_source_revision e = 0 \<or>
        ae_deployment_id e = [])) \<or>
     (ae_action e = scope_access_denied \<and>
       (ae_workspace_id e = [] \<or> ae_process_role e = [] \<or> ae_reason_code e = [])) \<or>
     (workspace_action (ae_action e) \<and>
       (ae_session_id e = [] \<or> ae_workspace_id e = [] \<or> ae_source_revision e = 0 \<or>
        ae_reason_code e = [])) \<or>
     (build_action (ae_action e) \<and>
       (ae_session_id e = [] \<or> ae_workspace_id e = [] \<or> ae_build_id e = [] \<or>
        ae_source_revision e = 0 \<or> ae_process_role e \<noteq> ''build_worker'' \<or> ae_reason_code e = [] \<or>
        (ae_action e = build_completed \<and> ae_evidence_id e = []))) \<or>
     ((ae_action e = agent_job_started \<or> ae_action e = agent_review_requested \<or>
       ae_action e = agent_review_granted \<or> ae_action e = agent_tool_completed \<or>
       ae_action e = agent_job_completed) \<and>
       (ae_session_id e = [] \<or> ae_workspace_id e = [] \<or> ae_agent_job_id e = [])) \<or>
     (ae_action e = agent_tool_completed \<and> (ae_tool_name e = [] \<or> ae_evidence_id e = []))"

definition artifact_hash_invalid :: "audit_event \<Rightarrow> bool" where
  "artifact_hash_invalid e \<longleftrightarrow> ae_artifact_sha256 e \<noteq> [] \<and>
     (length (ae_artifact_sha256 e) \<noteq> 64 \<or>
      \<not> list_all (\<lambda>c. is_digit c \<or> (97 \<le> (of_char c :: nat) \<and> (of_char c :: nat) \<le> 102))
          (ae_artifact_sha256 e))"

section \<open>The JSON line\<close>

definition json_char :: "char \<Rightarrow> string result" where
  "json_char c =
     (if c = CHR 0x5c then ok [CHR 0x5c, CHR 0x5c]
      else if c = CHR 0x22 then ok [CHR 0x5c, CHR 0x22]
      else if c = CHR 0x08 then ok [CHR 0x5c, CHR ''b'']
      else if c = CHR 0x0c then ok [CHR 0x5c, CHR ''f'']
      else if c = CHR 0x0a then ok [CHR 0x5c, CHR ''n'']
      else if c = CHR 0x0d then ok [CHR 0x5c, CHR ''r'']
      else if c = CHR 0x09 then ok [CHR 0x5c, CHR ''t'']
      else if (of_char c :: nat) < 0x20
      then throw (Invalid_argument ''audit field contains control data'')
      else ok [c])"

fun json_chars :: "string \<Rightarrow> string result" where
  "json_chars [] = ok []"
| "json_chars (c # cs) = and_then (json_char c) (\<lambda>x. and_then (json_chars cs) (\<lambda>y. ok (x @ y)))"

definition json :: "string \<Rightarrow> string result" where
  "json value = and_then (json_chars value) (\<lambda>x. ok (CHR 0x22 # x @ [CHR 0x22]))"

text \<open>A signed number as the stream prints it, and the cast to milliseconds, toward zero.\<close>

definition signed_decimal :: "int \<Rightarrow> string" where
  "signed_decimal i = (if i < 0 then CHR ''-'' # decimal (nat (- i)) else decimal (nat i))"

definition to_milliseconds :: "time_point \<Rightarrow> int" where
  "to_milliseconds t = (if t < 0 then - ((- t) div 1000) else t div 1000)"

definition json_field :: "string \<Rightarrow> string \<Rightarrow> string result" where
  "json_field name value =
     and_then (json value) (\<lambda>x. ok (CHR '','' # CHR 0x22 # name @ CHR 0x22 # CHR '':'' # x))"

fun concat_results :: "string result list \<Rightarrow> string result" where
  "concat_results [] = ok []"
| "concat_results (m # ms) = and_then m (\<lambda>x. and_then (concat_results ms) (\<lambda>y. ok (x @ y)))"

definition event_fields :: "audit_event \<Rightarrow> string result list" where
  "event_fields e = [
     ok (CHR ''{'' # CHR 0x22 # ''occurred_at_ms'' @ CHR 0x22 # CHR '':''
         # signed_decimal (to_milliseconds (ae_occurred_at e))),
     json_field ''principal_id'' (ae_principal_id e),
     json_field ''device_id'' (ae_device_id e),
     json_field ''session_id'' (ae_session_id e),
     json_field ''workspace_id'' (ae_workspace_id e),
     json_field ''build_id'' (ae_build_id e),
     json_field ''artifact_id'' (ae_artifact_id e),
     json_field ''artifact_sha256'' (ae_artifact_sha256 e),
     ok (CHR '','' # CHR 0x22 # ''source_revision'' @ CHR 0x22 # CHR '':''
         # decimal (unat (ae_source_revision e))),
     json_field ''deployment_id'' (ae_deployment_id e),
     json_field ''process_role'' (ae_process_role e),
     json_field ''reason_code'' (ae_reason_code e),
     json_field ''agent_job_id'' (ae_agent_job_id e),
     json_field ''tool_name'' (ae_tool_name e),
     json_field ''evidence_id'' (ae_evidence_id e),
     json_field ''action'' (action_to_string (ae_action e)),
     json_field ''result'' (audit_result_to_string (ae_result e))]"

definition event_json_line :: "audit_event \<Rightarrow> string result" where
  "event_json_line e = concat_results (event_fields e @ [ok [CHR ''}'', CHR 0x0a]])"

section \<open>The log\<close>

text \<open>A retention age is a count of hours; the number of events is a \<open>size_t\<close>.\<close>

record audit_log =
  al_maximum_age :: int
  al_maximum_events :: nat
  al_sink :: "(string list \<Rightarrow> string \<Rightarrow> unit result) option"
  al_sunk :: "string list"
  al_events :: "audit_event list"

definition new_audit_log ::
  "int \<Rightarrow> nat \<Rightarrow> (string list \<Rightarrow> string \<Rightarrow> unit result) option \<Rightarrow> audit_log result" where
  "new_audit_log maximum_age maximum_events sink =
     (if maximum_age \<le> 0 \<or> maximum_events = 0
      then throw (Invalid_argument ''audit retention policy is invalid'')
      else ok \<lparr>al_maximum_age = maximum_age, al_maximum_events = maximum_events, al_sink = sink,
             al_sunk = [], al_events = []\<rparr>)"

text \<open>Writing to the sink: the line is composed first, and both may throw.\<close>

definition sink_line :: "audit_event \<Rightarrow> audit_log \<Rightarrow> audit_log result" where
  "sink_line e lg = (case al_sink lg of
     None \<Rightarrow> ok lg
   | Some sink \<Rightarrow> and_then (event_json_line e) (\<lambda>line.
       and_then (sink (al_sunk lg) line) (\<lambda>_. ok (lg\<lparr>al_sunk := al_sunk lg @ [line]\<rparr>))))"

definition audit_append :: "audit_event \<Rightarrow> audit_log \<Rightarrow> audit_log result" where
  "audit_append e lg =
     (if missing_metadata e
      then throw (Invalid_argument ''audit event is missing required metadata'')
      else if artifact_hash_invalid e
      then throw (Invalid_argument ''audit artifact hash is invalid'')
      else if al_events lg \<noteq> [] \<and> ae_occurred_at e < ae_occurred_at (last (al_events lg))
      then throw (Invalid_argument ''audit events must be append-time ordered'')
      else and_then (sink_line e lg) (\<lambda>lg'.
        let events = al_events lg' @ [e] in
        ok (lg'\<lparr>al_events :=
          (if length events > al_maximum_events lg'
           then drop (length events - al_maximum_events lg') events else events)\<rparr>)))"

record audit_query =
  aq_from :: time_point
  aq_to :: time_point
  aq_principal_id :: string
  aq_workspace_id :: string
  aq_build_id :: string
  aq_artifact_id :: string
  aq_deployment_id :: string
  aq_agent_job_id :: string
  aq_limit :: nat

definition query_match :: "audit_query \<Rightarrow> audit_event \<Rightarrow> bool" where
  "query_match q e \<longleftrightarrow> \<not> (ae_occurred_at e < aq_from q \<or> ae_occurred_at e > aq_to q \<or>
     (aq_principal_id q \<noteq> [] \<and> ae_principal_id e \<noteq> aq_principal_id q) \<or>
     (aq_workspace_id q \<noteq> [] \<and> ae_workspace_id e \<noteq> aq_workspace_id q) \<or>
     (aq_build_id q \<noteq> [] \<and> ae_build_id e \<noteq> aq_build_id q) \<or>
     (aq_artifact_id q \<noteq> [] \<and> ae_artifact_id e \<noteq> aq_artifact_id q) \<or>
     (aq_deployment_id q \<noteq> [] \<and> ae_deployment_id e \<noteq> aq_deployment_id q) \<or>
     (aq_agent_job_id q \<noteq> [] \<and> ae_agent_job_id e \<noteq> aq_agent_job_id q))"

text \<open>The loop of \<open>query\<close>, with its \<open>continue\<close> and its \<open>break\<close> at the limit.\<close>

fun query_loop :: "audit_query \<Rightarrow> audit_event list \<Rightarrow> audit_event list \<Rightarrow> audit_event list" where
  "query_loop q res [] = res"
| "query_loop q res (e # es) =
     (if \<not> query_match q e then query_loop q res es
      else if length (res @ [e]) = aq_limit q then res @ [e]
      else query_loop q (res @ [e]) es)"

definition audit_run_query :: "audit_query \<Rightarrow> audit_log \<Rightarrow> audit_event list result" where
  "audit_run_query q lg =
     (if aq_from q > aq_to q \<or> aq_limit q = 0 \<or> aq_limit q > 10000
      then throw (Invalid_argument ''audit query is invalid or exceeds limit'')
      else ok (query_loop q [] (al_events lg)))"

definition audit_for_session :: "string \<Rightarrow> audit_log \<Rightarrow> audit_event list" where
  "audit_for_session sid lg = filter (\<lambda>e. ae_session_id e = sid) (al_events lg)"

text \<open>\<open>for_artifact\<close> queries with the defaults of \<open>AuditQuery\<close>.\<close>

definition time_point_max :: time_point where
  "time_point_max = 2 ^ 63 - 1"

definition default_query :: audit_query where
  "default_query = \<lparr>aq_from = 0, aq_to = time_point_max, aq_principal_id = [], aq_workspace_id = [],
     aq_build_id = [], aq_artifact_id = [], aq_deployment_id = [], aq_agent_job_id = [],
     aq_limit = 1000\<rparr>"

definition audit_for_artifact :: "string \<Rightarrow> audit_log \<Rightarrow> audit_event list result" where
  "audit_for_artifact aid lg = audit_run_query (default_query\<lparr>aq_artifact_id := aid\<rparr>) lg"

definition audit_export :: "audit_query \<Rightarrow> audit_log \<Rightarrow> string result" where
  "audit_export q lg = and_then (audit_run_query q lg) (\<lambda>es. concat_results (map event_json_line es))"

definition audit_enforce_retention :: "time_point \<Rightarrow> audit_log \<Rightarrow> audit_log" where
  "audit_enforce_retention now lg =
     lg\<lparr>al_events := dropWhile (\<lambda>e. \<not> ae_occurred_at e \<ge> now - al_maximum_age lg * hours_unit)
          (al_events lg)\<rparr>"

section \<open>Lemmas\<close>

subsection \<open>Queries\<close>

lemma query_loop_eq:
  "length res < aq_limit q \<Longrightarrow>
     query_loop q res es = res @ take (aq_limit q - length res) (filter (query_match q) es)"
proof (induction es arbitrary: res)
  case Nil
  then show ?case by simp
next
  case (Cons e es)
  show ?case
  proof (cases "query_match q e")
    case True
    show ?thesis
    proof (cases "length (res @ [e]) = aq_limit q")
      case False
      then have "length (res @ [e]) < aq_limit q"
        using Cons.prems by simp
      moreover have "aq_limit q - length res = Suc (aq_limit q - length (res @ [e]))"
        using calculation by simp
      ultimately show ?thesis
        using True False Cons.IH [of "res @ [e]"] by simp
    next
      case False': True
      then have "aq_limit q - length res = 1" by simp
      then show ?thesis using True False' by simp
    qed
  qed (use Cons in simp)
qed

lemma audit_run_query_eq:
  "audit_run_query q lg = Inr es \<longleftrightarrow> aq_from q \<le> aq_to q \<and> 0 < aq_limit q \<and> aq_limit q \<le> 10000 \<and>
     es = take (aq_limit q) (filter (query_match q) (al_events lg))"
  by (auto simp: audit_run_query_def result_simps query_loop_eq)

subsection \<open>Lines\<close>

text \<open>A string without control characters.\<close>

definition printable :: "string \<Rightarrow> bool" where
  "printable s \<longleftrightarrow> list_all (\<lambda>c. 0x20 \<le> (of_char c :: nat)) s"

lemma printable_simps [simp]:
  "printable []" "printable (c # s) \<longleftrightarrow> 0x20 \<le> (of_char c :: nat) \<and> printable s"
  "printable (s @ t) \<longleftrightarrow> printable s \<and> printable t"
  by (simp_all add: printable_def)

lemma decimal_not_empty [simp]: "decimal n \<noteq> []"
  by (subst decimal.simps) simp

lemma printable_decimal [simp]: "printable (decimal n)"
proof (induction n rule: decimal.induct)
  case (1 n)
  then show ?case by (subst decimal.simps) auto
qed

lemma printable_signed_decimal [simp]: "printable (signed_decimal i)"
  by (simp add: signed_decimal_def)

lemma json_char_printable: "json_char c = Inr x \<Longrightarrow> printable x"
  by (auto simp: json_char_def split: if_splits)

lemma json_chars_printable: "json_chars s = Inr x \<Longrightarrow> printable x"
  by (induction s arbitrary: x) (auto simp: result_simps dest: json_char_printable)

lemma json_printable: "json s = Inr x \<Longrightarrow> printable x"
  by (auto simp: json_def result_simps dest: json_chars_printable)

lemma json_chars_succeeds: "printable s \<Longrightarrow> \<exists>x. json_chars s = Inr x"
  by (induction s) (auto simp: json_char_def result_simps)

lemma json_field_succeeds:
  "printable name \<Longrightarrow> printable s \<Longrightarrow> \<exists>x. json_field name s = Inr x \<and> printable x"
  using json_chars_succeeds [of s] by (auto simp: json_field_def json_def dest: json_chars_printable)

lemma identifier_printable: "identifier_or_empty s \<Longrightarrow> printable s"
  by (auto simp: identifier_or_empty_def printable_def is_alnum_def is_digit_def list_all_iff)

lemma hash_printable: "\<not> artifact_hash_invalid e \<Longrightarrow> printable (ae_artifact_sha256 e)"
  by (cases "ae_artifact_sha256 e = []")
    (auto simp: artifact_hash_invalid_def printable_def is_digit_def list_all_iff)

lemma action_to_string_printable [simp]: "printable (action_to_string a)"
  by (cases a) simp_all

lemma audit_result_to_string_printable [simp]: "printable (audit_result_to_string r)"
  by (cases r) simp_all

lemma concat_results_snoc_printable:
  "\<forall>m\<in>set ms. \<exists>x. m = Inr x \<and> printable x \<Longrightarrow> \<exists>x. concat_results (ms @ [Inr y]) = Inr (x @ y) \<and> printable x"
  by (induction ms) fastforce+

text \<open>A valid event gives exactly one line: no field can break out of it.\<close>

lemma missing_metadata_ids:
  "\<not> missing_metadata e \<Longrightarrow> list_all identifier_or_empty [ae_principal_id e, ae_device_id e,
     ae_session_id e, ae_workspace_id e, ae_build_id e, ae_artifact_id e, ae_deployment_id e,
     ae_process_role e, ae_reason_code e, ae_agent_job_id e, ae_tool_name e, ae_evidence_id e]"
  by (simp only: missing_metadata_def de_Morgan_disj not_not list.pred_inject simp_thms)

lemma event_fields_printable:
  assumes "\<not> missing_metadata e" "\<not> artifact_hash_invalid e"
  shows "\<forall>m\<in>set (event_fields e). \<exists>x. m = Inr x \<and> printable x"
  using missing_metadata_ids [OF assms(1)] hash_printable [OF assms(2)]
  by (simp add: event_fields_def json_field_succeeds identifier_printable)

lemma event_json_line_valid:
  assumes "\<not> missing_metadata e" "\<not> artifact_hash_invalid e"
  shows "\<exists>body. event_json_line e = Inr (body @ [CHR 0x0a]) \<and> printable body"
proof -
  obtain x where "event_json_line e = Inr (x @ [CHR ''}'', CHR 0x0a])" "printable x"
    using concat_results_snoc_printable [OF event_fields_printable [OF assms]]
    unfolding event_json_line_def by blast
  then show ?thesis
    by (intro exI [of _ "x @ [CHR ''}'']"]) simp
qed

subsection \<open>The log\<close>

datatype audit_call = Call_append audit_event | Call_enforce_retention time_point

definition audit_step :: "audit_log \<Rightarrow> audit_call \<Rightarrow> audit_log" where
  "audit_step lg call = (case call of
     Call_append e \<Rightarrow> (case audit_append e lg of Inl _ \<Rightarrow> lg | Inr lg' \<Rightarrow> lg')
   | Call_enforce_retention now \<Rightarrow> audit_enforce_retention now lg)"

text \<open>
  The invariant: the events are valid, ordered by time and at most as many as the policy allows;
  with a sink, the lines of the kept events are the last lines the sink has written.
\<close>

definition audit_wf :: "audit_log \<Rightarrow> bool" where
  "audit_wf lg \<longleftrightarrow>
     list_all (\<lambda>e. \<not> missing_metadata e \<and> \<not> artifact_hash_invalid e) (al_events lg) \<and>
     sorted (map ae_occurred_at (al_events lg)) \<and>
     length (al_events lg) \<le> al_maximum_events lg \<and>
     (al_sink lg \<noteq> None \<longrightarrow> suffix (map event_json_line (al_events lg)) (map Inr (al_sunk lg)))"

lemma sink_line_eq:
  "sink_line e lg = Inr lg' \<longleftrightarrow>
     (case al_sink lg of None \<Rightarrow> lg' = lg
      | Some sink \<Rightarrow> \<exists>line. event_json_line e = Inr line \<and> sink (al_sunk lg) line = Inr () \<and>
          lg' = lg\<lparr>al_sunk := al_sunk lg @ [line]\<rparr>)"
  by (auto simp: sink_line_def result_simps split: option.splits)

lemma sink_line_keeps:
  "sink_line e lg = Inr lg' \<Longrightarrow> al_events lg' = al_events lg \<and>
     al_maximum_events lg' = al_maximum_events lg \<and> al_sink lg' = al_sink lg"
  by (auto simp: sink_line_eq split: option.splits)

lemma keep_last: "(if length xs > n then drop (length xs - n) xs else xs) = drop (length xs - n) xs"
  by simp

lemma audit_append_eq:
  "audit_append e lg = Inr lg' \<longleftrightarrow> \<not> missing_metadata e \<and> \<not> artifact_hash_invalid e \<and>
     (al_events lg = [] \<or> ae_occurred_at (last (al_events lg)) \<le> ae_occurred_at e) \<and>
     (\<exists>lg''. sink_line e lg = Inr lg'' \<and>
        lg' = lg''\<lparr>al_events := drop (length (al_events lg'' @ [e]) - al_maximum_events lg'') (al_events lg'' @ [e])\<rparr>)"
  unfolding audit_append_def Let_def keep_last if_throw_eq_Inr and_then_eq_Inr
  by (auto simp: not_less simp del: length_append drop_append)

lemma list_all_suffix: "suffix xs ys \<Longrightarrow> list_all P ys \<Longrightarrow> list_all P xs"
  by (auto simp: suffix_def)

lemma sorted_suffix: "suffix xs ys \<Longrightarrow> sorted (map f ys) \<Longrightarrow> sorted (map f xs)"
  by (auto simp: suffix_def sorted_append)

lemma suffix_map: "suffix xs ys \<Longrightarrow> suffix (map f xs) (map f ys)"
  by (auto simp: suffix_def)

text \<open>Dropping old events keeps the invariant.\<close>

lemma audit_wf_suffix:
  assumes "audit_wf lg" "suffix es (al_events lg)"
  shows "audit_wf (lg\<lparr>al_events := es\<rparr>)"
proof -
  have "length es \<le> length (al_events lg)"
    using assms(2) by (rule suffix_length_le)
  then show ?thesis
    using assms by (auto simp: audit_wf_def intro: list_all_suffix sorted_suffix
        suffix_order.trans [OF suffix_map])
qed

lemma sorted_map_snoc:
  "sorted (map f xs) \<Longrightarrow> xs = [] \<or> f (last xs) \<le> f x \<Longrightarrow> sorted (map f (xs @ [x]))"
  by (induction xs rule: rev_induct) (auto simp: sorted_append)

lemma audit_append_wf:
  assumes wf: "audit_wf lg" and app: "audit_append e lg = Inr lg'"
  shows "audit_wf lg'"
proof -
  obtain lg'' where sunk: "sink_line e lg = Inr lg''"
    and valid: "\<not> missing_metadata e" "\<not> artifact_hash_invalid e"
    and order: "al_events lg = [] \<or> ae_occurred_at (last (al_events lg)) \<le> ae_occurred_at e"
    and lg'0: "lg' = lg''\<lparr>al_events := drop (length (al_events lg'' @ [e]) - al_maximum_events lg'') (al_events lg'' @ [e])\<rparr>"
    using app unfolding audit_append_eq by blast
  note keeps = sink_line_keeps [OF sunk]
  let ?all = "al_events lg @ [e]"
  let ?kept = "drop (Suc (length (al_events lg)) - al_maximum_events lg) ?all"
  have lg': "lg' = lg''\<lparr>al_events := ?kept\<rparr>"
    using lg'0 keeps by simp
  have kept: "suffix ?kept ?all"
    by (rule suffix_drop)
  have lines: "suffix (map event_json_line ?all) (map Inr (al_sunk lg''))" if "al_sink lg \<noteq> None"
    using that wf sunk by (auto simp: audit_wf_def sink_line_eq suffix_def)
  have "sorted (map ae_occurred_at ?all)"
    using wf order by (intro sorted_map_snoc) (auto simp: audit_wf_def)
  then have "sorted (map ae_occurred_at ?kept)"
    by (rule sorted_suffix [OF kept])
  moreover have "list_all (\<lambda>e. \<not> missing_metadata e \<and> \<not> artifact_hash_invalid e) ?kept"
    by (rule list_all_suffix [OF kept]) (use wf valid in \<open>simp add: audit_wf_def\<close>)
  moreover have "suffix (map event_json_line ?kept) (map Inr (al_sunk lg''))" if "al_sink lg \<noteq> None"
    using suffix_order.trans [OF suffix_map [OF kept] lines [OF that]] .
  ultimately show ?thesis
    using keeps by (auto simp: audit_wf_def lg')
qed

lemma audit_enforce_retention_wf: "audit_wf lg \<Longrightarrow> audit_wf (audit_enforce_retention now lg)"
  unfolding audit_enforce_retention_def by (rule audit_wf_suffix) (auto intro: suffix_dropWhile)

definition empty_log ::
  "int \<Rightarrow> nat \<Rightarrow> (string list \<Rightarrow> string \<Rightarrow> unit result) option \<Rightarrow> audit_log" where
  "empty_log age n sink = \<lparr>al_maximum_age = age, al_maximum_events = n, al_sink = sink,
     al_sunk = [], al_events = []\<rparr>"

lemma audit_wf_empty: "audit_wf (empty_log age n sink)"
  by (simp add: audit_wf_def empty_log_def)

lemma audit_step_wf: "audit_wf lg \<Longrightarrow> audit_wf (audit_step lg call)"
  by (auto simp: audit_step_def intro: audit_append_wf audit_enforce_retention_wf
      split: audit_call.splits sum.splits)

interpretation audit: invariant_machine audit_step "empty_log age n sink" audit_wf for age n sink
  by unfold_locales (rule audit_wf_empty, rule audit_step_wf)

text \<open>No call changes the policy or the sink.\<close>

lemma audit_step_keeps:
  "al_sink (audit_step lg call) = al_sink lg \<and>
   al_maximum_events (audit_step lg call) = al_maximum_events lg"
  by (auto simp: audit_step_def audit_append_eq audit_enforce_retention_def dest: sink_line_keeps
      split: audit_call.splits sum.splits)

lemma audit_run_keeps:
  "al_sink (foldl audit_step lg calls) = al_sink lg \<and>
   al_maximum_events (foldl audit_step lg calls) = al_maximum_events lg"
  by (induction calls arbitrary: lg) (simp_all add: audit_step_keeps)

text \<open>After the retention run of an ordered log no event is older than the maximum age.\<close>

lemma dropWhile_sorted:
  "sorted (map f xs) \<Longrightarrow> dropWhile (\<lambda>x. \<not> f x \<ge> c) xs = filter (\<lambda>x. f x \<ge> c) xs"
  by (induction xs) (auto intro!: filter_id_conv [THEN iffD2, symmetric] simp: order_trans)

section \<open>Properties\<close>

text \<open>C31. Whatever is appended and expired, and whichever writes the sink refuses: the kept events are
  valid, in the order of time and at most as many as the policy allows, and with a sink their lines
  are exactly the last lines it has written, so no event is kept that was not written first.\<close>

theorem audit_log_write_ahead:
  assumes "new_audit_log age n (Some sink) = Inr lg"
  shows "sorted (map ae_occurred_at (al_events (foldl audit_step lg calls))) \<and>
    length (al_events (foldl audit_step lg calls)) \<le> n \<and>
    list_all (\<lambda>e. \<not> missing_metadata e \<and> \<not> artifact_hash_invalid e)
      (al_events (foldl audit_step lg calls)) \<and>
    suffix (map event_json_line (al_events (foldl audit_step lg calls)))
      (map Inr (al_sunk (foldl audit_step lg calls)))"
proof -
  have "lg = empty_log age n (Some sink)"
    using assms by (auto simp: new_audit_log_def empty_log_def result_simps)
  then show ?thesis
    using audit.run_inv [of age n "Some sink" calls] audit_run_keeps [of lg calls]
    by (simp add: audit_wf_def) (simp add: empty_log_def)
qed

theorem audit_log_write_ahead_witness:
  "\<exists>lg. new_audit_log 24 2 (Some (\<lambda>_ _. Inr ())) = Inr lg \<and>
    length (al_events (foldl audit_step lg [Call_append default_event, Call_enforce_retention 5])) \<le> 2"
proof -
  obtain lg where r: "new_audit_log 24 2 (Some (\<lambda>_ _. Inr ())) = Inr lg"
    by (simp add: new_audit_log_def)
  with audit_log_write_ahead [OF r] show ?thesis by blast
qed

text \<open>An event that the log accepts is one line of JSON: its line exists, ends in a newline and has
  no other control character, so no field can forge a second line.\<close>

theorem audit_append_one_line:
  assumes "audit_append e lg = Inr lg'"
  shows "\<exists>body. event_json_line e = Inr (body @ [CHR 0x0a]) \<and>
    list_all (\<lambda>c. 32 \<le> (of_char c :: nat)) body"
  using assms event_json_line_valid [of e] by (auto simp: audit_append_eq printable_def)

theorem audit_append_one_line_witness:
  "\<exists>lg. audit_append (default_event\<lparr>ae_occurred_at := 7, ae_principal_id := ''d'',
      ae_device_id := ''d'', ae_session_id := ''s''\<rparr>) (empty_log 24 2 None) = Inr lg \<and>
    (\<exists>body. event_json_line (default_event\<lparr>ae_occurred_at := 7, ae_principal_id := ''d'',
      ae_device_id := ''d'', ae_session_id := ''s''\<rparr>) = Inr (body @ [CHR 0x0a]) \<and>
      list_all (\<lambda>c. 32 \<le> (of_char c :: nat)) body)"
  (is "\<exists>lg. audit_append ?e ?lg = Inr lg \<and> _")
proof -
  have "identifier_or_empty []" "identifier_or_empty ''d''" "identifier_or_empty ''s''"
    by (simp_all add: identifier_or_empty_def is_alnum_def is_digit_def)
  then have "\<not> missing_metadata ?e" "\<not> artifact_hash_invalid ?e"
    by (simp_all add: missing_metadata_def artifact_hash_invalid_def default_event_def session_action_def
        artifact_action_def deployment_action_def workspace_action_def build_action_def)
  then obtain lg where r: "audit_append ?e ?lg = Inr lg"
    by (simp add: audit_append_def sink_line_def empty_log_def Let_def)
  with audit_append_one_line [OF r] show ?thesis by blast
qed

text \<open>A query returns the first matching events in the order of the log, up to its limit, and is
  refused exactly when its period is empty or its limit is not between 1 and 10000.\<close>

theorem audit_query_exact:
  "audit_run_query q lg =
    (if aq_from q \<le> aq_to q \<and> aq_limit q \<in> {1..10000}
     then Inr (take (aq_limit q) (filter (query_match q) (al_events lg)))
     else Inl (Invalid_argument ''audit query is invalid or exceeds limit''))"
  by (auto simp: audit_run_query_def query_loop_eq)

text \<open>Enforcing the retention of a log, at any point of its life, removes exactly the events older than the maximum
  age.\<close>

theorem audit_retention_exact:
  "al_events (audit_enforce_retention now (foldl audit_step (empty_log age n sink) calls)) =
    filter (\<lambda>e. ae_occurred_at e \<ge> now -
        al_maximum_age (foldl audit_step (empty_log age n sink) calls) * hours_unit)
      (al_events (foldl audit_step (empty_log age n sink) calls))"
  using audit.run_inv [of age n sink calls]
  by (simp add: audit_enforce_retention_def dropWhile_sorted audit_wf_def)

end
