(* ===== verification/Session_Service.thy ===== *)
theory Session_Service
  imports Session Audit_Log
begin

text \<open>
  \<open>core/src/session_service.cpp\<close>: the sessions of a node. Opening a session runs the trust gate,
  binds the principal to the certificate, authorizes the request and starts the lease; every use
  checks the certificate again. The service changes the audit log it shares with the node, and the
  device registry it shares changes between its calls.
\<close>

record session_open_request =
  sor_session_id :: string
  sor_peer :: mtls_peer_evidence
  sor_capabilities :: capability_request
  sor_lease :: int

record active_session =
  as_session :: session
  as_certificate :: peer_certificate
  as_principal_id :: string
  as_workspace :: string
  as_authorization :: authorization_result

record session_service =
  ss_devices :: device_registry
  ss_audit :: audit_log
  ss_sessions :: "string \<rightharpoonup> active_session"

definition resolved_actor :: "session_open_request \<Rightarrow> string" where
  "resolved_actor request =
     (if cert_device_id (ev_certificate (sor_peer request)) \<noteq> []
      then cert_device_id (ev_certificate (sor_peer request))
      else if prin_id (cr_principal (sor_capabilities request)) \<noteq> []
      then prin_id (cr_principal (sor_capabilities request))
      else ''unresolved'')"

text \<open>\<open>audit_.append\<close>, \<open>require_session\<close> and \<open>append_event\<close> as calls of the service.\<close>

definition svc_audit :: "audit_event \<Rightarrow> (session_service, unit) call" where
  "svc_audit e s = (case audit_append e (ss_audit s) of
     Inl x \<Rightarrow> (Inl x, s) | Inr lg \<Rightarrow> (Inr (), s\<lparr>ss_audit := lg\<rparr>))"

definition require_session :: "string \<Rightarrow> (session_service, active_session) call" where
  "require_session sid s = (case ss_sessions s sid of
     None \<Rightarrow> (Inl (Out_of_range ''unknown session''), s) | Some a \<Rightarrow> (Inr a, s))"

definition append_event ::
  "active_session \<Rightarrow> audit_action \<Rightarrow> audit_result \<Rightarrow> time_point \<Rightarrow> (session_service, unit) call" where
  "append_event a action res now = svc_audit (default_event\<lparr>
     ae_occurred_at := now, ae_principal_id := as_principal_id a,
     ae_device_id := cert_device_id (as_certificate a), ae_session_id := sess_id (as_session a),
     ae_workspace_id := as_workspace a, ae_action := action, ae_result := res\<rparr>)"

text \<open>Assigning to the session of a record that \<open>require_session\<close> refers to.\<close>

definition put_session :: "string \<Rightarrow> active_session \<Rightarrow> (session_service, unit) call" where
  "put_session sid a s = (Inr (), s\<lparr>ss_sessions := (ss_sessions s)(sid \<mapsto> a)\<rparr>)"

definition denial_event ::
  "session_open_request \<Rightarrow> string \<Rightarrow> audit_action \<Rightarrow> time_point \<Rightarrow> audit_event" where
  "denial_event request reason action now = default_event\<lparr>
     ae_occurred_at := now, ae_principal_id := resolved_actor request,
     ae_device_id := resolved_actor request, ae_session_id := sor_session_id request,
     ae_workspace_id := cr_workspace (sor_capabilities request), ae_reason_code := reason,
     ae_action := action, ae_result := res_denied\<rparr>"

text \<open>The session that \<open>open\<close> builds: created, authenticated, opened, its lease started.\<close>

definition build_session ::
  "session_open_request \<Rightarrow> authorization_result \<Rightarrow> device_registry \<Rightarrow> time_point \<Rightarrow> session result" where
  "build_session request auth devices now =
     and_then (new_session (sor_session_id request)) (\<lambda>s0.
     and_then (session_authenticate_peer s0 (ev_certificate (sor_peer request)) devices now) (\<lambda>s1.
     and_then (session_open s1 auth) (\<lambda>s2.
     session_renew s2 now (sor_lease request))))"

definition svc_open ::
  "session_open_request \<Rightarrow> policy \<Rightarrow> time_point \<Rightarrow> (session_service, authorization_result) call" where
  "svc_open request pol now s =
     (if sor_session_id request = [] \<or> sor_lease request \<le> 0
      then (Inl (Invalid_argument ''invalid session open request''), s)
      else if ss_sessions s (sor_session_id request) \<noteq> None
      then (Inl (Invalid_argument ''session id already exists''), s)
      else
        let peer_ok = trust_gate_verify (sor_peer request) (ss_devices s) now = mtls_accepted;
            identity_bound = prin_kind (cr_principal (sor_capabilities request)) = device \<and>
              prin_id (cr_principal (sor_capabilities request)) =
                cert_device_id (ev_certificate (sor_peer request));
            auth = authorize (sor_capabilities request) pol
        in
        if \<not> peer_ok \<or> \<not> identity_bound then
          c_bind (svc_audit (denial_event request ''mtls_authentication_denied'' session_authenticated now))
            (\<lambda>_. c_throw (Logic_error ''mTLS session authentication rejected'')) s
        else if \<not> ar_principal_matched auth \<or> \<not> ar_workspace_allowed auth \<or> ar_granted auth = {} then
          c_bind (svc_audit (denial_event request ''capability_authorization_denied'' session_opened now))
            (\<lambda>_. c_throw (Logic_error ''session authorization rejected'')) s
        else (case build_session request auth (ss_devices s) now of
            Inl x \<Rightarrow> (Inl x, s)
          | Inr session \<Rightarrow>
              let a = \<lparr>as_session = session, as_certificate = ev_certificate (sor_peer request),
                       as_principal_id = resolved_actor request,
                       as_workspace = cr_workspace (sor_capabilities request),
                       as_authorization = auth\<rparr>
              in c_bind (put_session (sor_session_id request) a) (\<lambda>_.
                 c_bind (append_event a session_authenticated res_allowed now) (\<lambda>_.
                 c_bind (append_event a session_opened res_allowed now) (\<lambda>_.
                 c_return auth))) s))"

definition svc_permits ::
  "string \<Rightarrow> capability \<Rightarrow> string \<Rightarrow> time_point \<Rightarrow> (session_service, bool) call" where
  "svc_permits sid cap workspace now = c_bind (require_session sid) (\<lambda>a s.
     let certificate_valid = registry_verify (ss_devices s) (as_certificate a) now = peer_accepted;
         allowed = certificate_valid \<and> session_active_at (as_session a) now \<and>
           workspace = as_workspace a \<and> permits (as_authorization a) cap
     in (if \<not> certificate_valid \<and> sess_state (as_session a) \<noteq> sess_closed
         then c_bind (put_session sid (a\<lparr>as_session := session_close (as_session a)\<rparr>))
                (\<lambda>_. c_return allowed) s
         else c_return allowed s))"

definition svc_renew :: "string \<Rightarrow> time_point \<Rightarrow> int \<Rightarrow> (session_service, unit) call" where
  "svc_renew sid now extension = c_bind (require_session sid) (\<lambda>a s.
     if registry_verify (ss_devices s) (as_certificate a) now \<noteq> peer_accepted then
       c_bind (put_session sid (a\<lparr>as_session := session_close (as_session a)\<rparr>)) (\<lambda>_.
       c_bind (append_event a session_renewed res_denied now) (\<lambda>_.
       c_throw (Logic_error ''session peer is no longer trusted''))) s
     else
       c_catch_rethrow
         (\<lambda>s. case session_renew (as_session a) now extension of
              Inl x \<Rightarrow> (Inl x, s)
            | Inr session \<Rightarrow>
                c_bind (put_session sid (a\<lparr>as_session := session\<rparr>)) (\<lambda>_.
                append_event a session_renewed res_allowed now) s)
         (append_event a session_renewed res_denied now) s)"

definition svc_close :: "string \<Rightarrow> time_point \<Rightarrow> (session_service, unit) call" where
  "svc_close sid now = c_bind (require_session sid) (\<lambda>a.
     c_bind (put_session sid (a\<lparr>as_session := session_close (as_session a)\<rparr>)) (\<lambda>_.
     append_event a session_closed res_allowed now))"

definition svc_state :: "session_service \<Rightarrow> string \<Rightarrow> session_state result" where
  "svc_state s sid = (case ss_sessions s sid of
     None \<Rightarrow> throw (Out_of_range ''unknown session'') | Some a \<Rightarrow> ok (sess_state (as_session a)))"

section \<open>The service as a state machine\<close>

text \<open>Between calls of the service the node pairs and revokes devices.\<close>

datatype svc_call =
    Svc_open session_open_request policy time_point
  | Svc_permits string capability string time_point
  | Svc_renew string time_point int
  | Svc_close string time_point
  | Svc_registry registry_call

definition svc_step :: "session_service \<Rightarrow> svc_call \<Rightarrow> session_service" where
  "svc_step s call = (case call of
     Svc_open request pol now \<Rightarrow> snd (svc_open request pol now s)
   | Svc_permits sid cap ws now \<Rightarrow> snd (svc_permits sid cap ws now s)
   | Svc_renew sid now ext \<Rightarrow> snd (svc_renew sid now ext s)
   | Svc_close sid now \<Rightarrow> snd (svc_close sid now s)
   | Svc_registry rc \<Rightarrow> s\<lparr>ss_devices := registry_step (ss_devices s) rc\<rparr>)"

definition new_service :: "device_registry \<Rightarrow> audit_log \<Rightarrow> session_service" where
  "new_service devices lg = \<lparr>ss_devices = devices, ss_audit = lg, ss_sessions = Map.empty\<rparr>"

section \<open>Lemmas\<close>

subsection \<open>What the parts change\<close>

lemma svc_audit_keeps [simp]:
  "ss_sessions (snd (svc_audit e s)) = ss_sessions s" "ss_devices (snd (svc_audit e s)) = ss_devices s"
  by (simp_all add: svc_audit_def split: sum.split)

lemma append_event_keeps [simp]:
  "ss_sessions (snd (append_event a action res now s)) = ss_sessions s"
  "ss_devices (snd (append_event a action res now s)) = ss_devices s"
  by (simp_all add: append_event_def)

lemma snd_c_bind: "snd (c_bind m f s) = (case m s of (Inl e, s') \<Rightarrow> s' | (Inr x, s') \<Rightarrow> snd (f x s'))"
  by (simp add: c_bind_def split: prod.split sum.split)

text \<open>A call that audits and then goes on, seen on the sessions and the devices only.\<close>

lemma bind_event_keeps:
  assumes "\<And>u s. ss_sessions (snd (f u s)) = ss_sessions s \<and> ss_devices (snd (f u s)) = ss_devices s"
  shows "ss_sessions (snd (c_bind (svc_audit e) f s)) = ss_sessions s"
    "ss_devices (snd (c_bind (svc_audit e) f s)) = ss_devices s"
  using assms svc_audit_keeps [of e s]
  by (auto simp: snd_c_bind simp del: svc_audit_keeps split: prod.split sum.split)

lemma bind_append_event_keeps:
  assumes "\<And>u s. ss_sessions (snd (f u s)) = ss_sessions s \<and> ss_devices (snd (f u s)) = ss_devices s"
  shows "ss_sessions (snd (c_bind (append_event a ac r now) f s)) = ss_sessions s"
    "ss_devices (snd (c_bind (append_event a ac r now) f s)) = ss_devices s"
  using bind_event_keeps [OF assms] by (simp_all add: append_event_def)

lemma bind_put_session: "c_bind (put_session sid a) f s = f () (snd (put_session sid a s))"
  by (simp add: c_bind_def put_session_def)

lemma put_session_eq [simp]:
  "ss_sessions (snd (put_session sid a s)) = (ss_sessions s)(sid \<mapsto> a)"
  "ss_devices (snd (put_session sid a s)) = ss_devices s"
  by (simp_all add: put_session_def)

lemma build_session_eq:
  "build_session request auth devices now = Inr session \<longleftrightarrow>
     sor_session_id request \<noteq> [] \<and> 0 < sor_lease request \<and>
     registry_verify devices (ev_certificate (sor_peer request)) now = peer_accepted \<and>
     ar_principal_matched auth \<and> ar_workspace_allowed auth \<and> ar_granted auth \<noteq> {} \<and>
     session = \<lparr>sess_id = sor_session_id request, sess_state = sess_open,
       sess_expires_at = Some (now + sor_lease request * minutes_unit)\<rparr>"
  by (auto simp: build_session_def result_simps new_session_eq session_authenticate_peer_def
      session_authenticate_eq session_open_eq session_renew_eq session_active_at_def)

subsection \<open>What each call does to the sessions\<close>

text \<open>The session that an accepted request creates.\<close>

definition opened_session :: "session_open_request \<Rightarrow> policy \<Rightarrow> time_point \<Rightarrow> active_session" where
  "opened_session request pol now = \<lparr>
     as_session = \<lparr>sess_id = sor_session_id request, sess_state = sess_open,
       sess_expires_at = Some (now + sor_lease request * minutes_unit)\<rparr>,
     as_certificate = ev_certificate (sor_peer request),
     as_principal_id = resolved_actor request,
     as_workspace = cr_workspace (sor_capabilities request),
     as_authorization = authorize (sor_capabilities request) pol\<rparr>"

definition open_accepts :: "session_service \<Rightarrow> session_open_request \<Rightarrow> policy \<Rightarrow> time_point \<Rightarrow> bool" where
  "open_accepts s request pol now \<longleftrightarrow>
     sor_session_id request \<noteq> [] \<and> 0 < sor_lease request \<and>
     ss_sessions s (sor_session_id request) = None \<and>
     trust_gate_verify (sor_peer request) (ss_devices s) now = mtls_accepted \<and>
     prin_kind (cr_principal (sor_capabilities request)) = device \<and>
     prin_id (cr_principal (sor_capabilities request)) =
       cert_device_id (ev_certificate (sor_peer request)) \<and>
     ar_principal_matched (authorize (sor_capabilities request) pol) \<and>
     ar_workspace_allowed (authorize (sor_capabilities request) pol) \<and>
     ar_granted (authorize (sor_capabilities request) pol) \<noteq> {}"

lemma build_session_accepts:
  "open_accepts s request pol now \<Longrightarrow>
     build_session request (authorize (sor_capabilities request) pol) (ss_devices s) now =
       Inr (as_session (opened_session request pol now))"
  by (simp add: open_accepts_def build_session_eq trust_gate_accepted opened_session_def)

lemma svc_open_accepted:
  assumes "open_accepts s request pol now"
  shows "svc_open request pol now s =
    c_bind (put_session (sor_session_id request) (opened_session request pol now)) (\<lambda>_.
    c_bind (append_event (opened_session request pol now) session_authenticated res_allowed now) (\<lambda>_.
    c_bind (append_event (opened_session request pol now) session_opened res_allowed now) (\<lambda>_.
    c_return (authorize (sor_capabilities request) pol)))) s"
  using build_session_accepts [OF assms] assms
  by (simp add: svc_open_def open_accepts_def Let_def not_le) (simp add: opened_session_def)

lemma svc_open_sessions:
  "ss_sessions (snd (svc_open request pol now s)) =
     (if open_accepts s request pol now
      then (ss_sessions s)(sor_session_id request \<mapsto> opened_session request pol now)
      else ss_sessions s)"
proof (cases "open_accepts s request pol now")
  case True
  then show ?thesis
    by (simp add: svc_open_accepted bind_put_session bind_append_event_keeps)
next
  case False
  then show ?thesis
    by (auto simp: svc_open_def open_accepts_def Let_def bind_event_keeps)
qed

lemma svc_open_devices [simp]: "ss_devices (snd (svc_open request pol now s)) = ss_devices s"
proof (cases "open_accepts s request pol now")
  case True
  then show ?thesis
    by (simp add: svc_open_accepted bind_put_session bind_append_event_keeps)
next
  case False
  then show ?thesis
    by (auto simp: svc_open_def open_accepts_def Let_def bind_event_keeps)
qed

text \<open>The other calls only move the session of one record on.\<close>

definition evolves :: "active_session \<Rightarrow> active_session \<Rightarrow> bool" where
  "evolves a a' \<longleftrightarrow> a' = a\<lparr>as_session := as_session a'\<rparr> \<and>
     sess_id (as_session a') = sess_id (as_session a) \<and>
     (as_session a' = as_session a \<or> sess_state (as_session a') = sess_closed \<or>
      sess_state (as_session a) = sess_open \<and> sess_state (as_session a') = sess_open \<and>
      sess_expires_at (as_session a') \<noteq> None)"

lemma evolves_refl [simp]: "evolves a a"
  by (simp add: evolves_def)

lemma evolves_close [simp]: "evolves a (a\<lparr>as_session := session_close (as_session a)\<rparr>)"
  by (simp add: evolves_def)

lemma evolves_renew:
  "session_renew (as_session a) now ext = Inr session \<Longrightarrow> evolves a (a\<lparr>as_session := session\<rparr>)"
  by (auto simp: evolves_def session_renew_eq session_active_at_def)

definition only_evolves :: "session_service \<Rightarrow> session_service \<Rightarrow> bool" where
  "only_evolves s s' \<longleftrightarrow> ss_devices s' = ss_devices s \<and>
     (ss_sessions s' = ss_sessions s \<or>
      (\<exists>sid a a'. ss_sessions s sid = Some a \<and> evolves a a' \<and>
         ss_sessions s' = (ss_sessions s)(sid \<mapsto> a')))"

lemma require_session_cases:
  "snd (c_bind (require_session sid) f s) =
     (case ss_sessions s sid of None \<Rightarrow> s | Some a \<Rightarrow> snd (f a s))"
  by (simp add: c_bind_def require_session_def split: option.split)

lemma svc_permits_evolves: "only_evolves s (snd (svc_permits sid cap ws now s))"
  by (auto simp: svc_permits_def require_session_cases only_evolves_def Let_def bind_put_session
      split: option.split intro: evolves_close)

lemma svc_close_evolves: "only_evolves s (snd (svc_close sid now s))"
  by (auto simp: svc_close_def require_session_cases only_evolves_def bind_put_session
      split: option.split intro: evolves_close)

lemma catch_event_keeps [simp]:
  "ss_sessions (snd (c_catch_rethrow m (append_event a ac r now) s)) = ss_sessions (snd (m s))"
  "ss_devices (snd (c_catch_rethrow m (append_event a ac r now) s)) = ss_devices (snd (m s))"
proof -
  have "ss_sessions s'' = ss_sessions s' \<and> ss_devices s'' = ss_devices s'"
    if "append_event a ac r now s' = (x, s'')" for s' x s''
    using that append_event_keeps [of a ac r now s'] by simp
  then show "ss_sessions (snd (c_catch_rethrow m (append_event a ac r now) s)) = ss_sessions (snd (m s))"
    "ss_devices (snd (c_catch_rethrow m (append_event a ac r now) s)) = ss_devices (snd (m s))"
    by (auto simp: c_catch_rethrow_def split: prod.split sum.split)
qed

lemma svc_renew_evolves: "only_evolves s (snd (svc_renew sid now ext s))"
proof (cases "ss_sessions s sid")
  case None
  then show ?thesis
    by (simp add: svc_renew_def require_session_cases only_evolves_def)
next
  case (Some a)
  show ?thesis
  proof (cases "registry_verify (ss_devices s) (as_certificate a) now = peer_accepted")
    case False
    then show ?thesis
      using Some by (auto simp: svc_renew_def require_session_cases only_evolves_def bind_put_session
          bind_append_event_keeps intro: evolves_close)
  next
    case True
    show ?thesis
      using Some True
      by (cases "session_renew (as_session a) now ext")
        (auto simp: svc_renew_def require_session_cases only_evolves_def bind_put_session
          intro: evolves_renew)
  qed
qed

subsection \<open>The life of a session\<close>

text \<open>What every registered session is.\<close>

definition active_session_wf :: "string \<Rightarrow> active_session \<Rightarrow> bool" where
  "active_session_wf sid a \<longleftrightarrow>
     sess_id (as_session a) = sid \<and> sess_state (as_session a) \<in> {sess_open, sess_closed} \<and>
     (sess_state (as_session a) = sess_open \<longrightarrow> sess_expires_at (as_session a) \<noteq> None) \<and>
     as_principal_id a = cert_device_id (as_certificate a) \<and>
     ar_principal_matched (as_authorization a) \<and> ar_workspace_allowed (as_authorization a) \<and>
     ar_granted (as_authorization a) \<noteq> {}"

definition service_wf :: "session_service \<Rightarrow> bool" where
  "service_wf s \<longleftrightarrow> (\<forall>sid a. ss_sessions s sid = Some a \<longrightarrow> active_session_wf sid a)"

lemma evolves_wf: "evolves a a' \<Longrightarrow> active_session_wf sid a \<Longrightarrow> active_session_wf sid a'"
  unfolding evolves_def active_session_wf_def
  by (cases a; cases a') auto

lemma only_evolves_wf: "only_evolves s s' \<Longrightarrow> service_wf s \<Longrightarrow> service_wf s'"
  by (auto simp: only_evolves_def service_wf_def split: if_splits) (metis evolves_wf)

lemma opened_session_wf:
  "open_accepts s request pol now \<Longrightarrow>
     active_session_wf (sor_session_id request) (opened_session request pol now)"
  by (auto simp: open_accepts_def active_session_wf_def opened_session_def resolved_actor_def
      authorize_def Let_def)

lemma svc_open_wf: "service_wf s \<Longrightarrow> service_wf (snd (svc_open request pol now s))"
  by (auto simp: service_wf_def svc_open_sessions split: if_splits intro: opened_session_wf)

lemma svc_step_wf:
  assumes "service_wf s"
  shows "service_wf (svc_step s call)"
proof (cases call)
  case (Svc_registry rc)
  then show ?thesis
    using assms by (simp add: svc_step_def service_wf_def)
qed (use assms in \<open>simp_all add: svc_step_def svc_open_wf only_evolves_wf [OF svc_permits_evolves]
  only_evolves_wf [OF svc_renew_evolves] only_evolves_wf [OF svc_close_evolves]\<close>)

interpretation service: invariant_machine svc_step "new_service devices lg" service_wf for devices lg
  by unfold_locales (simp add: service_wf_def new_service_def, rule svc_step_wf)

text \<open>A registered session stays registered, and closed once it is closed.\<close>

lemma only_evolves_registered:
  assumes "only_evolves s s'" "ss_sessions s sid = Some a"
  shows "\<exists>a'. ss_sessions s' sid = Some a' \<and> evolves a a'"
  using assms by (auto simp: only_evolves_def)

lemma svc_step_registered:
  assumes "ss_sessions s sid = Some a"
  shows "\<exists>a'. ss_sessions (svc_step s call) sid = Some a' \<and> evolves a a'"
proof (cases call)
  case (Svc_open request pol now)
  then show ?thesis
    using assms by (auto simp: svc_step_def svc_open_sessions open_accepts_def)
qed (use assms in \<open>simp_all add: svc_step_def only_evolves_registered [OF svc_permits_evolves]
  only_evolves_registered [OF svc_renew_evolves] only_evolves_registered [OF svc_close_evolves]\<close>)

lemma svc_permits_value:
  "fst (svc_permits sid cap ws now s) = (case ss_sessions s sid of
     None \<Rightarrow> Inl (Out_of_range ''unknown session'')
   | Some a \<Rightarrow> Inr (registry_verify (ss_devices s) (as_certificate a) now = peer_accepted \<and>
       session_active_at (as_session a) now \<and> ws = as_workspace a \<and> permits (as_authorization a) cap))"
  by (auto simp: svc_permits_def c_bind_def require_session_def put_session_def Let_def
      split: option.split)

text \<open>What evolution keeps: everything but the session, and the end of a session.\<close>

lemma evolves_keeps:
  assumes "evolves a a'"
  shows "as_certificate a' = as_certificate a" "as_workspace a' = as_workspace a"
    "as_principal_id a' = as_principal_id a" "as_authorization a' = as_authorization a"
    "sess_state (as_session a) = sess_closed \<Longrightarrow> sess_state (as_session a') = sess_closed"
  using assms unfolding evolves_def by (cases a; cases a'; force)+

text \<open>A use that can never be permitted again: the session is closed or its device is revoked.\<close>

definition dead_session :: "string \<Rightarrow> session_service \<Rightarrow> bool" where
  "dead_session sid s \<longleftrightarrow> (\<exists>a. ss_sessions s sid = Some a \<and>
     (sess_state (as_session a) = sess_closed \<or>
      is_revoked (cert_device_id (as_certificate a)) (ss_devices s)))"

lemma only_evolves_devices: "only_evolves s s' \<Longrightarrow> ss_devices s' = ss_devices s"
  by (simp add: only_evolves_def)

lemma svc_step_revoked:
  "is_revoked did (ss_devices s) \<Longrightarrow> is_revoked did (ss_devices (svc_step s call))"
  by (cases call) (simp_all add: svc_step_def registry_step_revoked
      only_evolves_devices [OF svc_permits_evolves] only_evolves_devices [OF svc_renew_evolves]
      only_evolves_devices [OF svc_close_evolves])

lemma dead_session_step:
  assumes "dead_session sid s"
  shows "dead_session sid (svc_step s call)"
proof -
  obtain a where a: "ss_sessions s sid = Some a"
    "sess_state (as_session a) = sess_closed \<or> is_revoked (cert_device_id (as_certificate a)) (ss_devices s)"
    using assms by (auto simp: dead_session_def)
  obtain a' where a': "ss_sessions (svc_step s call) sid = Some a'" "evolves a a'"
    using svc_step_registered [OF a(1)] by blast
  then show ?thesis
    using a(2) svc_step_revoked [of _ s call] by (auto simp: dead_session_def evolves_keeps)
qed

lemma dead_session_run: "dead_session sid s \<Longrightarrow> dead_session sid (foldl svc_step s calls)"
  by (induction calls arbitrary: s) (auto intro: dead_session_step)

lemma dead_session_permits: "dead_session sid s \<Longrightarrow> fst (svc_permits sid cap ws now s) = Inr False"
  by (auto simp: dead_session_def svc_permits_value session_active_at_def is_revoked_not_accepted)

text \<open>Every registered session comes from an accepted call of \<open>open\<close>.\<close>

definition came_from_open :: "svc_call list \<Rightarrow> string \<Rightarrow> active_session \<Rightarrow> bool" where
  "came_from_open calls sid a \<longleftrightarrow> (\<exists>request pol t. Svc_open request pol t \<in> set calls \<and>
     sor_session_id request = sid \<and> as_certificate a = ev_certificate (sor_peer request) \<and>
     as_workspace a = cr_workspace (sor_capabilities request) \<and>
     as_authorization a = authorize (sor_capabilities request) pol)"

lemma came_from_open_mono: "came_from_open calls sid a \<Longrightarrow> came_from_open (calls @ rest) sid a"
  by (auto simp: came_from_open_def)

lemma came_from_open_evolves: "came_from_open calls sid a \<Longrightarrow> evolves a a' \<Longrightarrow> came_from_open calls sid a'"
  by (auto simp: came_from_open_def evolves_keeps)

lemma only_evolves_back:
  "only_evolves s s' \<Longrightarrow> ss_sessions s' sid = Some a' \<Longrightarrow> \<exists>a. ss_sessions s sid = Some a \<and> evolves a a'"
  by (auto simp: only_evolves_def split: if_splits)

lemma svc_step_back:
  assumes "ss_sessions (svc_step s call) sid = Some a'"
  shows "(\<exists>a. ss_sessions s sid = Some a \<and> evolves a a') \<or> came_from_open [call] sid a'"
proof (cases call)
  case (Svc_open request pol t)
  then show ?thesis
    using assms by (auto simp: svc_step_def svc_open_sessions came_from_open_def opened_session_def
        split: if_splits)
qed (use assms in \<open>auto simp: svc_step_def dest: only_evolves_back [OF svc_permits_evolves]
  only_evolves_back [OF svc_renew_evolves] only_evolves_back [OF svc_close_evolves]\<close>)

lemma run_came_from_open:
  "ss_sessions (foldl svc_step (new_service devices lg) calls) sid = Some a \<Longrightarrow>
     came_from_open calls sid a"
proof (induction calls arbitrary: a rule: rev_induct)
  case Nil
  then show ?case by (simp add: new_service_def)
next
  case (snoc call calls)
  then have "(\<exists>a0. ss_sessions (foldl svc_step (new_service devices lg) calls) sid = Some a0 \<and> evolves a0 a)
      \<or> came_from_open [call] sid a"
    by (auto dest: svc_step_back)
  then show ?case
  proof (elim disjE exE conjE)
    fix a0
    assume "ss_sessions (foldl svc_step (new_service devices lg) calls) sid = Some a0" "evolves a0 a"
    then show ?thesis
      by (blast intro: came_from_open_mono came_from_open_evolves snoc.IH)
  qed (auto simp: came_from_open_def)
qed

text \<open>An accepted request whose identifier the audit log refuses.\<close>

lemma append_event_bad_id:
  "\<not> identifier_or_empty (sess_id (as_session a)) \<Longrightarrow>
     append_event a ac r now s = (Inl (Invalid_argument ''audit event is missing required metadata''), s)"
  by (simp add: append_event_def svc_audit_def audit_append_def missing_metadata_def)

section \<open>Sample data for the witnesses\<close>

definition sample_certificate :: peer_certificate where
  "sample_certificate = \<lparr>cert_device_id = ''d'', cert_fingerprint = ''f'', cert_serial = ''s'',
     cert_not_before = 0, cert_not_after = 90\<rparr>"

definition sample_registry :: device_registry where
  "sample_registry = [''d'' \<mapsto> \<lparr>dev_id = ''d'', dev_display_name = ''n'', dev_fingerprint = ''f'',
     dev_certificate = sample_certificate, dev_revoked = False\<rparr>]"

definition sample_request :: "string \<Rightarrow> session_open_request" where
  "sample_request sid = \<lparr>sor_session_id = sid,
     sor_peer = \<lparr>ev_tls_1_3_negotiated = True, ev_client_certificate_present = True,
       ev_certificate_chain_valid = True, ev_revocation_checked = True,
       ev_certificate = sample_certificate\<rparr>,
     sor_capabilities = \<lparr>cr_principal = \<lparr>prin_id = ''d'', prin_kind = device\<rparr>,
       cr_workspace = ''w'', cr_requested = {desktop_view, desktop_control}\<rparr>,
     sor_lease = 15\<rparr>"

definition sample_policy :: policy where
  "sample_policy = \<lparr>pol_principal_id = ''d'', pol_workspaces = {''w''}, pol_allowed = {desktop_view}\<rparr>"

definition sample_service :: session_service where
  "sample_service = new_service sample_registry (empty_log 24 10 None)"

lemma sample_open_accepts:
  "sid \<noteq> [] \<Longrightarrow> open_accepts sample_service (sample_request sid) sample_policy 5"
  by (auto simp: open_accepts_def sample_service_def new_service_def sample_request_def
      sample_policy_def trust_gate_accepted registry_verify_accepted sample_certificate_def
      sample_registry_def constant_time_equals_refl authorize_def Let_def)

lemma sample_permits:
  "sid \<noteq> [] \<Longrightarrow>
     fst (svc_permits sid desktop_view ''w'' 6
       (svc_step sample_service (Svc_open (sample_request sid) sample_policy 5))) = Inr True"
  using sample_open_accepts [of sid]
  by (simp add: svc_permits_value svc_step_def svc_open_sessions sample_request_def opened_session_def
      session_active_at_def)
    (auto simp: sample_service_def new_service_def registry_verify_accepted sample_certificate_def
      sample_registry_def constant_time_equals_refl permits_def authorize_def sample_policy_def Let_def)

section \<open>Properties\<close>

text \<open>C1. Whatever sequence of calls, pairings and revocations precedes it, a use of a session is
  permitted only when an earlier call opened that session with a request and a policy that both list
  the capability, for this workspace, for the device whose certificate the registry still accepts,
  and before the lease ends.\<close>

theorem session_use_authorized:
  assumes "s = foldl svc_step (new_service devices lg) calls"
    and "fst (svc_permits sid cap ws now s) = Inr True"
  shows "\<exists>request pol t0 a lease_end. Svc_open request pol t0 \<in> set calls \<and>
    sor_session_id request = sid \<and> cap \<in> cr_requested (sor_capabilities request) \<and>
    cap \<in> pol_allowed pol \<and> ws \<in> pol_workspaces pol \<and>
    prin_id (cr_principal (sor_capabilities request)) = pol_principal_id pol \<and>
    registry_verify (ss_devices s) (ev_certificate (sor_peer request)) now = peer_accepted \<and>
    ss_sessions s sid = Some a \<and> sess_expires_at (as_session a) = Some lease_end \<and> now < lease_end"
proof -
  obtain a where a: "ss_sessions s sid = Some a"
    and uses: "registry_verify (ss_devices s) (as_certificate a) now = peer_accepted"
      "session_active_at (as_session a) now" "ws = as_workspace a" "permits (as_authorization a) cap"
    using assms(2) by (auto simp: svc_permits_value split: option.splits)
  have "active_session_wf sid a"
    using service.run_inv [of devices lg calls] a assms(1) by (simp add: service_wf_def)
  then obtain lease_end where "sess_expires_at (as_session a) = Some lease_end" "now < lease_end"
    using uses(2) by (auto simp: session_active_at_def active_session_wf_def)
  moreover have "came_from_open calls sid a"
    using run_came_from_open a assms(1) by blast
  ultimately show ?thesis
    using a uses by (auto simp: came_from_open_def permits_authorize) blast
qed

theorem session_use_authorized_witness:
  "\<exists>request pol t0. Svc_open request pol t0 \<in> set [Svc_open (sample_request ''s'') sample_policy 5] \<and>
    desktop_view \<in> pol_allowed pol"
proof -
  have "fst (svc_permits ''s'' desktop_view ''w'' 6
      (foldl svc_step sample_service [Svc_open (sample_request ''s'') sample_policy 5])) = Inr True"
    using sample_permits [of "''s''"] by simp
  from session_use_authorized [OF refl this [unfolded sample_service_def]]
  show ?thesis by blast
qed

text \<open>Once a session is closed, or its device revoked, no later call makes a use of it permitted,
  nor can its identifier be opened again.\<close>

theorem ended_session_stays_ended:
  assumes "ss_sessions s sid = Some a"
    and "sess_state (as_session a) = sess_closed \<or>
      is_revoked (cert_device_id (as_certificate a)) (ss_devices s)"
  shows "fst (svc_permits sid cap ws now (foldl svc_step s calls)) = Inr False \<and>
    ss_sessions (foldl svc_step s calls) sid \<noteq> None"
proof -
  have "dead_session sid (foldl svc_step s calls)"
    using assms by (intro dead_session_run) (auto simp: dead_session_def)
  then show ?thesis
    using dead_session_permits by (auto simp: dead_session_def)
qed

theorem ended_session_stays_ended_witness:
  "fst (svc_permits ''s'' desktop_view ''w'' 8 (foldl svc_step
     (svc_step (svc_step sample_service (Svc_open (sample_request ''s'') sample_policy 5)) (Svc_close ''s'' 6))
     [Svc_open (sample_request ''s'') sample_policy 7])) = Inr False"
proof -
  let ?s = "svc_step (svc_step sample_service (Svc_open (sample_request ''s'') sample_policy 5)) (Svc_close ''s'' 6)"
  obtain a where "ss_sessions ?s ''s'' = Some a" "sess_state (as_session a) = sess_closed"
    using sample_open_accepts [of "''s''"]
    by (auto simp: svc_step_def svc_close_def require_session_cases svc_open_sessions bind_put_session
        sample_request_def)
  then show ?thesis
    using ended_session_stays_ended by blast
qed

text \<open>A session is registered before it is audited: when the audit log refuses the identifier of an
  otherwise accepted request, \<open>open\<close> throws and nothing is logged, but the session is open.\<close>

theorem open_registers_before_audit:
  assumes "open_accepts s request pol now"
    and "\<not> identifier_or_empty (sor_session_id request)"
  shows "fst (svc_open request pol now s) =
      Inl (Invalid_argument ''audit event is missing required metadata'') \<and>
    ss_audit (snd (svc_open request pol now s)) = ss_audit s \<and>
    ss_sessions (snd (svc_open request pol now s)) (sor_session_id request) =
      Some (opened_session request pol now)"
  using assms
  by (simp add: svc_open_accepted bind_put_session svc_open_sessions)
    (simp add: c_bind_def append_event_bad_id opened_session_def put_session_def)

theorem open_registers_before_audit_witness:
  "fst (svc_open (sample_request ''a/b'') sample_policy 5 sample_service) =
      Inl (Invalid_argument ''audit event is missing required metadata'') \<and>
    fst (svc_permits ''a/b'' desktop_view ''w'' 6
      (snd (svc_open (sample_request ''a/b'') sample_policy 5 sample_service))) = Inr True"
proof -
  have "\<not> identifier_or_empty (sor_session_id (sample_request ''a/b''))"
    by (simp add: sample_request_def identifier_or_empty_def is_alnum_def is_digit_def)
  then show ?thesis
    using open_registers_before_audit [OF sample_open_accepts [of "''a/b''"]]
      sample_permits [of "''a/b''"] by (simp add: svc_step_def)
qed

end
