(* ===== verification/Visual_Headers.thy ===== *)
theory Visual_Headers
  imports Wire
begin

text \<open>
  \<open>desktop/src/desktop.cpp\<close>: which visual messages a runtime mode lets through, and the fixed-size
  headers of the preview stream, of visual messages and of reverse control messages, with their
  validation. An enumeration with a fixed underlying type has every value of that type, because the
  decoders cast from the wire before they validate; so it is that word type with named values.
\<close>

section \<open>Sizes and enumerations\<close>

abbreviation maximum_media_datagram_size :: nat where
  "maximum_media_datagram_size \<equiv> 1200"
abbreviation maximum_encoded_frame_size :: nat where
  "maximum_encoded_frame_size \<equiv> 8388608"
abbreviation maximum_preview_width :: "'a::numeral" where
  "maximum_preview_width \<equiv> 1920"
abbreviation maximum_preview_height :: "'a::numeral" where
  "maximum_preview_height \<equiv> 1080"
abbreviation maximum_preview_frame_size :: nat where
  "maximum_preview_frame_size \<equiv> 8294400"
abbreviation maximum_reverse_control_payload :: nat where
  "maximum_reverse_control_payload \<equiv> 65536"

named_theorems enum_values \<open>the values of the enumerations\<close>

type_synonym visual_message_type = u8

definition h264_access_unit :: visual_message_type where [enum_values]: "h264_access_unit = 1"
definition full_snapshot :: visual_message_type where [enum_values]: "full_snapshot = 2"
definition raw_rect :: visual_message_type where [enum_values]: "raw_rect = 3"
definition lz4_rect :: visual_message_type where [enum_values]: "lz4_rect = 4"
definition copy_rect :: visual_message_type where [enum_values]: "copy_rect = 5"
definition cursor_position :: visual_message_type where [enum_values]: "cursor_position = 6"
definition cursor_shape :: visual_message_type where [enum_values]: "cursor_shape = 7"
definition frame_commit :: visual_message_type where [enum_values]: "frame_commit = 8"
definition state_reset :: visual_message_type where [enum_values]: "state_reset = 9"

type_synonym reverse_control_type = u8

definition rc_input_event :: reverse_control_type where [enum_values]: "rc_input_event = 1"
definition rc_release_all_input :: reverse_control_type where [enum_values]: "rc_release_all_input = 2"
definition rc_request_full_snapshot :: reverse_control_type
  where [enum_values]: "rc_request_full_snapshot = 3"
definition rc_frame_commit_ack :: reverse_control_type where [enum_values]: "rc_frame_commit_ack = 4"
definition rc_ping :: reverse_control_type where [enum_values]: "rc_ping = 5"

datatype visual_runtime_mode = mode_h264 | mode_hybrid | mode_exact_only

definition visual_message_allowed :: "visual_runtime_mode \<Rightarrow> visual_message_type \<Rightarrow> bool" where
  "visual_message_allowed mode t =
     (if t = cursor_position \<or> t = cursor_shape \<or> t = state_reset then True
      else if t = h264_access_unit then mode \<noteq> mode_exact_only
      else if t = full_snapshot \<or> t = raw_rect \<or> t = frame_commit then mode \<noteq> mode_h264
      else if t = lz4_rect \<or> t = copy_rect then False
      else False)"

section \<open>Magic numbers\<close>

definition video_magic :: "byte list" where "video_magic = as_bytes ''RWV1''"
definition input_magic :: "byte list" where "input_magic = as_bytes ''RWI1''"
definition clipboard_magic :: "byte list" where "clipboard_magic = as_bytes ''RWC1''"
definition keyframe_magic :: "byte list" where "keyframe_magic = as_bytes ''RWK1''"
definition preview_magic :: "byte list" where "preview_magic = as_bytes ''RWP1''"
definition encoded_preview_magic :: "byte list" where "encoded_preview_magic = as_bytes ''RWH1''"
definition visual_message_magic :: "byte list" where "visual_message_magic = as_bytes ''RWV2''"
definition reverse_control_magic :: "byte list" where "reverse_control_magic = as_bytes ''RWC1''"

lemma length_magic [simp]:
  "length video_magic = 4" "length input_magic = 4" "length clipboard_magic = 4"
  "length keyframe_magic = 4" "length preview_magic = 4" "length encoded_preview_magic = 4"
  "length visual_message_magic = 4" "length reverse_control_magic = 4"
  by (simp_all add: video_magic_def input_magic_def clipboard_magic_def keyframe_magic_def
      preview_magic_def encoded_preview_magic_def visual_message_magic_def reverse_control_magic_def)

section \<open>Preview frames\<close>

definition validate_dimensions :: "u32 \<Rightarrow> u32 \<Rightarrow> unit result" where
  "validate_dimensions width height =
     throw_if (width = 0 \<or> height = 0 \<or> width > 7680 \<or> height > 4320)
       (Invalid_argument ''video dimensions exceed bounds'')"

record raw_frame =
  rf_frame_id :: u64
  rf_captured_at_us :: u64
  rf_width :: u32
  rf_height :: u32
  rf_row_stride :: u32
  rf_bgra :: "byte list"

definition validate_raw_frame :: "raw_frame \<Rightarrow> unit result" where
  "validate_raw_frame frame =
     and_then (validate_dimensions (rf_width frame) (rf_height frame)) (\<lambda>_.
     let packed_stride = unat (rf_width frame) * 4;
         expected_size = unat (rf_row_stride frame) * unat (rf_height frame)
     in throw_if (rf_frame_id frame = 0 \<or> rf_captured_at_us frame = 0 \<or>
          unat (rf_row_stride frame) < packed_stride \<or> length (rf_bgra frame) \<noteq> expected_size)
        (Invalid_argument ''invalid raw preview frame''))"

record preview_frame_header =
  pf_frame_id :: u64
  pf_captured_at_us :: u64
  pf_width :: u32
  pf_height :: u32
  pf_payload_size :: u32

definition validate_preview_header :: "preview_frame_header \<Rightarrow> unit result" where
  "validate_preview_header h =
     and_then (throw_if (pf_frame_id h = 0 \<or> pf_captured_at_us h = 0 \<or> pf_width h = 0 \<or>
         pf_height h = 0 \<or> pf_width h > maximum_preview_width \<or> pf_height h > maximum_preview_height)
       (Invalid_argument ''invalid preview frame header'')) (\<lambda>_.
     let expected = unat (pf_width h) * unat (pf_height h) * 4
     in throw_if (expected > maximum_preview_frame_size \<or> unat (pf_payload_size h) \<noteq> expected)
       (Invalid_argument ''invalid preview frame payload size''))"

definition encode_preview_frame_header :: "preview_frame_header \<Rightarrow> byte list result" where
  "encode_preview_frame_header h = and_then (validate_preview_header h) (\<lambda>_.
     let encoded = preview_magic @ put_u16 1 @ put_u16 0 @ put_u64 (pf_frame_id h) @
           put_u64 (pf_captured_at_us h) @ put_u32 (pf_width h) @ put_u32 (pf_height h) @
           put_u32 (pf_payload_size h)
     in if length encoded \<noteq> 36 then throw (Logic_error ''preview frame header size mismatch'')
        else ok encoded)"

definition decode_preview_frame_header :: "byte list \<Rightarrow> preview_frame_header result" where
  "decode_preview_frame_header bs =
     (if length bs \<noteq> 36 then throw (Invalid_argument ''invalid preview frame header size'')
      else rseq (require_magic preview_magic) (\<lambda>_.
        rseq rd_u16 (\<lambda>version. rthrow_if (version \<noteq> 1) (Invalid_argument ''unsupported preview frame header'') (
        rseq rd_u16 (\<lambda>zero. rthrow_if (zero \<noteq> 0) (Invalid_argument ''unsupported preview frame header'') (
        rseq rd_u64 (\<lambda>frame_id. rseq rd_u64 (\<lambda>captured. rseq rd_u32 (\<lambda>width. rseq rd_u32 (\<lambda>height.
        rseq rd_u32 (\<lambda>payload_size.
          let h = \<lparr>pf_frame_id = frame_id, pf_captured_at_us = captured, pf_width = width,
                pf_height = height, pf_payload_size = payload_size\<rparr>
          in rend (Invalid_argument ''trailing preview frame header bytes'')
               (and_then (validate_preview_header h) (\<lambda>_. ok h))))))))))))
        (new_reader bs))"

record encoded_preview_frame_header =
  ef_frame_id :: u64
  ef_captured_at_us :: u64
  ef_width :: u32
  ef_height :: u32
  ef_payload_size :: u32
  ef_keyframe :: bool

definition validate_encoded_preview_header :: "encoded_preview_frame_header \<Rightarrow> unit result" where
  "validate_encoded_preview_header h =
     throw_if (ef_frame_id h = 0 \<or> ef_captured_at_us h = 0 \<or> ef_width h = 0 \<or> ef_height h = 0 \<or>
         ef_width h > maximum_preview_width \<or> ef_height h > maximum_preview_height \<or>
         ef_payload_size h = 0 \<or> unat (ef_payload_size h) > maximum_encoded_frame_size)
       (Invalid_argument ''invalid encoded preview frame header'')"

definition encode_encoded_preview_frame_header ::
  "encoded_preview_frame_header \<Rightarrow> byte list result" where
  "encode_encoded_preview_frame_header h = and_then (validate_encoded_preview_header h) (\<lambda>_.
     let encoded = encoded_preview_magic @ put_u16 1 @ put_u16 (if ef_keyframe h then 1 else 0) @
           put_u64 (ef_frame_id h) @ put_u64 (ef_captured_at_us h) @ put_u32 (ef_width h) @
           put_u32 (ef_height h) @ put_u32 (ef_payload_size h)
     in if length encoded \<noteq> 36
        then throw (Logic_error ''encoded preview frame header size mismatch'') else ok encoded)"

definition decode_encoded_preview_frame_header ::
  "byte list \<Rightarrow> encoded_preview_frame_header result" where
  "decode_encoded_preview_frame_header bs =
     (if length bs \<noteq> 36
      then throw (Invalid_argument ''invalid encoded preview frame header size'')
      else rseq (require_magic encoded_preview_magic) (\<lambda>_.
        rseq rd_u16 (\<lambda>version.
        rthrow_if (version \<noteq> 1) (Invalid_argument ''unsupported encoded preview frame header'') (
        rseq rd_u16 (\<lambda>flags.
        rthrow_if (flags AND 0xfffe \<noteq> 0) (Invalid_argument ''unknown encoded preview frame flags'') (
        rseq rd_u64 (\<lambda>frame_id. rseq rd_u64 (\<lambda>captured. rseq rd_u32 (\<lambda>width. rseq rd_u32 (\<lambda>height.
        rseq rd_u32 (\<lambda>payload_size.
          let h = \<lparr>ef_frame_id = frame_id, ef_captured_at_us = captured, ef_width = width,
                ef_height = height, ef_payload_size = payload_size, ef_keyframe = flags AND 1 \<noteq> 0\<rparr>
          in rend (Invalid_argument ''trailing encoded preview frame header bytes'')
               (and_then (validate_encoded_preview_header h) (\<lambda>_. ok h))))))))))))
        (new_reader bs))"

section \<open>Visual messages\<close>

record visual_message_header =
  vh_type :: visual_message_type
  vh_flags :: u8
  vh_payload_size :: u32
  vh_session_generation :: u64
  vh_representation_epoch :: u64
  vh_visual_sequence :: u64
  vh_frame_id :: u64
  vh_captured_at_us :: u64

abbreviation visual_flag_frame_final :: u8 where
  "visual_flag_frame_final \<equiv> 1"
abbreviation visual_flag_keyframe :: u8 where
  "visual_flag_keyframe \<equiv> 2"

definition validate_visual_header :: "visual_message_header \<Rightarrow> unit result" where
  "validate_visual_header h =
     (if vh_type h < h264_access_unit \<or> vh_type h > state_reset \<or> vh_session_generation h = 0 \<or>
         vh_representation_epoch h = 0 \<or> vh_visual_sequence h = 0 \<or> vh_captured_at_us h = 0
      then throw (Invalid_argument ''invalid visual message header'')
      else if vh_flags h AND NOT (visual_flag_frame_final OR visual_flag_keyframe) \<noteq> 0
      then throw (Invalid_argument ''unknown visual message flags'')
      else if vh_type h = h264_access_unit then
        throw_if (vh_frame_id h = 0 \<or> vh_flags h AND visual_flag_frame_final = 0 \<or>
            unat (vh_payload_size h) < 9 \<or>
            unat (vh_payload_size h) > maximum_encoded_frame_size + 8)
          (Invalid_argument ''invalid H.264 visual message header'')
      else if vh_type h = cursor_position then
        throw_if (vh_flags h \<noteq> 0 \<or> unat (vh_payload_size h) \<noteq> 20)
          (Invalid_argument ''invalid cursor position header'')
      else if vh_type h = cursor_shape then
        throw_if (vh_flags h \<noteq> 0 \<or> unat (vh_payload_size h) < 20 \<or>
            unat (vh_payload_size h) > 20 + 256 * 256 * 4)
          (Invalid_argument ''invalid cursor shape header'')
      else throw_if (unat (vh_payload_size h) > maximum_preview_frame_size + 64)
          (Invalid_argument ''visual message payload exceeds bounds''))"

definition encode_visual_message_header :: "visual_message_header \<Rightarrow> byte list result" where
  "encode_visual_message_header h = and_then (validate_visual_header h) (\<lambda>_.
     let encoded = visual_message_magic @ put_u16 3 @ put_u8 (vh_type h) @ put_u8 (vh_flags h) @
           put_u16 56 @ put_u16 0 @ put_u32 (vh_payload_size h) @ put_u64 (vh_session_generation h) @
           put_u64 (vh_representation_epoch h) @ put_u64 (vh_visual_sequence h) @
           put_u64 (vh_frame_id h) @ put_u64 (vh_captured_at_us h)
     in if length encoded \<noteq> 56 then throw (Logic_error ''visual message header size mismatch'')
        else ok encoded)"

definition decode_visual_message_header :: "byte list \<Rightarrow> visual_message_header result" where
  "decode_visual_message_header bs =
     (if length bs \<noteq> 56 then throw (Invalid_argument ''invalid visual message header size'')
      else rseq (require_magic visual_message_magic) (\<lambda>_.
        rseq rd_u16 (\<lambda>version. rthrow_if (version \<noteq> 3) (Invalid_argument ''unsupported visual message header'') (
        rseq rd_u8 (\<lambda>t. rseq rd_u8 (\<lambda>flags.
        rseq rd_u16 (\<lambda>size. rthrow_if (size \<noteq> 56) (Invalid_argument ''unsupported visual message layout'') (
        rseq rd_u16 (\<lambda>zero. rthrow_if (zero \<noteq> 0) (Invalid_argument ''unsupported visual message layout'') (
        rseq rd_u32 (\<lambda>payload_size. rseq rd_u64 (\<lambda>generation. rseq rd_u64 (\<lambda>epoch.
        rseq rd_u64 (\<lambda>sequence. rseq rd_u64 (\<lambda>frame_id. rseq rd_u64 (\<lambda>captured.
          let h = \<lparr>vh_type = t, vh_flags = flags, vh_payload_size = payload_size,
                vh_session_generation = generation, vh_representation_epoch = epoch,
                vh_visual_sequence = sequence, vh_frame_id = frame_id, vh_captured_at_us = captured\<rparr>
          in rend (Invalid_argument ''trailing visual message header bytes'')
               (and_then (validate_visual_header h) (\<lambda>_. ok h)))))))))))))))))
        (new_reader bs))"

section \<open>Reverse control\<close>

record reverse_control_header =
  rh_type :: reverse_control_type
  rh_flags :: u8
  rh_payload_size :: u32
  rh_input_epoch :: u64
  rh_sequence :: u64
  rh_occurred_at_us :: u64

definition validate_reverse_control_header :: "reverse_control_header \<Rightarrow> unit result" where
  "validate_reverse_control_header h =
     throw_if (rh_type h < rc_input_event \<or> rh_type h > rc_ping \<or> rh_flags h \<noteq> 0 \<or>
         rh_input_epoch h = 0 \<or> rh_sequence h = 0 \<or> rh_occurred_at_us h = 0 \<or>
         unat (rh_payload_size h) > maximum_reverse_control_payload)
       (Invalid_argument ''invalid reverse control header'')"

definition encode_reverse_control_header :: "reverse_control_header \<Rightarrow> byte list result" where
  "encode_reverse_control_header h = and_then (validate_reverse_control_header h) (\<lambda>_.
     let encoded = reverse_control_magic @ put_u16 2 @ put_u8 (rh_type h) @ put_u8 (rh_flags h) @
           put_u32 (rh_payload_size h) @ put_u64 (rh_input_epoch h) @ put_u64 (rh_sequence h) @
           put_u64 (rh_occurred_at_us h) @ put_u32 0
     in if length encoded \<noteq> 40 then throw (Logic_error ''reverse control header size mismatch'')
        else ok encoded)"

definition decode_reverse_control_header :: "byte list \<Rightarrow> reverse_control_header result" where
  "decode_reverse_control_header bs =
     (if length bs \<noteq> 40 then throw (Invalid_argument ''invalid reverse control header size'')
      else rseq (require_magic reverse_control_magic) (\<lambda>_.
        rseq rd_u16 (\<lambda>version. rthrow_if (version \<noteq> 2) (Invalid_argument ''unsupported reverse control protocol'') (
        rseq rd_u8 (\<lambda>t. rseq rd_u8 (\<lambda>flags. rseq rd_u32 (\<lambda>payload_size. rseq rd_u64 (\<lambda>epoch.
        rseq rd_u64 (\<lambda>sequence. rseq rd_u64 (\<lambda>occurred.
        rseq rd_u32 (\<lambda>zero. rthrow_if (zero \<noteq> 0) (Invalid_argument ''unsupported reverse control layout'') (
          let h = \<lparr>rh_type = t, rh_flags = flags, rh_payload_size = payload_size,
                rh_input_epoch = epoch, rh_sequence = sequence, rh_occurred_at_us = occurred\<rparr>
          in rend (Invalid_argument ''unsupported reverse control layout'')
               (and_then (validate_reverse_control_header h) (\<lambda>_. ok h)))))))))))))
        (new_reader bs))"

section \<open>Codec laws\<close>

lemma if_throw_else: "(if c then Inl e else m) = Inr x \<longleftrightarrow> \<not> c \<and> m = Inr x"
  by simp

lemma preview_header_codec:
  "decode_preview_frame_header bs = Inr h \<longleftrightarrow> encode_preview_frame_header h = Inr bs"
  by (cases h) (auto simp: decode_preview_frame_header_def encode_preview_frame_header_def
      decode_simps result_simps Let_def)

lemma visual_header_codec:
  "decode_visual_message_header bs = Inr h \<longleftrightarrow> encode_visual_message_header h = Inr bs"
  by (cases h) (auto simp: decode_visual_message_header_def encode_visual_message_header_def
      decode_simps result_simps Let_def)

lemma reverse_control_header_codec:
  "decode_reverse_control_header bs = Inr h \<longleftrightarrow> encode_reverse_control_header h = Inr bs"
  by (cases h) (auto simp: decode_reverse_control_header_def encode_reverse_control_header_def
      decode_simps result_simps Let_def)

text \<open>A flags field of which only the lowest bit may be set is a boolean.\<close>

lemma flag_word_cases:
  fixes v m :: "'w::len word"
  assumes "m OR 1 = - 1"
  shows "v AND m = 0 \<Longrightarrow> v = 0 \<or> v = 1"
proof -
  assume m: "v AND m = 0"
  have "v = v AND (m OR 1)"
    by (simp add: assms)
  also have "\<dots> = v AND 1"
    by (simp add: bit.conj_disj_distrib m)
  also have "\<dots> = of_bool (odd v)"
    by (simp add: and_one_eq mod_2_eq_odd)
  finally show ?thesis
    by (metis of_bool_def)
qed

lemma flag_u16: "(v :: u16) AND 0xfffe = 0 \<longleftrightarrow> v = 0 \<or> v = 1"
  using flag_word_cases [of "0xfffe" v] by auto

lemma flag_u8: "(v :: u8) AND 0xfe = 0 \<longleftrightarrow> v = 0 \<or> v = 1"
  using flag_word_cases [of "0xfe" v] by auto

lemma encoded_preview_header_codec:
  "decode_encoded_preview_frame_header bs = Inr h \<longleftrightarrow> encode_encoded_preview_frame_header h = Inr bs"
  by (cases h) (auto simp: decode_encoded_preview_frame_header_def
      encode_encoded_preview_frame_header_def decode_simps result_simps Let_def flag_u16)

section \<open>Interpretations\<close>

interpretation preview_header: message_codec "\<lambda>_. True" encode_preview_frame_header decode_preview_frame_header
  by unfold_locales (simp add: preview_header_codec)

interpretation encoded_preview_header:
  message_codec "\<lambda>_. True" encode_encoded_preview_frame_header decode_encoded_preview_frame_header
  by unfold_locales (simp add: encoded_preview_header_codec)

interpretation visual_header: message_codec "\<lambda>_. True" encode_visual_message_header decode_visual_message_header
  by unfold_locales (simp add: visual_header_codec)

interpretation reverse_control_header:
  message_codec "\<lambda>_. True" encode_reverse_control_header decode_reverse_control_header
  by unfold_locales (simp add: reverse_control_header_codec)

section \<open>Properties\<close>

text \<open>The header decoders accept exactly the encodings of valid headers: an encoded header decodes to
  itself, and a header is accepted only in its one canonical form of fixed size, with the right magic,
  version and reserved fields.\<close>

theorem header_codecs:
  "(decode_preview_frame_header bs = Inr p) = (encode_preview_frame_header p = Inr bs) \<and>
   (decode_encoded_preview_frame_header bs = Inr ep) = (encode_encoded_preview_frame_header ep = Inr bs) \<and>
   (decode_visual_message_header bs = Inr v) = (encode_visual_message_header v = Inr bs) \<and>
   (decode_reverse_control_header bs = Inr r) = (encode_reverse_control_header r = Inr bs)"
  using preview_header.decode_iff encoded_preview_header.decode_iff visual_header.decode_iff
    reverse_control_header.decode_iff by simp

text \<open>A header is encoded exactly when it is valid: the size check after writing never fails.\<close>

theorem header_encode_total:
  "succeeds (encode_preview_frame_header p) = succeeds (validate_preview_header p) \<and>
   succeeds (encode_encoded_preview_frame_header ep) = succeeds (validate_encoded_preview_header ep) \<and>
   succeeds (encode_visual_message_header v) = succeeds (validate_visual_header v) \<and>
   succeeds (encode_reverse_control_header r) = succeeds (validate_reverse_control_header r)"
  by (simp add: encode_preview_frame_header_def encode_encoded_preview_frame_header_def
      encode_visual_message_header_def encode_reverse_control_header_def succeeds_iff result_simps Let_def)

end
