(* ===== verification/Visual_Payloads.thy ===== *)
theory Visual_Payloads
  imports Visual_Headers Content_Hash
begin

text \<open>
  \<open>desktop/src/desktop.cpp\<close>: the payloads of visual messages (snapshot chunks, raw rectangles, frame
  commits, state resets, H.264 access units, cursor positions and shapes), the acknowledgement of a
  commit, the digest that both sides advance over rectangles, the check of a payload against its
  header, and the tracker of visual sequence numbers. A fixed-size array is a list of that length,
  which the codec laws ask of a message.
\<close>

abbreviation maximum_snapshot_total_bytes :: nat where
  "maximum_snapshot_total_bytes \<equiv> 33554432"
abbreviation maximum_snapshot_wire_chunk_bytes :: nat where
  "maximum_snapshot_wire_chunk_bytes \<equiv> 65536"
abbreviation maximum_raw_rect_protocol_bytes :: nat where
  "maximum_raw_rect_protocol_bytes \<equiv> 8294400"
abbreviation maximum_raw_rect_transaction_count :: nat where
  "maximum_raw_rect_transaction_count \<equiv> 256"

type_synonym canonical_pixel_format = u32

definition bgra8_premultiplied_srgb :: canonical_pixel_format
  where [enum_values]: "bgra8_premultiplied_srgb = 1"

definition checked_u32 :: "nat \<Rightarrow> u32 result" where
  "checked_u32 value =
     (if value > 0xffffffff then throw (Length_error ''desktop message field exceeds wire limit'')
      else ok (of_nat value))"

section \<open>Snapshot chunks\<close>

record visual_full_snapshot_chunk =
  sc_surface_width :: u32
  sc_surface_height :: u32
  sc_row_stride :: u32
  sc_pixel_format :: canonical_pixel_format
  sc_total_bytes :: u32
  sc_chunk_offset :: u32
  sc_chunk :: "byte list"

text \<open>The 64-bit products of two 32-bit numbers by four cannot wrap within the dimensions.\<close>

definition encode_visual_full_snapshot_chunk :: "visual_full_snapshot_chunk \<Rightarrow> byte list result" where
  "encode_visual_full_snapshot_chunk c =
     and_then (validate_dimensions (sc_surface_width c) (sc_surface_height c)) (\<lambda>_.
     let packed_stride = unat (sc_surface_width c) * 4;
         expected_total = packed_stride * unat (sc_surface_height c)
     in if sc_pixel_format c \<noteq> bgra8_premultiplied_srgb \<or> unat (sc_row_stride c) \<noteq> packed_stride \<or>
           expected_total = 0 \<or> expected_total > maximum_snapshot_total_bytes \<or>
           unat (sc_total_bytes c) \<noteq> expected_total \<or> sc_chunk c = [] \<or>
           length (sc_chunk c) > maximum_snapshot_wire_chunk_bytes \<or>
           sc_chunk_offset c > sc_total_bytes c \<or>
           length (sc_chunk c) > unat (sc_total_bytes c - sc_chunk_offset c)
        then throw (Invalid_argument ''invalid full snapshot chunk'')
        else and_then (checked_u32 (length (sc_chunk c))) (\<lambda>size.
          ok (put_u32 (sc_surface_width c) @ put_u32 (sc_surface_height c) @ put_u32 (sc_row_stride c) @
              put_u32 (sc_pixel_format c) @ put_u32 (sc_total_bytes c) @ put_u32 (sc_chunk_offset c) @
              put_u32 size @ sc_chunk c)))"

definition decode_visual_full_snapshot_chunk :: "byte list \<Rightarrow> visual_full_snapshot_chunk result" where
  "decode_visual_full_snapshot_chunk payload =
     (if length payload < 29 \<or> length payload > 28 + maximum_snapshot_wire_chunk_bytes
      then throw (Invalid_argument ''invalid full snapshot chunk size'')
      else rseq rd_u32 (\<lambda>width. rseq rd_u32 (\<lambda>height. rseq rd_u32 (\<lambda>stride. rseq rd_u32 (\<lambda>format.
        rseq rd_u32 (\<lambda>total. rseq rd_u32 (\<lambda>offset. rseq rd_u32 (\<lambda>chunk_size.
        rseq (rd_span (unat chunk_size)) (\<lambda>bytes.
          rend (Invalid_argument ''trailing full snapshot chunk bytes'')
            (let c = \<lparr>sc_surface_width = width, sc_surface_height = height, sc_row_stride = stride,
                   sc_pixel_format = format, sc_total_bytes = total, sc_chunk_offset = offset,
                   sc_chunk = bytes\<rparr>
             in and_then (encode_visual_full_snapshot_chunk c) (\<lambda>_. ok c))))))))))
        (new_reader payload))"

section \<open>Raw rectangles\<close>

record visual_raw_rect =
  rr_base_frame_id :: u64
  rr_surface_width :: u32
  rr_surface_height :: u32
  rr_x :: u32
  rr_y :: u32
  rr_width :: u32
  rr_height :: u32
  rr_row_stride :: u32
  rr_pixel_format :: canonical_pixel_format
  rr_bgra :: "byte list"

text \<open>The products are in 64 bits, where a width times four does not wrap but the area may.\<close>

definition rect_expected_size :: "visual_raw_rect \<Rightarrow> u64" where
  "rect_expected_size r = (ucast (rr_width r) * 4) * ucast (rr_height r)"

definition encode_visual_raw_rect :: "visual_raw_rect \<Rightarrow> byte list result" where
  "encode_visual_raw_rect r =
     and_then (validate_dimensions (rr_surface_width r) (rr_surface_height r)) (\<lambda>_.
     let packed_stride = ucast (rr_width r) * 4 :: u64;
         expected_size = rect_expected_size r
     in if rr_pixel_format r \<noteq> bgra8_premultiplied_srgb \<or> rr_width r = 0 \<or> rr_height r = 0 \<or>
           rr_x r \<ge> rr_surface_width r \<or> rr_y r \<ge> rr_surface_height r \<or>
           rr_width r > rr_surface_width r - rr_x r \<or> rr_height r > rr_surface_height r - rr_y r \<or>
           ucast (rr_row_stride r) \<noteq> packed_stride \<or> expected_size = 0 \<or>
           unat expected_size > maximum_raw_rect_protocol_bytes \<or>
           length (rr_bgra r) \<noteq> unat expected_size \<or> rr_base_frame_id r = 0
        then throw (Invalid_argument ''invalid raw rectangle'')
        else ok (put_u64 (rr_base_frame_id r) @ put_u32 (rr_surface_width r) @
          put_u32 (rr_surface_height r) @ put_u32 (rr_x r) @ put_u32 (rr_y r) @ put_u32 (rr_width r) @
          put_u32 (rr_height r) @ put_u32 (rr_row_stride r) @ put_u32 (rr_pixel_format r) @ rr_bgra r))"

text \<open>Reading the fields and then \<open>n\<close> bytes of pixels.\<close>

definition read_raw_rect :: "nat \<Rightarrow> reader \<Rightarrow> visual_raw_rect result" where
  "read_raw_rect n =
     rseq rd_u64 (\<lambda>base. rseq rd_u32 (\<lambda>sw. rseq rd_u32 (\<lambda>sh. rseq rd_u32 (\<lambda>x. rseq rd_u32 (\<lambda>y.
     rseq rd_u32 (\<lambda>w. rseq rd_u32 (\<lambda>h. rseq rd_u32 (\<lambda>stride. rseq rd_u32 (\<lambda>format.
     rseq (rd_span n) (\<lambda>bytes _.
       let r = \<lparr>rr_base_frame_id = base, rr_surface_width = sw, rr_surface_height = sh, rr_x = x,
             rr_y = y, rr_width = w, rr_height = h, rr_row_stride = stride,
             rr_pixel_format = format, rr_bgra = bytes\<rparr>
       in and_then (encode_visual_raw_rect r) (\<lambda>_. ok r)))))))))))"

definition decode_visual_raw_rect :: "byte list \<Rightarrow> visual_raw_rect result" where
  "decode_visual_raw_rect payload =
     (if length payload < 44 \<or> length payload > 40 + maximum_raw_rect_protocol_bytes
      then throw (Invalid_argument ''invalid raw rectangle size'')
      else read_raw_rect (length payload - 40) (new_reader payload))"

text \<open>The loop of \<open>advance_canonical_rect_digest\<close> over the rectangles.\<close>

fun digest_rects :: "visual_raw_rect list \<Rightarrow> nat \<Rightarrow> accumulator \<Rightarrow> accumulator result" where
  "digest_rects [] total_bytes acc = ok acc"
| "digest_rects (r # rs) total_bytes acc = and_then (encode_visual_raw_rect r) (\<lambda>encoded.
     if length encoded > maximum_raw_rect_protocol_bytes - total_bytes
     then throw (Invalid_argument ''canonical rectangle transaction exceeds protocol limit'')
     else and_then (update acc (put_u32 (of_nat (length encoded)))) (\<lambda>acc1.
       and_then (update acc1 encoded) (\<lambda>acc2.
         digest_rects rs (total_bytes + length encoded) acc2)))"

definition advance_canonical_rect_digest ::
  "byte list \<Rightarrow> u64 \<Rightarrow> visual_raw_rect list \<Rightarrow> byte list result" where
  "advance_canonical_rect_digest base_digest target_frame_id rectangles =
     (if target_frame_id = 0 \<or> rectangles = [] \<or>
         length rectangles > maximum_raw_rect_transaction_count
      then throw (Invalid_argument ''invalid canonical rectangle digest input'')
      else and_then (update new_accumulator (as_bytes ''RWN-CANONICAL-RECT-V1'')) (\<lambda>a1.
        and_then (update a1 base_digest) (\<lambda>a2.
        and_then (update a2 (put_u64 target_frame_id)) (\<lambda>a3.
        and_then (digest_rects rectangles 0 a3) (\<lambda>a4.
        and_then (finish a4) (\<lambda>(d, _). ok d))))))"

section \<open>Commits, resets and acknowledgements\<close>

record visual_frame_commit =
  fc_base_frame_id :: u64

definition encode_visual_frame_commit :: "visual_frame_commit \<Rightarrow> byte list result" where
  "encode_visual_frame_commit c = ok (put_u64 (fc_base_frame_id c))"

definition decode_visual_frame_commit :: "byte list \<Rightarrow> visual_frame_commit result" where
  "decode_visual_frame_commit payload =
     (if length payload \<noteq> 8 then throw (Invalid_argument ''invalid frame commit payload'')
      else rseq rd_u64 (\<lambda>base _. ok \<lparr>fc_base_frame_id = base\<rparr>) (new_reader payload))"

type_synonym visual_state_reset_reason = u32

definition representation_transition :: visual_state_reset_reason
  where [enum_values]: "representation_transition = 1"
definition snapshot_required :: visual_state_reset_reason where [enum_values]: "snapshot_required = 4"

record visual_state_reset =
  sr_reason :: visual_state_reset_reason

definition encode_visual_state_reset :: "visual_state_reset \<Rightarrow> byte list result" where
  "encode_visual_state_reset reset =
     (if sr_reason reset < representation_transition \<or> sr_reason reset > snapshot_required
      then throw (Invalid_argument ''unknown visual state reset reason'')
      else ok (put_u32 (sr_reason reset)))"

definition decode_visual_state_reset :: "byte list \<Rightarrow> visual_state_reset result" where
  "decode_visual_state_reset payload =
     (if length payload \<noteq> 4 then throw (Invalid_argument ''invalid state reset payload'')
      else rseq rd_u32 (\<lambda>reason _. let reset = \<lparr>sr_reason = reason\<rparr> in
        and_then (encode_visual_state_reset reset) (\<lambda>_. ok reset)) (new_reader payload))"

record frame_commit_ack =
  ack_session_generation :: u64
  ack_representation_epoch :: u64
  ack_frame_id :: u64
  ack_canonical_sha256 :: "byte list"

definition encode_frame_commit_ack :: "frame_commit_ack \<Rightarrow> byte list result" where
  "encode_frame_commit_ack ack =
     (if ack_session_generation ack = 0 \<or> ack_representation_epoch ack = 0 \<or> ack_frame_id ack = 0
      then throw (Invalid_argument ''invalid frame commit ACK'')
      else ok (put_u64 (ack_session_generation ack) @ put_u64 (ack_representation_epoch ack) @
             put_u64 (ack_frame_id ack) @ ack_canonical_sha256 ack))"

definition decode_frame_commit_ack :: "byte list \<Rightarrow> frame_commit_ack result" where
  "decode_frame_commit_ack payload =
     (if length payload \<noteq> 56 then throw (Invalid_argument ''invalid frame commit ACK payload'')
      else rseq rd_u64 (\<lambda>generation. rseq rd_u64 (\<lambda>epoch. rseq rd_u64 (\<lambda>frame_id.
        rseq (rd_span 32) (\<lambda>digest _.
          let ack = \<lparr>ack_session_generation = generation, ack_representation_epoch = epoch,
                ack_frame_id = frame_id, ack_canonical_sha256 = digest\<rparr>
          in and_then (encode_frame_commit_ack ack) (\<lambda>_. ok ack)))))
        (new_reader payload))"

definition frame_commit_ack_matches ::
  "frame_commit_ack \<Rightarrow> u64 \<Rightarrow> u64 \<Rightarrow> u64 \<Rightarrow> byte list \<Rightarrow> bool" where
  "frame_commit_ack_matches ack generation epoch frame_id digest \<longleftrightarrow>
     generation \<noteq> 0 \<and> epoch \<noteq> 0 \<and> frame_id \<noteq> 0 \<and> ack_session_generation ack = generation \<and>
     ack_representation_epoch ack = epoch \<and> ack_frame_id ack = frame_id \<and>
     ack_canonical_sha256 ack = digest"

section \<open>H.264 access units and cursors\<close>

record visual_h264_access_unit =
  au_width :: u32
  au_height :: u32
  au_encoded :: "byte list"

definition encode_visual_h264_access_unit :: "visual_h264_access_unit \<Rightarrow> byte list result" where
  "encode_visual_h264_access_unit u =
     and_then (validate_dimensions (au_width u) (au_height u)) (\<lambda>_.
     if au_width u > maximum_preview_width \<or> au_height u > maximum_preview_height \<or>
        au_encoded u = [] \<or> length (au_encoded u) > maximum_encoded_frame_size
     then throw (Invalid_argument ''invalid visual H.264 access unit'')
     else ok (put_u32 (au_width u) @ put_u32 (au_height u) @ au_encoded u))"

definition decode_visual_h264_access_unit :: "byte list \<Rightarrow> visual_h264_access_unit result" where
  "decode_visual_h264_access_unit payload =
     (if length payload < 9 \<or> length payload > maximum_encoded_frame_size + 8
      then throw (Invalid_argument ''invalid visual H.264 payload size'')
      else rseq rd_u32 (\<lambda>width. rseq rd_u32 (\<lambda>height _.
        let u = \<lparr>au_width = width, au_height = height, au_encoded = drop 8 payload\<rparr>
        in and_then (validate_dimensions (au_width u) (au_height u)) (\<lambda>_.
           if au_width u > maximum_preview_width \<or> au_height u > maximum_preview_height \<or>
              au_encoded u = []
           then throw (Invalid_argument ''invalid visual H.264 access unit'')
           else ok u)))
        (new_reader payload))"

record visual_cursor_position =
  cp_x :: u32
  cp_y :: u32
  cp_visible :: bool
  cp_shape_id :: u64

definition encode_visual_cursor_position :: "visual_cursor_position \<Rightarrow> byte list result" where
  "encode_visual_cursor_position c =
     (if cp_x c > 7680 \<or> cp_y c > 4320
      then throw (Invalid_argument ''cursor position exceeds bounds'')
      else ok (put_u32 (cp_x c) @ put_u32 (cp_y c) @ put_u8 (if cp_visible c then 1 else 0) @
             put_u8 0 @ put_u16 0 @ put_u64 (cp_shape_id c)))"

definition decode_visual_cursor_position :: "byte list \<Rightarrow> visual_cursor_position result" where
  "decode_visual_cursor_position payload =
     (if length payload \<noteq> 20 then throw (Invalid_argument ''invalid cursor position payload size'')
      else rseq rd_u32 (\<lambda>x. rseq rd_u32 (\<lambda>y.
        rseq rd_u8 (\<lambda>visible. rthrow_if (visible > 1) (Invalid_argument ''invalid cursor position payload'') (
        rseq rd_u8 (\<lambda>z8. rthrow_if (z8 \<noteq> 0) (Invalid_argument ''invalid cursor position payload'') (
        rseq rd_u16 (\<lambda>z16. rthrow_if (z16 \<noteq> 0) (Invalid_argument ''invalid cursor position payload'') (
        rseq rd_u64 (\<lambda>shape_id.
          rthrow_if (x > 7680 \<or> y > 4320) (Invalid_argument ''cursor position exceeds bounds'') (
          rend (Invalid_argument ''cursor position exceeds bounds'')
            (ok \<lparr>cp_x = x, cp_y = y, cp_visible = (visible \<noteq> 0), cp_shape_id = shape_id\<rparr>)))))))))))
        (new_reader payload))"

record visual_cursor_shape =
  cs_shape_id :: u64
  cs_width :: u16
  cs_height :: u16
  cs_hotspot_x :: u16
  cs_hotspot_y :: u16
  cs_bgra :: "byte list"

definition encode_visual_cursor_shape :: "visual_cursor_shape \<Rightarrow> byte list result" where
  "encode_visual_cursor_shape c =
     (let expected = unat (cs_width c) * unat (cs_height c) * 4 in
      if cs_shape_id c = 0 \<or> cs_width c = 0 \<or> cs_height c = 0 \<or> cs_width c > 256 \<or>
         cs_height c > 256 \<or> cs_hotspot_x c \<ge> cs_width c \<or> cs_hotspot_y c \<ge> cs_height c \<or>
         length (cs_bgra c) \<noteq> expected
      then throw (Invalid_argument ''invalid cursor shape'')
      else and_then (checked_u32 (length (cs_bgra c))) (\<lambda>size.
        ok (put_u64 (cs_shape_id c) @ put_u16 (cs_width c) @ put_u16 (cs_height c) @
            put_u16 (cs_hotspot_x c) @ put_u16 (cs_hotspot_y c) @ put_u32 size @ cs_bgra c)))"

definition decode_visual_cursor_shape :: "byte list \<Rightarrow> visual_cursor_shape result" where
  "decode_visual_cursor_shape payload =
     (if length payload < 20 \<or> length payload > 20 + 256 * 256 * 4
      then throw (Invalid_argument ''invalid cursor shape payload size'')
      else rseq rd_u64 (\<lambda>shape_id. rseq rd_u16 (\<lambda>width. rseq rd_u16 (\<lambda>height. rseq rd_u16 (\<lambda>hx.
        rseq rd_u16 (\<lambda>hy. rseq rd_u32 (\<lambda>size. rseq (rd_span (unat size)) (\<lambda>bytes.
          rend (Invalid_argument ''trailing cursor shape bytes'')
            (let c = \<lparr>cs_shape_id = shape_id, cs_width = width, cs_height = height,
                   cs_hotspot_x = hx, cs_hotspot_y = hy, cs_bgra = bytes\<rparr>
             in and_then (encode_visual_cursor_shape c) (\<lambda>_. ok c)))))))))
        (new_reader payload))"

section \<open>A payload against its header\<close>

text \<open>Decoding for the check only.\<close>

definition checks :: "'a result \<Rightarrow> unit result" where
  "checks m = and_then m (\<lambda>_. ok ())"

definition validate_visual_message_payload :: "visual_message_header \<Rightarrow> byte list \<Rightarrow> unit result" where
  "validate_visual_message_payload h payload =
     and_then (validate_visual_header h) (\<lambda>_.
     if length payload \<noteq> unat (vh_payload_size h)
     then throw (Invalid_argument ''visual message payload size mismatch'')
     else if vh_type h = h264_access_unit then checks (decode_visual_h264_access_unit payload)
     else if vh_type h = cursor_position then checks (decode_visual_cursor_position payload)
     else if vh_type h = full_snapshot then checks (decode_visual_full_snapshot_chunk payload)
     else if vh_type h = raw_rect then checks (decode_visual_raw_rect payload)
     else if vh_type h = lz4_rect then throw (Invalid_argument ''LZ4 rectangle is not enabled'')
     else if vh_type h = copy_rect then
       throw_if (length payload \<noteq> 24) (Invalid_argument ''invalid copy rectangle payload'')
     else if vh_type h = cursor_shape then
       and_then (throw_if (length payload < 20 \<or> length payload > 20 + 256 * 256 * 4)
           (Invalid_argument ''invalid cursor shape payload''))
         (\<lambda>_. checks (decode_visual_cursor_shape payload))
     else if vh_type h = frame_commit then checks (decode_visual_frame_commit payload)
     else if vh_type h = state_reset then checks (decode_visual_state_reset payload)
     else throw (Invalid_argument ''unknown visual message type''))"

section \<open>The sequence tracker\<close>

datatype visual_sequence_result = seq_accepted | seq_new_generation | seq_gap

record visual_sequence_tracker =
  vt_generation :: u64
  vt_last_sequence :: u64

definition new_sequence_tracker :: visual_sequence_tracker where
  "new_sequence_tracker = \<lparr>vt_generation = 0, vt_last_sequence = 0\<rparr>"

definition tracker_receive ::
  "visual_message_header \<Rightarrow> visual_sequence_tracker
     \<Rightarrow> visual_sequence_result \<times> visual_sequence_tracker" where
  "tracker_receive h tr =
     (if vt_generation tr = 0 \<or> vh_session_generation h \<noteq> vt_generation tr then
        let tr' = tr\<lparr>vt_generation := vh_session_generation h, vt_last_sequence := 0\<rparr>
        in if vh_visual_sequence h \<noteq> 1 then (seq_gap, tr')
           else (seq_new_generation, tr'\<lparr>vt_last_sequence := 1\<rparr>)
      else if vh_visual_sequence h \<noteq> vt_last_sequence tr + 1 then (seq_gap, tr)
      else (seq_accepted, tr\<lparr>vt_last_sequence := vh_visual_sequence h\<rparr>))"

definition tracker_reset :: "visual_sequence_tracker \<Rightarrow> visual_sequence_tracker" where
  "tracker_reset tr = tr\<lparr>vt_generation := 0, vt_last_sequence := 0\<rparr>"

section \<open>Codec laws\<close>

lemma checked_u32_eq: "checked_u32 n = Inr w \<longleftrightarrow> n < 2 ^ 32 \<and> w = of_nat n"
  by (auto simp: checked_u32_def result_simps)

lemma of_nat_u32_eq: "(of_nat n :: u32) = w \<and> n < 2 ^ 32 \<longleftrightarrow> n = unat w"
  using unsigned_less [of w] by (auto simp: unat_of_nat)

lemma unat_of_nat_u32: "n < 2 ^ 32 \<Longrightarrow> unat (of_nat n :: u32) = n"
  by (simp add: unat_of_nat)

lemma frame_commit_codec:
  "decode_visual_frame_commit bs = Inr m \<longleftrightarrow> encode_visual_frame_commit m = Inr bs"
  by (cases m) (auto simp: decode_visual_frame_commit_def encode_visual_frame_commit_def
      decode_simps result_simps)

lemma state_reset_codec:
  "decode_visual_state_reset bs = Inr m \<longleftrightarrow> encode_visual_state_reset m = Inr bs"
  by (cases m) (auto simp: decode_visual_state_reset_def encode_visual_state_reset_def
      decode_simps result_simps Let_def)

lemma ack_codec:
  "decode_frame_commit_ack bs = Inr m \<longleftrightarrow>
     length (ack_canonical_sha256 m) = 32 \<and> encode_frame_commit_ack m = Inr bs"
  by (cases m) (auto simp: decode_frame_commit_ack_def encode_frame_commit_ack_def
      decode_simps result_simps Let_def)

lemma h264_codec:
  "decode_visual_h264_access_unit bs = Inr m \<longleftrightarrow> encode_visual_h264_access_unit m = Inr bs"
  by (cases m) (auto simp: decode_visual_h264_access_unit_def encode_visual_h264_access_unit_def
      decode_simps result_simps Let_def Suc_le_eq)

lemma not_gt_1_iff: "\<not> 1 < (v :: 'w::len word) \<longleftrightarrow> v = 0 \<or> v = 1"
proof -
  have "v \<le> 1 \<longleftrightarrow> unat v \<le> unat (1 :: 'w word)"
    by (rule word_le_nat_alt)
  then show ?thesis
    by (auto simp: not_less word_unat_eq_iff)
qed

lemma cursor_position_codec:
  "decode_visual_cursor_position bs = Inr m \<longleftrightarrow> encode_visual_cursor_position m = Inr bs"
  by (cases m) (auto simp: decode_visual_cursor_position_def encode_visual_cursor_position_def
      decode_simps result_simps Let_def not_gt_1_iff)

text \<open>A length prefix of 32 bits.\<close>

lemma length_prefix_iff: "length xs = unat (n :: u32) \<longleftrightarrow> length xs < 2 ^ 32 \<and> n = of_nat (length xs)"
  using of_nat_u32_eq [of "length xs" n] by auto

definition cursor_shape_ok :: "visual_cursor_shape \<Rightarrow> bool" where
  "cursor_shape_ok c \<longleftrightarrow> cs_shape_id c \<noteq> 0 \<and> cs_width c \<noteq> 0 \<and> cs_height c \<noteq> 0 \<and>
     cs_width c \<le> 256 \<and> cs_height c \<le> 256 \<and> cs_hotspot_x c < cs_width c \<and>
     cs_hotspot_y c < cs_height c \<and> length (cs_bgra c) = unat (cs_width c) * unat (cs_height c) * 4"

lemma cursor_shape_ok_length: 
  assumes "cursor_shape_ok c" shows "length (cs_bgra c) \<le> 262144"
proof -
  have "unat (cs_width c) \<le> 256" "unat (cs_height c) \<le> 256"
    using assms by (simp_all add: cursor_shape_ok_def word_le_nat_alt)
  then have "unat (cs_width c) * unat (cs_height c) \<le> 256 * 256"
    by (rule mult_le_mono)
  moreover have "length (cs_bgra c) = unat (cs_width c) * unat (cs_height c) * 4"
    using assms by (simp add: cursor_shape_ok_def)
  ultimately show ?thesis
    by linarith
qed

lemma encode_cursor_shape_eq:
  "encode_visual_cursor_shape c = Inr bs \<longleftrightarrow> cursor_shape_ok c \<and>
     bs = put_u64 (cs_shape_id c) @ put_u16 (cs_width c) @ put_u16 (cs_height c) @
       put_u16 (cs_hotspot_x c) @ put_u16 (cs_hotspot_y c) @ put_u32 (of_nat (length (cs_bgra c))) @ cs_bgra c"
proof -
  have "cursor_shape_ok c \<Longrightarrow> length (cs_bgra c) < 2 ^ 32"
    using cursor_shape_ok_length [of c] by simp
  then show ?thesis
    unfolding encode_visual_cursor_shape_def Let_def if_throw_eq_Inr and_then_eq_Inr checked_u32_eq
    by (auto simp: cursor_shape_ok_def not_less)
qed

lemma cursor_shape_codec:
  "decode_visual_cursor_shape bs = Inr m \<longleftrightarrow> encode_visual_cursor_shape m = Inr bs"
  by (cases m) (auto simp: decode_visual_cursor_shape_def encode_cursor_shape_eq
      decode_simps result_simps Let_def length_prefix_iff dest: cursor_shape_ok_length)

definition snapshot_chunk_ok :: "visual_full_snapshot_chunk \<Rightarrow> bool" where
  "snapshot_chunk_ok c \<longleftrightarrow>
     validate_dimensions (sc_surface_width c) (sc_surface_height c) = Inr () \<and>
     sc_pixel_format c = bgra8_premultiplied_srgb \<and>
     unat (sc_row_stride c) = unat (sc_surface_width c) * 4 \<and>
     0 < unat (sc_total_bytes c) \<and> unat (sc_total_bytes c) \<le> maximum_snapshot_total_bytes \<and>
     unat (sc_total_bytes c) = unat (sc_surface_width c) * 4 * unat (sc_surface_height c) \<and>
     sc_chunk c \<noteq> [] \<and> length (sc_chunk c) \<le> maximum_snapshot_wire_chunk_bytes \<and>
     unat (sc_chunk_offset c) + length (sc_chunk c) \<le> unat (sc_total_bytes c)"

lemma offset_in_total:
  "\<not> tot < off \<and> n \<le> unat (tot - off) \<and> 0 < n \<longleftrightarrow> unat (off :: u32) + n \<le> unat tot \<and> 0 < n"
  by (auto simp: not_less word_le_nat_alt unat_sub)

lemma encode_snapshot_chunk_eq:
  "encode_visual_full_snapshot_chunk c = Inr bs \<longleftrightarrow> snapshot_chunk_ok c \<and>
     bs = put_u32 (sc_surface_width c) @ put_u32 (sc_surface_height c) @ put_u32 (sc_row_stride c) @
       put_u32 (sc_pixel_format c) @ put_u32 (sc_total_bytes c) @ put_u32 (sc_chunk_offset c) @
       put_u32 (of_nat (length (sc_chunk c))) @ sc_chunk c"
  using offset_in_total [of "sc_total_bytes c" "sc_chunk_offset c" "length (sc_chunk c)"]
  unfolding encode_visual_full_snapshot_chunk_def Let_def if_throw_eq_Inr and_then_eq_Inr checked_u32_eq
    snapshot_chunk_ok_def
  by auto

lemma snapshot_chunk_ok_length:
  "snapshot_chunk_ok c \<Longrightarrow> sc_chunk c \<noteq> [] \<and> length (sc_chunk c) \<le> maximum_snapshot_wire_chunk_bytes"
  by (simp add: snapshot_chunk_ok_def)

lemma snapshot_chunk_codec:
  "decode_visual_full_snapshot_chunk bs = Inr m \<longleftrightarrow> encode_visual_full_snapshot_chunk m = Inr bs"
  by (cases m) (auto simp: decode_visual_full_snapshot_chunk_def encode_snapshot_chunk_eq
      decode_simps result_simps Let_def length_prefix_iff Suc_le_eq dest: snapshot_chunk_ok_length)

definition raw_rect_ok :: "visual_raw_rect \<Rightarrow> bool" where
  "raw_rect_ok r \<longleftrightarrow>
     validate_dimensions (rr_surface_width r) (rr_surface_height r) = Inr () \<and>
     rr_pixel_format r = bgra8_premultiplied_srgb \<and> rr_base_frame_id r \<noteq> 0 \<and>
     0 < unat (rr_width r) \<and> 0 < unat (rr_height r) \<and>
     unat (rr_x r) + unat (rr_width r) \<le> unat (rr_surface_width r) \<and>
     unat (rr_y r) + unat (rr_height r) \<le> unat (rr_surface_height r) \<and>
     unat (rr_row_stride r) = unat (rr_width r) * 4 \<and>
     length (rr_bgra r) = unat (rr_width r) * 4 * unat (rr_height r) \<and>
     length (rr_bgra r) \<le> maximum_raw_rect_protocol_bytes"

definition raw_rect_bytes :: "visual_raw_rect \<Rightarrow> byte list" where
  "raw_rect_bytes r = put_u64 (rr_base_frame_id r) @ put_u32 (rr_surface_width r) @
     put_u32 (rr_surface_height r) @ put_u32 (rr_x r) @ put_u32 (rr_y r) @ put_u32 (rr_width r) @
     put_u32 (rr_height r) @ put_u32 (rr_row_stride r) @ put_u32 (rr_pixel_format r) @ rr_bgra r"


lemma unat_ucast_u32 [simp]: "unat (ucast (w :: u32) :: u64) = unat w"
  by (rule word_ucast_le_iff) simp

lemma packed_stride_nat: "unat (ucast (w :: u32) * 4 :: u64) = unat w * 4"
  using unsigned_less [of w, where 'a = nat] by (simp add: unat_word_ariths)

lemma rect_expected_size_nat:
  assumes "unat (rr_width r) \<le> 7680" "unat (rr_height r) \<le> 4320"
  shows "unat (rect_expected_size r) = unat (rr_width r) * 4 * unat (rr_height r)"
proof -
  have "unat (rr_width r) * 4 * unat (rr_height r) \<le> 7680 * 4 * 4320"
    using assms by (intro mult_le_mono) auto
  then show ?thesis
    by (simp add: rect_expected_size_def unat_mult_lem [THEN iffD1] packed_stride_nat)
qed

lemma extent_in_surface:
  "\<not> s \<le> x \<and> \<not> s - x < w \<and> w \<noteq> 0 \<longleftrightarrow> unat (x :: u32) + unat w \<le> unat s \<and> 0 < unat w"
  by (auto simp: not_less not_le word_le_nat_alt word_less_nat_alt unat_sub word_unat_eq_iff)

lemma encode_raw_rect_eq:
  "encode_visual_raw_rect r = Inr bs \<longleftrightarrow> raw_rect_ok r \<and> bs = raw_rect_bytes r"
proof -
  have dims: "unat (rr_width r) \<le> 7680 \<and> unat (rr_height r) \<le> 4320"
    if "validate_dimensions (rr_surface_width r) (rr_surface_height r) = Inr ()"
      "unat (rr_x r) + unat (rr_width r) \<le> unat (rr_surface_width r)"
      "unat (rr_y r) + unat (rr_height r) \<le> unat (rr_surface_height r)"
    using that by (auto simp: validate_dimensions_def result_simps not_less word_le_nat_alt)
  have stride: "ucast (rr_row_stride r) = (ucast (rr_width r) * 4 :: u64) \<longleftrightarrow>
      unat (rr_row_stride r) = unat (rr_width r) * 4"
    by (simp add: word_unat_eq_iff packed_stride_nat)
  show ?thesis
    using extent_in_surface [of "rr_surface_width r" "rr_x r" "rr_width r"]
      extent_in_surface [of "rr_surface_height r" "rr_y r" "rr_height r"]
      dims rect_expected_size_nat [of r]
    unfolding encode_visual_raw_rect_def Let_def if_throw_eq_Inr and_then_eq_Inr
      raw_rect_ok_def raw_rect_bytes_def stride
    by (auto simp: unat_eq_zero)
qed

lemma length_raw_rect_bytes: "length (raw_rect_bytes r) = 40 + length (rr_bgra r)"
  by (simp add: raw_rect_bytes_def)

lemma read_raw_rect_eq:
  "read_raw_rect n (new_reader bs) = Inr m \<longleftrightarrow>
     (\<exists>post. bs = raw_rect_bytes m @ post \<and> length (rr_bgra m) = n \<and> raw_rect_ok m)"
  by (cases m) (auto simp: read_raw_rect_def encode_raw_rect_eq decode_simps result_simps Let_def
      raw_rect_bytes_def)

lemma raw_rect_ok_length:
  assumes "raw_rect_ok r"
  shows "4 \<le> length (rr_bgra r)" "length (rr_bgra r) \<le> maximum_raw_rect_protocol_bytes"
proof -
  have len: "length (rr_bgra r) = unat (rr_width r) * 4 * unat (rr_height r)"
    "length (rr_bgra r) \<le> maximum_raw_rect_protocol_bytes"
    using assms unfolding raw_rect_ok_def by blast+
  have "1 * 4 * 1 \<le> unat (rr_width r) * 4 * unat (rr_height r)"
    using assms unfolding raw_rect_ok_def by (intro mult_le_mono) auto
  with len show "4 \<le> length (rr_bgra r)" "length (rr_bgra r) \<le> maximum_raw_rect_protocol_bytes"
    by linarith+
qed

lemma raw_rect_codec:
  "decode_visual_raw_rect bs = Inr m \<longleftrightarrow> encode_visual_raw_rect m = Inr bs"
proof
  assume "decode_visual_raw_rect bs = Inr m"
  then obtain post where bs: "44 \<le> length bs" "bs = raw_rect_bytes m @ post"
      "length (rr_bgra m) = length bs - 40" "raw_rect_ok m"
    unfolding decode_visual_raw_rect_def if_throw_eq_Inr read_raw_rect_eq by (auto simp: not_less)
  have "length bs = length (raw_rect_bytes m) + length post"
    using bs(2) by simp
  then have "length post = 0"
    using bs(1,3) length_raw_rect_bytes [of m] by linarith
  then show "encode_visual_raw_rect m = Inr bs"
    using bs(2,4) by (simp add: encode_raw_rect_eq)
next
  assume "encode_visual_raw_rect m = Inr bs"
  then have ok: "raw_rect_ok m" and bs: "bs = raw_rect_bytes m"
    by (simp_all add: encode_raw_rect_eq)
  then have "length bs = 40 + length (rr_bgra m)"
    by (simp add: length_raw_rect_bytes)
  then show "decode_visual_raw_rect bs = Inr m"
    using raw_rect_ok_length [OF ok] ok bs
    unfolding decode_visual_raw_rect_def if_throw_eq_Inr read_raw_rect_eq by simp
qed

text \<open>The interpretations: what the rest of the program needs of these messages.\<close>

interpretation frame_commit: message_codec "\<lambda>_. True" encode_visual_frame_commit decode_visual_frame_commit
  by unfold_locales (simp add: frame_commit_codec)

interpretation state_reset: message_codec "\<lambda>_. True" encode_visual_state_reset decode_visual_state_reset
  by unfold_locales (simp add: state_reset_codec)

interpretation commit_ack: message_codec "\<lambda>m. length (ack_canonical_sha256 m) = 32"
  encode_frame_commit_ack decode_frame_commit_ack
  by unfold_locales (rule ack_codec)

interpretation h264_unit: message_codec "\<lambda>_. True" encode_visual_h264_access_unit decode_visual_h264_access_unit
  by unfold_locales (simp add: h264_codec)

interpretation cursor_position_msg:
  message_codec "\<lambda>_. True" encode_visual_cursor_position decode_visual_cursor_position
  by unfold_locales (simp add: cursor_position_codec)

interpretation cursor_shape_msg:
  message_codec "\<lambda>_. True" encode_visual_cursor_shape decode_visual_cursor_shape
  by unfold_locales (simp add: cursor_shape_codec)

interpretation snapshot_chunk:
  message_codec "\<lambda>_. True" encode_visual_full_snapshot_chunk decode_visual_full_snapshot_chunk
  by unfold_locales (simp add: snapshot_chunk_codec)

interpretation raw_rect_msg: message_codec "\<lambda>_. True" encode_visual_raw_rect decode_visual_raw_rect
  by unfold_locales (simp add: raw_rect_codec)

section \<open>The digest over rectangles\<close>

text \<open>What the digest is taken of: each rectangle's encoding after its length.\<close>

definition rect_stream :: "visual_raw_rect list \<Rightarrow> byte list" where
  "rect_stream rs = concat (map (\<lambda>r. put_u32 (of_nat (length (raw_rect_bytes r))) @ raw_rect_bytes r) rs)"

definition rects_length :: "visual_raw_rect list \<Rightarrow> nat" where
  "rects_length rs = sum_list (map (\<lambda>r. length (raw_rect_bytes r)) rs)"

lemma length_rect_stream: "length (rect_stream rs) = 4 * length rs + rects_length rs"
  by (induction rs) (simp_all add: rect_stream_def rects_length_def)

lemma digest_rects_ok:
  "consumed bs acc \<Longrightarrow> length bs + 4 * length rs + rects_length rs < 2 ^ 64 \<Longrightarrow>
   list_all raw_rect_ok rs \<Longrightarrow> used + rects_length rs \<le> maximum_raw_rect_protocol_bytes \<Longrightarrow>
   \<exists>acc'. digest_rects rs used acc = Inr acc' \<and> consumed (bs @ rect_stream rs) acc'"
proof (induction rs arbitrary: bs acc used)
  case Nil
  then show ?case by (simp add: rect_stream_def)
next
  case (Cons r rs)
  let ?e = "raw_rect_bytes r"
  let ?l = "put_u32 (of_nat (length ?e))"
  have len: "rects_length (r # rs) = length ?e + rects_length rs"
    by (simp add: rects_length_def)
  obtain a1 where a1: "update acc ?l = Inr a1" "consumed (bs @ ?l) a1"
    using update_ok [OF Cons.prems(1), of ?l] Cons.prems(2) len by auto
  obtain a2 where a2: "update a1 ?e = Inr a2" "consumed ((bs @ ?l) @ ?e) a2"
    using update_ok [OF a1(2), of ?e] Cons.prems(2) len by auto
  have "\<exists>acc'. digest_rects rs (used + length ?e) a2 = Inr acc' \<and>
      consumed (((bs @ ?l) @ ?e) @ rect_stream rs) acc'"
    using Cons.prems len by (intro Cons.IH [OF a2(2)]) auto
  moreover have "encode_visual_raw_rect r = Inr ?e"
    using Cons.prems(3) by (simp add: encode_raw_rect_eq)
  ultimately show ?case
    using Cons.prems(4) a1(1) a2(1) len by (auto simp: rect_stream_def)
qed

lemma digest_rects_only:
  "digest_rects rs used acc = Inr acc' \<Longrightarrow> used \<le> maximum_raw_rect_protocol_bytes \<Longrightarrow>
     list_all raw_rect_ok rs \<and> used + rects_length rs \<le> maximum_raw_rect_protocol_bytes"
proof (induction rs arbitrary: used acc)
  case Nil
  then show ?case by (simp add: rects_length_def)
next
  case (Cons r rs)
  then obtain a2 where "raw_rect_ok r"
      "\<not> length (raw_rect_bytes r) > maximum_raw_rect_protocol_bytes - used"
      "digest_rects rs (used + length (raw_rect_bytes r)) a2 = Inr acc'"
    by (auto simp: result_simps encode_raw_rect_eq)
  moreover from this have "used + length (raw_rect_bytes r) \<le> maximum_raw_rect_protocol_bytes"
    using Cons.prems(2) by linarith
  ultimately show ?case
    using Cons.IH [of "used + length (raw_rect_bytes r)" a2] by (simp add: rects_length_def add.assoc)
qed

lemma advance_digest_eq:
  assumes "length base = 32"
  shows "advance_canonical_rect_digest base target rs = Inr d \<longleftrightarrow>
    (target \<noteq> 0 \<and> rs \<noteq> [] \<and> length rs \<le> maximum_raw_rect_transaction_count \<and>
     list_all raw_rect_ok rs \<and> rects_length rs \<le> maximum_raw_rect_protocol_bytes) \<and>
    d = sha256_reference (as_bytes ''RWN-CANONICAL-RECT-V1'' @ base @ put_u64 target @ rect_stream rs)"
    (is "_ \<longleftrightarrow> ?ok \<and> d = ?ref")
proof -
  let ?dom = "as_bytes ''RWN-CANONICAL-RECT-V1''"
  obtain a1 where a1: "update new_accumulator ?dom = Inr a1" "consumed ?dom a1"
    using update_ok [OF consumed_new, of ?dom] by auto
  obtain a2 where a2: "update a1 base = Inr a2" "consumed (?dom @ base) a2"
    using update_ok [OF a1(2), of base] assms by auto
  obtain a3 where a3: "update a2 (put_u64 target) = Inr a3" "consumed ((?dom @ base) @ put_u64 target) a3"
    using update_ok [OF a2(2), of "put_u64 target"] assms by auto
  have pass: "\<exists>a4 a5. digest_rects rs 0 a3 = Inr a4 \<and> finish a4 = Inr (?ref, a5)" if ok: ?ok
  proof -
    obtain a4 where "digest_rects rs 0 a3 = Inr a4" "consumed (((?dom @ base) @ put_u64 target) @ rect_stream rs) a4"
      using digest_rects_ok [OF a3(2), of rs 0] ok assms by auto
    then show ?thesis
      using finish_ok by fastforce
  qed
  have only: ?ok if "advance_canonical_rect_digest base target rs = Inr d"
    using that digest_rects_only [of rs 0]
    by (auto simp: advance_canonical_rect_digest_def a1(1) a2(1) a3(1) result_simps not_less)
  show ?thesis
  proof
    assume adv: "advance_canonical_rect_digest base target rs = Inr d"
    with only pass show "?ok \<and> d = ?ref"
      by (auto simp: advance_canonical_rect_digest_def a1(1) a2(1) a3(1) result_simps)
  next
    assume r: "?ok \<and> d = ?ref"
    with pass show "advance_canonical_rect_digest base target rs = Inr d"
      by (auto simp: advance_canonical_rect_digest_def a1(1) a2(1) a3(1) result_simps)
  qed
qed

section \<open>Sequences of visual messages\<close>

text \<open>The headers that the tracker lets through.\<close>

fun tracker_accepts :: "visual_message_header list \<Rightarrow> visual_sequence_tracker \<Rightarrow> visual_message_header list" where
  "tracker_accepts [] tr = []"
| "tracker_accepts (h # hs) tr = (case tracker_receive h tr of
     (seq_gap, tr') \<Rightarrow> tracker_accepts hs tr'
   | (_, tr') \<Rightarrow> h # tracker_accepts hs tr')"

lemma tracker_accepts_count:
  "g \<noteq> 0 \<Longrightarrow> \<forall>h\<in>set hs. vh_session_generation h = g \<Longrightarrow>
   tr = \<lparr>vt_generation = g, vt_last_sequence = of_nat n\<rparr> \<Longrightarrow>
   map vh_visual_sequence (tracker_accepts hs tr) =
     map of_nat [Suc n..<Suc (n + length (tracker_accepts hs tr))]"
proof (induction hs arbitrary: n tr)
  case Nil
  then show ?case by simp
next
  case (Cons h hs)
  show ?case
  proof (cases "vh_visual_sequence h = of_nat n + 1")
    case True
    then have "tracker_receive h tr = (seq_accepted, \<lparr>vt_generation = g, vt_last_sequence = of_nat (Suc n)\<rparr>)"
      using Cons.prems by (simp add: tracker_receive_def add.commute)
    then show ?thesis
      using Cons.IH [of "\<lparr>vt_generation = g, vt_last_sequence = of_nat (Suc n)\<rparr>" "Suc n"] Cons.prems True
      by (simp add: upt_conv_Cons add.commute del: upt_Suc)
  next
    case False
    then have "tracker_receive h tr = (seq_gap, tr)"
      using Cons.prems by (simp add: tracker_receive_def)
    then show ?thesis
      using Cons.IH [of tr n] Cons.prems by simp
  qed
qed

lemma tracker_accepts_new:
  assumes "g \<noteq> 0" "\<forall>h\<in>set hs. vh_session_generation h = g" "vt_generation tr \<noteq> g"
  shows "map vh_visual_sequence (tracker_accepts hs tr) =
     map of_nat [1..<Suc (length (tracker_accepts hs tr))]"
proof (cases hs)
  case (Cons h hs')
  let ?tr = "\<lambda>n. \<lparr>vt_generation = g, vt_last_sequence = n\<rparr>"
  have g: "vh_session_generation h = g" "\<forall>h\<in>set hs'. vh_session_generation h = g"
    using assms(2) Cons by auto
  show ?thesis
  proof (cases "vh_visual_sequence h = 1")
    case True
    then have "tracker_receive h tr = (seq_new_generation, ?tr (of_nat 1))"
      using g assms by (simp add: tracker_receive_def Let_def)
    then show ?thesis
      using tracker_accepts_count [OF assms(1) g(2) refl, of 1] True Cons
      by (simp add: upt_conv_Cons del: upt_Suc)
  next
    case False
    then have "tracker_receive h tr = (seq_gap, ?tr (of_nat 0))"
      using g assms by (simp add: tracker_receive_def Let_def)
    then show ?thesis
      using tracker_accepts_count [OF assms(1) g(2) refl, of 0] Cons by simp
  qed
qed simp

section \<open>Properties\<close>

text \<open>C37. The payload decoders accept exactly the encodings of their messages: an encoded message decodes
  to itself, and an accepted payload is the one canonical encoding of what it decodes to, so a field
  out of bounds, a wrong length prefix or a trailing byte is refused.\<close>

theorem visual_payload_codecs:
  "(decode_visual_full_snapshot_chunk bs = Inr c) = (encode_visual_full_snapshot_chunk c = Inr bs) \<and>
   (decode_visual_raw_rect bs = Inr r) = (encode_visual_raw_rect r = Inr bs) \<and>
   (decode_visual_frame_commit bs = Inr fc) = (encode_visual_frame_commit fc = Inr bs) \<and>
   (decode_visual_state_reset bs = Inr sr) = (encode_visual_state_reset sr = Inr bs) \<and>
   (decode_frame_commit_ack bs = Inr ack) =
     (length (ack_canonical_sha256 ack) = 32 \<and> encode_frame_commit_ack ack = Inr bs) \<and>
   (decode_visual_h264_access_unit bs = Inr u) = (encode_visual_h264_access_unit u = Inr bs) \<and>
   (decode_visual_cursor_position bs = Inr cp) = (encode_visual_cursor_position cp = Inr bs) \<and>
   (decode_visual_cursor_shape bs = Inr cs) = (encode_visual_cursor_shape cs = Inr bs)"
  using snapshot_chunk.decode_iff raw_rect_msg.decode_iff frame_commit.decode_iff state_reset.decode_iff
    commit_ack.decode_iff h264_unit.decode_iff cursor_position_msg.decode_iff cursor_shape_msg.decode_iff
  by simp

text \<open>A raw rectangle that the decoder accepts lies within its surface, is tightly packed, and has
  exactly the pixels its size says, although the code computes the size in 64 bits where it could
  wrap around.\<close>

theorem raw_rect_decoded_in_bounds:
  assumes "decode_visual_raw_rect bs = Inr r"
  shows "unat (rr_x r) + unat (rr_width r) \<le> unat (rr_surface_width r) \<and>
    unat (rr_y r) + unat (rr_height r) \<le> unat (rr_surface_height r) \<and>
    unat (rr_surface_width r) \<le> 7680 \<and> unat (rr_surface_height r) \<le> 4320 \<and>
    unat (rr_row_stride r) = 4 * unat (rr_width r) \<and>
    length (rr_bgra r) = unat (rr_row_stride r) * unat (rr_height r) \<and> 0 < length (rr_bgra r) \<and>
    length bs = 40 + length (rr_bgra r)"
proof -
  have ok: "raw_rect_ok r" and bs: "bs = raw_rect_bytes r"
    using assms by (simp_all add: raw_rect_codec encode_raw_rect_eq)
  have "unat (rr_surface_width r) \<le> 7680 \<and> unat (rr_surface_height r) \<le> 4320"
    using ok by (auto simp: raw_rect_ok_def validate_dimensions_def result_simps not_less word_le_nat_alt)
  moreover have "0 < length (rr_bgra r)"
    using raw_rect_ok_length(1) [OF ok] by linarith
  moreover have "length bs = 40 + length (rr_bgra r)"
    by (simp add: bs length_raw_rect_bytes)
  ultimately show ?thesis
    using ok by (simp add: raw_rect_ok_def)
qed

definition sample_rect :: visual_raw_rect where
  "sample_rect = \<lparr>rr_base_frame_id = 1, rr_surface_width = 2, rr_surface_height = 2, rr_x = 1, rr_y = 1,
     rr_width = 1, rr_height = 1, rr_row_stride = 4, rr_pixel_format = bgra8_premultiplied_srgb,
     rr_bgra = [1, 2, 3, 4]\<rparr>"

lemma sample_rect_ok: "raw_rect_ok sample_rect"
  by (simp add: raw_rect_ok_def sample_rect_def validate_dimensions_def)

theorem raw_rect_decoded_in_bounds_witness:
  "decode_visual_raw_rect (raw_rect_bytes sample_rect) = Inr sample_rect \<and>
   length (raw_rect_bytes sample_rect) = 40 + length (rr_bgra sample_rect)"
proof -
  have "decode_visual_raw_rect (raw_rect_bytes sample_rect) = Inr sample_rect"
    by (simp add: raw_rect_codec encode_raw_rect_eq sample_rect_ok)
  with raw_rect_decoded_in_bounds [OF this] show ?thesis by simp
qed

text \<open>The check of a payload against its header passes exactly when the header is valid, the sizes
  agree and the payload is the encoding of a message of the header's type; an LZ4 rectangle never
  passes.\<close>

theorem visual_payload_validation:
  "(validate_visual_message_payload h payload = Inr ()) =
   (validate_visual_header h = Inr () \<and> length payload = unat (vh_payload_size h) \<and>
    (vh_type h = h264_access_unit \<and> (\<exists>m. encode_visual_h264_access_unit m = Inr payload) \<or>
     vh_type h = full_snapshot \<and> (\<exists>m. encode_visual_full_snapshot_chunk m = Inr payload) \<or>
     vh_type h = raw_rect \<and> (\<exists>m. encode_visual_raw_rect m = Inr payload) \<or>
     vh_type h = copy_rect \<and> length payload = 24 \<or>
     vh_type h = cursor_position \<and> (\<exists>m. encode_visual_cursor_position m = Inr payload) \<or>
     vh_type h = cursor_shape \<and> (\<exists>m. encode_visual_cursor_shape m = Inr payload) \<or>
     vh_type h = frame_commit \<and> (\<exists>m. encode_visual_frame_commit m = Inr payload) \<or>
     vh_type h = state_reset \<and> (\<exists>m. encode_visual_state_reset m = Inr payload)))"
proof -
  have shape: "20 \<le> length payload \<and> length payload \<le> 20 + 256 * 256 * 4"
    if "decode_visual_cursor_shape payload = Inr m" for m
    using that by (auto simp: decode_visual_cursor_shape_def split: if_splits)
  show ?thesis
    unfolding validate_visual_message_payload_def
    by (auto simp: result_simps checks_def snapshot_chunk_codec raw_rect_codec frame_commit_codec
        state_reset_codec h264_codec cursor_position_codec cursor_shape_codec enum_values
        dest: shape [unfolded cursor_shape_codec])
qed

text \<open>The digest over the rectangles of a transaction is the SHA-256 of the domain, the base digest,
  the target frame and the length-prefixed encodings, for exactly the transactions of at most 256
  valid rectangles whose encodings fit the protocol limit together.\<close>

theorem canonical_rect_digest_exact:
  assumes "length base = 32"
  shows "(advance_canonical_rect_digest base target rs = Inr d) =
    (target \<noteq> 0 \<and> rs \<noteq> [] \<and> length rs \<le> maximum_raw_rect_transaction_count \<and>
     (\<forall>r\<in>set rs. \<exists>bs. encode_visual_raw_rect r = Inr bs) \<and>
     rects_length rs \<le> maximum_raw_rect_protocol_bytes \<and>
     d = sha256_reference (as_bytes ''RWN-CANONICAL-RECT-V1'' @ base @ put_u64 target @ rect_stream rs))"
  using advance_digest_eq [OF assms, of target rs d]
  by (auto simp: encode_raw_rect_eq list_all_iff)

theorem canonical_rect_digest_exact_witness:
  "advance_canonical_rect_digest (replicate 32 0) 2 [sample_rect] =
     Inr (sha256_reference (as_bytes ''RWN-CANONICAL-RECT-V1'' @ replicate 32 0 @ put_u64 2 @
       rect_stream [sample_rect]))"
  using canonical_rect_digest_exact [of "replicate 32 0" 2 "[sample_rect]"] sample_rect_ok
  by (simp add: encode_raw_rect_eq rects_length_def length_raw_rect_bytes) (simp add: sample_rect_def)

text \<open>The limits do not agree: a rectangle with all the pixels the codec allows, such as one that fills
  a 1920 by 1080 surface, is encoded and sent, but no digest can be computed over it, because the
  digest counts the 40 header bytes against the pixel limit.\<close>

theorem full_surface_rect_has_no_digest:
  assumes "length base = 32" and "encode_visual_raw_rect r = Inr bs"
    and "length (rr_bgra r) > maximum_raw_rect_protocol_bytes - 40"
  shows "\<not> succeeds (advance_canonical_rect_digest base target (r # rs))"
  using advance_digest_eq [OF assms(1), of target "r # rs"] assms(3)
  by (auto simp: succeeds_iff rects_length_def length_raw_rect_bytes)

theorem full_surface_rect_has_no_digest_witness:
  "\<exists>r bs. rr_width r = 1920 \<and> rr_height r = 1080 \<and> encode_visual_raw_rect r = Inr bs \<and>
     \<not> succeeds (advance_canonical_rect_digest (replicate 32 0) 2 [r])"
proof -
  let ?r = "\<lparr>rr_base_frame_id = 1, rr_surface_width = 1920, rr_surface_height = 1080, rr_x = 0, rr_y = 0,
     rr_width = 1920, rr_height = 1080, rr_row_stride = 7680,
     rr_pixel_format = bgra8_premultiplied_srgb, rr_bgra = replicate 8294400 0\<rparr>"
  have "raw_rect_ok ?r"
    by (simp add: raw_rect_ok_def validate_dimensions_def)
  then have enc: "encode_visual_raw_rect ?r = Inr (raw_rect_bytes ?r)"
    by (simp add: encode_raw_rect_eq)
  have "\<not> succeeds (advance_canonical_rect_digest (replicate 32 0) 2 [?r])"
    by (rule full_surface_rect_has_no_digest [OF _ enc]) simp_all
  with enc show ?thesis
    by (intro exI [of _ ?r] exI [of _ "raw_rect_bytes ?r"]) simp
qed

text \<open>Of the messages of one session generation, the tracker lets through exactly a run of sequence
  numbers 1, 2, 3, ... without a gap, a repetition or a reordering.\<close>

theorem tracker_accepts_consecutive:
  assumes "g \<noteq> 0" "\<forall>h\<in>set hs. vh_session_generation h = g" "vt_generation tr \<noteq> g"
  shows "map vh_visual_sequence (tracker_accepts hs tr) =
    map of_nat [1..<Suc (length (tracker_accepts hs tr))]"
  using assms by (rule tracker_accepts_new)

definition sample_header :: "u64 \<Rightarrow> visual_message_header" where
  "sample_header n = \<lparr>vh_type = frame_commit, vh_flags = 0, vh_payload_size = 8,
     vh_session_generation = 7, vh_representation_epoch = 1, vh_visual_sequence = n,
     vh_frame_id = 1, vh_captured_at_us = 1\<rparr>"

theorem tracker_accepts_consecutive_witness:
  "map vh_visual_sequence (tracker_accepts (map sample_header [1, 3, 2, 2, 3]) new_sequence_tracker) = [1, 2, 3]"
proof -
  have "length (tracker_accepts (map sample_header [1, 3, 2, 2, 3]) new_sequence_tracker) = 3"
    by (simp add: tracker_receive_def sample_header_def new_sequence_tracker_def)
  then show ?thesis
    using tracker_accepts_consecutive [of 7 "map sample_header [1, 3, 2, 2, 3]" new_sequence_tracker]
    by (simp add: sample_header_def new_sequence_tracker_def upt_rec)
qed

end
