(* ===== verification/Video_Fragments.thy ===== *)
theory Video_Fragments
  imports Visual_Headers
begin

text \<open>
  \<open>desktop/src/desktop.cpp\<close>: cutting an encoded video frame into datagrams, the datagram format, the
  reassembler that puts the fragments of the newest frame together whatever order they arrive in,
  the queue that keeps only the newest frame, and the request for a keyframe.
\<close>

abbreviation maximum_video_payload :: nat where
  "maximum_video_payload \<equiv> 1158"

type_synonym video_codec = u8

definition codec_h264 :: video_codec where [enum_values]: "codec_h264 = 1"

record video_frame =
  vf_frame_id :: u64
  vf_representation_epoch :: u64
  vf_captured_at_us :: u64
  vf_width :: u32
  vf_height :: u32
  vf_codec :: video_codec
  vf_keyframe :: bool
  vf_encoded :: "byte list"

record video_fragment =
  fg_frame_id :: u64
  fg_captured_at_us :: u64
  fg_width :: u32
  fg_height :: u32
  fg_codec :: video_codec
  fg_keyframe :: bool
  fg_fragment_index :: u16
  fg_fragment_count :: u16
  fg_total_size :: u32
  fg_payload :: "byte list"

definition maximum_fragment_count :: nat where
  "maximum_fragment_count = (maximum_encoded_frame_size + maximum_video_payload - 1) div maximum_video_payload"

definition validate_fragment :: "video_fragment \<Rightarrow> unit result" where
  "validate_fragment g =
     and_then (validate_dimensions (fg_width g) (fg_height g)) (\<lambda>_.
     if fg_frame_id g = 0 \<or> fg_captured_at_us g = 0 \<or> fg_codec g \<noteq> codec_h264 \<or>
        fg_fragment_count g = 0 \<or> fg_fragment_index g \<ge> fg_fragment_count g \<or>
        fg_total_size g = 0 \<or> unat (fg_total_size g) > maximum_encoded_frame_size \<or>
        fg_payload g = [] \<or> length (fg_payload g) > maximum_video_payload
     then throw (Invalid_argument ''invalid video fragment'')
     else throw_if (unat (fg_fragment_count g) > maximum_fragment_count \<or>
         length (fg_payload g) > unat (fg_total_size g))
       (Invalid_argument ''video fragment allocation exceeds bounds''))"

text \<open>The fragment that the loop of \<open>fragment_frame\<close> pushes for an index.\<close>

definition frame_fragment :: "video_frame \<Rightarrow> nat \<Rightarrow> nat \<Rightarrow> video_fragment" where
  "frame_fragment f count index =
     (let offset = index * maximum_video_payload;
          sz = min maximum_video_payload (length (vf_encoded f) - offset)
      in \<lparr>fg_frame_id = vf_frame_id f, fg_captured_at_us = vf_captured_at_us f,
          fg_width = vf_width f, fg_height = vf_height f, fg_codec = vf_codec f,
          fg_keyframe = vf_keyframe f, fg_fragment_index = of_nat index,
          fg_fragment_count = of_nat count, fg_total_size = of_nat (length (vf_encoded f)),
          fg_payload = take sz (drop offset (vf_encoded f))\<rparr>)"

definition fragment_frame :: "video_frame \<Rightarrow> video_fragment list result" where
  "fragment_frame f =
     and_then (validate_dimensions (vf_width f) (vf_height f)) (\<lambda>_.
     if vf_frame_id f = 0 \<or> vf_captured_at_us f = 0 \<or> vf_codec f \<noteq> codec_h264 \<or>
        vf_encoded f = [] \<or> length (vf_encoded f) > maximum_encoded_frame_size
     then throw (Invalid_argument ''invalid encoded video frame'')
     else
       let count = (length (vf_encoded f) + maximum_video_payload - 1) div maximum_video_payload
       in if count > 65535 then throw (Length_error ''encoded frame has too many fragments'')
          else if length (vf_encoded f) > 0xffffffff
          then throw (Length_error ''desktop message field exceeds wire limit'')
          else ok (map (frame_fragment f count) [0..<count]))"

definition encode_video_fragment :: "video_fragment \<Rightarrow> byte list result" where
  "encode_video_fragment g = and_then (validate_fragment g) (\<lambda>_.
     let encoded = video_magic @ put_u16 1 @ put_u8 (fg_codec g) @
           put_u8 (if fg_keyframe g then 1 else 0) @ put_u64 (fg_frame_id g) @
           put_u64 (fg_captured_at_us g) @ put_u32 (fg_width g) @ put_u32 (fg_height g) @
           put_u16 (fg_fragment_index g) @ put_u16 (fg_fragment_count g) @ put_u32 (fg_total_size g) @
           put_u16 (of_nat (length (fg_payload g))) @ fg_payload g
     in if length encoded > maximum_media_datagram_size
        then throw (Length_error ''video fragment exceeds datagram budget'') else ok encoded)"

definition decode_video_fragment :: "byte list \<Rightarrow> video_fragment result" where
  "decode_video_fragment bs =
     (if length bs > maximum_media_datagram_size
      then throw (Length_error ''video datagram exceeds limit'')
      else rseq (require_magic video_magic) (\<lambda>_.
        rseq rd_u16 (\<lambda>version.
        rthrow_if (version \<noteq> 1) (Invalid_argument ''unsupported media protocol version'') (
        rseq rd_u8 (\<lambda>codec. rseq rd_u8 (\<lambda>flags.
        rthrow_if (flags AND 0xfe \<noteq> 0) (Invalid_argument ''unknown video fragment flags'') (
        rseq rd_u64 (\<lambda>frame_id. rseq rd_u64 (\<lambda>captured. rseq rd_u32 (\<lambda>width. rseq rd_u32 (\<lambda>height.
        rseq rd_u16 (\<lambda>index. rseq rd_u16 (\<lambda>count. rseq rd_u32 (\<lambda>total_size.
        rseq rd_u16 (\<lambda>payload_size. rseq (rd_span (unat payload_size)) (\<lambda>payload.
          rend (Invalid_argument ''trailing bytes in video datagram'')
            (let g = \<lparr>fg_frame_id = frame_id, fg_captured_at_us = captured, fg_width = width,
                   fg_height = height, fg_codec = codec, fg_keyframe = (flags AND 1 \<noteq> 0),
                   fg_fragment_index = index, fg_fragment_count = count,
                   fg_total_size = total_size, fg_payload = payload\<rparr>
             in and_then (validate_fragment g) (\<lambda>_. ok g)))))))))))))))))
        (new_reader bs))"

section \<open>Reassembly\<close>

record frame_reassembler =
  fa_current :: "video_fragment option"
  fa_fragments :: "byte list option list"
  fa_received_bytes :: nat
  fa_received_count :: u16
  fa_keyframe_required :: bool
  fa_dropped_frames :: u64
  fa_last_completed_frame_id :: u64

definition new_reassembler :: frame_reassembler where
  "new_reassembler = \<lparr>fa_current = None, fa_fragments = [], fa_received_bytes = 0,
     fa_received_count = 0, fa_keyframe_required = True, fa_dropped_frames = 0,
     fa_last_completed_frame_id = 0\<rparr>"

definition reassembler_begin :: "video_fragment \<Rightarrow> (frame_reassembler, unit) call" where
  "reassembler_begin g r = (case validate_fragment g of
     Inl e \<Rightarrow> (Inl e, r)
   | Inr _ \<Rightarrow> (Inr (), r\<lparr>fa_fragments := replicate (unat (fg_fragment_count g)) None,
       fa_received_bytes := 0, fa_received_count := 0, fa_current := Some g\<rparr>))"

definition abandon_incomplete :: "frame_reassembler \<Rightarrow> frame_reassembler" where
  "abandon_incomplete r =
     (let r' = (case fa_current r of
            Some c \<Rightarrow> if fa_received_count r \<noteq> fg_fragment_count c
              then r\<lparr>fa_dropped_frames := fa_dropped_frames r + 1\<rparr> else r
          | None \<Rightarrow> r)
      in r'\<lparr>fa_current := None, fa_fragments := [], fa_received_bytes := 0, fa_received_count := 0\<rparr>)"

definition fragments_consistent :: "video_fragment \<Rightarrow> video_fragment \<Rightarrow> bool" where
  "fragments_consistent g c \<longleftrightarrow> \<not> (fg_frame_id g \<noteq> fg_frame_id c \<or>
     fg_captured_at_us g \<noteq> fg_captured_at_us c \<or> fg_width g \<noteq> fg_width c \<or>
     fg_height g \<noteq> fg_height c \<or> fg_codec g \<noteq> fg_codec c \<or> fg_keyframe g \<noteq> fg_keyframe c \<or>
     fg_fragment_count g \<noteq> fg_fragment_count c \<or> fg_total_size g \<noteq> fg_total_size c)"

text \<open>The end of \<open>receive\<close>: nothing yet, a size mismatch, or the finished frame.\<close>

definition reassembler_finish :: "video_fragment \<Rightarrow> (frame_reassembler, video_frame option) call" where
  "reassembler_finish c r =
     (if fa_received_count r \<noteq> fg_fragment_count c then (Inr None, r)
      else if fa_received_bytes r \<noteq> unat (fg_total_size c)
      then (Inl (Invalid_argument ''video fragments do not match declared frame size''),
            (abandon_incomplete r)\<lparr>fa_keyframe_required := True\<rparr>)
      else
        let frame = \<lparr>vf_frame_id = fg_frame_id c, vf_representation_epoch = 1,
              vf_captured_at_us = fg_captured_at_us c, vf_width = fg_width c,
              vf_height = fg_height c, vf_codec = fg_codec c, vf_keyframe = fg_keyframe c,
              vf_encoded = concat (map the (fa_fragments r))\<rparr>
        in (Inr (Some frame),
            r\<lparr>fa_keyframe_required := (if vf_keyframe frame then False else fa_keyframe_required r),
              fa_last_completed_frame_id := vf_frame_id frame, fa_current := None,
              fa_fragments := [], fa_received_bytes := 0, fa_received_count := 0\<rparr>))"

text \<open>The middle of \<open>receive\<close>: the fragment against the current frame \<open>c\<close>.\<close>

definition reassembler_store ::
  "video_fragment \<Rightarrow> video_fragment \<Rightarrow> (frame_reassembler, video_frame option) call" where
  "reassembler_store g c r =
     (if \<not> fragments_consistent g c
      then (Inl (Invalid_argument ''inconsistent video frame fragments''), r)
      else if unat (fg_fragment_index g) \<ge> length (fa_fragments r)
      then (Inl (Out_of_range ''vector''), r)
      else if fa_fragments r ! unat (fg_fragment_index g) = None then
        let received = fa_received_bytes r + length (fg_payload g);
            r' = r\<lparr>fa_received_bytes := received\<rparr>
        in if received > unat (fg_total_size c)
           then (Inl (Invalid_argument ''video fragments exceed declared frame size''),
                 (abandon_incomplete r')\<lparr>fa_keyframe_required := True\<rparr>)
           else reassembler_finish c (r'\<lparr>
                  fa_fragments := (fa_fragments r)[unat (fg_fragment_index g) := Some (fg_payload g)],
                  fa_received_count := fa_received_count r + 1\<rparr>)
      else reassembler_finish c r)"

definition reassembler_receive :: "video_fragment \<Rightarrow> (frame_reassembler, video_frame option) call" where
  "reassembler_receive g r = (case validate_fragment g of
     Inl e \<Rightarrow> (Inl e, r)
   | Inr _ \<Rightarrow>
     if fg_frame_id g \<le> fa_last_completed_frame_id r then (Inr None, r)
     else (case fa_current r of
       Some c \<Rightarrow>
         if fg_frame_id g < fg_frame_id c then (Inr None, r)
         else if fg_frame_id g > fg_frame_id c then
           let r' = (abandon_incomplete r)\<lparr>fa_keyframe_required := True\<rparr>
           in if \<not> fg_keyframe g then
                (Inr None, if fg_fragment_index g = 0
                   then r'\<lparr>fa_dropped_frames := fa_dropped_frames r' + 1\<rparr> else r')
              else c_bind (reassembler_begin g) (\<lambda>_. reassembler_store g g) r'
         else reassembler_store g c r
     | None \<Rightarrow>
         if fa_keyframe_required r \<and> \<not> fg_keyframe g then
           (Inr None, if fg_fragment_index g = 0
              then r\<lparr>fa_dropped_frames := fa_dropped_frames r + 1\<rparr> else r)
         else c_bind (reassembler_begin g) (\<lambda>_. reassembler_store g g) r))"

definition reassembler_notify_loss :: "frame_reassembler \<Rightarrow> frame_reassembler" where
  "reassembler_notify_loss r = (abandon_incomplete r)\<lparr>fa_keyframe_required := True\<rparr>"

section \<open>The latest frame\<close>

record latest_frame_queue =
  lq_pending :: "video_frame option"
  lq_dropped_frames :: u64

definition queue_push :: "video_frame \<Rightarrow> latest_frame_queue \<Rightarrow> latest_frame_queue" where
  "queue_push frame q = (case lq_pending q of
     Some p \<Rightarrow> if vf_frame_id frame \<le> vf_frame_id p
       then q\<lparr>lq_dropped_frames := lq_dropped_frames q + 1\<rparr>
       else q\<lparr>lq_dropped_frames := lq_dropped_frames q + 1, lq_pending := Some frame\<rparr>
   | None \<Rightarrow> q\<lparr>lq_pending := Some frame\<rparr>)"

definition queue_take :: "latest_frame_queue \<Rightarrow> video_frame option \<times> latest_frame_queue" where
  "queue_take q = (lq_pending q, q\<lparr>lq_pending := None\<rparr>)"

section \<open>Keyframe requests\<close>

record keyframe_request =
  kr_after_frame_id :: u64
  kr_reason_code :: string

definition encode_keyframe_request :: "keyframe_request \<Rightarrow> byte list result" where
  "encode_keyframe_request q =
     (if kr_after_frame_id q = 0 \<or> kr_reason_code q = [] \<or> length (kr_reason_code q) > 64 \<or>
         \<not> list_all (\<lambda>c. (97 \<le> (of_char c :: nat) \<and> (of_char c :: nat) \<le> 122) \<or> c = CHR ''_'') (kr_reason_code q)
      then throw (Invalid_argument ''invalid keyframe request'')
      else ok (keyframe_magic @ put_u8 1 @ put_u8 0 @ put_u64 (kr_after_frame_id q) @
             put_u16 (of_nat (length (kr_reason_code q))) @ as_bytes (kr_reason_code q)))"

definition decode_keyframe_request :: "byte list \<Rightarrow> keyframe_request result" where
  "decode_keyframe_request bs =
     rseq (require_magic keyframe_magic) (\<lambda>_.
     rseq rd_u8 (\<lambda>version. rthrow_if (version \<noteq> 1) (Invalid_argument ''unsupported keyframe request version'') (
     rseq rd_u8 (\<lambda>zero. rthrow_if (zero \<noteq> 0) (Invalid_argument ''unsupported keyframe request version'') (
     rseq rd_u64 (\<lambda>after. rseq rd_u16 (\<lambda>reason_size.
     rthrow_if (reason_size = 0 \<or> reason_size > 64) (Length_error ''keyframe request reason exceeds limit'') (
     rseq (rd_span (unat reason_size)) (\<lambda>reason.
       rend (Invalid_argument ''trailing bytes in keyframe request'')
         (let q = \<lparr>kr_after_frame_id = after, kr_reason_code = string_of_bytes reason\<rparr>
          in and_then (encode_keyframe_request q) (\<lambda>_. ok q)))))))))))
     (new_reader bs)"

section \<open>Lemmas on the datagram format\<close>

lemma length_u16_prefix_iff: "length xs = unat (n :: u16) \<longleftrightarrow> length xs < 2 ^ 16 \<and> n = of_nat (length xs)"
  using unsigned_less [of n, where 'a = nat] by (auto simp: unat_of_nat)

text \<open>The valid fragments, and the bytes of one.\<close>

definition fragment_ok :: "video_fragment \<Rightarrow> bool" where
  "fragment_ok g \<longleftrightarrow> validate_fragment g = Inr ()"

lemma fragment_ok_payload:
  "fragment_ok g \<Longrightarrow> fg_payload g \<noteq> [] \<and> length (fg_payload g) \<le> maximum_video_payload"
  by (auto simp: fragment_ok_def validate_fragment_def result_simps)

lemma encode_fragment_eq:
  "encode_video_fragment g = Inr bs \<longleftrightarrow> fragment_ok g \<and>
     bs = video_magic @ put_u16 1 @ put_u8 (fg_codec g) @
           put_u8 (if fg_keyframe g then 1 else 0) @ put_u64 (fg_frame_id g) @
           put_u64 (fg_captured_at_us g) @ put_u32 (fg_width g) @ put_u32 (fg_height g) @
           put_u16 (fg_fragment_index g) @ put_u16 (fg_fragment_count g) @ put_u32 (fg_total_size g) @
           put_u16 (of_nat (length (fg_payload g))) @ fg_payload g"
  using fragment_ok_payload [of g]
  by (auto simp: encode_video_fragment_def fragment_ok_def result_simps Let_def)

lemma fragment_codec:
  "decode_video_fragment bs = Inr g \<longleftrightarrow> encode_video_fragment g = Inr bs"
  using fragment_ok_payload [of g]
  by (cases g) (auto simp: decode_video_fragment_def encode_fragment_eq decode_simps result_simps Let_def
      length_u16_prefix_iff flag_u8 simp flip: fragment_ok_def)

interpretation video_fragment: message_codec "\<lambda>_. True" encode_video_fragment decode_video_fragment
  by unfold_locales (simp add: fragment_codec)

lemma small_u16:
  "n \<noteq> 0 \<Longrightarrow> n \<le> 64 \<Longrightarrow> (of_nat n :: u16) \<noteq> 0 \<and> (of_nat n :: u16) \<le> 64"
  by (simp add: word_le_nat_alt unat_of_nat word_unat_eq_iff)

lemma keyframe_request_codec:
  "decode_keyframe_request bs = Inr q \<longleftrightarrow> encode_keyframe_request q = Inr bs"
  by (cases q) (auto simp: decode_keyframe_request_def encode_keyframe_request_def decode_simps
      result_simps Let_def length_u16_prefix_iff string_of_bytes_eq_iff small_u16 not_less)

interpretation keyframe_request: message_codec "\<lambda>_. True" encode_keyframe_request decode_keyframe_request
  by unfold_locales (simp add: keyframe_request_codec)

section \<open>Cutting a frame\<close>

definition frame_ok :: "video_frame \<Rightarrow> bool" where
  "frame_ok f \<longleftrightarrow> validate_dimensions (vf_width f) (vf_height f) = Inr () \<and> vf_frame_id f \<noteq> 0 \<and>
     vf_captured_at_us f \<noteq> 0 \<and> vf_codec f = codec_h264 \<and> vf_encoded f \<noteq> [] \<and>
     length (vf_encoded f) \<le> maximum_encoded_frame_size"

definition fragment_total :: "video_frame \<Rightarrow> nat" where
  "fragment_total f = (length (vf_encoded f) + maximum_video_payload - 1) div maximum_video_payload"

lemma fragment_total_bounds:
  assumes "frame_ok f"
  shows "0 < fragment_total f" "fragment_total f \<le> maximum_fragment_count" "fragment_total f < 65536"
    "length (vf_encoded f) \<le> fragment_total f * maximum_video_payload"
proof -
  have len: "0 < length (vf_encoded f)" "length (vf_encoded f) \<le> maximum_encoded_frame_size"
    using assms by (simp_all add: frame_ok_def)
  show "0 < fragment_total f"
    using len by (simp add: fragment_total_def div_greater_zero_iff Suc_le_eq)
  show le: "fragment_total f \<le> maximum_fragment_count"
    unfolding fragment_total_def maximum_fragment_count_def using len by (intro div_le_mono) linarith
  then show "fragment_total f < 65536"
    by (simp add: maximum_fragment_count_def)
  show "length (vf_encoded f) \<le> fragment_total f * maximum_video_payload"
    unfolding fragment_total_def using len
      div_mult_mod_eq [of "length (vf_encoded f) + maximum_video_payload - 1" maximum_video_payload]
      mod_less_divisor [of maximum_video_payload "length (vf_encoded f) + maximum_video_payload - 1"]
    by linarith
qed

lemma fragment_offset:
  assumes "frame_ok f" "i < fragment_total f"
  shows "i * maximum_video_payload < length (vf_encoded f)"
proof -
  have "Suc i * maximum_video_payload \<le> fragment_total f * maximum_video_payload"
    using assms(2) by (intro mult_le_mono1) simp
  also have "\<dots> \<le> length (vf_encoded f) + maximum_video_payload - 1"
    unfolding fragment_total_def by (rule div_times_less_eq_dividend)
  finally show ?thesis
    by simp
qed

text \<open>The payload of the fragment with index \<open>i\<close>.\<close>

definition fragment_part :: "video_frame \<Rightarrow> nat \<Rightarrow> byte list" where
  "fragment_part f i = take maximum_video_payload (drop (i * maximum_video_payload) (vf_encoded f))"

lemma frame_fragment_payload: "fg_payload (frame_fragment f n i) = fragment_part f i"
  by (simp add: frame_fragment_def Let_def fragment_part_def min_def)

lemma fragment_part_length:
  assumes "frame_ok f" "i < fragment_total f"
  shows "0 < length (fragment_part f i)" "length (fragment_part f i) \<le> maximum_video_payload"
    "length (fragment_part f i) \<le> length (vf_encoded f)"
  using fragment_offset [OF assms] by (auto simp: fragment_part_def)

lemma concat_parts:
  "concat (map (\<lambda>i. take k (drop (i * k) xs)) [0..<n]) = take (n * k) xs"
proof (induction n)
  case (Suc n)
  then show ?case
    using take_add [of "n * k" k xs] by (simp add: add.commute)
qed simp

lemma concat_fragment_parts: "frame_ok f \<Longrightarrow> concat (map (fragment_part f) [0..<fragment_total f]) = vf_encoded f"
  using concat_parts [of maximum_video_payload "vf_encoded f" "fragment_total f"] fragment_total_bounds(4) [of f]
  by (simp add: fragment_part_def [abs_def])

lemma sum_parts_length:
  "frame_ok f \<Longrightarrow> (\<Sum>i<fragment_total f. length (fragment_part f i)) = length (vf_encoded f)"
  using arg_cong [OF concat_fragment_parts [of f], of length]
  by (simp add: length_concat comp_def sum_list_sum_nth atLeast0LessThan interv_sum_list_conv_sum_set_nat)

lemma frame_fragment_ok:
  assumes "frame_ok f" "i < fragment_total f"
  shows "validate_fragment (frame_fragment f (fragment_total f) i) = Inr ()"
proof -
  have "unat (of_nat i :: u16) = i" "unat (of_nat (fragment_total f) :: u16) = fragment_total f"
    "unat (of_nat (length (vf_encoded f)) :: u32) = length (vf_encoded f)"
    using assms fragment_total_bounds [OF assms(1)] by (auto simp: unat_of_nat frame_ok_def)
  then show ?thesis
    using assms fragment_total_bounds [OF assms(1)] fragment_part_length [OF assms]
    unfolding validate_fragment_def frame_fragment_payload
    by (simp add: frame_fragment_def Let_def frame_ok_def word_le_nat_alt word_unat_eq_iff)
qed

lemma fragment_frame_eq:
  "fragment_frame f = Inr gs \<longleftrightarrow>
     frame_ok f \<and> gs = map (frame_fragment f (fragment_total f)) [0..<fragment_total f]"
  using fragment_total_bounds(3) [of f]
  by (auto simp: fragment_frame_def frame_ok_def result_simps Let_def fragment_total_def not_less)


section \<open>Putting a frame together\<close>

text \<open>What a stream of fragments makes of a reassembler: the outcome of each call, and the frames.\<close>

fun receive_all :: "video_fragment list \<Rightarrow> frame_reassembler \<Rightarrow> video_frame option result list" where
  "receive_all [] r = []"
| "receive_all (g # gs) r = (case reassembler_receive g r of (res, r') \<Rightarrow> res # receive_all gs r')"

definition delivered :: "video_frame option result list \<Rightarrow> video_frame list" where
  "delivered rs = [f. Inr (Some f) \<leftarrow> rs]"

lemma delivered_simps [simp]:
  "delivered [] = []" "delivered (Inl e # rs) = delivered rs" "delivered (Inr None # rs) = delivered rs"
  "delivered (Inr (Some f) # rs) = f # delivered rs"
  by (simp_all add: delivered_def)

text \<open>The fragments of a frame with indices \<open>I\<close> have arrived.\<close>

definition same_frame :: "video_frame \<Rightarrow> video_fragment \<Rightarrow> bool" where
  "same_frame f c \<longleftrightarrow> fragments_consistent (frame_fragment f (fragment_total f) 0) c"

definition assembling :: "video_frame \<Rightarrow> nat set \<Rightarrow> video_fragment \<Rightarrow> frame_reassembler \<Rightarrow> bool" where
  "assembling f I c r \<longleftrightarrow> I \<subseteq> {..<fragment_total f} \<and> same_frame f c \<and> fa_current r = Some c \<and>
     fa_fragments r = map (\<lambda>i. if i \<in> I then Some (fragment_part f i) else None) [0..<fragment_total f] \<and>
     fa_received_bytes r = (\<Sum>i\<in>I. length (fragment_part f i)) \<and>
     fa_received_count r = of_nat (card I) \<and> fa_last_completed_frame_id r < vf_frame_id f"

text \<open>The frame as the reassembler returns it: the representation epoch does not travel.\<close>

abbreviation received_frame :: "video_frame \<Rightarrow> video_frame" where
  "received_frame f \<equiv> f\<lparr>vf_representation_epoch := 1\<rparr>"

abbreviation nth_fragment :: "video_frame \<Rightarrow> nat \<Rightarrow> video_fragment" where
  "nth_fragment f i \<equiv> frame_fragment f (fragment_total f) i"

lemma same_frame_fields:
  "same_frame f c \<longleftrightarrow> fg_frame_id c = vf_frame_id f \<and> fg_captured_at_us c = vf_captured_at_us f \<and>
     fg_width c = vf_width f \<and> fg_height c = vf_height f \<and> fg_codec c = vf_codec f \<and>
     fg_keyframe c = vf_keyframe f \<and> fg_fragment_count c = of_nat (fragment_total f) \<and>
     fg_total_size c = of_nat (length (vf_encoded f))"
  by (auto simp: same_frame_def fragments_consistent_def frame_fragment_def Let_def)

lemma same_frame_consistent: "same_frame f c \<Longrightarrow> fragments_consistent (nth_fragment f i) c"
  by (simp add: same_frame_def fragments_consistent_def frame_fragment_def Let_def)

lemma same_frame_nth: "same_frame f (nth_fragment f i)"
  by (simp add: same_frame_fields frame_fragment_def Let_def)

lemma nth_fragment_index:
  "frame_ok f \<Longrightarrow> i < fragment_total f \<Longrightarrow> unat (fg_fragment_index (nth_fragment f i)) = i"
  using fragment_total_bounds(3) [of f] by (simp add: frame_fragment_def Let_def unat_of_nat)

lemma card_indices:
  assumes "frame_ok f" "I \<subseteq> {..<fragment_total f}"
  shows "(of_nat (card I) :: u16) = of_nat (fragment_total f) \<longleftrightarrow> I = {..<fragment_total f}"
proof -
  have le: "card I \<le> fragment_total f"
    using card_mono [OF _ assms(2)] by simp
  have "(of_nat (card I) :: u16) = of_nat (fragment_total f) \<longleftrightarrow> card I = fragment_total f"
    using le fragment_total_bounds(3) [OF assms(1)] by (simp add: word_unat_eq_iff unat_of_nat)
  also have "\<dots> \<longleftrightarrow> I = {..<fragment_total f}"
    using card_subset_eq [OF _ assms(2)] by auto
  finally show ?thesis .
qed

lemma reassembler_finish_assembling:
  assumes ok: "frame_ok f" and asm: "assembling f I c r"
  shows "if I = {..<fragment_total f}
    then \<exists>r'. reassembler_finish c r = (Inr (Some (received_frame f)), r') \<and>
      fa_last_completed_frame_id r' = vf_frame_id f
    else reassembler_finish c r = (Inr None, r)"
proof (cases "I = {..<fragment_total f}")
  case True
  have c: "same_frame f c"
    using asm by (simp add: assembling_def)
  have total: "unat (fg_total_size c) = length (vf_encoded f)"
    using c ok by (simp add: same_frame_fields unat_of_nat frame_ok_def)
  have parts: "fa_fragments r = map (\<lambda>i. Some (fragment_part f i)) [0..<fragment_total f]"
    using asm True by (simp add: assembling_def)
  have "fa_received_bytes r = length (vf_encoded f)"
    using asm True sum_parts_length [OF ok] by (simp add: assembling_def)
  moreover have "fa_received_count r = fg_fragment_count c"
    using asm True c by (simp add: assembling_def same_frame_fields)
  moreover have "concat (map the (fa_fragments r)) = vf_encoded f"
    using concat_fragment_parts [OF ok] by (simp add: parts comp_def)
  ultimately show ?thesis
    using True c total by (cases f) (simp add: reassembler_finish_def Let_def same_frame_fields)
next
  case False
  then have "fa_received_count r \<noteq> fg_fragment_count c"
    using asm card_indices [OF ok, of I] by (simp add: assembling_def same_frame_fields)
  then show ?thesis
    using False by (simp add: reassembler_finish_def)
qed

lemma map_upt_update: "(map h [0..<n])[i := y] = map (\<lambda>j. if j = i then y else h j) [0..<n]"
  by (rule nth_equalityI) (auto simp: nth_list_update)

lemma reassembler_store_assembling:
  assumes ok: "frame_ok f" and asm: "assembling f I c r" and i: "i < fragment_total f"
    and missing: "I \<noteq> {..<fragment_total f}"
  shows "if insert i I = {..<fragment_total f}
    then \<exists>r'. reassembler_store (nth_fragment f i) c r = (Inr (Some (received_frame f)), r') \<and>
      fa_last_completed_frame_id r' = vf_frame_id f
    else \<exists>r'. reassembler_store (nth_fragment f i) c r = (Inr None, r') \<and> assembling f (insert i I) c r'"
proof -
  let ?g = "nth_fragment f i"
  have I: "I \<subseteq> {..<fragment_total f}" "finite I"
    using asm finite_subset [of I "{..<fragment_total f}"] by (auto simp: assembling_def)
  have idx: "unat (fg_fragment_index ?g) = i"
    by (rule nth_fragment_index [OF ok i])
  have cons: "fragments_consistent ?g c"
    using asm by (simp add: assembling_def same_frame_consistent)
  have nth: "length (fa_fragments r) = fragment_total f"
    "fa_fragments r ! i = (if i \<in> I then Some (fragment_part f i) else None)"
    using asm i by (simp_all add: assembling_def)
  show ?thesis
  proof (cases "i \<in> I")
    case True
    then have "reassembler_store ?g c r = reassembler_finish c r"
      using cons i nth by (simp add: reassembler_store_def idx)
    then show ?thesis
      using True reassembler_finish_assembling [OF ok asm] missing asm by (simp add: insert_absorb)
  next
    case False
    let ?r = "r\<lparr>fa_received_bytes := fa_received_bytes r + length (fragment_part f i),
      fa_fragments := (fa_fragments r)[i := Some (fragment_part f i)],
      fa_received_count := fa_received_count r + 1\<rparr>"
    have "(\<Sum>j\<in>insert i I. length (fragment_part f j)) \<le> (\<Sum>j<fragment_total f. length (fragment_part f j))"
      using I i by (intro sum_mono2) auto
    then have "fa_received_bytes r + length (fragment_part f i) \<le> unat (fg_total_size c)"
      using asm ok I False by (simp add: assembling_def same_frame_fields unat_of_nat frame_ok_def
          sum_parts_length [OF ok])
    then have store: "reassembler_store ?g c r = reassembler_finish c ?r"
      using cons i nth False by (simp add: reassembler_store_def idx frame_fragment_payload Let_def)
    have "(fa_fragments r)[i := Some (fragment_part f i)] =
        map (\<lambda>j. if j \<in> insert i I then Some (fragment_part f j) else None) [0..<fragment_total f]"
      using asm by (simp add: assembling_def map_upt_update cong: if_cong)
    then have asm': "assembling f (insert i I) c ?r"
      using asm i I False by (simp add: assembling_def card_insert_if add.commute)
    show ?thesis
      using reassembler_finish_assembling [OF ok asm'] asm' store by auto
  qed
qed


text \<open>A reassembler that will take the frame: nothing newer is complete or under way.\<close>

definition ready_for :: "video_frame \<Rightarrow> frame_reassembler \<Rightarrow> bool" where
  "ready_for f r \<longleftrightarrow> fa_last_completed_frame_id r < vf_frame_id f \<and>
     (case fa_current r of
        None \<Rightarrow> fa_keyframe_required r \<longrightarrow> vf_keyframe f
      | Some c \<Rightarrow> fg_frame_id c < vf_frame_id f \<and> vf_keyframe f)"

lemma nth_fragment_fields [simp]:
  "fg_frame_id (frame_fragment f n i) = vf_frame_id f" "fg_keyframe (frame_fragment f n i) = vf_keyframe f"
  "fg_fragment_count (frame_fragment f n i) = of_nat n"
  by (simp_all add: frame_fragment_def Let_def)

lemma reassembler_begin_assembling:
  assumes ok: "frame_ok f" and i: "i < fragment_total f" and last: "fa_last_completed_frame_id r < vf_frame_id f"
  shows "\<exists>r'. reassembler_begin (nth_fragment f i) r = (Inr (), r') \<and>
    assembling f {} (nth_fragment f i) r'"
proof -
  have "unat (of_nat (fragment_total f) :: u16) = fragment_total f"
    using fragment_total_bounds(3) [OF ok] by (simp add: unat_of_nat)
  moreover have "replicate n None = map (\<lambda>i. if i \<in> ({} :: nat set) then Some (h i) else None) [0..<n]"
    for n and h :: "nat \<Rightarrow> byte list"
    by (simp add: map_replicate_const)
  ultimately show ?thesis
    using last by (simp add: reassembler_begin_def frame_fragment_ok [OF ok i] assembling_def same_frame_nth)
qed

lemma receive_first:
  assumes ok: "frame_ok f" and i: "i < fragment_total f" and ready: "ready_for f r"
  shows "\<exists>r0. reassembler_receive (nth_fragment f i) r = reassembler_store (nth_fragment f i) (nth_fragment f i) r0 \<and>
    assembling f {} (nth_fragment f i) r0"
proof (cases "fa_current r")
  case None
  then show ?thesis
    using ready reassembler_begin_assembling [OF ok i, of r]
    by (auto simp: reassembler_receive_def ready_for_def frame_fragment_ok [OF ok i] c_bind_def not_le)
next
  case (Some c)
  let ?r = "(abandon_incomplete r)\<lparr>fa_keyframe_required := True\<rparr>"
  have "fa_last_completed_frame_id ?r = fa_last_completed_frame_id r"
    by (simp add: abandon_incomplete_def Let_def split: option.split)
  then show ?thesis
    using Some ready reassembler_begin_assembling [OF ok i, of ?r]
    by (auto simp: reassembler_receive_def ready_for_def frame_fragment_ok [OF ok i] c_bind_def not_le Let_def)
qed

lemma receive_next:
  assumes "frame_ok f" "i < fragment_total f" "assembling f I c r"
  shows "reassembler_receive (nth_fragment f i) r = reassembler_store (nth_fragment f i) c r"
  using assms by (auto simp: reassembler_receive_def frame_fragment_ok assembling_def same_frame_fields not_le)

lemma receive_late:
  assumes "frame_ok f" "i < fragment_total f" "fa_last_completed_frame_id r = vf_frame_id f"
  shows "reassembler_receive (nth_fragment f i) r = (Inr None, r)"
  using assms by (simp add: reassembler_receive_def frame_fragment_ok)

text \<open>What the outcomes must be: no exception, and the frame once when the last index has come.\<close>

definition outcomes_ok :: "video_frame \<Rightarrow> bool \<Rightarrow> video_frame option result list \<Rightarrow> bool" where
  "outcomes_ok f complete rs \<longleftrightarrow> list_all succeeds rs \<and>
     delivered rs = (if complete then [received_frame f] else [])"

lemma receive_all_late:
  "frame_ok f \<Longrightarrow> set js \<subseteq> {..<fragment_total f} \<Longrightarrow> fa_last_completed_frame_id r = vf_frame_id f \<Longrightarrow>
     outcomes_ok f False (receive_all (map (nth_fragment f) js) r)"
  by (induction js) (auto simp: outcomes_ok_def receive_late)

lemma receive_all_assembling:
  "frame_ok f \<Longrightarrow> set js \<subseteq> {..<fragment_total f} \<Longrightarrow> assembling f I c r \<Longrightarrow>
     I \<noteq> {..<fragment_total f} \<Longrightarrow>
     outcomes_ok f (I \<union> set js = {..<fragment_total f}) (receive_all (map (nth_fragment f) js) r)"
proof (induction js arbitrary: I r)
  case Nil
  then show ?case by (simp add: outcomes_ok_def)
next
  case (Cons j js)
  have j: "j < fragment_total f" and js: "set js \<subseteq> {..<fragment_total f}"
    using Cons.prems(2) by auto
  have I: "I \<subseteq> {..<fragment_total f}"
    using Cons.prems(3) by (simp add: assembling_def)
  note step = reassembler_store_assembling [OF Cons.prems(1,3) j Cons.prems(4)]
  note rcv = receive_next [OF Cons.prems(1) j Cons.prems(3)]
  show ?case
  proof (cases "insert j I = {..<fragment_total f}")
    case True
    then obtain r' where r': "reassembler_store (nth_fragment f j) c r = (Inr (Some (received_frame f)), r')"
        "fa_last_completed_frame_id r' = vf_frame_id f"
      using step by auto
    have "I \<union> set (j # js) = {..<fragment_total f}"
      using True js by auto
    then show ?thesis
      using receive_all_late [OF Cons.prems(1) js r'(2)] r'(1) by (simp add: outcomes_ok_def rcv)
  next
    case False
    then obtain r' where r': "reassembler_store (nth_fragment f j) c r = (Inr None, r')"
        "assembling f (insert j I) c r'"
      using step by auto
    then show ?thesis
      using Cons.IH [OF Cons.prems(1) js r'(2) False] by (simp add: outcomes_ok_def rcv)
  qed
qed

lemma receive_all_ready:
  assumes ok: "frame_ok f" and js: "set js \<subseteq> {..<fragment_total f}" and ready: "ready_for f r"
  shows "outcomes_ok f (set js = {..<fragment_total f}) (receive_all (map (nth_fragment f) js) r)"
proof (cases js)
  case Nil
  then show ?thesis
    using fragment_total_bounds(1) [OF ok] by (auto simp: outcomes_ok_def lessThan_empty_iff)
next
  case (Cons j js')
  then have j: "j < fragment_total f"
    using js by simp
  obtain r0 where r0: "reassembler_receive (nth_fragment f j) r =
      reassembler_store (nth_fragment f j) (nth_fragment f j) r0"
    and asm: "assembling f {} (nth_fragment f j) r0"
    using receive_first [OF ok j ready] by blast
  have "{} \<noteq> {..<fragment_total f}"
    using fragment_total_bounds(1) [OF ok] by (auto simp: lessThan_empty_iff)
  then have "outcomes_ok f ({} \<union> set js = {..<fragment_total f})
      (receive_all (map (nth_fragment f) js) r0)"
    using receive_all_assembling [OF ok js asm] by blast
  then show ?thesis
    using Cons r0 receive_next [OF ok j asm] by simp
qed


section \<open>The reassembler under any stream\<close>

definition part_length :: "byte list option \<Rightarrow> nat" where
  "part_length x = (case x of None \<Rightarrow> 0 | Some bs \<Rightarrow> length bs)"

definition reassembler_wf :: "frame_reassembler \<Rightarrow> bool" where
  "reassembler_wf r \<longleftrightarrow> (\<forall>c. fa_current r = Some c \<longrightarrow> fragment_ok c \<and>
     length (fa_fragments r) = unat (fg_fragment_count c) \<and>
     fa_received_bytes r = sum_list (map part_length (fa_fragments r)) \<and>
     fa_received_count r = of_nat (length (filter (\<lambda>x. x \<noteq> None) (fa_fragments r))) \<and>
     fa_last_completed_frame_id r < fg_frame_id c \<and>
     (fa_keyframe_required r \<longrightarrow> fg_keyframe c))"

datatype reassembler_event = Ev_fragment video_fragment | Ev_loss

definition reassembler_step :: "frame_reassembler \<Rightarrow> reassembler_event \<Rightarrow> frame_reassembler" where
  "reassembler_step r ev = (case ev of
     Ev_fragment g \<Rightarrow> snd (reassembler_receive g r) | Ev_loss \<Rightarrow> reassembler_notify_loss r)"

lemma reassembler_idle [simp]: "fa_current r = None \<Longrightarrow> reassembler_wf r"
  by (simp add: reassembler_wf_def)

lemma abandon_fields [simp]:
  "fa_current (abandon_incomplete r) = None"
  "fa_last_completed_frame_id (abandon_incomplete r) = fa_last_completed_frame_id r"
  "fa_keyframe_required (abandon_incomplete r) = fa_keyframe_required r"
  by (simp_all add: abandon_incomplete_def Let_def split: option.split)

text \<open>When every part is there, their lengths are the bytes received.\<close>

lemma filter_length_all: "length (filter P xs) = length xs \<longleftrightarrow> list_all P xs"
proof
  assume "length (filter P xs) = length xs"
  then show "list_all P xs"
    using length_filter_less [of _ xs P] by (fastforce simp: list_all_iff)
qed (simp add: list_all_iff filter_id_conv)

lemma concat_parts_length:
  "list_all (\<lambda>x. x \<noteq> None) xs \<Longrightarrow> length (concat (map the xs)) = sum_list (map part_length xs)"
  by (induction xs) (auto simp: part_length_def)

lemma count_complete:
  assumes "length xs = unat (n :: u16)" "of_nat (length (filter P xs)) = n"
  shows "list_all P xs"
proof -
  have "length (filter P xs) < 2 ^ 16"
    using assms(1) unsigned_less [of n, where 'a = nat] length_filter_le [of P xs] by simp
  then have "unat (of_nat (length (filter P xs)) :: u16) = length (filter P xs)"
    by (simp add: unat_of_nat)
  then show ?thesis
    using assms by (simp add: filter_length_all [symmetric])
qed

text \<open>What finishing does to a well-formed reassembler.\<close>

lemma finish_wf:
  assumes wf: "reassembler_wf r" and c: "fa_current r = Some c"
  shows "reassembler_wf (snd (reassembler_finish c r))"
    "fa_last_completed_frame_id r \<le> fa_last_completed_frame_id (snd (reassembler_finish c r))"
    "reassembler_finish c r = (Inr (Some f), r') \<Longrightarrow>
       vf_frame_id f = fg_frame_id c \<and> fa_last_completed_frame_id r' = vf_frame_id f \<and>
       vf_keyframe f = fg_keyframe c \<and> length (vf_encoded f) = unat (fg_total_size c)"
proof -
  show "reassembler_wf (snd (reassembler_finish c r))"
    using wf by (simp add: reassembler_finish_def Let_def)
  show "fa_last_completed_frame_id r \<le> fa_last_completed_frame_id (snd (reassembler_finish c r))"
    using wf c by (auto simp: reassembler_finish_def Let_def reassembler_wf_def)
  assume fin: "reassembler_finish c r = (Inr (Some f), r')"
  then have "list_all (\<lambda>x. x \<noteq> None) (fa_fragments r)"
    using wf c by (intro count_complete [of _ "fg_fragment_count c"])
      (auto simp: reassembler_finish_def reassembler_wf_def split: if_splits)
  then show "vf_frame_id f = fg_frame_id c \<and> fa_last_completed_frame_id r' = vf_frame_id f \<and>
       vf_keyframe f = fg_keyframe c \<and> length (vf_encoded f) = unat (fg_total_size c)"
    using fin wf c concat_parts_length
    by (auto simp: reassembler_finish_def reassembler_wf_def Let_def split: if_splits)
qed

lemma sum_list_update_part:
  "i < length xs \<Longrightarrow> xs ! i = None \<Longrightarrow>
     sum_list (map part_length (xs[i := Some p])) = sum_list (map part_length xs) + length p"
  by (induction xs arbitrary: i) (auto simp: part_length_def nth_Cons split: nat.splits)

lemma filter_update_part:
  "i < length xs \<Longrightarrow> xs ! i = None \<Longrightarrow>
     length (filter (\<lambda>x. x \<noteq> None) (xs[i := Some p])) = Suc (length (filter (\<lambda>x. x \<noteq> None) xs))"
  by (induction xs arbitrary: i) (auto simp: nth_Cons split: nat.splits)

text \<open>The reassembler after a new part is stored, and the ways \<open>store\<close> can go.\<close>

definition stored :: "video_fragment \<Rightarrow> frame_reassembler \<Rightarrow> frame_reassembler" where
  "stored g r = r\<lparr>fa_received_bytes := fa_received_bytes r + length (fg_payload g),
    fa_fragments := (fa_fragments r)[unat (fg_fragment_index g) := Some (fg_payload g)],
    fa_received_count := fa_received_count r + 1\<rparr>"

lemma store_cases:
  obtains (refused) e where "reassembler_store g c r = (Inl e, r)"
  | (overflow) e r1 where "reassembler_store g c r = (Inl e, (abandon_incomplete r1)\<lparr>fa_keyframe_required := True\<rparr>)"
      "fa_last_completed_frame_id r1 = fa_last_completed_frame_id r"
  | (duplicate) "reassembler_store g c r = reassembler_finish c r"
  | (new) "unat (fg_fragment_index g) < length (fa_fragments r)"
      "fa_fragments r ! unat (fg_fragment_index g) = None"
      "reassembler_store g c r = reassembler_finish c (stored g r)"
proof -
  let ?i = "unat (fg_fragment_index g)"
  let ?r = "r\<lparr>fa_received_bytes := fa_received_bytes r + length (fg_payload g)\<rparr>"
  show thesis
  proof (cases "fragments_consistent g c \<and> ?i < length (fa_fragments r)")
    case False
    then show thesis
      using refused by (cases "fragments_consistent g c") (simp_all add: reassembler_store_def)
  next
    case here: True
    show thesis
    proof (cases "fa_fragments r ! ?i = None")
      case False
      then show thesis
        using here by (intro duplicate) (auto simp: reassembler_store_def)
    next
      case True
      then show thesis
        using here overflow [of _ ?r] new
        by (cases "fa_received_bytes r + length (fg_payload g) > unat (fg_total_size c)")
          (simp_all add: reassembler_store_def Let_def stored_def)
    qed
  qed
qed

lemma stored_wf:
  assumes "reassembler_wf r" "fa_current r = Some c"
    and "unat (fg_fragment_index g) < length (fa_fragments r)"
    and "fa_fragments r ! unat (fg_fragment_index g) = None"
  shows "reassembler_wf (stored g r)"
  using assms sum_list_update_part [OF assms(3,4)] filter_update_part [OF assms(3,4)]
  by (simp add: reassembler_wf_def stored_def add.commute)

lemma stored_fields [simp]:
  "fa_current (stored g r) = fa_current r"
  "fa_last_completed_frame_id (stored g r) = fa_last_completed_frame_id r"
  by (simp_all add: stored_def)

lemma store_wf:
  assumes wf: "reassembler_wf r" and c: "fa_current r = Some c"
  shows "reassembler_wf (snd (reassembler_store g c r)) \<and>
    fa_last_completed_frame_id r \<le> fa_last_completed_frame_id (snd (reassembler_store g c r))"
proof (rule store_cases [of g c r])
  assume new: "unat (fg_fragment_index g) < length (fa_fragments r)"
      "fa_fragments r ! unat (fg_fragment_index g) = None"
      "reassembler_store g c r = reassembler_finish c (stored g r)"
  then show ?thesis
    using finish_wf(1,2) [OF stored_wf [OF wf c new(1,2)], of c] c by simp
qed (use wf finish_wf(1,2) [OF wf c] in simp_all)

lemma store_delivers:
  assumes wf: "reassembler_wf r" and c: "fa_current r = Some c"
    and del: "reassembler_store g c r = (Inr (Some f), r')"
  shows "vf_frame_id f = fg_frame_id c \<and> fa_last_completed_frame_id r' = vf_frame_id f \<and>
       vf_keyframe f = fg_keyframe c \<and> length (vf_encoded f) = unat (fg_total_size c)"
proof (rule store_cases [of g c r])
  assume new: "unat (fg_fragment_index g) < length (fa_fragments r)"
      "fa_fragments r ! unat (fg_fragment_index g) = None"
      "reassembler_store g c r = reassembler_finish c (stored g r)"
  then show ?thesis
    using finish_wf(3) [OF stored_wf [OF wf c new(1,2)], of c f r'] c del by simp
qed (use del finish_wf(3) [OF wf c, of f r'] in simp_all)

text \<open>What a call of \<open>receive\<close> comes to: an outcome without a frame, or storing into a well-formed
  reassembler whose current frame is newer than the last complete one.\<close>

lemma begin_wf:
  "fragment_ok g \<Longrightarrow> fa_last_completed_frame_id r < fg_frame_id g \<Longrightarrow>
   (fa_keyframe_required r \<longrightarrow> fg_keyframe g) \<Longrightarrow>
   \<exists>r'. reassembler_begin g r = (Inr (), r') \<and> fa_current r' = Some g \<and> reassembler_wf r' \<and>
     fa_last_completed_frame_id r' = fa_last_completed_frame_id r \<and>
     fa_keyframe_required r' = fa_keyframe_required r"
  by (simp add: reassembler_begin_def fragment_ok_def reassembler_wf_def part_length_def)

lemma receive_cases:
  assumes wf: "reassembler_wf r"
  obtains (idle) res where "fst (reassembler_receive g r) = res" "\<forall>f. res \<noteq> Inr (Some f)"
      "reassembler_wf (snd (reassembler_receive g r))"
      "fa_last_completed_frame_id (snd (reassembler_receive g r)) = fa_last_completed_frame_id r"
  | (stores) c r0 where "reassembler_receive g r = reassembler_store g c r0" "fa_current r0 = Some c"
      "reassembler_wf r0" "fa_last_completed_frame_id r0 = fa_last_completed_frame_id r"
      "fa_keyframe_required r \<longrightarrow> fg_keyframe c"
proof (cases "validate_fragment g = Inr () \<and> fa_last_completed_frame_id r < fg_frame_id g")
  case False
  then have "\<exists>res. reassembler_receive g r = (res, r) \<and> (\<forall>f. res \<noteq> Inr (Some f))"
    by (auto simp: reassembler_receive_def not_less split: sum.splits)
  then obtain res where res: "reassembler_receive g r = (res, r)" "\<forall>f. res \<noteq> Inr (Some f)"
    by blast
  show thesis
    by (rule idle [of res]) (simp_all add: res wf)
next
  case True
  then have g: "fragment_ok g" "fa_last_completed_frame_id r < fg_frame_id g"
    by (simp_all add: fragment_ok_def)
  show thesis
  proof (cases "fa_current r")
    case None
    show thesis
    proof (cases "fa_keyframe_required r \<and> \<not> fg_keyframe g")
      case True
      then show thesis
        using g None by (intro idle [of "Inr None"]) (auto simp: reassembler_receive_def fragment_ok_def not_le)
    next
      case False
      then obtain r0 where "reassembler_begin g r = (Inr (), r0)" "fa_current r0 = Some g" "reassembler_wf r0"
          "fa_last_completed_frame_id r0 = fa_last_completed_frame_id r"
        using begin_wf [OF g] by blast
      then show thesis
        using g None False
        by (intro stores [of g r0]) (auto simp: reassembler_receive_def fragment_ok_def not_le c_bind_def)
    qed
  next
    case (Some c)
    let ?r = "(abandon_incomplete r)\<lparr>fa_keyframe_required := True\<rparr>"
    consider "fg_frame_id g < fg_frame_id c" | "fg_frame_id g > fg_frame_id c" "\<not> fg_keyframe g"
      | "fg_frame_id g > fg_frame_id c" "fg_keyframe g" | "fg_frame_id g = fg_frame_id c"
      by (meson linorder_less_linear)
    then show thesis
    proof cases
      case 1
      then show thesis
        using wf g Some by (intro idle [of "Inr None"]) (auto simp: reassembler_receive_def fragment_ok_def not_le)
    next
      case 2
      then show thesis
        using g Some by (intro idle [of "Inr None"]) (auto simp: reassembler_receive_def fragment_ok_def not_le Let_def)
    next
      case 3
      then obtain r0 where "reassembler_begin g ?r = (Inr (), r0)" "fa_current r0 = Some g" "reassembler_wf r0"
          "fa_last_completed_frame_id r0 = fa_last_completed_frame_id r"
        using begin_wf [of g ?r] g by auto
      then show thesis
        using 3 g Some
        by (intro stores [of g r0]) (auto simp: reassembler_receive_def fragment_ok_def not_le c_bind_def Let_def)
    next
      case 4
      then show thesis
        using wf g Some
        by (intro stores [of c r]) (auto simp: reassembler_receive_def fragment_ok_def not_le reassembler_wf_def)
    qed
  qed
qed

lemma reassembler_step_wf:
  assumes "reassembler_wf r"
  shows "reassembler_wf (reassembler_step r ev) \<and>
    fa_last_completed_frame_id r \<le> fa_last_completed_frame_id (reassembler_step r ev)"
proof (cases ev)
  case (Ev_fragment g)
  show ?thesis
  proof (rule receive_cases [OF assms, of g])
    fix c r0
    assume "reassembler_receive g r = reassembler_store g c r0" "fa_current r0 = Some c"
      "reassembler_wf r0" "fa_last_completed_frame_id r0 = fa_last_completed_frame_id r"
    then show ?thesis
      using Ev_fragment store_wf [of r0 c g] by (simp add: reassembler_step_def)
  qed (use Ev_fragment in \<open>simp add: reassembler_step_def\<close>)
qed (simp add: reassembler_step_def reassembler_notify_loss_def)

interpretation reassembler: monotone_machine reassembler_step new_reassembler reassembler_wf
  fa_last_completed_frame_id
  by unfold_locales (simp_all add: new_reassembler_def reassembler_step_wf)


lemma fragments_as_indices:
  assumes "frame_ok f" "set gs \<subseteq> set (map (nth_fragment f) [0..<fragment_total f])"
  obtains js where "gs = map (nth_fragment f) js" "set js \<subseteq> {..<fragment_total f}"
    "set js = {..<fragment_total f} \<longleftrightarrow> set (map (nth_fragment f) [0..<fragment_total f]) \<subseteq> set gs"
proof -
  let ?ix = "\<lambda>g. unat (fg_fragment_index g)"
  let ?js = "map ?ix gs"
  have ix: "?ix (nth_fragment f i) = i" if "i < fragment_total f" for i
    using that by (rule nth_fragment_index [OF assms(1)])
  have gs: "?ix g < fragment_total f \<and> nth_fragment f (?ix g) = g" if "g \<in> set gs" for g
    using that assms(2) ix by auto
  have eq: "gs = map (nth_fragment f) ?js"
    using gs by (simp add: comp_def map_idI)
  have sub: "set ?js \<subseteq> {..<fragment_total f}"
    using gs by auto
  have "set ?js = {..<fragment_total f} \<longleftrightarrow> set (map (nth_fragment f) [0..<fragment_total f]) \<subseteq> set gs"
  proof
    assume "set ?js = {..<fragment_total f}"
    then have "nth_fragment f i \<in> set gs" if "i < fragment_total f" for i
      using that gs by (metis (no_types, lifting) imageE lessThan_iff set_map)
    then show "set (map (nth_fragment f) [0..<fragment_total f]) \<subseteq> set gs"
      by auto
  next
    assume all: "set (map (nth_fragment f) [0..<fragment_total f]) \<subseteq> set gs"
    have "i \<in> set ?js" if "i < fragment_total f" for i
    proof -
      have "nth_fragment f i \<in> set gs"
        using that all by auto
      then have "?ix (nth_fragment f i) \<in> set ?js"
        by (simp only: set_map image_eqI)
      then show ?thesis
        by (simp only: ix [OF that])
    qed
    then show "set ?js = {..<fragment_total f}"
      using sub by auto
  qed
  with eq sub show thesis
    by (rule that)
qed

section \<open>The queue of the latest frame\<close>

definition empty_queue :: latest_frame_queue where
  "empty_queue = \<lparr>lq_pending = None, lq_dropped_frames = 0\<rparr>"

lemma queue_push_some:
  "lq_pending q = Some p \<Longrightarrow> lq_pending (queue_push f q) = Some (if vf_frame_id f \<le> vf_frame_id p then p else f) \<and>
     lq_dropped_frames (queue_push f q) = lq_dropped_frames q + 1"
  by (simp add: queue_push_def)

lemma queue_pushes:
  "lq_pending q = Some p \<Longrightarrow> \<exists>p'. lq_pending (foldl (\<lambda>q f. queue_push f q) q fs) = Some p' \<and>
     p' \<in> insert p (set fs) \<and> (\<forall>f\<in>insert p (set fs). vf_frame_id f \<le> vf_frame_id p') \<and>
     lq_dropped_frames (foldl (\<lambda>q f. queue_push f q) q fs) = lq_dropped_frames q + of_nat (length fs)"
proof (induction fs arbitrary: q p)
  case Nil
  then show ?case by simp
next
  case (Cons f fs)
  let ?p = "if vf_frame_id f \<le> vf_frame_id p then p else f"
  have push: "lq_pending (queue_push f q) = Some ?p"
    "lq_dropped_frames (queue_push f q) = lq_dropped_frames q + 1"
    using queue_push_some [OF Cons.prems] by auto
  obtain p' where p': "lq_pending (foldl (\<lambda>q f. queue_push f q) (queue_push f q) fs) = Some p'"
    "p' \<in> insert ?p (set fs)" "\<forall>f\<in>insert ?p (set fs). vf_frame_id f \<le> vf_frame_id p'"
    "lq_dropped_frames (foldl (\<lambda>q f. queue_push f q) (queue_push f q) fs) = lq_dropped_frames q + 1 + of_nat (length fs)"
    using Cons.IH [OF push(1)] push(2) by auto
  have "vf_frame_id p \<le> vf_frame_id ?p" "vf_frame_id f \<le> vf_frame_id ?p"
    by auto
  then have "vf_frame_id p \<le> vf_frame_id p'" "vf_frame_id f \<le> vf_frame_id p'"
    using p'(3) by (meson insertI1 order_trans)+
  then show ?case
    using p' by (auto simp: add.assoc split: if_splits)
qed

section \<open>Properties\<close>

lemma fragments_delivered:
  assumes "fragment_frame f = Inr fs" "set gs \<subseteq> set fs" "ready_for f r"
  shows "list_all succeeds (receive_all gs r) \<and>
    delivered (receive_all gs r) = (if set fs \<subseteq> set gs then [f\<lparr>vf_representation_epoch := 1\<rparr>] else [])"
proof -
  have ok: "frame_ok f" and fs: "fs = map (nth_fragment f) [0..<fragment_total f]"
    using assms(1) by (simp_all add: fragment_frame_eq)
  obtain js where gs: "gs = map (nth_fragment f) js" and js: "set js \<subseteq> {..<fragment_total f}"
    and all: "set js = {..<fragment_total f} \<longleftrightarrow> set fs \<subseteq> set gs"
    using fragments_as_indices [OF ok, of gs] assms(2) fs by metis
  show ?thesis
    using receive_all_ready [OF ok js assms(3)] all gs by (simp add: outcomes_ok_def)
qed

text \<open>C20. Whatever the order in which the fragments of a frame arrive, repeated or not, a reassembler
  that is not past the frame raises no error, and delivers the frame once when the last missing
  fragment has come and not before; only the representation epoch, which no fragment carries, is
  reset to 1.\<close>

theorem fragments_reassemble:
  assumes "fragment_frame f = Inr fs" "set gs \<subseteq> set fs" "ready_for f r"
  shows "list_all succeeds (receive_all gs r) \<and>
    delivered (receive_all gs r) = (if set fs \<subseteq> set gs then [f\<lparr>vf_representation_epoch := 1\<rparr>] else [])"
  using assms by (rule fragments_delivered)

definition sample_frame :: video_frame where
  "sample_frame = \<lparr>vf_frame_id = 5, vf_representation_epoch = 1, vf_captured_at_us = 9, vf_width = 64,
     vf_height = 48, vf_codec = codec_h264, vf_keyframe = True, vf_encoded = replicate 2000 7\<rparr>"

lemma sample_frame_ok: "frame_ok sample_frame"
  by (simp add: frame_ok_def sample_frame_def validate_dimensions_def)

theorem fragments_reassemble_witness:
  "\<exists>fs. fragment_frame sample_frame = Inr fs \<and> length fs = 2 \<and>
     delivered (receive_all (rev fs @ fs) new_reassembler) = [sample_frame]"
proof -
  obtain fs where fs: "fragment_frame sample_frame = Inr fs" "length fs = 2"
    using sample_frame_ok by (simp add: fragment_frame_eq fragment_total_def sample_frame_def)
  have "ready_for sample_frame new_reassembler"
    by (simp add: ready_for_def new_reassembler_def sample_frame_def)
  then have "delivered (receive_all (rev fs @ fs) new_reassembler) = [sample_frame\<lparr>vf_representation_epoch := 1\<rparr>]"
    using fragments_reassemble [OF fs(1), of "rev fs @ fs"] by simp
  then show ?thesis
    using fs by (simp add: sample_frame_def)
qed

text \<open>Under any stream of fragments and loss reports, honest or not, a delivered frame is newer than
  every frame delivered before, is a keyframe when one was required, and has exactly the declared
  number of bytes.\<close>

theorem delivered_frame_sound:
  assumes "reassembler_receive g (foldl reassembler_step new_reassembler evs) = (Inr (Some f), r')"
  shows "fa_last_completed_frame_id (foldl reassembler_step new_reassembler evs) < vf_frame_id f \<and>
    (fa_keyframe_required (foldl reassembler_step new_reassembler evs) \<longrightarrow> vf_keyframe f) \<and>
    0 < length (vf_encoded f) \<and> length (vf_encoded f) \<le> maximum_encoded_frame_size \<and>
    (\<forall>evs'. vf_frame_id f \<le> fa_last_completed_frame_id (foldl reassembler_step r' evs'))"
proof -
  let ?r = "foldl reassembler_step new_reassembler evs"
  have wf: "reassembler_wf ?r"
    by (rule reassembler.run_inv)
  show ?thesis
  proof (rule receive_cases [OF wf, of g])
    fix c r0
    assume c: "reassembler_receive g ?r = reassembler_store g c r0" "fa_current r0 = Some c"
      "reassembler_wf r0" "fa_last_completed_frame_id r0 = fa_last_completed_frame_id ?r"
      "fa_keyframe_required ?r \<longrightarrow> fg_keyframe c"
    have st: "reassembler_store g c r0 = (Inr (Some f), r')"
      by (rule trans [OF sym [OF c(1)] assms])
    have f: "vf_frame_id f = fg_frame_id c \<and> fa_last_completed_frame_id r' = vf_frame_id f \<and>
        vf_keyframe f = fg_keyframe c \<and> length (vf_encoded f) = unat (fg_total_size c)"
      by (rule store_delivers [OF c(3,2) st])
    have "fragment_ok c" "fa_last_completed_frame_id r0 < fg_frame_id c"
      using c(2,3) by (simp_all add: reassembler_wf_def)
    moreover from this have "0 < unat (fg_total_size c)" "unat (fg_total_size c) \<le> maximum_encoded_frame_size"
      by (auto simp: fragment_ok_def validate_fragment_def result_simps unat_gt_0)
    moreover have "reassembler_wf r'"
      using store_wf [OF c(3,2), of g] by (simp add: st)
    ultimately show ?thesis
      using f c reassembler.run_level [of r'] by auto
  qed (use assms in simp)
qed

theorem delivered_frame_sound_witness:
  "\<exists>g f r'. reassembler_receive g (foldl reassembler_step new_reassembler [Ev_loss]) = (Inr (Some f), r') \<and>
     vf_keyframe f"
proof -
  let ?f = "sample_frame\<lparr>vf_encoded := [1, 2]\<rparr>"
  let ?r = "foldl reassembler_step new_reassembler [Ev_loss]"
  have ok: "frame_ok ?f" and total: "fragment_total ?f = 1"
    by (simp_all add: frame_ok_def sample_frame_def validate_dimensions_def fragment_total_def)
  have ready: "ready_for ?f ?r"
    by (simp add: ready_for_def reassembler_step_def reassembler_notify_loss_def abandon_incomplete_def
        new_reassembler_def sample_frame_def)
  obtain r0 where r0: "reassembler_receive (nth_fragment ?f 0) ?r =
      reassembler_store (nth_fragment ?f 0) (nth_fragment ?f 0) r0"
    "assembling ?f {} (nth_fragment ?f 0) r0"
    using receive_first [OF ok _ ready, of 0] total by auto
  have one: "insert 0 {} = {..<fragment_total ?f}" "{} \<noteq> {..<fragment_total ?f}"
    by (auto simp: total)
  obtain r' where r': "reassembler_receive (nth_fragment ?f 0) ?r = (Inr (Some (received_frame ?f)), r')"
    using reassembler_store_assembling [OF ok r0(2), of 0] one r0(1) total by auto
  have "fa_keyframe_required ?r \<longrightarrow> vf_keyframe (received_frame ?f)"
    using delivered_frame_sound [OF r'] by blast
  moreover have "fa_keyframe_required ?r"
    by (simp add: reassembler_step_def reassembler_notify_loss_def)
  ultimately show ?thesis
    using r' by blast
qed

lemma fragment_datagrams:
  assumes "fragment_frame f = Inr fs"
  shows "(\<forall>g\<in>set fs. \<exists>bs. encode_video_fragment g = Inr bs \<and> decode_video_fragment bs = Inr g \<and>
      length bs \<le> maximum_media_datagram_size) \<and>
    concat (map fg_payload fs) = vf_encoded f \<and>
    map fg_fragment_index fs = map of_nat [0..<length fs]"
proof -
  have ok: "frame_ok f" and fs: "fs = map (nth_fragment f) [0..<fragment_total f]"
    using assms by (simp_all add: fragment_frame_eq)
  have "\<exists>bs. encode_video_fragment g = Inr bs \<and> decode_video_fragment bs = Inr g \<and>
      length bs \<le> maximum_media_datagram_size" if "g \<in> set fs" for g
  proof -
    have "fragment_ok g"
      using that ok by (auto simp: fs fragment_ok_def frame_fragment_ok)
    then obtain bs where bs: "encode_video_fragment g = Inr bs"
      by (simp add: encode_fragment_eq)
    then have "length bs \<le> maximum_media_datagram_size"
      using fragment_ok_payload [OF \<open>fragment_ok g\<close>] by (auto simp: encode_fragment_eq)
    with bs show ?thesis
      by (simp add: fragment_codec)
  qed
  moreover have "concat (map fg_payload fs) = vf_encoded f"
    using concat_fragment_parts [OF ok] by (simp add: fs comp_def frame_fragment_payload)
  moreover have "map fg_fragment_index fs = map of_nat [0..<length fs]"
    by (simp add: fs comp_def frame_fragment_def Let_def)
  ultimately show ?thesis by blast
qed

text \<open>Cutting a frame gives fragments that each fit a datagram and survive the wire, and whose
  payloads in order are the encoded frame.\<close>

theorem fragments_fit_and_cover:
  assumes "fragment_frame f = Inr fs"
  shows "(\<forall>g\<in>set fs. \<exists>bs. encode_video_fragment g = Inr bs \<and> decode_video_fragment bs = Inr g \<and>
      length bs \<le> maximum_media_datagram_size) \<and>
    concat (map fg_payload fs) = vf_encoded f \<and>
    map fg_fragment_index fs = map of_nat [0..<length fs]"
  using assms by (rule fragment_datagrams)

theorem fragments_fit_and_cover_witness:
  "\<exists>fs. fragment_frame sample_frame = Inr fs \<and> concat (map fg_payload fs) = replicate 2000 7"
proof -
  obtain fs where fs: "fragment_frame sample_frame = Inr fs"
    using sample_frame_ok by (simp add: fragment_frame_eq)
  with fragments_fit_and_cover [OF fs] show ?thesis
    by (simp add: sample_frame_def)
qed

text \<open>Datagrams and keyframe requests: the decoders accept exactly the encodings.\<close>

theorem video_datagram_codecs:
  "(decode_video_fragment bs = Inr g) = (encode_video_fragment g = Inr bs) \<and>
   (decode_keyframe_request bs = Inr q) = (encode_keyframe_request q = Inr bs)"
  using video_fragment.decode_iff keyframe_request.decode_iff by simp

text \<open>The latest-frame queue holds a newest one of the frames pushed since it was emptied and counts
  all the others as dropped.\<close>

theorem latest_frame_queue_keeps_newest:
  "\<exists>p q. queue_take (foldl (\<lambda>q f. queue_push f q) empty_queue (f # fs)) = (Some p, q) \<and>
     p \<in> set (f # fs) \<and> (\<forall>f'\<in>set (f # fs). vf_frame_id f' \<le> vf_frame_id p) \<and>
     lq_pending q = None \<and> lq_dropped_frames q = of_nat (length fs)"
proof -
  have "lq_pending (queue_push f empty_queue) = Some f" "lq_dropped_frames (queue_push f empty_queue) = 0"
    by (simp_all add: queue_push_def empty_queue_def)
  then show ?thesis
    using queue_pushes [of "queue_push f empty_queue" f fs] by (auto simp: queue_take_def)
qed

end
