(* ===== verification/Input.thy ===== *)
theory Input
  imports Visual_Payloads Authorization
begin

text \<open>
  \<open>desktop/src/desktop.cpp\<close>: input events with their validation and wire format, the receiver that
  checks capability, transport and order and hands events to the host, and the release of everything
  it has pressed. The host is an interface of the program: its calls are a trace, and whether a call
  throws is a parameter that may depend on the calls before. A call that throws has no effect.
\<close>

section \<open>UTF-8\<close>

definition char_code :: "char \<Rightarrow> u8" where
  "char_code c = of_nat (of_char c)"

text \<open>The inner loop: continuation bytes, each adding six bits to the code point.\<close>

fun utf8_continuation :: "nat \<Rightarrow> u32 \<Rightarrow> string \<Rightarrow> (u32 \<times> string) option" where
  "utf8_continuation 0 codepoint cs = Some (codepoint, cs)"
| "utf8_continuation (Suc n) codepoint [] = None"
| "utf8_continuation (Suc n) codepoint (c # cs) =
     (if char_code c AND 0xc0 \<noteq> 0x80 then None
      else utf8_continuation n (push_bit 6 codepoint OR ucast (char_code c AND 0x3f)) cs)"

text \<open>The first byte: how many continuation bytes follow, and its bits of the code point.\<close>

definition utf8_first :: "u8 \<Rightarrow> (nat \<times> u32) option" where
  "utf8_first b =
     (if b AND 0xe0 = 0xc0 then Some (1, ucast (b AND 0x1f))
      else if b AND 0xf0 = 0xe0 then Some (2, ucast (b AND 0x0f))
      else if b AND 0xf8 = 0xf0 then Some (3, ucast (b AND 0x07))
      else None)"

definition utf8_bad_codepoint :: "nat \<Rightarrow> u32 \<Rightarrow> bool" where
  "utf8_bad_codepoint continuation codepoint \<longleftrightarrow>
     (continuation = 1 \<and> codepoint < 0x80) \<or> (continuation = 2 \<and> codepoint < 0x800) \<or>
     (continuation = 3 \<and> codepoint < 0x10000) \<or> codepoint > 0x10ffff \<or>
     (codepoint \<ge> 0xd800 \<and> codepoint \<le> 0xdfff)"

lemma utf8_continuation_length:
  "utf8_continuation n cp cs = Some (cp', cs') \<Longrightarrow> length cs = n + length cs'"
  by (induction n cp cs rule: utf8_continuation.induct) (auto split: if_splits)

text \<open>
  The outer loop, on the characters from the index on. The text ends too early exactly when
  \<open>index + continuation\<close> is at least its size.
\<close>

function valid_utf8 :: "string \<Rightarrow> bool" where
  "valid_utf8 [] = True"
| "valid_utf8 (c # cs) =
     (if char_code c \<le> 0x7f then valid_utf8 cs
      else (case utf8_first (char_code c) of
        None \<Rightarrow> False
      | Some (continuation, codepoint) \<Rightarrow>
          if continuation \<ge> Suc (length cs) then False
          else (case utf8_continuation continuation codepoint cs of
            None \<Rightarrow> False
          | Some (cp, cs') \<Rightarrow> if utf8_bad_codepoint continuation cp then False else valid_utf8 cs')))"
  by pat_completeness auto
termination
  by (relation "measure length") (auto dest: utf8_continuation_length)

section \<open>Events\<close>

type_synonym input_kind = u8

definition raw_key :: input_kind where [enum_values]: "raw_key = 1"
definition text_commit :: input_kind where [enum_values]: "text_commit = 2"
definition pointer_move :: input_kind where [enum_values]: "pointer_move = 3"
definition pointer_button :: input_kind where [enum_values]: "pointer_button = 4"
definition vertical_wheel :: input_kind where [enum_values]: "vertical_wheel = 5"
definition horizontal_wheel :: input_kind where [enum_values]: "horizontal_wheel = 6"

abbreviation maximum_input_text_size :: nat where
  "maximum_input_text_size \<equiv> 65536"

record input_event =
  ie_kind :: input_kind
  ie_sequence :: u64
  ie_occurred_at_us :: u64
  ie_value_a :: u32
  ie_value_b :: u32
  ie_pressed :: bool
  ie_text :: string

definition validate_input_event :: "input_event \<Rightarrow> unit result" where
  "validate_input_event e =
     (if ie_sequence e = 0 \<or> ie_occurred_at_us e = 0
      then throw (Invalid_argument ''input event sequence and timestamp are required'')
      else if ie_kind e = raw_key then
        throw_if (ie_value_a e = 0 \<or> ie_value_a e > 0xffff \<or> ie_value_b e \<noteq> 0 \<or> ie_text e \<noteq> [])
          (Invalid_argument ''invalid raw key event'')
      else if ie_kind e = text_commit then
        throw_if (ie_value_a e \<noteq> 0 \<or> ie_value_b e \<noteq> 0 \<or> ie_pressed e \<or> ie_text e = [] \<or>
            length (ie_text e) > maximum_input_text_size \<or> CHR 0x00 \<in> set (ie_text e) \<or>
            \<not> valid_utf8 (ie_text e))
          (Invalid_argument ''invalid text commit event'')
      else if ie_kind e = pointer_move then
        throw_if (ie_value_a e > 0xffff \<or> ie_value_b e > 0xffff \<or> ie_pressed e \<or> ie_text e \<noteq> [])
          (Invalid_argument ''invalid pointer move event'')
      else if ie_kind e = pointer_button then
        throw_if (ie_value_a e = 0 \<or> ie_value_a e > 8 \<or> ie_value_b e \<noteq> 0 \<or> ie_text e \<noteq> [])
          (Invalid_argument ''invalid pointer button event'')
      else if ie_kind e = vertical_wheel \<or> ie_kind e = horizontal_wheel then
        throw_if (ie_value_a e = 0 \<or> ie_value_b e \<noteq> 0 \<or> ie_pressed e \<or> ie_text e \<noteq> [])
          (Invalid_argument ''invalid pointer wheel event'')
      else throw (Invalid_argument ''unknown input event kind''))"

definition encode_input_event :: "input_event \<Rightarrow> byte list result" where
  "encode_input_event e = and_then (validate_input_event e) (\<lambda>_.
     and_then (checked_u32 (length (ie_text e))) (\<lambda>text_size.
     ok (input_magic @ put_u8 1 @ put_u8 (ie_kind e) @ put_u8 (if ie_pressed e then 1 else 0) @
         put_u8 0 @ put_u64 (ie_sequence e) @ put_u64 (ie_occurred_at_us e) @
         put_u32 (ie_value_a e) @ put_u32 (ie_value_b e) @ put_u32 text_size @ as_bytes (ie_text e))))"

definition decode_input_event :: "byte list \<Rightarrow> input_event result" where
  "decode_input_event bs =
     rseq (require_magic input_magic) (\<lambda>_.
     rseq rd_u8 (\<lambda>version. rthrow_if (version \<noteq> 1) (Invalid_argument ''unsupported input protocol version'') (
     rseq rd_u8 (\<lambda>kind. rseq rd_u8 (\<lambda>flags.
     rthrow_if (flags AND 0xfe \<noteq> 0) (Invalid_argument ''unknown input event flags'') (
     rseq rd_u8 (\<lambda>zero. rthrow_if (zero \<noteq> 0) (Invalid_argument ''unknown input event flags'') (
     rseq rd_u64 (\<lambda>sequence. rseq rd_u64 (\<lambda>occurred. rseq rd_u32 (\<lambda>value_a. rseq rd_u32 (\<lambda>value_b.
     rseq rd_u32 (\<lambda>text_size.
     rthrow_if (unat text_size > maximum_input_text_size) (Length_error ''input text exceeds limit'') (
     rseq (rd_span (unat text_size)) (\<lambda>text_bytes.
       rend (Invalid_argument ''trailing bytes in input event'')
         (let e = \<lparr>ie_kind = kind, ie_sequence = sequence, ie_occurred_at_us = occurred,
                ie_value_a = value_a, ie_value_b = value_b, ie_pressed = (flags AND 1 \<noteq> 0),
                ie_text = string_of_bytes text_bytes\<rparr>
          in and_then (validate_input_event e) (\<lambda>_. ok e)))))))))))))))))
     (new_reader bs)"

definition validate_reverse_control_payload :: "reverse_control_header \<Rightarrow> byte list \<Rightarrow> unit result" where
  "validate_reverse_control_payload h payload =
     and_then (validate_reverse_control_header h) (\<lambda>_.
     if length payload \<noteq> unat (rh_payload_size h)
     then throw (Invalid_argument ''reverse control payload size mismatch'')
     else if rh_type h = rc_input_event then
       and_then (throw_if (payload = []) (Invalid_argument ''input control payload is empty''))
         (\<lambda>_. checks (decode_input_event payload))
     else if rh_type h = rc_release_all_input \<or> rh_type h = rc_request_full_snapshot \<or> rh_type h = rc_ping then
       throw_if (payload \<noteq> []) (Invalid_argument ''reverse control message requires an empty payload'')
     else if rh_type h = rc_frame_commit_ack then checks (decode_frame_commit_ack payload)
     else throw (Invalid_argument ''unknown reverse control type''))"

section \<open>The host\<close>

datatype backend_call =
    Raw_key u32 bool
  | Text_commit string
  | Pointer_move u16 u16
  | Pointer_button u8 bool
  | Pointer_wheel int bool

section \<open>The receiver\<close>

text \<open>
  \<open>std::map\<close> and \<open>std::set\<close> iterate in the order of their keys, so the pressed keys are a list of
  pairs sorted by key and the pressed buttons a sorted list.
\<close>

record input_receiver =
  ir_fails :: "backend_call list \<Rightarrow> backend_call \<Rightarrow> exn option"
  ir_trace :: "backend_call list"
  ir_last_reliable_sequence :: "u64 option"
  ir_last_pointer_sequence :: "u64 option"
  ir_pressed_keys :: "(u32 \<times> u64) list"
  ir_pressed_buttons :: "u8 list"
  ir_input_epoch :: u64

definition new_input_receiver :: "(backend_call list \<Rightarrow> backend_call \<Rightarrow> exn option) \<Rightarrow> input_receiver" where
  "new_input_receiver fails = \<lparr>ir_fails = fails, ir_trace = [], ir_last_reliable_sequence = None,
     ir_last_pointer_sequence = None, ir_pressed_keys = [], ir_pressed_buttons = [],
     ir_input_epoch = 1\<rparr>"

definition backend :: "backend_call \<Rightarrow> (input_receiver, unit) call" where
  "backend c r = (case ir_fails r (ir_trace r) c of
     Some e \<Rightarrow> (Inl e, r) | None \<Rightarrow> (Inr (), r\<lparr>ir_trace := ir_trace r @ [c]\<rparr>))"

fun key_insert :: "u32 \<Rightarrow> u64 \<Rightarrow> (u32 \<times> u64) list \<Rightarrow> (u32 \<times> u64) list" where
  "key_insert k v [] = [(k, v)]"
| "key_insert k v ((k', v') # kvs) =
     (if k < k' then (k, v) # (k', v') # kvs
      else if k = k' then (k, v) # kvs else (k', v') # key_insert k v kvs)"

definition key_erase :: "u32 \<Rightarrow> (u32 \<times> u64) list \<Rightarrow> (u32 \<times> u64) list" where
  "key_erase k kvs = filter (\<lambda>kv. fst kv \<noteq> k) kvs"

definition button_erase :: "u8 \<Rightarrow> u8 list \<Rightarrow> u8 list" where
  "button_erase b bs = filter (\<lambda>b'. b' \<noteq> b) bs"

text \<open>The switch of \<open>receive\<close>, after the sequence number is recorded.\<close>

definition dispatch_input :: "input_event \<Rightarrow> (input_receiver, bool) call" where
  "dispatch_input e =
     (if ie_kind e = raw_key then
        c_bind (backend (Raw_key (ie_value_a e) (ie_pressed e))) (\<lambda>_ r. (Inr True,
          r\<lparr>ir_pressed_keys := (if ie_pressed e
             then key_insert (ie_value_a e) (ie_occurred_at_us e) (ir_pressed_keys r)
             else key_erase (ie_value_a e) (ir_pressed_keys r))\<rparr>))
      else if ie_kind e = text_commit then
        c_bind (backend (Text_commit (ie_text e))) (\<lambda>_. c_return True)
      else if ie_kind e = pointer_button then
        c_bind (backend (Pointer_button (ucast (ie_value_a e)) (ie_pressed e))) (\<lambda>_ r. (Inr True,
          r\<lparr>ir_pressed_buttons := (if ie_pressed e
             then insort_insert (ucast (ie_value_a e)) (ir_pressed_buttons r)
             else button_erase (ucast (ie_value_a e)) (ir_pressed_buttons r))\<rparr>))
      else if ie_kind e = vertical_wheel \<or> ie_kind e = horizontal_wheel then
        c_bind (backend (Pointer_wheel (sint (ie_value_a e)) (ie_kind e = horizontal_wheel)))
          (\<lambda>_. c_return True)
      else c_return True)"

definition input_receive ::
  "input_event \<Rightarrow> bool \<Rightarrow> authorization_result \<Rightarrow> (input_receiver, bool) call" where
  "input_receive e reliable auth r =
     (if \<not> permits auth desktop_control
      then (Inl (Logic_error ''desktop control capability is required''), r)
      else (case validate_input_event e of
        Inl x \<Rightarrow> (Inl x, r)
      | Inr _ \<Rightarrow>
        if ie_kind e = pointer_move then
          if (case ir_last_pointer_sequence r of None \<Rightarrow> False | Some s \<Rightarrow> ie_sequence e \<le> s)
          then (Inr False, r)
          else c_bind (backend (Pointer_move (ucast (ie_value_a e)) (ucast (ie_value_b e))))
                 (\<lambda>_. c_return True) (r\<lparr>ir_last_pointer_sequence := Some (ie_sequence e)\<rparr>)
        else if \<not> reliable
        then (Inl (Invalid_argument ''input event requires reliable ordered transport''), r)
        else (case ir_last_reliable_sequence r of
            None \<Rightarrow> dispatch_input e (r\<lparr>ir_last_reliable_sequence := Some (ie_sequence e)\<rparr>)
          | Some s \<Rightarrow>
              if ie_sequence e \<le> s then (Inr False, r)
              else if ie_sequence e \<noteq> s + 1
              then (Inl (Invalid_argument ''reliable input sequence has a gap''), r)
              else dispatch_input e (r\<lparr>ir_last_reliable_sequence := Some (ie_sequence e)\<rparr>))))"

section \<open>Releasing\<close>

text \<open>The loop that releases the stale keys, erasing each after its call.\<close>

fun release_stale :: "u32 list \<Rightarrow> (input_receiver, unit) call" where
  "release_stale [] = c_return ()"
| "release_stale (usage # stale) = c_bind (backend (Raw_key usage False)) (\<lambda>_ r.
     release_stale stale (r\<lparr>ir_pressed_keys := key_erase usage (ir_pressed_keys r)\<rparr>))"

text \<open>The hold is a count of milliseconds, converted to unsigned microseconds.\<close>

definition release_stuck_keys :: "u64 \<Rightarrow> int \<Rightarrow> (input_receiver, nat) call" where
  "release_stuck_keys now_us maximum_hold r =
     (if maximum_hold \<le> 0
      then (Inl (Invalid_argument ''stuck key hold duration must be positive''), r)
      else
        let maximum_hold_us = word_of_int (maximum_hold * 1000) :: u64;
            stale = map fst (filter (\<lambda>(usage, pressed_at).
              now_us \<ge> pressed_at \<and> now_us - pressed_at \<ge> maximum_hold_us) (ir_pressed_keys r))
        in c_bind (release_stale stale) (\<lambda>_. c_return (length stale)) r)"

fun release_keys :: "u32 list \<Rightarrow> (input_receiver, unit) call" where
  "release_keys [] = c_return ()"
| "release_keys (usage # usages) = c_bind (backend (Raw_key usage False)) (\<lambda>_. release_keys usages)"

definition release_all_keys :: "(input_receiver, nat) call" where
  "release_all_keys r = c_bind (release_keys (map fst (ir_pressed_keys r))) (\<lambda>_ r'.
     (Inr (length (ir_pressed_keys r)), r'\<lparr>ir_pressed_keys := []\<rparr>)) r"

fun release_buttons :: "u8 list \<Rightarrow> (input_receiver, unit) call" where
  "release_buttons [] = c_return ()"
| "release_buttons (button # buttons) =
     c_bind (backend (Pointer_button button False)) (\<lambda>_. release_buttons buttons)"

definition release_all_input :: "(input_receiver, nat) call" where
  "release_all_input = c_bind release_all_keys (\<lambda>key_count r.
     c_bind (release_buttons (ir_pressed_buttons r)) (\<lambda>_ r'.
       (Inr (key_count + length (ir_pressed_buttons r)), r'\<lparr>ir_pressed_buttons := []\<rparr>)) r)"

definition accept_input_epoch :: "u64 \<Rightarrow> bool \<Rightarrow> (input_receiver, bool) call" where
  "accept_input_epoch epoch release_all r =
     (if epoch = 0 then (Inl (Invalid_argument ''input epoch is zero''), r)
      else if epoch < ir_input_epoch r then (Inr False, r)
      else if epoch = ir_input_epoch r then (Inr True, r)
      else if \<not> release_all
      then (Inl (Invalid_argument ''new input epoch must begin with RELEASE_ALL_INPUT''), r)
      else c_bind release_all_input (\<lambda>_ r. (Inr True, r\<lparr>ir_input_epoch := epoch,
             ir_last_reliable_sequence := None, ir_last_pointer_sequence := None\<rparr>)) r)"

section \<open>The focus gate\<close>

record input_focus_release_gate =
  fg_focused :: bool

definition focus_acquired :: "input_focus_release_gate \<Rightarrow> input_focus_release_gate" where
  "focus_acquired g = g\<lparr>fg_focused := True\<rparr>"

definition focus_lost :: "input_focus_release_gate \<Rightarrow> bool \<times> input_focus_release_gate" where
  "focus_lost g = (if \<not> fg_focused g then (False, g) else (True, g\<lparr>fg_focused := False\<rparr>))"

section \<open>Codec laws\<close>

lemma input_text_length:
  "validate_input_event e = Inr () \<Longrightarrow> length (ie_text e) \<le> maximum_input_text_size"
  by (auto simp: validate_input_event_def result_simps split: if_splits)

lemma encode_input_event_eq:
  "encode_input_event e = Inr bs \<longleftrightarrow> validate_input_event e = Inr () \<and>
     bs = input_magic @ put_u8 1 @ put_u8 (ie_kind e) @ put_u8 (if ie_pressed e then 1 else 0) @
         put_u8 0 @ put_u64 (ie_sequence e) @ put_u64 (ie_occurred_at_us e) @
         put_u32 (ie_value_a e) @ put_u32 (ie_value_b e) @ put_u32 (of_nat (length (ie_text e))) @
         as_bytes (ie_text e)"
  using input_text_length [of e] by (auto simp: encode_input_event_def result_simps checked_u32_eq)

lemma input_event_codec: "decode_input_event bs = Inr e \<longleftrightarrow> encode_input_event e = Inr bs"
  using input_text_length [of e]
  by (cases e) (auto simp: decode_input_event_def encode_input_event_eq decode_simps result_simps Let_def
      length_prefix_iff flag_u8 string_of_bytes_eq_iff unat_of_nat_u32 not_less)

interpretation input_event_msg: message_codec "\<lambda>_. True" encode_input_event decode_input_event
  by unfold_locales (simp add: input_event_codec)

section \<open>What the host holds down\<close>

text \<open>The keys and buttons that are down after the calls of a trace.\<close>

fun hold_key :: "u32 set \<Rightarrow> backend_call \<Rightarrow> u32 set" where
  "hold_key S (Raw_key k p) = (if p then insert k S else S - {k})"
| "hold_key S _ = S"

fun hold_button :: "u8 set \<Rightarrow> backend_call \<Rightarrow> u8 set" where
  "hold_button S (Pointer_button b p) = (if p then insert b S else S - {b})"
| "hold_button S _ = S"

definition held_keys :: "backend_call list \<Rightarrow> u32 set" where
  "held_keys trace = foldl hold_key {} trace"

definition held_buttons :: "backend_call list \<Rightarrow> u8 set" where
  "held_buttons trace = foldl hold_button {} trace"

lemma held_simps [simp]:
  "held_keys [] = {}" "held_buttons [] = {}"
  "held_keys (tr @ [c]) = hold_key (held_keys tr) c"
  "held_buttons (tr @ [c]) = hold_button (held_buttons tr) c"
  by (simp_all add: held_keys_def held_buttons_def)

text \<open>The receiver knows everything the host holds down.\<close>

definition holds_known :: "input_receiver \<Rightarrow> bool" where
  "holds_known r \<longleftrightarrow> held_keys (ir_trace r) \<subseteq> fst ` set (ir_pressed_keys r) \<and>
     held_buttons (ir_trace r) \<subseteq> set (ir_pressed_buttons r)"

lemma fst_key_insert [simp]: "fst ` set (key_insert k v kvs) = insert k (fst ` set kvs)"
  by (induction k v kvs rule: key_insert.induct) auto

lemma fst_key_erase [simp]: "fst ` set (key_erase k kvs) = fst ` set kvs - {k}"
  by (auto simp: key_erase_def)

lemma set_button_erase [simp]: "set (button_erase b bs) = set bs - {b}"
  by (auto simp: button_erase_def)

text \<open>A call of the host with the bookkeeping that follows it.\<close>

lemma backend_bind:
  "c_bind (backend c) f r = (case ir_fails r (ir_trace r) c of
     Some e \<Rightarrow> (Inl e, r) | None \<Rightarrow> f () (r\<lparr>ir_trace := ir_trace r @ [c]\<rparr>))"
  by (simp add: c_bind_def backend_def split: option.split)

lemma known_key:
  assumes "holds_known r"
  shows "holds_known (r\<lparr>ir_trace := ir_trace r @ [Raw_key k True],
      ir_pressed_keys := key_insert k v (ir_pressed_keys r)\<rparr>)"
    "holds_known (r\<lparr>ir_trace := ir_trace r @ [Raw_key k False],
      ir_pressed_keys := key_erase k (ir_pressed_keys r)\<rparr>)"
  using assms by (auto simp: holds_known_def)

lemma known_button:
  assumes "holds_known r"
  shows "holds_known (r\<lparr>ir_trace := ir_trace r @ [Pointer_button b True],
      ir_pressed_buttons := insort_insert b (ir_pressed_buttons r)\<rparr>)"
    "holds_known (r\<lparr>ir_trace := ir_trace r @ [Pointer_button b False],
      ir_pressed_buttons := button_erase b (ir_pressed_buttons r)\<rparr>)"
  using assms by (auto simp: holds_known_def set_insort_insert)

lemma known_other:
  assumes "holds_known r"
  shows "holds_known (r\<lparr>ir_trace := ir_trace r @ [Text_commit t]\<rparr>)"
    "holds_known (r\<lparr>ir_trace := ir_trace r @ [Raw_key k False]\<rparr>)"
    "holds_known (r\<lparr>ir_trace := ir_trace r @ [Pointer_button b False]\<rparr>)"
    "holds_known (r\<lparr>ir_trace := ir_trace r @ [Pointer_move x y]\<rparr>)"
    "holds_known (r\<lparr>ir_trace := ir_trace r @ [Pointer_wheel d h]\<rparr>)"
    "holds_known (r\<lparr>ir_last_reliable_sequence := s\<rparr>)" "holds_known (r\<lparr>ir_last_pointer_sequence := s\<rparr>)"
  using assms by (auto simp: holds_known_def)

lemma dispatch_known: "holds_known r \<Longrightarrow> holds_known (snd (dispatch_input e r))"
  by (cases "ie_pressed e")
    (simp_all add: dispatch_input_def backend_bind known_key known_button known_other split: option.split)

lemma release_stale_known: "holds_known r \<Longrightarrow> holds_known (snd (release_stale ks r))"
proof (induction ks arbitrary: r)
  case (Cons k ks)
  then show ?case
    by (simp add: backend_bind known_key(2) split: option.split)
qed simp

lemma release_keys_known: "holds_known r \<Longrightarrow> holds_known (snd (release_keys ks r))"
  by (induction ks arbitrary: r) (simp_all add: backend_bind known_other split: option.split)

lemma release_buttons_known: "holds_known r \<Longrightarrow> holds_known (snd (release_buttons bs r))"
  by (induction bs arbitrary: r) (simp_all add: backend_bind known_other split: option.split)

text \<open>After releasing a list of keys none of them is held, and only the trace has changed.\<close>

lemma release_keys_held:
  "release_keys ks r = (Inr (), r') \<Longrightarrow>
     held_keys (ir_trace r') = held_keys (ir_trace r) - set ks \<and>
     held_buttons (ir_trace r') = held_buttons (ir_trace r) \<and> r' = r\<lparr>ir_trace := ir_trace r'\<rparr>"
proof (induction ks arbitrary: r)
  case (Cons k ks)
  then have "release_keys ks (r\<lparr>ir_trace := ir_trace r @ [Raw_key k False]\<rparr>) = (Inr (), r')"
    by (simp add: backend_bind split: option.splits)
  from Cons.IH [OF this] show ?case by auto
qed simp

lemma release_buttons_held:
  "release_buttons bs r = (Inr (), r') \<Longrightarrow>
     held_buttons (ir_trace r') = held_buttons (ir_trace r) - set bs \<and>
     held_keys (ir_trace r') = held_keys (ir_trace r) \<and> r' = r\<lparr>ir_trace := ir_trace r'\<rparr>"
proof (induction bs arbitrary: r)
  case (Cons b bs)
  then have "release_buttons bs (r\<lparr>ir_trace := ir_trace r @ [Pointer_button b False]\<rparr>) = (Inr (), r')"
    by (simp add: backend_bind split: option.splits)
  from Cons.IH [OF this] show ?case by auto
qed simp

lemma release_all_keys_success:
  assumes known: "holds_known r" and rel: "release_all_keys r = (Inr n, r')"
  shows "held_keys (ir_trace r') = {} \<and> holds_known r'"
proof -
  obtain r1 where r1: "release_keys (map fst (ir_pressed_keys r)) r = (Inr (), r1)"
    and r': "r' = r1\<lparr>ir_pressed_keys := []\<rparr>"
    using rel by (auto simp: release_all_keys_def result_simps)
  have "held_keys (ir_trace r1) = {}"
    using release_keys_held [OF r1] known by (auto simp: holds_known_def)
  moreover have "holds_known r1"
    using release_keys_known [OF known, of "map fst (ir_pressed_keys r)"] r1 by simp
  ultimately show ?thesis
    by (simp add: r' holds_known_def)
qed

lemma c_bind_known:
  assumes "holds_known (snd (m r))"
    and "\<And>x r'. m r = (Inr x, r') \<Longrightarrow> holds_known r' \<Longrightarrow> holds_known (snd (f x r'))"
  shows "holds_known (snd (c_bind m f r))"
  using assms by (cases "m r") (auto simp: c_bind_def split: sum.split)

lemma release_all_keys_known:
  assumes "holds_known r"
  shows "holds_known (snd (release_all_keys r))"
proof (cases "release_all_keys r")
  case (Pair res r')
  show ?thesis
  proof (cases res)
    case (Inr n)
    then show ?thesis
      using release_all_keys_success [OF assms] Pair by auto
  next
    case (Inl e)
    then show ?thesis
      using release_keys_known [OF assms, of "map fst (ir_pressed_keys r)"] Pair
      by (auto simp: release_all_keys_def c_bind_def split: prod.splits sum.splits)
  qed
qed

lemma release_all_input_success:
  assumes known: "holds_known r" and rel: "release_all_input r = (Inr n, r')"
  shows "held_keys (ir_trace r') = {} \<and> held_buttons (ir_trace r') = {}"
proof -
  obtain k r1 r2 where r1: "release_all_keys r = (Inr k, r1)"
    and r2: "release_buttons (ir_pressed_buttons r1) r1 = (Inr (), r2)"
    and r': "r' = r2\<lparr>ir_pressed_buttons := []\<rparr>"
    using rel by (auto simp: release_all_input_def result_simps)
  have "held_keys (ir_trace r1) = {}" "holds_known r1"
    using release_all_keys_success [OF known r1] by auto
  then show ?thesis
    using release_buttons_held [OF r2] by (auto simp: r' holds_known_def)
qed

lemma release_all_input_known:
  assumes "holds_known r"
  shows "holds_known (snd (release_all_input r))"
proof (cases "release_all_input r")
  case (Pair res r')
  show ?thesis
  proof (cases res)
    case (Inr n)
    then show ?thesis
      using release_all_input_success [OF assms] Pair by (simp add: holds_known_def)
  next
    case (Inl e)
    have "holds_known (snd (release_buttons bs r1))" if "holds_known r1" for bs r1
      by (rule release_buttons_known [OF that])
    then show ?thesis
      using release_all_keys_known [OF assms] Pair Inl
      by (auto simp: release_all_input_def c_bind_def split: prod.splits sum.splits) (metis snd_conv)+
  qed
qed

section \<open>The receiver under any sequence of calls\<close>

datatype input_call =
    In_receive input_event bool authorization_result
  | In_release_stuck u64 int
  | In_release_keys
  | In_release_all
  | In_epoch u64 bool

definition input_step :: "input_receiver \<Rightarrow> input_call \<Rightarrow> input_receiver" where
  "input_step r call = (case call of
     In_receive e reliable auth \<Rightarrow> snd (input_receive e reliable auth r)
   | In_release_stuck now hold \<Rightarrow> snd (release_stuck_keys now hold r)
   | In_release_keys \<Rightarrow> snd (release_all_keys r)
   | In_release_all \<Rightarrow> snd (release_all_input r)
   | In_epoch epoch release_all \<Rightarrow> snd (accept_input_epoch epoch release_all r))"

lemma input_receive_known: "holds_known r \<Longrightarrow> holds_known (snd (input_receive e reliable auth r))"
  by (simp add: input_receive_def backend_bind known_other dispatch_known split: sum.split option.split)
    (simp add: holds_known_def)

lemma release_stuck_known: "holds_known r \<Longrightarrow> holds_known (snd (release_stuck_keys now hold r))"
  unfolding release_stuck_keys_def Let_def
  by (auto intro!: c_bind_known release_stale_known)

lemma known_reset: "holds_known r \<Longrightarrow> holds_known (r\<lparr>ir_input_epoch := e,
    ir_last_reliable_sequence := a, ir_last_pointer_sequence := b\<rparr>)"
  by (simp add: holds_known_def)

lemma accept_epoch_known: "holds_known r \<Longrightarrow> holds_known (snd (accept_input_epoch epoch ra r))"
  unfolding accept_input_epoch_def
  by (auto intro!: c_bind_known release_all_input_known known_reset)

lemma input_step_known: "holds_known r \<Longrightarrow> holds_known (input_step r call)"
  by (cases call) (simp_all add: input_step_def input_receive_known release_stuck_known
      release_all_keys_known release_all_input_known accept_epoch_known)

interpretation receiver: invariant_machine input_step "new_input_receiver fails" holds_known for fails
  by unfold_locales (simp_all add: input_step_known, simp add: holds_known_def new_input_receiver_def)


text \<open>The call an event asks of the host.\<close>

definition host_call :: "input_event \<Rightarrow> backend_call" where
  "host_call e =
     (if ie_kind e = raw_key then Raw_key (ie_value_a e) (ie_pressed e)
      else if ie_kind e = text_commit then Text_commit (ie_text e)
      else if ie_kind e = pointer_move then Pointer_move (ucast (ie_value_a e)) (ucast (ie_value_b e))
      else if ie_kind e = pointer_button then Pointer_button (ucast (ie_value_a e)) (ie_pressed e)
      else Pointer_wheel (sint (ie_value_a e)) (ie_kind e = horizontal_wheel))"

lemma valid_kind:
  "validate_input_event e = Inr () \<Longrightarrow> ie_kind e \<noteq> pointer_move \<Longrightarrow>
     ie_kind e = raw_key \<or> ie_kind e = text_commit \<or> ie_kind e = pointer_button \<or>
     ie_kind e = vertical_wheel \<or> ie_kind e = horizontal_wheel"
  by (auto simp: validate_input_event_def split: if_splits)

lemma dispatch_input_effect:
  assumes "validate_input_event e = Inr ()" "ie_kind e \<noteq> pointer_move"
  shows "case ir_fails r (ir_trace r) (host_call e) of
     Some x \<Rightarrow> dispatch_input e r = (Inl x, r)
   | None \<Rightarrow> fst (dispatch_input e r) = Inr True \<and>
       ir_trace (snd (dispatch_input e r)) = ir_trace r @ [host_call e] \<and>
       ir_last_reliable_sequence (snd (dispatch_input e r)) = ir_last_reliable_sequence r \<and>
       ir_fails (snd (dispatch_input e r)) = ir_fails r"
  using assms valid_kind [OF assms]
  by (auto simp: dispatch_input_def host_call_def backend_bind enum_values split: option.split)

text \<open>The sequence numbers of the reliable events that are accepted.\<close>

fun accepted_sequences :: "authorization_result \<Rightarrow> input_event list \<Rightarrow> input_receiver \<Rightarrow> u64 list" where
  "accepted_sequences auth [] r = []"
| "accepted_sequences auth (e # es) r = (case input_receive e True auth r of
     (Inr True, r') \<Rightarrow> ie_sequence e # accepted_sequences auth es r'
   | (_, r') \<Rightarrow> accepted_sequences auth es r')"

lemma input_receive_reliable:
  assumes "ir_fails r = (\<lambda>_ _. None)" "ie_kind e \<noteq> pointer_move"
  shows "(\<exists>res. input_receive e True auth r = (res, r) \<and> res \<noteq> Inr True) \<or>
    (\<exists>r'. input_receive e True auth r = (Inr True, r') \<and> ir_fails r' = (\<lambda>_ _. None) \<and>
       ir_last_reliable_sequence r' = Some (ie_sequence e) \<and>
       (\<forall>s. ir_last_reliable_sequence r = Some s \<longrightarrow> ie_sequence e = s + 1))"
proof (cases "permits auth desktop_control \<and> validate_input_event e = Inr ()")
  case False
  then show ?thesis
    by (auto simp: input_receive_def split: sum.split)
next
  case True
  let ?r = "r\<lparr>ir_last_reliable_sequence := Some (ie_sequence e)\<rparr>"
  have d: "fst (dispatch_input e ?r) = Inr True"
    "ir_last_reliable_sequence (snd (dispatch_input e ?r)) = Some (ie_sequence e)"
    "ir_fails (snd (dispatch_input e ?r)) = (\<lambda>_ _. None)"
    using dispatch_input_effect [of e ?r] True assms by auto
  obtain r' where r': "dispatch_input e ?r = (Inr True, r')"
    using d(1) by (cases "dispatch_input e ?r") auto
  have goes: "input_receive e True auth r = dispatch_input e ?r \<Longrightarrow>
      (\<forall>s. ir_last_reliable_sequence r = Some s \<longrightarrow> ie_sequence e = s + 1) \<Longrightarrow> ?thesis"
    using d(2,3) r' by auto
  show ?thesis
  proof (cases "ir_last_reliable_sequence r")
    case None
    then show ?thesis
      using True assms(2) by (intro goes) (simp_all add: input_receive_def)
  next
    case (Some s)
    show ?thesis
    proof (cases "ie_sequence e \<le> s \<or> ie_sequence e \<noteq> s + 1")
      case True
      with \<open>permits auth desktop_control \<and> validate_input_event e = Inr ()\<close> assms(2) Some show ?thesis
        by (cases "ie_sequence e \<le> s") (auto simp: input_receive_def)
    next
      case False
      with True assms(2) Some show ?thesis
        by (intro goes) (auto simp: input_receive_def)
    qed
  qed
qed

lemma accepted_sequences_consecutive:
  "ir_fails r = (\<lambda>_ _. None) \<Longrightarrow> \<forall>e\<in>set es. ie_kind e \<noteq> pointer_move \<Longrightarrow>
   \<exists>s. accepted_sequences auth es r = map (\<lambda>i. s + of_nat i) [0..<length (accepted_sequences auth es r)] \<and>
     (\<forall>p. ir_last_reliable_sequence r = Some p \<longrightarrow> s = p + 1)"
proof (induction es arbitrary: r)
  case Nil
  then show ?case
    by (cases "ir_last_reliable_sequence r") auto
next
  case (Cons e es)
  have kind: "ie_kind e \<noteq> pointer_move" "\<forall>e\<in>set es. ie_kind e \<noteq> pointer_move"
    using Cons.prems(2) by auto
  consider (same) res where "input_receive e True auth r = (res, r)" "res \<noteq> Inr True"
    | (goes) r' where "input_receive e True auth r = (Inr True, r')" "ir_fails r' = (\<lambda>_ _. None)"
      "ir_last_reliable_sequence r' = Some (ie_sequence e)"
      "\<forall>s. ir_last_reliable_sequence r = Some s \<longrightarrow> ie_sequence e = s + 1"
    using input_receive_reliable [OF Cons.prems(1) kind(1), of auth] by blast
  then show ?case
  proof cases
    case same
    then have "accepted_sequences auth (e # es) r = accepted_sequences auth es r"
      by (auto split: sum.split bool.split)
    then show ?thesis
      using Cons.IH [OF Cons.prems(1) kind(2)] by simp
  next
    case goes
    let ?acc = "accepted_sequences auth es r'"
    have acc: "?acc = map (\<lambda>i. ie_sequence e + 1 + of_nat i) [0..<length ?acc]"
      using Cons.IH [OF goes(2) kind(2)] goes(3) by auto
    have "accepted_sequences auth (e # es) r = ie_sequence e # ?acc"
      using goes(1) by simp
    also have "\<dots> = map (\<lambda>i. ie_sequence e + of_nat i) [0..<Suc (length ?acc)]"
      by (subst acc) (simp add: upt_conv_Cons map_Suc_upt [symmetric] comp_def add.assoc del: upt_Suc)
    finally show ?thesis
      using goes(4) by (intro exI [of _ "ie_sequence e"]) simp
  qed
qed

section \<open>Properties\<close>

text \<open>Input events: the decoder accepts exactly the encodings of valid events.\<close>

theorem input_event_codec_exact:
  "(decode_input_event bs = Inr e) = (encode_input_event e = Inr bs)"
  using input_event_msg.decode_iff by simp

text \<open>C21. An event changes what the host sees only when the peer may control the desktop and the event is
  valid; then the host gets the one call the event asks for, a pointer move only if it is newer than
  the last, and any other event only over the reliable transport and in sequence.\<close>

theorem input_reaches_host_only_authorized:
  assumes "ir_trace (snd (input_receive e reliable auth r)) \<noteq> ir_trace r"
  shows "permits auth desktop_control \<and> validate_input_event e = Inr () \<and>
    ir_trace (snd (input_receive e reliable auth r)) = ir_trace r @ [host_call e] \<and>
    (if ie_kind e = pointer_move
     then \<forall>s. ir_last_pointer_sequence r = Some s \<longrightarrow> s < ie_sequence e
     else reliable \<and> (\<forall>s. ir_last_reliable_sequence r = Some s \<longrightarrow> ie_sequence e = s + 1))"
proof -
  have pv: "permits auth desktop_control" "validate_input_event e = Inr ()"
    using assms by (auto simp: input_receive_def split: if_splits sum.splits)
  show ?thesis
  proof (cases "ie_kind e = pointer_move")
    case True
    then show ?thesis
      using assms pv by (auto simp: input_receive_def backend_bind host_call_def enum_values not_le
          split: option.splits if_splits)
  next
    case False
    let ?r = "r\<lparr>ir_last_reliable_sequence := Some (ie_sequence e)\<rparr>"
    have "ir_trace (snd (dispatch_input e ?r)) = ir_trace r \<or>
        ir_trace (snd (dispatch_input e ?r)) = ir_trace r @ [host_call e]"
      using dispatch_input_effect [OF pv(2) False, of ?r] by (auto split: option.splits)
    then show ?thesis
      using assms pv False by (auto simp: input_receive_def split: option.splits if_splits)
  qed
qed

definition sample_control :: authorization_result where
  "sample_control = \<lparr>ar_principal_matched = True, ar_workspace_allowed = True,
     ar_granted = {desktop_control}, ar_denied = {}\<rparr>"

definition sample_key :: "u64 \<Rightarrow> bool \<Rightarrow> input_event" where
  "sample_key n p = \<lparr>ie_kind = raw_key, ie_sequence = n, ie_occurred_at_us = 1, ie_value_a = 4,
     ie_value_b = 0, ie_pressed = p, ie_text = []\<rparr>"

lemma sample_key_received:
  "input_receive (sample_key 1 True) True sample_control (new_input_receiver (\<lambda>_ _. None)) =
     (Inr True, (new_input_receiver (\<lambda>_ _. None))\<lparr>ir_trace := [Raw_key 4 True],
        ir_last_reliable_sequence := Some 1, ir_pressed_keys := [(4, 1)]\<rparr>)"
  by (simp add: input_receive_def sample_key_def sample_control_def permits_def validate_input_event_def
      enum_values dispatch_input_def backend_bind new_input_receiver_def)

theorem input_reaches_host_only_authorized_witness:
  "ir_trace (snd (input_receive (sample_key 1 True) True sample_control (new_input_receiver (\<lambda>_ _. None)))) =
     ir_trace (new_input_receiver (\<lambda>_ _. None)) @ [host_call (sample_key 1 True)]"
proof -
  have "ir_trace (snd (input_receive (sample_key 1 True) True sample_control (new_input_receiver (\<lambda>_ _. None))))
      \<noteq> ir_trace (new_input_receiver (\<lambda>_ _. None))"
    by (simp add: sample_key_received) (simp add: new_input_receiver_def)
  then show ?thesis
    using input_reaches_host_only_authorized by blast
qed

text \<open>C4. Nothing stays pressed: whatever events were received, and whichever calls of the host failed, a
  release of all input that succeeds leaves no key and no button held down on the host; so does the
  start of a new input epoch.\<close>

theorem release_all_leaves_nothing_held:
  assumes "r = foldl input_step (new_input_receiver fails) calls"
    and "release_all_input r = (Inr n, r') \<or>
      epoch > ir_input_epoch r \<and> accept_input_epoch epoch release_all r = (Inr b, r')"
  shows "held_keys (ir_trace r') = {} \<and> held_buttons (ir_trace r') = {}"
proof -
  have known: "holds_known r"
    unfolding assms(1) by (rule receiver.run_inv)
  from assms(2) show ?thesis
  proof
    assume "release_all_input r = (Inr n, r')"
    then show ?thesis
      by (rule release_all_input_success [OF known])
  next
    assume "epoch > ir_input_epoch r \<and> accept_input_epoch epoch release_all r = (Inr b, r')"
    then obtain m r1 where "release_all_input r = (Inr m, r1)"
        "r' = r1\<lparr>ir_input_epoch := epoch, ir_last_reliable_sequence := None, ir_last_pointer_sequence := None\<rparr>"
      by (auto simp: accept_input_epoch_def result_simps split: if_splits)
    then show ?thesis
      using release_all_input_success [OF known] by simp
  qed
qed

theorem release_all_leaves_nothing_held_witness:
  "held_keys (ir_trace (snd (release_all_input (foldl input_step (new_input_receiver (\<lambda>_ _. None))
     [In_receive (sample_key 1 True) True sample_control])))) = {}"
proof -
  let ?r = "foldl input_step (new_input_receiver (\<lambda>_ _. None)) [In_receive (sample_key 1 True) True sample_control]"
  have r: "?r = (new_input_receiver (\<lambda>_ _. None))\<lparr>ir_trace := [Raw_key 4 True],
        ir_last_reliable_sequence := Some 1, ir_pressed_keys := [(4, 1)]\<rparr>"
    by (simp add: input_step_def sample_key_received)
  have "release_all_input ?r = (Inr 1, snd (release_all_input ?r))"
    unfolding r by (simp add: release_all_input_def release_all_keys_def c_bind_def
        backend_def new_input_receiver_def)
  then show ?thesis
    using release_all_leaves_nothing_held [OF refl, of "\<lambda>_ _. None"
        "[In_receive (sample_key 1 True) True sample_control]" 1 "snd (release_all_input ?r)" 0 False False]
    by blast
qed

text \<open>Of the key, text, button and wheel events that arrive over the reliable transport, a host that
  does not fail accepts a run of consecutive sequence numbers, in order and each once, continuing the
  last accepted one.\<close>

theorem reliable_input_in_sequence:
  assumes "ir_fails r = (\<lambda>_ _. None)" "\<forall>e\<in>set es. ie_kind e \<noteq> pointer_move"
  shows "\<exists>s. accepted_sequences auth es r =
      map (\<lambda>i. s + of_nat i) [0..<length (accepted_sequences auth es r)] \<and>
    (\<forall>p. ir_last_reliable_sequence r = Some p \<longrightarrow> s = p + 1)"
  using assms by (rule accepted_sequences_consecutive)

theorem reliable_input_in_sequence_witness:
  "\<exists>s. accepted_sequences sample_control [sample_key 1 True, sample_key 3 True, sample_key 2 False]
       (new_input_receiver (\<lambda>_ _. None)) =
     map (\<lambda>i. s + of_nat i) [0..<length (accepted_sequences sample_control
       [sample_key 1 True, sample_key 3 True, sample_key 2 False] (new_input_receiver (\<lambda>_ _. None)))]"
  using reliable_input_in_sequence [of "new_input_receiver (\<lambda>_ _. None)"
      "[sample_key 1 True, sample_key 3 True, sample_key 2 False]" sample_control]
  by (auto simp: new_input_receiver_def sample_key_def enum_values)

text \<open>The check of a reverse control payload passes exactly when the header is valid, the sizes agree
  and the payload is what the type asks for: an input event, an acknowledgement, or nothing.\<close>

theorem reverse_control_payload_validation:
  "(validate_reverse_control_payload h payload = Inr ()) =
   (validate_reverse_control_header h = Inr () \<and> length payload = unat (rh_payload_size h) \<and>
    (if rh_type h = rc_input_event then \<exists>e. encode_input_event e = Inr payload
     else if rh_type h = rc_frame_commit_ack
     then \<exists>ack. length (ack_canonical_sha256 ack) = 32 \<and> encode_frame_commit_ack ack = Inr payload
     else payload = []))"
proof -
  have types: "rh_type h = rc_input_event \<or> rh_type h = rc_release_all_input \<or>
      rh_type h = rc_request_full_snapshot \<or> rh_type h = rc_frame_commit_ack \<or> rh_type h = rc_ping"
    if "validate_reverse_control_header h = Inr ()"
  proof -
    have "rc_input_event \<le> rh_type h" "rh_type h \<le> rc_ping"
      using that by (auto simp: validate_reverse_control_header_def result_simps not_less)
    then have "1 \<le> unat (rh_type h)" "unat (rh_type h) \<le> 5"
      by (simp_all add: enum_values word_le_nat_alt)
    then have "unat (rh_type h) \<in> {1, 2, 3, 4, 5}"
      by auto
    then show ?thesis
      by (auto simp: enum_values word_unat_eq_iff)
  qed
  have nonempty: "payload \<noteq> []" if "encode_input_event e = Inr payload" for e
    using that by (auto simp: encode_input_event_eq dest: arg_cong [of _ _ length])
  show ?thesis
    using types nonempty unfolding validate_reverse_control_payload_def
    by (auto simp: result_simps checks_def input_event_codec ack_codec enum_values)
qed

end
