(* ===== verification/Framebuffer.thy ===== *)
theory Framebuffer
  imports Visual_Payloads
begin

text \<open>
  \<open>CanonicalFramebufferState\<close> of \<open>desktop/src/desktop.cpp\<close>: which representation the stream is in,
  which frame is committed and how exactly, which rectangle transaction is pending, and which commit
  is still to be acknowledged. No member function throws.
\<close>

datatype visual_representation = repr_video | repr_snapshot | repr_rect | repr_recovery

datatype framebuffer_quality = quality_unavailable | quality_lossy | quality_exact

record framebuffer =
  fb_representation :: visual_representation
  fb_quality :: framebuffer_quality
  fb_representation_epoch :: u64
  fb_committed_frame_id :: u64
  fb_present_submitted_frame_id :: u64
  fb_pending_rect_base :: u64
  fb_pending_rect_target :: u64
  fb_ack_frame_id :: "u64 option"

definition new_framebuffer :: framebuffer where
  "new_framebuffer = \<lparr>fb_representation = repr_recovery, fb_quality = quality_unavailable,
     fb_representation_epoch = 0, fb_committed_frame_id = 0, fb_present_submitted_frame_id = 0,
     fb_pending_rect_base = 0, fb_pending_rect_target = 0, fb_ack_frame_id = None\<rparr>"

definition enter_representation ::
  "visual_representation \<Rightarrow> u64 \<Rightarrow> framebuffer \<Rightarrow> bool \<times> framebuffer" where
  "enter_representation representation epoch fb =
     (if epoch = 0 \<or> epoch < fb_representation_epoch fb then (False, fb)
      else if epoch = fb_representation_epoch fb
      then (representation = fb_representation fb, fb)
      else (True, fb\<lparr>fb_representation := representation, fb_representation_epoch := epoch,
        fb_pending_rect_base := 0, fb_pending_rect_target := 0, fb_ack_frame_id := None\<rparr>))"

definition commit_video :: "u64 \<Rightarrow> u64 \<Rightarrow> framebuffer \<Rightarrow> bool \<times> framebuffer" where
  "commit_video epoch frame_id fb =
     (if epoch \<noteq> fb_representation_epoch fb \<or> fb_representation fb \<noteq> repr_video \<or> frame_id = 0 \<or>
         frame_id < fb_committed_frame_id fb
      then (False, fb)
      else (True, fb\<lparr>fb_committed_frame_id := frame_id, fb_quality := quality_lossy,
        fb_pending_rect_base := 0, fb_pending_rect_target := 0, fb_ack_frame_id := None\<rparr>))"

definition can_commit_snapshot :: "u64 \<Rightarrow> u64 \<Rightarrow> framebuffer \<Rightarrow> bool" where
  "can_commit_snapshot epoch frame_id fb \<longleftrightarrow> epoch = fb_representation_epoch fb \<and>
     fb_representation fb = repr_snapshot \<and> frame_id \<noteq> 0 \<and> frame_id \<ge> fb_committed_frame_id fb"

definition commit_snapshot :: "u64 \<Rightarrow> u64 \<Rightarrow> framebuffer \<Rightarrow> bool \<times> framebuffer" where
  "commit_snapshot epoch frame_id fb =
     (if \<not> can_commit_snapshot epoch frame_id fb then (False, fb)
      else (True, fb\<lparr>fb_committed_frame_id := frame_id, fb_quality := quality_exact,
        fb_pending_rect_base := 0, fb_pending_rect_target := 0, fb_ack_frame_id := Some frame_id\<rparr>))"

definition begin_rect :: "u64 \<Rightarrow> u64 \<Rightarrow> u64 \<Rightarrow> framebuffer \<Rightarrow> bool \<times> framebuffer" where
  "begin_rect epoch base_frame_id target_frame_id fb =
     (if epoch \<noteq> fb_representation_epoch fb \<or> fb_representation fb \<noteq> repr_rect \<or>
         fb_quality fb \<noteq> quality_exact \<or> base_frame_id = 0 \<or> target_frame_id \<le> base_frame_id \<or>
         fb_committed_frame_id fb \<noteq> base_frame_id \<or> fb_pending_rect_target fb \<noteq> 0
      then (False, fb)
      else (True, fb\<lparr>fb_pending_rect_base := base_frame_id,
             fb_pending_rect_target := target_frame_id\<rparr>))"

definition commit_rect :: "u64 \<Rightarrow> u64 \<Rightarrow> u64 \<Rightarrow> framebuffer \<Rightarrow> bool \<times> framebuffer" where
  "commit_rect epoch base_frame_id target_frame_id fb =
     (if epoch \<noteq> fb_representation_epoch fb \<or> fb_representation fb \<noteq> repr_rect \<or>
         fb_quality fb \<noteq> quality_exact \<or> fb_pending_rect_base fb \<noteq> base_frame_id \<or>
         fb_pending_rect_target fb \<noteq> target_frame_id \<or> fb_committed_frame_id fb \<noteq> base_frame_id
      then (False, fb)
      else (True, fb\<lparr>fb_committed_frame_id := target_frame_id, fb_pending_rect_base := 0,
        fb_pending_rect_target := 0, fb_ack_frame_id := Some target_frame_id\<rparr>))"

definition cancel_rect :: "u64 \<Rightarrow> framebuffer \<Rightarrow> framebuffer" where
  "cancel_rect epoch fb =
     (if epoch \<noteq> fb_representation_epoch fb then fb
      else fb\<lparr>fb_pending_rect_base := 0, fb_pending_rect_target := 0, fb_ack_frame_id := None\<rparr>)"

definition present_submitted :: "u64 \<Rightarrow> framebuffer \<Rightarrow> framebuffer" where
  "present_submitted frame_id fb =
     (if frame_id \<le> fb_committed_frame_id fb
      then fb\<lparr>fb_present_submitted_frame_id := max (fb_present_submitted_frame_id fb) frame_id\<rparr>
      else fb)"

definition take_commit_ack ::
  "u64 \<Rightarrow> byte list \<Rightarrow> framebuffer \<Rightarrow> frame_commit_ack option \<times> framebuffer" where
  "take_commit_ack session_generation canonical_sha256 fb =
     (if session_generation = 0 then (None, fb)
      else (case fb_ack_frame_id fb of
        None \<Rightarrow> (None, fb)
      | Some frame_id \<Rightarrow>
          (Some \<lparr>ack_session_generation = session_generation,
             ack_representation_epoch = fb_representation_epoch fb, ack_frame_id = frame_id,
             ack_canonical_sha256 = canonical_sha256\<rparr>,
           fb\<lparr>fb_ack_frame_id := None\<rparr>)))"

section \<open>The state machine\<close>

datatype framebuffer_call =
    Fb_enter visual_representation u64
  | Fb_commit_video u64 u64
  | Fb_commit_snapshot u64 u64
  | Fb_begin_rect u64 u64 u64
  | Fb_commit_rect u64 u64 u64
  | Fb_cancel_rect u64
  | Fb_present u64
  | Fb_take_ack u64 "byte list"

definition framebuffer_step :: "framebuffer \<Rightarrow> framebuffer_call \<Rightarrow> framebuffer" where
  "framebuffer_step fb call = (case call of
     Fb_enter r e \<Rightarrow> snd (enter_representation r e fb)
   | Fb_commit_video e f \<Rightarrow> snd (commit_video e f fb)
   | Fb_commit_snapshot e f \<Rightarrow> snd (commit_snapshot e f fb)
   | Fb_begin_rect e b t \<Rightarrow> snd (begin_rect e b t fb)
   | Fb_commit_rect e b t \<Rightarrow> snd (commit_rect e b t fb)
   | Fb_cancel_rect e \<Rightarrow> cancel_rect e fb
   | Fb_present f \<Rightarrow> present_submitted f fb
   | Fb_take_ack g d \<Rightarrow> snd (take_commit_ack g d fb))"

lemmas framebuffer_op_defs =
  enter_representation_def commit_video_def can_commit_snapshot_def commit_snapshot_def begin_rect_def
  commit_rect_def cancel_rect_def present_submitted_def take_commit_ack_def

text \<open>
  The invariant: what is presented is committed; exact quality has a committed frame; an
  acknowledgement is owed only for the committed frame at exact quality; a pending transaction is on
  top of the committed, exact frame.
\<close>

definition framebuffer_wf :: "framebuffer \<Rightarrow> bool" where
  "framebuffer_wf fb \<longleftrightarrow>
     fb_present_submitted_frame_id fb \<le> fb_committed_frame_id fb \<and>
     (fb_quality fb = quality_exact \<longrightarrow> fb_committed_frame_id fb \<noteq> 0) \<and>
     (\<forall>f. fb_ack_frame_id fb = Some f \<longrightarrow>
        f = fb_committed_frame_id fb \<and> fb_quality fb = quality_exact \<and>
        fb_representation_epoch fb \<noteq> 0) \<and>
     (fb_pending_rect_target fb = 0 \<longrightarrow> fb_pending_rect_base fb = 0) \<and>
     (fb_pending_rect_target fb \<noteq> 0 \<longrightarrow>
        fb_representation fb = repr_rect \<and> fb_quality fb = quality_exact \<and>
        fb_pending_rect_base fb = fb_committed_frame_id fb \<and>
        fb_pending_rect_base fb < fb_pending_rect_target fb) \<and>
     (fb_representation_epoch fb = 0 \<longrightarrow> fb_representation fb = repr_recovery)"

lemma framebuffer_wf_new: "framebuffer_wf new_framebuffer"
  by (simp add: framebuffer_wf_def new_framebuffer_def)

text \<open>Without a transaction and without an acknowledgement owed, little is left of it.\<close>

lemma framebuffer_wf_idle:
  assumes "fb_pending_rect_target fb = 0" "fb_pending_rect_base fb = 0" "fb_ack_frame_id fb = None"
    and "fb_present_submitted_frame_id fb \<le> fb_committed_frame_id fb"
    and "fb_quality fb = quality_exact \<Longrightarrow> fb_committed_frame_id fb \<noteq> 0"
    and "fb_representation_epoch fb = 0 \<Longrightarrow> fb_representation fb = repr_recovery"
  shows "framebuffer_wf fb"
  using assms by (simp add: framebuffer_wf_def)

lemma framebuffer_wfD:
  assumes "framebuffer_wf fb"
  shows "fb_present_submitted_frame_id fb \<le> fb_committed_frame_id fb"
    and "fb_quality fb = quality_exact \<Longrightarrow> fb_committed_frame_id fb \<noteq> 0"
    and "fb_representation_epoch fb = 0 \<Longrightarrow> fb_representation fb = repr_recovery"
    and "fb_ack_frame_id fb = Some f \<Longrightarrow> f = fb_committed_frame_id fb"
    and "fb_ack_frame_id fb = Some f \<Longrightarrow> fb_quality fb = quality_exact"
    and "fb_ack_frame_id fb = Some f \<Longrightarrow> fb_representation_epoch fb \<noteq> 0"
    and "fb_pending_rect_base fb \<noteq> 0 \<Longrightarrow> fb_pending_rect_base fb < fb_pending_rect_target fb"
  using assms by (simp_all add: framebuffer_wf_def) metis

text \<open>One lemma per operation.\<close>

lemma enter_representation_wf:
  assumes "framebuffer_wf fb"
  shows "framebuffer_wf (snd (enter_representation r e fb))"
proof (cases "e = 0 \<or> e < fb_representation_epoch fb \<or> e = fb_representation_epoch fb")
  case False
  then show ?thesis
    using framebuffer_wfD(1,2) [OF assms]
    by (intro framebuffer_wf_idle) (simp_all add: enter_representation_def)
qed (use assms in \<open>auto simp only: enter_representation_def if_True if_False simp_thms snd_conv split: if_split\<close>)

lemma commit_video_wf:
  assumes "framebuffer_wf fb"
  shows "framebuffer_wf (snd (commit_video e f fb))"
proof (cases "fst (commit_video e f fb)")
  case True
  then have "fb_committed_frame_id fb \<le> f" "fb_representation fb = repr_video"
    and upd: "snd (commit_video e f fb) = fb\<lparr>fb_committed_frame_id := f, fb_quality := quality_lossy,
        fb_pending_rect_base := 0, fb_pending_rect_target := 0, fb_ack_frame_id := None\<rparr>"
    by (auto simp: commit_video_def split: if_splits)
  then have "fb_present_submitted_frame_id fb \<le> f" "fb_representation_epoch fb \<noteq> 0"
    using framebuffer_wfD(3) [OF assms] order_trans [OF framebuffer_wfD(1) [OF assms]] by auto
  then show ?thesis
    by (simp add: upd framebuffer_wf_def)
next
  case False
  then have "snd (commit_video e f fb) = fb"
    by (auto simp: commit_video_def split: if_splits)
  then show ?thesis
    using assms by simp
qed

lemma commit_snapshot_wf:
  assumes "framebuffer_wf fb"
  shows "framebuffer_wf (snd (commit_snapshot e f fb))"
proof (cases "can_commit_snapshot e f fb")
  case True
  then have "fb_committed_frame_id fb \<le> f" "fb_representation fb = repr_snapshot" "f \<noteq> 0"
    by (simp_all add: can_commit_snapshot_def)
  then show ?thesis
    using True framebuffer_wfD(3) [OF assms] order_trans [OF framebuffer_wfD(1) [OF assms], of f]
    by (simp add: commit_snapshot_def framebuffer_wf_def) auto
qed (use assms in \<open>simp add: commit_snapshot_def\<close>)

lemma begin_rect_wf:
  assumes "framebuffer_wf fb"
  shows "framebuffer_wf (snd (begin_rect e b t fb))"
proof (cases "fst (begin_rect e b t fb)")
  case True
  then have "fb_representation fb = repr_rect" "fb_quality fb = quality_exact" "b \<noteq> 0" "b < t"
      "fb_committed_frame_id fb = b"
    and upd: "snd (begin_rect e b t fb) = fb\<lparr>fb_pending_rect_base := b, fb_pending_rect_target := t\<rparr>"
    by (auto simp: begin_rect_def split: if_splits)
  moreover from this have "t \<noteq> 0"
    by (metis word_not_simps(1))
  ultimately show ?thesis
    using assms by (simp add: upd framebuffer_wf_def)
next
  case False
  then have "snd (begin_rect e b t fb) = fb"
    by (auto simp: begin_rect_def split: if_splits)
  then show ?thesis
    using assms by simp
qed

lemma cancel_rect_wf:
  assumes "framebuffer_wf fb"
  shows "framebuffer_wf (cancel_rect e fb)"
  using assms framebuffer_wfD(1,2,3) [OF assms] by (simp add: cancel_rect_def) (simp add: framebuffer_wf_def)

lemma present_submitted_wf:
  assumes "framebuffer_wf fb"
  shows "framebuffer_wf (present_submitted f fb)"
proof (cases "f \<le> fb_committed_frame_id fb")
  case True
  then have "max (fb_present_submitted_frame_id fb) f \<le> fb_committed_frame_id fb"
    using framebuffer_wfD(1) [OF assms] by simp
  then show ?thesis
    using True assms by (simp add: present_submitted_def framebuffer_wf_def) metis
qed (use assms in \<open>simp add: present_submitted_def\<close>)

lemma take_commit_ack_wf:
  assumes "framebuffer_wf fb"
  shows "framebuffer_wf (snd (take_commit_ack g d fb))"
proof -
  have "framebuffer_wf (fb\<lparr>fb_ack_frame_id := None\<rparr>)"
    using assms by (simp add: framebuffer_wf_def) metis
  then show ?thesis
    using assms by (simp add: take_commit_ack_def split: option.split)
qed

lemma commit_rect_pending:
  assumes wf: "framebuffer_wf fb" and com: "commit_rect e b t fb = (True, fb')"
  shows "b < t" "b \<noteq> 0" "b = fb_committed_frame_id fb" "fb_quality fb = quality_exact"
    "fb_representation_epoch fb \<noteq> 0"
    "fb' = fb\<lparr>fb_committed_frame_id := t, fb_pending_rect_base := 0,
        fb_pending_rect_target := 0, fb_ack_frame_id := Some t\<rparr>"
proof -
  have fb: "fb_quality fb = quality_exact" "fb_pending_rect_base fb = b" "fb_pending_rect_target fb = t"
    "fb_committed_frame_id fb = b" "fb_representation fb = repr_rect"
    and upd: "fb' = fb\<lparr>fb_committed_frame_id := t, fb_pending_rect_base := 0,
        fb_pending_rect_target := 0, fb_ack_frame_id := Some t\<rparr>"
    using com by (simp_all add: commit_rect_def split: if_splits)
  have "b \<noteq> 0"
    using framebuffer_wfD(2) [OF wf] fb by simp
  moreover from this have "b < t"
    using framebuffer_wfD(7) [OF wf] fb by simp
  moreover have "fb_representation_epoch fb \<noteq> 0"
    using framebuffer_wfD(3) [OF wf] fb by auto
  ultimately show "b < t" "b \<noteq> 0" "b = fb_committed_frame_id fb" "fb_quality fb = quality_exact"
    "fb_representation_epoch fb \<noteq> 0"
    "fb' = fb\<lparr>fb_committed_frame_id := t, fb_pending_rect_base := 0,
        fb_pending_rect_target := 0, fb_ack_frame_id := Some t\<rparr>"
    using fb upd by simp_all
qed

lemma commit_rect_wf:
  assumes "framebuffer_wf fb"
  shows "framebuffer_wf (snd (commit_rect e b t fb))"
proof (cases "fst (commit_rect e b t fb)")
  case True
  then have com: "commit_rect e b t fb = (True, snd (commit_rect e b t fb))"
    by (metis prod.collapse)
  note p = commit_rect_pending [OF assms com]
  have "fb_present_submitted_frame_id fb \<le> t" "t \<noteq> 0"
    using framebuffer_wfD(1) [OF assms] p(1,3) by (simp, metis word_not_simps(1))
  then show ?thesis
    using p(4,5) framebuffer_wfD(3) [OF assms] by (subst p(6)) (simp add: framebuffer_wf_def)
next
  case False
  then have "snd (commit_rect e b t fb) = fb"
    by (auto simp: commit_rect_def split: if_splits)
  then show ?thesis
    using assms by simp
qed

lemma framebuffer_step_wf: "framebuffer_wf fb \<Longrightarrow> framebuffer_wf (framebuffer_step fb call)"
  by (cases call) (simp_all add: framebuffer_step_def enter_representation_wf commit_video_wf
      commit_snapshot_wf begin_rect_wf commit_rect_wf cancel_rect_wf present_submitted_wf take_commit_ack_wf)

text \<open>No call takes the committed frame or the epoch back.\<close>

lemma framebuffer_step_committed:
  assumes "framebuffer_wf fb"
  shows "fb_committed_frame_id fb \<le> fb_committed_frame_id (framebuffer_step fb call)"
proof (cases call)
  case (Fb_commit_rect e b t)
  show ?thesis
  proof (cases "fst (commit_rect e b t fb)")
    case True
    then have com: "commit_rect e b t fb = (True, snd (commit_rect e b t fb))"
      by (metis prod.collapse)
    note p = commit_rect_pending [OF assms com]
    have "fb_committed_frame_id (snd (commit_rect e b t fb)) = t"
      by (subst p(6)) simp
    then show ?thesis
      unfolding Fb_commit_rect framebuffer_step_def using p(1,3) by simp
  next
    case False
    then have "snd (commit_rect e b t fb) = fb"
      by (auto simp: commit_rect_def split: if_splits)
    then show ?thesis
      unfolding Fb_commit_rect framebuffer_step_def by simp
  qed
qed (simp_all add: framebuffer_step_def framebuffer_op_defs not_less split: option.split)

lemma framebuffer_step_epoch:
  "fb_representation_epoch fb \<le> fb_representation_epoch (framebuffer_step fb call)"
  by (cases call) (auto simp: framebuffer_step_def framebuffer_op_defs not_less split: option.split)

interpretation committed: monotone_machine framebuffer_step new_framebuffer framebuffer_wf
  fb_committed_frame_id
  by unfold_locales (rule framebuffer_wf_new, rule framebuffer_step_wf, assumption,
      rule framebuffer_step_committed)

interpretation epoch: monotone_machine framebuffer_step new_framebuffer framebuffer_wf
  fb_representation_epoch
  by unfold_locales (rule framebuffer_step_epoch)

section \<open>The history of commits\<close>

text \<open>What a run committed, the newest first.\<close>

datatype commit = Committed_video u64 | Committed_snapshot u64 | Committed_rects u64 u64

definition commit_of :: "framebuffer \<Rightarrow> framebuffer_call \<Rightarrow> commit list" where
  "commit_of fb call = (case call of
     Fb_commit_video e f \<Rightarrow> if fst (commit_video e f fb) then [Committed_video f] else []
   | Fb_commit_snapshot e f \<Rightarrow> if fst (commit_snapshot e f fb) then [Committed_snapshot f] else []
   | Fb_commit_rect e b t \<Rightarrow> if fst (commit_rect e b t fb) then [Committed_rects b t] else []
   | _ \<Rightarrow> [])"

fun commit_history :: "framebuffer_call list \<Rightarrow> framebuffer \<Rightarrow> commit list" where
  "commit_history [] fb = []"
| "commit_history (call # calls) fb =
     commit_history calls (framebuffer_step fb call) @ commit_of fb call"

text \<open>
  The frame a history leaves exactly known: a snapshot gives its frame, and rectangles lead from the
  frame they are based on to their target; after a video frame nothing is known exactly.
\<close>

fun exact_frame :: "commit list \<Rightarrow> u64 option" where
  "exact_frame [] = None"
| "exact_frame (Committed_video f # h) = None"
| "exact_frame (Committed_snapshot f # h) = Some f"
| "exact_frame (Committed_rects b t # h) = (if exact_frame h = Some b then Some t else None)"

text \<open>Exact quality is justified by the history.\<close>

definition justified :: "commit list \<Rightarrow> framebuffer \<Rightarrow> bool" where
  "justified h fb \<longleftrightarrow> (fb_quality fb = quality_exact \<longrightarrow> exact_frame h = Some (fb_committed_frame_id fb))"

lemma justified_step:
  assumes "justified h fb"
  shows "justified (commit_of fb call @ h) (framebuffer_step fb call)"
  using assms
  by (cases call)
    (auto simp: justified_def commit_of_def framebuffer_step_def framebuffer_op_defs split: option.split)

lemma justified_run: "justified h fb \<Longrightarrow> justified (commit_history calls fb @ h) (foldl framebuffer_step fb calls)"
proof (induction calls arbitrary: fb h)
  case (Cons call calls)
  then show ?case
    using Cons.IH [OF justified_step [OF Cons.prems]] by simp
qed simp

lemma exact_run:
  "fb_quality (foldl framebuffer_step new_framebuffer calls) = quality_exact \<Longrightarrow>
     exact_frame (commit_history calls new_framebuffer) =
       Some (fb_committed_frame_id (foldl framebuffer_step new_framebuffer calls))"
  using justified_run [of "[]" new_framebuffer calls] by (simp add: justified_def new_framebuffer_def)

section \<open>Properties\<close>

text \<open>C3. An acknowledgement is handed out only for a frame whose content is exactly known: it names the
  committed frame, and the commits of the run lead to it from a full snapshot through rectangle
  transactions each based on the frame before, with no video frame in between.\<close>

theorem ack_only_for_exact_frame:
  assumes "fst (take_commit_ack g d (foldl framebuffer_step new_framebuffer calls)) = Some ack"
  shows "exact_frame (commit_history calls new_framebuffer) = Some (ack_frame_id ack) \<and>
    ack_frame_id ack = fb_committed_frame_id (foldl framebuffer_step new_framebuffer calls) \<and>
    frame_commit_ack_matches ack g (fb_representation_epoch (foldl framebuffer_step new_framebuffer calls))
      (ack_frame_id ack) d \<and>
    fst (take_commit_ack g d (snd (take_commit_ack g d (foldl framebuffer_step new_framebuffer calls)))) = None"
proof -
  let ?fb = "foldl framebuffer_step new_framebuffer calls"
  have wf: "framebuffer_wf ?fb"
    by (rule committed.run_inv)
  have ack: "g \<noteq> 0" "fb_ack_frame_id ?fb = Some (ack_frame_id ack)"
      "ack_session_generation ack = g" "ack_canonical_sha256 ack = d"
      "ack_representation_epoch ack = fb_representation_epoch ?fb"
    using assms by (auto simp: take_commit_ack_def split: if_splits option.splits)
  then have com: "ack_frame_id ack = fb_committed_frame_id ?fb" "fb_quality ?fb = quality_exact"
      "fb_representation_epoch ?fb \<noteq> 0" "fb_committed_frame_id ?fb \<noteq> 0"
    using framebuffer_wfD(4,5,6) [OF wf ack(2)] framebuffer_wfD(2) [OF wf] by simp_all
  then show ?thesis
    using exact_run [OF com(2)] ack
    by (simp add: frame_commit_ack_matches_def) (simp add: take_commit_ack_def split: option.split)
qed

theorem ack_only_for_exact_frame_witness:
  "\<exists>ack. fst (take_commit_ack 3 (replicate 32 0) (foldl framebuffer_step new_framebuffer
      [Fb_enter repr_snapshot 1, Fb_commit_snapshot 1 5, Fb_enter repr_rect 2, Fb_begin_rect 2 5 6,
       Fb_commit_rect 2 5 6])) = Some ack \<and> ack_frame_id ack = 6"
proof -
  let ?calls = "[Fb_enter repr_snapshot 1, Fb_commit_snapshot 1 5, Fb_enter repr_rect 2, Fb_begin_rect 2 5 6,
       Fb_commit_rect 2 5 6]"
  obtain ack where ack: "fst (take_commit_ack 3 (replicate 32 0) (foldl framebuffer_step new_framebuffer ?calls)) = Some ack"
    by (simp add: framebuffer_step_def framebuffer_op_defs new_framebuffer_def)
  have "ack_frame_id ack = fb_committed_frame_id (foldl framebuffer_step new_framebuffer ?calls)"
    using ack_only_for_exact_frame [OF ack] by blast
  also have "\<dots> = 6"
    by (simp add: framebuffer_step_def framebuffer_op_defs new_framebuffer_def)
  finally show ?thesis
    using ack by blast
qed

text \<open>In every state that any sequence of calls reaches, what was presented is committed, and no later
  call takes the committed frame or the representation epoch back.\<close>

theorem framebuffer_never_goes_back:
  "fb_present_submitted_frame_id (foldl framebuffer_step new_framebuffer calls)
     \<le> fb_committed_frame_id (foldl framebuffer_step new_framebuffer calls) \<and>
   fb_committed_frame_id (foldl framebuffer_step new_framebuffer calls)
     \<le> fb_committed_frame_id (foldl framebuffer_step new_framebuffer (calls @ later)) \<and>
   fb_representation_epoch (foldl framebuffer_step new_framebuffer calls)
     \<le> fb_representation_epoch (foldl framebuffer_step new_framebuffer (calls @ later))"
  using committed.run_inv [of calls] committed.run_level [OF committed.run_inv, of calls later]
    epoch.run_level [OF committed.run_inv, of calls later]
  by (simp add: framebuffer_wf_def)

text \<open>A rectangle transaction commits only on top of the exact frame it was begun on: the target is
  newer than the base, the base is the committed frame, and it is exactly known.\<close>

theorem rect_commit_on_exact_base:
  assumes "commit_rect e b t (foldl framebuffer_step new_framebuffer calls) = (True, fb')"
  shows "b < t \<and> b \<noteq> 0 \<and> exact_frame (commit_history calls new_framebuffer) = Some b \<and>
    fb_committed_frame_id fb' = t \<and> fb_quality fb' = quality_exact"
proof -
  let ?fb = "foldl framebuffer_step new_framebuffer calls"
  have wf: "framebuffer_wf ?fb"
    by (rule committed.run_inv)
  note pending = commit_rect_pending [OF wf assms]
  have "exact_frame (commit_history calls new_framebuffer) = Some b"
    using exact_run [OF pending(4)] pending(3) by simp
  then show ?thesis
    using pending by simp
qed

theorem rect_commit_on_exact_base_witness:
  "\<exists>fb'. commit_rect 2 5 6 (foldl framebuffer_step new_framebuffer [Fb_enter repr_snapshot 1,
      Fb_commit_snapshot 1 5, Fb_enter repr_rect 2, Fb_begin_rect 2 5 6]) = (True, fb') \<and>
     fb_committed_frame_id fb' = 6"
proof -
  let ?calls = "[Fb_enter repr_snapshot 1, Fb_commit_snapshot 1 5, Fb_enter repr_rect 2, Fb_begin_rect 2 5 6]"
  obtain fb' where fb': "commit_rect 2 5 6 (foldl framebuffer_step new_framebuffer ?calls) = (True, fb')"
    by (simp add: framebuffer_step_def framebuffer_op_defs new_framebuffer_def)
  then show ?thesis
    using rect_commit_on_exact_base [OF fb'] by blast
qed

end
