(* ===== verification/Snapshot.thy ===== *)
theory Snapshot
  imports Visual_Payloads
begin

text \<open>
  Transactions of the visual stream in \<open>desktop/src/desktop.cpp\<close>: the guard that assembles a full
  snapshot from chunks (\<open>FullSnapshotAssemblyGuard\<close>), the plan that cuts a snapshot into bursts of wire
  chunks (\<open>SnapshotWireDrainPlan\<close>) and the guard of a transaction of raw rectangles
  (\<open>RawRectTransactionGuard\<close>). The member functions return whether they accepted their argument and
  throw nothing.
\<close>

section \<open>Assembling a snapshot\<close>

record full_snapshot_guard =
  sg_active :: bool
  sg_session_generation :: u64
  sg_representation_epoch :: u64
  sg_frame_id :: u64
  sg_width :: u32
  sg_height :: u32
  sg_row_stride :: u32
  sg_total_bytes :: u32
  sg_next_offset :: u32

definition new_snapshot_guard :: full_snapshot_guard where
  "new_snapshot_guard = \<lparr>sg_active = False, sg_session_generation = 0, sg_representation_epoch = 0,
     sg_frame_id = 0, sg_width = 0, sg_height = 0, sg_row_stride = 0, sg_total_bytes = 0,
     sg_next_offset = 0\<rparr>"

definition snapshot_begin ::
  "visual_message_header \<Rightarrow> visual_full_snapshot_chunk \<Rightarrow> full_snapshot_guard \<Rightarrow>
     bool \<times> full_snapshot_guard" where
  "snapshot_begin header first g =
     (let expected_stride = ucast (sc_surface_width first) * 4 :: u64;
          expected_total = expected_stride * ucast (sc_surface_height first)
      in if sg_active g \<or> vh_type header \<noteq> full_snapshot \<or>
            vh_session_generation header = 0 \<or> vh_representation_epoch header = 0 \<or>
            vh_frame_id header = 0 \<or> sc_chunk_offset first \<noteq> 0 \<or>
            sc_chunk first = [] \<or> sc_total_bytes first = 0 \<or>
            length (sc_chunk first) > unat (sc_total_bytes first) \<or>
            sc_pixel_format first \<noteq> bgra8_premultiplied_srgb \<or>
            sc_surface_width first = 0 \<or> sc_surface_height first = 0 \<or>
            sc_surface_width first > maximum_preview_width \<or>
            sc_surface_height first > maximum_preview_height \<or>
            expected_stride \<noteq> ucast (sc_row_stride first) \<or>
            expected_total \<noteq> ucast (sc_total_bytes first) \<or>
            unat expected_total > maximum_snapshot_total_bytes
         then (False, g)
         else (True, \<lparr>sg_active = True, sg_session_generation = vh_session_generation header,
           sg_representation_epoch = vh_representation_epoch header, sg_frame_id = vh_frame_id header,
           sg_width = sc_surface_width first, sg_height = sc_surface_height first,
           sg_row_stride = sc_row_stride first, sg_total_bytes = sc_total_bytes first,
           sg_next_offset = of_nat (length (sc_chunk first))\<rparr>))"

definition snapshot_matches ::
  "visual_message_header \<Rightarrow> visual_full_snapshot_chunk \<Rightarrow> full_snapshot_guard \<Rightarrow> bool" where
  "snapshot_matches header chunk g \<longleftrightarrow> sg_active g \<and> vh_type header = full_snapshot \<and>
     vh_session_generation header = sg_session_generation g \<and>
     vh_representation_epoch header = sg_representation_epoch g \<and>
     vh_frame_id header = sg_frame_id g \<and> sc_surface_width chunk = sg_width g \<and>
     sc_surface_height chunk = sg_height g \<and> sc_row_stride chunk = sg_row_stride g \<and>
     sc_total_bytes chunk = sg_total_bytes g"

definition snapshot_accept ::
  "visual_message_header \<Rightarrow> visual_full_snapshot_chunk \<Rightarrow> full_snapshot_guard \<Rightarrow>
     bool \<times> full_snapshot_guard" where
  "snapshot_accept header chunk g =
     (if \<not> snapshot_matches header chunk g \<or> sc_chunk_offset chunk \<noteq> sg_next_offset g \<or>
         sc_chunk chunk = [] \<or> sg_next_offset g > sg_total_bytes g \<or>
         length (sc_chunk chunk) > unat (sg_total_bytes g - sg_next_offset g)
      then (False, g)
      else (True, g\<lparr>sg_next_offset := sg_next_offset g + of_nat (length (sc_chunk chunk))\<rparr>))"

definition snapshot_ready ::
  "visual_message_header \<Rightarrow> visual_frame_commit \<Rightarrow> full_snapshot_guard \<Rightarrow> bool" where
  "snapshot_ready header commit g \<longleftrightarrow> sg_active g \<and> vh_type header = frame_commit \<and>
     vh_session_generation header = sg_session_generation g \<and>
     vh_representation_epoch header = sg_representation_epoch g \<and>
     vh_frame_id header = sg_frame_id g \<and> fc_base_frame_id commit = 0 \<and>
     sg_next_offset g = sg_total_bytes g"

definition snapshot_cancel :: "full_snapshot_guard \<Rightarrow> full_snapshot_guard" where
  "snapshot_cancel g = new_snapshot_guard"

section \<open>Cutting a snapshot into bursts\<close>

record snapshot_wire_range =
  wr_offset :: u32
  wr_size :: u32
  wr_final :: bool

record snapshot_drain_plan =
  dp_active :: bool
  dp_source_frame_id :: u64
  dp_latest_source_frame_id :: u64
  dp_superseded_sources :: u64
  dp_total_bytes :: u32
  dp_row_stride :: u32
  dp_chunk_bytes :: u32
  dp_burst_limit :: u32
  dp_next_offset :: u32

definition new_drain_plan :: snapshot_drain_plan where
  "new_drain_plan = \<lparr>dp_active = False, dp_source_frame_id = 0, dp_latest_source_frame_id = 0,
     dp_superseded_sources = 0, dp_total_bytes = 0, dp_row_stride = 0, dp_chunk_bytes = 0,
     dp_burst_limit = 0, dp_next_offset = 0\<rparr>"

definition drain_begin ::
  "u64 \<Rightarrow> u32 \<Rightarrow> u32 \<Rightarrow> u32 \<Rightarrow> u32 \<Rightarrow> snapshot_drain_plan \<Rightarrow> bool \<times> snapshot_drain_plan" where
  "drain_begin source_frame_id total_bytes row_stride chunk_limit burst_limit p =
     (if dp_active p \<or> source_frame_id = 0 \<or> total_bytes = 0 \<or>
         unat total_bytes > maximum_snapshot_total_bytes \<or> row_stride = 0 \<or>
         total_bytes mod row_stride \<noteq> 0 \<or> chunk_limit < row_stride \<or>
         unat chunk_limit > maximum_snapshot_wire_chunk_bytes \<or> burst_limit < row_stride
      then (False, p)
      else let rows_per_chunk = chunk_limit div row_stride
        in if rows_per_chunk = 0 then (False, p)
           else let chunk_bytes = rows_per_chunk * row_stride
             in (True, p\<lparr>dp_source_frame_id := source_frame_id,
                  dp_latest_source_frame_id := source_frame_id, dp_total_bytes := total_bytes,
                  dp_row_stride := row_stride, dp_chunk_bytes := chunk_bytes,
                  dp_burst_limit := max burst_limit chunk_bytes, dp_active := True\<rparr>))"

definition drain_complete :: "snapshot_drain_plan \<Rightarrow> bool" where
  "drain_complete p \<longleftrightarrow> dp_active p \<and> dp_next_offset p = dp_total_bytes p"

text \<open>
  The loop of \<open>take_burst\<close>, with the ranges so far and their bytes. With chunks of no bytes it
  would not end, so its result is an option: \<open>None\<close> is a loop that does not end.
\<close>

partial_function (option) burst_loop ::
  "snapshot_drain_plan \<Rightarrow> snapshot_wire_range list \<Rightarrow> u32 \<Rightarrow>
     (snapshot_wire_range list \<times> snapshot_drain_plan) option" where
  "burst_loop p result burst_bytes =
     (if dp_next_offset p < dp_total_bytes p
      then let remaining = dp_total_bytes p - dp_next_offset p;
               size = min (dp_chunk_bytes p) remaining
        in if result \<noteq> [] \<and> size > dp_burst_limit p - burst_bytes then Some (result, p)
           else let result' = result @ [\<lparr>wr_offset = dp_next_offset p, wr_size = size,
                      wr_final = (size = remaining)\<rparr>];
                    p' = p\<lparr>dp_next_offset := dp_next_offset p + size\<rparr>;
                    burst_bytes' = burst_bytes + size
             in if burst_bytes' \<ge> dp_burst_limit p then Some (result', p')
                else burst_loop p' result' burst_bytes'
      else Some (result, p))"

definition take_burst ::
  "snapshot_drain_plan \<Rightarrow> (snapshot_wire_range list \<times> snapshot_drain_plan) option" where
  "take_burst p = (if \<not> dp_active p \<or> drain_complete p then Some ([], p) else burst_loop p [] 0)"

definition observe_latest_source :: "u64 \<Rightarrow> snapshot_drain_plan \<Rightarrow> snapshot_drain_plan" where
  "observe_latest_source frame_id p =
     (if \<not> dp_active p \<or> frame_id \<le> dp_latest_source_frame_id p then p
      else p\<lparr>dp_latest_source_frame_id := frame_id,
             dp_superseded_sources := dp_superseded_sources p + 1\<rparr>)"

definition drain_superseded :: "snapshot_drain_plan \<Rightarrow> bool" where
  "drain_superseded p \<longleftrightarrow> dp_latest_source_frame_id p > dp_source_frame_id p"

definition drain_cancel :: "snapshot_drain_plan \<Rightarrow> snapshot_drain_plan" where
  "drain_cancel p = new_drain_plan"

section \<open>Transactions of raw rectangles\<close>

record rect_bounds =
  bd_left :: u32
  bd_top :: u32
  bd_right :: u32
  bd_bottom :: u32

record raw_rect_guard =
  rg_active :: bool
  rg_session_generation :: u64
  rg_representation_epoch :: u64
  rg_base_frame_id :: u64
  rg_target_frame_id :: u64
  rg_width :: u32
  rg_height :: u32
  rg_packed_bytes :: nat
  rg_rectangles :: "rect_bounds list"

definition new_rect_guard :: raw_rect_guard where
  "new_rect_guard = \<lparr>rg_active = False, rg_session_generation = 0, rg_representation_epoch = 0,
     rg_base_frame_id = 0, rg_target_frame_id = 0, rg_width = 0, rg_height = 0, rg_packed_bytes = 0,
     rg_rectangles = []\<rparr>"

definition bounds_of :: "visual_raw_rect \<Rightarrow> rect_bounds" where
  "bounds_of r = \<lparr>bd_left = rr_x r, bd_top = rr_y r, bd_right = rr_x r + rr_width r,
     bd_bottom = rr_y r + rr_height r\<rparr>"

definition bounds_overlap :: "rect_bounds \<Rightarrow> rect_bounds \<Rightarrow> bool" where
  "bounds_overlap bounds existing \<longleftrightarrow>
     bd_left bounds < bd_right existing \<and> bd_right bounds > bd_left existing \<and>
     bd_top bounds < bd_bottom existing \<and> bd_bottom bounds > bd_top existing"

text \<open>The identity of a transaction, stored when its first rectangle arrives.\<close>

definition rect_identify ::
  "visual_message_header \<Rightarrow> visual_raw_rect \<Rightarrow> raw_rect_guard \<Rightarrow> raw_rect_guard" where
  "rect_identify header r g = g\<lparr>rg_active := True,
     rg_session_generation := vh_session_generation header,
     rg_representation_epoch := vh_representation_epoch header,
     rg_base_frame_id := rr_base_frame_id r, rg_target_frame_id := vh_frame_id header,
     rg_width := rr_surface_width r, rg_height := rr_surface_height r\<rparr>"

definition rect_same_transaction ::
  "visual_message_header \<Rightarrow> visual_raw_rect \<Rightarrow> raw_rect_guard \<Rightarrow> bool" where
  "rect_same_transaction header r g \<longleftrightarrow>
     vh_session_generation header = rg_session_generation g \<and>
     vh_representation_epoch header = rg_representation_epoch g \<and>
     vh_frame_id header = rg_target_frame_id g \<and> rr_base_frame_id r = rg_base_frame_id g \<and>
     rr_surface_width r = rg_width g \<and> rr_surface_height r = rg_height g"

definition rect_accept ::
  "visual_message_header \<Rightarrow> visual_raw_rect \<Rightarrow> raw_rect_guard \<Rightarrow> bool \<times> raw_rect_guard" where
  "rect_accept header r g =
     (if vh_type header \<noteq> raw_rect \<or> vh_session_generation header = 0 \<or>
         vh_representation_epoch header = 0 \<or> vh_frame_id header = 0 \<or> rr_base_frame_id r = 0 \<or>
         vh_frame_id header \<le> rr_base_frame_id r \<or> rr_surface_width r = 0 \<or>
         rr_surface_height r = 0 \<or> rr_width r = 0 \<or> rr_height r = 0 \<or>
         length (rg_rectangles g) \<ge> maximum_raw_rect_transaction_count \<or>
         length (rr_bgra r) > maximum_raw_rect_protocol_bytes - rg_packed_bytes g
      then (False, g)
      else if rg_active g \<and> \<not> rect_same_transaction header r g then (False, g)
      else let g' = if rg_active g then g else rect_identify header r g;
               bounds = bounds_of r
        in if list_ex (bounds_overlap bounds) (rg_rectangles g') then (False, g')
           else (True, g'\<lparr>rg_rectangles := rg_rectangles g' @ [bounds],
                  rg_packed_bytes := rg_packed_bytes g' + length (rr_bgra r)\<rparr>))"

definition rect_ready :: "visual_message_header \<Rightarrow> visual_frame_commit \<Rightarrow> raw_rect_guard \<Rightarrow> bool" where
  "rect_ready header commit g \<longleftrightarrow> rg_active g \<and> rg_rectangles g \<noteq> [] \<and>
     vh_type header = frame_commit \<and>
     vh_session_generation header = rg_session_generation g \<and>
     vh_representation_epoch header = rg_representation_epoch g \<and>
     vh_frame_id header = rg_target_frame_id g \<and> fc_base_frame_id commit = rg_base_frame_id g"

definition rect_cancel :: "raw_rect_guard \<Rightarrow> raw_rect_guard" where
  "rect_cancel g = new_rect_guard"

section \<open>The bursts of a plan\<close>

text \<open>Ranges that follow each other without a gap, from one offset to another.\<close>

fun consecutive :: "nat \<Rightarrow> snapshot_wire_range list \<Rightarrow> nat \<Rightarrow> bool" where
  "consecutive a [] b \<longleftrightarrow> a = b"
| "consecutive a (r # rs) b \<longleftrightarrow>
     unat (wr_offset r) = a \<and> 0 < unat (wr_size r) \<and> consecutive (a + unat (wr_size r)) rs b"

lemma consecutive_append:
  "consecutive a (rs @ ss) c \<longleftrightarrow> (\<exists>b. consecutive a rs b \<and> consecutive b ss c)"
  by (induction rs arbitrary: a) auto

lemma consecutive_le: "consecutive a rs b \<Longrightarrow> a \<le> b"
  by (induction rs arbitrary: a) force+

definition sum_sizes :: "snapshot_wire_range list \<Rightarrow> nat" where
  "sum_sizes rs = sum_list (map (\<lambda>r. unat (wr_size r)) rs)"

text \<open>What holds of an active plan, and of the ranges it hands out.\<close>

definition plan_wf :: "snapshot_drain_plan \<Rightarrow> bool" where
  "plan_wf p \<longleftrightarrow> dp_active p \<and> 0 < unat (dp_row_stride p) \<and> 0 < unat (dp_chunk_bytes p) \<and>
     unat (dp_chunk_bytes p) \<le> maximum_snapshot_wire_chunk_bytes \<and>
     unat (dp_chunk_bytes p) \<le> unat (dp_burst_limit p) \<and>
     unat (dp_total_bytes p) \<le> maximum_snapshot_total_bytes \<and>
     unat (dp_next_offset p) \<le> unat (dp_total_bytes p) \<and>
     unat (dp_row_stride p) dvd unat (dp_chunk_bytes p) \<and>
     unat (dp_row_stride p) dvd unat (dp_total_bytes p) \<and>
     unat (dp_row_stride p) dvd unat (dp_next_offset p)"

definition range_ok :: "snapshot_drain_plan \<Rightarrow> snapshot_wire_range \<Rightarrow> bool" where
  "range_ok p r \<longleftrightarrow> unat (wr_size r) \<le> unat (dp_chunk_bytes p) \<and>
     unat (dp_row_stride p) dvd unat (wr_size r) \<and>
     (wr_final r \<longleftrightarrow> unat (wr_offset r) + unat (wr_size r) = unat (dp_total_bytes p))"

lemma unat_min: "unat (min a b :: 'a::len word) = min (unat a) (unat b)"
  by (simp add: min_def word_le_nat_alt)

lemma plan_wf_begin:
  assumes "drain_begin src tot row climit blimit new_drain_plan = (True, p)"
  shows "plan_wf p" "dp_next_offset p = 0" "dp_total_bytes p = tot" "dp_row_stride p = row"
    "dp_burst_limit p = max blimit (dp_chunk_bytes p)" "unat (dp_chunk_bytes p) \<le> unat climit"
proof -
  have g: "unat tot \<le> maximum_snapshot_total_bytes" "row \<noteq> 0" "tot mod row = 0"
      "unat climit \<le> maximum_snapshot_wire_chunk_bytes" "climit div row \<noteq> 0"
    and p: "p = new_drain_plan\<lparr>dp_source_frame_id := src, dp_latest_source_frame_id := src,
        dp_total_bytes := tot, dp_row_stride := row, dp_chunk_bytes := climit div row * row,
        dp_burst_limit := max blimit (climit div row * row), dp_active := True\<rparr>"
    using assms by (auto simp: drain_begin_def Let_def split: if_splits)
  have le: "unat climit div unat row * unat row \<le> unat climit"
    by simp
  have "unat (climit div row * row) = unat climit div unat row * unat row"
  proof -
    have "unat (climit div row) = unat climit div unat row"
      by (rule unat_div_distrib)
    moreover have "unat climit div unat row * unat row < 2 ^ LENGTH(32)"
      using le unsigned_less [of climit, where 'a = nat] by (rule order_le_less_trans)
    ultimately show ?thesis
      by (simp add: unat_word_ariths)
  qed
  moreover have "unat row dvd unat tot"
    using g(3) by (simp add: unat_mod_distrib flip: unat_eq_0 mod_eq_0_iff_dvd)
  moreover have "0 < unat climit div unat row"
    using g(5) by (simp add: unat_div_distrib flip: unat_eq_0)
  moreover have "0 < unat row"
    using g(2) by (simp add: unat_gt_0)
  ultimately show "plan_wf p" "dp_next_offset p = 0" "dp_total_bytes p = tot" "dp_row_stride p = row"
    "dp_burst_limit p = max blimit (dp_chunk_bytes p)" "unat (dp_chunk_bytes p) \<le> unat climit"
    using g le order_trans [OF le g(4)] by (simp_all add: p plan_wf_def new_drain_plan_def max_def word_le_nat_alt)
qed

text \<open>One round of the loop, in natural numbers.\<close>

lemma plan_advance:
  assumes wf: "plan_wf p" and lt: "dp_next_offset p < dp_total_bytes p"
  defines "sz \<equiv> min (dp_chunk_bytes p) (dp_total_bytes p - dp_next_offset p)"
  defines "r \<equiv> \<lparr>wr_offset = dp_next_offset p, wr_size = sz,
                 wr_final = (sz = dp_total_bytes p - dp_next_offset p)\<rparr>"
  shows "plan_wf (p\<lparr>dp_next_offset := dp_next_offset p + sz\<rparr>)"
    and "unat (dp_next_offset p + sz) = unat (dp_next_offset p) + unat sz"
    and "0 < unat sz" "unat (dp_row_stride p) dvd unat sz"
    and "unat sz \<le> unat (dp_chunk_bytes p)"
    and "range_ok p r"
proof -
  have rem: "unat (dp_total_bytes p - dp_next_offset p) = unat (dp_total_bytes p) - unat (dp_next_offset p)"
    using lt by (intro unat_sub) (simp add: less_imp_le)
  have nlt: "unat (dp_next_offset p) < unat (dp_total_bytes p)"
    using lt by (simp add: word_less_nat_alt)
  have sz: "unat sz = min (unat (dp_chunk_bytes p)) (unat (dp_total_bytes p) - unat (dp_next_offset p))"
    by (simp add: sz_def unat_min rem)
  have le: "unat (dp_next_offset p) + unat sz \<le> unat (dp_total_bytes p)"
    using nlt by (simp add: sz)
  show add: "unat (dp_next_offset p + sz) = unat (dp_next_offset p) + unat sz"
    using le unsigned_less [of "dp_total_bytes p", where 'a = nat] by (simp add: unat_word_ariths)
  show dvd: "unat (dp_row_stride p) dvd unat sz"
    using wf by (auto simp: sz plan_wf_def min_def intro: dvd_diff_nat)
  show "0 < unat sz" "unat sz \<le> unat (dp_chunk_bytes p)"
    using wf nlt by (simp_all add: sz plan_wf_def)
  show "plan_wf (p\<lparr>dp_next_offset := dp_next_offset p + sz\<rparr>)"
    using wf le dvd add by (simp add: plan_wf_def)
  have "sz = dp_total_bytes p - dp_next_offset p \<longleftrightarrow>
      unat (dp_next_offset p) + unat sz = unat (dp_total_bytes p)"
    using nlt by (auto simp: word_unat_eq_iff [where 'a = 32] rem)
  then show "range_ok p r"
    using dvd \<open>unat sz \<le> unat (dp_chunk_bytes p)\<close> by (simp add: range_ok_def r_def)
qed

lemma burst_loop_spec:
  assumes "plan_wf p" "result = [] \<Longrightarrow> b = 0" "b < dp_burst_limit p"
  shows "\<exists>rs n. burst_loop p result b = Some (result @ rs, p\<lparr>dp_next_offset := n\<rparr>) \<and>
    plan_wf (p\<lparr>dp_next_offset := n\<rparr>) \<and>
    consecutive (unat (dp_next_offset p)) rs (unat n) \<and> list_all (range_ok p) rs \<and>
    unat b + sum_sizes rs \<le> unat (dp_burst_limit p) \<and>
    (result = [] \<and> dp_next_offset p < dp_total_bytes p \<longrightarrow> rs \<noteq> [])"
  using assms
proof (induction "unat (dp_total_bytes p) - unat (dp_next_offset p)" arbitrary: p result b rule: less_induct)
  case less
  show ?case
  proof (cases "dp_next_offset p < dp_total_bytes p")
    case False
    then show ?thesis
      using less.prems(1,3)
      by (intro exI [of _ "[]"] exI [of _ "dp_next_offset p"])
        (simp add: burst_loop.simps sum_sizes_def word_less_nat_alt)
  next
    case True
    let ?size = "min (dp_chunk_bytes p) (dp_total_bytes p - dp_next_offset p)"
    let ?r = "\<lparr>wr_offset = dp_next_offset p, wr_size = ?size,
                 wr_final = (?size = dp_total_bytes p - dp_next_offset p)\<rparr>"
    let ?p = "p\<lparr>dp_next_offset := dp_next_offset p + ?size\<rparr>"
    note adv = plan_advance [OF less.prems(1) True]
    show ?thesis
    proof (cases "result \<noteq> [] \<and> ?size > dp_burst_limit p - b")
      case True
      then have "burst_loop p result b = Some (result, p)"
        using \<open>dp_next_offset p < dp_total_bytes p\<close> by (subst burst_loop.simps) (simp add: Let_def)
      then show ?thesis
        using less.prems(1,3) True
        by (intro exI [of _ "[]"] exI [of _ "dp_next_offset p"])
          (simp add: sum_sizes_def word_less_nat_alt)
    next
      case go: False
      have limit: "unat ?size + unat b \<le> unat (dp_burst_limit p)"
      proof (cases "result = []")
        case True
        then show ?thesis
          using less.prems(1,2) adv(5) by (simp add: plan_wf_def)
      next
        case False
        then have "unat ?size \<le> unat (dp_burst_limit p - b)"
          using go by (auto simp: not_less word_le_nat_alt unat_min)
        also have "\<dots> = unat (dp_burst_limit p) - unat b"
          using less.prems(3) by (intro unat_sub) (simp add: less_imp_le)
        finally show ?thesis
          using less.prems(3) by (simp add: word_less_nat_alt)
      qed
      then have b: "unat (b + ?size) = unat b + unat ?size"
        using unsigned_less [of "dp_burst_limit p", where 'a = nat] by (simp add: unat_word_ariths)
      have step: "burst_loop p result b =
          (if b + ?size \<ge> dp_burst_limit p then Some (result @ [?r], ?p)
           else burst_loop ?p (result @ [?r]) (b + ?size))"
        using True go by (subst burst_loop.simps) (auto simp: Let_def)
      show ?thesis
      proof (cases "b + ?size \<ge> dp_burst_limit p")
        case True
        then show ?thesis
          using adv limit by (intro exI [of _ "[?r]"] exI [of _ "dp_next_offset p + ?size"])
            (simp add: step sum_sizes_def)
      next
        case False
        have "unat (dp_total_bytes ?p) - unat (dp_next_offset ?p) <
            unat (dp_total_bytes p) - unat (dp_next_offset p)"
          using adv(1,2,3) True by (simp add: word_less_nat_alt)
        from less.hyps [OF this adv(1), of "result @ [?r]" "b + ?size"] False
        obtain rs n where rs: "burst_loop ?p (result @ [?r]) (b + ?size) =
              Some ((result @ [?r]) @ rs, ?p\<lparr>dp_next_offset := n\<rparr>)"
            "plan_wf (?p\<lparr>dp_next_offset := n\<rparr>)" "consecutive (unat (dp_next_offset ?p)) rs (unat n)"
            "list_all (range_ok ?p) rs" "unat (b + ?size) + sum_sizes rs \<le> unat (dp_burst_limit ?p)"
          by (auto simp: not_le)
        have "range_ok ?p = range_ok p"
          by (simp add: range_ok_def fun_eq_iff)
        then show ?thesis
          using rs adv False b
          by (intro exI [of _ "?r # rs"] exI [of _ n]) (simp add: step sum_sizes_def)
      qed
    qed
  qed
qed

lemma take_burst_spec:
  assumes "plan_wf p"
  shows "\<exists>rs n. take_burst p = Some (rs, p\<lparr>dp_next_offset := n\<rparr>) \<and>
    plan_wf (p\<lparr>dp_next_offset := n\<rparr>) \<and>
    consecutive (unat (dp_next_offset p)) rs (unat n) \<and> list_all (range_ok p) rs \<and>
    sum_sizes rs \<le> unat (dp_burst_limit p) \<and> (\<not> drain_complete p \<longrightarrow> rs \<noteq> [])"
proof (cases "drain_complete p")
  case True
  then show ?thesis
    using assms by (intro exI [of _ "[]"] exI [of _ "dp_next_offset p"])
      (simp add: take_burst_def sum_sizes_def)
next
  case False
  then have lt: "dp_next_offset p < dp_total_bytes p"
    using assms by (simp add: drain_complete_def plan_wf_def word_less_nat_alt word_unat_eq_iff)
  have "0 < dp_burst_limit p"
    using assms by (simp add: plan_wf_def word_less_nat_alt)
  moreover have "take_burst p = burst_loop p [] 0"
    using False assms by (simp add: take_burst_def plan_wf_def)
  ultimately show ?thesis
    using burst_loop_spec [OF assms, of "[]" 0] lt False by simp
qed

text \<open>A number of calls of \<open>take_burst\<close>, and the bursts they return.\<close>

fun take_bursts ::
  "nat \<Rightarrow> snapshot_drain_plan \<Rightarrow> (snapshot_wire_range list list \<times> snapshot_drain_plan) option" where
  "take_bursts 0 p = Some ([], p)"
| "take_bursts (Suc k) p = (case take_burst p of
     None \<Rightarrow> None
   | Some (rs, p') \<Rightarrow> (case take_bursts k p' of
       None \<Rightarrow> None
     | Some (bursts, p'') \<Rightarrow> Some (rs # bursts, p'')))"

text \<open>A burst that is not empty moves the plan by a row at least.\<close>

lemma burst_moves:
  assumes "consecutive a rs b" "list_all (range_ok p) rs" "rs \<noteq> []"
  shows "a + unat (dp_row_stride p) \<le> b"
proof (cases rs)
  case (Cons r rs')
  then have "unat (dp_row_stride p) \<le> unat (wr_size r)"
    using assms(1,2) by (auto simp: range_ok_def intro: dvd_imp_le)
  moreover have "a + unat (wr_size r) \<le> b"
    using assms(1) Cons consecutive_le [of "a + unat (wr_size r)" rs' b] by simp
  ultimately show ?thesis
    by simp
qed (use assms(3) in simp)

lemma take_bursts_spec:
  assumes "plan_wf p"
  shows "\<exists>bursts n. take_bursts k p = Some (bursts, p\<lparr>dp_next_offset := n\<rparr>) \<and>
    plan_wf (p\<lparr>dp_next_offset := n\<rparr>) \<and>
    consecutive (unat (dp_next_offset p)) (concat bursts) (unat n) \<and>
    list_all (\<lambda>rs. list_all (range_ok p) rs \<and> sum_sizes rs \<le> unat (dp_burst_limit p)) bursts \<and>
    (drain_complete (p\<lparr>dp_next_offset := n\<rparr>) \<or>
     unat (dp_next_offset p) + k * unat (dp_row_stride p) \<le> unat n)"
  using assms
proof (induction k arbitrary: p)
  case 0
  then show ?case
    by (intro exI [of _ "[]"] exI [of _ "dp_next_offset p"]) simp
next
  case (Suc k)
  obtain rs m where rs: "take_burst p = Some (rs, p\<lparr>dp_next_offset := m\<rparr>)"
      "plan_wf (p\<lparr>dp_next_offset := m\<rparr>)" "consecutive (unat (dp_next_offset p)) rs (unat m)"
      "list_all (range_ok p) rs" "sum_sizes rs \<le> unat (dp_burst_limit p)"
      "\<not> drain_complete p \<longrightarrow> rs \<noteq> []"
    using take_burst_spec [OF Suc.prems] by blast
  obtain bursts n where bs: "take_bursts k (p\<lparr>dp_next_offset := m\<rparr>) = Some (bursts, p\<lparr>dp_next_offset := n\<rparr>)"
      "plan_wf (p\<lparr>dp_next_offset := n\<rparr>)" "consecutive (unat m) (concat bursts) (unat n)"
      "list_all (\<lambda>rs. list_all (range_ok p) rs \<and> sum_sizes rs \<le> unat (dp_burst_limit p)) bursts"
      "drain_complete (p\<lparr>dp_next_offset := n\<rparr>) \<or> unat m + k * unat (dp_row_stride p) \<le> unat n"
    using Suc.IH [OF rs(2)] by (auto simp: range_ok_def cong: list.pred_cong)
  have "drain_complete (p\<lparr>dp_next_offset := n\<rparr>) \<or>
      unat (dp_next_offset p) + Suc k * unat (dp_row_stride p) \<le> unat n"
  proof (cases "drain_complete p")
    case True
    then have "unat n = unat (dp_total_bytes p)"
      using consecutive_le [OF rs(3)] consecutive_le [OF bs(3)] bs(2)
      by (simp add: drain_complete_def plan_wf_def)
    then show ?thesis
      using True by (simp add: drain_complete_def word_unat_eq_iff)
  next
    case False
    then show ?thesis
      using burst_moves [OF rs(3,4)] rs(6) bs(5) by auto
  qed
  then show ?case
    using rs bs by (intro exI [of _ "rs # bursts"] exI [of _ n]) (auto simp: consecutive_append)
qed

lemma snapshot_plan:
  assumes "drain_begin src tot row climit blimit new_drain_plan = (True, p)"
  shows "\<exists>bursts p'. take_bursts k p = Some (bursts, p') \<and>
    consecutive 0 (concat bursts) (unat (dp_next_offset p')) \<and>
    list_all (\<lambda>rs. sum_sizes rs \<le> max (unat blimit) (unat climit)) bursts \<and>
    list_all (\<lambda>r. unat (wr_size r) \<le> unat climit \<and> unat row dvd unat (wr_size r) \<and>
      wr_final r = (unat (wr_offset r) + unat (wr_size r) = unat tot)) (concat bursts) \<and>
    (unat tot div unat row \<le> k \<longrightarrow>
       drain_complete p' \<and> consecutive 0 (concat bursts) (unat tot))"
proof -
  note start = plan_wf_begin [OF assms]
  obtain bursts n where bs: "take_bursts k p = Some (bursts, p\<lparr>dp_next_offset := n\<rparr>)"
      "plan_wf (p\<lparr>dp_next_offset := n\<rparr>)" "consecutive (unat (dp_next_offset p)) (concat bursts) (unat n)"
      "list_all (\<lambda>rs. list_all (range_ok p) rs \<and> sum_sizes rs \<le> unat (dp_burst_limit p)) bursts"
      "drain_complete (p\<lparr>dp_next_offset := n\<rparr>) \<or>
         unat (dp_next_offset p) + k * unat (dp_row_stride p) \<le> unat n"
    using take_bursts_spec [OF start(1)] by blast
  have limit: "unat (dp_burst_limit p) \<le> max (unat blimit) (unat climit)"
    using start(5,6) by (auto simp: max_def word_le_nat_alt)
  have whole: "drain_complete (p\<lparr>dp_next_offset := n\<rparr>)" if "unat tot div unat row \<le> k"
  proof (rule disjE [OF bs(5)])
    assume le: "unat (dp_next_offset p) + k * unat (dp_row_stride p) \<le> unat n"
    have "unat tot = unat tot div unat row * unat row"
      using start(1) by (simp add: plan_wf_def start)
    also have "\<dots> \<le> k * unat row"
      using that by simp
    finally have "unat n = unat tot"
      using le bs(2) by (simp add: plan_wf_def start)
    then show ?thesis
      using bs(2) by (simp add: plan_wf_def drain_complete_def start word_unat_eq_iff)
  qed
  show ?thesis
  proof (intro exI conjI impI)
    show "take_bursts k p = Some (bursts, p\<lparr>dp_next_offset := n\<rparr>)"
      by (rule bs(1))
    show "consecutive 0 (concat bursts) (unat (dp_next_offset (p\<lparr>dp_next_offset := n\<rparr>)))"
      using bs(3) by (simp add: start)
    show "list_all (\<lambda>rs. sum_sizes rs \<le> max (unat blimit) (unat climit)) bursts"
      using bs(4) limit by (auto simp: list_all_iff intro: order_trans)
    show "list_all (\<lambda>r. unat (wr_size r) \<le> unat climit \<and> unat row dvd unat (wr_size r) \<and>
      wr_final r = (unat (wr_offset r) + unat (wr_size r) = unat tot)) (concat bursts)"
      using bs(4) order_trans [OF _ start(6)] by (auto simp: list_all_iff range_ok_def start(3,4))
  next
    assume "unat tot div unat row \<le> k"
    note fin = whole [OF this]
    show "drain_complete (p\<lparr>dp_next_offset := n\<rparr>)"
      by (rule fin)
    show "consecutive 0 (concat bursts) (unat tot)"
      using bs(3) fin by (simp add: start drain_complete_def)
  qed
qed

text \<open>C36. A snapshot that is accepted for sending is cut without a gap and without an overlap: whatever
  number of bursts is taken, \<open>take_burst\<close> returns, the ranges follow each other from offset 0, each
  is whole rows and at most the chunk limit, each burst is at most its limit, only the last range is
  marked final, and once a burst per row has been asked for the plan is complete.\<close>

theorem snapshot_bursts_partition:
  assumes "drain_begin src tot row climit blimit new_drain_plan = (True, p)"
  shows "\<exists>bursts p'. take_bursts k p = Some (bursts, p') \<and>
    consecutive 0 (concat bursts) (unat (dp_next_offset p')) \<and>
    list_all (\<lambda>rs. sum_sizes rs \<le> max (unat blimit) (unat climit)) bursts \<and>
    list_all (\<lambda>r. unat (wr_size r) \<le> unat climit \<and> unat row dvd unat (wr_size r) \<and>
      wr_final r = (unat (wr_offset r) + unat (wr_size r) = unat tot)) (concat bursts) \<and>
    (unat tot div unat row \<le> k \<longrightarrow>
       drain_complete p' \<and> consecutive 0 (concat bursts) (unat tot))"
  using assms by (rule snapshot_plan)

theorem snapshot_bursts_partition_witness:
  "\<exists>p bursts p'. drain_begin 5 800 80 160 240 new_drain_plan = (True, p) \<and>
     take_bursts 10 p = Some (bursts, p') \<and> drain_complete p' \<and> consecutive 0 (concat bursts) 800"
proof -
  obtain p where p: "drain_begin 5 800 80 160 240 new_drain_plan = (True, p)"
    by (simp add: drain_begin_def new_drain_plan_def Let_def)
  show ?thesis
    using snapshot_bursts_partition [OF p, of 10] p by auto
qed

section \<open>What an assembled snapshot is\<close>

text \<open>
  A receiver begins an assembly with the first chunk and lets later chunks extend it. The accepted
  chunks of a run, oldest first.
\<close>

definition snapshot_feed ::
  "visual_message_header \<times> visual_full_snapshot_chunk \<Rightarrow> full_snapshot_guard \<Rightarrow>
     bool \<times> full_snapshot_guard" where
  "snapshot_feed hc g = (if sg_active g then snapshot_accept (fst hc) (snd hc) g
     else snapshot_begin (fst hc) (snd hc) g)"

fun snapshot_accepted ::
  "(visual_message_header \<times> visual_full_snapshot_chunk) list \<Rightarrow> full_snapshot_guard \<Rightarrow>
     (visual_message_header \<times> visual_full_snapshot_chunk) list \<times> full_snapshot_guard" where
  "snapshot_accepted [] g = ([], g)"
| "snapshot_accepted (hc # hcs) g = (case snapshot_feed hc g of
     (taken, g') \<Rightarrow> (case snapshot_accepted hcs g' of
       (acc, g'') \<Rightarrow> (if taken then hc # acc else acc, g'')))"

text \<open>Chunks that follow each other, from one offset to another.\<close>

fun contiguous :: "nat \<Rightarrow> visual_full_snapshot_chunk list \<Rightarrow> nat \<Rightarrow> bool" where
  "contiguous a [] b \<longleftrightarrow> a = b"
| "contiguous a (c # cs) b \<longleftrightarrow> unat (sc_chunk_offset c) = a \<and> sc_chunk c \<noteq> [] \<and>
     contiguous (a + length (sc_chunk c)) cs b"

lemma contiguous_append:
  "contiguous a (cs @ ds) c \<longleftrightarrow> (\<exists>b. contiguous a cs b \<and> contiguous b ds c)"
  by (induction cs arbitrary: a) auto

lemma contiguous_length: "contiguous a cs b \<Longrightarrow> b = a + length (concat (map sc_chunk cs))"
proof (induction cs arbitrary: a)
  case (Cons c cs)
  then have "contiguous (a + length (sc_chunk c)) cs b"
    by simp
  from Cons.IH [OF this] show ?case
    by simp
qed simp

definition chunk_of_frame :: "full_snapshot_guard \<Rightarrow> visual_message_header \<times> visual_full_snapshot_chunk \<Rightarrow> bool" where
  "chunk_of_frame g hc \<longleftrightarrow> vh_type (fst hc) = full_snapshot \<and>
     vh_session_generation (fst hc) = sg_session_generation g \<and>
     vh_representation_epoch (fst hc) = sg_representation_epoch g \<and>
     vh_frame_id (fst hc) = sg_frame_id g \<and> sc_surface_width (snd hc) = sg_width g \<and>
     sc_surface_height (snd hc) = sg_height g \<and> sc_total_bytes (snd hc) = sg_total_bytes g"

text \<open>The invariant: the guard is idle, or what it accepted is contiguous up to the next offset.\<close>

definition assembly ::
  "(visual_message_header \<times> visual_full_snapshot_chunk) list \<Rightarrow> full_snapshot_guard \<Rightarrow> bool" where
  "assembly acc g \<longleftrightarrow> (\<not> sg_active g \<longrightarrow> acc = []) \<and> (sg_active g \<longrightarrow>
     contiguous 0 (map snd acc) (unat (sg_next_offset g)) \<and>
     list_all (chunk_of_frame g) acc \<and>
     unat (sg_next_offset g) \<le> unat (sg_total_bytes g) \<and>
     unat (sg_total_bytes g) = 4 * unat (sg_width g) * unat (sg_height g) \<and>
     0 < unat (sg_width g) \<and> unat (sg_width g) \<le> maximum_preview_width \<and>
     0 < unat (sg_height g) \<and> unat (sg_height g) \<le> maximum_preview_height)"

lemma surface_total_u64:
  assumes "w \<le> (maximum_preview_width :: u32)" "h \<le> (maximum_preview_height :: u32)"
  shows "unat ((ucast w * 4 :: u64) * ucast h) = 4 * unat w * unat h"
proof -
  have w: "unat w \<le> 1920" and h: "unat h \<le> 1080"
    using assms by (simp_all add: word_le_nat_alt)
  have "unat (ucast w * 4 :: u64) = unat w * 4"
    using w by (simp add: unat_word_ariths word_ucast_le_iff)
  moreover have "unat w * 4 * unat h \<le> 7680 * 1080"
    using w h by (intro mult_le_mono) simp_all
  ultimately show ?thesis
    by (simp add: unat_word_ariths word_ucast_le_iff)
qed

lemma snapshot_begin_True:
  "snapshot_begin h c g = (True, g') \<longleftrightarrow>
     \<not> sg_active g \<and> vh_type h = full_snapshot \<and> vh_session_generation h \<noteq> 0 \<and>
     vh_representation_epoch h \<noteq> 0 \<and> vh_frame_id h \<noteq> 0 \<and> sc_chunk_offset c = 0 \<and> sc_chunk c \<noteq> [] \<and>
     length (sc_chunk c) \<le> unat (sc_total_bytes c) \<and>
     sc_pixel_format c = bgra8_premultiplied_srgb \<and>
     0 < unat (sc_surface_width c) \<and> 0 < unat (sc_surface_height c) \<and>
     unat (sc_surface_width c) \<le> maximum_preview_width \<and>
     unat (sc_surface_height c) \<le> maximum_preview_height \<and>
     unat (sc_row_stride c) = 4 * unat (sc_surface_width c) \<and>
     unat (sc_total_bytes c) = 4 * unat (sc_surface_width c) * unat (sc_surface_height c) \<and>
     g' = \<lparr>sg_active = True, sg_session_generation = vh_session_generation h,
       sg_representation_epoch = vh_representation_epoch h, sg_frame_id = vh_frame_id h,
       sg_width = sc_surface_width c, sg_height = sc_surface_height c,
       sg_row_stride = sc_row_stride c, sg_total_bytes = sc_total_bytes c,
       sg_next_offset = of_nat (length (sc_chunk c))\<rparr>"
  (is "?l = ?r")
proof (cases "sc_surface_width c \<le> maximum_preview_width \<and> sc_surface_height c \<le> maximum_preview_height")
  case False
  then show ?thesis
    by (auto simp: snapshot_begin_def Let_def word_le_nat_alt not_le word_less_nat_alt)
next
  case True
  let ?w = "unat (sc_surface_width c)" let ?h = "unat (sc_surface_height c)"
  have bounds: "?w \<le> 1920" "?h \<le> 1080"
    using True by (simp_all add: word_le_nat_alt)
  then have "4 * ?w * ?h \<le> 4 * 1920 * 1080"
    by (intro mult_le_mono) simp_all
  then have small: "4 * ?w * ?h \<le> 8294400"
    by simp
  note total = surface_total_u64 [OF conjunct1 [OF True] conjunct2 [OF True]]
  have stride: "(ucast (sc_surface_width c) * 4 :: u64) = ucast (sc_row_stride c) \<longleftrightarrow>
      unat (sc_row_stride c) = 4 * ?w"
    using bounds by (auto simp: word_unat_eq_iff [where 'a = 64] unat_word_ariths word_ucast_le_iff)
  have tot: "(ucast (sc_surface_width c) * 4 :: u64) * ucast (sc_surface_height c) = ucast (sc_total_bytes c) \<longleftrightarrow>
      unat (sc_total_bytes c) = 4 * ?w * ?h"
    unfolding word_unat_eq_iff [where 'a = 64] total by (auto simp: word_ucast_le_iff)
  have nz: "sc_surface_width c = 0 \<longleftrightarrow> ?w = 0" "sc_surface_height c = 0 \<longleftrightarrow> ?h = 0"
      "sc_total_bytes c = 0 \<longleftrightarrow> unat (sc_total_bytes c) = 0"
    by (simp_all add: unat_eq_0)
  have noover: "\<not> maximum_snapshot_total_bytes <
      unat ((ucast (sc_surface_width c) * 4 :: u64) * ucast (sc_surface_height c))"
    using small by (simp add: total)
  show ?thesis
    unfolding snapshot_begin_def Let_def stride tot nz
    using True noover bounds by (auto simp: not_le)
qed

lemma snapshot_begin_False: "fst (snapshot_begin h c g) = False \<Longrightarrow> snd (snapshot_begin h c g) = g"
  by (auto simp: snapshot_begin_def Let_def split: if_splits)

lemma snapshot_accept_False: "fst (snapshot_accept h c g) = False \<Longrightarrow> snd (snapshot_accept h c g) = g"
  by (auto simp: snapshot_accept_def split: if_splits)

lemma snapshot_accept_True:
  "snapshot_accept h c g = (True, g') \<longleftrightarrow>
     snapshot_matches h c g \<and> sc_chunk_offset c = sg_next_offset g \<and> sc_chunk c \<noteq> [] \<and>
     unat (sg_next_offset g) + length (sc_chunk c) \<le> unat (sg_total_bytes g) \<and>
     g' = g\<lparr>sg_next_offset := sg_next_offset g + of_nat (length (sc_chunk c))\<rparr>"
  using offset_in_total [of "sg_total_bytes g" "sg_next_offset g" "length (sc_chunk c)"]
  by (auto simp: snapshot_accept_def)

lemma assembly_feed:
  assumes "assembly acc g" "snapshot_feed hc g = (taken, g')"
  shows "assembly (if taken then acc @ [hc] else acc) g'"
proof (cases taken)
  case False
  then have "g' = g"
    using assms(2) snapshot_begin_False [of "fst hc" "snd hc" g] snapshot_accept_False [of "fst hc" "snd hc" g]
    by (auto simp: snapshot_feed_def split: if_splits)
  then show ?thesis
    using assms(1) False by simp
next
  case True
  show ?thesis
  proof (cases "sg_active g")
    case False
    then have b: "snapshot_begin (fst hc) (snd hc) g = (True, g')"
      using assms(2) True by (simp add: snapshot_feed_def)
    then have "length (sc_chunk (snd hc)) \<le> unat (sc_total_bytes (snd hc))"
      by (simp add: snapshot_begin_True)
    also have "\<dots> < 2 ^ LENGTH(32)"
      by (rule unsigned_less)
    finally show ?thesis
      using b False True assms(1)
      by (simp add: snapshot_begin_True assembly_def chunk_of_frame_def unat_of_nat)
  next
    case act: True
    then have a: "snapshot_accept (fst hc) (snd hc) g = (True, g')"
      using assms(2) True by (simp add: snapshot_feed_def)
    then have g': "g' = g\<lparr>sg_next_offset := sg_next_offset g + of_nat (length (sc_chunk (snd hc)))\<rparr>"
      and le: "unat (sg_next_offset g) + length (sc_chunk (snd hc)) \<le> unat (sg_total_bytes g)"
      and m: "snapshot_matches (fst hc) (snd hc) g" "sc_chunk_offset (snd hc) = sg_next_offset g"
        "sc_chunk (snd hc) \<noteq> []"
      by (simp_all add: snapshot_accept_True)
    have "unat (sg_next_offset g + of_nat (length (sc_chunk (snd hc)))) =
        unat (sg_next_offset g) + length (sc_chunk (snd hc))"
      using le unsigned_less [of "sg_total_bytes g", where 'a = nat]
      by (simp add: unat_word_ariths unat_of_nat)
    moreover have "chunk_of_frame g' = chunk_of_frame g"
      by (simp add: g' chunk_of_frame_def fun_eq_iff)
    moreover have "chunk_of_frame g hc"
      using m(1) by (simp add: chunk_of_frame_def snapshot_matches_def)
    ultimately show ?thesis
      using assms(1) act True le m by (auto simp: assembly_def contiguous_append g')
  qed
qed

lemma assembly_accepted:
  "assembly acc g \<Longrightarrow> assembly (acc @ fst (snapshot_accepted hcs g)) (snd (snapshot_accepted hcs g))"
proof (induction hcs arbitrary: acc g)
  case (Cons hc hcs)
  obtain taken g' where f: "snapshot_feed hc g = (taken, g')"
    by (cases "snapshot_feed hc g")
  show ?case
    using Cons.IH [OF assembly_feed [OF Cons.prems f]] f by (auto split: prod.split)
qed simp

text \<open>A snapshot is ready to be committed only when it is whole: whatever chunks arrived, in whatever
  order, the accepted ones belong to the frame of the commit, follow each other from offset 0, and
  carry exactly the pixels of the surface.\<close>

theorem snapshot_ready_only_when_whole:
  assumes "snapshot_accepted hcs new_snapshot_guard = (acc, g)"
    and "snapshot_ready header commit g"
  shows "contiguous 0 (map snd acc) (4 * unat (sg_width g) * unat (sg_height g)) \<and>
    length (concat (map (\<lambda>hc. sc_chunk (snd hc)) acc)) = 4 * unat (sg_width g) * unat (sg_height g) \<and>
    acc \<noteq> [] \<and>
    list_all (\<lambda>(h, c). vh_session_generation h = vh_session_generation header \<and>
      vh_representation_epoch h = vh_representation_epoch header \<and> vh_frame_id h = vh_frame_id header \<and>
      sc_surface_width c = sg_width g \<and> sc_surface_height c = sg_height g) acc"
proof -
  have "assembly [] new_snapshot_guard"
    by (simp add: assembly_def new_snapshot_guard_def)
  from assembly_accepted [OF this, of hcs] have asm: "assembly acc g"
    by (simp add: assms(1))
  have r: "sg_active g" "sg_next_offset g = sg_total_bytes g"
      "vh_session_generation header = sg_session_generation g"
      "vh_representation_epoch header = sg_representation_epoch g" "vh_frame_id header = sg_frame_id g"
    using assms(2) by (simp_all add: snapshot_ready_def)
  have whole: "unat (sg_total_bytes g) = 4 * unat (sg_width g) * unat (sg_height g)"
    and pos: "0 < 4 * unat (sg_width g) * unat (sg_height g)"
    and all: "list_all (chunk_of_frame g) acc"
    and up: "contiguous 0 (map snd acc) (unat (sg_next_offset g))"
    using asm r(1) by (simp_all add: assembly_def)
  have con: "contiguous 0 (map snd acc) (4 * unat (sg_width g) * unat (sg_height g))"
    using up unfolding r(2) whole .
  show ?thesis
    using con contiguous_length [OF con] pos all r
    by (auto simp: comp_def list_all_iff chunk_of_frame_def)
qed

section \<open>From the surface to the guard\<close>

text \<open>The chunk a sender makes of a range of its surface.\<close>

definition chunk_at :: "u32 \<Rightarrow> u32 \<Rightarrow> byte list \<Rightarrow> snapshot_wire_range \<Rightarrow> visual_full_snapshot_chunk" where
  "chunk_at w h surface r = \<lparr>sc_surface_width = w, sc_surface_height = h, sc_row_stride = w * 4,
     sc_pixel_format = bgra8_premultiplied_srgb, sc_total_bytes = w * 4 * h,
     sc_chunk_offset = wr_offset r,
     sc_chunk = take (unat (wr_size r)) (drop (unat (wr_offset r)) surface)\<rparr>"

definition surface_ok :: "u32 \<Rightarrow> u32 \<Rightarrow> byte list \<Rightarrow> bool" where
  "surface_ok w h surface \<longleftrightarrow> 0 < unat w \<and> unat w \<le> maximum_preview_width \<and> 0 < unat h \<and>
     unat h \<le> maximum_preview_height \<and> length surface = 4 * unat w * unat h"

lemma surface_numbers:
  assumes "surface_ok w h surface"
  shows "unat (w * 4) = 4 * unat w" "unat (w * 4 * h) = length surface" "length surface \<le> 8294400"
proof -
  have "4 * unat w * unat h \<le> 4 * 1920 * 1080"
    using assms by (intro mult_le_mono) (simp_all add: surface_ok_def)
  then show small: "length surface \<le> 8294400"
    using assms by (simp add: surface_ok_def)
  show w: "unat (w * 4) = 4 * unat w"
    using assms by (simp add: unat_word_ariths surface_ok_def)
  have "unat (w * 4 * h) = 4 * unat w * unat h mod 2 ^ LENGTH(32)"
    by (simp only: unat_word_ariths(2) [of "w * 4" h] w)
  then show "unat (w * 4 * h) = length surface"
    using small assms by (simp add: surface_ok_def)
qed

definition send_chunks ::
  "visual_message_header \<Rightarrow> u32 \<Rightarrow> u32 \<Rightarrow> byte list \<Rightarrow> snapshot_wire_range list \<Rightarrow>
     (visual_message_header \<times> visual_full_snapshot_chunk) list" where
  "send_chunks header w h surface rs = map (\<lambda>r. (header, chunk_at w h surface r)) rs"

lemma send_chunks_simps [simp]:
  "send_chunks header w h surface [] = []"
  "send_chunks header w h surface (r # rs) = (header, chunk_at w h surface r) # send_chunks header w h surface rs"
  by (simp_all add: send_chunks_def)

lemma length_chunk_at:
  "unat (wr_offset r) + unat (wr_size r) \<le> length surface \<Longrightarrow>
     length (sc_chunk (chunk_at w h surface r)) = unat (wr_size r)"
  by (simp add: chunk_at_def)

lemma concat_chunks:
  assumes "consecutive a rs b" "b \<le> length surface"
  shows "concat (map (\<lambda>hc. sc_chunk (snd hc)) (send_chunks header w h surface rs)) =
    take (b - a) (drop a surface)"
  using assms
proof (induction rs arbitrary: a)
  case (Cons r rs)
  let ?m = "a + unat (wr_size r)"
  have c: "consecutive ?m rs b"
    using Cons.prems by simp
  have le: "?m \<le> b"
    by (rule consecutive_le [OF c])
  have "take (b - a) (drop a surface) =
      take (unat (wr_size r)) (drop a surface) @ take (b - ?m) (drop ?m surface)"
    using le take_add [of "unat (wr_size r)" "b - ?m" "drop a surface"] by (simp add: add.commute)
  then show ?case
    using Cons.IH [OF c Cons.prems(2)] Cons.prems(1) by (simp add: chunk_at_def)
qed simp

lemma accept_chunk:
  assumes s: "surface_ok w h surface"
    and le: "unat (wr_offset r) + unat (wr_size r) \<le> length surface" "0 < unat (wr_size r)"
    and m: "snapshot_matches header (chunk_at w h surface r) g" "sg_next_offset g = wr_offset r"
  shows "snapshot_accept header (chunk_at w h surface r) g =
    (True, g\<lparr>sg_next_offset := wr_offset r + wr_size r\<rparr>)"
proof -
  have "sg_total_bytes g = w * 4 * h"
    using m(1) by (auto simp: snapshot_matches_def chunk_at_def)
  moreover have "sc_chunk (chunk_at w h surface r) \<noteq> []"
    using le length_chunk_at [OF le(1), of w h] by auto
  ultimately show ?thesis
    using m le surface_numbers(2) [OF s] length_chunk_at [OF le(1), of w h]
    by (simp add: snapshot_accept_True) (simp add: chunk_at_def)
qed

lemma accept_chunks:
  assumes s: "surface_ok w h surface" and rs: "consecutive (unat (sg_next_offset g)) rs b"
    and b: "b \<le> length surface"
    and m: "\<And>r. snapshot_matches header (chunk_at w h surface r) g"
  shows "snapshot_accepted (send_chunks header w h surface rs) g =
    (send_chunks header w h surface rs, g\<lparr>sg_next_offset := of_nat b\<rparr>)"
  using rs m
proof (induction rs arbitrary: g)
  case Nil
  then show ?case
    by auto
next
  case (Cons r rs)
  have off: "sg_next_offset g = wr_offset r"
    using Cons.prems(1) by (simp add: word_unat_eq_iff)
  have c: "consecutive (unat (wr_offset r) + unat (wr_size r)) rs b"
    using Cons.prems(1) by auto
  then have le: "unat (wr_offset r) + unat (wr_size r) \<le> length surface"
    using consecutive_le [OF c] b by simp
  let ?g = "g\<lparr>sg_next_offset := wr_offset r + wr_size r\<rparr>"
  have add: "unat (wr_offset r + wr_size r) = unat (wr_offset r) + unat (wr_size r)"
    using le surface_numbers(3) [OF s] by (simp add: unat_word_ariths)
  have "snapshot_feed (header, chunk_at w h surface r) g = (True, ?g)"
    using accept_chunk [OF s le _ Cons.prems(2) off] Cons.prems
    by (simp add: snapshot_feed_def snapshot_matches_def)
  moreover have "snapshot_accepted (send_chunks header w h surface rs) ?g =
      (send_chunks header w h surface rs, ?g\<lparr>sg_next_offset := of_nat b\<rparr>)"
    using c add Cons.prems(2) by (intro Cons.IH) (simp_all add: snapshot_matches_def)
  ultimately show ?case
    by simp
qed

lemma begin_chunk:
  assumes s: "surface_ok w h surface"
    and le: "unat (wr_size r) \<le> length surface" "0 < unat (wr_size r)" "wr_offset r = 0"
    and h: "vh_type header = full_snapshot" "vh_session_generation header \<noteq> 0"
      "vh_representation_epoch header \<noteq> 0" "vh_frame_id header \<noteq> 0"
  shows "snapshot_begin header (chunk_at w h surface r) new_snapshot_guard =
    (True, \<lparr>sg_active = True, sg_session_generation = vh_session_generation header,
       sg_representation_epoch = vh_representation_epoch header, sg_frame_id = vh_frame_id header,
       sg_width = w, sg_height = h, sg_row_stride = w * 4, sg_total_bytes = w * 4 * h,
       sg_next_offset = wr_size r\<rparr>)"
proof -
  have "surface \<noteq> []"
    using le by auto
  then show ?thesis
    using le h surface_numbers [OF s] s
    by (simp add: snapshot_begin_True) (simp add: chunk_at_def new_snapshot_guard_def surface_ok_def)
qed

lemma sent_is_assembled:
  assumes s: "surface_ok w h surface" and rs: "consecutive 0 rs (length surface)"
    and h: "vh_type header = full_snapshot" "vh_session_generation header \<noteq> 0"
      "vh_representation_epoch header \<noteq> 0" "vh_frame_id header \<noteq> 0"
  shows "snapshot_accepted (send_chunks header w h surface rs) new_snapshot_guard =
    (send_chunks header w h surface rs,
     \<lparr>sg_active = True, sg_session_generation = vh_session_generation header,
       sg_representation_epoch = vh_representation_epoch header, sg_frame_id = vh_frame_id header,
       sg_width = w, sg_height = h, sg_row_stride = w * 4, sg_total_bytes = w * 4 * h,
       sg_next_offset = w * 4 * h\<rparr>)"
proof (cases rs)
  case Nil
  then show ?thesis
    using rs s by (auto simp: surface_ok_def)
next
  case (Cons r rs')
  have r: "wr_offset r = 0" "0 < unat (wr_size r)" and c: "consecutive (unat (wr_size r)) rs' (length surface)"
    using rs Cons by (simp_all add: unat_eq_0)
  have tot: "of_nat (length surface) = w * 4 * h"
    by (simp flip: surface_numbers(2) [OF s])
  let ?g = "\<lparr>sg_active = True, sg_session_generation = vh_session_generation header,
       sg_representation_epoch = vh_representation_epoch header, sg_frame_id = vh_frame_id header,
       sg_width = w, sg_height = h, sg_row_stride = w * 4, sg_total_bytes = w * 4 * h,
       sg_next_offset = wr_size r\<rparr>"
  have "snapshot_feed (header, chunk_at w h surface r) new_snapshot_guard = (True, ?g)"
    using begin_chunk [OF s consecutive_le [OF c] r(2,1) h] by (simp add: snapshot_feed_def new_snapshot_guard_def)
  moreover have "snapshot_accepted (send_chunks header w h surface rs') ?g =
      (send_chunks header w h surface rs', ?g\<lparr>sg_next_offset := of_nat (length surface)\<rparr>)"
    using c h(1) by (intro accept_chunks [OF s]) (simp_all add: snapshot_matches_def chunk_at_def)
  ultimately show ?thesis
    using Cons tot by simp
qed

lemma consecutive_bounds: "consecutive a rs b \<Longrightarrow> r \<in> set rs \<Longrightarrow> unat (wr_offset r) + unat (wr_size r) \<le> b"
proof (induction rs arbitrary: a)
  case (Cons r' rs)
  then have c: "consecutive (a + unat (wr_size r')) rs b"
    by simp
  show ?case
    using Cons consecutive_le [OF c] c by auto
qed simp

lemma chunk_at_ok:
  assumes s: "surface_ok w h surface"
    and r: "unat (wr_offset r) + unat (wr_size r) \<le> length surface" "0 < unat (wr_size r)"
      "unat (wr_size r) \<le> maximum_snapshot_wire_chunk_bytes"
  shows "snapshot_chunk_ok (chunk_at w h surface r)"
proof -
  have "validate_dimensions w h = Inr ()"
    using s by (simp add: validate_dimensions_def surface_ok_def throw_if_eq_Inr word_less_nat_alt flip: unat_eq_0)
  moreover have "length (sc_chunk (chunk_at w h surface r)) = unat (wr_size r)"
    by (rule length_chunk_at [OF r(1)])
  moreover from this have "sc_chunk (chunk_at w h surface r) \<noteq> []"
    using r(2) by auto
  moreover have "0 < length surface" "length surface = unat w * 4 * unat h"
    using s by (simp_all add: surface_ok_def)
  ultimately show ?thesis
    using r surface_numbers [OF s] by (simp add: snapshot_chunk_ok_def) (simp add: chunk_at_def)
qed

lemma consecutive_pos: "consecutive a rs b \<Longrightarrow> r \<in> set rs \<Longrightarrow> 0 < unat (wr_size r)"
  by (induction rs arbitrary: a) auto

text \<open>C5. A surface that is sent in the bursts of a plan arrives whole: every chunk has an encoding, a
  receiver's guard accepts all of them, their bytes together are the surface, and the guard is ready
  for the commit of the frame.\<close>

theorem snapshot_sent_is_assembled:
  assumes surface: "surface_ok w h surface"
    and plan: "drain_begin src (w * 4 * h) (w * 4) climit blimit new_drain_plan = (True, p)"
    and bursts: "take_bursts (unat h) p = Some (bursts, p')"
    and header: "vh_type header = full_snapshot" "vh_session_generation header \<noteq> 0"
      "vh_representation_epoch header \<noteq> 0" "vh_frame_id header \<noteq> 0"
  shows "\<exists>g. snapshot_accepted (send_chunks header w h surface (concat bursts)) new_snapshot_guard =
      (send_chunks header w h surface (concat bursts), g) \<and>
    snapshot_ready (header\<lparr>vh_type := frame_commit\<rparr>) \<lparr>fc_base_frame_id = 0\<rparr> g \<and>
    concat (map (\<lambda>hc. sc_chunk (snd hc)) (send_chunks header w h surface (concat bursts))) = surface \<and>
    list_all (\<lambda>hc. succeeds (encode_visual_full_snapshot_chunk (snd hc)))
      (send_chunks header w h surface (concat bursts))"
proof -
  note nums = surface_numbers [OF surface]
  have "unat (w * 4 * h) div unat (w * 4) = unat h"
    using surface by (simp add: nums surface_ok_def)
  moreover obtain bursts' p'' where "take_bursts (unat h) p = Some (bursts', p'')"
    and small: "list_all (\<lambda>r. unat (wr_size r) \<le> unat climit \<and> unat (w * 4) dvd unat (wr_size r) \<and>
      wr_final r = (unat (wr_offset r) + unat (wr_size r) = unat (w * 4 * h))) (concat bursts')"
    and "unat (w * 4 * h) div unat (w * 4) \<le> unat h \<Longrightarrow> consecutive 0 (concat bursts') (unat (w * 4 * h))"
    using snapshot_plan [OF plan, of "unat h"] by auto
  ultimately have con: "consecutive 0 (concat bursts) (length surface)"
    and small: "list_all (\<lambda>r. unat (wr_size r) \<le> unat climit) (concat bursts)"
    using bursts nums(2) by (auto simp: list_all_iff)
  have "unat climit \<le> maximum_snapshot_wire_chunk_bytes"
    using plan by (auto simp: drain_begin_def split: if_splits)
  then have "succeeds (encode_visual_full_snapshot_chunk (chunk_at w h surface r))" if "r \<in> set (concat bursts)" for r
    using chunk_at_ok [OF surface consecutive_bounds [OF con that] consecutive_pos [OF con that]] small that
    by (fastforce simp: succeeds_iff encode_snapshot_chunk_eq list_all_iff)
  then show ?thesis
    using sent_is_assembled [OF surface con header] concat_chunks [OF con order_refl, of header w h]
    by (auto simp: snapshot_ready_def header list_all_iff send_chunks_def)
qed

definition sample_snapshot_header :: visual_message_header where
  "sample_snapshot_header = \<lparr>vh_type = full_snapshot, vh_flags = 0, vh_payload_size = 36,
     vh_session_generation = 7, vh_representation_epoch = 1, vh_visual_sequence = 1,
     vh_frame_id = 5, vh_captured_at_us = 1\<rparr>"

definition sample_surface :: "byte list" where
  "sample_surface = map of_nat [0..<16]"

lemma sample_surface_ok: "surface_ok 2 2 sample_surface"
  by (simp add: surface_ok_def sample_surface_def)

theorem snapshot_sent_is_assembled_witness:
  "\<exists>p bursts p' g. drain_begin 5 16 8 8 8 new_drain_plan = (True, p) \<and>
     take_bursts 2 p = Some (bursts, p') \<and>
     snapshot_accepted (send_chunks sample_snapshot_header 2 2 sample_surface (concat bursts))
       new_snapshot_guard = (send_chunks sample_snapshot_header 2 2 sample_surface (concat bursts), g) \<and>
     snapshot_ready (sample_snapshot_header\<lparr>vh_type := frame_commit\<rparr>) \<lparr>fc_base_frame_id = 0\<rparr> g"
proof -
  obtain p where p: "drain_begin 5 16 8 8 8 new_drain_plan = (True, p)"
    by (simp add: drain_begin_def new_drain_plan_def Let_def)
  obtain bursts p' where b: "take_bursts 2 p = Some (bursts, p')"
    using take_bursts_spec [OF plan_wf_begin(1) [OF p], of 2] by blast
  show ?thesis
    using snapshot_sent_is_assembled [OF sample_surface_ok, of 5 8 8 p bursts p' sample_snapshot_header] p b
    by (auto simp: sample_snapshot_header_def)
qed

theorem snapshot_ready_only_when_whole_witness:
  "\<exists>acc g. snapshot_accepted (send_chunks sample_snapshot_header 2 2 sample_surface
       [\<lparr>wr_offset = 0, wr_size = 8, wr_final = False\<rparr>, \<lparr>wr_offset = 8, wr_size = 8, wr_final = True\<rparr>])
       new_snapshot_guard = (acc, g) \<and> length (concat (map (\<lambda>hc. sc_chunk (snd hc)) acc)) = 16"
proof -
  let ?rs = "[\<lparr>wr_offset = 0, wr_size = 8, wr_final = False\<rparr>, \<lparr>wr_offset = 8, wr_size = 8, wr_final = True\<rparr>]
    :: snapshot_wire_range list"
  have con: "consecutive 0 ?rs (length sample_surface)"
    by (simp add: sample_surface_def)
  note sent = sent_is_assembled [OF sample_surface_ok con, of sample_snapshot_header]
  show ?thesis
    using snapshot_ready_only_when_whole [OF sent, of "sample_snapshot_header\<lparr>vh_type := frame_commit\<rparr>" "\<lparr>fc_base_frame_id = 0\<rparr>"] sent
    by (auto simp: sample_snapshot_header_def snapshot_ready_def)
qed

section \<open>The pixels of a transaction\<close>

text \<open>
  The rectangles a run of the guard accepts, oldest first, and the pixels of a rectangle as
  coordinates that do not wrap.
\<close>

fun rects_accepted ::
  "(visual_message_header \<times> visual_raw_rect) list \<Rightarrow> raw_rect_guard \<Rightarrow>
     (visual_message_header \<times> visual_raw_rect) list \<times> raw_rect_guard" where
  "rects_accepted [] g = ([], g)"
| "rects_accepted (hr # hrs) g = (case rect_accept (fst hr) (snd hr) g of
     (taken, g') \<Rightarrow> (case rects_accepted hrs g' of
       (acc, g'') \<Rightarrow> (if taken then hr # acc else acc, g'')))"

definition rect_pixels :: "visual_raw_rect \<Rightarrow> (nat \<times> nat) set" where
  "rect_pixels r = {unat (rr_x r)..<unat (rr_x r) + unat (rr_width r)} \<times>
     {unat (rr_y r)..<unat (rr_y r) + unat (rr_height r)}"

text \<open>What decoding a rectangle guarantees: it lies within its surface.\<close>

definition rect_in_surface :: "visual_raw_rect \<Rightarrow> bool" where
  "rect_in_surface r \<longleftrightarrow>
     unat (rr_x r) + unat (rr_width r) \<le> unat (rr_surface_width r) \<and>
     unat (rr_y r) + unat (rr_height r) \<le> unat (rr_surface_height r)"

lemma decoded_rect_in_surface: "decode_visual_raw_rect bs = Inr r \<Longrightarrow> rect_in_surface r"
  by (simp add: raw_rect_codec encode_raw_rect_eq raw_rect_ok_def rect_in_surface_def)

lemma bounds_unat:
  assumes "rect_in_surface r"
  shows "unat (bd_right (bounds_of r)) = unat (rr_x r) + unat (rr_width r)"
    "unat (bd_bottom (bounds_of r)) = unat (rr_y r) + unat (rr_height r)"
  using assms unsigned_less [of "rr_surface_width r", where 'a = nat]
    unsigned_less [of "rr_surface_height r", where 'a = nat]
  by (simp_all add: bounds_of_def unat_word_ariths rect_in_surface_def)

lemma overlap_pixels:
  assumes "rect_in_surface r" "rect_in_surface s" "\<not> bounds_overlap (bounds_of r) (bounds_of s)"
  shows "rect_pixels r \<inter> rect_pixels s = {}"
proof -
  have left: "bd_left (bounds_of q) = rr_x q" "bd_top (bounds_of q) = rr_y q" for q
    by (simp_all add: bounds_of_def)
  show ?thesis
    using assms(3) bounds_unat [OF assms(1)] bounds_unat [OF assms(2)]
    by (auto simp: bounds_overlap_def word_less_nat_alt left rect_pixels_def not_less)
qed

definition rect_of_transaction :: "raw_rect_guard \<Rightarrow> visual_message_header \<times> visual_raw_rect \<Rightarrow> bool" where
  "rect_of_transaction g hr \<longleftrightarrow>
     vh_session_generation (fst hr) = rg_session_generation g \<and>
     vh_representation_epoch (fst hr) = rg_representation_epoch g \<and>
     vh_frame_id (fst hr) = rg_target_frame_id g \<and>
     rr_base_frame_id (snd hr) = rg_base_frame_id g \<and>
     rg_base_frame_id g < rg_target_frame_id g"

definition rects_bytes :: "(visual_message_header \<times> visual_raw_rect) list \<Rightarrow> nat" where
  "rects_bytes acc = sum_list (map (\<lambda>hr. length (rr_bgra (snd hr))) acc)"

definition transaction ::
  "(visual_message_header \<times> visual_raw_rect) list \<Rightarrow> raw_rect_guard \<Rightarrow> bool" where
  "transaction acc g \<longleftrightarrow> (\<not> rg_active g \<longrightarrow> acc = []) \<and>
     rg_rectangles g = map (\<lambda>hr. bounds_of (snd hr)) acc \<and>
     list_all (rect_of_transaction g) acc \<and>
     rg_packed_bytes g = rects_bytes acc \<and> rects_bytes acc \<le> maximum_raw_rect_protocol_bytes \<and>
     length acc \<le> maximum_raw_rect_transaction_count \<and>
     pairwise (\<lambda>i j. rect_pixels (snd (acc ! i)) \<inter> rect_pixels (snd (acc ! j)) = {}) {0..<length acc}"

lemma rect_accept_cases:
  assumes "rect_accept h r g = (taken, g')" "rg_active g \<or> rg_rectangles g = []"
  obtains "\<not> taken" "g' = g"
  | base where "taken" "length (rg_rectangles g) < maximum_raw_rect_transaction_count"
      "length (rr_bgra r) \<le> maximum_raw_rect_protocol_bytes - rg_packed_bytes g"
      "rr_base_frame_id r < vh_frame_id h"
      "base = (if rg_active g then g else rect_identify h r g)"
      "rect_same_transaction h r base" "rg_active base"
      "\<not> list_ex (bounds_overlap (bounds_of r)) (rg_rectangles g)"
      "g' = base\<lparr>rg_rectangles := rg_rectangles g @ [bounds_of r],
         rg_packed_bytes := rg_packed_bytes g + length (rr_bgra r)\<rparr>"
proof (cases taken)
  case False
  then have "g' = g"
    using assms by (auto simp: rect_accept_def Let_def rect_identify_def split: if_splits)
  then show ?thesis
    using that(1) False by blast
next
  case True
  then show ?thesis
    using assms(1) by (intro that(2) [of "if rg_active g then g else rect_identify h r g"])
      (auto simp: rect_accept_def Let_def rect_identify_def rect_same_transaction_def not_le split: if_splits)
qed

lemma pairwise_snoc:
  assumes "pairwise (\<lambda>i j. P (xs ! i) (xs ! j)) {0..<length xs}"
    and "\<And>x. x \<in> set xs \<Longrightarrow> P x y \<and> P y x"
  shows "pairwise (\<lambda>i j. P ((xs @ [y]) ! i) ((xs @ [y]) ! j)) {0..<length (xs @ [y])}"
  using assms by (auto simp: pairwise_def nth_append less_Suc_eq)

lemma transaction_accept:
  assumes t: "transaction acc g" and acc: "rect_accept (fst hr) (snd hr) g = (taken, g')"
    and surf: "rect_in_surface (snd hr)" "list_all (\<lambda>hr. rect_in_surface (snd hr)) acc"
  shows "transaction (if taken then acc @ [hr] else acc) g'"
proof -
  have idle: "rg_active g \<or> rg_rectangles g = []"
    using t by (auto simp: transaction_def)
  show ?thesis
  proof (rule rect_accept_cases [OF acc idle])
    assume "\<not> taken" "g' = g"
    then show ?thesis
      using t by simp
  next
    fix base
    assume g: "taken" "length (rg_rectangles g) < maximum_raw_rect_transaction_count"
      "length (rr_bgra (snd hr)) \<le> maximum_raw_rect_protocol_bytes - rg_packed_bytes g"
      "rr_base_frame_id (snd hr) < vh_frame_id (fst hr)"
      and base: "base = (if rg_active g then g else rect_identify (fst hr) (snd hr) g)"
      "rect_same_transaction (fst hr) (snd hr) base" "rg_active base"
      and free: "\<not> list_ex (bounds_overlap (bounds_of (snd hr))) (rg_rectangles g)"
      and g': "g' = base\<lparr>rg_rectangles := rg_rectangles g @ [bounds_of (snd hr)],
         rg_packed_bytes := rg_packed_bytes g + length (rr_bgra (snd hr))\<rparr>"
    have same: "rect_of_transaction g' = rect_of_transaction base"
      by (simp add: g' rect_of_transaction_def fun_eq_iff)
    have "list_all (rect_of_transaction base) acc"
      using t base(1) by (auto simp: transaction_def)
    moreover have "rect_of_transaction base hr"
      using base(2) g(4) by (simp add: rect_of_transaction_def rect_same_transaction_def)
    moreover have "rect_pixels (snd x) \<inter> rect_pixels (snd hr) = {}" if "x \<in> set acc" for x
    proof -
      have "\<not> bounds_overlap (bounds_of (snd hr)) (bounds_of (snd x))"
        using free t that by (auto simp: transaction_def list_ex_iff)
      moreover have "rect_in_surface (snd x)"
        using surf(2) that by (simp add: list_all_iff)
      ultimately show ?thesis
        using overlap_pixels [OF surf(1)] by blast
    qed
    ultimately show ?thesis
      using t g base(3) pairwise_snoc [of "\<lambda>x y. rect_pixels (snd x) \<inter> rect_pixels (snd y) = {}" acc hr]
      unfolding transaction_def same by (auto simp: g' rects_bytes_def)
  qed
qed

lemma transaction_run:
  "transaction acc g \<Longrightarrow> list_all (\<lambda>hr. rect_in_surface (snd hr)) (acc @ hrs) \<Longrightarrow>
     transaction (acc @ fst (rects_accepted hrs g)) (snd (rects_accepted hrs g))"
proof (induction hrs arbitrary: acc g)
  case (Cons hr hrs)
  obtain taken g' where f: "rect_accept (fst hr) (snd hr) g = (taken, g')"
    by (cases "rect_accept (fst hr) (snd hr) g")
  have "transaction (if taken then acc @ [hr] else acc) g'"
    using Cons.prems by (intro transaction_accept [OF _ f]) simp_all
  from Cons.IH [OF this] show ?case
    using f Cons.prems(2) by (auto split: prod.split)
qed simp

text \<open>C19. The rectangles a transaction accepts change every pixel at most once: when they lie within
  their surfaces, as decoded ones do, no two of them share a pixel, they are at most 256, their pixels
  together fit the protocol limit, and all go from the same base frame to the same newer target in
  the same session and epoch, which are those of any commit the guard is ready for.\<close>

theorem raw_rect_transaction_disjoint:
  assumes "rects_accepted hrs new_rect_guard = (acc, g)"
    and "\<forall>hr\<in>set hrs. rect_in_surface (snd hr)"
  shows "(i < j \<and> j < length acc \<longrightarrow> rect_pixels (snd (acc ! i)) \<inter> rect_pixels (snd (acc ! j)) = {}) \<and>
    length acc \<le> maximum_raw_rect_transaction_count \<and>
    sum_list (map (\<lambda>hr. length (rr_bgra (snd hr))) acc) \<le> maximum_raw_rect_protocol_bytes \<and>
    (rect_ready header commit g \<longrightarrow> acc \<noteq> [] \<and>
      list_all (\<lambda>(h, r). vh_session_generation h = vh_session_generation header \<and>
        vh_representation_epoch h = vh_representation_epoch header \<and>
        vh_frame_id h = vh_frame_id header \<and> rr_base_frame_id r = fc_base_frame_id commit \<and>
        fc_base_frame_id commit < vh_frame_id header) acc)"
proof -
  have "transaction [] new_rect_guard"
    by (simp add: transaction_def new_rect_guard_def rects_bytes_def)
  from transaction_run [OF this, of hrs] have t: "transaction acc g"
    using assms by (simp add: list_all_iff)
  then have "i < j \<and> j < length acc \<longrightarrow> rect_pixels (snd (acc ! i)) \<inter> rect_pixels (snd (acc ! j)) = {}"
    by (auto simp: transaction_def pairwise_def)
  moreover have "rect_ready header commit g \<longrightarrow> acc \<noteq> [] \<and>
      list_all (\<lambda>(h, r). vh_session_generation h = vh_session_generation header \<and>
        vh_representation_epoch h = vh_representation_epoch header \<and>
        vh_frame_id h = vh_frame_id header \<and> rr_base_frame_id r = fc_base_frame_id commit \<and>
        fc_base_frame_id commit < vh_frame_id header) acc"
    using t by (auto simp: transaction_def rect_ready_def list_all_iff rect_of_transaction_def)
  ultimately show ?thesis
    using t by (auto simp: transaction_def rects_bytes_def)
qed

definition sample_rect_header :: visual_message_header where
  "sample_rect_header = \<lparr>vh_type = raw_rect, vh_flags = 0, vh_payload_size = 44,
     vh_session_generation = 7, vh_representation_epoch = 1, vh_visual_sequence = 1,
     vh_frame_id = 2, vh_captured_at_us = 1\<rparr>"

theorem raw_rect_transaction_disjoint_witness:
  "\<exists>acc g. rects_accepted [(sample_rect_header, sample_rect), (sample_rect_header, sample_rect),
       (sample_rect_header, sample_rect\<lparr>rr_x := 0\<rparr>)] new_rect_guard = (acc, g) \<and>
     map (rr_x \<circ> snd) acc = [1, 0] \<and> rect_pixels (snd (acc ! 0)) \<inter> rect_pixels (snd (acc ! 1)) = {}"
proof -
  let ?hrs = "[(sample_rect_header, sample_rect), (sample_rect_header, sample_rect),
       (sample_rect_header, sample_rect\<lparr>rr_x := 0\<rparr>)]"
  obtain acc g where run: "rects_accepted ?hrs new_rect_guard = (acc, g)"
    and xs: "map (rr_x \<circ> snd) acc = [1, 0]"
    by (simp add: rect_accept_def Let_def sample_rect_header_def sample_rect_def new_rect_guard_def
        rect_identify_def rect_same_transaction_def bounds_of_def bounds_overlap_def word_le_nat_alt)
  have "length acc = 2"
    using arg_cong [OF xs, of length] by simp
  then show ?thesis
    using raw_rect_transaction_disjoint [OF run, of 0 1] run xs
    by (auto simp: rect_in_surface_def sample_rect_def)
qed

end
