(* ===== verification/Clipboard.thy ===== *)
theory Clipboard
  imports Input Content_Hash
begin

text \<open>
  The shared clipboard of \<open>desktop/src/desktop.cpp\<close>: \<open>ClipboardUpdate\<close> with its validation and wire
  format, and \<open>ClipboardSynchronizer\<close>, which numbers the updates made here and applies those of other
  origins at most once.
\<close>

abbreviation maximum_clipboard_text_size :: nat where
  "maximum_clipboard_text_size \<equiv> 1048576"

record clipboard_update =
  cu_origin :: string
  cu_revision :: u64
  cu_content_sha256 :: string
  cu_utf8_text :: string

definition validate_clipboard :: "clipboard_update \<Rightarrow> unit result" where
  "validate_clipboard u =
     (if cu_origin u = [] \<or> length (cu_origin u) > 128 \<or> CHR 0x00 \<in> set (cu_origin u) \<or>
         cu_revision u = 0 \<or> length (cu_utf8_text u) > maximum_clipboard_text_size \<or>
         \<not> valid_utf8 (cu_utf8_text u) \<or> length (cu_content_sha256 u) \<noteq> 64
      then throw (Invalid_argument ''invalid clipboard update'')
      else and_then (sha256_hex_text (cu_utf8_text u)) (\<lambda>h.
        throw_if (cu_content_sha256 u \<noteq> h) (Invalid_argument ''invalid clipboard update'')))"

definition encode_clipboard_update :: "clipboard_update \<Rightarrow> byte list result" where
  "encode_clipboard_update u = and_then (validate_clipboard u) (\<lambda>_.
     and_then (checked_u32 (length (cu_utf8_text u))) (\<lambda>text_size.
     ok (clipboard_magic @ put_u16 1 @ put_u16 (of_nat (length (cu_origin u))) @ put_u64 (cu_revision u) @
         put_u16 (of_nat (length (cu_content_sha256 u))) @ put_u32 text_size @
         as_bytes (cu_origin u) @ as_bytes (cu_content_sha256 u) @ as_bytes (cu_utf8_text u))))"

definition decode_clipboard_update :: "byte list \<Rightarrow> clipboard_update result" where
  "decode_clipboard_update bs =
     (if length bs > maximum_clipboard_text_size + 256
      then throw (Length_error ''clipboard message exceeds limit'')
      else
     rseq (require_magic clipboard_magic) (\<lambda>_.
     rseq rd_u16 (\<lambda>version. rthrow_if (version \<noteq> 1) (Invalid_argument ''unsupported clipboard protocol version'') (
     rseq rd_u16 (\<lambda>origin_size. rseq rd_u64 (\<lambda>revision. rseq rd_u16 (\<lambda>hash_size. rseq rd_u32 (\<lambda>text_size.
     rthrow_if (origin_size = 0 \<or> origin_size > 128 \<or> hash_size \<noteq> 64 \<or>
         unat text_size > maximum_clipboard_text_size) (Length_error ''clipboard field exceeds limit'') (
     rseq (rd_span (unat origin_size)) (\<lambda>origin. rseq (rd_span (unat hash_size)) (\<lambda>hash.
     rseq (rd_span (unat text_size)) (\<lambda>txt.
       rend (Invalid_argument ''trailing bytes in clipboard update'')
         (let u = \<lparr>cu_origin = string_of_bytes origin, cu_revision = revision,
                cu_content_sha256 = string_of_bytes hash, cu_utf8_text = string_of_bytes txt\<rparr>
          in and_then (validate_clipboard u) (\<lambda>_. ok u)))))))))))))
     (new_reader bs))"

section \<open>The synchronizer\<close>

record clipboard_synchronizer =
  cs_local_origin :: string
  cs_revisions :: "string \<rightharpoonup> u64"
  cs_latest_hash :: "string option"
  cs_latest_text :: "string option"

definition new_synchronizer :: "string \<Rightarrow> clipboard_synchronizer result" where
  "new_synchronizer local_origin =
     (if local_origin = [] \<or> length local_origin > 128 \<or> CHR 0x00 \<in> set local_origin
      then throw (Invalid_argument ''clipboard origin is invalid'')
      else ok \<lparr>cs_local_origin = local_origin, cs_revisions = Map.empty, cs_latest_hash = None,
        cs_latest_text = None\<rparr>)"

text \<open>Reading \<open>revisions_[origin]\<close> stores 0 for an origin that has no entry.\<close>

definition revision_of :: "string \<Rightarrow> clipboard_synchronizer \<Rightarrow> u64" where
  "revision_of origin s = (case cs_revisions s origin of None \<Rightarrow> 0 | Some r \<Rightarrow> r)"

definition touch_revision :: "string \<Rightarrow> clipboard_synchronizer \<Rightarrow> clipboard_synchronizer" where
  "touch_revision origin s = s\<lparr>cs_revisions := (cs_revisions s)(origin \<mapsto> revision_of origin s)\<rparr>"

definition make_update ::
  "string \<Rightarrow> u64 \<Rightarrow> authorization_result \<Rightarrow> (clipboard_synchronizer, clipboard_update) call" where
  "make_update txt revision auth s =
     (if \<not> permits auth clipboard_read
      then (throw (Logic_error ''clipboard read capability is required''), s)
      else (case sha256_hex_text txt of
        Inl e \<Rightarrow> (throw e, s)
      | Inr h \<Rightarrow>
          let u = \<lparr>cu_origin = cs_local_origin s, cu_revision = revision, cu_content_sha256 = h,
                   cu_utf8_text = txt\<rparr>
          in (case validate_clipboard u of
                Inl e \<Rightarrow> (throw e, s)
              | Inr _ \<Rightarrow>
                  let previous = revision_of (cs_local_origin s) s;
                      s' = touch_revision (cs_local_origin s) s
                  in if revision \<le> previous
                     then (throw (Invalid_argument ''clipboard revision must increase''), s')
                     else (ok u, s'\<lparr>cs_revisions := (cs_revisions s')(cs_local_origin s \<mapsto> revision),
                             cs_latest_hash := Some h, cs_latest_text := Some txt\<rparr>))))"

definition apply_update ::
  "clipboard_update \<Rightarrow> authorization_result \<Rightarrow> (clipboard_synchronizer, bool) call" where
  "apply_update u auth s =
     (if \<not> permits auth clipboard_write
      then (throw (Logic_error ''clipboard write capability is required''), s)
      else (case validate_clipboard u of
        Inl e \<Rightarrow> (throw e, s)
      | Inr _ \<Rightarrow>
          if cu_origin u = cs_local_origin s then (ok False, s)
          else
            let previous = revision_of (cu_origin u) s; s1 = touch_revision (cu_origin u) s
            in if cu_revision u \<le> previous then (ok False, s1)
               else
                 let s2 = s1\<lparr>cs_revisions := (cs_revisions s1)(cu_origin u \<mapsto> cu_revision u)\<rparr>
                 in if cs_latest_hash s2 = Some (cu_content_sha256 u) then (ok False, s2)
                    else (ok True, s2\<lparr>cs_latest_hash := Some (cu_content_sha256 u),
                            cs_latest_text := Some (cu_utf8_text u)\<rparr>)))"

section \<open>Codec laws\<close>

lemma validate_clipboard_lengths:
  "validate_clipboard u = Inr () \<Longrightarrow> cu_origin u \<noteq> [] \<and> length (cu_origin u) \<le> 128 \<and>
     length (cu_content_sha256 u) = 64 \<and> length (cu_utf8_text u) \<le> maximum_clipboard_text_size"
  by (simp add: validate_clipboard_def split: if_splits)

lemma encode_clipboard_eq:
  "encode_clipboard_update u = Inr bs \<longleftrightarrow> validate_clipboard u = Inr () \<and>
     bs = clipboard_magic @ put_u16 1 @ put_u16 (of_nat (length (cu_origin u))) @ put_u64 (cu_revision u) @
         put_u16 64 @ put_u32 (of_nat (length (cu_utf8_text u))) @
         as_bytes (cu_origin u) @ as_bytes (cu_content_sha256 u) @ as_bytes (cu_utf8_text u)"
  using validate_clipboard_lengths [of u]
  by (auto simp: encode_clipboard_update_def result_simps checked_u32_eq)

lemma u16_origin_size:
  assumes "length o' \<le> 128" "o' \<noteq> []"
  shows "(of_nat (length o') :: u16) \<noteq> 0" "(of_nat (length o') :: u16) \<le> 128"
    "unat (of_nat (length o') :: u16) = length o'"
proof -
  show u: "unat (of_nat (length o') :: u16) = length o'"
    using assms(1) by (simp add: unat_of_nat)
  show "(of_nat (length o') :: u16) \<noteq> 0"
    using assms(2) u by (metis length_0_conv unat_0)
  show "(of_nat (length o') :: u16) \<le> 128"
    using assms(1) u by (simp add: word_le_nat_alt)
qed

lemma clipboard_codec: "decode_clipboard_update bs = Inr u \<longleftrightarrow> encode_clipboard_update u = Inr bs"
proof
  assume "decode_clipboard_update bs = Inr u"
  then obtain osz revision tsz org hash content where
    bs: "bs = clipboard_magic @ put_u16 1 @ put_u16 osz @ put_u64 revision @ put_u16 64 @ put_u32 tsz @
      org @ hash @ content"
    and len: "length org = unat osz" "length hash = 64" "length content = unat tsz"
    and u: "u = \<lparr>cu_origin = string_of_bytes org, cu_revision = revision,
                cu_content_sha256 = string_of_bytes hash, cu_utf8_text = string_of_bytes content\<rparr>"
    and v: "validate_clipboard u = Inr ()"
    by (auto simp: decode_clipboard_update_def decode_simps result_simps Let_def split: if_splits)
  have "osz = of_nat (length org)" "tsz = of_nat (length content)"
    by (simp_all add: len)
  then show "encode_clipboard_update u = Inr bs"
    using v unfolding encode_clipboard_eq by (simp add: bs u)
next
  assume "encode_clipboard_update u = Inr bs"
  then have v: "validate_clipboard u = Inr ()"
    and bs: "bs = clipboard_magic @ put_u16 1 @ put_u16 (of_nat (length (cu_origin u))) @ put_u64 (cu_revision u) @
         put_u16 64 @ put_u32 (of_nat (length (cu_utf8_text u))) @
         as_bytes (cu_origin u) @ as_bytes (cu_content_sha256 u) @ as_bytes (cu_utf8_text u)"
    by (simp_all add: encode_clipboard_eq)
  note len = validate_clipboard_lengths [OF v]
  have t: "unat (of_nat (length (cu_utf8_text u)) :: u32) = length (cu_utf8_text u)"
    using len by (simp add: unat_of_nat)
  note o' = u16_origin_size [of "cu_origin u"]
  have "length clipboard_magic = 4"
    by (simp add: clipboard_magic_def)
  then have "length bs \<le> maximum_clipboard_text_size + 256"
    using len by (simp add: bs)
  then show "decode_clipboard_update bs = Inr u"
    using len o' t v
    by (cases u) (simp add: decode_clipboard_update_def decode_simps result_simps Let_def bs not_less
        string_of_bytes_eq_iff)
qed

interpretation clipboard_msg: message_codec "\<lambda>_. True" encode_clipboard_update decode_clipboard_update
  by unfold_locales (simp add: clipboard_codec)

section \<open>Calls of a synchronizer\<close>

datatype clipboard_call =
    Clip_make string u64 authorization_result
  | Clip_apply clipboard_update authorization_result

definition clipboard_step :: "clipboard_synchronizer \<Rightarrow> clipboard_call \<Rightarrow> clipboard_synchronizer" where
  "clipboard_step s call = (case call of
     Clip_make content revision auth \<Rightarrow> snd (make_update content revision auth s)
   | Clip_apply u auth \<Rightarrow> snd (apply_update u auth s))"

text \<open>What a successful call does.\<close>

lemma revision_of_touch [simp]: "revision_of x (touch_revision y s) = revision_of x s"
  by (simp add: revision_of_def touch_revision_def)

lemma touch_revision_simps [simp]:
  "cs_local_origin (touch_revision y s) = cs_local_origin s"
  "cs_latest_hash (touch_revision y s) = cs_latest_hash s"
  "cs_latest_text (touch_revision y s) = cs_latest_text s"
  by (simp_all add: touch_revision_def)

lemma revision_of_upd [simp]:
  "revision_of x (s\<lparr>cs_revisions := m(y \<mapsto> r)\<rparr>) = (if x = y then r else revision_of x (s\<lparr>cs_revisions := m\<rparr>))"
  "revision_of x (s\<lparr>cs_latest_hash := h\<rparr>) = revision_of x s"
  "revision_of x (s\<lparr>cs_latest_text := t\<rparr>) = revision_of x s"
  by (simp_all add: revision_of_def)

lemma revision_of_same [simp]: "revision_of x (s\<lparr>cs_revisions := cs_revisions s'\<rparr>) = revision_of x s'"
  by (simp add: revision_of_def)

lemma make_update_ok:
  assumes "make_update content revision auth s = (Inr u, s')"
  shows "permits auth clipboard_read" "validate_clipboard u = Inr ()" "cu_origin u = cs_local_origin s"
    "cu_revision u = revision" "cu_utf8_text u = content"
    "sha256_hex_text content = Inr (cu_content_sha256 u)"
    "revision_of (cs_local_origin s) s < revision"
    "cs_local_origin s' = cs_local_origin s" "cs_latest_text s' = Some content"
    "cs_latest_hash s' = Some (cu_content_sha256 u)"
    "revision_of x s' = (if x = cs_local_origin s then revision else revision_of x s)"
  using assms by (auto simp: make_update_def Let_def split: if_splits sum.splits)

lemma apply_update_ok:
  assumes "apply_update u auth s = (Inr taken, s')"
  shows "permits auth clipboard_write" "validate_clipboard u = Inr ()"
    "taken \<longrightarrow> cu_origin u \<noteq> cs_local_origin s \<and> revision_of (cu_origin u) s < cu_revision u \<and>
       cs_latest_text s' = Some (cu_utf8_text u) \<and> cs_latest_hash s' = Some (cu_content_sha256 u)"
    "\<not> taken \<longrightarrow> cs_latest_text s' = cs_latest_text s \<and> cs_latest_hash s' = cs_latest_hash s"
    "cu_origin u \<noteq> cs_local_origin s \<longrightarrow> cu_revision u \<le> revision_of (cu_origin u) s'"
  using assms by (auto simp: apply_update_def Let_def split: if_splits sum.splits)

text \<open>No call lowers a revision or changes the local origin.\<close>

lemma clipboard_step_revision: "revision_of x s \<le> revision_of x (clipboard_step s call)"
  by (cases call) (auto simp: clipboard_step_def make_update_def apply_update_def Let_def not_le
      split: sum.split)

lemma clipboard_step_origin: "cs_local_origin (clipboard_step s call) = cs_local_origin s"
  by (cases call) (auto simp: clipboard_step_def make_update_def apply_update_def Let_def split: sum.split)

interpretation revisions: monotone_machine clipboard_step s0 "\<lambda>_. True" "revision_of x" for s0 x
  by unfold_locales (simp_all add: clipboard_step_revision)

lemma clipboard_run_origin: "cs_local_origin (foldl clipboard_step s calls) = cs_local_origin s"
  by (induction calls arbitrary: s) (simp_all add: clipboard_step_origin)

text \<open>The latest text and the latest hash belong together.\<close>

definition latest_ok :: "clipboard_synchronizer \<Rightarrow> bool" where
  "latest_ok s \<longleftrightarrow> (case cs_latest_text s of
     None \<Rightarrow> cs_latest_hash s = None
   | Some t \<Rightarrow> (\<exists>h. cs_latest_hash s = Some h \<and> sha256_hex_text t = Inr h))"

lemma validate_clipboard_hash:
  "validate_clipboard u = Inr () \<Longrightarrow> sha256_hex_text (cu_utf8_text u) = Inr (cu_content_sha256 u)"
  by (auto simp: validate_clipboard_def result_simps split: if_splits)

lemma latest_ok_step: "latest_ok s \<Longrightarrow> latest_ok (clipboard_step s call)"
  by (cases call) (auto simp: clipboard_step_def make_update_def apply_update_def Let_def latest_ok_def
      dest: validate_clipboard_hash split: sum.split option.splits)

interpretation latest: invariant_machine clipboard_step
  "\<lparr>cs_local_origin = local_origin, cs_revisions = Map.empty, cs_latest_hash = None, cs_latest_text = None\<rparr>"
  latest_ok for local_origin
  by unfold_locales (simp add: latest_ok_def, rule latest_ok_step)

lemma sha256_hex_text_small:
  "length t \<le> maximum_clipboard_text_size \<Longrightarrow>
     sha256_hex_text t = Inr (to_hex (sha256_reference (as_bytes t)))"
  by (simp add: sha256_hex_text_def sha256_hex_def sha256_eq_reference)

lemma length_sha256_reference_hex:
  assumes "length t \<le> maximum_clipboard_text_size"
  shows "length (to_hex (sha256_reference (as_bytes t))) = 64"
  using is_sha256_hex_sha256 [of "as_bytes t"] sha256_hex_text_small [OF assms]
  by (simp only: sha256_hex_text_def is_sha256_hex_def)

lemma validate_clipboard_eq:
  "validate_clipboard u = Inr () \<longleftrightarrow>
     cu_origin u \<noteq> [] \<and> length (cu_origin u) \<le> 128 \<and> CHR 0x00 \<notin> set (cu_origin u) \<and>
     cu_revision u \<noteq> 0 \<and> length (cu_utf8_text u) \<le> maximum_clipboard_text_size \<and>
     valid_utf8 (cu_utf8_text u) \<and>
     cu_content_sha256 u = to_hex (sha256_reference (as_bytes (cu_utf8_text u)))"
proof (cases "length (cu_utf8_text u) \<le> maximum_clipboard_text_size")
  case True
  show ?thesis
    using length_sha256_reference_hex [OF True]
    by (auto simp: validate_clipboard_def sha256_hex_text_small [OF True] throw_if_def)
qed (simp add: validate_clipboard_def)

section \<open>Properties\<close>

text \<open>A clipboard message is accepted exactly when it is the encoding of an update with a bounded
  origin without NUL, a positive revision, a bounded UTF-8 text and the SHA-256 of that text.\<close>

theorem clipboard_codec_exact:
  "(decode_clipboard_update bs = Inr u) = (encode_clipboard_update u = Inr bs) \<and>
   (encode_clipboard_update u = Inr bs) =
     (cu_origin u \<noteq> [] \<and> length (cu_origin u) \<le> 128 \<and> CHR 0x00 \<notin> set (cu_origin u) \<and>
      cu_revision u \<noteq> 0 \<and> length (cu_utf8_text u) \<le> maximum_clipboard_text_size \<and>
      valid_utf8 (cu_utf8_text u) \<and>
      cu_content_sha256 u = to_hex (sha256_reference (as_bytes (cu_utf8_text u))) \<and>
      bs = clipboard_magic @ put_u16 1 @ put_u16 (of_nat (length (cu_origin u))) @ put_u64 (cu_revision u) @
         put_u16 64 @ put_u32 (of_nat (length (cu_utf8_text u))) @
         as_bytes (cu_origin u) @ as_bytes (cu_content_sha256 u) @ as_bytes (cu_utf8_text u))"
  by (simp add: clipboard_codec encode_clipboard_eq validate_clipboard_eq)

text \<open>Nothing echoes: an update made here, whenever it comes back and whatever was done in between, is
  not applied here and changes nothing.\<close>

theorem clipboard_no_echo:
  assumes "make_update content revision auth s = (Inr u, s')"
  shows "apply_update u auth' (foldl clipboard_step s' calls) =
    (if permits auth' clipboard_write then Inr False
     else Inl (Logic_error ''clipboard write capability is required''),
     foldl clipboard_step s' calls)"
  using make_update_ok(2,3,8) [OF assms] by (simp add: apply_update_def clipboard_run_origin)

definition clip_auth :: authorization_result where
  "clip_auth = \<lparr>ar_principal_matched = True, ar_workspace_allowed = True,
     ar_granted = {clipboard_read, clipboard_write}, ar_denied = {}\<rparr>"

definition sample_synchronizer :: "string \<Rightarrow> clipboard_synchronizer" where
  "sample_synchronizer local_origin = \<lparr>cs_local_origin = local_origin, cs_revisions = Map.empty,
     cs_latest_hash = None, cs_latest_text = None\<rparr>"

definition sample_update :: clipboard_update where
  "sample_update = \<lparr>cu_origin = ''a'', cu_revision = 1,
     cu_content_sha256 = to_hex (sha256_reference (as_bytes ''hi'')), cu_utf8_text = ''hi''\<rparr>"

lemma sample_update_valid: "validate_clipboard sample_update = Inr ()"
  by (simp add: validate_clipboard_eq sample_update_def char_code_def)

lemma sample_make:
  "make_update ''hi'' 1 clip_auth (sample_synchronizer ''a'') = (Inr sample_update,
     snd (make_update ''hi'' 1 clip_auth (sample_synchronizer ''a'')))"
  using sample_update_valid
  by (simp add: make_update_def sha256_hex_text_small sample_synchronizer_def clip_auth_def permits_def
      sample_update_def Let_def revision_of_def)

theorem clipboard_no_echo_witness:
  "fst (apply_update sample_update clip_auth
     (snd (make_update ''hi'' 1 clip_auth (sample_synchronizer ''a'')))) = Inr False"
  using clipboard_no_echo [OF sample_make, of clip_auth "[]"] by (simp add: clip_auth_def permits_def)

text \<open>An update is applied at most once and never out of order: once an update of another origin has
  been processed, no update of that origin with the same or an older revision is ever applied,
  whatever is done in between.\<close>

theorem clipboard_applied_at_most_once:
  assumes "apply_update u auth s = (Inr taken, s')" and "cu_origin u \<noteq> cs_local_origin s"
    and "cu_origin v = cu_origin u" and "cu_revision v \<le> cu_revision u"
  shows "fst (apply_update v auth' (foldl clipboard_step s' calls)) \<noteq> Inr True \<and>
    cs_latest_text (snd (apply_update v auth' (foldl clipboard_step s' calls))) =
      cs_latest_text (foldl clipboard_step s' calls)"
proof -
  let ?s = "foldl clipboard_step s' calls"
  have "cu_revision u \<le> revision_of (cu_origin u) s'"
    using apply_update_ok(5) [OF assms(1)] assms(2) by simp
  also have "\<dots> \<le> revision_of (cu_origin u) ?s"
    by (rule revisions.run_level) simp
  finally have "cu_revision v \<le> revision_of (cu_origin v) ?s"
    using assms(3,4) by (simp add: order_trans)
  then show ?thesis
    by (auto simp: apply_update_def Let_def split: sum.split)
qed

lemma sample_apply:
  "apply_update sample_update clip_auth (sample_synchronizer ''b'') = (Inr True,
     snd (apply_update sample_update clip_auth (sample_synchronizer ''b'')))"
  using sample_update_valid
  by (simp add: apply_update_def sample_synchronizer_def clip_auth_def permits_def
      sample_update_def Let_def revision_of_def touch_revision_def)

theorem clipboard_applied_at_most_once_witness:
  "fst (apply_update sample_update clip_auth (snd (apply_update sample_update clip_auth
     (sample_synchronizer ''b'')))) \<noteq> Inr True"
  using clipboard_applied_at_most_once [OF sample_apply, of sample_update clip_auth "[]"]
  by (simp add: sample_update_def sample_synchronizer_def)

text \<open>A copied text arrives: the update made for it has an encoding that decodes to it, and a
  synchronizer of another origin that has not seen the revision holds, after it processed the update, a
  text with the SHA-256 of the copied one, which is the copied one itself whenever it was applied.\<close>

theorem clipboard_text_arrives:
  assumes "make_update content revision auth a = (Inr u, a')"
    and "new_synchronizer there = Inr b0" and "there \<noteq> cs_local_origin a"
    and "revision_of (cs_local_origin a) (foldl clipboard_step b0 calls) < revision"
    and "permits auth' clipboard_write"
  shows "\<exists>bs taken b' t. encode_clipboard_update u = Inr bs \<and> decode_clipboard_update bs = Inr u \<and>
    apply_update u auth' (foldl clipboard_step b0 calls) = (Inr taken, b') \<and>
    cs_latest_text b' = Some t \<and> sha256_hex_text t = sha256_hex_text content \<and>
    (taken \<longrightarrow> t = content)"
proof -
  let ?b = "foldl clipboard_step b0 calls"
  note made = make_update_ok [OF assms(1)]
  have b0: "b0 = \<lparr>cs_local_origin = there, cs_revisions = Map.empty, cs_latest_hash = None, cs_latest_text = None\<rparr>"
    using assms(2) by (simp add: new_synchronizer_def split: if_splits)
  have ok: "latest_ok ?b"
    unfolding b0 by (rule latest.run_inv)
  have "cs_local_origin ?b = there"
    by (simp add: clipboard_run_origin b0)
  then have remote: "cu_origin u \<noteq> cs_local_origin ?b" "\<not> cu_revision u \<le> revision_of (cu_origin u) ?b"
    using assms(3,4) made by (auto simp: not_le)
  obtain bs where enc: "encode_clipboard_update u = Inr bs"
    using made(2) by (simp add: encode_clipboard_eq)
  obtain taken b' t where "apply_update u auth' ?b = (Inr taken, b') \<and> cs_latest_text b' = Some t \<and>
      sha256_hex_text t = sha256_hex_text content \<and> (taken \<longrightarrow> t = content)"
  proof (cases "cs_latest_hash ?b = Some (cu_content_sha256 u)")
    case True
    then obtain t where t: "cs_latest_text ?b = Some t" "sha256_hex_text t = Inr (cu_content_sha256 u)"
      using ok by (auto simp: latest_ok_def split: option.splits)
    show ?thesis
      using that [of False _ t] t True remote assms(5) made(2,6) by (simp add: apply_update_def Let_def)
  next
    case False
    show ?thesis
      using that [of True _ content] False remote assms(5) made(2,5,6) by (simp add: apply_update_def Let_def)
  qed
  with enc show ?thesis
    using clipboard_codec by blast
qed

theorem clipboard_text_arrives_witness:
  "\<exists>taken b' t. apply_update sample_update clip_auth (sample_synchronizer ''b'') = (Inr taken, b') \<and>
    cs_latest_text b' = Some t \<and> sha256_hex_text t = sha256_hex_text ''hi''"
proof -
  have "new_synchronizer ''b'' = Inr (sample_synchronizer ''b'')"
    by (simp add: new_synchronizer_def sample_synchronizer_def)
  from clipboard_text_arrives [OF sample_make this, of "[]" clip_auth] show ?thesis
    by (auto simp: sample_synchronizer_def revision_of_def clip_auth_def permits_def)
qed

end
