(* ===== verification/Desktop_Session.thy ===== *)
theory Desktop_Session
  imports Video_Fragments Clipboard
begin

text \<open>
  The rest of \<open>desktop/src/desktop.cpp\<close>: the adaptation of the video settings to the network, the
  recorder of latencies, and \<open>DesktopTransportSession\<close>, which puts frames, keyframe requests, input
  and clipboard updates on a transport. The transport is an interface of the program: the calls to it
  are a trace, and what it replies is a parameter that may depend on the calls before. A call that
  throws has no effect.
\<close>

section \<open>Video settings\<close>

record video_settings =
  vs_width :: u32
  vs_height :: u32
  vs_frames_per_second :: u32
  vs_bitrate_kbps :: u32
  vs_keyframe_interval :: u32

record network_telemetry =
  nt_round_trip_ms :: u32
  nt_loss_basis_points :: u32
  nt_send_queue_ms :: u32

definition network_congested :: "network_telemetry \<Rightarrow> bool" where
  "network_congested t \<longleftrightarrow>
     nt_loss_basis_points t \<ge> 200 \<or> nt_send_queue_ms t > 25 \<or> nt_round_trip_ms t > 80"

definition network_severe :: "network_telemetry \<Rightarrow> bool" where
  "network_severe t \<longleftrightarrow> nt_loss_basis_points t \<ge> 500 \<or> nt_send_queue_ms t > 60"

definition network_good :: "network_telemetry \<Rightarrow> bool" where
  "network_good t \<longleftrightarrow>
     nt_loss_basis_points t < 20 \<and> nt_send_queue_ms t < 5 \<and> nt_round_trip_ms t < 20"

definition adapt_congested :: "network_telemetry \<Rightarrow> video_settings \<Rightarrow> video_settings" where
  "adapt_congested t s =
     (let bitrate = max 1500 (vs_bitrate_kbps s * 3 div 4);
          fps = max 30 (vs_frames_per_second s * 3 div 4);
          shrink = network_severe t \<and> (vs_width s > 1280 \<or> vs_height s > 720)
      in s\<lparr>vs_bitrate_kbps := bitrate, vs_frames_per_second := fps,
           vs_width := if shrink then 1280 else vs_width s,
           vs_height := if shrink then 720 else vs_height s,
           vs_keyframe_interval := min (vs_keyframe_interval s) fps\<rparr>)"

definition adapt_good :: "video_settings \<Rightarrow> video_settings" where
  "adapt_good s =
     (let bitrate = min 20000 (vs_bitrate_kbps s + max 250 (vs_bitrate_kbps s div 10));
          fps = min 60 (vs_frames_per_second s + 5);
          grow = vs_width s < 1920 \<or> vs_height s < 1080
      in s\<lparr>vs_bitrate_kbps := bitrate, vs_frames_per_second := fps,
           vs_width := if grow then 1920 else vs_width s,
           vs_height := if grow then 1080 else vs_height s\<rparr>)"

definition adapt_video_settings :: "video_settings \<Rightarrow> network_telemetry \<Rightarrow> video_settings result" where
  "adapt_video_settings current telemetry =
     and_then (validate_dimensions (vs_width current) (vs_height current)) (\<lambda>_.
     if vs_frames_per_second current = 0 \<or> vs_frames_per_second current > 120 \<or>
        vs_bitrate_kbps current < 500 \<or> vs_bitrate_kbps current > 100000 \<or>
        vs_keyframe_interval current = 0 \<or> vs_keyframe_interval current > 600
     then throw (Invalid_argument ''invalid video settings'')
     else if network_congested telemetry then ok (adapt_congested telemetry current)
     else if network_good telemetry then ok (adapt_good current)
     else ok current)"

section \<open>Latencies\<close>

record latency_sample =
  ls_captured_at_us :: u64
  ls_encoded_at_us :: u64
  ls_received_at_us :: u64
  ls_decoded_at_us :: u64
  ls_displayed_at_us :: u64

text \<open>The recorder is the vector \<open>end_to_end_us_\<close>.\<close>

definition latency_record :: "latency_sample \<Rightarrow> (u64 list, unit) call" where
  "latency_record s v =
     (if ls_captured_at_us s = 0 \<or> ls_encoded_at_us s < ls_captured_at_us s \<or>
         ls_received_at_us s < ls_encoded_at_us s \<or> ls_decoded_at_us s < ls_received_at_us s \<or>
         ls_displayed_at_us s < ls_decoded_at_us s
      then (throw (Invalid_argument ''latency timestamps must be monotonic''), v)
      else
        let v' = if length v \<ge> 10000 then tl v else v
        in (ok (), v' @ [ls_displayed_at_us s - ls_captured_at_us s]))"

section \<open>The transport session\<close>

datatype stream_purpose = Sp_control | Sp_input | Sp_clipboard | Sp_command | Sp_file | Sp_build

datatype datagram_channel = Dc_video | Dc_audio | Dc_pointer

datatype transport_call =
    Send_datagram datagram_channel "byte list"
  | Open_stream stream_purpose
  | Stream_write stream_purpose "byte list"

text \<open>A call returns, returns a null stream, or throws.\<close>

datatype transport_reply = Reply_done | Reply_null | Reply_throw exn

text \<open>A stream member of the object is known by whether it is set.\<close>

record transport_session =
  ts_reply :: "transport_call list \<Rightarrow> transport_call \<Rightarrow> transport_reply"
  ts_trace :: "transport_call list"
  ts_authorization :: authorization_result
  ts_control_stream :: bool
  ts_input_stream :: bool
  ts_clipboard_stream :: bool

definition new_transport_session ::
  "(transport_call list \<Rightarrow> transport_call \<Rightarrow> transport_reply) \<Rightarrow> authorization_result \<Rightarrow> transport_session" where
  "new_transport_session reply auth = \<lparr>ts_reply = reply, ts_trace = [], ts_authorization = auth,
     ts_control_stream = False, ts_input_stream = False, ts_clipboard_stream = False\<rparr>"

text \<open>A call of the transport, and whether what it returns is not null.\<close>

definition invoke :: "transport_call \<Rightarrow> (transport_session, bool) call" where
  "invoke c s = (case ts_reply s (ts_trace s) c of
     Reply_throw e \<Rightarrow> (Inl e, s)
   | Reply_null \<Rightarrow> (Inr False, s\<lparr>ts_trace := ts_trace s @ [c]\<rparr>)
   | Reply_done \<Rightarrow> (Inr True, s\<lparr>ts_trace := ts_trace s @ [c]\<rparr>))"

fun send_fragments :: "video_fragment list \<Rightarrow> (transport_session, unit) call" where
  "send_fragments [] = c_return ()"
| "send_fragments (g # gs) = (case encode_video_fragment g of
     Inl e \<Rightarrow> c_throw e
   | Inr encoded \<Rightarrow> c_bind (invoke (Send_datagram Dc_video encoded)) (\<lambda>_. send_fragments gs))"

definition send_frame :: "video_frame \<Rightarrow> (transport_session, unit) call" where
  "send_frame f s =
     (if \<not> permits (ts_authorization s) desktop_view
      then c_throw (Logic_error ''desktop view capability is required'') s
      else (case fragment_frame f of
        Inl e \<Rightarrow> c_throw e s
      | Inr fragments \<Rightarrow> send_fragments fragments s))"

definition request_keyframe :: "keyframe_request \<Rightarrow> (transport_session, unit) call" where
  "request_keyframe request s =
     (if \<not> permits (ts_authorization s) desktop_view
      then c_throw (Logic_error ''desktop view capability is required'') s
      else (case encode_keyframe_request request of
        Inl e \<Rightarrow> c_throw e s
      | Inr encoded \<Rightarrow>
          c_bind
            (if ts_control_stream s then c_return ()
             else c_bind (invoke (Open_stream Sp_control)) (\<lambda>created.
               if \<not> created
               then c_throw (Runtime_error ''transport did not create control stream'')
               else (\<lambda>s. (Inr (), s\<lparr>ts_control_stream := True\<rparr>))))
            (\<lambda>_. c_bind (invoke (Stream_write Sp_control encoded)) (\<lambda>_. c_return ())) s))"

definition send_input :: "input_event \<Rightarrow> (transport_session, unit) call" where
  "send_input event s =
     (if \<not> permits (ts_authorization s) desktop_control
      then c_throw (Logic_error ''desktop control capability is required'') s
      else (case encode_input_event event of
        Inl e \<Rightarrow> c_throw e s
      | Inr encoded \<Rightarrow>
          if ie_kind event = pointer_move
          then c_bind (invoke (Send_datagram Dc_pointer encoded)) (\<lambda>_. c_return ()) s
          else
          c_bind
            (if ts_input_stream s then c_return ()
             else c_bind (invoke (Open_stream Sp_input)) (\<lambda>created.
               if \<not> created
               then c_throw (Runtime_error ''transport did not create input stream'')
               else (\<lambda>s. (Inr (), s\<lparr>ts_input_stream := True\<rparr>))))
            (\<lambda>_. c_bind (invoke (Stream_write Sp_input encoded)) (\<lambda>_. c_return ())) s))"

definition send_clipboard :: "clipboard_update \<Rightarrow> (transport_session, unit) call" where
  "send_clipboard u s =
     (if \<not> permits (ts_authorization s) clipboard_read
      then c_throw (Logic_error ''clipboard read capability is required'') s
      else (case encode_clipboard_update u of
        Inl e \<Rightarrow> c_throw e s
      | Inr encoded \<Rightarrow>
          c_bind
            (if ts_clipboard_stream s then c_return ()
             else c_bind (invoke (Open_stream Sp_clipboard)) (\<lambda>created.
               if \<not> created
               then c_throw (Runtime_error ''transport did not create clipboard stream'')
               else (\<lambda>s. (Inr (), s\<lparr>ts_clipboard_stream := True\<rparr>))))
            (\<lambda>_. c_bind (invoke (Stream_write Sp_clipboard encoded)) (\<lambda>_. c_return ())) s))"

section \<open>Adapted settings\<close>

definition settings_ok :: "video_settings \<Rightarrow> bool" where
  "settings_ok s \<longleftrightarrow>
     0 < unat (vs_width s) \<and> unat (vs_width s) \<le> 7680 \<and>
     0 < unat (vs_height s) \<and> unat (vs_height s) \<le> 4320 \<and>
     0 < unat (vs_frames_per_second s) \<and> unat (vs_frames_per_second s) \<le> 120 \<and>
     500 \<le> unat (vs_bitrate_kbps s) \<and> unat (vs_bitrate_kbps s) \<le> 100000 \<and>
     0 < unat (vs_keyframe_interval s) \<and> unat (vs_keyframe_interval s) \<le> 600"

lemma adapt_eq:
  "adapt_video_settings s t = Inr s' \<longleftrightarrow> settings_ok s \<and>
     s' = (if network_congested t then adapt_congested t s else if network_good t then adapt_good s else s)"
proof -
  have "(x = 0) = (unat x = 0)" for x :: u32
    by (simp add: unat_eq_0)
  then show ?thesis
    by (auto simp: adapt_video_settings_def validate_dimensions_def settings_ok_def result_simps
        throw_if_eq_Inr word_less_nat_alt not_less)
qed

lemma unat_max: "unat (max a b :: 'a::len word) = max (unat a) (unat b)"
  by (simp add: max_def word_le_nat_alt)

lemma unat_min_u32: "unat (min a b :: u32) = min (unat a) (unat b)"
  by (simp add: min_def word_le_nat_alt)

lemma unat_three_quarters: "unat (x :: u32) \<le> 100000 \<Longrightarrow> unat (x * 3 div 4) = unat x * 3 div 4"
  by (simp add: unat_div_distrib unat_word_ariths)

lemma unat_raised:
  "unat (x :: u32) \<le> 100000 \<Longrightarrow> unat (x + max 250 (x div 10)) = unat x + max 250 (unat x div 10)"
  by (simp add: unat_word_ariths unat_max unat_div_distrib)

lemma unat_plus_five: "unat (x :: u32) \<le> 120 \<Longrightarrow> unat (x + 5) = unat x + 5"
  by (simp add: unat_word_ariths)

text \<open>The adapted settings in natural numbers.\<close>

lemma adapt_congested_nat:
  assumes "settings_ok s"
  shows "unat (vs_bitrate_kbps (adapt_congested t s)) = max 1500 (unat (vs_bitrate_kbps s) * 3 div 4)"
    "unat (vs_frames_per_second (adapt_congested t s)) = max 30 (unat (vs_frames_per_second s) * 3 div 4)"
    "unat (vs_keyframe_interval (adapt_congested t s)) =
       min (unat (vs_keyframe_interval s)) (max 30 (unat (vs_frames_per_second s) * 3 div 4))"
  using assms by (simp_all add: adapt_congested_def Let_def unat_max unat_min_u32 unat_three_quarters settings_ok_def)

lemma adapt_good_nat:
  assumes "settings_ok s"
  shows "unat (vs_bitrate_kbps (adapt_good s)) =
      min 20000 (unat (vs_bitrate_kbps s) + max 250 (unat (vs_bitrate_kbps s) div 10))"
    "unat (vs_frames_per_second (adapt_good s)) = min 60 (unat (vs_frames_per_second s) + 5)"
    "vs_keyframe_interval (adapt_good s) = vs_keyframe_interval s"
  using assms by (simp_all add: adapt_good_def Let_def unat_min_u32 unat_raised unat_plus_five settings_ok_def)

lemma adapt_congested_ok: "settings_ok s \<Longrightarrow> settings_ok (adapt_congested t s)"
  unfolding settings_ok_def [of "adapt_congested t s"]
  by (simp add: adapt_congested_nat)
    (auto simp: adapt_congested_def Let_def settings_ok_def max_def min_def)

lemma adapt_good_ok: "settings_ok s \<Longrightarrow> settings_ok (adapt_good s)"
  unfolding settings_ok_def [of "adapt_good s"]
  by (simp add: adapt_good_nat)
    (auto simp: adapt_good_def Let_def settings_ok_def max_def min_def)

text \<open>Adaptation is repeated with every measurement; the first exception would end it.\<close>

fun adapt_all :: "network_telemetry list \<Rightarrow> video_settings \<Rightarrow> video_settings result" where
  "adapt_all [] s = ok s"
| "adapt_all (t # ts) s = and_then (adapt_video_settings s t) (adapt_all ts)"

lemma adapt_all_ok: "settings_ok s \<Longrightarrow> \<exists>s'. adapt_all ts s = Inr s' \<and> settings_ok s'"
proof (induction ts arbitrary: s)
  case (Cons t ts)
  let ?s = "if network_congested t then adapt_congested t s else if network_good t then adapt_good s else s"
  have "settings_ok ?s"
    using Cons.prems by (simp add: adapt_congested_ok adapt_good_ok)
  moreover have "adapt_video_settings s t = Inr ?s"
    using Cons.prems by (simp add: adapt_eq)
  ultimately show ?case
    using Cons.IH by simp
qed simp

text \<open>Adaptation never runs into its own check: from settings it accepts, any sequence of measurements
  keeps the size, rate, bitrate and keyframe interval within the accepted bounds and raises no error.\<close>

theorem adaptation_stays_valid:
  assumes "adapt_video_settings s t = Inr s'"
  shows "\<exists>s''. adapt_all ts s' = Inr s'' \<and> settings_ok s'' \<and> succeeds (adapt_video_settings s'' t')"
proof -
  have "settings_ok s'"
    using assms by (auto simp: adapt_eq adapt_congested_ok adapt_good_ok)
  from adapt_all_ok [OF this, of ts] show ?thesis
    by (auto simp: succeeds_iff adapt_eq)
qed

definition default_settings :: video_settings where
  "default_settings = \<lparr>vs_width = 1920, vs_height = 1080, vs_frames_per_second = 60,
     vs_bitrate_kbps = 12000, vs_keyframe_interval = 60\<rparr>"

definition bad_network :: network_telemetry where
  "bad_network = \<lparr>nt_round_trip_ms = 200, nt_loss_basis_points = 600, nt_send_queue_ms = 70\<rparr>"

lemma default_settings_ok: "settings_ok default_settings"
  by (simp add: settings_ok_def default_settings_def)

theorem adaptation_stays_valid_witness:
  "\<exists>s s''. adapt_video_settings default_settings bad_network = Inr s \<and>
     adapt_all [bad_network, bad_network] s = Inr s'' \<and> settings_ok s''"
proof -
  obtain s where "adapt_video_settings default_settings bad_network = Inr s"
    using default_settings_ok by (simp add: adapt_eq)
  with adaptation_stays_valid [OF this, of "[bad_network, bad_network]" bad_network] show ?thesis
    by blast
qed

text \<open>Under congestion the bitrate and the frame rate fall, except below the floors of 1500 kbit/s and
  30 frames: there the reaction to congestion is to send more.\<close>

theorem congestion_reaction:
  assumes "adapt_video_settings s t = Inr s'" and "network_congested t"
  shows "(1500 < unat (vs_bitrate_kbps s) \<longrightarrow> unat (vs_bitrate_kbps s') < unat (vs_bitrate_kbps s)) \<and>
    (unat (vs_bitrate_kbps s) < 1500 \<longrightarrow> unat (vs_bitrate_kbps s) < unat (vs_bitrate_kbps s')) \<and>
    (30 < unat (vs_frames_per_second s) \<longrightarrow>
       unat (vs_frames_per_second s') < unat (vs_frames_per_second s)) \<and>
    (unat (vs_frames_per_second s) < 30 \<longrightarrow>
       unat (vs_frames_per_second s) < unat (vs_frames_per_second s'))"
proof -
  have s: "settings_ok s" and s': "s' = adapt_congested t s"
    using assms by (simp_all add: adapt_eq)
  show ?thesis
    unfolding s' adapt_congested_nat(1,2) [OF s] by linarith
qed

theorem congestion_reaction_witness:
  "\<exists>s'. adapt_video_settings (default_settings\<lparr>vs_bitrate_kbps := 600\<rparr>) bad_network = Inr s' \<and>
     600 < unat (vs_bitrate_kbps s')"
proof -
  have "settings_ok (default_settings\<lparr>vs_bitrate_kbps := 600\<rparr>)"
    by (simp add: settings_ok_def default_settings_def)
  then obtain s' where s': "adapt_video_settings (default_settings\<lparr>vs_bitrate_kbps := 600\<rparr>) bad_network = Inr s'"
    by (simp add: adapt_eq)
  moreover have "network_congested bad_network"
    by (simp add: network_congested_def bad_network_def)
  ultimately show ?thesis
    using congestion_reaction [OF s'] by (auto simp: default_settings_def)
qed

section \<open>The latency window\<close>

definition sample_monotonic :: "latency_sample \<Rightarrow> bool" where
  "sample_monotonic s \<longleftrightarrow> 0 < ls_captured_at_us s \<and>
     sorted [ls_captured_at_us s, ls_encoded_at_us s, ls_received_at_us s, ls_decoded_at_us s,
       ls_displayed_at_us s]"

definition last_n :: "nat \<Rightarrow> 'a list \<Rightarrow> 'a list" where
  "last_n n xs = drop (length xs - n) xs"

lemma last_n_snoc:
  "0 < n \<Longrightarrow> last_n n (xs @ [x]) = (if length (last_n n xs) \<ge> n then tl (last_n n xs) else last_n n xs) @ [x]"
  by (auto simp: last_n_def Suc_diff_le drop_Suc tl_drop)

lemma latency_record_eq:
  "snd (latency_record s v) = (if sample_monotonic s
     then (if length v \<ge> 10000 then tl v else v) @ [ls_displayed_at_us s - ls_captured_at_us s] else v)"
  by (auto simp: latency_record_def sample_monotonic_def Let_def not_less word_gt_0)

text \<open>The recorder keeps the end-to-end latencies of the last 10000 samples whose timestamps are in
  order, and nothing of the others; no latency in it has wrapped around.\<close>

theorem latency_window:
  "foldl (\<lambda>v s. snd (latency_record s v)) [] samples =
     last_n 10000 (map (\<lambda>s. ls_displayed_at_us s - ls_captured_at_us s) (filter sample_monotonic samples)) \<and>
   list_all (\<lambda>s. unat (ls_displayed_at_us s - ls_captured_at_us s) =
     unat (ls_displayed_at_us s) - unat (ls_captured_at_us s)) (filter sample_monotonic samples)"
proof
  show "foldl (\<lambda>v s. snd (latency_record s v)) [] samples =
     last_n 10000 (map (\<lambda>s. ls_displayed_at_us s - ls_captured_at_us s) (filter sample_monotonic samples))"
  proof (induction samples rule: rev_induct)
    case (snoc s samples)
    then show ?case
      by (simp add: latency_record_eq last_n_snoc)
  qed (simp add: last_n_def)
  show "list_all (\<lambda>s. unat (ls_displayed_at_us s - ls_captured_at_us s) =
     unat (ls_displayed_at_us s) - unat (ls_captured_at_us s)) (filter sample_monotonic samples)"
    by (auto simp: list_all_iff sample_monotonic_def intro!: unat_sub)
qed

section \<open>What reaches the transport\<close>

text \<open>A call of the transport that an authorization justifies.\<close>

definition call_ok :: "authorization_result \<Rightarrow> transport_call \<Rightarrow> bool" where
  "call_ok auth c = (case c of
     Send_datagram Dc_video bs \<Rightarrow> permits auth desktop_view \<and>
       length bs \<le> maximum_media_datagram_size \<and> succeeds (decode_video_fragment bs)
   | Send_datagram Dc_pointer bs \<Rightarrow> permits auth desktop_control \<and>
       (case decode_input_event bs of Inl _ \<Rightarrow> False | Inr e \<Rightarrow> ie_kind e = pointer_move)
   | Open_stream Sp_control \<Rightarrow> permits auth desktop_view
   | Open_stream Sp_input \<Rightarrow> permits auth desktop_control
   | Open_stream Sp_clipboard \<Rightarrow> permits auth clipboard_read
   | Stream_write Sp_control bs \<Rightarrow> permits auth desktop_view \<and> succeeds (decode_keyframe_request bs)
   | Stream_write Sp_input bs \<Rightarrow> permits auth desktop_control \<and>
       (case decode_input_event bs of Inl _ \<Rightarrow> False | Inr e \<Rightarrow> ie_kind e \<noteq> pointer_move)
   | Stream_write Sp_clipboard bs \<Rightarrow> permits auth clipboard_read \<and> succeeds (decode_clipboard_update bs)
   | _ \<Rightarrow> False)"

definition session_ok :: "authorization_result \<Rightarrow> transport_session \<Rightarrow> bool" where
  "session_ok auth s \<longleftrightarrow> ts_authorization s = auth \<and> list_all (call_ok auth) (ts_trace s)"

text \<open>A member function keeps it, whether it returns or throws.\<close>

definition keeps :: "authorization_result \<Rightarrow> (transport_session, 'a) call \<Rightarrow> bool" where
  "keeps auth m \<longleftrightarrow> (\<forall>s. session_ok auth s \<longrightarrow> session_ok auth (snd (m s)))"

lemma keeps_return: "keeps auth (c_return x)"
  by (simp add: keeps_def)

lemma keeps_throw: "keeps auth (c_throw e)"
  by (simp add: keeps_def)

lemma keeps_bind: "keeps auth m \<Longrightarrow> (\<And>x. keeps auth (f x)) \<Longrightarrow> keeps auth (c_bind m f)"
  by (fastforce simp: keeps_def c_bind_def split: prod.split sum.split)

lemma keeps_invoke: "call_ok auth c \<Longrightarrow> keeps auth (invoke c)"
  by (auto simp: keeps_def invoke_def session_ok_def split: transport_reply.split)

lemma keeps_if: "keeps auth m \<Longrightarrow> keeps auth m' \<Longrightarrow> keeps auth (if c then m else m')"
  by simp

lemma keeps_mark:
  "keeps auth (\<lambda>s. (Inr (), s\<lparr>ts_control_stream := b\<rparr>))"
  "keeps auth (\<lambda>s. (Inr (), s\<lparr>ts_input_stream := b\<rparr>))"
  "keeps auth (\<lambda>s. (Inr (), s\<lparr>ts_clipboard_stream := b\<rparr>))"
  by (simp_all add: keeps_def session_ok_def)

lemmas keeps_intros = keeps_return keeps_throw keeps_bind keeps_invoke keeps_if keeps_mark

lemma keeps_apply: "keeps auth m \<Longrightarrow> session_ok auth s \<Longrightarrow> session_ok auth (snd (m s))"
  by (simp add: keeps_def)

lemma encoded_fragment_small:
  "encode_video_fragment g = Inr bs \<Longrightarrow> length bs \<le> maximum_media_datagram_size"
  unfolding encode_video_fragment_def Let_def and_then_eq_Inr if_throw_eq_Inr by auto

lemma keeps_send_fragments: "permits auth desktop_view \<Longrightarrow> keeps auth (send_fragments gs)"
proof (induction gs)
  case (Cons g gs)
  show ?case
  proof (cases "encode_video_fragment g")
    case (Inr bs)
    then have "call_ok auth (Send_datagram Dc_video bs)"
      using Cons.prems encoded_fragment_small [OF Inr] fragment_codec [of bs g]
      by (simp add: call_ok_def succeeds_iff)
    then show ?thesis
      using Inr Cons by (simp add: keeps_bind keeps_invoke)
  qed (simp add: keeps_throw [unfolded c_throw_def])
qed (simp add: keeps_return)

lemma send_frame_ok: "session_ok auth s \<Longrightarrow> session_ok auth (snd (send_frame f s))"
  using keeps_apply [OF keeps_send_fragments]
  by (auto simp: send_frame_def session_ok_def [of auth s] split: sum.split)

text \<open>Writing on a stream that is opened first when it is not yet set.\<close>

lemma keeps_stream_write:
  assumes "call_ok auth (Open_stream p)" "call_ok auth (Stream_write p bs)" "keeps auth mark"
  shows "keeps auth (c_bind (if set_already then c_return ()
      else c_bind (invoke (Open_stream p)) (\<lambda>created. if \<not> created then c_throw e else mark))
    (\<lambda>_. c_bind (invoke (Stream_write p bs)) (\<lambda>_. c_return ())))"
  using assms by (intro keeps_intros)

lemma request_keyframe_ok:
  assumes s: "session_ok auth s"
  shows "session_ok auth (snd (request_keyframe q s))"
proof (cases "permits auth desktop_view \<and> (\<exists>bs. encode_keyframe_request q = Inr bs)")
  case True
  obtain bs where bs: "encode_keyframe_request q = Inr bs"
    using True by blast
  have "call_ok auth (Open_stream Sp_control)" "call_ok auth (Stream_write Sp_control bs)"
    using True bs keyframe_request.decode_iff [of bs q] by (simp_all add: call_ok_def succeeds_iff)
  from keeps_apply [OF keeps_stream_write [OF this keeps_mark(1)] s]
  show ?thesis
    using True bs s by (simp only: request_keyframe_def session_ok_def [of auth s] sum.case if_False if_True
        simp_thms)
qed (use s in \<open>auto simp: request_keyframe_def session_ok_def split: sum.split\<close>)

lemma send_input_ok:
  assumes s: "session_ok auth s"
  shows "session_ok auth (snd (send_input e s))"
proof (cases "permits auth desktop_control \<and> (\<exists>bs. encode_input_event e = Inr bs)")
  case True
  obtain bs where bs: "encode_input_event e = Inr bs"
    using True by blast
  then have dec: "decode_input_event bs = Inr e"
    by (simp add: input_event_codec)
  show ?thesis
  proof (cases "ie_kind e = pointer_move")
    case pm: True
    then have "call_ok auth (Send_datagram Dc_pointer bs)"
      using True dec by (simp add: call_ok_def)
    from keeps_apply [OF keeps_bind [OF keeps_invoke [OF this] keeps_return] s]
    show ?thesis
      using True bs s pm by (simp only: send_input_def session_ok_def [of auth s] sum.case if_False if_True
        simp_thms)
  next
    case pm: False
    then have "call_ok auth (Open_stream Sp_input)" "call_ok auth (Stream_write Sp_input bs)"
      using True dec by (simp_all add: call_ok_def)
    from keeps_apply [OF keeps_stream_write [OF this keeps_mark(2)] s]
    show ?thesis
      using True bs s pm by (simp only: send_input_def session_ok_def [of auth s] sum.case if_False if_True
        simp_thms)
  qed
qed (use s in \<open>auto simp: send_input_def session_ok_def split: sum.split\<close>)

lemma send_clipboard_ok:
  assumes s: "session_ok auth s"
  shows "session_ok auth (snd (send_clipboard u s))"
proof (cases "permits auth clipboard_read \<and> (\<exists>bs. encode_clipboard_update u = Inr bs)")
  case True
  obtain bs where bs: "encode_clipboard_update u = Inr bs"
    using True by blast
  have "call_ok auth (Open_stream Sp_clipboard)" "call_ok auth (Stream_write Sp_clipboard bs)"
    using True bs clipboard_codec [of bs u] by (simp_all add: call_ok_def succeeds_iff)
  from keeps_apply [OF keeps_stream_write [OF this keeps_mark(3)] s]
  show ?thesis
    using True bs s by (simp only: send_clipboard_def session_ok_def [of auth s] sum.case if_False if_True
        simp_thms)
qed (use s in \<open>auto simp: send_clipboard_def session_ok_def split: sum.split\<close>)

section \<open>Runs of a session\<close>

datatype session_call =
    Ts_frame video_frame
  | Ts_keyframe keyframe_request
  | Ts_input input_event
  | Ts_clipboard clipboard_update

definition session_step :: "transport_session \<Rightarrow> session_call \<Rightarrow> transport_session" where
  "session_step s call = (case call of
     Ts_frame f \<Rightarrow> snd (send_frame f s)
   | Ts_keyframe q \<Rightarrow> snd (request_keyframe q s)
   | Ts_input e \<Rightarrow> snd (send_input e s)
   | Ts_clipboard u \<Rightarrow> snd (send_clipboard u s))"

interpretation transport: invariant_machine session_step "new_transport_session reply auth" "session_ok auth"
  for reply auth
proof unfold_locales
  show "session_ok auth (new_transport_session reply auth)"
    by (simp add: session_ok_def new_transport_session_def)
  show "session_ok auth s \<Longrightarrow> session_ok auth (session_step s call)" for s call
    by (cases call) (simp_all add: session_step_def send_frame_ok request_keyframe_ok send_input_ok send_clipboard_ok)
qed

text \<open>Whatever is asked of a session and whatever the transport replies, everything that reaches the
  transport is covered by the capability of its kind and is well formed: video datagrams are encoded
  fragments within the datagram limit, pointer datagrams are pointer moves, and the control, input
  and clipboard streams carry only encoded messages of their kind.\<close>

theorem transport_only_authorized:
  "list_all (call_ok auth)
     (ts_trace (foldl session_step (new_transport_session reply auth) calls))"
  using transport.run_inv [of auth reply calls] by (simp add: session_ok_def)

section \<open>A frame from end to end\<close>

lemma send_fragments_done:
  assumes "\<forall>tr c. ts_reply s tr c = Reply_done" "map encode_video_fragment gs = map Inr ds"
  shows "send_fragments gs s = (Inr (), s\<lparr>ts_trace := ts_trace s @ map (Send_datagram Dc_video) ds\<rparr>)"
  using assms
proof (induction gs arbitrary: ds s)
  case (Cons g gs)
  then obtain d ds' where ds: "ds = d # ds'" "encode_video_fragment g = Inr d"
      "map encode_video_fragment gs = map Inr ds'"
    by auto
  let ?s = "s\<lparr>ts_trace := ts_trace s @ [Send_datagram Dc_video d]\<rparr>"
  have "send_fragments gs ?s = (Inr (), ?s\<lparr>ts_trace := ts_trace ?s @ map (Send_datagram Dc_video) ds'\<rparr>)"
    using Cons.prems(1) ds(3) by (intro Cons.IH) simp_all
  then show ?case
    using Cons.prems(1) ds by (simp add: c_bind_def invoke_def)
qed simp

lemma encode_all_fragments:
  assumes "fragment_frame f = Inr fs"
  shows "\<exists>ds. map encode_video_fragment fs = map Inr ds"
proof -
  have "\<exists>ds. map encode_video_fragment gs = map Inr ds" if "set gs \<subseteq> set fs" for gs
    using that
  proof (induction gs)
    case (Cons g gs)
    then obtain d ds where "encode_video_fragment g = Inr d" "map encode_video_fragment gs = map Inr ds"
      using fragment_datagrams [OF assms] by auto
    then show ?case
      by (intro exI [of _ "d # ds"]) simp
  qed simp
  then show ?thesis
    by blast
qed

lemma decode_permuted:
  assumes "map encode_video_fragment fs = map Inr ds" "set es = set ds"
  shows "\<exists>gs. map decode_video_fragment es = map Inr gs \<and> set gs = set fs"
proof -
  have dec: "\<exists>g. g \<in> set fs \<and> decode_video_fragment e = Inr g" if "e \<in> set ds" for e
  proof -
    have "Inr e \<in> set (map encode_video_fragment fs)"
      using that by (simp add: assms(1))
    then show ?thesis
      by (auto simp: fragment_codec)
  qed
  have surj: "\<exists>e. e \<in> set ds \<and> decode_video_fragment e = Inr g" if "g \<in> set fs" for g
  proof -
    have "encode_video_fragment g \<in> set (map Inr ds)"
      using that by (simp flip: assms(1))
    then show ?thesis
      by (auto simp: fragment_codec)
  qed
  define gs where "gs = map (\<lambda>e. projr (decode_video_fragment e)) es"
  have each: "decode_video_fragment e = Inr (projr (decode_video_fragment e))" if "e \<in> set es" for e
    using dec [of e] that assms(2) by (metis sum.sel(2))
  then have "map decode_video_fragment es = map Inr gs"
    by (simp add: gs_def)
  moreover have "set gs = set fs"
  proof
    show "set gs \<subseteq> set fs"
    proof
      fix g
      assume "g \<in> set gs"
      then obtain e where e: "e \<in> set es" "g = projr (decode_video_fragment e)"
        by (auto simp: gs_def)
      then show "g \<in> set fs"
        using dec [of e] assms(2) by (metis sum.sel(2))
    qed
    show "set fs \<subseteq> set gs"
    proof
      fix g
      assume "g \<in> set fs"
      then obtain e where "e \<in> set ds" "decode_video_fragment e = Inr g"
        using surj by blast
      then show "g \<in> set gs"
        using assms(2) by (metis gs_def image_eqI list.set_map sum.sel(2))
    qed
  qed
  ultimately show ?thesis
    by blast
qed

text \<open>C2. A frame that is sent over a transport that does not fail arrives: in whatever order and however
  often its datagrams are received, they decode, and a reassembler that is not past the frame delivers
  it exactly once.\<close>

theorem frame_crosses_transport:
  assumes "permits (ts_authorization s) desktop_view" and "fragment_frame f = Inr fs"
    and "\<forall>tr c. ts_reply s tr c = Reply_done" and "ready_for f r"
  shows "\<exists>ds s'. send_frame f s = (Inr (), s') \<and>
    ts_trace s' = ts_trace s @ map (Send_datagram Dc_video) ds \<and>
    (\<forall>es. set es = set ds \<longrightarrow> (\<exists>gs. map decode_video_fragment es = map Inr gs \<and>
      delivered (receive_all gs r) = [f\<lparr>vf_representation_epoch := 1\<rparr>]))"
proof -
  obtain ds where ds: "map encode_video_fragment fs = map Inr ds"
    using encode_all_fragments [OF assms(2)] by blast
  have "send_frame f s = (Inr (), s\<lparr>ts_trace := ts_trace s @ map (Send_datagram Dc_video) ds\<rparr>)"
    using assms(1,2) send_fragments_done [OF assms(3) ds] by (simp add: send_frame_def)
  moreover have "\<exists>gs. map decode_video_fragment es = map Inr gs \<and>
      delivered (receive_all gs r) = [f\<lparr>vf_representation_epoch := 1\<rparr>]" if "set es = set ds" for es
    using decode_permuted [OF ds that] fragments_delivered [OF assms(2) _ assms(4)] by fastforce
  ultimately show ?thesis
    by (intro exI [of _ ds]) simp
qed

definition view_auth :: authorization_result where
  "view_auth = \<lparr>ar_principal_matched = True, ar_workspace_allowed = True,
     ar_granted = {desktop_view}, ar_denied = {}\<rparr>"

theorem frame_crosses_transport_witness:
  "\<exists>s'. send_frame sample_frame (new_transport_session (\<lambda>tr c. Reply_done) view_auth) = (Inr (), s')"
proof -
  let ?s = "new_transport_session (\<lambda>tr c. Reply_done) view_auth"
  have p: "permits (ts_authorization ?s) desktop_view"
    by (simp add: new_transport_session_def view_auth_def permits_def)
  obtain fs where fs: "fragment_frame sample_frame = Inr fs"
    using sample_frame_ok by (simp add: fragment_frame_eq)
  have t: "\<forall>tr c. ts_reply ?s tr c = Reply_done"
    by (simp add: new_transport_session_def)
  have r: "ready_for sample_frame new_reassembler"
    by (simp add: ready_for_def new_reassembler_def sample_frame_def)
  show ?thesis
    using frame_crosses_transport [OF p fs t r] by blast
qed

end
