(* ===== verification/Channel_Session.thy ===== *)
theory Channel_Session
  imports Wire Identity Content_Hash
begin

text \<open>
  \<open>transport/src/channel_session.cpp\<close> and \<open>transport/src/certificate_identity.cpp\<close>: the evidence about an
  authenticated peer, the messages that bind a TCP connection to a session, and the session that admits
  one connection for the visual and one for the control channel and decides whether input is allowed.
  Arrays of bytes of a fixed size are lists of that length.
\<close>

section \<open>Peer evidence\<close>

record peer_evidence =
  pe_certificate_sha256 :: "u8 list"
  pe_tls_1_3_negotiated :: bool
  pe_certificate_chain_valid :: bool
  pe_revocation_checked :: bool

definition all_zero :: "u8 list \<Rightarrow> bool" where
  "all_zero fingerprint \<longleftrightarrow> list_all (\<lambda>b. b = 0) fingerprint"

definition validate_peer_evidence :: "peer_evidence \<Rightarrow> unit result" where
  "validate_peer_evidence e =
     throw_if (all_zero (pe_certificate_sha256 e) \<or> \<not> pe_tls_1_3_negotiated e \<or>
         \<not> pe_certificate_chain_valid e \<or> \<not> pe_revocation_checked e)
       (Invalid_argument ''authenticated peer evidence is incomplete'')"

text \<open>Two hexadecimal digits for each byte.\<close>

definition certificate_sha256_hex :: "u8 list \<Rightarrow> string result" where
  "certificate_sha256_hex fingerprint =
     (if all_zero fingerprint
      then throw (Invalid_argument ''certificate SHA-256 fingerprint cannot be zero'')
      else ok (to_hex fingerprint))"

definition single_allowed_peer_evidence :: "u8 list list \<Rightarrow> peer_evidence result" where
  "single_allowed_peer_evidence allowlist =
     (if length allowlist \<noteq> 1 \<or> all_zero (hd allowlist)
      then throw (Invalid_argument ''v0.1 authenticated listener requires exactly one allowed peer'')
      else ok \<lparr>pe_certificate_sha256 = hd allowlist, pe_tls_1_3_negotiated = True,
        pe_certificate_chain_valid = True, pe_revocation_checked = True\<rparr>)"

section \<open>Messages\<close>

text \<open>A decoded channel is any byte until it is validated.\<close>

type_synonym tcp_channel = u8

definition ch_visual :: tcp_channel where "ch_visual = 1"
definition ch_control :: tcp_channel where "ch_control = 2"

record channel_hello =
  ch_channel :: tcp_channel
  ch_session_id :: "u8 list"
  ch_generation :: u64

definition nonzero :: "u8 list \<Rightarrow> bool" where
  "nonzero bs \<longleftrightarrow> list_ex (\<lambda>b. b \<noteq> 0) bs"

definition channel_index :: "tcp_channel \<Rightarrow> nat result" where
  "channel_index channel =
     (let val = unat channel
      in if val < 1 \<or> val > 2 then throw (Invalid_argument ''unknown TCP channel'') else ok (val - 1))"

definition validate_hello :: "channel_hello \<Rightarrow> unit result" where
  "validate_hello h = and_then (channel_index (ch_channel h)) (\<lambda>_.
     throw_if (\<not> nonzero (ch_session_id h) \<or> ch_generation h = 0)
       (Invalid_argument ''empty channel session identity''))"

text \<open>The loops that write and read the generation.\<close>

definition generation_bytes :: "u64 \<Rightarrow> byte list" where
  "generation_bytes g = map (\<lambda>i. ucast (drop_bit ((7 - i) * 8) g)) [0..<8]"

definition read_generation :: "byte list \<Rightarrow> u64" where
  "read_generation bs = foldl (\<lambda>g i. push_bit 8 g OR ucast (bs ! (24 + i))) 0 [0..<8]"

definition encode_channel_hello :: "channel_hello \<Rightarrow> byte list result" where
  "encode_channel_hello h = and_then (validate_hello h) (\<lambda>_.
     ok (as_bytes ''LPT1'' @ [1, ch_channel h, 0, 0] @ ch_session_id h @ generation_bytes (ch_generation h)))"

definition decode_channel_hello :: "byte list \<Rightarrow> channel_hello result" where
  "decode_channel_hello bs =
     (if length bs \<noteq> 32 \<or> take 4 bs \<noteq> as_bytes ''LPT1'' \<or> bs ! 4 \<noteq> 1 \<or> bs ! 6 \<noteq> 0 \<or> bs ! 7 \<noteq> 0
      then throw (Invalid_argument ''invalid channel hello framing'')
      else
        let h = \<lparr>ch_channel = bs ! 5, ch_session_id = map (\<lambda>i. bs ! (8 + i)) [0..<16],
               ch_generation = read_generation bs\<rparr>
        in and_then (validate_hello h) (\<lambda>_. ok h))"

record channel_grants =
  cg_visual :: bool
  cg_control :: bool
  cg_desktop_input :: bool

record channel_admission =
  ca_session_id :: "u8 list"
  ca_generation :: u64
  ca_grants :: channel_grants

definition encode_channel_admission :: "channel_admission \<Rightarrow> byte list result" where
  "encode_channel_admission a = and_then
     (validate_hello \<lparr>ch_channel = ch_visual, ch_session_id = ca_session_id a, ch_generation = ca_generation a\<rparr>) (\<lambda>_.
     if \<not> cg_visual (ca_grants a) \<or> \<not> cg_control (ca_grants a)
     then throw (Invalid_argument ''desktop admission requires both channels'')
     else ok (as_bytes ''LPA1'' @ [1, if cg_desktop_input (ca_grants a) then 7 else 3, 0, 0] @
       ca_session_id a @ generation_bytes (ca_generation a)))"

definition decode_channel_admission :: "byte list \<Rightarrow> channel_admission result" where
  "decode_channel_admission bs =
     (if length bs \<noteq> 32 \<or> take 4 bs \<noteq> as_bytes ''LPA1'' \<or> bs ! 4 \<noteq> 1 \<or>
         (bs ! 5 \<noteq> 3 \<and> bs ! 5 \<noteq> 7) \<or> bs ! 6 \<noteq> 0 \<or> bs ! 7 \<noteq> 0
      then throw (Invalid_argument ''invalid desktop admission framing'')
      else
        let a = \<lparr>ca_session_id = map (\<lambda>i. bs ! (8 + i)) [0..<16], ca_generation = read_generation bs,
               ca_grants = \<lparr>cg_visual = True, cg_control = True, cg_desktop_input = (bs ! 5 = 7)\<rparr>\<rparr>
        in and_then
             (validate_hello \<lparr>ch_channel = ch_visual, ch_session_id = ca_session_id a, ch_generation = ca_generation a\<rparr>)
             (\<lambda>_. ok a))"

definition validate_channel_admission :: "channel_admission \<Rightarrow> channel_hello \<Rightarrow> bool \<Rightarrow> unit result" where
  "validate_channel_admission admission issued request_input =
     and_then (encode_channel_admission admission) (\<lambda>_.
     and_then (validate_hello issued) (\<lambda>_.
     if ch_channel issued \<noteq> ch_visual \<or> ca_session_id admission \<noteq> ch_session_id issued \<or>
        ca_generation admission \<noteq> ch_generation issued
     then throw (Invalid_argument ''desktop admission session mismatch'')
     else throw_if (request_input \<and> \<not> cg_desktop_input (ca_grants admission))
       (Invalid_argument ''Mac grants view-only; interactive control was not authorized'')))"

section \<open>The session\<close>

text \<open>The array of two connections is a pair of members, slot 0 the visual and slot 1 the control channel.\<close>

record tcp_session =
  tc_id :: "u8 list"
  tc_generation :: u64
  tc_peer :: "u8 list"
  tc_grants :: channel_grants
  tc_expires_at :: time_point
  tc_connections :: "u64 list"
  tc_revoked :: bool

definition new_tcp_session ::
  "u8 list \<Rightarrow> u64 \<Rightarrow> u8 list \<Rightarrow> channel_grants \<Rightarrow> time_point \<Rightarrow> tcp_session result" where
  "new_tcp_session sid generation peer grants expires_at =
     and_then (validate_hello \<lparr>ch_channel = ch_visual, ch_session_id = sid, ch_generation = generation\<rparr>) (\<lambda>_.
     if \<not> nonzero peer then throw (Invalid_argument ''empty authorized peer'')
     else if cg_desktop_input grants \<and> \<not> cg_control grants
     then throw (Invalid_argument ''input requires a control channel grant'')
     else ok \<lparr>tc_id = sid, tc_generation = generation, tc_peer = peer, tc_grants = grants,
       tc_expires_at = expires_at, tc_connections = [0, 0], tc_revoked = False\<rparr>)"

definition tcp_attach ::
  "channel_hello \<Rightarrow> peer_evidence \<Rightarrow> u64 \<Rightarrow> time_point \<Rightarrow> (tcp_session, bool) call" where
  "tcp_attach hello verified_peer connection_id now s =
     (case and_then (validate_hello hello) (\<lambda>_. and_then (validate_peer_evidence verified_peer) (\<lambda>_.
          channel_index (ch_channel hello))) of
        Inl e \<Rightarrow> (throw e, s)
      | Inr slot \<Rightarrow>
          let allowed = [cg_visual (tc_grants s), cg_control (tc_grants s)]
          in if tc_revoked s \<or> now \<ge> tc_expires_at s \<or> ch_session_id hello \<noteq> tc_id s \<or>
                ch_generation hello \<noteq> tc_generation s \<or>
                pe_certificate_sha256 verified_peer \<noteq> tc_peer s \<or> \<not> allowed ! slot \<or>
                connection_id = 0 \<or> tc_connections s ! slot \<noteq> 0 \<or>
                connection_id \<in> set (tc_connections s)
             then (ok False, s)
             else (ok True, s\<lparr>tc_connections := (tc_connections s)[slot := connection_id]\<rparr>))"

definition tcp_active :: "tcp_channel \<Rightarrow> u64 \<Rightarrow> time_point \<Rightarrow> tcp_session \<Rightarrow> bool result" where
  "tcp_active channel connection_id now s =
     (if \<not> (\<not> tc_revoked s \<and> now < tc_expires_at s \<and> connection_id \<noteq> 0) then ok False
      else and_then (channel_index channel) (\<lambda>slot. ok (tc_connections s ! slot = connection_id)))"

definition tcp_revoke :: "tcp_session \<Rightarrow> tcp_session" where
  "tcp_revoke s = s\<lparr>tc_revoked := True, tc_connections := [0, 0]\<rparr>"

definition tcp_disconnect :: "u64 \<Rightarrow> tcp_session \<Rightarrow> tcp_session" where
  "tcp_disconnect connection_id s =
     (if connection_id = 0 then s
      else if tc_connections s ! 0 = connection_id \<or> tc_connections s ! 1 = connection_id
      then tcp_revoke s else s)"

definition tcp_input_allowed :: "u64 \<Rightarrow> time_point \<Rightarrow> tcp_session \<Rightarrow> bool result" where
  "tcp_input_allowed connection_id now s =
     (if \<not> (cg_desktop_input (tc_grants s) \<and> tc_connections s ! 0 \<noteq> 0) then ok False
      else tcp_active ch_control connection_id now s)"

section \<open>Codec laws\<close>

lemma generation_bytes_put: "generation_bytes g = put_u64 g"
  by (simp add: generation_bytes_def put_u64_def and_ff upt_rec)

lemma length_generation_bytes [simp]: "length (generation_bytes g) = 8"
  by (simp add: generation_bytes_def)

lemma map_nth_take: "n + k \<le> length bs \<Longrightarrow> map (\<lambda>i. bs ! (k + i)) [0..<n] = take n (drop k bs)"
  by (rule nth_equalityI) simp_all

lemma read_generation_be:
  assumes "length bs = 32"
  shows "read_generation bs = be_word (drop 24 bs)"
proof -
  have "drop 24 bs = map (\<lambda>i. bs ! (24 + i)) [0..<8]"
    using assms map_nth_take [of 8 24 bs] by simp
  then show ?thesis
    by (simp add: read_generation_def be_word_def foldl_map)
qed

text \<open>A message of 32 bytes is a magic, four bytes, an identifier and a generation.\<close>

lemma frame_split:
  assumes "length bs = 32"
  shows "bs = take 4 bs @ [bs ! 4, bs ! 5, bs ! 6, bs ! 7] @ take 16 (drop 8 bs) @ drop 24 bs"
proof -
  have "[bs ! 4, bs ! 5, bs ! 6, bs ! 7] = map (\<lambda>i. bs ! (4 + i)) [0..<4]"
    by (simp add: upt_rec)
  also have "\<dots> = take 4 (drop 4 bs)"
    using assms by (intro map_nth_take) simp
  finally show ?thesis
    using assms append_take_drop_id [of 16 "drop 8 bs"] append_take_drop_id [of 4 "drop 4 bs"]
      append_take_drop_id [of 4 bs] by simp
qed

lemma frame_parts:
  assumes "length magic = 4" "length sid = 16"
  shows "length (magic @ [a, b, c, d] @ sid @ generation_bytes g) = 32"
    "take 4 (magic @ [a, b, c, d] @ sid @ generation_bytes g) = magic"
    "(magic @ [a, b, c, d] @ sid @ generation_bytes g) ! 4 = a"
    "(magic @ [a, b, c, d] @ sid @ generation_bytes g) ! 5 = b"
    "(magic @ [a, b, c, d] @ sid @ generation_bytes g) ! 6 = c"
    "(magic @ [a, b, c, d] @ sid @ generation_bytes g) ! 7 = d"
    "map (\<lambda>i. (magic @ [a, b, c, d] @ sid @ generation_bytes g) ! (8 + i)) [0..<16] = sid"
    "read_generation (magic @ [a, b, c, d] @ sid @ generation_bytes g) = g"
proof -
  let ?bs = "magic @ [a, b, c, d] @ sid @ generation_bytes g"
  show len: "length ?bs = 32" and "take 4 ?bs = magic" "?bs ! 4 = a" "?bs ! 5 = b" "?bs ! 6 = c" "?bs ! 7 = d"
    using assms by (simp_all add: nth_append)
  show "map (\<lambda>i. ?bs ! (8 + i)) [0..<16] = sid"
    using map_nth_take [of 16 8 ?bs] len assms by simp
  show "read_generation ?bs = g"
    using read_generation_be [OF len] assms by (simp add: generation_bytes_put)
qed

lemma generation_bytes_read:
  "length bs = 32 \<Longrightarrow> generation_bytes (read_generation bs) = drop 24 bs"
  by (simp add: read_generation_be generation_bytes_put put_u64_be_word)

lemma encode_channel_hello_eq:
  "encode_channel_hello h = Inr bs \<longleftrightarrow> validate_hello h = Inr () \<and>
     bs = as_bytes ''LPT1'' @ [1, ch_channel h, 0, 0] @ ch_session_id h @ generation_bytes (ch_generation h)"
  by (auto simp: encode_channel_hello_def result_simps)

lemma channel_hello_codec:
  "decode_channel_hello bs = Inr h \<longleftrightarrow> length (ch_session_id h) = 16 \<and> encode_channel_hello h = Inr bs"
proof
  assume dec: "decode_channel_hello bs = Inr h"
  then have bs: "length bs = 32" "take 4 bs = as_bytes ''LPT1''" "bs ! 4 = 1" "bs ! 6 = 0" "bs ! 7 = 0"
    and h: "h = \<lparr>ch_channel = bs ! 5, ch_session_id = map (\<lambda>i. bs ! (8 + i)) [0..<16],
               ch_generation = read_generation bs\<rparr>" and v: "validate_hello h = Inr ()"
    by (auto simp: decode_channel_hello_def Let_def result_simps split: if_splits)
  show "length (ch_session_id h) = 16 \<and> encode_channel_hello h = Inr bs"
    using frame_split [OF bs(1)] map_nth_take [of 16 8 bs] v bs generation_bytes_read [OF bs(1)]
    unfolding encode_channel_hello_eq by (simp add: h)
next
  assume "length (ch_session_id h) = 16 \<and> encode_channel_hello h = Inr bs"
  then have len: "length (ch_session_id h) = 16" and v: "validate_hello h = Inr ()"
    and bs: "bs = as_bytes ''LPT1'' @ [1, ch_channel h, 0, 0] @ ch_session_id h @ generation_bytes (ch_generation h)"
    by (auto simp: encode_channel_hello_eq)
  have "length (as_bytes ''LPT1'') = 4"
    by simp
  note parts = frame_parts [OF this len, of 1 "ch_channel h" 0 0 "ch_generation h", folded bs]
  show "decode_channel_hello bs = Inr h"
    unfolding decode_channel_hello_def Let_def parts using v by (cases h) simp
qed

lemma encode_channel_admission_eq:
  "encode_channel_admission a = Inr bs \<longleftrightarrow>
     validate_hello \<lparr>ch_channel = ch_visual, ch_session_id = ca_session_id a, ch_generation = ca_generation a\<rparr> = Inr () \<and>
     cg_visual (ca_grants a) \<and> cg_control (ca_grants a) \<and>
     bs = as_bytes ''LPA1'' @ [1, if cg_desktop_input (ca_grants a) then 7 else 3, 0, 0] @
       ca_session_id a @ generation_bytes (ca_generation a)"
  by (auto simp: encode_channel_admission_def result_simps)

lemma channel_admission_codec:
  "decode_channel_admission bs = Inr a \<longleftrightarrow> length (ca_session_id a) = 16 \<and> encode_channel_admission a = Inr bs"
proof
  assume dec: "decode_channel_admission bs = Inr a"
  then have bs: "length bs = 32" "take 4 bs = as_bytes ''LPA1''" "bs ! 4 = 1" "bs ! 6 = 0" "bs ! 7 = 0"
      "bs ! 5 = 3 \<or> bs ! 5 = 7"
    and a: "a = \<lparr>ca_session_id = map (\<lambda>i. bs ! (8 + i)) [0..<16], ca_generation = read_generation bs,
               ca_grants = \<lparr>cg_visual = True, cg_control = True, cg_desktop_input = (bs ! 5 = 7)\<rparr>\<rparr>"
    and v: "validate_hello \<lparr>ch_channel = ch_visual, ch_session_id = ca_session_id a, ch_generation = ca_generation a\<rparr> = Inr ()"
    by (auto simp: decode_channel_admission_def Let_def result_simps split: if_splits)
  show "length (ca_session_id a) = 16 \<and> encode_channel_admission a = Inr bs"
    using frame_split [OF bs(1)] map_nth_take [of 16 8 bs] v bs generation_bytes_read [OF bs(1)]
    unfolding encode_channel_admission_eq by (auto simp: a)
next
  assume "length (ca_session_id a) = 16 \<and> encode_channel_admission a = Inr bs"
  then have len: "length (ca_session_id a) = 16" and g: "cg_visual (ca_grants a)" "cg_control (ca_grants a)"
    and v: "validate_hello \<lparr>ch_channel = ch_visual, ch_session_id = ca_session_id a, ch_generation = ca_generation a\<rparr> = Inr ()"
    and bs: "bs = as_bytes ''LPA1'' @ [1, if cg_desktop_input (ca_grants a) then 7 else 3, 0, 0] @
       ca_session_id a @ generation_bytes (ca_generation a)"
    by (auto simp: encode_channel_admission_eq)
  have "length (as_bytes ''LPA1'') = 4"
    by simp
  note parts = frame_parts [OF this len, of 1 "if cg_desktop_input (ca_grants a) then 7 else 3" 0 0
      "ca_generation a", folded bs]
  show "decode_channel_admission bs = Inr a"
    unfolding decode_channel_admission_def Let_def parts using v g by (cases a, cases "ca_grants a") simp
qed

interpretation hello_msg: message_codec "\<lambda>h. length (ch_session_id h) = 16" encode_channel_hello decode_channel_hello
  by unfold_locales (rule channel_hello_codec)

interpretation admission_msg: message_codec "\<lambda>a. length (ca_session_id a) = 16"
    encode_channel_admission decode_channel_admission
  by unfold_locales (rule channel_admission_codec)

section \<open>Runs of a session\<close>

datatype channel_call =
    Ch_attach channel_hello peer_evidence u64 time_point
  | Ch_disconnect u64
  | Ch_revoke

definition channel_step :: "tcp_session \<Rightarrow> channel_call \<Rightarrow> tcp_session" where
  "channel_step s call = (case call of
     Ch_attach h e c now \<Rightarrow> snd (tcp_attach h e c now s)
   | Ch_disconnect c \<Rightarrow> tcp_disconnect c s
   | Ch_revoke \<Rightarrow> tcp_revoke s)"

text \<open>A connection that a call of the run has attached, and that is still attached: the session was never revoked, and
  the connection has not been disconnected since.\<close>

definition attached_by ::
  "tcp_session \<Rightarrow> channel_call list \<Rightarrow> channel_hello \<Rightarrow> peer_evidence \<Rightarrow> u64 \<Rightarrow> time_point \<Rightarrow> bool" where
  "attached_by s0 calls h e c t \<longleftrightarrow> Ch_revoke \<notin> set calls \<and> (\<exists>before later. calls = before @ Ch_attach h e c t # later \<and>
     fst (tcp_attach h e c t (foldl channel_step s0 before)) = Inr True \<and> Ch_disconnect c \<notin> set later)"

definition channels_held :: "tcp_session \<Rightarrow> channel_call list \<Rightarrow> tcp_session \<Rightarrow> bool" where
  "channels_held s0 calls s \<longleftrightarrow> (\<exists>v c. tc_connections s = [v, c] \<and> (v \<noteq> 0 \<longrightarrow> v \<noteq> c) \<and>
     (if tc_revoked s then v = 0 \<and> c = 0 else Ch_revoke \<notin> set calls) \<and>
     (v \<noteq> 0 \<longrightarrow> (\<exists>h e t. ch_channel h = ch_visual \<and> attached_by s0 calls h e v t)) \<and>
     (c \<noteq> 0 \<longrightarrow> (\<exists>h e t. ch_channel h = ch_control \<and> attached_by s0 calls h e c t)))"

lemma attached_by_snoc:
  assumes "attached_by s0 calls h e c t" "call \<noteq> Ch_revoke" "call \<noteq> Ch_disconnect c"
  shows "attached_by s0 (calls @ [call]) h e c t"
proof -
  obtain before later where "calls = before @ Ch_attach h e c t # later" "Ch_disconnect c \<notin> set later"
    "fst (tcp_attach h e c t (foldl channel_step s0 before)) = Inr True" "Ch_revoke \<notin> set calls"
    using assms(1) by (auto simp: attached_by_def)
  then show ?thesis
    using assms(2,3) unfolding attached_by_def by (intro conjI exI [of _ before] exI [of _ "later @ [call]"]) auto
qed

lemma attached_by_new:
  "Ch_revoke \<notin> set calls \<Longrightarrow> fst (tcp_attach h e c t (foldl channel_step s0 calls)) = Inr True \<Longrightarrow>
     attached_by s0 (calls @ [Ch_attach h e c t]) h e c t"
  unfolding attached_by_def by (intro conjI exI [of _ calls] exI [of _ "[]"]) auto

lemma channel_index_eq: "channel_index ch = Inr k \<longleftrightarrow> ch = ch_visual \<and> k = 0 \<or> ch = ch_control \<and> k = 1"
  by (auto simp: channel_index_def Let_def ch_visual_def ch_control_def word_unat_eq_iff)

lemma tcp_attach_True:
  "tcp_attach h e c now s = (Inr True, s') \<longleftrightarrow> (\<exists>slot. validate_hello h = Inr () \<and>
     validate_peer_evidence e = Inr () \<and> channel_index (ch_channel h) = Inr slot \<and>
     \<not> tc_revoked s \<and> now < tc_expires_at s \<and> ch_session_id h = tc_id s \<and>
     ch_generation h = tc_generation s \<and> pe_certificate_sha256 e = tc_peer s \<and>
     [cg_visual (tc_grants s), cg_control (tc_grants s)] ! slot \<and> c \<noteq> 0 \<and>
     tc_connections s ! slot = 0 \<and> c \<notin> set (tc_connections s) \<and>
     s' = s\<lparr>tc_connections := (tc_connections s)[slot := c]\<rparr>)"
  by (auto simp: tcp_attach_def Let_def result_simps split: sum.splits if_splits)

lemma tcp_attach_not_True: "fst (tcp_attach h e c now s) \<noteq> Inr True \<Longrightarrow> snd (tcp_attach h e c now s) = s"
  by (auto simp: tcp_attach_def Let_def split: sum.splits if_splits)

lemma channel_step_const:
  "tc_id (channel_step s call) = tc_id s" "tc_generation (channel_step s call) = tc_generation s"
  "tc_peer (channel_step s call) = tc_peer s" "tc_grants (channel_step s call) = tc_grants s"
  "tc_expires_at (channel_step s call) = tc_expires_at s"
  by (cases call; auto simp: channel_step_def tcp_attach_def tcp_disconnect_def tcp_revoke_def Let_def
      split: sum.split)+

lemma validate_peer_evidence_ok:
  "validate_peer_evidence e = Inr () \<longleftrightarrow> \<not> all_zero (pe_certificate_sha256 e) \<and>
     pe_tls_1_3_negotiated e \<and> pe_certificate_chain_valid e \<and> pe_revocation_checked e"
  by (auto simp: validate_peer_evidence_def throw_if_def)

lemma channels_held_step:
  assumes held: "channels_held s0 calls s" and s: "s = foldl channel_step s0 calls"
  shows "channels_held s0 (calls @ [call]) (channel_step s call)"
proof -
  obtain v c where conn: "tc_connections s = [v, c]" and ok: "v \<noteq> 0 \<longrightarrow> v \<noteq> c"
      "if tc_revoked s then v = 0 \<and> c = 0 else Ch_revoke \<notin> set calls"
      "v \<noteq> 0 \<longrightarrow> (\<exists>h e t. ch_channel h = ch_visual \<and> attached_by s0 calls h e v t)"
      "c \<noteq> 0 \<longrightarrow> (\<exists>h e t. ch_channel h = ch_control \<and> attached_by s0 calls h e c t)"
    using held unfolding channels_held_def by blast
  have kept: "y \<noteq> 0 \<longrightarrow> (\<exists>h e t. ch_channel h = ch \<and> attached_by s0 (calls @ [call]) h e y t)"
    if "y \<noteq> 0 \<longrightarrow> (\<exists>h e t. ch_channel h = ch \<and> attached_by s0 calls h e y t)" "call \<noteq> Ch_revoke" "y \<noteq> 0 \<longrightarrow> call \<noteq> Ch_disconnect y"
    for y ch
    using that attached_by_snoc by blast
  have keep: "channels_held s0 (calls @ [call]) s"
    if "call \<noteq> Ch_revoke" "v \<noteq> 0 \<longrightarrow> call \<noteq> Ch_disconnect v" "c \<noteq> 0 \<longrightarrow> call \<noteq> Ch_disconnect c"
    using conn ok(1,2) kept [OF ok(3) that(1,2)] kept [OF ok(4) that(1,3)] that(1)
    unfolding channels_held_def by (intro exI [of _ v] exI [of _ c]) (auto split: if_splits)
  have gone: "channels_held s0 (calls @ [call]) (tcp_revoke s)"
    by (simp add: channels_held_def tcp_revoke_def)
  show ?thesis
  proof (cases call)
    case (Ch_attach h e x now)
    show ?thesis
    proof (cases "fst (tcp_attach h e x now s) = Inr True")
      case False
      then show ?thesis
        using tcp_attach_not_True [OF False] Ch_attach keep by (simp add: channel_step_def)
    next
      case True
      then have "tcp_attach h e x now s = (Inr True, channel_step s call)"
        by (simp add: Ch_attach channel_step_def prod_eq_iff)
      then obtain slot where a: "channel_index (ch_channel h) = Inr slot" "\<not> tc_revoked s" "x \<noteq> 0" "x \<noteq> v" "x \<noteq> c"
        and s': "channel_step s call = s\<lparr>tc_connections := [v, c][slot := x]\<rparr>"
        unfolding tcp_attach_True conn by auto
      have clean: "Ch_revoke \<notin> set calls"
        using ok(2) a(2) by simp
      have new: "attached_by s0 (calls @ [call]) h e x now"
        using attached_by_new [OF clean] True by (simp add: s Ch_attach)
      note old = kept [OF ok(3)] kept [OF ok(4)]
      from a(1) consider "ch_channel h = ch_visual" "slot = 0" | "ch_channel h = ch_control" "slot = 1"
        by (auto simp: channel_index_eq)
      then show ?thesis
      proof cases
        case 1
        then have "x \<noteq> 0 \<longrightarrow> (\<exists>h e t. ch_channel h = ch_visual \<and> attached_by s0 (calls @ [call]) h e x t)"
          using new by blast
        then show ?thesis
          unfolding channels_held_def s' using 1 a clean old Ch_attach by (intro exI [of _ x] exI [of _ c]) simp
      next
        case 2
        then have "x \<noteq> 0 \<longrightarrow> (\<exists>h e t. ch_channel h = ch_control \<and> attached_by s0 (calls @ [call]) h e x t)"
          using new by blast
        then show ?thesis
          unfolding channels_held_def s' using 2 a clean old Ch_attach by (intro exI [of _ v] exI [of _ x]) simp
      qed
    qed
  next
    case (Ch_disconnect x)
    then show ?thesis
      using gone keep conn by (auto simp: channel_step_def tcp_disconnect_def)
  next
    case Ch_revoke
    then show ?thesis
      using gone by (simp add: channel_step_def)
  qed
qed

lemma channels_held_run: "channels_held s0 [] s0 \<Longrightarrow> channels_held s0 calls (foldl channel_step s0 calls)"
proof (induction calls rule: rev_induct)
  case (snoc call calls)
  then show ?case
    using channels_held_step [of s0 calls "foldl channel_step s0 calls" call] by simp
qed simp

lemma channel_run_const:
  "tc_id (foldl channel_step s calls) = tc_id s \<and> tc_generation (foldl channel_step s calls) = tc_generation s \<and>
   tc_peer (foldl channel_step s calls) = tc_peer s \<and> tc_grants (foldl channel_step s calls) = tc_grants s \<and>
   tc_expires_at (foldl channel_step s calls) = tc_expires_at s"
  by (induction calls arbitrary: s) (simp_all add: channel_step_const)

lemma new_tcp_session_ok:
  assumes "new_tcp_session sid generation peer grants expires_at = Inr s"
  shows "channels_held s [] s" "tc_grants s = grants" "tc_expires_at s = expires_at" "tc_peer s = peer"
    "tc_id s = sid" "tc_generation s = generation"
  using assms by (auto simp: new_tcp_session_def result_simps channels_held_def)

lemma input_allowed_facts:
  assumes "channels_held s0 calls s" "tcp_input_allowed x now s = Inr True"
  shows "cg_desktop_input (tc_grants s) \<and> now < tc_expires_at s \<and> (\<exists>v. v \<noteq> x \<and>
    (\<exists>h e t. ch_channel h = ch_control \<and> attached_by s0 calls h e x t) \<and>
    (\<exists>h e t. ch_channel h = ch_visual \<and> attached_by s0 calls h e v t))"
proof -
  obtain v c where conn: "tc_connections s = [v, c]" and ok: "v \<noteq> 0 \<longrightarrow> v \<noteq> c"
      "v \<noteq> 0 \<longrightarrow> (\<exists>h e t. ch_channel h = ch_visual \<and> attached_by s0 calls h e v t)"
      "c \<noteq> 0 \<longrightarrow> (\<exists>h e t. ch_channel h = ch_control \<and> attached_by s0 calls h e c t)"
    using assms(1) unfolding channels_held_def by blast
  have "cg_desktop_input (tc_grants s)" "v \<noteq> 0" "now < tc_expires_at s" "x \<noteq> 0" "c = x"
    using assms(2) conn
    by (auto simp: tcp_input_allowed_def tcp_active_def result_simps channel_index_eq ch_visual_def ch_control_def
        split: if_splits)
  then show ?thesis
    using ok by blast
qed

text \<open>What an attachment that succeeded has checked.\<close>

lemma attached_by_checked:
  assumes "attached_by s0 calls h e c t"
  shows "c \<noteq> 0 \<and> ch_session_id h = tc_id s0 \<and> ch_generation h = tc_generation s0 \<and> pe_certificate_sha256 e = tc_peer s0 \<and>
    pe_tls_1_3_negotiated e \<and> pe_certificate_chain_valid e \<and> pe_revocation_checked e \<and> t < tc_expires_at s0"
proof -
  obtain before where "fst (tcp_attach h e c t (foldl channel_step s0 before)) = Inr True"
    using assms by (auto simp: attached_by_def)
  then obtain s' where "tcp_attach h e c t (foldl channel_step s0 before) = (Inr True, s')"
    by (metis prod.collapse)
  then show ?thesis
    using channel_run_const [of s0 before] by (auto simp: tcp_attach_True validate_peer_evidence_ok)
qed

text \<open>A revoked session stays revoked and without connections.\<close>

definition channels_dead :: "tcp_session \<Rightarrow> bool" where
  "channels_dead s \<longleftrightarrow> tc_revoked s \<and> tc_connections s = [0, 0]"

interpretation dead: invariant_machine channel_step "tcp_revoke s0" channels_dead for s0
proof unfold_locales
  show "channels_dead (tcp_revoke s0)"
    by (simp add: channels_dead_def tcp_revoke_def)
  show "channels_dead s \<Longrightarrow> channels_dead (channel_step s call)" for s call
    by (cases call) (auto simp: channels_dead_def channel_step_def tcp_attach_def tcp_disconnect_def
        tcp_revoke_def Let_def split: sum.split)
qed

section \<open>Properties\<close>

text \<open>The hello and the admission of a channel: the decoders accept exactly the encodings of messages
  with a 16-byte session identifier.\<close>

theorem channel_message_codecs:
  "(decode_channel_hello bs = Inr h) = (length (ch_session_id h) = 16 \<and> encode_channel_hello h = Inr bs) \<and>
   (decode_channel_admission bs = Inr a) =
     (length (ca_session_id a) = 16 \<and> encode_channel_admission a = Inr bs)"
  using hello_msg.decode_iff admission_msg.decode_iff by simp

text \<open>C26. Input is allowed only on a session that was granted input, before it expires, and while two
  different connections are attached to it: the one that asks as the control channel, the other as the visual channel.
  Each was attached by a call that succeeded, with a hello for this session and generation and complete evidence that the
  peer is the one authorized peer; since then neither connection has been disconnected, and the session was never revoked.\<close>

theorem channel_input_justified:
  assumes "new_tcp_session sid generation peer grants expires_at = Inr s0"
    and "tcp_input_allowed x now (foldl channel_step s0 calls) = Inr True"
  shows "cg_desktop_input grants \<and> now < expires_at \<and> (\<exists>v. v \<noteq> x \<and>
    (\<exists>h e t. attached_by s0 calls h e x t \<and> ch_channel h = ch_control \<and> ch_session_id h = sid \<and>
       ch_generation h = generation \<and> pe_certificate_sha256 e = peer \<and> pe_tls_1_3_negotiated e \<and>
       pe_certificate_chain_valid e \<and> pe_revocation_checked e) \<and>
    (\<exists>h e t. attached_by s0 calls h e v t \<and> ch_channel h = ch_visual \<and> ch_session_id h = sid \<and>
       ch_generation h = generation \<and> pe_certificate_sha256 e = peer \<and> pe_tls_1_3_negotiated e \<and>
       pe_certificate_chain_valid e \<and> pe_revocation_checked e))"
proof -
  note new = new_tcp_session_ok [OF assms(1)]
  have found: "\<exists>h e t. attached_by s0 calls h e c t \<and> ch_channel h = channel \<and> ch_session_id h = sid \<and>
       ch_generation h = generation \<and> pe_certificate_sha256 e = peer \<and> pe_tls_1_3_negotiated e \<and>
       pe_certificate_chain_valid e \<and> pe_revocation_checked e"
    if "\<exists>h e t. ch_channel h = channel \<and> attached_by s0 calls h e c t" for channel c
    using that attached_by_checked new by blast
  obtain v where granted: "cg_desktop_input (tc_grants (foldl channel_step s0 calls))"
      "now < tc_expires_at (foldl channel_step s0 calls)" and "v \<noteq> x"
    and held: "\<exists>h e t. ch_channel h = ch_control \<and> attached_by s0 calls h e x t"
      "\<exists>h e t. ch_channel h = ch_visual \<and> attached_by s0 calls h e v t"
    using input_allowed_facts [OF channels_held_run [OF new(1)] assms(2)] by blast
  moreover have "cg_desktop_input grants" "now < expires_at"
    using granted channel_run_const [of s0 calls] new by simp_all
  ultimately show ?thesis
    using found by (intro conjI exI [of _ v]) blast+
qed

definition sample_hello :: "tcp_channel \<Rightarrow> channel_hello" where
  "sample_hello ch = \<lparr>ch_channel = ch, ch_session_id = replicate 16 1, ch_generation = 4\<rparr>"

definition sample_evidence :: peer_evidence where
  "sample_evidence = \<lparr>pe_certificate_sha256 = replicate 32 9, pe_tls_1_3_negotiated = True,
     pe_certificate_chain_valid = True, pe_revocation_checked = True\<rparr>"

definition sample_grants :: channel_grants where
  "sample_grants = \<lparr>cg_visual = True, cg_control = True, cg_desktop_input = True\<rparr>"

definition sample_tcp_session :: tcp_session where
  "sample_tcp_session = \<lparr>tc_id = replicate 16 1, tc_generation = 4, tc_peer = replicate 32 9,
     tc_grants = sample_grants, tc_expires_at = 100, tc_connections = [0, 0], tc_revoked = False\<rparr>"

definition sample_attach :: "channel_call list" where
  "sample_attach = [Ch_attach (sample_hello ch_visual) sample_evidence 5 1,
     Ch_attach (sample_hello ch_control) sample_evidence 6 2]"

lemma sample_session_new:
  "new_tcp_session (replicate 16 1) 4 (replicate 32 9) sample_grants 100 = Inr sample_tcp_session"
  by (simp add: new_tcp_session_def validate_hello_def channel_index_def ch_visual_def nonzero_def
      sample_grants_def sample_tcp_session_def list_ex_iff)

lemma sample_attach_run:
  "foldl channel_step sample_tcp_session sample_attach = sample_tcp_session\<lparr>tc_connections := [5, 6]\<rparr>"
  by (simp add: sample_attach_def channel_step_def tcp_attach_def validate_hello_def channel_index_def
      ch_visual_def ch_control_def nonzero_def sample_hello_def sample_evidence_def sample_tcp_session_def
      sample_grants_def validate_peer_evidence_def all_zero_def Let_def list_ex_iff list_all_iff)

theorem channel_input_justified_witness:
  "tcp_input_allowed 6 3 (foldl channel_step sample_tcp_session sample_attach) = Inr True \<and>
   (\<exists>v. v \<noteq> (6 :: u64) \<and> (\<exists>h e t. attached_by sample_tcp_session sample_attach h e v t \<and> ch_channel h = ch_visual))"
proof -
  have run: "tcp_input_allowed 6 3 (foldl channel_step sample_tcp_session sample_attach) = Inr True"
    unfolding sample_attach_run
    by (simp add: tcp_input_allowed_def tcp_active_def channel_index_def ch_control_def
        sample_tcp_session_def sample_grants_def)
  then show ?thesis
    using channel_input_justified [OF sample_session_new run] by blast
qed

text \<open>Losing either channel ends the session for good: once an attached connection has been
  disconnected, or the session revoked, nothing is active, no input is allowed and nothing attaches
  any more, whatever happens afterwards.\<close>

theorem channel_loss_is_final:
  assumes "s' = tcp_revoke s \<or> x \<noteq> 0 \<and> (tc_connections s ! 0 = x \<or> tc_connections s ! 1 = x) \<and>
    s' = tcp_disconnect x s"
  shows "tcp_active channel y now (foldl channel_step s' calls) = Inr False \<and>
    tcp_input_allowed y now (foldl channel_step s' calls) = Inr False \<and>
    fst (tcp_attach h e y now (foldl channel_step s' calls)) \<noteq> Inr True"
proof -
  have "s' = tcp_revoke s"
    using assms by (auto simp: tcp_disconnect_def)
  then have "channels_dead (foldl channel_step s' calls)"
    using dead.run_inv [of s calls] by simp
  then show ?thesis
    by (auto simp: channels_dead_def tcp_active_def tcp_input_allowed_def tcp_attach_def Let_def split: sum.split)
qed

theorem channel_loss_is_final_witness:
  "tcp_input_allowed 6 3 (foldl channel_step
     (tcp_disconnect 5 (foldl channel_step sample_tcp_session sample_attach)) sample_attach) = Inr False"
proof -
  let ?s = "foldl channel_step sample_tcp_session sample_attach"
  have "tcp_disconnect 5 ?s = tcp_revoke ?s \<or> (5 :: u64) \<noteq> 0 \<and>
      (tc_connections ?s ! 0 = 5 \<or> tc_connections ?s ! 1 = 5) \<and> tcp_disconnect 5 ?s = tcp_disconnect 5 ?s"
    by (simp add: sample_attach_run)
  from channel_loss_is_final [OF this] show ?thesis
    by blast
qed

end
