(* ===== verification/Text_Format.thy ===== *)
theory Text_Format
  imports Identity
begin

text \<open>
  What the text files of \<open>core/\<close> and \<open>transport/\<close> share: the lines of a file and decimal numbers, as the standard
  library reads and writes them, and that what is written is read back.
\<close>

text \<open>\<open>std::from_chars\<close> for an unsigned number reads the longest prefix of digits; here it must be the
  whole text, must not be empty, and its value must fit.\<close>

definition digits_value :: "string \<Rightarrow> nat" where
  "digits_value ds = foldl (\<lambda>n c. n * 10 + (of_char c - 48)) 0 ds"

text \<open>The lines that \<open>std::getline\<close> yields.\<close>

function file_lines :: "string \<Rightarrow> string list" where
  "file_lines content =
     (if content = [] then []
      else takeWhile (\<lambda>c. c \<noteq> CHR 0x0A) content # file_lines (drop 1 (dropWhile (\<lambda>c. c \<noteq> CHR 0x0A) content)))"
  by pat_completeness auto
termination
proof (relation "measure length")
  fix content :: string
  assume "content \<noteq> []"
  moreover have "length (dropWhile (\<lambda>c. c \<noteq> CHR 0x0A) content) \<le> length content"
    by (rule length_dropWhile_le)
  ultimately show "(drop 1 (dropWhile (\<lambda>c. c \<noteq> CHR 0x0A) content), content) \<in> measure length"
    by (cases content) auto
qed simp

declare file_lines.simps [simp del]

section \<open>Numbers\<close>

lemma digits_value_snoc: "digits_value (ds @ [c]) = digits_value ds * 10 + (of_char c - 48)"
  by (simp add: digits_value_def)

lemma is_digit_char [simp]: "k < 10 \<Longrightarrow> is_digit (char_of (48 + k :: nat))"
  by (simp add: is_digit_def)

lemma decimal_digits [simp]: "list_all is_digit (decimal n)"
proof (induction n rule: decimal.induct)
  case (1 n)
  then show ?case
    by (subst decimal.simps) auto
qed

lemma digits_value_decimal [simp]: "digits_value (decimal n) = n"
proof (induction n rule: decimal.induct)
  case (1 n)
  show ?case
  proof (cases "n < 10")
    case True
    then show ?thesis
      by (subst decimal.simps) (simp add: digits_value_def)
  next
    case False
    then show ?thesis
      using 1 by (subst decimal.simps) (simp add: digits_value_snoc)
  qed
qed

lemma decimal_ne [simp]: "decimal n \<noteq> []"
  by (subst decimal.simps) simp

lemma decimal_inject [simp]: "decimal m = decimal n \<longleftrightarrow> m = n"
  by (metis digits_value_decimal)

lemma decimal_avoids: "\<not> is_digit c \<Longrightarrow> c \<notin> set (decimal n)"
  using decimal_digits [of n] by (auto simp: list_all_iff simp del: decimal_digits)

lemma length_decimal: "n < 10 ^ k \<Longrightarrow> 0 < k \<Longrightarrow> length (decimal n) \<le> k"
proof (induction k arbitrary: n)
  case (Suc k)
  show ?case
  proof (cases "n < 10")
    case True
    then show ?thesis
      by (subst decimal.simps) simp
  next
    case False
    then have "0 < k" "n div 10 < 10 ^ k"
      using Suc.prems(1) by (cases k; simp add: div_less_iff_less_mult)+
    then show ?thesis
      using Suc.IH False by (subst decimal.simps) simp
  qed
qed simp

section \<open>Lines\<close>

lemma file_lines_Nil [simp]: "file_lines [] = []"
  by (subst file_lines.simps) simp

lemma file_lines_line: "CHR 0x0A \<notin> set l \<Longrightarrow> file_lines (l @ CHR 0x0A # rest) = l # file_lines rest"
  by (subst file_lines.simps) (auto simp: takeWhile_tail dropWhile_append)

lemma file_lines_last: "l \<noteq> [] \<Longrightarrow> CHR 0x0A \<notin> set l \<Longrightarrow> file_lines l = [l]"
proof -
  assume l: "l \<noteq> []" "CHR 0x0A \<notin> set l"
  then have "takeWhile (\<lambda>c. c \<noteq> CHR 0x0A) l = l" "dropWhile (\<lambda>c. c \<noteq> CHR 0x0A) l = []"
    by (auto simp: takeWhile_eq_all_conv)
  then show ?thesis
    using l(1) by (subst file_lines.simps) (simp del: dropWhile_eq_Nil_conv takeWhile_eq_all_conv)
qed

text \<open>Every line ended by a newline.\<close>

definition join_lines :: "string list \<Rightarrow> string" where
  "join_lines ls = concat (map (\<lambda>l. l @ [CHR 0x0A]) ls)"

lemma file_lines_join: "list_all (\<lambda>l. CHR 0x0A \<notin> set l) ls \<Longrightarrow> file_lines (join_lines ls) = ls"
  by (induction ls) (simp_all add: join_lines_def file_lines_line)

section \<open>Fields\<close>

text \<open>A line \<open>key=value\<close> is split at its first \<open>=\<close>; both parts must be there.\<close>

definition split_field :: "string \<Rightarrow> (string \<times> string) option" where
  "split_field line =
     (let key = takeWhile (\<lambda>c. c \<noteq> CHR ''='') line; val = drop (length key + 1) line
      in if length key = length line \<or> key = [] \<or> val = [] then None else Some (key, val))"

text \<open>The map of the fields: a line that is none, and a second field of the same name, throw.\<close>

fun read_fields ::
  "(string \<Rightarrow> (string \<times> string) option) \<Rightarrow> exn \<Rightarrow> exn \<Rightarrow> string list \<Rightarrow> (string \<rightharpoonup> string) \<Rightarrow> (string \<rightharpoonup> string) result" where
  "read_fields split bad duplicate [] fm = ok fm"
| "read_fields split bad duplicate (l # ls) fm = (case split l of
     None \<Rightarrow> throw bad
   | Some (key, val) \<Rightarrow>
       if fm key \<noteq> None then throw duplicate
       else read_fields split bad duplicate ls (fm(key \<mapsto> val)))"

definition take_field :: "exn \<Rightarrow> string \<Rightarrow> (string \<rightharpoonup> string) \<Rightarrow> (string \<times> (string \<rightharpoonup> string)) result" where
  "take_field missing key fm = (case fm key of
     None \<Rightarrow> throw missing | Some val \<Rightarrow> ok (val, fm(key := None)))"

definition field_line :: "string \<times> string \<Rightarrow> string" where
  "field_line = (\<lambda>(key, val). key @ ''='' @ val)"

definition render_fields :: "(string \<times> string) list \<Rightarrow> string" where
  "render_fields fs = join_lines (map field_line fs)"

definition field_ok :: "string \<times> string \<Rightarrow> bool" where
  "field_ok = (\<lambda>(key, val). key \<noteq> [] \<and> val \<noteq> [] \<and> CHR ''='' \<notin> set key \<and> CHR 0x0A \<notin> set (key @ val) \<and>
     CHR 0x0D \<notin> set (key @ val))"

lemma split_field_line: "field_ok f \<Longrightarrow> split_field (field_line f) = Some f"
proof -
  assume ok: "field_ok f"
  obtain key val where f: "f = (key, val)"
    by fastforce
  have "takeWhile (\<lambda>c. c \<noteq> CHR ''='') (field_line f) = key"
    using ok by (simp add: f field_line_def field_ok_def) (subst takeWhile_append2, auto)
  then show ?thesis
    using ok by (simp add: split_field_def f field_line_def field_ok_def)
qed

lemma file_lines_render: "list_all field_ok fs \<Longrightarrow> file_lines (render_fields fs) = map field_line fs"
  unfolding render_fields_def
  by (rule file_lines_join) (auto simp: list_all_iff field_ok_def field_line_def)

lemma read_fields_map:
  assumes "map split ls = map Some fs" and "distinct (map fst fs)" and "\<forall>f \<in> set fs. m (fst f) = None"
  shows "read_fields split bad duplicate ls m = Inr (m ++ map_of fs)"
  using assms
proof (induction ls arbitrary: fs m)
  case (Cons l ls)
  obtain key val gs where fs: "fs = (key, val) # gs"
    using Cons.prems(1) by (cases fs) auto
  then have "m(key \<mapsto> val) ++ map_of gs = m ++ map_of fs"
    using Cons.prems(2) by (auto simp: fun_eq_iff map_add_def rev_image_eqI split: option.split
        dest!: map_of_SomeD)
  moreover have "\<forall>f \<in> set gs. (m(key \<mapsto> val)) (fst f) = None"
    using Cons.prems(2,3) fs by (auto simp: image_iff)
  ultimately have "read_fields split bad duplicate ls (m(key \<mapsto> val)) = Inr (m ++ map_of fs)"
    using Cons.IH [of gs "m(key \<mapsto> val)"] Cons.prems fs by (simp del: fun_upd_apply map_of.simps)
  moreover have "read_fields split bad duplicate (l # ls) m = read_fields split bad duplicate ls (m(key \<mapsto> val))"
    using Cons.prems fs by simp
  ultimately show ?case
    by simp
qed simp

lemma read_rendered_fields:
  assumes "list_all field_ok fs" and "distinct (map fst fs)"
    and "\<And>f. f \<in> set fs \<Longrightarrow> split (field_line f) = Some f"
  shows "read_fields split bad duplicate (file_lines (render_fields fs)) Map.empty = Inr (map_of fs)"
  using read_fields_map [of split "map field_line fs" fs Map.empty] assms
  by (simp add: file_lines_render)

lemma render_fields_ends:
  "fs \<noteq> [] \<Longrightarrow> render_fields fs \<noteq> [] \<and> last (render_fields fs) = CHR 0x0A"
  by (induction fs rule: List.rev_induct) (auto simp: render_fields_def join_lines_def)

lemma length_render_fields: "length (render_fields fs) = sum_list (map (\<lambda>(k, v). length k + length v + 2) fs)"
  by (induction fs) (auto simp: render_fields_def join_lines_def field_line_def)

end
