(* ===== verification/Transport_Settings.thy ===== *)
theory Transport_Settings
  imports Audit_Log Text_Format
begin

text \<open>
  The configuration half of \<open>transport/src/resilient_transport.cpp\<close>: the checks of endpoints, settings,
  offers and recovery cursors, the file format of the settings, and the negotiation of features. A file
  is its content, or nothing when it cannot be opened, and whether the stream ended in the state \<open>bad\<close>;
  \<open>std::chrono::seconds\<close> is a signed 64-bit word, so that the product in the check of the settings is
  the one the compiled code computes.
\<close>

section \<open>Data\<close>

datatype transport_mode = Quic | Tls_tcp_udp_fallback

datatype network_path = Path_lan | Path_wifi | Path_vpn | Path_unknown

datatype connection_state = Disconnected | Connecting | Ready | Migrating | Closed

fun mode_to_string :: "transport_mode \<Rightarrow> string" where
  "mode_to_string Quic = ''quic''"
| "mode_to_string Tls_tcp_udp_fallback = ''tls_tcp_udp_fallback''"

fun path_to_string :: "network_path \<Rightarrow> string" where
  "path_to_string Path_lan = ''lan''"
| "path_to_string Path_wifi = ''wifi''"
| "path_to_string Path_vpn = ''vpn''"
| "path_to_string Path_unknown = ''unknown''"

fun connection_state_to_string :: "connection_state \<Rightarrow> string" where
  "connection_state_to_string Disconnected = ''disconnected''"
| "connection_state_to_string Connecting = ''connecting''"
| "connection_state_to_string Ready = ''ready''"
| "connection_state_to_string Migrating = ''migrating''"
| "connection_state_to_string Closed = ''closed''"

record transport_endpoint =
  te_host :: string
  te_port :: u16
  te_path :: network_path

record quic_settings =
  qs_alpn :: string
  qs_require_tls13 :: bool
  qs_enable_datagrams :: bool
  qs_enable_connection_migration :: bool
  qs_enable_fallback :: bool
  qs_maximum_datagram_bytes :: u64
  qs_idle_timeout :: u64
  qs_keep_alive :: u64
  qs_primary_failures_before_fallback :: u64

definition default_quic_settings :: quic_settings where
  "default_quic_settings = \<lparr>qs_alpn = ''rwn/1'', qs_require_tls13 = True, qs_enable_datagrams = True,
     qs_enable_connection_migration = True, qs_enable_fallback = True, qs_maximum_datagram_bytes = 1400,
     qs_idle_timeout = 30, qs_keep_alive = 5, qs_primary_failures_before_fallback = 2\<rparr>"

datatype video_feature =
    F_h264 | F_hevc | F_av1 | F_resolution_4k | F_fps_120 | F_hdr | F_multi_monitor | F_adaptive_bitrate

record feature_offer =
  fo_minimum_protocol_version :: u16
  fo_maximum_protocol_version :: u16
  fo_video_features :: "video_feature set"
  fo_maximum_width :: u32
  fo_maximum_height :: u32
  fo_maximum_frames_per_second :: u16
  fo_datagrams :: bool

record negotiated_features =
  nf_protocol_version :: u16
  nf_video_features :: "video_feature set"
  nf_maximum_width :: u32
  nf_maximum_height :: u32
  nf_maximum_frames_per_second :: u16
  nf_datagrams :: bool

record recovery_cursor =
  rc_session_id :: string
  rc_workspace_id :: string
  rc_workspace_revision :: u64
  rc_active_build_ids :: "string list"
  rc_audit_sequence :: u64

section \<open>Validation\<close>

definition valid_identifier :: "string \<Rightarrow> bool" where
  "valid_identifier value \<longleftrightarrow> value \<noteq> [] \<and> length value \<le> 64 \<and>
     list_all (\<lambda>c. is_alnum c \<or> c = CHR ''-'' \<or> c = CHR ''_'' \<or> c = CHR ''.'') value"

definition validate_transport_endpoint :: "transport_endpoint \<Rightarrow> unit result" where
  "validate_transport_endpoint e = throw_if
     (te_host e = [] \<or> length (te_host e) > 255 \<or> te_port e = 0 \<or>
      \<not> list_all (\<lambda>c. is_alnum c \<or> c = CHR ''-'' \<or> c = CHR ''.'' \<or> c = CHR '':'') (te_host e))
     (Invalid_argument ''transport endpoint is invalid'')"

definition validate_quic_settings :: "quic_settings \<Rightarrow> unit result" where
  "validate_quic_settings s = throw_if
     (\<not> qs_require_tls13 s \<or> qs_alpn s = [] \<or> length (qs_alpn s) > 32 \<or>
      \<not> list_all (\<lambda>c. is_alnum c \<or> c = CHR ''-'' \<or> c = CHR ''.'' \<or> c = CHR ''/'') (qs_alpn s) \<or>
      qs_maximum_datagram_bytes s < 1200 \<or> qs_maximum_datagram_bytes s > 65507 \<or>
      sint (qs_idle_timeout s) < 5 \<or> sint (qs_idle_timeout s) > 300 \<or>
      sint (qs_keep_alive s) < 1 \<or> sint (qs_keep_alive s * 2) > sint (qs_idle_timeout s) \<or>
      qs_primary_failures_before_fallback s = 0 \<or> qs_primary_failures_before_fallback s > 10)
     (Invalid_argument ''QUIC transport settings are invalid'')"

definition validate_offer :: "feature_offer \<Rightarrow> unit result" where
  "validate_offer offer = throw_if
     (fo_minimum_protocol_version offer = 0 \<or>
      fo_maximum_protocol_version offer < fo_minimum_protocol_version offer \<or>
      fo_maximum_protocol_version offer > 1024 \<or>
      fo_maximum_width offer = 0 \<or> fo_maximum_width offer > 16384 \<or>
      fo_maximum_height offer = 0 \<or> fo_maximum_height offer > 16384 \<or>
      fo_maximum_frames_per_second offer = 0 \<or> fo_maximum_frames_per_second offer > 240 \<or>
      card (fo_video_features offer) > 8)
     (Invalid_argument ''transport feature offer is invalid'')"

definition validate_recovery :: "recovery_cursor \<Rightarrow> unit result" where
  "validate_recovery cursor = throw_if
     (\<not> valid_identifier (rc_session_id cursor) \<or> \<not> valid_identifier (rc_workspace_id cursor) \<or>
      rc_workspace_revision cursor = 0 \<or> length (rc_active_build_ids cursor) > 32 \<or>
      \<not> list_all valid_identifier (rc_active_build_ids cursor) \<or>
      card (set (rc_active_build_ids cursor)) \<noteq> length (rc_active_build_ids cursor))
     (Invalid_argument ''transport recovery cursor is invalid'')"

section \<open>The settings file\<close>

definition blank :: "char \<Rightarrow> bool" where
  "blank c \<longleftrightarrow> c = CHR 0x20 \<or> c = CHR 0x09 \<or> c = CHR 0x0D \<or> c = CHR 0x0A"

definition trim :: "string \<Rightarrow> string" where
  "trim value = List.rev (dropWhile blank (List.rev (dropWhile blank value)))"

definition quoted :: "string \<Rightarrow> string result" where
  "quoted value =
     (let clean = trim value; inner = take (length clean - 2) (drop 1 clean)
      in if length clean < 2 \<or> hd clean \<noteq> CHR 0x22 \<or> last clean \<noteq> CHR 0x22 \<or>
           list_ex (\<lambda>c. c = CHR 0x5C \<or> c = CHR 0x22 \<or> c = CHR 0x0D \<or> c = CHR 0x0A) inner
         then throw (Invalid_argument ''transport string setting is invalid'')
         else ok inner)"

definition boolean :: "string \<Rightarrow> bool result" where
  "boolean value =
     (let clean = trim value
      in if clean = ''true'' then ok True else if clean = ''false'' then ok False
         else throw (Invalid_argument ''transport boolean setting is invalid''))"

definition unsigned_value :: "string \<Rightarrow> u64 result" where
  "unsigned_value value =
     (let clean = trim value
      in if clean = [] \<or> \<not> list_all is_digit clean \<or> digits_value clean \<ge> 2 ^ 64
         then throw (Invalid_argument ''transport integer setting is invalid'')
         else ok (of_nat (digits_value clean)))"

definition seconds_value :: "string \<Rightarrow> u64 result" where
  "seconds_value value = and_then (unsigned_value value) (\<lambda>parsed.
     if parsed > 0x7FFFFFFFFFFFFFFF then throw (Length_error ''transport duration setting exceeds limit'')
     else ok parsed)"

definition set_key :: "string \<Rightarrow> string \<Rightarrow> quic_settings \<Rightarrow> quic_settings result" where
  "set_key key value s =
     (if key = ''alpn'' then and_then (quoted value) (\<lambda>v. ok (s\<lparr>qs_alpn := v\<rparr>))
      else if key = ''require_tls13'' then and_then (boolean value) (\<lambda>v. ok (s\<lparr>qs_require_tls13 := v\<rparr>))
      else if key = ''enable_datagrams'' then and_then (boolean value) (\<lambda>v. ok (s\<lparr>qs_enable_datagrams := v\<rparr>))
      else if key = ''enable_connection_migration''
      then and_then (boolean value) (\<lambda>v. ok (s\<lparr>qs_enable_connection_migration := v\<rparr>))
      else if key = ''enable_fallback'' then and_then (boolean value) (\<lambda>v. ok (s\<lparr>qs_enable_fallback := v\<rparr>))
      else if key = ''maximum_datagram_bytes''
      then and_then (unsigned_value value) (\<lambda>v. ok (s\<lparr>qs_maximum_datagram_bytes := v\<rparr>))
      else if key = ''idle_timeout_seconds'' then and_then (seconds_value value) (\<lambda>v. ok (s\<lparr>qs_idle_timeout := v\<rparr>))
      else if key = ''keep_alive_seconds'' then and_then (seconds_value value) (\<lambda>v. ok (s\<lparr>qs_keep_alive := v\<rparr>))
      else if key = ''primary_failures_before_fallback''
      then and_then (unsigned_value value) (\<lambda>v. ok (s\<lparr>qs_primary_failures_before_fallback := v\<rparr>))
      else throw (Invalid_argument ''unknown transport setting''))"

text \<open>One line: the settings and the keys seen so far.\<close>

definition settings_line :: "nat \<Rightarrow> string \<Rightarrow> quic_settings \<times> string set \<Rightarrow> (quic_settings \<times> string set) result" where
  "settings_line line_number line st =
     (let clean = trim line; rest = dropWhile (\<lambda>c. c \<noteq> CHR ''='') clean
      in if clean = [] \<or> hd clean = CHR ''#'' then ok st
         else if rest = [] \<or> CHR ''='' \<in> set (tl rest)
         then throw (Invalid_argument (''transport settings line is invalid: '' @ decimal line_number))
         else
           let key = trim (takeWhile (\<lambda>c. c \<noteq> CHR ''='') clean); val = trim (tl rest)
           in if key = [] \<or> key \<in> snd st then throw (Invalid_argument ''duplicate or empty transport setting'')
              else and_then (set_key key val (fst st)) (\<lambda>s. ok (s, insert key (snd st))))"

fun settings_lines :: "nat \<Rightarrow> string list \<Rightarrow> quic_settings \<times> string set \<Rightarrow> (quic_settings \<times> string set) result" where
  "settings_lines line_number [] st = ok st"
| "settings_lines line_number (l # ls) st =
     and_then (settings_line (line_number + 1) l st) (settings_lines (line_number + 1) ls)"

definition load_transport_settings :: "string option \<Rightarrow> bool \<Rightarrow> quic_settings result" where
  "load_transport_settings file bad = (case file of
     None \<Rightarrow> throw (Runtime_error ''transport settings file could not be opened'')
   | Some content \<Rightarrow> and_then (settings_lines 0 (file_lines content) (default_quic_settings, {})) (\<lambda>(s, seen).
       if bad then throw (Runtime_error ''transport settings file read failed'')
       else if card seen \<noteq> 9 then throw (Invalid_argument ''transport settings are incomplete'')
       else and_then (validate_quic_settings s) (\<lambda>_. ok s)))"

section \<open>Features\<close>

definition negotiate_features :: "feature_offer \<Rightarrow> feature_offer \<Rightarrow> negotiated_features result" where
  "negotiate_features a b = and_then (validate_offer a) (\<lambda>_. and_then (validate_offer b) (\<lambda>_.
     let minimum = max (fo_minimum_protocol_version a) (fo_minimum_protocol_version b);
         maximum = min (fo_maximum_protocol_version a) (fo_maximum_protocol_version b);
         features = fo_video_features a \<inter> fo_video_features b;
         width = min (fo_maximum_width a) (fo_maximum_width b);
         height = min (fo_maximum_height a) (fo_maximum_height b);
         fps = min (fo_maximum_frames_per_second a) (fo_maximum_frames_per_second b)
     in if minimum > maximum then throw (Logic_error ''transport protocol versions do not overlap'')
        else if F_h264 \<notin> features then throw (Logic_error ''baseline H.264 feature is not shared'')
        else ok \<lparr>nf_protocol_version = maximum, nf_video_features = features,
          nf_maximum_width = if F_resolution_4k \<in> features then width else min width 1920,
          nf_maximum_height = if F_resolution_4k \<in> features then height else min height 1080,
          nf_maximum_frames_per_second = if F_fps_120 \<in> features then fps else min fps 60,
          nf_datagrams = (fo_datagrams a \<and> fo_datagrams b)\<rparr>))"

section \<open>What the loader accepts\<close>

text \<open>The declarative reading of a file: the lines that count, the assignment each is, and what the value of
  a key must be in the result.\<close>

definition assignment_line :: "string \<Rightarrow> bool" where
  "assignment_line l \<longleftrightarrow> count_list l (CHR ''='') = 1 \<and> trim (takeWhile (\<lambda>c. c \<noteq> CHR ''='') l) \<noteq> []"

definition assignment :: "string \<Rightarrow> string \<times> string" where
  "assignment l = (trim (takeWhile (\<lambda>c. c \<noteq> CHR ''='') l), trim (tl (dropWhile (\<lambda>c. c \<noteq> CHR ''='') l)))"

definition setting_names :: "string set" where
  "setting_names = {''alpn'', ''require_tls13'', ''enable_datagrams'', ''enable_connection_migration'',
     ''enable_fallback'', ''maximum_datagram_bytes'', ''idle_timeout_seconds'', ''keep_alive_seconds'',
     ''primary_failures_before_fallback''}"

definition setting_is :: "quic_settings \<Rightarrow> string \<times> string \<Rightarrow> bool" where
  "setting_is s = (\<lambda>(key, val).
     if key = ''alpn'' then quoted val = Inr (qs_alpn s)
     else if key = ''require_tls13'' then boolean val = Inr (qs_require_tls13 s)
     else if key = ''enable_datagrams'' then boolean val = Inr (qs_enable_datagrams s)
     else if key = ''enable_connection_migration'' then boolean val = Inr (qs_enable_connection_migration s)
     else if key = ''enable_fallback'' then boolean val = Inr (qs_enable_fallback s)
     else if key = ''maximum_datagram_bytes'' then unsigned_value val = Inr (qs_maximum_datagram_bytes s)
     else if key = ''idle_timeout_seconds'' then seconds_value val = Inr (qs_idle_timeout s)
     else if key = ''keep_alive_seconds'' then seconds_value val = Inr (qs_keep_alive s)
     else key = ''primary_failures_before_fallback'' \<and>
       unsigned_value val = Inr (qs_primary_failures_before_fallback s))"

fun set_keys :: "(string \<times> string) list \<Rightarrow> quic_settings \<Rightarrow> quic_settings result" where
  "set_keys [] s = ok s"
| "set_keys ((k, v) # kvs) s = and_then (set_key k v s) (set_keys kvs)"

lemma set_key_cases:
  "set_key ''alpn'' v s = and_then (quoted v) (\<lambda>x. ok (s\<lparr>qs_alpn := x\<rparr>))"
  "set_key ''require_tls13'' v s = and_then (boolean v) (\<lambda>x. ok (s\<lparr>qs_require_tls13 := x\<rparr>))"
  "set_key ''enable_datagrams'' v s = and_then (boolean v) (\<lambda>x. ok (s\<lparr>qs_enable_datagrams := x\<rparr>))"
  "set_key ''enable_connection_migration'' v s = and_then (boolean v) (\<lambda>x. ok (s\<lparr>qs_enable_connection_migration := x\<rparr>))"
  "set_key ''enable_fallback'' v s = and_then (boolean v) (\<lambda>x. ok (s\<lparr>qs_enable_fallback := x\<rparr>))"
  "set_key ''maximum_datagram_bytes'' v s = and_then (unsigned_value v) (\<lambda>x. ok (s\<lparr>qs_maximum_datagram_bytes := x\<rparr>))"
  "set_key ''idle_timeout_seconds'' v s = and_then (seconds_value v) (\<lambda>x. ok (s\<lparr>qs_idle_timeout := x\<rparr>))"
  "set_key ''keep_alive_seconds'' v s = and_then (seconds_value v) (\<lambda>x. ok (s\<lparr>qs_keep_alive := x\<rparr>))"
  "set_key ''primary_failures_before_fallback'' v s = and_then (unsigned_value v) (\<lambda>x. ok (s\<lparr>qs_primary_failures_before_fallback := x\<rparr>))"
  "k \<notin> setting_names \<Longrightarrow> set_key k v s = throw (Invalid_argument ''unknown transport setting'')"
  by (simp_all add: set_key_def setting_names_def)

lemma setting_is_cases:
  "setting_is s (''alpn'', v) = (quoted v = Inr (qs_alpn s))"
  "setting_is s (''require_tls13'', v) = (boolean v = Inr (qs_require_tls13 s))"
  "setting_is s (''enable_datagrams'', v) = (boolean v = Inr (qs_enable_datagrams s))"
  "setting_is s (''enable_connection_migration'', v) = (boolean v = Inr (qs_enable_connection_migration s))"
  "setting_is s (''enable_fallback'', v) = (boolean v = Inr (qs_enable_fallback s))"
  "setting_is s (''maximum_datagram_bytes'', v) = (unsigned_value v = Inr (qs_maximum_datagram_bytes s))"
  "setting_is s (''idle_timeout_seconds'', v) = (seconds_value v = Inr (qs_idle_timeout s))"
  "setting_is s (''keep_alive_seconds'', v) = (seconds_value v = Inr (qs_keep_alive s))"
  "setting_is s (''primary_failures_before_fallback'', v) = (unsigned_value v = Inr (qs_primary_failures_before_fallback s))"
  "k \<notin> setting_names \<Longrightarrow> \<not> setting_is s (k, v)"
  by (simp_all add: setting_is_def setting_names_def)

lemma setting_name_cases:
  obtains "k = ''alpn''" | "k = ''require_tls13''" | "k = ''enable_datagrams''" | "k = ''enable_connection_migration''" | "k = ''enable_fallback''" | "k = ''maximum_datagram_bytes''" | "k = ''idle_timeout_seconds''" | "k = ''keep_alive_seconds''" | "k = ''primary_failures_before_fallback''" | "k \<notin> setting_names"
  by (auto simp: setting_names_def)

lemma set_key_sets: "set_key k v s = Inr s' \<Longrightarrow> setting_is s' (k, v)"
  by (cases k rule: setting_name_cases) (auto simp: set_key_cases setting_is_cases result_simps)

lemma setting_is_update:
  "k \<noteq> ''alpn'' \<Longrightarrow> setting_is (s\<lparr>qs_alpn := x0\<rparr>) (k, v) = setting_is s (k, v)"
  "k \<noteq> ''require_tls13'' \<Longrightarrow> setting_is (s\<lparr>qs_require_tls13 := x1\<rparr>) (k, v) = setting_is s (k, v)"
  "k \<noteq> ''enable_datagrams'' \<Longrightarrow> setting_is (s\<lparr>qs_enable_datagrams := x2\<rparr>) (k, v) = setting_is s (k, v)"
  "k \<noteq> ''enable_connection_migration'' \<Longrightarrow> setting_is (s\<lparr>qs_enable_connection_migration := x3\<rparr>) (k, v) = setting_is s (k, v)"
  "k \<noteq> ''enable_fallback'' \<Longrightarrow> setting_is (s\<lparr>qs_enable_fallback := x4\<rparr>) (k, v) = setting_is s (k, v)"
  "k \<noteq> ''maximum_datagram_bytes'' \<Longrightarrow> setting_is (s\<lparr>qs_maximum_datagram_bytes := x5\<rparr>) (k, v) = setting_is s (k, v)"
  "k \<noteq> ''idle_timeout_seconds'' \<Longrightarrow> setting_is (s\<lparr>qs_idle_timeout := x6\<rparr>) (k, v) = setting_is s (k, v)"
  "k \<noteq> ''keep_alive_seconds'' \<Longrightarrow> setting_is (s\<lparr>qs_keep_alive := x7\<rparr>) (k, v) = setting_is s (k, v)"
  "k \<noteq> ''primary_failures_before_fallback'' \<Longrightarrow> setting_is (s\<lparr>qs_primary_failures_before_fallback := x8\<rparr>) (k, v) = setting_is s (k, v)"
  by (simp_all add: setting_is_def split del: if_split cong: if_cong)

lemma set_key_keeps:
  assumes "set_key k v s = Inr s'" "k' \<noteq> k"
  shows "setting_is s' (k', v') = setting_is s (k', v')"
proof (cases k rule: setting_name_cases)
  case 1
  obtain x where "s' = s\<lparr>qs_alpn := x\<rparr>"
    using assms(1) unfolding 1 set_key_cases(1) and_then_eq_Inr sum.inject by metis
  then show ?thesis
    using assms(2) setting_is_update(1) [of k'] unfolding 1 by metis
next
  case 2
  obtain x where "s' = s\<lparr>qs_require_tls13 := x\<rparr>"
    using assms(1) unfolding 2 set_key_cases(2) and_then_eq_Inr sum.inject by metis
  then show ?thesis
    using assms(2) setting_is_update(2) [of k'] unfolding 2 by metis
next
  case 3
  obtain x where "s' = s\<lparr>qs_enable_datagrams := x\<rparr>"
    using assms(1) unfolding 3 set_key_cases(3) and_then_eq_Inr sum.inject by metis
  then show ?thesis
    using assms(2) setting_is_update(3) [of k'] unfolding 3 by metis
next
  case 4
  obtain x where "s' = s\<lparr>qs_enable_connection_migration := x\<rparr>"
    using assms(1) unfolding 4 set_key_cases(4) and_then_eq_Inr sum.inject by metis
  then show ?thesis
    using assms(2) setting_is_update(4) [of k'] unfolding 4 by metis
next
  case 5
  obtain x where "s' = s\<lparr>qs_enable_fallback := x\<rparr>"
    using assms(1) unfolding 5 set_key_cases(5) and_then_eq_Inr sum.inject by metis
  then show ?thesis
    using assms(2) setting_is_update(5) [of k'] unfolding 5 by metis
next
  case 6
  obtain x where "s' = s\<lparr>qs_maximum_datagram_bytes := x\<rparr>"
    using assms(1) unfolding 6 set_key_cases(6) and_then_eq_Inr sum.inject by metis
  then show ?thesis
    using assms(2) setting_is_update(6) [of k'] unfolding 6 by metis
next
  case 7
  obtain x where "s' = s\<lparr>qs_idle_timeout := x\<rparr>"
    using assms(1) unfolding 7 set_key_cases(7) and_then_eq_Inr sum.inject by metis
  then show ?thesis
    using assms(2) setting_is_update(7) [of k'] unfolding 7 by metis
next
  case 8
  obtain x where "s' = s\<lparr>qs_keep_alive := x\<rparr>"
    using assms(1) unfolding 8 set_key_cases(8) and_then_eq_Inr sum.inject by metis
  then show ?thesis
    using assms(2) setting_is_update(8) [of k'] unfolding 8 by metis
next
  case 9
  obtain x where "s' = s\<lparr>qs_primary_failures_before_fallback := x\<rparr>"
    using assms(1) unfolding 9 set_key_cases(9) and_then_eq_Inr sum.inject by metis
  then show ?thesis
    using assms(2) setting_is_update(9) [of k'] unfolding 9 by metis
next
  case 10
  then show ?thesis
    using assms(1) by (simp add: set_key_cases(10))
qed

lemma set_key_possible: "setting_is s (k, v) \<Longrightarrow> \<exists>s''. set_key k v s' = Inr s''"
  by (cases k rule: setting_name_cases) (simp_all add: set_key_cases setting_is_cases)

lemma set_key_name: "set_key k v s = Inr s' \<Longrightarrow> k \<in> setting_names"
  using set_key_cases(10) [of k v s] by force

lemma set_keys_keeps:
  "set_keys kvs s = Inr s' \<Longrightarrow> k \<notin> fst ` set kvs \<Longrightarrow> setting_is s' (k, v) = setting_is s (k, v)"
proof (induction kvs arbitrary: s)
  case (Cons kv kvs)
  obtain k' v' where kv: "kv = (k', v')" by (cases kv)
  then obtain s1 where "set_key k' v' s = Inr s1" "set_keys kvs s1 = Inr s'"
    using Cons.prems(1) by (auto simp: result_simps)
  then show ?case
    using Cons.IH [of s1] Cons.prems(2) set_key_keeps [of k' v' s s1 k v] by (auto simp: kv)
qed simp

lemma set_keys_sets:
  "set_keys kvs s = Inr s' \<Longrightarrow> distinct (map fst kvs) \<Longrightarrow>
     list_all (setting_is s') kvs \<and> fst ` set kvs \<subseteq> setting_names"
proof (induction kvs arbitrary: s)
  case (Cons kv kvs)
  obtain k v where kv: "kv = (k, v)" by (cases kv)
  then obtain s1 where s1: "set_key k v s = Inr s1" "set_keys kvs s1 = Inr s'"
    using Cons.prems(1) by (auto simp: result_simps)
  moreover have "setting_is s' (k, v)"
    using set_keys_keeps [OF s1(2), of k v] set_key_sets [OF s1(1)] Cons.prems(2) by (auto simp: kv)
  ultimately show ?case
    using Cons.IH [of s1] Cons.prems(2) set_key_name [OF s1(1)] by (simp add: kv)
qed simp

lemma set_keys_possible: "list_all (setting_is s) kvs \<Longrightarrow> \<exists>s''. set_keys kvs s' = Inr s''"
proof (induction kvs arbitrary: s')
  case (Cons kv kvs)
  obtain k v where kv: "kv = (k, v)" by (cases kv)
  then obtain s1 where "set_key k v s' = Inr s1"
    using Cons.prems set_key_possible [of s k v s'] by auto
  then show ?case
    using Cons by (simp add: kv)
qed simp

lemma setting_value_unique:
  assumes "setting_is s (k, v)" "setting_is s' (k, v)"
  shows "k = ''alpn'' \<Longrightarrow> qs_alpn s = qs_alpn s'"
    "k = ''require_tls13'' \<Longrightarrow> qs_require_tls13 s = qs_require_tls13 s'"
    "k = ''enable_datagrams'' \<Longrightarrow> qs_enable_datagrams s = qs_enable_datagrams s'"
    "k = ''enable_connection_migration'' \<Longrightarrow> qs_enable_connection_migration s = qs_enable_connection_migration s'"
    "k = ''enable_fallback'' \<Longrightarrow> qs_enable_fallback s = qs_enable_fallback s'"
    "k = ''maximum_datagram_bytes'' \<Longrightarrow> qs_maximum_datagram_bytes s = qs_maximum_datagram_bytes s'"
    "k = ''idle_timeout_seconds'' \<Longrightarrow> qs_idle_timeout s = qs_idle_timeout s'"
    "k = ''keep_alive_seconds'' \<Longrightarrow> qs_keep_alive s = qs_keep_alive s'"
    "k = ''primary_failures_before_fallback'' \<Longrightarrow>
       qs_primary_failures_before_fallback s = qs_primary_failures_before_fallback s'"
  using assms by (simp_all add: setting_is_cases)

lemma settings_unique:
  assumes "list_all (setting_is s) kvs" "list_all (setting_is s') kvs" "setting_names \<subseteq> fst ` set kvs"
  shows "s = s'"
proof -
  have both: "\<exists>v. setting_is s (k, v) \<and> setting_is s' (k, v)" if "k \<in> setting_names" for k
    using assms that by (force simp: list_all_iff)
  have "qs_alpn s = qs_alpn s'" "qs_require_tls13 s = qs_require_tls13 s'"
    "qs_enable_datagrams s = qs_enable_datagrams s'"
    "qs_enable_connection_migration s = qs_enable_connection_migration s'"
    "qs_enable_fallback s = qs_enable_fallback s'"
    "qs_maximum_datagram_bytes s = qs_maximum_datagram_bytes s'"
    "qs_idle_timeout s = qs_idle_timeout s'" "qs_keep_alive s = qs_keep_alive s'"
    "qs_primary_failures_before_fallback s = qs_primary_failures_before_fallback s'"
    using both setting_value_unique by (metis setting_names_def insertI1 insertI2)+
  then show ?thesis
    by simp
qed

lemma count_list_once_iff:
  "count_list l c = 1 \<longleftrightarrow> dropWhile (\<lambda>x. x \<noteq> c) l \<noteq> [] \<and> c \<notin> set (tl (dropWhile (\<lambda>x. x \<noteq> c) l))"
  by (induction l) (auto simp: count_list_0_iff)

lemma settings_line_eq:
  "settings_line n line (s, seen) = Inr st \<longleftrightarrow>
     (let l = trim line in
      if l = [] \<or> hd l = CHR ''#'' then st = (s, seen)
      else assignment_line l \<and> fst (assignment l) \<notin> seen \<and>
        (\<exists>s'. set_key (fst (assignment l)) (snd (assignment l)) s = Inr s' \<and> st = (s', insert (fst (assignment l)) seen)))"
  unfolding settings_line_def assignment_line_def assignment_def count_list_once_iff
  by (auto simp: Let_def result_simps)

definition significant :: "string \<Rightarrow> bool" where
  "significant l \<longleftrightarrow> l \<noteq> [] \<and> hd l \<noteq> CHR ''#''"

lemma settings_lines_eq:
  "settings_lines n ls (s, seen) = Inr (s', seen') \<longleftrightarrow>
     (let asg = filter significant (map trim ls); kvs = map assignment asg in
      list_all assignment_line asg \<and> distinct (map fst kvs) \<and> fst ` set kvs \<inter> seen = {} \<and>
      set_keys kvs s = Inr s' \<and> seen' = seen \<union> fst ` set kvs)"
proof (induction ls arbitrary: n s seen)
  case Nil
  then show ?case by (auto simp: Let_def)
next
  case (Cons l ls)
  show ?case
  proof (cases "significant (trim l)")
    case False
    then have "settings_line (n + 1) l (s, seen) = Inr (s, seen)"
      by (auto simp: settings_line_eq significant_def)
    then show ?thesis
      using False Cons.IH [of "n + 1" s seen] by simp
  next
    case True
    obtain k v where kv: "assignment (trim l) = (k, v)"
      by fastforce
    have line: "settings_line (Suc n) l (s, seen) = Inr st \<longleftrightarrow> assignment_line (trim l) \<and> k \<notin> seen \<and>
        (\<exists>s1. set_key k v s = Inr s1 \<and> st = (s1, insert k seen))" for st
      using True by (simp add: settings_line_eq significant_def Let_def kv)
    have "settings_lines n (l # ls) (s, seen) = Inr (s', seen') \<longleftrightarrow> assignment_line (trim l) \<and> k \<notin> seen \<and>
        (\<exists>s1. set_key k v s = Inr s1 \<and> settings_lines (n + 1) ls (s1, insert k seen) = Inr (s', seen'))"
      by (auto simp: and_then_eq_Inr line)
    also have "\<dots> \<longleftrightarrow> (let asg = filter significant (map trim (l # ls)); kvs = map assignment asg in
      list_all assignment_line asg \<and> distinct (map fst kvs) \<and> fst ` set kvs \<inter> seen = {} \<and>
      set_keys kvs s = Inr s' \<and> seen' = seen \<union> fst ` set kvs)"
      unfolding Cons.IH using True by (auto simp: Let_def kv and_then_eq_Inr)
    finally show ?thesis .
  qed
qed

definition settings_assignments :: "string \<Rightarrow> (string \<times> string) list" where
  "settings_assignments content = map assignment (filter significant (map trim (file_lines content)))"

lemma card_setting_names: "card setting_names = 9"
  by (simp add: setting_names_def)

lemma load_accepts:
  "load_transport_settings (Some content) bad = Inr s \<longleftrightarrow>
     \<not> bad \<and> list_all assignment_line (filter significant (map trim (file_lines content))) \<and>
     distinct (map fst (settings_assignments content)) \<and>
     fst ` set (settings_assignments content) = setting_names \<and>
     list_all (setting_is s) (settings_assignments content) \<and> validate_quic_settings s = Inr ()"
    (is "_ \<longleftrightarrow> _ \<and> ?lines \<and> distinct (map fst ?kvs) \<and> _ \<and> _ \<and> _")
proof -
  have "load_transport_settings (Some content) bad = Inr s \<longleftrightarrow>
      \<not> bad \<and> ?lines \<and> distinct (map fst ?kvs) \<and> set_keys ?kvs default_quic_settings = Inr s \<and>
      card (fst ` set ?kvs) = 9 \<and> validate_quic_settings s = Inr ()"
    by (auto simp: load_transport_settings_def and_then_eq_Inr settings_lines_eq Let_def settings_assignments_def)
  also have "\<dots> \<longleftrightarrow> \<not> bad \<and> ?lines \<and> distinct (map fst ?kvs) \<and> fst ` set ?kvs = setting_names \<and>
      list_all (setting_is s) ?kvs \<and> validate_quic_settings s = Inr ()"
  proof -
    have "set_keys ?kvs default_quic_settings = Inr s \<and> card (fst ` set ?kvs) = 9 \<longleftrightarrow>
        fst ` set ?kvs = setting_names \<and> list_all (setting_is s) ?kvs" if d: "distinct (map fst ?kvs)"
    proof
      assume a: "set_keys ?kvs default_quic_settings = Inr s \<and> card (fst ` set ?kvs) = 9"
      then have b: "list_all (setting_is s) ?kvs" "fst ` set ?kvs \<subseteq> setting_names"
        using set_keys_sets [OF _ d] by blast+
      have "finite setting_names"
        by (simp add: setting_names_def)
      then have "fst ` set ?kvs = setting_names"
        using card_subset_eq [OF _ b(2)] a card_setting_names by metis
      with b show "fst ` set ?kvs = setting_names \<and> list_all (setting_is s) ?kvs"
        by simp
    next
      assume a: "fst ` set ?kvs = setting_names \<and> list_all (setting_is s) ?kvs"
      then have "\<exists>s1. set_keys ?kvs default_quic_settings = Inr s1"
        by (intro set_keys_possible) (rule conjunct2)
      then obtain s1 where s1: "set_keys ?kvs default_quic_settings = Inr s1"
        by (rule exE)
      have "s1 = s"
      proof (rule settings_unique)
        show "list_all (setting_is s1) ?kvs"
          using set_keys_sets [OF s1 d] by blast
      qed (use a in blast)+
      then show "set_keys ?kvs default_quic_settings = Inr s \<and> card (fst ` set ?kvs) = 9"
        using s1 a card_setting_names by metis
    qed
    then show ?thesis
      by blast
  qed
  finally show ?thesis .
qed

section \<open>Properties\<close>

text \<open>The loader of the settings file accepts exactly the files in which every line that is neither
  blank nor a comment assigns one known setting, each of the nine settings is assigned once, in any
  order, every value has the form of its type, and the settings these values make are valid; it
  returns those settings and keeps no default.\<close>

theorem settings_file_exact:
  "load_transport_settings (Some content) bad = Inr s \<longleftrightarrow>
     \<not> bad \<and> list_all assignment_line (filter significant (map trim (file_lines content))) \<and>
     distinct (map fst (settings_assignments content)) \<and>
     fst ` set (settings_assignments content) = setting_names \<and>
     list_all (setting_is s) (settings_assignments content) \<and> validate_quic_settings s = Inr ()"
  by (rule load_accepts)

text \<open>The bound that the keep-alive is at most half of the idle timeout holds for accepted settings
  as long as the product does not overflow; a keep-alive of 2^62 seconds, whose double wraps, is
  accepted in place of any other.\<close>

theorem keep_alive_overflow:
  assumes "validate_quic_settings s = Inr ()"
  shows "(2 * sint (qs_keep_alive s) \<le> sint (qs_idle_timeout s) \<or> 2 ^ 62 \<le> sint (qs_keep_alive s)) \<and>
    validate_quic_settings (s\<lparr>qs_keep_alive := 2 ^ 62\<rparr>) = Inr ()"
proof -
  have "sint (qs_keep_alive s * 2) = 2 * sint (qs_keep_alive s)"
    if "sint (qs_keep_alive s) < 2 ^ 62" "1 \<le> sint (qs_keep_alive s)"
  proof -
    have "sint (qs_keep_alive s * 2) = signed_take_bit 63 (sint (qs_keep_alive s) * 2)"
      by (simp add: signed_eq_0_iff sint_word_ariths)
    also have "\<dots> = sint (qs_keep_alive s) * 2"
      by (rule signed_take_bit_int_eq_self) (use that in simp_all)
    finally show ?thesis by simp
  qed
  moreover have "sint ((2 ^ 62 :: u64) * 2) = - (2 ^ 63)" "sint (2 ^ 62 :: u64) = 2 ^ 62"
    by simp_all
  ultimately show ?thesis
    using assms by (auto simp: validate_quic_settings_def result_simps)
qed

theorem keep_alive_overflow_witness:
  "validate_quic_settings (default_quic_settings\<lparr>qs_keep_alive := 2 ^ 62\<rparr>) = Inr ()"
proof -
  have "validate_quic_settings default_quic_settings = Inr ()"
    by (simp add: validate_quic_settings_def default_quic_settings_def is_alnum_def is_digit_def)
  from keep_alive_overflow [OF this] show ?thesis
    by simp
qed

text \<open>The negotiation of features gives both sides the same result, and what it gives is within both
  offers: the highest common protocol version, the shared video features, H.264 among them, and sizes and
  rates that neither side exceeds, at most 1920 by 1080 without the 4K feature and at most 60 frames per
  second without the feature for 120.\<close>

theorem negotiated_within_both:
  assumes "negotiate_features a b = Inr f"
  shows "negotiate_features b a = Inr f \<and>
    nf_protocol_version f = min (fo_maximum_protocol_version a) (fo_maximum_protocol_version b) \<and>
    fo_minimum_protocol_version a \<le> nf_protocol_version f \<and> fo_minimum_protocol_version b \<le> nf_protocol_version f \<and>
    F_h264 \<in> nf_video_features f \<and> nf_video_features f = fo_video_features a \<inter> fo_video_features b \<and>
    0 < nf_maximum_width f \<and> nf_maximum_width f \<le> fo_maximum_width a \<and> nf_maximum_width f \<le> fo_maximum_width b \<and>
    0 < nf_maximum_height f \<and> nf_maximum_height f \<le> fo_maximum_height a \<and> nf_maximum_height f \<le> fo_maximum_height b \<and>
    nf_maximum_frames_per_second f \<le> fo_maximum_frames_per_second a \<and>
    nf_maximum_frames_per_second f \<le> fo_maximum_frames_per_second b \<and>
    (F_resolution_4k \<in> nf_video_features f \<or> nf_maximum_width f \<le> 1920 \<and> nf_maximum_height f \<le> 1080) \<and>
    (F_fps_120 \<in> nf_video_features f \<or> nf_maximum_frames_per_second f \<le> 60) \<and>
    (nf_datagrams f = (fo_datagrams a \<and> fo_datagrams b))"
proof -
  have valid: "validate_offer a = Inr ()" "validate_offer b = Inr ()"
    using assms by (auto simp: negotiate_features_def and_then_eq_Inr)
  then have pos: "fo_maximum_width a > 0" "fo_maximum_width b > 0" "fo_maximum_height a > 0" "fo_maximum_height b > 0"
    by (simp_all add: validate_offer_def throw_if_def word_neq_0_conv split: if_split_asm)
  have comm: "negotiate_features b a = negotiate_features a b"
    using valid by (simp add: negotiate_features_def Let_def max.commute min.commute Int_commute
        conj_commute [of "fo_datagrams b"])
  have f: "\<not> max (fo_minimum_protocol_version a) (fo_minimum_protocol_version b)
      > min (fo_maximum_protocol_version a) (fo_maximum_protocol_version b)"
    "F_h264 \<in> fo_video_features a \<inter> fo_video_features b"
    and eq: "f = \<lparr>nf_protocol_version = min (fo_maximum_protocol_version a) (fo_maximum_protocol_version b),
      nf_video_features = fo_video_features a \<inter> fo_video_features b,
      nf_maximum_width = (let w = min (fo_maximum_width a) (fo_maximum_width b) in
        if F_resolution_4k \<in> fo_video_features a \<inter> fo_video_features b then w else min w 1920),
      nf_maximum_height = (let h = min (fo_maximum_height a) (fo_maximum_height b) in
        if F_resolution_4k \<in> fo_video_features a \<inter> fo_video_features b then h else min h 1080),
      nf_maximum_frames_per_second =
        (let r = min (fo_maximum_frames_per_second a) (fo_maximum_frames_per_second b) in
         if F_fps_120 \<in> fo_video_features a \<inter> fo_video_features b then r else min r 60),
      nf_datagrams = (fo_datagrams a \<and> fo_datagrams b)\<rparr>"
    using assms valid by (auto simp: negotiate_features_def Let_def split: if_split_asm)
  have versions: "fo_minimum_protocol_version a \<le> fo_maximum_protocol_version a"
    "fo_minimum_protocol_version a \<le> fo_maximum_protocol_version b"
    "fo_minimum_protocol_version b \<le> fo_maximum_protocol_version a"
    "fo_minimum_protocol_version b \<le> fo_maximum_protocol_version b"
    using f(1) by (simp_all add: not_less)
  show ?thesis
    using f(2) pos by (simp add: comm assms)
      (simp add: eq Let_def versions min_less_iff_conj min.coboundedI1 min.coboundedI2)
qed

definition sample_offer :: feature_offer where
  "sample_offer = \<lparr>fo_minimum_protocol_version = 1, fo_maximum_protocol_version = 3,
     fo_video_features = {F_h264, F_hdr}, fo_maximum_width = 3840, fo_maximum_height = 2160,
     fo_maximum_frames_per_second = 120, fo_datagrams = True\<rparr>"

theorem negotiated_within_both_witness:
  "\<exists>f. negotiate_features sample_offer (sample_offer\<lparr>fo_maximum_protocol_version := 2\<rparr>) = Inr f \<and>
     nf_protocol_version f = 2 \<and> nf_maximum_width f \<le> 1920"
proof -
  let ?b = "sample_offer\<lparr>fo_maximum_protocol_version := 2\<rparr>"
  have "card {F_h264, F_hdr} = 2"
    by simp
  then obtain f where f: "negotiate_features sample_offer ?b = Inr f"
    by (auto simp: negotiate_features_def validate_offer_def sample_offer_def)
  then show ?thesis
    using negotiated_within_both [OF f] by (auto simp: sample_offer_def min_def)
qed

end
