(* ===== verification/Resilient_Transport.thy ===== *)
theory Resilient_Transport
  imports Transport_Settings Desktop_Session
begin

text \<open>
  \<open>ResilientTransport\<close> of \<open>transport/src/resilient_transport.cpp\<close>: the object that connects by QUIC or by the
  fallback, follows changes of the network, and passes streams and datagrams to the connection it owns.
  The connector and the connections are interfaces: what they answer is a parameter that may depend on
  everything they were asked before, which the history records. The type of connections is a parameter.
\<close>

section \<open>The interfaces\<close>

text \<open>What was asked, with the answer; a missing connection or stream is a null pointer.\<close>

datatype 'c outcome =
    Connected transport_mode transport_endpoint "'c option result"
  | Migrated transport_endpoint "bool result"
  | Opened stream_purpose "bool result"
  | Accepted int "(stream_purpose \<times> bool) result"
  | Datagram_sent datagram_channel "byte list" "unit result"
  | Datagram_received int "(datagram_channel \<times> byte list) result"

type_synonym 'c history = "'c outcome list"

record 'c network =
  nw_connect :: "'c history \<Rightarrow> transport_mode \<Rightarrow> transport_endpoint \<Rightarrow> quic_settings \<Rightarrow> 'c option result"
  nw_migrate :: "'c history \<Rightarrow> 'c \<Rightarrow> transport_endpoint \<Rightarrow> bool result"
  nw_open_stream :: "'c history \<Rightarrow> 'c \<Rightarrow> stream_purpose \<Rightarrow> bool result"
  nw_duplex :: "'c \<Rightarrow> bool"
  nw_accept_stream :: "'c history \<Rightarrow> 'c \<Rightarrow> int \<Rightarrow> (stream_purpose \<times> bool) result"
  nw_send_datagram :: "'c history \<Rightarrow> 'c \<Rightarrow> datagram_channel \<Rightarrow> byte list \<Rightarrow> unit result"
  nw_receive_datagram :: "'c history \<Rightarrow> 'c \<Rightarrow> int \<Rightarrow> (datagram_channel \<times> byte list) result"

section \<open>State\<close>

record transport_telemetry =
  tt_primary_connection_attempts :: u64
  tt_primary_connection_failures :: u64
  tt_fallback_connections :: u64
  tt_migration_attempts :: u64
  tt_migration_failures :: u64
  tt_reconnects :: u64
  tt_streams_opened :: u64
  tt_streams_accepted :: u64
  tt_datagrams_sent :: u64
  tt_datagram_bytes_sent :: u64
  tt_datagrams_received :: u64
  tt_datagram_bytes_received :: u64

record transport_event =
  ev_occurred_at :: time_point
  ev_state :: connection_state
  ev_mode :: "transport_mode option"
  ev_path :: network_path
  ev_reason_code :: string

record 'c resilient_transport =
  rt_network :: "'c network"
  rt_history :: "'c history"
  rt_endpoint :: transport_endpoint
  rt_settings :: quic_settings
  rt_active :: "'c option"
  rt_state :: connection_state
  rt_mode :: "transport_mode option"
  rt_recovery :: recovery_cursor
  rt_telemetry :: transport_telemetry
  rt_events :: "transport_event list"
  rt_last_event_at :: "time_point option"
  rt_consecutive_primary_failures :: u64

definition no_telemetry :: transport_telemetry where
  "no_telemetry = \<lparr>tt_primary_connection_attempts = 0, tt_primary_connection_failures = 0,
     tt_fallback_connections = 0, tt_migration_attempts = 0, tt_migration_failures = 0, tt_reconnects = 0,
     tt_streams_opened = 0, tt_streams_accepted = 0, tt_datagrams_sent = 0, tt_datagram_bytes_sent = 0,
     tt_datagrams_received = 0, tt_datagram_bytes_received = 0\<rparr>"

definition fresh_transport :: "'c network \<Rightarrow> transport_endpoint \<Rightarrow> quic_settings \<Rightarrow> 'c resilient_transport" where
  "fresh_transport network endpoint settings = \<lparr>rt_network = network, rt_history = [], rt_endpoint = endpoint,
     rt_settings = settings, rt_active = None, rt_state = Disconnected, rt_mode = None,
     rt_recovery = \<lparr>rc_session_id = [], rc_workspace_id = [], rc_workspace_revision = 0,
       rc_active_build_ids = [], rc_audit_sequence = 0\<rparr>,
     rt_telemetry = no_telemetry, rt_events = [], rt_last_event_at = None,
     rt_consecutive_primary_failures = 0\<rparr>"

definition new_resilient_transport ::
  "'c network \<Rightarrow> transport_endpoint \<Rightarrow> quic_settings \<Rightarrow> 'c resilient_transport result" where
  "new_resilient_transport network endpoint settings =
     and_then (validate_transport_endpoint endpoint) (\<lambda>_. and_then (validate_quic_settings settings) (\<lambda>_.
     ok (fresh_transport network endpoint settings)))"

definition rt_count :: "(transport_telemetry \<Rightarrow> transport_telemetry) \<Rightarrow> ('c resilient_transport, unit) call" where
  "rt_count f = c_modify (\<lambda>s. s\<lparr>rt_telemetry := f (rt_telemetry s)\<rparr>)"

section \<open>Events\<close>

definition rt_validate_event_time :: "time_point \<Rightarrow> ('c resilient_transport, unit) call" where
  "rt_validate_event_time now s =
     (if now = 0 \<or> (case rt_last_event_at s of None \<Rightarrow> False | Some t \<Rightarrow> now < t)
      then (throw (Invalid_argument ''transport event time is not monotonic''), s)
      else (ok (), s\<lparr>rt_last_event_at := Some now\<rparr>))"

definition rt_append_event :: "time_point \<Rightarrow> string \<Rightarrow> ('c resilient_transport, unit) call" where
  "rt_append_event now reason_code s =
     (if \<not> valid_identifier reason_code
      then (throw (Invalid_argument ''transport reason code is invalid''), s)
      else (ok (), s\<lparr>rt_events := rt_events s @ [\<lparr>ev_occurred_at = now, ev_state = rt_state s,
        ev_mode = rt_mode s, ev_path = te_path (rt_endpoint s), ev_reason_code = reason_code\<rparr>]\<rparr>))"

section \<open>Connecting\<close>

definition call_connect :: "transport_mode \<Rightarrow> ('c resilient_transport, 'c option) call" where
  "call_connect mode s =
     (let r = nw_connect (rt_network s) (rt_history s) mode (rt_endpoint s) (rt_settings s)
      in (r, s\<lparr>rt_history := rt_history s @ [Connected mode (rt_endpoint s) r]\<rparr>))"

definition drop_connection :: "('c resilient_transport, unit) call" where
  "drop_connection = c_modify (\<lambda>s. s\<lparr>rt_active := None, rt_mode := None, rt_state := Disconnected\<rparr>)"

definition try_connect :: "transport_mode \<Rightarrow> time_point \<Rightarrow> ('c resilient_transport, bool) call" where
  "try_connect mode now = c_bind
     (if mode = Quic then rt_count (\<lambda>t. t\<lparr>tt_primary_connection_attempts := tt_primary_connection_attempts t + 1\<rparr>)
      else c_return ())
     (\<lambda>_. c_catch
       (c_bind (call_connect mode) (\<lambda>connection. case connection of
            None \<Rightarrow> c_throw (Runtime_error ''null transport connection'')
          | Some c \<Rightarrow> c_bind (c_modify (\<lambda>s. s\<lparr>rt_active := Some c, rt_mode := Some mode, rt_state := Ready\<rparr>)) (\<lambda>_.
              if mode = Quic
              then c_bind (c_modify (\<lambda>s. s\<lparr>rt_consecutive_primary_failures := 0\<rparr>)) (\<lambda>_.
                c_bind (rt_append_event now ''primary_connected'') (\<lambda>_. c_return True))
              else c_bind (rt_count (\<lambda>t. t\<lparr>tt_fallback_connections := tt_fallback_connections t + 1\<rparr>)) (\<lambda>_.
                c_bind (rt_append_event now ''fallback_connected'') (\<lambda>_. c_return True)))))
       (c_bind drop_connection (\<lambda>_.
          if mode = Quic
          then c_bind (rt_count (\<lambda>t. t\<lparr>tt_primary_connection_failures := tt_primary_connection_failures t + 1\<rparr>)) (\<lambda>_.
            c_bind (c_modify (\<lambda>s. s\<lparr>rt_consecutive_primary_failures := rt_consecutive_primary_failures s + 1\<rparr>)) (\<lambda>_.
            c_bind (rt_append_event now ''primary_failed'') (\<lambda>_. c_return False)))
          else c_bind (rt_append_event now ''fallback_failed'') (\<lambda>_. c_return False))))"

definition rt_connect :: "time_point \<Rightarrow> ('c resilient_transport, unit) call" where
  "rt_connect now = c_bind (rt_validate_event_time now) (\<lambda>_ s.
     if rt_state s = Closed then c_throw (Logic_error ''closed transport cannot reconnect'') s
     else if rt_state s = Ready then c_return () s
     else c_bind (c_modify (\<lambda>s. s\<lparr>rt_state := Connecting\<rparr>)) (\<lambda>_.
       c_bind (rt_append_event now ''connect_started'') (\<lambda>_.
       c_bind (try_connect Quic now) (\<lambda>connected s.
         if connected then c_return () s
         else if qs_enable_fallback (rt_settings s) \<and>
             rt_consecutive_primary_failures s \<ge> qs_primary_failures_before_fallback (rt_settings s)
         then c_bind (try_connect Tls_tcp_udp_fallback now) (\<lambda>connected.
           if connected then c_return ()
           else c_throw (Runtime_error ''transport connection failed'')) s
         else c_throw (Runtime_error ''transport connection failed'') s))) s)"

definition require_ready :: "'c resilient_transport \<Rightarrow> unit result" where
  "require_ready s = throw_if (rt_state s \<noteq> Ready \<or> rt_active s = None \<or> rt_mode s = None)
     (Logic_error ''transport is not ready'')"

text \<open>The connection that \<open>require_ready\<close> has found not to be null.\<close>

definition call_migrate :: "('c resilient_transport, bool) call" where
  "call_migrate s =
     (let r = nw_migrate (rt_network s) (rt_history s) (the (rt_active s)) (rt_endpoint s)
      in (r, s\<lparr>rt_history := rt_history s @ [Migrated (rt_endpoint s) r]\<rparr>))"

definition rt_migrate :: "time_point \<Rightarrow> ('c resilient_transport, bool) call" where
  "rt_migrate now = c_bind (c_modify (\<lambda>s. s\<lparr>rt_state := Migrating\<rparr>)) (\<lambda>_.
     c_bind (rt_count (\<lambda>t. t\<lparr>tt_migration_attempts := tt_migration_attempts t + 1\<rparr>)) (\<lambda>_.
     c_bind (rt_append_event now ''migration_started'') (\<lambda>_.
     c_bind (c_catch
         (c_bind call_migrate (\<lambda>migrated.
            if migrated
            then c_bind (c_modify (\<lambda>s. s\<lparr>rt_state := Ready\<rparr>)) (\<lambda>_.
              c_bind (rt_append_event now ''migration_succeeded'') (\<lambda>_. c_return True))
            else c_return False))
         (c_return False)) (\<lambda>migrated.
       if migrated then c_return True
       else c_bind (rt_count (\<lambda>t. t\<lparr>tt_migration_failures := tt_migration_failures t + 1\<rparr>)) (\<lambda>_.
         c_bind (rt_append_event now ''migration_failed'') (\<lambda>_. c_return False))))))"

definition rt_network_changed :: "transport_endpoint \<Rightarrow> time_point \<Rightarrow> ('c resilient_transport, unit) call" where
  "rt_network_changed endpoint now = c_bind (c_check (\<lambda>_. validate_transport_endpoint endpoint)) (\<lambda>_.
     c_bind (rt_validate_event_time now) (\<lambda>_.
     c_bind (c_check require_ready) (\<lambda>_.
     c_bind (c_modify (\<lambda>s. s\<lparr>rt_endpoint := endpoint\<rparr>)) (\<lambda>_.
     c_bind (\<lambda>s. if rt_mode s = Some Quic \<and> qs_enable_connection_migration (rt_settings s)
                  then rt_migrate now s else c_return False s) (\<lambda>migrated.
       if migrated then c_return ()
       else c_bind drop_connection (\<lambda>_.
         c_bind (rt_count (\<lambda>t. t\<lparr>tt_reconnects := tt_reconnects t + 1\<rparr>)) (\<lambda>_. rt_connect now)))))))"

definition rt_reconnect :: "time_point \<Rightarrow> ('c resilient_transport, unit) call" where
  "rt_reconnect now = c_bind (rt_validate_event_time now) (\<lambda>_ s.
     if rt_state s = Closed then c_throw (Logic_error ''closed transport cannot reconnect'') s
     else c_bind drop_connection (\<lambda>_.
       c_bind (rt_count (\<lambda>t. t\<lparr>tt_reconnects := tt_reconnects t + 1\<rparr>)) (\<lambda>_.
       c_bind (rt_append_event now ''reconnect_started'') (\<lambda>_. rt_connect now))) s)"

definition rt_close :: "time_point \<Rightarrow> ('c resilient_transport, unit) call" where
  "rt_close now = c_bind (rt_validate_event_time now) (\<lambda>_.
     c_bind (c_modify (\<lambda>s. s\<lparr>rt_active := None, rt_mode := None, rt_state := Closed\<rparr>)) (\<lambda>_.
     rt_append_event now ''closed''))"

definition set_recovery_cursor :: "recovery_cursor \<Rightarrow> ('c resilient_transport, unit) call" where
  "set_recovery_cursor cursor = c_bind (c_check (\<lambda>_. validate_recovery cursor)) (\<lambda>_.
     c_modify (\<lambda>s. s\<lparr>rt_recovery := cursor\<rparr>))"

section \<open>Streams and datagrams\<close>

definition rt_open_stream :: "stream_purpose \<Rightarrow> ('c resilient_transport, unit) call" where
  "rt_open_stream purpose = c_bind (c_check require_ready) (\<lambda>_.
     c_bind (\<lambda>s. let r = nw_open_stream (rt_network s) (rt_history s) (the (rt_active s)) purpose
                  in (r, s\<lparr>rt_history := rt_history s @ [Opened purpose r]\<rparr>)) (\<lambda>stream.
     if \<not> stream then c_throw (Runtime_error ''transport returned a null stream'')
     else rt_count (\<lambda>t. t\<lparr>tt_streams_opened := tt_streams_opened t + 1\<rparr>)))"

text \<open>Timeouts are milliseconds.\<close>

definition timeout_ok :: "int \<Rightarrow> bool" where
  "timeout_ok timeout \<longleftrightarrow> \<not> (timeout < 1 \<or> timeout > 300000)"

definition rt_accept_stream :: "int \<Rightarrow> ('c resilient_transport, stream_purpose) call" where
  "rt_accept_stream timeout = c_bind (c_check require_ready) (\<lambda>_ s.
     if \<not> timeout_ok timeout then c_throw (Invalid_argument ''transport accept timeout is invalid'') s
     else if \<not> nw_duplex (rt_network s) (the (rt_active s))
     then c_throw (Runtime_error ''active transport cannot receive peer streams'') s
     else c_bind (\<lambda>s. let r = nw_accept_stream (rt_network s) (rt_history s) (the (rt_active s)) timeout
                       in (r, s\<lparr>rt_history := rt_history s @ [Accepted timeout r]\<rparr>)) (\<lambda>(purpose, stream).
       if \<not> stream then c_throw (Runtime_error ''transport accepted a null stream'')
       else c_bind (rt_count (\<lambda>t. t\<lparr>tt_streams_accepted := tt_streams_accepted t + 1\<rparr>)) (\<lambda>_.
         c_return purpose)) s)"

definition datagram_size_ok :: "quic_settings \<Rightarrow> byte list \<Rightarrow> bool" where
  "datagram_size_ok settings d \<longleftrightarrow> \<not> (d = [] \<or> length d > unat (qs_maximum_datagram_bytes settings))"

definition rt_send_datagram :: "datagram_channel \<Rightarrow> byte list \<Rightarrow> ('c resilient_transport, unit) call" where
  "rt_send_datagram channel d = c_bind (c_check require_ready) (\<lambda>_ s.
     if \<not> qs_enable_datagrams (rt_settings s) \<or> \<not> datagram_size_ok (rt_settings s) d
     then c_throw (Length_error ''transport datagram is outside bounds'') s
     else c_bind (\<lambda>s. let r = nw_send_datagram (rt_network s) (rt_history s) (the (rt_active s)) channel d
                       in (r, s\<lparr>rt_history := rt_history s @ [Datagram_sent channel d r]\<rparr>)) (\<lambda>_.
       rt_count (\<lambda>t. t\<lparr>tt_datagrams_sent := tt_datagrams_sent t + 1,
         tt_datagram_bytes_sent := tt_datagram_bytes_sent t + of_nat (length d)\<rparr>)) s)"

definition rt_receive_datagram :: "int \<Rightarrow> ('c resilient_transport, datagram_channel \<times> byte list) call" where
  "rt_receive_datagram timeout = c_bind (c_check require_ready) (\<lambda>_ s.
     if \<not> qs_enable_datagrams (rt_settings s) \<or> \<not> timeout_ok timeout
     then c_throw (Invalid_argument ''transport receive timeout or datagram setting is invalid'') s
     else if \<not> nw_duplex (rt_network s) (the (rt_active s))
     then c_throw (Runtime_error ''active transport cannot receive datagrams'') s
     else c_bind (\<lambda>s. let r = nw_receive_datagram (rt_network s) (rt_history s) (the (rt_active s)) timeout
                       in (r, s\<lparr>rt_history := rt_history s @ [Datagram_received timeout r]\<rparr>)) (\<lambda>(channel, d) s.
       if \<not> datagram_size_ok (rt_settings s) d
       then c_throw (Length_error ''received transport datagram is outside bounds'') s
       else c_bind (rt_count (\<lambda>t. t\<lparr>tt_datagrams_received := tt_datagrams_received t + 1,
           tt_datagram_bytes_received := tt_datagram_bytes_received t + of_nat (length d)\<rparr>)) (\<lambda>_.
         c_return (channel, d)) s) s)"

section \<open>What the operations do\<close>

definition record_event :: "time_point \<Rightarrow> string \<Rightarrow> 'c resilient_transport \<Rightarrow> 'c resilient_transport" where
  "record_event now reason s = s\<lparr>rt_events := rt_events s @ [\<lparr>ev_occurred_at = now, ev_state = rt_state s,
     ev_mode = rt_mode s, ev_path = te_path (rt_endpoint s), ev_reason_code = reason\<rparr>]\<rparr>"

definition reason_codes :: "string list" where
  "reason_codes = [''primary_connected'', ''fallback_connected'', ''primary_failed'', ''fallback_failed'',
     ''connect_started'', ''migration_started'', ''migration_succeeded'', ''migration_failed'',
     ''reconnect_started'', ''closed'']"

lemma reason_codes_valid: "list_all valid_identifier reason_codes"
  by (simp add: reason_codes_def valid_identifier_def is_alnum_def is_digit_def)

lemma append_reason: "reason \<in> set reason_codes \<Longrightarrow> rt_append_event now reason s = (Inr (), record_event now reason s)"
  using reason_codes_valid by (simp add: rt_append_event_def record_event_def list_all_iff)

lemma append_reasons [simp]:
  "rt_append_event now ''primary_connected'' s = (Inr (), record_event now ''primary_connected'' s)"
  "rt_append_event now ''fallback_connected'' s = (Inr (), record_event now ''fallback_connected'' s)"
  "rt_append_event now ''primary_failed'' s = (Inr (), record_event now ''primary_failed'' s)"
  "rt_append_event now ''fallback_failed'' s = (Inr (), record_event now ''fallback_failed'' s)"
  "rt_append_event now ''connect_started'' s = (Inr (), record_event now ''connect_started'' s)"
  "rt_append_event now ''migration_started'' s = (Inr (), record_event now ''migration_started'' s)"
  "rt_append_event now ''migration_succeeded'' s = (Inr (), record_event now ''migration_succeeded'' s)"
  "rt_append_event now ''migration_failed'' s = (Inr (), record_event now ''migration_failed'' s)"
  "rt_append_event now ''reconnect_started'' s = (Inr (), record_event now ''reconnect_started'' s)"
  "rt_append_event now ''closed'' s = (Inr (), record_event now ''closed'' s)"
  by (rule append_reason, simp add: reason_codes_def)+

text \<open>Sequencing computes once the first part is known.\<close>

lemma c_bind_Inr [simp]: "m s = (Inr x, s') \<Longrightarrow> c_bind m f s = f x s'"
  by (simp add: c_bind_def)

lemma c_bind_Inl [simp]: "m s = (Inl e, s') \<Longrightarrow> c_bind m f s = (Inl e, s')"
  by (simp add: c_bind_def)

lemma c_modify_apply [simp]: "c_modify f s = (Inr (), f s)"
  by (simp add: c_modify_def)

lemma rt_count_apply [simp]: "rt_count f s = (Inr (), s\<lparr>rt_telemetry := f (rt_telemetry s)\<rparr>)"
  by (simp add: rt_count_def)

lemma drop_connection_apply [simp]:
  "drop_connection s = (Inr (), s\<lparr>rt_active := None, rt_mode := None, rt_state := Disconnected\<rparr>)"
  by (simp add: drop_connection_def)

lemma c_catch_Inr: "m s = (Inr x, s') \<Longrightarrow> c_catch m h s = (Inr x, s')"
  by (simp add: c_catch_def)

lemma c_catch_Inl: "m s = (Inl e, s') \<Longrightarrow> c_catch m h s = h s'"
  by (simp add: c_catch_def)

definition connected :: "'c option result \<Rightarrow> 'c option" where
  "connected r = (case r of Inl _ \<Rightarrow> None | Inr c \<Rightarrow> c)"

definition connect_reply :: "transport_mode \<Rightarrow> 'c resilient_transport \<Rightarrow> 'c option result" where
  "connect_reply mode s = nw_connect (rt_network s) (rt_history s) mode (rt_endpoint s) (rt_settings s)"

definition with_outcome :: "'c outcome \<Rightarrow> 'c resilient_transport \<Rightarrow> 'c resilient_transport" where
  "with_outcome e s = s\<lparr>rt_history := rt_history s @ [e]\<rparr>"

lemma try_quic_eq:
  "try_connect Quic now s = (case connected (connect_reply Quic s) of
     Some c \<Rightarrow> (Inr True, record_event now ''primary_connected''
       (with_outcome (Connected Quic (rt_endpoint s) (connect_reply Quic s)) s\<lparr>rt_active := Some c, rt_mode := Some Quic,
         rt_state := Ready, rt_consecutive_primary_failures := 0,
         rt_telemetry := (rt_telemetry s)\<lparr>tt_primary_connection_attempts := tt_primary_connection_attempts (rt_telemetry s) + 1\<rparr>\<rparr>))
   | None \<Rightarrow> (Inr False, record_event now ''primary_failed''
       (with_outcome (Connected Quic (rt_endpoint s) (connect_reply Quic s)) s\<lparr>rt_active := None, rt_mode := None,
         rt_state := Disconnected, rt_consecutive_primary_failures := rt_consecutive_primary_failures s + 1,
         rt_telemetry := (rt_telemetry s)\<lparr>tt_primary_connection_attempts := tt_primary_connection_attempts (rt_telemetry s) + 1,
           tt_primary_connection_failures := tt_primary_connection_failures (rt_telemetry s) + 1\<rparr>\<rparr>)))"
  by (auto simp: try_connect_def connected_def connect_reply_def call_connect_def with_outcome_def Let_def
      c_bind_def c_catch_def c_return_def record_event_def split: sum.split option.split
      intro!: resilient_transport.equality)

lemma try_fallback_eq:
  "try_connect Tls_tcp_udp_fallback now s = (case connected (connect_reply Tls_tcp_udp_fallback s) of
     Some c \<Rightarrow> (Inr True, record_event now ''fallback_connected''
       (with_outcome (Connected Tls_tcp_udp_fallback (rt_endpoint s) (connect_reply Tls_tcp_udp_fallback s)) s
         \<lparr>rt_active := Some c, rt_mode := Some Tls_tcp_udp_fallback, rt_state := Ready,
         rt_telemetry := (rt_telemetry s)\<lparr>tt_fallback_connections := tt_fallback_connections (rt_telemetry s) + 1\<rparr>\<rparr>))
   | None \<Rightarrow> (Inr False, record_event now ''fallback_failed''
       (with_outcome (Connected Tls_tcp_udp_fallback (rt_endpoint s) (connect_reply Tls_tcp_udp_fallback s)) s
         \<lparr>rt_active := None, rt_mode := None, rt_state := Disconnected\<rparr>)))"
  by (auto simp: try_connect_def connected_def connect_reply_def call_connect_def with_outcome_def Let_def
      c_bind_def c_catch_def c_return_def record_event_def split: sum.split option.split
      intro!: resilient_transport.equality)

section \<open>The invariant\<close>

text \<open>Readings of the history: the failed QUIC attempts since the last that succeeded, and the connection
  that the last attempt made.\<close>

definition quic_streak :: "'c history \<Rightarrow> nat" where
  "quic_streak h = foldl (\<lambda>n e. case e of
     Connected Quic _ r \<Rightarrow> (if connected r = None then Suc n else 0) | _ \<Rightarrow> n) 0 h"

definition last_connection :: "'c history \<Rightarrow> (transport_mode \<times> 'c) option" where
  "last_connection h = foldl (\<lambda>l e. case e of
     Connected m _ r \<Rightarrow> map_option (Pair m) (connected r) | _ \<Rightarrow> l) None h"

definition fallback_justified :: "quic_settings \<Rightarrow> 'c history \<Rightarrow> bool" where
  "fallback_justified st h \<longleftrightarrow> (\<forall>pre endpoint r post. h = pre @ Connected Tls_tcp_udp_fallback endpoint r # post \<longrightarrow>
     qs_enable_fallback st \<and> unat (qs_primary_failures_before_fallback st) \<le> quic_streak pre)"

lemma quic_streak_Nil [simp]: "quic_streak [] = 0"
  by (simp add: quic_streak_def)

lemma quic_streak_snoc [simp]:
  "quic_streak (h @ [Connected Quic e r]) = (if connected r = None then Suc (quic_streak h) else 0)"
  "quic_streak (h @ [Connected Tls_tcp_udp_fallback e r]) = quic_streak h"
  "quic_streak (h @ [Migrated e b]) = quic_streak h"
  "quic_streak (h @ [Opened p b]) = quic_streak h"
  "quic_streak (h @ [Accepted i pb]) = quic_streak h"
  "quic_streak (h @ [Datagram_sent ch d u]) = quic_streak h"
  "quic_streak (h @ [Datagram_received i cd]) = quic_streak h"
  by (simp_all add: quic_streak_def)

lemma last_connection_snoc [simp]:
  "last_connection (h @ [Connected m e r]) = map_option (Pair m) (connected r)"
  "last_connection (h @ [Migrated e b]) = last_connection h"
  "last_connection (h @ [Opened p b]) = last_connection h"
  "last_connection (h @ [Accepted i pb]) = last_connection h"
  "last_connection (h @ [Datagram_sent ch d u]) = last_connection h"
  "last_connection (h @ [Datagram_received i cd]) = last_connection h"
  by (simp_all add: last_connection_def)

lemma snoc_split:
  "h @ [e] = pre @ x # post \<longleftrightarrow> (post = [] \<and> pre = h \<and> e = x) \<or> (\<exists>post'. post = post' @ [e] \<and> h = pre @ x # post')"
  by (cases post rule: rev_cases) auto

lemma fallback_justified_Nil [simp]: "fallback_justified st []"
  by (simp add: fallback_justified_def)

lemma fallback_justified_snoc:
  "fallback_justified st (h @ [e]) \<longleftrightarrow> fallback_justified st h \<and>
     (case e of Connected Tls_tcp_udp_fallback _ _ \<Rightarrow>
        qs_enable_fallback st \<and> unat (qs_primary_failures_before_fallback st) \<le> quic_streak h
      | _ \<Rightarrow> True)"
  unfolding fallback_justified_def snoc_split
  by (auto split: outcome.split transport_mode.split)

text \<open>What the counters count.\<close>

fun quic_attempt :: "'c outcome \<Rightarrow> bool" where
  "quic_attempt (Connected m _ _) = (m = Quic)"
| "quic_attempt _ = False"

fun quic_failure :: "'c outcome \<Rightarrow> bool" where
  "quic_failure (Connected m _ r) = (m = Quic \<and> connected r = None)"
| "quic_failure _ = False"

fun fallback_success :: "'c outcome \<Rightarrow> bool" where
  "fallback_success (Connected m _ r) = (m = Tls_tcp_udp_fallback \<and> connected r \<noteq> None)"
| "fallback_success _ = False"

fun migration :: "'c outcome \<Rightarrow> bool" where
  "migration (Migrated _ _) = True"
| "migration _ = False"

fun migration_failure :: "'c outcome \<Rightarrow> bool" where
  "migration_failure (Migrated _ r) = (r \<noteq> Inr True)"
| "migration_failure _ = False"

fun stream_opened :: "'c outcome \<Rightarrow> bool" where
  "stream_opened (Opened _ r) = (r = Inr True)"
| "stream_opened _ = False"

fun stream_accepted :: "'c outcome \<Rightarrow> bool" where
  "stream_accepted (Accepted _ r) = (case r of Inr (_, present) \<Rightarrow> present | _ \<Rightarrow> False)"
| "stream_accepted _ = False"

fun sent_datagram :: "'c outcome \<Rightarrow> byte list option" where
  "sent_datagram (Datagram_sent _ d r) = (if r = Inr () then Some d else None)"
| "sent_datagram _ = None"

fun received_datagram :: "quic_settings \<Rightarrow> 'c outcome \<Rightarrow> byte list option" where
  "received_datagram st (Datagram_received _ r) =
     (case r of Inr (_, d) \<Rightarrow> (if datagram_size_ok st d then Some d else None) | _ \<Rightarrow> None)"
| "received_datagram st _ = None"

definition counts_exact :: "quic_settings \<Rightarrow> 'c history \<Rightarrow> transport_telemetry \<Rightarrow> bool" where
  "counts_exact st h t \<longleftrightarrow>
     tt_primary_connection_attempts t = of_nat (length (filter quic_attempt h)) \<and>
     tt_primary_connection_failures t = of_nat (length (filter quic_failure h)) \<and>
     tt_fallback_connections t = of_nat (length (filter fallback_success h)) \<and>
     tt_migration_attempts t = of_nat (length (filter migration h)) \<and>
     tt_migration_failures t = of_nat (length (filter migration_failure h)) \<and>
     tt_streams_opened t = of_nat (length (filter stream_opened h)) \<and>
     tt_streams_accepted t = of_nat (length (filter stream_accepted h)) \<and>
     tt_datagrams_sent t = of_nat (length (List.map_filter sent_datagram h)) \<and>
     tt_datagram_bytes_sent t = of_nat (length (concat (List.map_filter sent_datagram h))) \<and>
     tt_datagrams_received t = of_nat (length (List.map_filter (received_datagram st) h)) \<and>
     tt_datagram_bytes_received t = of_nat (length (concat (List.map_filter (received_datagram st) h)))"

text \<open>The times of the events do not decrease and do not pass the last time given.\<close>

definition times_ordered :: "time_point option \<Rightarrow> transport_event list \<Rightarrow> bool" where
  "times_ordered latest es \<longleftrightarrow> sorted (map ev_occurred_at es) \<and>
     (case latest of None \<Rightarrow> es = [] | Some t \<Rightarrow> list_all (\<lambda>e. ev_occurred_at e \<le> t) es)"

text \<open>A connection that the connector made in that mode.\<close>

definition connected_by :: "'c network \<Rightarrow> quic_settings \<Rightarrow> transport_mode \<Rightarrow> 'c \<Rightarrow> bool" where
  "connected_by network st m c \<longleftrightarrow> (\<exists>h e. connected (nw_connect network h m e st) = Some c)"

lemma connected_by_reply:
  "connected (connect_reply m s) = Some c \<Longrightarrow> connected_by (rt_network s) (rt_settings s) m c"
  by (auto simp: connected_by_def connect_reply_def)

text \<open>What every part of an operation keeps.\<close>

definition transport_core :: "'c resilient_transport \<Rightarrow> bool" where
  "transport_core s \<longleftrightarrow>
     rt_consecutive_primary_failures s = of_nat (quic_streak (rt_history s)) \<and>
     fallback_justified (rt_settings s) (rt_history s) \<and>
     counts_exact (rt_settings s) (rt_history s) (rt_telemetry s) \<and>
     times_ordered (rt_last_event_at s) (rt_events s) \<and>
     (rt_active s = None \<longleftrightarrow> rt_mode s = None) \<and>
     (\<forall>m c. rt_mode s = Some m \<and> rt_active s = Some c \<longrightarrow> last_connection (rt_history s) = Some (m, c) \<and>
       connected_by (rt_network s) (rt_settings s) m c)"

definition core_at :: "time_point \<Rightarrow> 'c resilient_transport \<Rightarrow> bool" where
  "core_at now s \<longleftrightarrow> transport_core s \<and> rt_last_event_at s = Some now"

definition settled :: "'c resilient_transport \<Rightarrow> bool" where
  "settled s \<longleftrightarrow> rt_state s \<noteq> Connecting \<and> rt_state s \<noteq> Migrating \<and>
     (rt_state s = Ready \<longleftrightarrow> rt_active s \<noteq> None)"

lemma map_filter_snoc [simp]:
  "List.map_filter f (xs @ [x]) = List.map_filter f xs @ (case f x of None \<Rightarrow> [] | Some y \<Rightarrow> [y])"
  by (simp add: List.map_filter_def split: option.split)

lemma record_event_simps [simp]:
  "rt_network (record_event now reason s) = rt_network s"
  "rt_history (record_event now reason s) = rt_history s"
  "rt_endpoint (record_event now reason s) = rt_endpoint s"
  "rt_settings (record_event now reason s) = rt_settings s"
  "rt_active (record_event now reason s) = rt_active s"
  "rt_state (record_event now reason s) = rt_state s"
  "rt_mode (record_event now reason s) = rt_mode s"
  "rt_telemetry (record_event now reason s) = rt_telemetry s"
  "rt_last_event_at (record_event now reason s) = rt_last_event_at s"
  "rt_consecutive_primary_failures (record_event now reason s) = rt_consecutive_primary_failures s"
  by (simp_all add: record_event_def)

lemma with_outcome_simps [simp]:
  "rt_network (with_outcome e s) = rt_network s"
  "rt_history (with_outcome e s) = rt_history s @ [e]"
  "rt_endpoint (with_outcome e s) = rt_endpoint s"
  "rt_settings (with_outcome e s) = rt_settings s"
  "rt_active (with_outcome e s) = rt_active s"
  "rt_state (with_outcome e s) = rt_state s"
  "rt_mode (with_outcome e s) = rt_mode s"
  "rt_telemetry (with_outcome e s) = rt_telemetry s"
  "rt_events (with_outcome e s) = rt_events s"
  "rt_last_event_at (with_outcome e s) = rt_last_event_at s"
  "rt_consecutive_primary_failures (with_outcome e s) = rt_consecutive_primary_failures s"
  by (simp_all add: with_outcome_def)

lemma record_event_core: "core_at now s \<Longrightarrow> core_at now (record_event now reason s)"
  by (auto simp: core_at_def transport_core_def times_ordered_def sorted_append list_all_iff record_event_def)

lemma event_time_core:
  assumes "transport_core s" "rt_validate_event_time now s = (Inr (), s')"
  shows "core_at now s'"
  using assms
  by (auto simp: rt_validate_event_time_def core_at_def transport_core_def times_ordered_def list_all_iff
      split: if_split_asm option.splits) (metis not_less order_trans)+

lemma event_time_same:
  "rt_validate_event_time now s = (Inl e, s') \<Longrightarrow> s' = s"
  by (auto simp: rt_validate_event_time_def split: if_split_asm)

lemma core_at_updates:
  "core_at now s \<Longrightarrow> core_at now (s\<lparr>rt_state := x\<rparr>)"
  "core_at now s \<Longrightarrow> core_at now (s\<lparr>rt_endpoint := e\<rparr>)"
  "core_at now s \<Longrightarrow> core_at now (s\<lparr>rt_active := None, rt_mode := None, rt_state := x\<rparr>)"
  "core_at now s \<Longrightarrow> core_at now (s\<lparr>rt_telemetry := (rt_telemetry s)\<lparr>tt_reconnects := n\<rparr>\<rparr>)"
  by (auto simp: core_at_def transport_core_def counts_exact_def)

lemma try_connect_core:
  assumes "core_at now s"
    and "mode = Tls_tcp_udp_fallback \<Longrightarrow> qs_enable_fallback (rt_settings s) \<and>
      rt_consecutive_primary_failures s \<ge> qs_primary_failures_before_fallback (rt_settings s)"
  shows "core_at now (snd (try_connect mode now s))"
proof -
  have streak: "unat (rt_consecutive_primary_failures s) \<le> quic_streak (rt_history s)"
    using assms(1) by (simp add: core_at_def transport_core_def unat_of_nat)
  show ?thesis
  proof (cases mode)
    case Quic
    show ?thesis
      unfolding Quic try_quic_eq
      by (cases "connected (connect_reply Quic s)"; simp; rule record_event_core)
        (use assms(1) in \<open>auto simp: core_at_def transport_core_def counts_exact_def fallback_justified_snoc connected_by_reply\<close>)
  next
    case Tls_tcp_udp_fallback
    have "unat (qs_primary_failures_before_fallback (rt_settings s)) \<le> quic_streak (rt_history s)"
      using streak assms(2) [OF Tls_tcp_udp_fallback] by (simp add: word_le_nat_alt)
    then show ?thesis
      unfolding Tls_tcp_udp_fallback try_fallback_eq
      by (cases "connected (connect_reply Tls_tcp_udp_fallback s)"; simp; intro record_event_core)
        (use assms(1) assms(2) [OF Tls_tcp_udp_fallback] in
          \<open>auto simp: core_at_def transport_core_def counts_exact_def fallback_justified_snoc connected_by_reply\<close>)
  qed
qed

text \<open>A connection attempt ends ready or disconnected.\<close>

lemma try_connect_settled:
  "settled (snd (try_connect mode now s))"
  "try_connect mode now s = (Inr b, s') \<Longrightarrow> b = (rt_state s' = Ready)"
  "rt_settings (snd (try_connect mode now s)) = rt_settings s"
  "rt_network (snd (try_connect mode now s)) = rt_network s"
  by (cases mode; auto simp: try_quic_eq try_fallback_eq settled_def split: option.splits)+

lemma try_connect_returns: "\<exists>b. try_connect mode now s = (Inr b, snd (try_connect mode now s))"
  by (cases mode; auto simp: try_quic_eq try_fallback_eq split: option.split)

lemma rt_connect_facts:
  assumes "transport_core s" "settled s"
  shows "transport_core (snd (rt_connect now s)) \<and> settled (snd (rt_connect now s)) \<and>
    rt_settings (snd (rt_connect now s)) = rt_settings s \<and> rt_network (snd (rt_connect now s)) = rt_network s"
proof -
  obtain r s1 where v: "rt_validate_event_time now s = (r, s1)"
    by fastforce
  show ?thesis
  proof (cases r)
    case (Inl e)
    then show ?thesis
      using v event_time_same [of now s e s1] assms by (simp add: rt_connect_def)
  next
    case (Inr u)
    then have v: "rt_validate_event_time now s = (Inr (), s1)"
      using v by simp
    note c1 = event_time_core [OF assms(1) v]
    have s1: "settled s1" "rt_settings s1 = rt_settings s" "rt_network s1 = rt_network s"
      using v assms(2) by (auto simp: rt_validate_event_time_def settled_def split: if_split_asm)
    define s2 where "s2 = record_event now ''connect_started'' (s1\<lparr>rt_state := Connecting\<rparr>)"
    have c2: "core_at now s2"
      unfolding s2_def using c1 by (intro record_event_core core_at_updates)
    obtain b where q: "try_connect Quic now s2 = (Inr b, snd (try_connect Quic now s2))"
      using try_connect_returns by blast
    define s3 where "s3 = snd (try_connect Quic now s2)"
    have c3: "core_at now s3" "settled s3" "rt_settings s3 = rt_settings s" "rt_network s3 = rt_network s"
      using try_connect_core [OF c2, of Quic] try_connect_settled(1,3,4) [of Quic now s2] s1
      by (simp_all add: s3_def s2_def)
    obtain b' where f: "try_connect Tls_tcp_udp_fallback now s3 = (Inr b', snd (try_connect Tls_tcp_udp_fallback now s3))"
      using try_connect_returns by blast
    define s4 where "s4 = snd (try_connect Tls_tcp_udp_fallback now s3)"
    have c4: "core_at now s4" "settled s4" "rt_settings s4 = rt_settings s" "rt_network s4 = rt_network s"
      if "qs_enable_fallback (rt_settings s3)"
        "rt_consecutive_primary_failures s3 \<ge> qs_primary_failures_before_fallback (rt_settings s3)"
      using that try_connect_core [OF c3(1), of Tls_tcp_udp_fallback]
        try_connect_settled(1,3,4) [of Tls_tcp_udp_fallback now s3] c3 by (simp_all add: s4_def)
    have done1: "transport_core s1"
      using c1 by (simp add: core_at_def)
    show ?thesis
      using v q f c3 c4 s1 done1 unfolding rt_connect_def
      by (auto simp: c_return_def c_throw_def s2_def [symmetric] s3_def [symmetric] s4_def [symmetric] core_at_def)
  qed
qed

text \<open>The invariant of the object between calls.\<close>

definition transport_ok :: "'c network \<Rightarrow> quic_settings \<Rightarrow> 'c resilient_transport \<Rightarrow> bool" where
  "transport_ok nw st s \<longleftrightarrow> rt_network s = nw \<and> rt_settings s = st \<and> transport_core s \<and> settled s"

definition transport_keeps :: "('c resilient_transport, 'a) call \<Rightarrow> bool" where
  "transport_keeps m \<longleftrightarrow> (\<forall>nw st s. transport_ok nw st s \<longrightarrow> transport_ok nw st (snd (m s)))"

lemma transport_keepsI: "(\<And>nw st s. transport_ok nw st s \<Longrightarrow> transport_ok nw st (snd (m s))) \<Longrightarrow> transport_keeps m"
  by (simp add: transport_keeps_def)

lemma transport_keepsD: "transport_keeps m \<Longrightarrow> transport_ok nw st s \<Longrightarrow> transport_ok nw st (snd (m s))"
  by (simp add: transport_keeps_def)

lemma c_bind_check: "c_bind (c_check p) f s = (case p s of Inl e \<Rightarrow> (Inl e, s) | Inr x \<Rightarrow> f x s)"
  by (simp add: c_bind_def c_check_def split: sum.split)

lemma keeps_connect: "transport_keeps (rt_connect now)"
  by (rule transport_keepsI) (simp add: transport_ok_def rt_connect_facts)

lemma ready_connection:
  "require_ready s = Inr u \<Longrightarrow> transport_ok nw st s \<Longrightarrow> rt_state s = Ready \<and> (\<exists>c m. rt_active s = Some c \<and> rt_mode s = Some m)"
  by (auto simp: require_ready_def throw_if_def split: if_split_asm)

lemma rt_migrate_eq:
  "rt_migrate now s =
     (let r = nw_migrate (rt_network s) (rt_history s) (the (rt_active s)) (rt_endpoint s);
          t = (rt_telemetry s)\<lparr>tt_migration_attempts := tt_migration_attempts (rt_telemetry s) + 1\<rparr>;
          s1 = with_outcome (Migrated (rt_endpoint s) r)
            (record_event now ''migration_started'' (s\<lparr>rt_state := Migrating, rt_telemetry := t\<rparr>))
      in if r = Inr True then (Inr True, record_event now ''migration_succeeded'' (s1\<lparr>rt_state := Ready\<rparr>))
         else (Inr False, record_event now ''migration_failed''
           (s1\<lparr>rt_telemetry := t\<lparr>tt_migration_failures := tt_migration_failures t + 1\<rparr>\<rparr>)))"
  by (auto simp: rt_migrate_def call_migrate_def with_outcome_def Let_def c_bind_def c_catch_def c_return_def
      record_event_def split: sum.split)

lemma rt_migrate_core:
  assumes "core_at now s" "rt_active s \<noteq> None"
  shows "core_at now (snd (rt_migrate now s))"
    "rt_migrate now s = (Inr b, s') \<Longrightarrow> b \<Longrightarrow> settled s'"
    "rt_settings (snd (rt_migrate now s)) = rt_settings s \<and> rt_network (snd (rt_migrate now s)) = rt_network s"
    "\<exists>b. rt_migrate now s = (Inr b, snd (rt_migrate now s))"
proof -
  let ?r = "nw_migrate (rt_network s) (rt_history s) (the (rt_active s)) (rt_endpoint s)"
  let ?t = "(rt_telemetry s)\<lparr>tt_migration_attempts := tt_migration_attempts (rt_telemetry s) + 1\<rparr>"
  let ?s1 = "record_event now ''migration_started'' (s\<lparr>rt_state := Migrating, rt_telemetry := ?t\<rparr>)"
  have "times_ordered (Some now) (rt_events ?s1)"
    using assms(1) by (auto simp: core_at_def transport_core_def times_ordered_def sorted_append record_event_def list_all_iff)
  then show "core_at now (snd (rt_migrate now s))"
    unfolding rt_migrate_eq Let_def using assms(1)
    by (cases "?r = Inr True"; simp; intro record_event_core)
      (auto simp: core_at_def transport_core_def counts_exact_def fallback_justified_snoc)
  show "rt_migrate now s = (Inr b, s') \<Longrightarrow> b \<Longrightarrow> settled s'"
    using assms(2) by (auto simp: rt_migrate_eq Let_def settled_def split: if_split_asm)
  show "rt_settings (snd (rt_migrate now s)) = rt_settings s \<and> rt_network (snd (rt_migrate now s)) = rt_network s"
    "\<exists>b. rt_migrate now s = (Inr b, snd (rt_migrate now s))"
    by (auto simp: rt_migrate_eq Let_def)
qed

lemma dropped_ok:
  assumes "core_at now s" "rt_settings s = st" "rt_network s = nw"
  shows "transport_ok nw st (s\<lparr>rt_active := None, rt_mode := None, rt_state := Disconnected,
    rt_telemetry := (rt_telemetry s)\<lparr>tt_reconnects := n\<rparr>\<rparr>)"
  using core_at_updates(4) [OF core_at_updates(3) [OF assms(1), of Disconnected], of n] assms(2,3)
  by (simp add: transport_ok_def core_at_def settled_def)

lemma event_time_ok:
  assumes "transport_ok nw st s"
  shows "transport_ok nw st (snd (rt_validate_event_time now s))"
    "rt_validate_event_time now s = (Inr u, s') \<Longrightarrow> core_at now s' \<and> transport_ok nw st s' \<and>
       rt_state s' = rt_state s \<and> rt_active s' = rt_active s \<and> rt_mode s' = rt_mode s \<and> rt_history s' = rt_history s"
proof -
  have ok: "core_at now s' \<and> transport_ok nw st s' \<and>
       rt_state s' = rt_state s \<and> rt_active s' = rt_active s \<and> rt_mode s' = rt_mode s \<and> rt_history s' = rt_history s"
    if "rt_validate_event_time now s = (Inr u, s')" for u s'
  proof -
    have "core_at now s'"
      using event_time_core that assms by (metis (full_types) old.unit.exhaust transport_ok_def)
    moreover have "s' = s\<lparr>rt_last_event_at := Some now\<rparr>"
      using that by (auto simp: rt_validate_event_time_def split: if_split_asm)
    ultimately show ?thesis
      using assms by (auto simp: transport_ok_def core_at_def settled_def)
  qed
  then show "rt_validate_event_time now s = (Inr u, s') \<Longrightarrow> core_at now s' \<and> transport_ok nw st s' \<and>
       rt_state s' = rt_state s \<and> rt_active s' = rt_active s \<and> rt_mode s' = rt_mode s \<and> rt_history s' = rt_history s" .
  show "transport_ok nw st (snd (rt_validate_event_time now s))"
    using ok event_time_same assms by (metis old.sum.exhaust prod.collapse)
qed

text \<open>An operation that begins with the check of the time.\<close>

lemma keeps_after_event_time:
  assumes "\<And>nw st s. core_at now s \<Longrightarrow> transport_ok nw st s \<Longrightarrow> transport_ok nw st (snd (f s))"
  shows "transport_keeps (c_bind (rt_validate_event_time now) (\<lambda>_. f))"
proof (rule transport_keepsI)
  fix nw st and s :: "'a resilient_transport"
  assume ok: "transport_ok nw st s"
  obtain r s1 where v: "rt_validate_event_time now s = (r, s1)"
    by fastforce
  show "transport_ok nw st (snd (c_bind (rt_validate_event_time now) (\<lambda>_. f) s))"
    using event_time_ok [OF ok, of now] assms [of s1 nw st] v by (cases r) (auto simp: c_bind_def)
qed

lemma keeps_close: "transport_keeps (rt_close now)"
  unfolding rt_close_def
proof (rule keeps_after_event_time)
  fix nw st and s :: "'a resilient_transport"
  assume "core_at now s" "transport_ok nw st s"
  then show "transport_ok nw st (snd (c_bind (c_modify (\<lambda>s. s\<lparr>rt_active := None, rt_mode := None, rt_state := Closed\<rparr>))
      (\<lambda>_. rt_append_event now ''closed'') s))"
    using record_event_core [OF core_at_updates(3) [of now s Closed], of "''closed''"]
    by (simp add: transport_ok_def core_at_def settled_def)
qed

lemma keeps_reconnect: "transport_keeps (rt_reconnect now)"
  unfolding rt_reconnect_def
proof (rule keeps_after_event_time)
  fix nw st and s :: "'a resilient_transport"
  assume c: "core_at now s" and ok: "transport_ok nw st s"
  let ?s = "s\<lparr>rt_active := None, rt_mode := None, rt_state := Disconnected,
    rt_telemetry := (rt_telemetry s)\<lparr>tt_reconnects := tt_reconnects (rt_telemetry s) + 1\<rparr>\<rparr>"
  have "core_at now ?s" "rt_settings ?s = st" "rt_network ?s = nw" "settled ?s"
    using core_at_updates(4) [OF core_at_updates(3) [OF c, of Disconnected]] ok
    by (simp_all add: transport_ok_def settled_def)
  then have "transport_ok nw st (record_event now ''reconnect_started'' ?s)"
    using record_event_core [of now ?s] by (simp add: transport_ok_def core_at_def settled_def)
  from transport_keepsD [OF keeps_connect this] ok
  show "transport_ok nw st (snd (if rt_state s = Closed then c_throw (Logic_error ''closed transport cannot reconnect'') s
     else c_bind drop_connection (\<lambda>_.
       c_bind (rt_count (\<lambda>t. t\<lparr>tt_reconnects := tt_reconnects t + 1\<rparr>)) (\<lambda>_.
       c_bind (rt_append_event now ''reconnect_started'') (\<lambda>_. rt_connect now))) s))"
    by simp
qed

lemma keeps_network_changed: "transport_keeps (rt_network_changed e now)"
proof (rule transport_keepsI)
  fix nw st and s :: "'a resilient_transport"
  assume ok: "transport_ok nw st s"
  show "transport_ok nw st (snd (rt_network_changed e now s))"
  proof (cases "validate_transport_endpoint e")
    case (Inl x)
    then show ?thesis
      using ok by (simp add: rt_network_changed_def c_bind_check)
  next
    case endpoint: (Inr u)
    obtain r s1 where v: "rt_validate_event_time now s = (r, s1)"
      by fastforce
    show ?thesis
    proof (cases r)
      case (Inl x)
      then show ?thesis
        using v endpoint event_time_ok(1) [OF ok, of now] by (simp add: rt_network_changed_def c_bind_check)
    next
      case (Inr u')
      note s1 = event_time_ok(2) [OF ok, of now u' s1] v [unfolded Inr]
      show ?thesis
      proof (cases "require_ready s1")
        case (Inl x)
        then show ?thesis
          using s1 endpoint by (simp add: rt_network_changed_def c_bind_check)
      next
        case ready: (Inr u'')
        then have active: "rt_active s1 \<noteq> None" "rt_state s1 = Ready"
          using ready_connection [of s1 u'' nw st] s1 by auto
        define s2 where "s2 = s1\<lparr>rt_endpoint := e\<rparr>"
        have s2: "core_at now s2" "rt_settings s2 = st \<and> rt_network s2 = nw" "rt_active s2 \<noteq> None" "settled s2"
          using s1 active core_at_updates(2) [of now s1 e]
          by (simp_all add: s2_def transport_ok_def settled_def)
        define s3 where "s3 = (if rt_mode s2 = Some Quic \<and> qs_enable_connection_migration (rt_settings s2)
            then snd (rt_migrate now s2) else s2)"
        have "\<exists>b. (if rt_mode s2 = Some Quic \<and> qs_enable_connection_migration (rt_settings s2)
            then rt_migrate now s2 else c_return False s2) = (Inr b, s3)"
          using rt_migrate_core(4) [OF s2(1,3)] by (auto simp: s3_def)
        then obtain b where b: "(if rt_mode s2 = Some Quic \<and> qs_enable_connection_migration (rt_settings s2)
            then rt_migrate now s2 else c_return False s2) = (Inr b, s3)"
          by blast
        have s3: "core_at now s3" "rt_settings s3 = st" "rt_network s3 = nw" "b \<Longrightarrow> settled s3"
          using s2 b rt_migrate_core(1,3) [OF s2(1,3)] rt_migrate_core(2) [OF s2(1,3), of b s3]
          by (auto simp: s3_def split: if_split_asm)
        have "rt_network_changed e now s = (if b then c_return () else c_bind drop_connection (\<lambda>_.
            c_bind (rt_count (\<lambda>t. t\<lparr>tt_reconnects := tt_reconnects t + 1\<rparr>)) (\<lambda>_. rt_connect now))) s3"
          using s1 ready endpoint b by (simp add: rt_network_changed_def c_bind_check s2_def [symmetric])
        then show ?thesis
          using s3 transport_keepsD [OF keeps_connect dropped_ok [OF s3(1-3)]]
          by (auto simp: transport_ok_def core_at_def)
      qed
    qed
  qed
qed

lemma keeps_set_recovery: "transport_keeps (set_recovery_cursor c)"
  by (rule transport_keepsI)
    (auto simp: set_recovery_cursor_def c_bind_check transport_ok_def transport_core_def settled_def split: sum.split)

text \<open>The operations on the connection add their outcome to the history and count it.\<close>

lemma outcome_ok:
  assumes "transport_ok nw st s" "\<And>m e r. o' \<noteq> Connected m e r"
    and "counts_exact st (rt_history s @ [o']) t"
  shows "transport_ok nw st (s\<lparr>rt_history := rt_history s @ [o'], rt_telemetry := t\<rparr>)"
  using assms by (cases o') (auto simp: transport_ok_def transport_core_def settled_def fallback_justified_snoc)

lemma counts_of: "transport_ok nw st s \<Longrightarrow> counts_exact st (rt_history s) (rt_telemetry s)"
  by (auto simp: transport_ok_def transport_core_def)

lemma keeps_open_stream: "transport_keeps (rt_open_stream p)"
proof (rule transport_keepsI)
  fix nw st and s :: "'a resilient_transport"
  assume ok: "transport_ok nw st s"
  let ?r = "nw_open_stream (rt_network s) (rt_history s) (the (rt_active s)) p"
  show "transport_ok nw st (snd (rt_open_stream p s))"
    using outcome_ok [OF ok, of "Opened p ?r" "rt_telemetry s"] counts_of [OF ok] ok
      outcome_ok [OF ok, of "Opened p ?r"
        "(rt_telemetry s)\<lparr>tt_streams_opened := tt_streams_opened (rt_telemetry s) + 1\<rparr>"]
    by (cases "require_ready s"; cases ?r)
      (auto simp: rt_open_stream_def c_check_def c_bind_def c_modify_def Let_def counts_exact_def)
qed

lemma keeps_accept_stream: "transport_keeps (rt_accept_stream timeout)"
proof (rule transport_keepsI)
  fix nw st and s :: "'a resilient_transport"
  assume ok: "transport_ok nw st s"
  let ?r = "nw_accept_stream (rt_network s) (rt_history s) (the (rt_active s)) timeout"
  show "transport_ok nw st (snd (rt_accept_stream timeout s))"
    using outcome_ok [OF ok, of "Accepted timeout ?r" "rt_telemetry s"] counts_of [OF ok] ok
      outcome_ok [OF ok, of "Accepted timeout ?r"
        "(rt_telemetry s)\<lparr>tt_streams_accepted := tt_streams_accepted (rt_telemetry s) + 1\<rparr>"]
    by (cases "require_ready s"; cases ?r)
      (auto simp: rt_accept_stream_def c_check_def c_bind_def c_modify_def Let_def counts_exact_def)
qed

lemma keeps_send_datagram: "transport_keeps (rt_send_datagram ch d)"
proof (rule transport_keepsI)
  fix nw st and s :: "'a resilient_transport"
  assume ok: "transport_ok nw st s"
  let ?r = "nw_send_datagram (rt_network s) (rt_history s) (the (rt_active s)) ch d"
  show "transport_ok nw st (snd (rt_send_datagram ch d s))"
    using outcome_ok [OF ok, of "Datagram_sent ch d ?r" "rt_telemetry s"] counts_of [OF ok] ok
      outcome_ok [OF ok, of "Datagram_sent ch d ?r"
        "(rt_telemetry s)\<lparr>tt_datagrams_sent := tt_datagrams_sent (rt_telemetry s) + 1,
         tt_datagram_bytes_sent := tt_datagram_bytes_sent (rt_telemetry s) + of_nat (length d)\<rparr>"]
    by (cases "require_ready s"; cases ?r)
      (auto simp: rt_send_datagram_def c_check_def c_bind_def c_modify_def Let_def counts_exact_def)
qed

lemma keeps_receive_datagram: "transport_keeps (rt_receive_datagram timeout)"
proof (rule transport_keepsI)
  fix nw st and s :: "'a resilient_transport"
  assume ok: "transport_ok nw st s"
  let ?r = "nw_receive_datagram (rt_network s) (rt_history s) (the (rt_active s)) timeout"
  have st: "rt_settings s = st"
    using ok by (simp add: transport_ok_def)
  show "transport_ok nw st (snd (rt_receive_datagram timeout s))"
  proof (cases ?r)
    case (Inl x)
    then show ?thesis
      using outcome_ok [OF ok, of "Datagram_received timeout ?r" "rt_telemetry s"] counts_of [OF ok] ok
      by (cases "require_ready s")
        (auto simp: rt_receive_datagram_def c_check_def c_bind_def c_modify_def Let_def counts_exact_def)
  next
    case (Inr cd)
    then show ?thesis
      using outcome_ok [OF ok, of "Datagram_received timeout ?r" "rt_telemetry s"] counts_of [OF ok] ok
        outcome_ok [OF ok, of "Datagram_received timeout ?r"
          "(rt_telemetry s)\<lparr>tt_datagrams_received := tt_datagrams_received (rt_telemetry s) + 1,
           tt_datagram_bytes_received := tt_datagram_bytes_received (rt_telemetry s) + of_nat (length (snd cd))\<rparr>"]
      by (cases "require_ready s")
        (auto simp: rt_receive_datagram_def c_check_def c_bind_def c_modify_def Let_def counts_exact_def st
          split: prod.split)
  qed
qed

section \<open>Runs\<close>

datatype resilient_call =
    Rt_connect time_point
  | Rt_network_changed transport_endpoint time_point
  | Rt_reconnect time_point
  | Rt_close time_point
  | Rt_set_recovery recovery_cursor
  | Rt_open_stream stream_purpose
  | Rt_accept_stream int
  | Rt_send_datagram datagram_channel "byte list"
  | Rt_receive_datagram int

fun resilient_step :: "'c resilient_transport \<Rightarrow> resilient_call \<Rightarrow> 'c resilient_transport" where
  "resilient_step s (Rt_connect now) = snd (rt_connect now s)"
| "resilient_step s (Rt_network_changed e now) = snd (rt_network_changed e now s)"
| "resilient_step s (Rt_reconnect now) = snd (rt_reconnect now s)"
| "resilient_step s (Rt_close now) = snd (rt_close now s)"
| "resilient_step s (Rt_set_recovery c) = snd (set_recovery_cursor c s)"
| "resilient_step s (Rt_open_stream p) = snd (rt_open_stream p s)"
| "resilient_step s (Rt_accept_stream timeout) = snd (rt_accept_stream timeout s)"
| "resilient_step s (Rt_send_datagram ch d) = snd (rt_send_datagram ch d s)"
| "resilient_step s (Rt_receive_datagram timeout) = snd (rt_receive_datagram timeout s)"

text \<open>The calls that give up the connection to make a new one: a reconnect of a transport that is not closed, and a change
  of the network that is not followed by a migration that succeeds.\<close>

definition in_time :: "time_point \<Rightarrow> 'c resilient_transport \<Rightarrow> bool" where
  "in_time now s \<longleftrightarrow> now \<noteq> 0 \<and> (case rt_last_event_at s of None \<Rightarrow> True | Some t \<Rightarrow> t \<le> now)"

fun reconnecting :: "'c resilient_transport \<Rightarrow> resilient_call \<Rightarrow> bool" where
  "reconnecting s (Rt_reconnect now) \<longleftrightarrow> in_time now s \<and> rt_state s \<noteq> Closed"
| "reconnecting s (Rt_network_changed e now) \<longleftrightarrow> validate_transport_endpoint e = Inr () \<and> in_time now s \<and>
     require_ready s = Inr () \<and> \<not> (rt_mode s = Some Quic \<and> qs_enable_connection_migration (rt_settings s) \<and>
       nw_migrate (rt_network s) (rt_history s) (the (rt_active s)) e = Inr True)"
| "reconnecting s _ \<longleftrightarrow> False"

fun reconnect_calls :: "'c resilient_transport \<Rightarrow> resilient_call list \<Rightarrow> nat" where
  "reconnect_calls s [] = 0"
| "reconnect_calls s (c # cs) = (if reconnecting s c then 1 else 0) + reconnect_calls (resilient_step s c) cs"

abbreviation reconnects :: "'c resilient_transport \<Rightarrow> u64" where
  "reconnects s \<equiv> tt_reconnects (rt_telemetry s)"

lemma reconnects_bind:
  "reconnects (snd (m s)) = reconnects s \<Longrightarrow> (\<And>x s'. m s = (Inr x, s') \<Longrightarrow> reconnects (snd (f x s')) = reconnects s') \<Longrightarrow>
     reconnects (snd (c_bind m f s)) = reconnects s"
  by (fastforce simp: c_bind_def split: prod.splits sum.splits)

lemma event_time_cases:
  "c_bind (rt_validate_event_time now) f s = (if in_time now s then f () (s\<lparr>rt_last_event_at := Some now\<rparr>)
     else (throw (Invalid_argument ''transport event time is not monotonic''), s))"
  by (auto simp: c_bind_def rt_validate_event_time_def in_time_def split: option.splits)

lemma reconnects_connect: "reconnects (snd (rt_connect now s)) = reconnects s"
proof -
  have attempt: "reconnects (snd (try_connect mode now s)) = reconnects s" for mode and s :: "'a resilient_transport"
    by (cases mode; auto simp: try_quic_eq try_fallback_eq split: option.split)
  have last: "reconnects (snd (c_bind (try_connect mode now) (\<lambda>b. if b then c_return () else c_throw e) s)) = reconnects s"
    for mode e and s :: "'a resilient_transport"
    using attempt by (intro reconnects_bind) auto
  have "reconnects (snd (c_bind (try_connect Quic now) (\<lambda>b s. if b then c_return () s
      else if P s then c_bind (try_connect Tls_tcp_udp_fallback now) (\<lambda>b. if b then c_return () else c_throw e) s
      else c_throw e s) s)) = reconnects s" for P e and s :: "'a resilient_transport"
    using attempt last by (intro reconnects_bind) auto
  note first = this [where P = "\<lambda>s. qs_enable_fallback (rt_settings s) \<and>
    rt_consecutive_primary_failures s \<ge> qs_primary_failures_before_fallback (rt_settings s)"]
  show ?thesis
    by (cases "in_time now s") (simp_all add: rt_connect_def event_time_cases first)
qed

lemma reconnects_step:
  "reconnects (resilient_step s call) = reconnects s + (if reconnecting s call then 1 else 0)"
proof (cases call)
  case (Rt_network_changed e now)
  have migrate: "reconnects (snd (rt_migrate now s)) = reconnects s" for s :: "'a resilient_transport"
    by (simp add: rt_migrate_eq Let_def)
  let ?s = "s\<lparr>rt_last_event_at := Some now, rt_endpoint := e\<rparr>"
  let ?migrates = "rt_mode s = Some Quic \<and> qs_enable_connection_migration (rt_settings s)"
  let ?r = "nw_migrate (rt_network s) (rt_history s) (the (rt_active s)) e"
  have ready: "require_ready (s\<lparr>rt_last_event_at := Some now\<rparr>) = require_ready s"
    by (simp add: require_ready_def)
  show ?thesis
  proof (cases "validate_transport_endpoint e = Inr () \<and> in_time now s \<and> require_ready s = Inr ()")
    case False
    then show ?thesis
      using ready by (auto simp: Rt_network_changed rt_network_changed_def c_bind_check event_time_cases split: sum.splits)
  next
    case True
    obtain b s1 where b: "(if ?migrates then rt_migrate now ?s else c_return False ?s) = (Inr b, s1)"
      "b \<longleftrightarrow> ?migrates \<and> ?r = Inr True" "reconnects s1 = reconnects s"
    proof
      show "(if ?migrates then rt_migrate now ?s else c_return False ?s) =
          (Inr (?migrates \<and> ?r = Inr True), snd (if ?migrates then rt_migrate now ?s else c_return False ?s))"
        by (auto simp: rt_migrate_eq Let_def)
    qed (use migrate [of ?s] in \<open>simp_all\<close>)
    have "reconnects (resilient_step s call) = reconnects s1 + (if b then 0 else 1)"
      using True ready b(1)
      by (simp add: reconnects_connect Rt_network_changed rt_network_changed_def c_bind_check event_time_cases c_bind_def [of "\<lambda>s. if P s then f s else g s" for P f g])
    then show ?thesis
      using True b by (simp add: Rt_network_changed)
  qed
next
  case (Rt_reconnect now)
  then show ?thesis
    by (simp add: rt_reconnect_def event_time_cases reconnects_connect)
next
  case (Rt_connect now)
  then show ?thesis
    by (simp add: reconnects_connect)
next
  case (Rt_close now)
  then show ?thesis
    by (simp add: rt_close_def event_time_cases)
qed (auto simp: set_recovery_cursor_def rt_open_stream_def rt_accept_stream_def
    rt_send_datagram_def rt_receive_datagram_def c_bind_def c_check_def Let_def split: sum.splits if_splits prod.splits)

lemma reconnects_run:
  "reconnects (foldl resilient_step s calls) = reconnects s + of_nat (reconnect_calls s calls)"
  by (induction calls arbitrary: s) (simp_all add: reconnects_step)

lemma fresh_transport_ok: "transport_ok network st (fresh_transport network endpoint st)"
  by (simp add: transport_ok_def transport_core_def settled_def fresh_transport_def counts_exact_def no_telemetry_def
      times_ordered_def List.map_filter_def)

lemma resilient_step_ok: "transport_ok nw st s \<Longrightarrow> transport_ok nw st (resilient_step s call)"
  by (cases call) (simp_all add: transport_keepsD keeps_connect keeps_network_changed keeps_reconnect keeps_close
      keeps_set_recovery keeps_open_stream keeps_accept_stream keeps_send_datagram keeps_receive_datagram)

interpretation resilient: invariant_machine resilient_step "fresh_transport network endpoint st" "transport_ok network st"
  for network endpoint st
  by unfold_locales (simp_all add: fresh_transport_ok resilient_step_ok)

lemma new_resilient:
  assumes "new_resilient_transport network endpoint st = Inr s0"
  shows "s0 = fresh_transport network endpoint st" "validate_quic_settings st = Inr ()"
  using assms by (auto simp: new_resilient_transport_def result_simps)

text \<open>A closed object makes no call of its interfaces.\<close>

definition closed_with :: "'c history \<Rightarrow> 'c resilient_transport \<Rightarrow> bool" where
  "closed_with h s \<longleftrightarrow> rt_state s = Closed \<and> rt_active s = None \<and> rt_history s = h"

lemma closed_event_time: "closed_with h s \<Longrightarrow> closed_with h (snd (rt_validate_event_time now s))"
  by (simp add: closed_with_def rt_validate_event_time_def)

lemma closed_after_event_time:
  assumes "\<And>s. closed_with h s \<Longrightarrow> closed_with h (snd (f s))" "closed_with h s"
  shows "closed_with h (snd (c_bind (rt_validate_event_time now) (\<lambda>_. f) s))"
  using closed_event_time [OF assms(2), of now] assms(1) by (auto simp: c_bind_def split: prod.split sum.split)

lemma closed_not_ready: "closed_with h s \<Longrightarrow> require_ready s = Inl (Logic_error ''transport is not ready'')"
  by (simp add: closed_with_def require_ready_def)

lemma closed_record_event: "closed_with h s \<Longrightarrow> closed_with h (record_event now reason s)"
  by (simp add: closed_with_def)

lemma closed_step: "closed_with h s \<Longrightarrow> closed_with h (resilient_step s call)"
proof (cases call)
  case (Rt_connect now)
  assume "closed_with h s"
  then show ?thesis
    unfolding Rt_connect resilient_step.simps rt_connect_def
    by (intro closed_after_event_time) (simp_all add: closed_with_def)
next
  case (Rt_network_changed e now)
  assume c: "closed_with h s"
  show ?thesis
    unfolding Rt_network_changed resilient_step.simps rt_network_changed_def c_bind_check
    using c by (auto split: sum.split intro!: closed_after_event_time simp: c_bind_check closed_not_ready)
next
  case (Rt_reconnect now)
  assume "closed_with h s"
  then show ?thesis
    unfolding Rt_reconnect resilient_step.simps rt_reconnect_def
    by (intro closed_after_event_time) (simp_all add: closed_with_def)
next
  case (Rt_close now)
  assume "closed_with h s"
  then show ?thesis
    unfolding Rt_close resilient_step.simps rt_close_def
    by (intro closed_after_event_time) (simp_all add: closed_with_def)
next
  case (Rt_set_recovery c)
  assume "closed_with h s"
  then show ?thesis
    by (auto simp: Rt_set_recovery set_recovery_cursor_def c_bind_check closed_with_def split: sum.split)
qed (simp_all add: rt_open_stream_def rt_accept_stream_def rt_send_datagram_def rt_receive_datagram_def c_bind_check
    closed_not_ready)

interpretation closed: invariant_machine resilient_step
  "(fresh_transport network endpoint st)\<lparr>rt_history := h, rt_state := Closed\<rparr>" "closed_with h"
  for network endpoint st h
  by unfold_locales (simp_all add: closed_step, simp add: closed_with_def fresh_transport_def)

lemma close_closes: "rt_close now s = (Inr u, s') \<Longrightarrow> closed_with (rt_history s) s'"
  by (auto simp: rt_close_def rt_validate_event_time_def c_bind_def closed_with_def split: if_split_asm)

text \<open>Connecting when QUIC does not answer.\<close>

lemma connect_without_quic:
  assumes "now \<noteq> 0" "case rt_last_event_at s of None \<Rightarrow> True | Some t \<Rightarrow> t \<le> now" "rt_state s = Disconnected"
    and "\<And>h. connected (nw_connect (rt_network s) h Quic (rt_endpoint s) (rt_settings s)) = None"
    and "\<And>h. connected (nw_connect (rt_network s) h Tls_tcp_udp_fallback (rt_endpoint s) (rt_settings s)) \<noteq> None"
    and "qs_enable_fallback (rt_settings s)"
  defines "s' \<equiv> snd (rt_connect now s)"
  shows "rt_consecutive_primary_failures s' = rt_consecutive_primary_failures s + 1"
    "rt_last_event_at s' = Some now" "rt_network s' = rt_network s"
    "rt_settings s' = rt_settings s \<and> rt_endpoint s' = rt_endpoint s"
    "qs_primary_failures_before_fallback (rt_settings s) \<le> rt_consecutive_primary_failures s + 1 \<Longrightarrow>
       rt_state s' = Ready \<and> rt_mode s' = Some Tls_tcp_udp_fallback"
    "\<not> qs_primary_failures_before_fallback (rt_settings s) \<le> rt_consecutive_primary_failures s + 1 \<Longrightarrow>
       rt_state s' = Disconnected"
proof -
  have time: "rt_validate_event_time now s = (Inr (), s\<lparr>rt_last_event_at := Some now\<rparr>)"
    using assms(1,2) by (auto simp: rt_validate_event_time_def split: option.split)
  define s2 where "s2 = record_event now ''connect_started'' (s\<lparr>rt_last_event_at := Some now, rt_state := Connecting\<rparr>)"
  define s3 where "s3 = snd (try_connect Quic now s2)"
  have s2: "rt_network s2 = rt_network s" "rt_settings s2 = rt_settings s" "rt_endpoint s2 = rt_endpoint s" "rt_last_event_at s2 = Some now"
      "rt_consecutive_primary_failures s2 = rt_consecutive_primary_failures s"
    by (simp_all add: s2_def)
  have "connected (connect_reply Quic s2) = None"
    using assms(4) by (simp add: connect_reply_def s2)
  then have q: "try_connect Quic now s2 = (Inr False, s3)" and s3: "rt_network s3 = rt_network s"
      "rt_settings s3 = rt_settings s" "rt_endpoint s3 = rt_endpoint s" "rt_last_event_at s3 = Some now" "rt_state s3 = Disconnected"
      "rt_consecutive_primary_failures s3 = rt_consecutive_primary_failures s + 1"
    by (simp_all add: s3_def try_quic_eq s2)
  obtain c where "connected (connect_reply Tls_tcp_udp_fallback s3) = Some c"
    using assms(5) [of "rt_history s3"] by (auto simp: connect_reply_def s3)
  then obtain s4 where f: "try_connect Tls_tcp_udp_fallback now s3 = (Inr True, s4)" and s4:
      "rt_network s4 = rt_network s" "rt_settings s4 = rt_settings s" "rt_endpoint s4 = rt_endpoint s" "rt_last_event_at s4 = Some now"
      "rt_state s4 = Ready" "rt_mode s4 = Some Tls_tcp_udp_fallback"
      "rt_consecutive_primary_failures s4 = rt_consecutive_primary_failures s + 1"
    by (simp add: try_fallback_eq s3)
  have eq: "s' = (if qs_primary_failures_before_fallback (rt_settings s) \<le> rt_consecutive_primary_failures s + 1
      then s4 else s3)"
    unfolding s'_def rt_connect_def using assms(3,6) by (simp add: c_bind_Inr [of "rt_validate_event_time now" s, OF time] s2_def [symmetric] s3
        c_bind_Inr [of "try_connect Quic now" s2, OF q] c_bind_Inr [of "try_connect Tls_tcp_udp_fallback now" s3, OF f])
  show "rt_consecutive_primary_failures s' = rt_consecutive_primary_failures s + 1"
    "rt_last_event_at s' = Some now" "rt_network s' = rt_network s"
    "rt_settings s' = rt_settings s \<and> rt_endpoint s' = rt_endpoint s"
    "qs_primary_failures_before_fallback (rt_settings s) \<le> rt_consecutive_primary_failures s + 1 \<Longrightarrow>
       rt_state s' = Ready \<and> rt_mode s' = Some Tls_tcp_udp_fallback"
    "\<not> qs_primary_failures_before_fallback (rt_settings s) \<le> rt_consecutive_primary_failures s + 1 \<Longrightarrow>
       rt_state s' = Disconnected"
    by (simp_all add: eq s3 s4)
qed

lemma connect_when_ready:
  "rt_state s = Ready \<Longrightarrow> rt_state (snd (rt_connect now s)) = Ready \<and> rt_mode (snd (rt_connect now s)) = rt_mode s"
  by (auto simp: rt_connect_def rt_validate_event_time_def c_bind_def)

definition only_fallback_answers :: "'c network \<Rightarrow> transport_endpoint \<Rightarrow> quic_settings \<Rightarrow> bool" where
  "only_fallback_answers network endpoint st \<longleftrightarrow>
     (\<forall>h. connected (nw_connect network h Quic endpoint st) = None \<and>
       connected (nw_connect network h Tls_tcp_udp_fallback endpoint st) \<noteq> None)"

lemma fallback_progress:
  fixes network :: "'c network"
  assumes "only_fallback_answers network endpoint st" "qs_enable_fallback st"
    and thr: "0 < qs_primary_failures_before_fallback st"
    and "sorted ts" "list_all (\<lambda>t. t \<noteq> 0) ts"
  shows "let s = foldl resilient_step (fresh_transport network endpoint st) (map Rt_connect ts) in if length ts < unat (qs_primary_failures_before_fallback st)
    then rt_state s = Disconnected \<and> rt_consecutive_primary_failures s = of_nat (length ts) \<and>
      rt_network s = network \<and> rt_settings s = st \<and> rt_endpoint s = endpoint \<and>
      rt_last_event_at s = (if ts = [] then None else Some (last ts))
    else rt_state s = Ready \<and> rt_mode s = Some Tls_tcp_udp_fallback"
  using assms(4,5) unfolding Let_def
proof (induction ts rule: rev_induct)
  case Nil
  have "0 < unat (qs_primary_failures_before_fallback st)"
    using thr by (simp add: word_less_nat_alt)
  then show ?case
    by (simp add: fresh_transport_def)
next
  case (snoc t ts)
  let ?n = "unat (qs_primary_failures_before_fallback st)"
  let ?s = "foldl resilient_step (fresh_transport network endpoint st) (map Rt_connect ts)"
  have IH: "if length ts < ?n
    then rt_state ?s = Disconnected \<and> rt_consecutive_primary_failures ?s = of_nat (length ts) \<and>
      rt_network ?s = network \<and> rt_settings ?s = st \<and> rt_endpoint ?s = endpoint \<and>
      rt_last_event_at ?s = (if ts = [] then None else Some (last ts))
    else rt_state ?s = Ready \<and> rt_mode ?s = Some Tls_tcp_udp_fallback"
    using snoc by (simp add: sorted_append)
  show ?case
  proof (cases "length ts < ?n")
    case False
    then show ?thesis
      using IH connect_when_ready [of ?s t] by simp
  next
    case True
    have t: "t \<noteq> 0" "case rt_last_event_at ?s of None \<Rightarrow> True | Some t' \<Rightarrow> t' \<le> t"
      using snoc.prems IH True by (auto simp: sorted_append list_all_iff)
    have "unat (of_nat (length ts) + 1 :: u64) = Suc (length ts)"
    proof -
      have "Suc (length ts) < 2 ^ 64"
        using True unsigned_less [of "qs_primary_failures_before_fallback st", where 'a = nat] by simp
      then show ?thesis
        using unat_le_of_nat_bound [of "Suc (length ts)", where 'a = 64]
        by (simp only: of_nat_Suc add.commute [of 1]) simp
    qed
    then have reach: "qs_primary_failures_before_fallback st \<le> of_nat (length ts) + 1 \<longleftrightarrow> ?n \<le> Suc (length ts)"
      by (simp add: word_le_nat_alt)
    have s: "rt_state ?s = Disconnected" "rt_network ?s = network" "rt_settings ?s = st"
      "rt_endpoint ?s = endpoint" "rt_consecutive_primary_failures ?s = of_nat (length ts)"
      using IH True by simp_all
    have quic: "connected (nw_connect (rt_network ?s) h Quic (rt_endpoint ?s) (rt_settings ?s)) = None"
      and fallback: "connected (nw_connect (rt_network ?s) h Tls_tcp_udp_fallback (rt_endpoint ?s) (rt_settings ?s)) \<noteq> None"
      and enabled: "qs_enable_fallback (rt_settings ?s)" for h
      using assms(1,2) s by (simp_all add: only_fallback_answers_def)
    note facts = connect_without_quic [OF t s(1) quic fallback enabled]
    have run: "foldl resilient_step (fresh_transport network endpoint st) (map Rt_connect (ts @ [t])) =
        snd (rt_connect t ?s)"
      by simp
    show ?thesis
    proof (cases "?n \<le> Suc (length ts)")
      case True
      then show ?thesis
        unfolding run using facts(5) reach s by simp
    next
      case False
      then show ?thesis
        unfolding run using facts(1-4,6) reach s by (simp add: add.commute)
    qed
  qed
qed

definition sample_endpoint :: transport_endpoint where
  "sample_endpoint = \<lparr>te_host = ''node-1.lan'', te_port = 4433, te_path = Path_lan\<rparr>"

text \<open>A network on which QUIC is refused and the fallback connects; connections are units.\<close>

definition sample_network :: "unit network" where
  "sample_network = \<lparr>nw_connect = (\<lambda>h mode e st. if mode = Quic then Inl (Runtime_error ''refused'') else Inr (Some ())),
     nw_migrate = (\<lambda>h c e. Inr False), nw_open_stream = (\<lambda>h c p. Inr True), nw_duplex = (\<lambda>c. True),
     nw_accept_stream = (\<lambda>h c t. Inr (Sp_control, True)), nw_send_datagram = (\<lambda>h c ch d. Inr ()),
     nw_receive_datagram = (\<lambda>h c t. Inr (Dc_video, [1]))\<rparr>"

lemma sample_transport_new:
  "new_resilient_transport sample_network sample_endpoint default_quic_settings =
     Inr (fresh_transport sample_network sample_endpoint default_quic_settings)"
  by (simp add: new_resilient_transport_def validate_transport_endpoint_def validate_quic_settings_def
      sample_endpoint_def default_quic_settings_def is_alnum_def is_digit_def)

lemma sample_network_answers: "only_fallback_answers sample_network endpoint st"
  by (simp add: only_fallback_answers_def sample_network_def connected_def)

section \<open>Properties\<close>

text \<open>C28. Whatever the network answers, the transport asks for the fallback connection (TLS over TCP with UDP) only when the
  settings enable it and at least as many QUIC attempts as they demand have failed since the last that
  succeeded; the attempt before it was such a failure.\<close>

theorem fallback_only_after_failures:
  assumes "new_resilient_transport network endpoint st = Inr s0"
    and "rt_history (foldl resilient_step s0 calls) = pre @ Connected Tls_tcp_udp_fallback e r # post"
  shows "qs_enable_fallback st \<and> 1 \<le> quic_streak pre \<and>
    unat (qs_primary_failures_before_fallback st) \<le> quic_streak pre"
proof -
  note new = new_resilient [OF assms(1)]
  have "transport_ok network st (foldl resilient_step s0 calls)"
    unfolding new(1) by (rule resilient.run_inv)
  then have "fallback_justified st (rt_history (foldl resilient_step s0 calls))"
    by (auto simp: transport_ok_def transport_core_def)
  then have "qs_enable_fallback st \<and> unat (qs_primary_failures_before_fallback st) \<le> quic_streak pre"
    using assms(2) by (auto simp: fallback_justified_def)
  moreover have "0 < unat (qs_primary_failures_before_fallback st)"
    using new(2) by (simp add: validate_quic_settings_def throw_if_def unat_gt_0 split: if_split_asm)
  ultimately show ?thesis
    by simp
qed

theorem fallback_only_after_failures_witness:
  "\<exists>pre r. rt_history (foldl resilient_step
      (fresh_transport sample_network sample_endpoint default_quic_settings) [Rt_connect 1, Rt_connect 2]) =
      pre @ [Connected Tls_tcp_udp_fallback sample_endpoint r] \<and> 2 \<le> quic_streak pre"
proof -
  let ?s = "foldl resilient_step (fresh_transport sample_network sample_endpoint default_quic_settings)
    [Rt_connect 1, Rt_connect 2]"
  let ?refused = "Connected Quic sample_endpoint (Inl (Runtime_error ''refused'')) :: unit outcome"
  have "rt_history ?s = [?refused, ?refused] @ Connected Tls_tcp_udp_fallback sample_endpoint (Inr (Some ())) # []"
    by (simp add: fresh_transport_def rt_connect_def rt_validate_event_time_def c_bind_def try_quic_eq
        try_fallback_eq connect_reply_def connected_def sample_network_def default_quic_settings_def word_le_nat_alt)
  from fallback_only_after_failures [OF sample_transport_new this] this show ?thesis
    by (auto simp: default_quic_settings_def)
qed

text \<open>When QUIC never answers at the endpoint and the fallback always does, connecting again and again reaches the
  fallback: the calls before the number of failures that the settings demand leave the transport
  disconnected, and from that number on it is ready over the fallback.\<close>

theorem fallback_reached:
  assumes "new_resilient_transport network endpoint st = Inr s0"
    and "only_fallback_answers network endpoint st" "qs_enable_fallback st"
    and "sorted ts" "list_all (\<lambda>t. t \<noteq> 0) ts"
  shows "let s = foldl resilient_step s0 (map Rt_connect ts) in
    if length ts < unat (qs_primary_failures_before_fallback st) then rt_state s = Disconnected
    else rt_state s = Ready \<and> rt_mode s = Some Tls_tcp_udp_fallback"
proof -
  note new = new_resilient [OF assms(1)]
  have "0 < qs_primary_failures_before_fallback st"
    using new(2) by (simp add: validate_quic_settings_def throw_if_def word_neq_0_conv split: if_split_asm)
  from fallback_progress [OF assms(2,3) this assms(4,5)] show ?thesis
    by (simp add: new(1) Let_def split: if_split_asm)
qed

theorem fallback_reached_witness:
  "rt_state (foldl resilient_step (fresh_transport sample_network sample_endpoint default_quic_settings)
     (map Rt_connect [1, 2])) = Ready"
  using fallback_reached [OF sample_transport_new sample_network_answers, of "[1, 2]"]
  by (simp add: default_quic_settings_def Let_def)

text \<open>C35. Between calls the transport is disconnected, ready or closed, it is ready exactly when it owns a
  connection, this is the one the last connection attempt made and the mode is that attempt's, the times
  of its events do not decrease, and each counter of its telemetry is exact, as a 64-bit word: the reconnects are the
  calls that gave up a connection to make a new one, every other counter is the number of such outcomes in the history.\<close>

theorem transport_state_consistent:
  assumes "new_resilient_transport network endpoint st = Inr s0"
    and "s = foldl resilient_step s0 calls"
  shows "rt_state s \<in> {Disconnected, Ready, Closed} \<and> (rt_state s = Ready \<longleftrightarrow> rt_active s \<noteq> None) \<and>
    (case rt_active s of None \<Rightarrow> rt_mode s = None
       | Some c \<Rightarrow> (\<exists>m. rt_mode s = Some m \<and> last_connection (rt_history s) = Some (m, c))) \<and>
    sorted (map ev_occurred_at (rt_events s)) \<and> counts_exact st (rt_history s) (rt_telemetry s) \<and>
    tt_reconnects (rt_telemetry s) = of_nat (reconnect_calls s0 calls)"
proof -
  have "transport_ok network st s"
    unfolding assms(2) new_resilient(1) [OF assms(1)] by (rule resilient.run_inv)
  moreover have "reconnects s = of_nat (reconnect_calls s0 calls)"
    unfolding assms(2) reconnects_run by (simp add: new_resilient(1) [OF assms(1)] fresh_transport_def no_telemetry_def)
  ultimately show ?thesis
    by (cases "rt_state s"; cases "rt_active s"; cases "rt_mode s")
      (auto simp: transport_ok_def transport_core_def settled_def times_ordered_def)
qed

theorem transport_state_consistent_witness:
  "rt_active (foldl resilient_step (fresh_transport sample_network sample_endpoint default_quic_settings)
     [Rt_connect 1, Rt_connect 2, Rt_close 3]) = None"
proof -
  let ?s = "foldl resilient_step (fresh_transport sample_network sample_endpoint default_quic_settings)
     [Rt_connect 1, Rt_connect 2, Rt_close 3]"
  have "rt_state ?s \<noteq> Ready"
    by (simp add: fresh_transport_def rt_connect_def rt_close_def rt_validate_event_time_def c_bind_def try_quic_eq
        try_fallback_eq connect_reply_def connected_def sample_network_def default_quic_settings_def word_le_nat_alt)
  moreover have "(rt_state ?s = Ready) = (rt_active ?s \<noteq> None)"
    using transport_state_consistent [OF sample_transport_new refl] by blast
  ultimately show ?thesis
    by blast
qed

text \<open>Closing is final: once \<open>close\<close> has returned, the transport stays closed without a connection and
  asks its connector and its connections nothing more, whatever is called.\<close>

theorem closed_transport_stays_closed:
  assumes "rt_close now s = (Inr u, s')"
  shows "rt_state (foldl resilient_step s' calls) = Closed \<and> rt_active (foldl resilient_step s' calls) = None \<and>
    rt_history (foldl resilient_step s' calls) = rt_history s"
proof -
  have "closed_with (rt_history s) (foldl resilient_step s' calls)"
    using closed.foldl_inv close_closes [OF assms] by blast
  then show ?thesis
    by (simp add: closed_with_def)
qed

theorem closed_transport_stays_closed_witness:
  "let s = snd (rt_close 1 (fresh_transport sample_network sample_endpoint default_quic_settings))
   in rt_history (foldl resilient_step s [Rt_connect 2, Rt_reconnect 3, Rt_open_stream Sp_input]) = []"
proof -
  let ?s = "fresh_transport sample_network sample_endpoint default_quic_settings"
  have "rt_close 1 ?s = (Inr (), snd (rt_close 1 ?s))"
    by (simp add: fresh_transport_def rt_close_def rt_validate_event_time_def c_bind_def)
  from closed_transport_stays_closed [OF this, of "[Rt_connect 2, Rt_reconnect 3, Rt_open_stream Sp_input]"]
  show ?thesis
    by (simp add: Let_def) (simp add: fresh_transport_def)
qed

end
