(* ===== verification/Encrypted_Fallback.thy ===== *)
theory Encrypted_Fallback
  imports Resilient_Transport Channel_Session
begin

text \<open>
  \<open>transport/src/encrypted_fallback.cpp\<close>: the transport that pairs a reliable TLS plane with a DTLS datagram
  plane of the same peer, the connector that makes it, and the connector that routes between it and the
  primary one. The provider of the planes is an interface; the planes are values of type parameters, and
  what they answer may depend on a history.
\<close>

datatype plane_protocol = Tls13 | Dtls12

record plane_evidence =
  pl_protocol :: plane_protocol
  pl_peer_certificate_sha256 :: "u8 list"
  pl_channel_binding :: "u8 list"
  pl_chain_validated :: bool
  pl_revocation_checked :: bool

definition validate_plane_evidence :: "plane_evidence \<Rightarrow> plane_protocol \<Rightarrow> unit result" where
  "validate_plane_evidence evidence expected = throw_if
     (pl_protocol evidence \<noteq> expected \<or> \<not> pl_chain_validated evidence \<or> \<not> pl_revocation_checked evidence \<or>
      all_zero (pl_peer_certificate_sha256 evidence) \<or> all_zero (pl_channel_binding evidence))
     (Invalid_argument ''encrypted fallback plane evidence is invalid'')"

definition validate_wait :: "int \<Rightarrow> unit result" where
  "validate_wait timeout = throw_if (timeout < 1 \<or> timeout > 300000)
     (Invalid_argument ''fallback receive timeout is invalid'')"

text \<open>The provider, the reliable planes \<open>'r\<close> and the datagram planes \<open>'d\<close>. The channel of a received datagram
  is any byte until it is checked.\<close>

record ('h, 'r, 'd) fallback_provider =
  pv_connect_tls13 :: "'h \<Rightarrow> transport_endpoint \<Rightarrow> quic_settings \<Rightarrow> 'r option result"
  pv_connect_dtls12 :: "'h \<Rightarrow> transport_endpoint \<Rightarrow> quic_settings \<Rightarrow> 'd option result"
  pv_reliable_evidence :: "'r \<Rightarrow> plane_evidence"
  pv_datagram_evidence :: "'d \<Rightarrow> plane_evidence"
  pv_open_stream :: "'h \<Rightarrow> 'r \<Rightarrow> stream_purpose \<Rightarrow> bool result"
  pv_accept_stream :: "'h \<Rightarrow> 'r \<Rightarrow> int \<Rightarrow> (stream_purpose \<times> bool) result"
  pv_send_datagram :: "'h \<Rightarrow> 'd \<Rightarrow> datagram_channel \<Rightarrow> byte list \<Rightarrow> unit result"
  pv_receive_datagram :: "'h \<Rightarrow> 'd \<Rightarrow> int \<Rightarrow> (u8 \<times> byte list) result"

record ('r, 'd) fallback_transport =
  ft_reliable :: 'r
  ft_datagrams :: 'd
  ft_maximum_datagram_bytes :: u64

definition new_fallback_transport ::
  "('h, 'r, 'd) fallback_provider \<Rightarrow> 'r option \<Rightarrow> 'd option \<Rightarrow> u64 \<Rightarrow> ('r, 'd) fallback_transport result" where
  "new_fallback_transport pv reliable datagrams maximum = (case (reliable, datagrams) of
     (Some r, Some d) \<Rightarrow>
       if maximum < 256 \<or> maximum > 64 * 1024
       then throw (Invalid_argument ''encrypted fallback options are invalid'')
       else
         let re = pv_reliable_evidence pv r; de = pv_datagram_evidence pv d
         in and_then (validate_plane_evidence re Tls13) (\<lambda>_. and_then (validate_plane_evidence de Dtls12) (\<lambda>_.
              if pl_peer_certificate_sha256 re \<noteq> pl_peer_certificate_sha256 de \<or>
                 pl_channel_binding re \<noteq> pl_channel_binding de
              then throw (Invalid_argument ''fallback TLS and DTLS planes are not peer bound'')
              else ok \<lparr>ft_reliable = r, ft_datagrams = d, ft_maximum_datagram_bytes = maximum\<rparr>))
   | _ \<Rightarrow> throw (Invalid_argument ''encrypted fallback options are invalid''))"

definition fallback_open_stream ::
  "('h, 'r, 'd) fallback_provider \<Rightarrow> 'h \<Rightarrow> ('r, 'd) fallback_transport \<Rightarrow> stream_purpose \<Rightarrow> bool result" where
  "fallback_open_stream pv h t purpose = and_then (pv_open_stream pv h (ft_reliable t) purpose) (\<lambda>stream.
     if \<not> stream then throw (Runtime_error ''fallback returned a null stream'') else ok True)"

definition fallback_accept_stream ::
  "('h, 'r, 'd) fallback_provider \<Rightarrow> 'h \<Rightarrow> ('r, 'd) fallback_transport \<Rightarrow> int \<Rightarrow> (stream_purpose \<times> bool) result" where
  "fallback_accept_stream pv h t timeout = and_then (validate_wait timeout) (\<lambda>_.
     and_then (pv_accept_stream pv h (ft_reliable t) timeout) (\<lambda>(purpose, stream).
     if \<not> stream then throw (Runtime_error ''fallback accepted a null stream'') else ok (purpose, stream)))"

definition fallback_send_datagram ::
  "('h, 'r, 'd) fallback_provider \<Rightarrow> 'h \<Rightarrow> ('r, 'd) fallback_transport \<Rightarrow> datagram_channel \<Rightarrow> byte list \<Rightarrow> unit result" where
  "fallback_send_datagram pv h t channel d =
     (if d = [] \<or> length d > unat (ft_maximum_datagram_bytes t)
      then throw (Length_error ''fallback datagram is outside bounds'')
      else pv_send_datagram pv h (ft_datagrams t) channel d)"

definition fallback_receive_datagram ::
  "('h, 'r, 'd) fallback_provider \<Rightarrow> 'h \<Rightarrow> ('r, 'd) fallback_transport \<Rightarrow> int \<Rightarrow> (datagram_channel \<times> byte list) result" where
  "fallback_receive_datagram pv h t timeout = and_then (validate_wait timeout) (\<lambda>_.
     and_then (pv_receive_datagram pv h (ft_datagrams t) timeout) (\<lambda>(channel, d).
     if d = [] \<or> length d > unat (ft_maximum_datagram_bytes t) \<or> channel > 2
     then throw (Runtime_error ''fallback received an invalid datagram'')
     else ok (if channel = 0 then Dc_video else if channel = 1 then Dc_audio else Dc_pointer, d)))"

definition fallback_connect ::
  "('h, 'r, 'd) fallback_provider \<Rightarrow> 'h \<Rightarrow> transport_mode \<Rightarrow> transport_endpoint \<Rightarrow> quic_settings \<Rightarrow>
     ('r, 'd) fallback_transport option result" where
  "fallback_connect pv h mode endpoint settings =
     (if mode \<noteq> Tls_tcp_udp_fallback \<or> \<not> qs_enable_fallback settings \<or> \<not> qs_require_tls13 settings
      then throw (Invalid_argument ''encrypted fallback connector mode is invalid'')
      else and_then (validate_transport_endpoint endpoint) (\<lambda>_.
        and_then (validate_quic_settings settings) (\<lambda>_.
        and_then (pv_connect_tls13 pv h endpoint settings) (\<lambda>reliable.
        and_then (pv_connect_dtls12 pv h endpoint settings) (\<lambda>datagrams.
        and_then (new_fallback_transport pv reliable datagrams (qs_maximum_datagram_bytes settings)) (\<lambda>t.
        ok (Some t)))))))"

definition fallback_migrate :: "('r, 'd) fallback_transport \<Rightarrow> transport_endpoint \<Rightarrow> bool result" where
  "fallback_migrate t endpoint = ok False"

text \<open>
  The two connectors behind one, over connections that are primary ones or fallback transports:
  \<open>dynamic_cast\<close> and the virtual calls of a connection look at which it is.
\<close>

type_synonym ('p, 'r, 'd) routed = "'p + ('r, 'd) fallback_transport"

definition routed_connect ::
  "('p, 'r, 'd) routed network \<Rightarrow> (('p, 'r, 'd) routed history, 'r, 'd) fallback_provider \<Rightarrow>
     ('p, 'r, 'd) routed history \<Rightarrow> transport_mode \<Rightarrow> transport_endpoint \<Rightarrow> quic_settings \<Rightarrow>
     ('p, 'r, 'd) routed option result" where
  "routed_connect primary pv h mode endpoint settings =
     (if mode = Quic then nw_connect primary h mode endpoint settings
      else and_then (fallback_connect pv h mode endpoint settings) (\<lambda>t. ok (map_option Inr t)))"

definition routed_migrate ::
  "('p, 'r, 'd) routed network \<Rightarrow> ('p, 'r, 'd) routed history \<Rightarrow> ('p, 'r, 'd) routed \<Rightarrow> transport_endpoint \<Rightarrow> bool result" where
  "routed_migrate primary h c endpoint = (case c of
     Inr t \<Rightarrow> fallback_migrate t endpoint | Inl _ \<Rightarrow> nw_migrate primary h c endpoint)"

definition routed_network ::
  "('p, 'r, 'd) routed network \<Rightarrow> (('p, 'r, 'd) routed history, 'r, 'd) fallback_provider \<Rightarrow> ('p, 'r, 'd) routed network" where
  "routed_network primary pv = \<lparr>nw_connect = routed_connect primary pv, nw_migrate = routed_migrate primary,
     nw_open_stream = (\<lambda>h c p. case c of Inr t \<Rightarrow> fallback_open_stream pv h t p | Inl _ \<Rightarrow> nw_open_stream primary h c p),
     nw_duplex = (\<lambda>c. case c of Inr _ \<Rightarrow> True | Inl _ \<Rightarrow> nw_duplex primary c),
     nw_accept_stream = (\<lambda>h c i. case c of Inr t \<Rightarrow> fallback_accept_stream pv h t i | Inl _ \<Rightarrow> nw_accept_stream primary h c i),
     nw_send_datagram = (\<lambda>h c ch d. case c of Inr t \<Rightarrow> fallback_send_datagram pv h t ch d
       | Inl _ \<Rightarrow> nw_send_datagram primary h c ch d),
     nw_receive_datagram = (\<lambda>h c i. case c of Inr t \<Rightarrow> fallback_receive_datagram pv h t i
       | Inl _ \<Rightarrow> nw_receive_datagram primary h c i)\<rparr>"

section \<open>What a fallback transport is bound to\<close>

definition bound_planes :: "('h, 'r, 'd) fallback_provider \<Rightarrow> ('r, 'd) fallback_transport \<Rightarrow> bool" where
  "bound_planes pv t \<longleftrightarrow>
     (let re = pv_reliable_evidence pv (ft_reliable t); de = pv_datagram_evidence pv (ft_datagrams t)
      in pl_protocol re = Tls13 \<and> pl_protocol de = Dtls12 \<and>
         pl_chain_validated re \<and> pl_chain_validated de \<and> pl_revocation_checked re \<and> pl_revocation_checked de \<and>
         pl_peer_certificate_sha256 re = pl_peer_certificate_sha256 de \<and>
         pl_channel_binding re = pl_channel_binding de \<and>
         \<not> all_zero (pl_peer_certificate_sha256 re) \<and> \<not> all_zero (pl_channel_binding re))"

lemma new_fallback_bound:
  "new_fallback_transport pv r d maximum = Inr t \<Longrightarrow> bound_planes pv t \<and> ft_maximum_datagram_bytes t = maximum"
  by (auto simp: new_fallback_transport_def Let_def result_simps validate_plane_evidence_def throw_if_def
      bound_planes_def split: option.splits if_split_asm)

lemma fallback_connect_bound:
  "fallback_connect pv h mode e st = Inr (Some t) \<Longrightarrow>
     bound_planes pv t \<and> ft_maximum_datagram_bytes t = qs_maximum_datagram_bytes st"
  by (auto simp: fallback_connect_def result_simps dest: new_fallback_bound split: if_split_asm)

lemma routed_fallback_bound:
  assumes "connected_by (routed_network primary pv) st Tls_tcp_udp_fallback c"
  shows "\<exists>t. c = Inr t \<and> bound_planes pv t \<and> ft_maximum_datagram_bytes t = qs_maximum_datagram_bytes st"
proof -
  obtain h e where "connected (routed_connect primary pv h Tls_tcp_udp_fallback e st) = Some c"
    using assms by (auto simp: connected_by_def routed_network_def)
  then obtain t where t: "fallback_connect pv h Tls_tcp_udp_fallback e st = Inr (Some t)" and c: "c = Inr t"
    by (auto simp: connected_def routed_connect_def and_then_def split: sum.splits)
  from fallback_connect_bound [OF t] show ?thesis
    by (simp add: c)
qed

text \<open>A provider of planes with complete evidence for one peer, and a primary network that never connects.\<close>

definition sample_plane :: "plane_protocol \<Rightarrow> plane_evidence" where
  "sample_plane protocol = \<lparr>pl_protocol = protocol, pl_peer_certificate_sha256 = replicate 32 7,
     pl_channel_binding = replicate 32 3, pl_chain_validated = True, pl_revocation_checked = True\<rparr>"

definition sample_provider :: "((unit, unit, unit) routed history, unit, unit) fallback_provider" where
  "sample_provider = \<lparr>pv_connect_tls13 = (\<lambda>h e st. Inr (Some ())), pv_connect_dtls12 = (\<lambda>h e st. Inr (Some ())),
     pv_reliable_evidence = (\<lambda>r. sample_plane Tls13), pv_datagram_evidence = (\<lambda>d. sample_plane Dtls12),
     pv_open_stream = (\<lambda>h r p. Inr True), pv_accept_stream = (\<lambda>h r i. Inr (Sp_control, True)),
     pv_send_datagram = (\<lambda>h d ch bs. Inr ()), pv_receive_datagram = (\<lambda>h d i. Inr (0, [1]))\<rparr>"

definition sample_primary :: "(unit, unit, unit) routed network" where
  "sample_primary = \<lparr>nw_connect = (\<lambda>h m e st. Inr None), nw_migrate = (\<lambda>h c e. Inr False),
     nw_open_stream = (\<lambda>h c p. Inr True), nw_duplex = (\<lambda>c. True),
     nw_accept_stream = (\<lambda>h c t. Inr (Sp_control, True)), nw_send_datagram = (\<lambda>h c ch d. Inr ()),
     nw_receive_datagram = (\<lambda>h c t. Inr (Dc_video, [1]))\<rparr>"

definition sample_routed :: "(unit, unit, unit) routed network" where
  "sample_routed = routed_network sample_primary sample_provider"

lemma sample_routed_new:
  "new_resilient_transport sample_routed sample_endpoint default_quic_settings =
     Inr (fresh_transport sample_routed sample_endpoint default_quic_settings)"
  by (simp add: new_resilient_transport_def validate_transport_endpoint_def validate_quic_settings_def
      sample_endpoint_def default_quic_settings_def is_alnum_def is_digit_def)

lemma sample_routed_fallback:
  "connected (nw_connect sample_routed h Tls_tcp_udp_fallback sample_endpoint default_quic_settings) \<noteq> None"
proof -
  have "validate_transport_endpoint sample_endpoint = Inr ()" "validate_quic_settings default_quic_settings = Inr ()"
    using sample_routed_new by (auto simp: new_resilient_transport_def result_simps)
  moreover have "new_fallback_transport (sample_provider :: ((unit, unit, unit) routed history, unit, unit) fallback_provider)
      (Some ()) (Some ()) 1400 = Inr \<lparr>ft_reliable = (), ft_datagrams = (), ft_maximum_datagram_bytes = 1400\<rparr>"
    by (simp add: new_fallback_transport_def sample_provider_def sample_plane_def validate_plane_evidence_def
        all_zero_def list_all_iff Let_def)
  moreover have "pv_connect_tls13 sample_provider h e st = Inr (Some ())"
    "pv_connect_dtls12 sample_provider h e st = Inr (Some ())" for h :: "(unit, unit, unit) routed history" and e st
    by (simp_all add: sample_provider_def)
  ultimately show ?thesis
    by (simp add: sample_routed_def routed_network_def routed_connect_def fallback_connect_def connected_def)
      (simp add: default_quic_settings_def)
qed

section \<open>Properties\<close>

text \<open>C27. The resilient transport over the routed connector: whenever it runs over the fallback, whatever the
  networks and the provider answered, its connection is a fallback transport whose TLS 1.3 and DTLS 1.2
  planes were both validated, with the chain and the revocation checked, and belong to the same
  peer and the same channel binding, neither of them zero; its datagrams have the bound of the settings.\<close>

theorem fallback_planes_bound:
  assumes "new_resilient_transport (routed_network primary pv) endpoint st = Inr s0"
    and "rt_mode (foldl resilient_step s0 calls) = Some Tls_tcp_udp_fallback"
  shows "\<exists>t. rt_active (foldl resilient_step s0 calls) = Some (Inr t) \<and> bound_planes pv t \<and>
    ft_maximum_datagram_bytes t = qs_maximum_datagram_bytes st"
proof -
  let ?s = "foldl resilient_step s0 calls"
  have ok: "transport_ok (routed_network primary pv) st ?s"
    unfolding new_resilient(1) [OF assms(1)] by (rule resilient.run_inv)
  then obtain c where "rt_active ?s = Some c"
      and "connected_by (routed_network primary pv) st Tls_tcp_udp_fallback c"
    using assms(2) by (auto simp: transport_ok_def transport_core_def)
  then show ?thesis
    using routed_fallback_bound [of primary pv st c] by auto
qed

theorem fallback_planes_bound_witness:
  "\<exists>t. rt_active (foldl resilient_step (fresh_transport sample_routed sample_endpoint default_quic_settings)
     [Rt_connect 1, Rt_connect 2]) = Some (Inr t) \<and> bound_planes sample_provider t"
proof -
  have quic: "nw_connect sample_routed h Quic e st = Inr None" for h e st
    by (simp add: sample_routed_def routed_network_def routed_connect_def sample_primary_def)
  then have "only_fallback_answers sample_routed sample_endpoint default_quic_settings"
    using sample_routed_fallback by (simp add: only_fallback_answers_def connected_def)
  from fallback_progress [OF this, of "[1, 2]"]
  have "rt_mode (foldl resilient_step (fresh_transport sample_routed sample_endpoint default_quic_settings)
    [Rt_connect 1, Rt_connect 2]) = Some Tls_tcp_udp_fallback"
    by (simp add: default_quic_settings_def Let_def)
  from fallback_planes_bound [OF sample_routed_new [unfolded sample_routed_def] this [unfolded sample_routed_def]]
  show ?thesis
    by (auto simp: sample_routed_def)
qed

end
