(* ===== verification/Build_Queue.thy ===== *)
theory Build_Queue
  imports Audit_Log Content_Hash
begin

text \<open>
  \<open>core/src/build.cpp\<close>: the commands, builds and artifacts, the queue of builds with its life cycle, the runner,
  and the canonical form whose digest names the evidence of a build. An \<open>int\<close> is a 32-bit word and a count
  of a chrono duration a 64-bit word, both read with \<open>sint\<close>; a map that is iterated is the sorted list of its
  entries. The executor and the cancellation token are parameters.
\<close>

section \<open>Data\<close>

record command_spec =
  cs_argv :: "string list"
  cs_working_directory :: string
  cs_timeout :: u64
  cs_environment :: "(string \<times> string) list"

record build_request =
  bq_id :: string
  bq_workspace_id :: string
  bq_pinned_revision :: u64
  bq_profile :: string
  bq_command :: command_spec

datatype build_state = Build_queued | Build_running | Build_cancelled | Build_succeeded | Build_failed

record build_evidence =
  be_exit_code :: u32
  be_stdout_log :: string
  be_stderr_log :: string
  be_elapsed :: u64
  be_timed_out :: bool
  be_cancelled :: bool
  be_stdout_truncated :: bool
  be_stderr_truncated :: bool

record artifact =
  art_id :: string
  art_workspace_id :: string
  art_build_id :: string
  art_source_revision :: u64
  art_name :: string
  art_sha256 :: string
  art_size :: u64
  art_platform :: string
  art_architecture :: string
  art_created_at :: time_point

section \<open>Validation\<close>

definition valid_id :: "string \<Rightarrow> bool" where
  "valid_id value \<longleftrightarrow> value \<noteq> [] \<and> length value \<le> 64 \<and>
     list_all (\<lambda>c. is_alnum c \<or> c = CHR ''-'' \<or> c = CHR ''_'') value"

definition is_alpha :: "char \<Rightarrow> bool" where
  "is_alpha c \<longleftrightarrow> is_alnum c \<and> \<not> is_digit c"

definition valid_environment_name :: "string \<Rightarrow> bool" where
  "valid_environment_name value \<longleftrightarrow>
     (if value = [] \<or> length value > 128 \<or> \<not> (is_alpha (hd value) \<or> hd value = CHR ''_'') then False
      else list_all (\<lambda>c. is_alnum c \<or> c = CHR ''_'') (tl value))"

definition validate_command :: "command_spec \<Rightarrow> string set \<Rightarrow> unit result" where
  "validate_command command allowlist =
     (if cs_argv command = [] \<or> hd (cs_argv command) = [] \<or> cs_working_directory command = [] \<or>
         CHR 0x00 \<in> set (cs_working_directory command) \<or> sint (cs_timeout command) \<le> 0
      then throw (Invalid_argument ''invalid command specification'')
      else if list_ex (\<lambda>arg. CHR 0x00 \<in> set arg) (cs_argv command)
      then throw (Invalid_argument ''command argument contains NUL'')
      else throw_if (list_ex (\<lambda>(name, val). \<not> valid_environment_name name \<or> CHR 0x00 \<in> set val \<or>
          name \<notin> allowlist) (cs_environment command))
        (Invalid_argument ''environment variable is invalid or not allowlisted''))"

text \<open>\<open>find_first_of\<close> gets a C string, which ends before the NUL it is written with; the second test refuses NUL.\<close>

definition safe_name :: "string \<Rightarrow> bool" where
  "safe_name name \<longleftrightarrow> name \<noteq> [] \<and> name \<noteq> ''.'' \<and> name \<noteq> ''..'' \<and> length name \<le> 255 \<and>
     \<not> list_ex (\<lambda>c. c \<in> set [CHR ''/'', CHR 0x5C, CHR ''='', CHR 0x0D, CHR 0x0A]) name \<and>
     \<not> list_ex (\<lambda>c. (of_char c :: nat) < 0x20 \<or> (of_char c :: nat) = 0x7f) name"

definition validate_artifact :: "artifact \<Rightarrow> unit result" where
  "validate_artifact a = throw_if
     (\<not> valid_id (art_id a) \<or> \<not> valid_id (art_workspace_id a) \<or> \<not> valid_id (art_build_id a) \<or>
      art_source_revision a = 0 \<or> \<not> safe_name (art_name a) \<or> \<not> is_sha256_hex (art_sha256 a) \<or> art_size a = 0 \<or>
      \<not> valid_id (art_platform a) \<or> \<not> valid_id (art_architecture a) \<or> art_created_at a = 0)
     (Invalid_argument ''invalid immutable artifact'')"

section \<open>The queue\<close>

record build_job =
  bj_request :: build_request
  bj_state :: build_state
  bj_evidence :: "build_evidence option"

type_synonym build_queue = "string \<rightharpoonup> build_job"

definition job_at :: "string \<Rightarrow> build_queue \<Rightarrow> build_job result" where
  "job_at bid q = (case q bid of None \<Rightarrow> throw (Out_of_range ''map::at'') | Some job \<Rightarrow> ok job)"

definition queue_submit :: "build_request \<Rightarrow> string set \<Rightarrow> build_queue \<Rightarrow> build_queue result" where
  "queue_submit request allowlist q =
     (if \<not> valid_id (bq_id request) \<or> \<not> valid_id (bq_workspace_id request) \<or> bq_pinned_revision request = 0 \<or>
         \<not> valid_id (bq_profile request)
      then throw (Invalid_argument ''invalid build request'')
      else and_then (validate_command (bq_command request) allowlist) (\<lambda>_.
        if q (bq_id request) \<noteq> None then throw (Invalid_argument ''duplicate build id'')
        else ok (q(bq_id request \<mapsto> \<lparr>bj_request = request, bj_state = Build_queued, bj_evidence = None\<rparr>))))"

definition queue_start :: "string \<Rightarrow> build_queue \<Rightarrow> build_queue result" where
  "queue_start bid q = and_then (job_at bid q) (\<lambda>job.
     if bj_state job \<noteq> Build_queued then throw (Logic_error ''build cannot start'')
     else ok (q(bid \<mapsto> job\<lparr>bj_state := Build_running\<rparr>)))"

definition queue_cancel :: "string \<Rightarrow> build_queue \<Rightarrow> build_queue result" where
  "queue_cancel bid q = and_then (job_at bid q) (\<lambda>job.
     if bj_state job \<noteq> Build_queued \<and> bj_state job \<noteq> Build_running
     then throw (Logic_error ''build cannot cancel'')
     else ok (q(bid \<mapsto> job\<lparr>bj_state := Build_cancelled\<rparr>)))"

definition finished_state :: "build_evidence \<Rightarrow> build_state" where
  "finished_state e =
     (if be_cancelled e then Build_cancelled
      else if be_exit_code e = 0 \<and> \<not> be_timed_out e then Build_succeeded else Build_failed)"

definition queue_finish :: "string \<Rightarrow> build_evidence \<Rightarrow> build_queue \<Rightarrow> build_queue result" where
  "queue_finish bid e q = and_then (job_at bid q) (\<lambda>job.
     if bj_state job \<noteq> Build_running \<or> sint (be_elapsed e) < 0
     then throw (Logic_error ''build cannot finish'')
     else ok (q(bid \<mapsto> job\<lparr>bj_state := finished_state e, bj_evidence := Some e\<rparr>)))"

definition queue_state :: "string \<Rightarrow> build_queue \<Rightarrow> build_state result" where
  "queue_state bid q = and_then (job_at bid q) (\<lambda>job. ok (bj_state job))"

definition queue_evidence :: "string \<Rightarrow> build_queue \<Rightarrow> build_evidence option result" where
  "queue_evidence bid q = and_then (job_at bid q) (\<lambda>job. ok (bj_evidence job))"

definition queue_request :: "string \<Rightarrow> build_queue \<Rightarrow> build_request result" where
  "queue_request bid q = and_then (job_at bid q) (\<lambda>job. ok (bj_request job))"

section \<open>The runner\<close>

text \<open>
  \<open>run\<close> executes the command between two calls of the queue, which others may use meanwhile: the queue after
  the execution is a parameter, as are what the executor gives, the text of its exception and whether a
  stop was requested. The first part of the result is the queue as \<open>run\<close> leaves it.
\<close>

definition runner_evidence :: "(string + build_evidence) \<Rightarrow> bool \<Rightarrow> build_evidence" where
  "runner_evidence executed stop_requested = (case executed of
     Inr e \<Rightarrow> e
   | Inl what \<Rightarrow> \<lparr>be_exit_code = -1, be_stdout_log = [], be_stderr_log = what, be_elapsed = 0,
       be_timed_out = False, be_cancelled = stop_requested, be_stdout_truncated = False,
       be_stderr_truncated = False\<rparr>)"

definition runner_run ::
  "(command_spec \<Rightarrow> string + build_evidence) \<Rightarrow> bool \<Rightarrow> (build_queue \<Rightarrow> build_queue) \<Rightarrow> string \<Rightarrow>
     (build_queue, build_evidence) call" where
  "runner_run execute stop_requested meanwhile bid q = (case queue_start bid q of
     Inl e \<Rightarrow> (throw e, q)
   | Inr q1 \<Rightarrow>
       let executed = (case queue_request bid q1 of Inl e \<Rightarrow> Inl [] | Inr r \<Rightarrow> execute (bq_command r));
           q2 = meanwhile q1;
           evidence = runner_evidence executed stop_requested
       in (case queue_finish bid evidence q2 of
             Inl e \<Rightarrow> (throw e, q2)
           | Inr q3 \<Rightarrow> (ok evidence, q3)))"

section \<open>The digest of the evidence\<close>

definition append_u64 :: "u64 \<Rightarrow> byte list" where
  "append_u64 value = map (\<lambda>shift. ucast (drop_bit shift value AND 0xff)) [56, 48, 40, 32, 24, 16, 8, 0]"

definition append_string :: "string \<Rightarrow> byte list" where
  "append_string value = append_u64 (of_nat (length value)) @ as_bytes value"

definition flag_byte :: "bool \<Rightarrow> byte" where
  "flag_byte b = (if b then 1 else 0)"

definition evidence_bytes :: "build_request \<Rightarrow> build_evidence \<Rightarrow> byte list" where
  "evidence_bytes r e =
     append_string ''rwn-build-evidence-v1'' @ append_string (bq_id r) @ append_string (bq_workspace_id r) @
     append_u64 (bq_pinned_revision r) @ append_string (bq_profile r) @
     append_u64 (of_nat (length (cs_argv (bq_command r)))) @ concat (map append_string (cs_argv (bq_command r))) @
     append_string (cs_working_directory (bq_command r)) @ append_u64 (cs_timeout (bq_command r)) @
     append_u64 (of_nat (length (cs_environment (bq_command r)))) @
     concat (map (\<lambda>(name, val). append_string name @ append_string val) (cs_environment (bq_command r))) @
     append_u64 (ucast (be_exit_code e)) @ append_u64 (be_elapsed e) @
     [flag_byte (be_timed_out e), flag_byte (be_cancelled e), flag_byte (be_stdout_truncated e),
      flag_byte (be_stderr_truncated e)] @
     append_string (be_stdout_log e) @ append_string (be_stderr_log e)"

definition build_evidence_sha256 :: "build_request \<Rightarrow> build_evidence \<Rightarrow> string result" where
  "build_evidence_sha256 r e =
     (if \<not> valid_id (bq_id r) \<or> \<not> valid_id (bq_workspace_id r) \<or> bq_pinned_revision r = 0 \<or>
         \<not> valid_id (bq_profile r) \<or> sint (be_elapsed e) < 0
      then throw (Invalid_argument ''build evidence identity is invalid'')
      else sha256_hex (evidence_bytes r e))"

section \<open>The canonical form is unambiguous\<close>

lemma append_u64_put: "append_u64 = put_u64"
  by (rule ext) (simp add: append_u64_def put_u64_def)

lemma append_u64_split: "append_u64 a @ x = append_u64 b @ y \<longleftrightarrow> a = b \<and> x = y"
  by (simp add: append_u64_put append_eq_append_conv)

lemma len64_word: "LENGTH(64) = 64"
  by simp

lemma of_nat_length_eq:
  "m < 2 ^ 64 \<Longrightarrow> n < 2 ^ 64 \<Longrightarrow> (of_nat m :: u64) = of_nat n \<longleftrightarrow> m = n"
  by (metis unat_le_of_nat_bound len64_word)

definition short :: "'a list \<Rightarrow> bool" where
  "short xs \<longleftrightarrow> length xs < 2 ^ 64"

lemma append_string_split:
  assumes "short s" "short t"
  shows "append_string s @ x = append_string t @ y \<longleftrightarrow> s = t \<and> x = y"
proof
  assume "append_string s @ x = append_string t @ y"
  then have "(of_nat (length s) :: u64) = of_nat (length t)" and rest: "as_bytes s @ x = as_bytes t @ y"
    by (simp_all add: append_string_def append_u64_split)
  then have "length s = length t"
    using assms of_nat_length_eq [of "length s" "length t"] by (simp add: short_def)
  then show "s = t \<and> x = y"
    using rest by (simp add: append_eq_append_conv)
qed simp

lemma append_string_inject: "short s \<Longrightarrow> short t \<Longrightarrow> append_string s = append_string t \<longleftrightarrow> s = t"
  using append_string_split [of s t "[]" "[]"] by simp

lemma append_strings_split:
  assumes "length ss = length ts" "list_all short ss" "list_all short ts"
  shows "concat (map append_string ss) @ x = concat (map append_string ts) @ y \<longleftrightarrow> ss = ts \<and> x = y"
  using assms by (induction ss ts rule: list_induct2) (auto simp: append_string_split)

lemma append_pairs_split:
  assumes "length es = length fs" "list_all (\<lambda>(a, b). short a \<and> short b) es" "list_all (\<lambda>(a, b). short a \<and> short b) fs"
  shows "concat (map (\<lambda>(name, val). append_string name @ append_string val) es) @ x =
    concat (map (\<lambda>(name, val). append_string name @ append_string val) fs) @ y \<longleftrightarrow> es = fs \<and> x = y"
  using assms by (induction es fs rule: list_induct2) (auto simp: append_string_split append_string_inject)

definition evidence_short :: "build_request \<Rightarrow> build_evidence \<Rightarrow> bool" where
  "evidence_short r e \<longleftrightarrow> short (bq_id r) \<and> short (bq_workspace_id r) \<and> short (bq_profile r) \<and>
     short (cs_argv (bq_command r)) \<and> list_all short (cs_argv (bq_command r)) \<and>
     short (cs_working_directory (bq_command r)) \<and> short (cs_environment (bq_command r)) \<and>
     list_all (\<lambda>(name, val). short name \<and> short val) (cs_environment (bq_command r)) \<and>
     short (be_stdout_log e) \<and> short (be_stderr_log e)"

lemma flag_byte_inject [simp]: "flag_byte a = flag_byte b \<longleftrightarrow> a = b"
  by (simp add: flag_byte_def)

lemma ucast_u64_inject: "(ucast (a :: u32) :: u64) = ucast b \<longleftrightarrow> a = b"
proof
  assume "(ucast a :: u64) = ucast b"
  then have "unat (ucast a :: u64) = unat (ucast b :: u64)"
    by simp
  then have "unat a = unat b"
    by (simp add: word_ucast_le_iff)
  then show "a = b"
    by (simp add: word_unat_eq_iff)
qed simp

lemma evidence_bytes_inject:
  assumes "evidence_short r e" "evidence_short r' e'"
  shows "evidence_bytes r e = evidence_bytes r' e' \<longleftrightarrow> r = r' \<and> e = e'"
proof
  assume "evidence_bytes r e = evidence_bytes r' e'"
  then have eq: "evidence_bytes r e @ [] = evidence_bytes r' e' @ []"
    by simp
  have short: "short (bq_id r)" "short (bq_workspace_id r)" "short (bq_profile r)" "list_all short (cs_argv (bq_command r))"
      "short (cs_working_directory (bq_command r))"
      "list_all (\<lambda>(name, val). short name \<and> short val) (cs_environment (bq_command r))"
      "short (be_stdout_log e)" "short (be_stderr_log e)"
    and short': "short (bq_id r')" "short (bq_workspace_id r')" "short (bq_profile r')" "list_all short (cs_argv (bq_command r'))"
      "short (cs_working_directory (bq_command r'))"
      "list_all (\<lambda>(name, val). short name \<and> short val) (cs_environment (bq_command r'))"
      "short (be_stdout_log e')" "short (be_stderr_log e')"
    using assms by (simp_all add: evidence_short_def)
  note string = append_string_split [OF short(1) short'(1)] append_string_split [OF short(2) short'(2)]
    append_string_split [OF short(3) short'(3)]
  from eq have a: "bq_id r = bq_id r'" "bq_workspace_id r = bq_workspace_id r'"
      "bq_pinned_revision r = bq_pinned_revision r'" "bq_profile r = bq_profile r'"
      "(of_nat (length (cs_argv (bq_command r))) :: u64) = of_nat (length (cs_argv (bq_command r')))"
    and rest: "concat (map append_string (cs_argv (bq_command r))) @
       append_string (cs_working_directory (bq_command r)) @ append_u64 (cs_timeout (bq_command r)) @
       append_u64 (of_nat (length (cs_environment (bq_command r)))) @
       concat (map (\<lambda>(name, val). append_string name @ append_string val) (cs_environment (bq_command r))) @
       append_u64 (ucast (be_exit_code e)) @ append_u64 (be_elapsed e) @
       [flag_byte (be_timed_out e), flag_byte (be_cancelled e), flag_byte (be_stdout_truncated e),
        flag_byte (be_stderr_truncated e)] @
       append_string (be_stdout_log e) @ append_string (be_stderr_log e) @ [] =
       concat (map append_string (cs_argv (bq_command r'))) @
       append_string (cs_working_directory (bq_command r')) @ append_u64 (cs_timeout (bq_command r')) @
       append_u64 (of_nat (length (cs_environment (bq_command r')))) @
       concat (map (\<lambda>(name, val). append_string name @ append_string val) (cs_environment (bq_command r'))) @
       append_u64 (ucast (be_exit_code e')) @ append_u64 (be_elapsed e') @
       [flag_byte (be_timed_out e'), flag_byte (be_cancelled e'), flag_byte (be_stdout_truncated e'),
        flag_byte (be_stderr_truncated e')] @
       append_string (be_stdout_log e') @ append_string (be_stderr_log e') @ []"
    unfolding evidence_bytes_def append_assoc
    by (simp_all only: string append_u64_split same_append_eq)
  have "length (cs_argv (bq_command r)) = length (cs_argv (bq_command r'))"
    using a(5) assms of_nat_length_eq by (auto simp: evidence_short_def short_def)
  note b = rest [unfolded append_strings_split [OF this short(4) short'(4)]
      append_string_split [OF short(5) short'(5)] append_u64_split]
  have "length (cs_environment (bq_command r)) = length (cs_environment (bq_command r'))"
    using b assms of_nat_length_eq by (auto simp: evidence_short_def short_def)
  note c = b [unfolded append_pairs_split [OF this short(6) short'(6)] append_u64_split]
  then have d: "append_string (be_stdout_log e) @ append_string (be_stderr_log e) @ [] =
      append_string (be_stdout_log e') @ append_string (be_stderr_log e') @ []"
    by simp
  note d [unfolded append_string_split [OF short(7) short'(7)] append_string_split [OF short(8) short'(8)]]
  then show "r = r' \<and> e = e'"
    using a(1-4) c by (auto simp: ucast_u64_inject)
qed simp

section \<open>The life cycle\<close>

text \<open>The abstract view of the queue: the state of each build, and the steps it may take.\<close>

inductive build_lifecycle :: "(string \<rightharpoonup> build_state) \<Rightarrow> (string \<rightharpoonup> build_state) \<Rightarrow> bool" where
  submitted: "m b = None \<Longrightarrow> build_lifecycle m (m(b \<mapsto> Build_queued))"
| started: "m b = Some Build_queued \<Longrightarrow> build_lifecycle m (m(b \<mapsto> Build_running))"
| cancelled: "m b = Some Build_queued \<or> m b = Some Build_running \<Longrightarrow> build_lifecycle m (m(b \<mapsto> Build_cancelled))"
| ended: "m b = Some Build_running \<Longrightarrow> s \<in> {Build_cancelled, Build_succeeded, Build_failed} \<Longrightarrow>
    build_lifecycle m (m(b \<mapsto> s))"

definition states_of :: "build_queue \<Rightarrow> (string \<rightharpoonup> build_state)" where
  "states_of q = (\<lambda>b. map_option bj_state (q b))"

definition ended_state :: "build_state \<Rightarrow> bool" where
  "ended_state s \<longleftrightarrow> s \<noteq> Build_queued \<and> s \<noteq> Build_running"

lemma states_of_upd [simp]: "states_of (q(b \<mapsto> job)) = (states_of q)(b \<mapsto> bj_state job)"
  by (rule ext) (simp add: states_of_def)

lemma states_of_apply:
  "q b = None \<Longrightarrow> states_of q b = None" "q b = Some j \<Longrightarrow> states_of q b = Some (bj_state j)"
  by (simp_all add: states_of_def)

datatype queue_call =
    Q_submit build_request "string set"
  | Q_start string
  | Q_cancel string
  | Q_finish string build_evidence

fun queue_apply :: "queue_call \<Rightarrow> build_queue \<Rightarrow> build_queue result" where
  "queue_apply (Q_submit r allowlist) q = queue_submit r allowlist q"
| "queue_apply (Q_start b) q = queue_start b q"
| "queue_apply (Q_cancel b) q = queue_cancel b q"
| "queue_apply (Q_finish b e) q = queue_finish b e q"

text \<open>A call that throws leaves the queue as it was.\<close>

definition queue_step :: "build_queue \<Rightarrow> queue_call \<Rightarrow> build_queue" where
  "queue_step q c = (case queue_apply c q of Inl _ \<Rightarrow> q | Inr q' \<Rightarrow> q')"

lemma job_at_Inr: "job_at b q = Inr job \<longleftrightarrow> q b = Some job"
  by (auto simp: job_at_def split: option.split)

lemma queue_calls_succeed:
  "queue_submit r allowlist q = Inr q' \<Longrightarrow> q (bq_id r) = None \<and>
     q' = q(bq_id r \<mapsto> \<lparr>bj_request = r, bj_state = Build_queued, bj_evidence = None\<rparr>)"
  "queue_start b q = Inr q' \<Longrightarrow> \<exists>job. q b = Some job \<and> bj_state job = Build_queued \<and>
     q' = q(b \<mapsto> job\<lparr>bj_state := Build_running\<rparr>)"
  "queue_cancel b q = Inr q' \<Longrightarrow> \<exists>job. q b = Some job \<and> (bj_state job = Build_queued \<or> bj_state job = Build_running) \<and>
     q' = q(b \<mapsto> job\<lparr>bj_state := Build_cancelled\<rparr>)"
  "queue_finish b e q = Inr q' \<Longrightarrow> \<exists>job. q b = Some job \<and> bj_state job = Build_running \<and> 0 \<le> sint (be_elapsed e) \<and>
     q' = q(b \<mapsto> job\<lparr>bj_state := finished_state e, bj_evidence := Some e\<rparr>)"
  by (auto simp: queue_submit_def queue_start_def queue_cancel_def queue_finish_def result_simps job_at_Inr
      split: if_split_asm)

lemma queue_refines:
  assumes "queue_apply c q = Inr q'"
  shows "build_lifecycle (states_of q) (states_of q')"
proof (cases c)
  case (Q_submit r allowlist)
  then show ?thesis
    using assms queue_calls_succeed(1) [of r allowlist q q']
    by (auto intro!: build_lifecycle.submitted simp: states_of_apply)
next
  case (Q_start b)
  then show ?thesis
    using assms queue_calls_succeed(2) [of b q q']
    by (auto intro!: build_lifecycle.started simp: states_of_apply)
next
  case (Q_cancel b)
  then show ?thesis
    using assms queue_calls_succeed(3) [of b q q']
    by (auto intro!: build_lifecycle.cancelled simp: states_of_apply)
next
  case (Q_finish b e)
  then show ?thesis
    using assms queue_calls_succeed(4) [of b e q q']
    by (auto intro!: build_lifecycle.ended simp: states_of_apply finished_state_def)
qed

text \<open>Requests are kept, an ended build is kept, and what succeeded has the evidence of it.\<close>

definition job_evolves :: "build_job \<Rightarrow> build_job \<Rightarrow> bool" where
  "job_evolves j j' \<longleftrightarrow> bj_request j' = bj_request j \<and> (ended_state (bj_state j) \<longrightarrow> j' = j)"

definition queue_wf :: "build_queue \<Rightarrow> bool" where
  "queue_wf q \<longleftrightarrow> (\<forall>b j. q b = Some j \<longrightarrow> bq_id (bj_request j) = b \<and>
     (bj_state j = Build_succeeded \<longrightarrow> (\<exists>e. bj_evidence j = Some e \<and> be_exit_code e = 0 \<and>
        \<not> be_timed_out e \<and> \<not> be_cancelled e)))"

lemma queue_step_keeps:
  assumes "q b = Some j"
  shows "\<exists>j'. queue_step q c b = Some j' \<and> job_evolves j j'"
proof (cases "queue_apply c q")
  case (Inl e)
  then show ?thesis
    using assms by (simp add: queue_step_def job_evolves_def)
next
  case (Inr q')
  show ?thesis
  proof (cases c)
    case (Q_submit r allowlist)
    then show ?thesis
      using assms Inr queue_calls_succeed(1) [of r allowlist q q'] by (auto simp: queue_step_def job_evolves_def)
  next
    case (Q_start b')
    then show ?thesis
      using assms Inr queue_calls_succeed(2) [of b' q q']
      by (auto simp: queue_step_def job_evolves_def ended_state_def)
  next
    case (Q_cancel b')
    then show ?thesis
      using assms Inr queue_calls_succeed(3) [of b' q q']
      by (auto simp: queue_step_def job_evolves_def ended_state_def)
  next
    case (Q_finish b' e)
    then show ?thesis
      using assms Inr queue_calls_succeed(4) [of b' e q q']
      by (auto simp: queue_step_def job_evolves_def ended_state_def)
  qed
qed

lemma queue_run_keeps: "q b = Some j \<Longrightarrow> \<exists>j'. foldl queue_step q calls b = Some j' \<and> job_evolves j j'"
proof (induction calls arbitrary: q j)
  case (Cons c calls)
  obtain j1 where j1: "queue_step q c b = Some j1" "job_evolves j j1"
    using queue_step_keeps [of q b j c] Cons.prems by blast
  then obtain j2 where "foldl queue_step (queue_step q c) calls b = Some j2" "job_evolves j1 j2"
    using Cons.IH by blast
  then show ?case
    using j1 by (auto simp: job_evolves_def)
qed (simp add: job_evolves_def)

lemma queue_step_wf: "queue_wf q \<Longrightarrow> queue_wf (queue_step q c)"
proof (cases "queue_apply c q")
  case (Inr q')
  assume wf: "queue_wf q"
  show ?thesis
  proof (cases c)
    case (Q_submit r allowlist)
    then show ?thesis
      using wf Inr queue_calls_succeed(1) [of r allowlist q q'] by (auto simp: queue_step_def queue_wf_def)
  next
    case (Q_start b')
    then show ?thesis
      using wf Inr queue_calls_succeed(2) [of b' q q'] by (fastforce simp: queue_step_def queue_wf_def)
  next
    case (Q_cancel b')
    then show ?thesis
      using wf Inr queue_calls_succeed(3) [of b' q q'] by (fastforce simp: queue_step_def queue_wf_def)
  next
    case (Q_finish b' e)
    then show ?thesis
      using wf Inr queue_calls_succeed(4) [of b' e q q']
      by (auto simp: queue_step_def queue_wf_def finished_state_def split: if_split_asm)
  qed
qed (simp add: queue_step_def)

interpretation builds: invariant_machine queue_step "\<lambda>_. None" queue_wf
  by unfold_locales (simp_all add: queue_step_wf, simp add: queue_wf_def)

section \<open>Properties\<close>

text \<open>C23. The queue implements the life cycle of builds: every call that returns is one step of it - a new build is
  queued, a queued one starts, a queued or running one is cancelled, a running one ends - and the life cycle of
  all other builds stands still.\<close>

theorem queue_refines_lifecycle:
  assumes "queue_apply c q = Inr q'"
  shows "build_lifecycle (states_of q) (states_of q')"
  using assms by (rule queue_refines)

definition sample_command :: command_spec where
  "sample_command = \<lparr>cs_argv = [''make''], cs_working_directory = ''src'', cs_timeout = 60, cs_environment = []\<rparr>"

definition sample_build :: build_request where
  "sample_build = \<lparr>bq_id = ''b1'', bq_workspace_id = ''w1'', bq_pinned_revision = 3, bq_profile = ''release'',
     bq_command = sample_command\<rparr>"

definition sample_evidence_ok :: build_evidence where
  "sample_evidence_ok = \<lparr>be_exit_code = 0, be_stdout_log = ''ok'', be_stderr_log = [], be_elapsed = 9,
     be_timed_out = False, be_cancelled = False, be_stdout_truncated = False, be_stderr_truncated = False\<rparr>"

lemma sample_submitted: "queue_apply (Q_submit sample_build {}) (\<lambda>_. None) =
    Inr [''b1'' \<mapsto> \<lparr>bj_request = sample_build, bj_state = Build_queued, bj_evidence = None\<rparr>]"
  by (simp add: queue_submit_def sample_build_def sample_command_def validate_command_def valid_id_def is_alnum_def
      is_digit_def)

theorem queue_refines_lifecycle_witness:
  "build_lifecycle (states_of (\<lambda>_. None)) (states_of
     [''b1'' \<mapsto> \<lparr>bj_request = sample_build, bj_state = Build_queued, bj_evidence = None\<rparr>])"
  using queue_refines_lifecycle [OF sample_submitted] .

text \<open>Outcomes are final and justified: after any calls from an empty queue, a succeeded build has evidence of an
  exit with code 0 that neither timed out nor was cancelled, and whatever is called afterwards, a build that
  has ended stays exactly as it is and no build changes its request.\<close>

theorem build_outcome_final:
  assumes "foldl queue_step (\<lambda>_. None) calls b = Some j"
  shows "bq_id (bj_request j) = b \<and>
    (bj_state j = Build_succeeded \<longrightarrow> (\<exists>e. bj_evidence j = Some e \<and> be_exit_code e = 0 \<and>
       \<not> be_timed_out e \<and> \<not> be_cancelled e)) \<and>
    (\<exists>j'. foldl queue_step (\<lambda>_. None) (calls @ more_calls) b = Some j' \<and> bj_request j' = bj_request j \<and>
       (ended_state (bj_state j) \<longrightarrow> j' = j))"
proof -
  have "queue_wf (foldl queue_step (\<lambda>_. None) calls)"
    by (rule builds.run_inv)
  moreover obtain j' where "foldl queue_step (foldl queue_step (\<lambda>_. None) calls) more_calls b = Some j'"
      "job_evolves j j'"
    using queue_run_keeps [of "foldl queue_step (\<lambda>_. None) calls" b j more_calls] assms by blast
  ultimately show ?thesis
    using assms by (auto simp: queue_wf_def job_evolves_def)
qed

theorem build_outcome_final_witness:
  "let calls = [Q_submit sample_build {}, Q_start ''b1'', Q_finish ''b1'' sample_evidence_ok]
   in \<exists>j. foldl queue_step (\<lambda>_. None) calls ''b1'' = Some j \<and> bj_state j = Build_succeeded \<and>
     foldl queue_step (\<lambda>_. None) (calls @ [Q_cancel ''b1'']) ''b1'' = Some j"
proof -
  let ?calls = "[Q_submit sample_build {}, Q_start ''b1'', Q_finish ''b1'' sample_evidence_ok]"
  have run: "foldl queue_step (\<lambda>_. None) ?calls ''b1'' =
      Some \<lparr>bj_request = sample_build, bj_state = Build_succeeded, bj_evidence = Some sample_evidence_ok\<rparr>"
    unfolding foldl.simps queue_step_def sample_submitted
    by (simp add: queue_start_def queue_finish_def job_at_def finished_state_def sample_evidence_ok_def)
  from build_outcome_final [OF run, of "[Q_cancel ''b1'']"] run show ?thesis
    by (simp add: Let_def ended_state_def)
qed

text \<open>The canonical form under the digest of the evidence is unambiguous: two builds with evidence give the same
  bytes only when they agree in the request and in every part of the evidence. Strings and lists have
  fewer than 2^64 elements.\<close>

theorem evidence_form_unambiguous:
  assumes "evidence_short r e" "evidence_short r' e'"
  shows "evidence_bytes r e = evidence_bytes r' e' \<longleftrightarrow> r = r' \<and> e = e'"
  using assms by (rule evidence_bytes_inject)

theorem evidence_form_unambiguous_witness:
  "evidence_bytes sample_build sample_evidence_ok \<noteq>
   evidence_bytes sample_build (sample_evidence_ok\<lparr>be_stdout_log := [], be_stderr_log := ''ok''\<rparr>)"
proof -
  have "evidence_short sample_build sample_evidence_ok"
    "evidence_short sample_build (sample_evidence_ok\<lparr>be_stdout_log := [], be_stderr_log := ''ok''\<rparr>)"
    by (simp_all add: evidence_short_def short_def sample_build_def sample_command_def sample_evidence_ok_def)
  from evidence_form_unambiguous [OF this] show ?thesis
    by (simp add: sample_evidence_ok_def)
qed

end
