(* ===== verification/File_System.thy ===== *)
theory File_System
  imports Build_Queue
begin

text \<open>
  The file system as the code of \<open>core/\<close> uses it through \<open>std::filesystem\<close>, \<open>DurableFileSystem\<close> and
  \<open>CommandExecutor\<close>, and \<open>core/src/workspace_scope.cpp\<close>. A canonical path is the list of its components below the
  root of the file system; there are no symbolic links, so \<open>weakly_canonical\<close> removes the components \<open>.\<close> and \<open>..\<close>.
  The machine is the files, what the environment answers, and the calls made so far, on which the
  answers may depend: any call may fail, a replacement also after the file has been moved (on macOS the directory is
  flushed after the rename, \<open>platform/macos/src/durable_filesystem.cpp\<close>), and a command that is executed may change any
  file.
\<close>

section \<open>Paths and scopes\<close>

type_synonym path = "string list"

text \<open>A path as it is written: absolute or not, and its components.\<close>

record fs_path =
  fp_absolute :: bool
  fp_parts :: "string list"

definition relative :: "string list \<Rightarrow> fs_path" where
  "relative parts = \<lparr>fp_absolute = False, fp_parts = parts\<rparr>"

text \<open>The components so far are kept in reverse.\<close>

fun canonical_from :: "path \<Rightarrow> string list \<Rightarrow> path" where
  "canonical_from done_parts [] = List.rev done_parts"
| "canonical_from done_parts (p # ps) =
     (if p = ''.'' then canonical_from done_parts ps
      else if p = ''..'' then canonical_from (tl done_parts) ps
      else canonical_from (p # done_parts) ps)"

definition weakly_canonical :: "string list \<Rightarrow> path" where
  "weakly_canonical parts = canonical_from [] parts"

fun has_prefix :: "path \<Rightarrow> path \<Rightarrow> bool" where
  "has_prefix path [] = True"
| "has_prefix [] (q # qs) = False"
| "has_prefix (p # ps) (q # qs) = (p = q \<and> has_prefix ps qs)"

text \<open>A scope is its root; \<open>absolute\<close> puts the working directory before a relative root.\<close>

definition new_workspace_scope :: "path \<Rightarrow> fs_path \<Rightarrow> path result" where
  "new_workspace_scope working_directory root =
     (if \<not> fp_absolute root \<and> fp_parts root = []
      then throw (Invalid_argument ''workspace root must not be empty'')
      else ok (weakly_canonical (if fp_absolute root then fp_parts root else working_directory @ fp_parts root)))"

definition scope_contains_resolved :: "path \<Rightarrow> path \<Rightarrow> bool" where
  "scope_contains_resolved root resolved_path = has_prefix (weakly_canonical resolved_path) root"

definition scope_resolve :: "path \<Rightarrow> fs_path \<Rightarrow> path result" where
  "scope_resolve root relative_path =
     (if (\<not> fp_absolute relative_path \<and> fp_parts relative_path = []) \<or> fp_absolute relative_path
      then throw (Invalid_argument ''workspace path must be non-empty and relative'')
      else
        let candidate = weakly_canonical (root @ fp_parts relative_path)
        in if \<not> scope_contains_resolved root candidate
           then throw (Invalid_argument ''workspace path escapes authorized root'')
           else ok candidate)"

section \<open>The machine\<close>

datatype fs_node = Dir | File "byte list"

type_synonym files = "path \<rightharpoonup> fs_node"

definition regular_file :: "files \<Rightarrow> path \<Rightarrow> bool" where
  "regular_file fs p \<longleftrightarrow> (case fs p of Some (File _) \<Rightarrow> True | _ \<Rightarrow> False)"

definition content_at :: "files \<Rightarrow> path \<Rightarrow> byte list option" where
  "content_at fs p = (case fs p of Some (File c) \<Rightarrow> Some c | _ \<Rightarrow> None)"

datatype os_call =
    Os_flush path
  | Os_replace path path
  | Os_copy path path
  | Os_mkdir path
  | Os_create path
  | Os_write path nat "byte list"
  | Os_remove path
  | Os_execute command_spec

text \<open>What the environment answers: whether a call fails, what a failed call leaves behind (of a copy or a write the
  bytes of the file; of a replacement anything when the file had been moved before the call failed), what an executed
  command gives, and what it makes of the files.\<close>

record os =
  os_fails :: "os_call list \<Rightarrow> os_call \<Rightarrow> exn option"
  os_left :: "os_call list \<Rightarrow> os_call \<Rightarrow> byte list option"
  os_executes :: "os_call list \<Rightarrow> command_spec \<Rightarrow> build_evidence"
  os_changes :: "os_call list \<Rightarrow> command_spec \<Rightarrow> files \<Rightarrow> files"

record machine =
  mc_os :: os
  mc_fs :: files
  mc_calls :: "os_call list"

text \<open>A call of the environment: its effect when it succeeds, and what a failure leaves.\<close>

definition os_do :: "os_call \<Rightarrow> (files \<Rightarrow> files) \<Rightarrow> (byte list option \<Rightarrow> files \<Rightarrow> files) \<Rightarrow> (machine, unit) call" where
  "os_do c effect left_behind m =
     (let m' = m\<lparr>mc_calls := mc_calls m @ [c]\<rparr>
      in case os_fails (mc_os m) (mc_calls m) c of
           None \<Rightarrow> (ok (), m'\<lparr>mc_fs := effect (mc_fs m)\<rparr>)
         | Some e \<Rightarrow> (throw e, m'\<lparr>mc_fs := left_behind (os_left (mc_os m) (mc_calls m) c) (mc_fs m)\<rparr>))"

definition flush_file :: "path \<Rightarrow> (machine, unit) call" where
  "flush_file p = os_do (Os_flush p) (\<lambda>fs. fs) (\<lambda>_ fs. fs)"

definition move_node :: "path \<Rightarrow> path \<Rightarrow> files \<Rightarrow> files" where
  "move_node staging destination fs =
     (fs(destination := fs staging))(staging := if staging = destination then fs staging else None)"

text \<open>Replacing is atomic: the file is moved or it is not. The call may fail after the move: on macOS the directory is
  flushed once the file has been renamed.\<close>

definition atomic_replace :: "path \<Rightarrow> path \<Rightarrow> (machine, unit) call" where
  "atomic_replace staging destination m =
     (if \<not> regular_file (mc_fs m) staging \<or> mc_fs m destination = Some Dir
      then (throw (Runtime_error ''replace''), m\<lparr>mc_calls := mc_calls m @ [Os_replace staging destination]\<rparr>)
      else os_do (Os_replace staging destination) (move_node staging destination)
        (\<lambda>left fs. if left = None then fs else move_node staging destination fs) m)"

definition copy_file :: "path \<Rightarrow> path \<Rightarrow> (machine, unit) call" where
  "copy_file source destination m =
     (if \<not> regular_file (mc_fs m) source \<or> mc_fs m destination \<noteq> None
      then (throw (Runtime_error ''copy''), m\<lparr>mc_calls := mc_calls m @ [Os_copy source destination]\<rparr>)
      else os_do (Os_copy source destination) (\<lambda>fs. fs(destination := fs source))
        (\<lambda>left fs. fs(destination := map_option File left)) m)"

text \<open>Every missing prefix becomes a directory, unless one of them is a file.\<close>

definition create_directories :: "path \<Rightarrow> (machine, unit) call" where
  "create_directories p m =
     (if list_ex (\<lambda>n. regular_file (mc_fs m) (take n p)) [0..<length p + 1]
      then (throw (Runtime_error ''create_directories''), m\<lparr>mc_calls := mc_calls m @ [Os_mkdir p]\<rparr>)
      else os_do (Os_mkdir p) (\<lambda>fs q. if has_prefix p q \<and> fs q = None then Some Dir else fs q) (\<lambda>_ fs. fs) m)"

text \<open>A command may change any file, also when the executor throws.\<close>

definition execute :: "command_spec \<Rightarrow> (machine, build_evidence) call" where
  "execute command m =
     (let m' = m\<lparr>mc_calls := mc_calls m @ [Os_execute command],
            mc_fs := os_changes (mc_os m) (mc_calls m) command (mc_fs m)\<rparr>
      in case os_fails (mc_os m) (mc_calls m) (Os_execute command) of
           None \<Rightarrow> (ok (os_executes (mc_os m) (mc_calls m) command), m')
         | Some e \<Rightarrow> (throw e, m'))"

section \<open>Lemmas\<close>

lemma move_node: "s \<noteq> d \<Longrightarrow> move_node s d fs = fs(d := fs s, s := None)"
  by (simp add: move_node_def)

lemma has_prefix_iff: "has_prefix p q \<longleftrightarrow> (\<exists>r. p = q @ r)"
  by (induction p q rule: has_prefix.induct) auto

definition canonical :: "path \<Rightarrow> bool" where
  "canonical p \<longleftrightarrow> ''.'' \<notin> set p \<and> ''..'' \<notin> set p"

lemma canonical_from_plain: "canonical ps \<Longrightarrow> canonical_from done_parts ps = List.rev done_parts @ ps"
  by (induction ps arbitrary: done_parts) (auto simp: canonical_def)

lemma canonical_from_canonical: "canonical done_parts \<Longrightarrow> canonical (canonical_from done_parts ps)"
proof (induction ps arbitrary: done_parts)
  case (Cons p ps)
  have "canonical (tl done_parts)"
    using Cons.prems by (cases done_parts) (auto simp: canonical_def)
  then show ?case
    using Cons by (auto simp: canonical_def)
qed (simp add: canonical_def)

lemma weakly_canonical_plain: "canonical p \<Longrightarrow> weakly_canonical p = p"
  by (simp add: weakly_canonical_def canonical_from_plain)

lemma canonical_weakly_canonical: "canonical (weakly_canonical ps)"
  unfolding weakly_canonical_def by (rule canonical_from_canonical) (simp add: canonical_def)

lemma scope_resolve_within:
  "scope_resolve root rel = Inr p \<Longrightarrow> has_prefix p root \<and> canonical p"
  using canonical_weakly_canonical [of "root @ fp_parts rel"]
  by (auto simp: scope_resolve_def scope_contains_resolved_def Let_def weakly_canonical_plain split: if_split_asm)

lemma scope_resolve_plain:
  "canonical root \<Longrightarrow> canonical ps \<Longrightarrow> ps \<noteq> [] \<Longrightarrow> scope_resolve root (relative ps) = Inr (root @ ps)"
  by (simp add: scope_resolve_def relative_def scope_contains_resolved_def weakly_canonical_plain canonical_def
      has_prefix_iff)

lemma regular_file_content: "regular_file fs p \<longleftrightarrow> content_at fs p \<noteq> None"
  by (auto simp: regular_file_def content_at_def split: option.split fs_node.split)

end
