(* ===== verification/Deployment.thy ===== *)
theory Deployment
  imports File_System Authorization
begin

text \<open>
  \<open>core/src/deployment.cpp\<close>: the service that puts an artifact in place of the active version and goes back to the
  previous one when a step fails, over the interface \<open>DeploymentBackend\<close>, and the backend on files. Of
  \<open>core/src/artifact_store.cpp\<close> the lookups that the service uses. The steady clock is a parameter: its value at
  each reading. Every exception of the model is a \<open>std::exception\<close>.
\<close>

section \<open>Data\<close>

datatype deployment_status = Deploying | Active | Rolled_back | Failed

datatype deployment_step =
    St_stop | St_stage_previous | St_install | St_start | St_health_check
  | St_rollback_stop | St_rollback_restore | St_rollback_start | St_rollback_health_check

record step_evidence =
  se_step :: deployment_step
  se_succeeded :: bool
  se_process :: build_evidence
  se_reason_code :: string

record deployment_record =
  dr_id :: string
  dr_workspace_id :: string
  dr_workspace_revision :: u64
  dr_artifact_id :: string
  dr_artifact_sha256 :: string
  dr_build_id :: string
  dr_created_at :: time_point
  dr_completed_at :: time_point
  dr_status :: deployment_status
  dr_failure_reason :: string
  dr_evidence :: "step_evidence list"

record deployment_request =
  dq_deployment_id :: string
  dq_artifact_id :: string
  dq_principal_id :: string
  dq_device_id :: string
  dq_session_id :: string
  dq_workspace_id :: string
  dq_authorization :: authorization_result
  dq_occurred_at :: time_point

record rollback_request =
  rq_deployment_id :: string
  rq_principal_id :: string
  rq_device_id :: string
  rq_session_id :: string
  rq_authorization :: authorization_result
  rq_occurred_at :: time_point

definition command_succeeded :: "build_evidence \<Rightarrow> bool" where
  "command_succeeded e \<longleftrightarrow> be_exit_code e = 0 \<and> \<not> be_timed_out e \<and> \<not> be_cancelled e"

definition file_evidence :: "time_point \<Rightarrow> time_point \<Rightarrow> u32 \<Rightarrow> build_evidence" where
  "file_evidence start now exit_code = \<lparr>be_exit_code = exit_code, be_stdout_log = [], be_stderr_log = [],
     be_elapsed = of_int (to_milliseconds (now - start)), be_timed_out = False, be_cancelled = False,
     be_stdout_truncated = False, be_stderr_truncated = False\<rparr>"

fun step_failure_reason :: "deployment_step \<Rightarrow> string" where
  "step_failure_reason St_stop = ''stop_failed''"
| "step_failure_reason St_stage_previous = ''stage_previous_failed''"
| "step_failure_reason St_install = ''install_failed''"
| "step_failure_reason St_start = ''start_failed''"
| "step_failure_reason St_health_check = ''health_check_failed''"
| "step_failure_reason St_rollback_stop = ''rollback_stop_failed''"
| "step_failure_reason St_rollback_restore = ''rollback_restore_failed''"
| "step_failure_reason St_rollback_start = ''rollback_start_failed''"
| "step_failure_reason St_rollback_health_check = ''rollback_health_check_failed''"

section \<open>The artifact store as the service reads it\<close>

record artifact_store =
  as_storage_root :: path
  as_records :: "string \<rightharpoonup> artifact \<times> fs_path"

definition store_metadata :: "artifact_store \<Rightarrow> string \<Rightarrow> artifact result" where
  "store_metadata store aid = (case as_records store aid of
     None \<Rightarrow> throw (Out_of_range ''map::at'') | Some (a, _) \<Rightarrow> ok a)"

definition store_object_path :: "artifact_store \<Rightarrow> string \<Rightarrow> path result" where
  "store_object_path store aid = (case as_records store aid of
     None \<Rightarrow> throw (Out_of_range ''map::at'') | Some (_, rel) \<Rightarrow> scope_resolve (as_storage_root store) rel)"

text \<open>A regular file of the size and the digest of the artifact.\<close>

definition file_matches :: "files \<Rightarrow> path \<Rightarrow> artifact \<Rightarrow> bool result" where
  "file_matches fs p a = (case content_at fs p of
     None \<Rightarrow> ok False
   | Some c \<Rightarrow> if of_nat (length c) \<noteq> art_size a then ok False
       else and_then (sha256_file (Some c)) (\<lambda>h. ok (h = art_sha256 a)))"

definition store_verify :: "files \<Rightarrow> artifact_store \<Rightarrow> string \<Rightarrow> bool result" where
  "store_verify fs store aid = and_then (store_metadata store aid) (\<lambda>a.
     and_then (store_object_path store aid) (\<lambda>p. file_matches fs p a))"

section \<open>The backend interface and the backend on files\<close>

record 'b deployment_backend =
  bk_stop :: "('b, build_evidence) call"
  bk_stage_previous :: "string \<Rightarrow> ('b, unit) call"
  bk_install :: "string \<Rightarrow> path \<Rightarrow> artifact \<Rightarrow> ('b, unit) call"
  bk_start :: "('b, build_evidence) call"
  bk_health_check :: "('b, build_evidence) call"
  bk_restore_previous :: "string \<Rightarrow> ('b, unit) call"

record file_backend =
  fb_machine :: machine
  fb_root :: path
  fb_active :: path
  fb_stop_command :: command_spec
  fb_start_command :: command_spec
  fb_health_command :: command_spec

definition new_file_backend ::
  "path \<Rightarrow> fs_path \<Rightarrow> fs_path \<Rightarrow> machine \<Rightarrow> command_spec \<Rightarrow> command_spec \<Rightarrow> command_spec \<Rightarrow> file_backend result" where
  "new_file_backend working_directory runtime_root active_relative m stop_command start_command health_command =
     and_then (new_workspace_scope working_directory runtime_root) (\<lambda>root.
     and_then (scope_resolve root active_relative) (\<lambda>active.
     if \<not> regular_file (mc_fs m) active
     then throw (Invalid_argument ''deployment runtime requires an existing active regular file'')
     else and_then (validate_command stop_command {}) (\<lambda>_.
       and_then (validate_command start_command {}) (\<lambda>_.
       and_then (validate_command health_command {}) (\<lambda>_.
       ok \<lparr>fb_machine = m, fb_root = root, fb_active = active, fb_stop_command = stop_command,
         fb_start_command = start_command, fb_health_command = health_command\<rparr>)))))"

definition on_machine :: "(machine, 'a) call \<Rightarrow> (file_backend, 'a) call" where
  "on_machine m b = (case m (fb_machine b) of (r, m') \<Rightarrow> (r, b\<lparr>fb_machine := m'\<rparr>))"

definition fb_files :: "file_backend \<Rightarrow> files" where
  "fb_files b = mc_fs (fb_machine b)"

definition fb_stop :: "(file_backend, build_evidence) call" where
  "fb_stop b = on_machine (execute (fb_stop_command b)) b"

definition rollback_path :: "file_backend \<Rightarrow> string \<Rightarrow> path result" where
  "rollback_path b did = scope_resolve (fb_root b) (relative [''rollback'', did @ ''.previous''])"

definition failed_path :: "file_backend \<Rightarrow> string \<Rightarrow> path result" where
  "failed_path b did = scope_resolve (fb_root b) (relative [''failed'', did @ ''.failed''])"

definition fb_stage_previous :: "string \<Rightarrow> (file_backend, unit) call" where
  "fb_stage_previous did b = (case rollback_path b did of
     Inl e \<Rightarrow> (throw e, b)
   | Inr destination \<Rightarrow>
       if \<not> regular_file (fb_files b) (fb_active b) \<or> fb_files b destination \<noteq> None
       then (throw (Logic_error ''deployment rollback slot is unavailable''), b)
       else c_bind (on_machine (create_directories (butlast destination))) (\<lambda>_.
         c_bind (on_machine (flush_file (fb_active b))) (\<lambda>_.
         on_machine (atomic_replace (fb_active b) destination))) b)"

definition staging_path :: "file_backend \<Rightarrow> string \<Rightarrow> path" where
  "staging_path b did =
     butlast (fb_active b) @ [''.'' @ last (fb_active b) @ ''.deploy-'' @ did @ ''.part'']"

text \<open>A check of a file that throws unless it matches.\<close>

definition require_match :: "path \<Rightarrow> artifact \<Rightarrow> exn \<Rightarrow> (file_backend, unit) call" where
  "require_match p metadata e = c_check (\<lambda>b. and_then (file_matches (fb_files b) p metadata) (\<lambda>same. throw_if (\<not> same) e))"

definition fb_install :: "string \<Rightarrow> path \<Rightarrow> artifact \<Rightarrow> (file_backend, unit) call" where
  "fb_install did immutable_artifact metadata b =
     c_bind (require_match immutable_artifact metadata (Invalid_argument ''deployment artifact failed verification'')) (\<lambda>_.
     c_bind (on_machine (create_directories (butlast (fb_active b)))) (\<lambda>_.
     c_bind (c_check (\<lambda>b. throw_if (\<not> scope_contains_resolved (fb_root b) (staging_path b did) \<or>
         fb_files b (staging_path b did) \<noteq> None) (Logic_error ''deployment staging path is unavailable''))) (\<lambda>_.
     c_bind (on_machine (copy_file immutable_artifact (staging_path b did))) (\<lambda>_.
     c_bind (require_match (staging_path b did) metadata
         (Runtime_error ''deployment staged artifact verification failed'')) (\<lambda>_.
     c_bind (on_machine (flush_file (staging_path b did))) (\<lambda>_.
     on_machine (atomic_replace (staging_path b did) (fb_active b)))))))) b"

definition fb_start :: "(file_backend, build_evidence) call" where
  "fb_start b = on_machine (execute (fb_start_command b)) b"

definition fb_health_check :: "(file_backend, build_evidence) call" where
  "fb_health_check b = on_machine (execute (fb_health_command b)) b"

definition fb_quarantine :: "string \<Rightarrow> (file_backend, unit) call" where
  "fb_quarantine did b = (case failed_path b did of
     Inl e \<Rightarrow> (throw e, b)
   | Inr failed \<Rightarrow>
       if fb_files b failed \<noteq> None
       then (throw (Logic_error ''failed deployment quarantine already exists''), b)
       else c_bind (on_machine (create_directories (butlast failed))) (\<lambda>_.
         c_bind (on_machine (flush_file (fb_active b))) (\<lambda>_.
         on_machine (atomic_replace (fb_active b) failed))) b)"

definition fb_restore_previous :: "string \<Rightarrow> (file_backend, unit) call" where
  "fb_restore_previous did b = (case rollback_path b did of
     Inl e \<Rightarrow> (throw e, b)
   | Inr rollback \<Rightarrow>
       if \<not> regular_file (fb_files b) rollback
       then (throw (Logic_error ''deployment rollback artifact is missing''), b)
       else c_bind (if fb_files b (fb_active b) \<noteq> None then fb_quarantine did else c_return ()) (\<lambda>_.
         on_machine (atomic_replace rollback (fb_active b))) b)"

definition file_backend_ops :: "file_backend deployment_backend" where
  "file_backend_ops = \<lparr>bk_stop = fb_stop, bk_stage_previous = fb_stage_previous, bk_install = fb_install,
     bk_start = fb_start, bk_health_check = fb_health_check, bk_restore_previous = fb_restore_previous\<rparr>"

section \<open>The service\<close>

text \<open>The references that the service holds are constant: the operations of the backend, the files it works
  on, the artifacts and the clock.\<close>

record 'b deployment_service =
  ds_ops :: "'b deployment_backend"
  ds_files :: "'b \<Rightarrow> files"
  ds_artifacts :: artifact_store
  ds_clock :: "nat \<Rightarrow> time_point"
  ds_readings :: nat
  ds_backend :: 'b
  ds_audit :: audit_log
  ds_records :: "string \<rightharpoonup> deployment_record"

definition steady_now :: "('b deployment_service, time_point) call" where
  "steady_now s = (Inr (ds_clock s (ds_readings s)), s\<lparr>ds_readings := ds_readings s + 1\<rparr>)"

definition on_backend :: "('b deployment_backend \<Rightarrow> ('b, 'a) call) \<Rightarrow> ('b deployment_service, 'a) call" where
  "on_backend operation s = (case operation (ds_ops s) (ds_backend s) of (r, b) \<Rightarrow> (r, s\<lparr>ds_backend := b\<rparr>))"

definition append_audit_event :: "audit_event \<Rightarrow> ('b deployment_service, unit) call" where
  "append_audit_event e s = (case audit_append e (ds_audit s) of
     Inl x \<Rightarrow> (Inl x, s) | Inr lg \<Rightarrow> (Inr (), s\<lparr>ds_audit := lg\<rparr>))"

definition deploy_event ::
  "deployment_request \<Rightarrow> artifact \<Rightarrow> audit_action \<Rightarrow> audit_result \<Rightarrow> time_point \<Rightarrow> string \<Rightarrow> audit_event" where
  "deploy_event request a action res occurred_at reason_code = default_event\<lparr>ae_occurred_at := occurred_at,
     ae_principal_id := dq_principal_id request, ae_device_id := dq_device_id request,
     ae_session_id := dq_session_id request, ae_workspace_id := dq_workspace_id request,
     ae_build_id := art_build_id a, ae_artifact_id := art_id a, ae_artifact_sha256 := art_sha256 a,
     ae_source_revision := art_source_revision a, ae_deployment_id := dq_deployment_id request,
     ae_process_role := ''privileged_broker'', ae_reason_code := reason_code, ae_action := action, ae_result := res\<rparr>"

text \<open>Within \<open>deploy\<close>: the service, the record that is being made, and the current step.\<close>

record 'b deploying =
  dp_service :: "'b deployment_service"
  dp_record :: deployment_record
  dp_step :: deployment_step

definition on_service :: "('b deployment_service, 'a) call \<Rightarrow> ('b deploying, 'a) call" where
  "on_service m w = (case m (dp_service w) of (r, s) \<Rightarrow> (r, w\<lparr>dp_service := s\<rparr>))"

definition push_evidence :: "step_evidence \<Rightarrow> ('b deploying, unit) call" where
  "push_evidence e = c_modify (\<lambda>w. w\<lparr>dp_record := (dp_record w)\<lparr>dr_evidence := dr_evidence (dp_record w) @ [e]\<rparr>\<rparr>)"

definition require_command :: "build_evidence \<Rightarrow> ('s, unit) call" where
  "require_command e = (if \<not> command_succeeded e then c_throw (Runtime_error ''deployment process step failed'')
     else c_return ())"

definition push_failure :: "deployment_step \<Rightarrow> time_point \<Rightarrow> ('b deploying, unit) call" where
  "push_failure step start = c_bind (on_service steady_now) (\<lambda>now.
     push_evidence \<lparr>se_step = step, se_succeeded = False, se_process = file_evidence start now (-1),
       se_reason_code = step_failure_reason step\<rparr>)"

definition process_step ::
  "deployment_step \<Rightarrow> ('b deployment_backend \<Rightarrow> ('b, build_evidence) call) \<Rightarrow> ('b deploying, unit) call" where
  "process_step step operation = c_bind (c_modify (\<lambda>w. w\<lparr>dp_step := step\<rparr>)) (\<lambda>_.
     c_bind (on_service steady_now) (\<lambda>start.
     c_catch_rethrow
       (c_bind (on_service (on_backend operation)) (\<lambda>evidence.
          let success = command_succeeded evidence in
          c_bind (push_evidence \<lparr>se_step = step, se_succeeded = success, se_process = evidence,
              se_reason_code = if success then [] else step_failure_reason step\<rparr>) (\<lambda>_.
            require_command evidence)))
       (\<lambda>w. if dr_evidence (dp_record w) = [] \<or> se_step (last (dr_evidence (dp_record w))) \<noteq> step
            then push_failure step start w else c_return () w)))"

definition file_step ::
  "deployment_step \<Rightarrow> ('b deployment_backend \<Rightarrow> ('b, unit) call) \<Rightarrow> ('b deploying, unit) call" where
  "file_step step operation = c_bind (c_modify (\<lambda>w. w\<lparr>dp_step := step\<rparr>)) (\<lambda>_.
     c_bind (on_service steady_now) (\<lambda>start.
     c_catch_rethrow
       (c_bind (on_service (on_backend operation)) (\<lambda>_.
          c_bind (on_service steady_now) (\<lambda>now.
          push_evidence \<lparr>se_step = step, se_succeeded = True, se_process = file_evidence start now 0,
            se_reason_code = []\<rparr>)))
       (push_failure step start)))"

definition set_status :: "deployment_status \<Rightarrow> ('b deploying, unit) call" where
  "set_status st = c_modify (\<lambda>w. w\<lparr>dp_record := (dp_record w)\<lparr>dr_status := st\<rparr>\<rparr>)"

text \<open>The argument of \<open>install\<close> is computed inside the step.\<close>

definition install_operation ::
  "artifact_store \<Rightarrow> string \<Rightarrow> artifact \<Rightarrow> 'b deployment_backend \<Rightarrow> ('b, unit) call" where
  "install_operation store did a ops = (case store_object_path store (art_id a) of
     Inl e \<Rightarrow> c_throw e | Inr p \<Rightarrow> bk_install ops did p a)"

definition run_pipeline :: "deployment_request \<Rightarrow> artifact \<Rightarrow> ('b deploying, unit) call" where
  "run_pipeline request a = c_catch
     (c_bind (process_step St_stop bk_stop) (\<lambda>_.
      c_bind (file_step St_stage_previous (\<lambda>ops. bk_stage_previous ops (dq_deployment_id request))) (\<lambda>_.
      c_bind (\<lambda>w. file_step St_install
        (install_operation (ds_artifacts (dp_service w)) (dq_deployment_id request) a) w) (\<lambda>_.
      c_bind (process_step St_start bk_start) (\<lambda>_.
      c_bind (process_step St_health_check bk_health_check) (\<lambda>_.
      set_status Active))))))
     (c_bind (c_modify (\<lambda>w. w\<lparr>dp_record := (dp_record w)\<lparr>dr_failure_reason := step_failure_reason (dp_step w)\<rparr>\<rparr>)) (\<lambda>_.
      c_catch
        (c_bind (process_step St_rollback_stop bk_stop) (\<lambda>_.
         c_bind (file_step St_rollback_restore (\<lambda>ops. bk_restore_previous ops (dq_deployment_id request))) (\<lambda>_.
         c_bind (process_step St_rollback_start bk_start) (\<lambda>_.
         c_bind (process_step St_rollback_health_check bk_health_check) (\<lambda>_.
         set_status Rolled_back)))))
        (set_status Failed)))"

definition deploy_incomplete :: "deployment_request \<Rightarrow> (string \<rightharpoonup> deployment_record) \<Rightarrow> bool" where
  "deploy_incomplete request records \<longleftrightarrow> \<not> valid_id (dq_deployment_id request) \<or> dq_principal_id request = [] \<or>
     dq_device_id request = [] \<or> dq_session_id request = [] \<or> dq_workspace_id request = [] \<or>
     records (dq_deployment_id request) \<noteq> None"

text \<open>The checks of \<open>deploy\<close> before it acts.\<close>

definition deploy_checks :: "deployment_request \<Rightarrow> 'b deployment_service \<Rightarrow> artifact result" where
  "deploy_checks request s =
     (if deploy_incomplete request (ds_records s)
      then throw (Invalid_argument ''deployment request is incomplete or duplicated'')
      else and_then (store_metadata (ds_artifacts s) (dq_artifact_id request)) (\<lambda>a.
        if dq_workspace_id request \<noteq> art_workspace_id a
        then throw (Invalid_argument ''deployment artifact is unavailable or corrupt'')
        else and_then (store_verify (ds_files s (ds_backend s)) (ds_artifacts s) (dq_artifact_id request)) (\<lambda>verified.
          if \<not> verified then throw (Invalid_argument ''deployment artifact is unavailable or corrupt'')
          else ok a)))"

definition new_deployment :: "deployment_request \<Rightarrow> artifact \<Rightarrow> deployment_record" where
  "new_deployment request a = \<lparr>dr_id = dq_deployment_id request, dr_workspace_id = dq_workspace_id request,
     dr_workspace_revision = art_source_revision a, dr_artifact_id = art_id a, dr_artifact_sha256 = art_sha256 a,
     dr_build_id = art_build_id a, dr_created_at = dq_occurred_at request, dr_completed_at = 0,
     dr_status = Deploying, dr_failure_reason = [], dr_evidence = []\<rparr>"

text \<open>The event that ends a deployment.\<close>

definition completion_event :: "deployment_request \<Rightarrow> artifact \<Rightarrow> deployment_record \<Rightarrow> audit_event" where
  "completion_event request a r =
     (if dr_status r = Active then deploy_event request a deployment_active res_allowed (dr_completed_at r) []
      else if dr_status r = Rolled_back
      then deploy_event request a deployment_rolled_back res_failed (dr_completed_at r) (dr_failure_reason r)
      else deploy_event request a deployment_failed res_failed (dr_completed_at r) (dr_failure_reason r))"

definition finish_deployment ::
  "deployment_request \<Rightarrow> artifact \<Rightarrow> time_point \<Rightarrow> deployment_record \<Rightarrow> ('b deployment_service, deployment_record) call" where
  "finish_deployment request a pipeline_start r0 = c_bind steady_now (\<lambda>now s.
     let r = r0\<lparr>dr_completed_at := dq_occurred_at request + (now - pipeline_start)\<rparr>
     in if ds_records s (dr_id r) \<noteq> None then c_throw (Logic_error ''deployment record insertion failed'') s
        else c_bind (c_modify (\<lambda>s. s\<lparr>ds_records := (ds_records s)(dr_id r \<mapsto> r)\<rparr>)) (\<lambda>_.
          c_bind (append_audit_event (completion_event request a r)) (\<lambda>_. c_return r)) s)"

definition deploy :: "deployment_request \<Rightarrow> ('b deployment_service, deployment_record) call" where
  "deploy request s = (case deploy_checks request s of
     Inl e \<Rightarrow> (throw e, s)
   | Inr a \<Rightarrow>
       if \<not> permits (dq_authorization request) deploy_execute
       then c_bind (append_audit_event (deploy_event request a deployment_failed res_denied
           (dq_occurred_at request) ''deploy_capability_denied'')) (\<lambda>_.
         c_throw (Logic_error ''deployment capability is not granted'')) s
       else c_bind steady_now (\<lambda>pipeline_start.
         c_bind (append_audit_event (deploy_event request a deployment_started res_allowed
           (dq_occurred_at request) [])) (\<lambda>_ s.
         case run_pipeline request a \<lparr>dp_service = s, dp_record = new_deployment request a, dp_step = St_stop\<rparr> of
           (Inl e, w) \<Rightarrow> (Inl e, dp_service w)
         | (Inr _, w) \<Rightarrow> finish_deployment request a pipeline_start (dp_record w) (dp_service w))) s)"

section \<open>Manual rollback\<close>

definition rollback_event :: "rollback_request \<Rightarrow> deployment_record \<Rightarrow> audit_result \<Rightarrow> string \<Rightarrow> audit_event" where
  "rollback_event request r res reason_code = default_event\<lparr>ae_occurred_at := rq_occurred_at request,
     ae_principal_id := rq_principal_id request, ae_device_id := rq_device_id request,
     ae_session_id := rq_session_id request, ae_workspace_id := dr_workspace_id r, ae_build_id := dr_build_id r,
     ae_artifact_id := dr_artifact_id r, ae_artifact_sha256 := dr_artifact_sha256 r,
     ae_source_revision := dr_workspace_revision r, ae_deployment_id := dr_id r,
     ae_process_role := ''privileged_broker'', ae_reason_code := reason_code,
     ae_action := if res = res_allowed then deployment_rolled_back else deployment_failed, ae_result := res\<rparr>"

text \<open>The record in the map is changed in place.\<close>

definition change_record :: "string \<Rightarrow> (deployment_record \<Rightarrow> deployment_record) \<Rightarrow> ('b deployment_service, unit) call" where
  "change_record did f = c_modify (\<lambda>s. s\<lparr>ds_records := (ds_records s)(did := map_option f (ds_records s did))\<rparr>)"

definition rollback_process ::
  "string \<Rightarrow> deployment_step \<Rightarrow> ('b deployment_backend \<Rightarrow> ('b, build_evidence) call) \<Rightarrow> ('b deployment_service, unit) call" where
  "rollback_process did step operation = c_bind (on_backend operation) (\<lambda>evidence.
     let success = command_succeeded evidence in
     c_bind (change_record did (\<lambda>r. r\<lparr>dr_evidence := dr_evidence r @ [\<lparr>se_step = step, se_succeeded = success,
         se_process = evidence, se_reason_code = if success then [] else step_failure_reason step\<rparr>]\<rparr>)) (\<lambda>_.
       require_command evidence))"

definition end_rollback :: "rollback_request \<Rightarrow> deployment_status \<Rightarrow> string \<Rightarrow> ('b deployment_service, unit) call" where
  "end_rollback request st reason = change_record (rq_deployment_id request)
     (\<lambda>r. r\<lparr>dr_status := st, dr_failure_reason := reason, dr_completed_at := rq_occurred_at request\<rparr>)"

definition audit_rollback :: "rollback_request \<Rightarrow> audit_result \<Rightarrow> string \<Rightarrow> ('b deployment_service, unit) call" where
  "audit_rollback request res reason s = (case ds_records s (rq_deployment_id request) of
     None \<Rightarrow> c_return () s | Some r \<Rightarrow> append_audit_event (rollback_event request r res reason) s)"

definition rollback_steps :: "rollback_request \<Rightarrow> ('b deployment_service, unit) call" where
  "rollback_steps request = (let did = rq_deployment_id request in
     c_bind (rollback_process did St_rollback_stop bk_stop) (\<lambda>_.
     c_bind steady_now (\<lambda>start.
     c_bind (on_backend (\<lambda>ops. bk_restore_previous ops did)) (\<lambda>_.
     c_bind steady_now (\<lambda>now.
     c_bind (change_record did (\<lambda>r. r\<lparr>dr_evidence := dr_evidence r @ [\<lparr>se_step = St_rollback_restore,
         se_succeeded = True, se_process = file_evidence start now 0, se_reason_code = []\<rparr>]\<rparr>)) (\<lambda>_.
     c_bind (rollback_process did St_rollback_start bk_start) (\<lambda>_.
     rollback_process did St_rollback_health_check bk_health_check)))))))"

definition rollback_deployment :: "rollback_request \<Rightarrow> ('b deployment_service, deployment_record) call" where
  "rollback_deployment request s =
     (if \<not> valid_id (rq_deployment_id request) \<or> rq_principal_id request = [] \<or> rq_device_id request = [] \<or>
         rq_session_id request = []
      then c_throw (Invalid_argument ''rollback request is incomplete'') s
      else (case ds_records s (rq_deployment_id request) of
        None \<Rightarrow> c_throw (Logic_error ''only an active deployment can be rolled back'') s
      | Some r \<Rightarrow>
          if dr_status r \<noteq> Active then c_throw (Logic_error ''only an active deployment can be rolled back'') s
          else if \<not> permits (rq_authorization request) deploy_execute
          then c_bind (audit_rollback request res_denied ''deploy_capability_denied'') (\<lambda>_.
            c_throw (Logic_error ''rollback capability is not granted'')) s
          else c_bind (c_catch
              (c_bind (rollback_steps request) (\<lambda>_.
               c_bind (end_rollback request Rolled_back ''manual_rollback'') (\<lambda>_.
               audit_rollback request res_allowed ''manual_rollback'')))
              (c_bind (end_rollback request Failed ''manual_rollback_failed'') (\<lambda>_.
               audit_rollback request res_failed ''manual_rollback_failed''))) (\<lambda>_ s.
            case ds_records s (rq_deployment_id request) of
              None \<Rightarrow> c_throw (Out_of_range ''map::at'') s | Some r \<Rightarrow> c_return r s) s))"

definition deployment_record_of :: "string \<Rightarrow> 'b deployment_service \<Rightarrow> deployment_record result" where
  "deployment_record_of did s = (case ds_records s did of
     None \<Rightarrow> throw (Out_of_range ''map::at'') | Some r \<Rightarrow> ok r)"

end
