(* ===== verification/Call_Assertions.thy ===== *)
theory Call_Assertions
  imports Prelude
begin

text \<open>
  Assertions on member functions that throw: what holds after a call that returns, and after one that throws,
  with a rule for each way in which calls are composed.
\<close>

text \<open>From a state with \<open>P\<close>, a call that returns ends in one with \<open>Q\<close>, and one that throws in one with \<open>E\<close>.\<close>

definition c_post :: "('s \<Rightarrow> bool) \<Rightarrow> ('s, 'a) call \<Rightarrow> ('a \<Rightarrow> 's \<Rightarrow> bool) \<Rightarrow> ('s \<Rightarrow> bool) \<Rightarrow> bool" where
  "c_post P m Q E \<longleftrightarrow> (\<forall>s. P s \<longrightarrow> (case m s of (Inl e, s') \<Rightarrow> E s' | (Inr x, s') \<Rightarrow> Q x s'))"

lemma c_post_bind:
  "c_post P m R E \<Longrightarrow> (\<And>x. c_post (R x) (f x) Q E) \<Longrightarrow> c_post P (c_bind m f) Q E"
  by (fastforce simp: c_post_def c_bind_def split: prod.splits sum.splits)

lemma c_post_catch: "c_post P m Q R \<Longrightarrow> c_post R h Q E \<Longrightarrow> c_post P (c_catch m h) Q E"
  by (fastforce simp: c_post_def c_catch_def split: prod.splits sum.splits)

lemma c_post_rethrow:
  "c_post P m Q R \<Longrightarrow> c_post R h (\<lambda>_. E) E \<Longrightarrow> c_post P (c_catch_rethrow m h) Q E"
  by (fastforce simp: c_post_def c_catch_rethrow_def split: prod.splits sum.splits)

lemma c_post_modify: "(\<And>s. P s \<Longrightarrow> Q () (f s)) \<Longrightarrow> c_post P (c_modify f) Q E"
  by (simp add: c_post_def c_modify_def)

lemma c_post_return: "(\<And>s. P s \<Longrightarrow> Q x s) \<Longrightarrow> c_post P (c_return x) Q E"
  by (simp add: c_post_def)

lemma c_post_throw: "(\<And>s. P s \<Longrightarrow> E s) \<Longrightarrow> c_post P (c_throw e) Q E"
  by (simp add: c_post_def)

lemma c_post_weaken:
  "c_post P m Q E \<Longrightarrow> (\<And>s. P' s \<Longrightarrow> P s) \<Longrightarrow> (\<And>x s. Q x s \<Longrightarrow> Q' x s) \<Longrightarrow> (\<And>s. E s \<Longrightarrow> E' s) \<Longrightarrow>
     c_post P' m Q' E'"
  by (fastforce simp: c_post_def split: prod.splits sum.splits)

lemma c_postD: "c_post P m Q E \<Longrightarrow> P s \<Longrightarrow> m s = (Inr x, s') \<Longrightarrow> Q x s'"
  by (fastforce simp: c_post_def)

lemma c_postE: "c_post P m Q E \<Longrightarrow> P s \<Longrightarrow> m s = (Inl e, s') \<Longrightarrow> E s'"
  by (fastforce simp: c_post_def)

lemma c_post_split: "(\<And>s. P s \<Longrightarrow> \<exists>m'. m s = m' s \<and> c_post P m' Q E) \<Longrightarrow> c_post P m Q E"
  by (fastforce simp: c_post_def)

text \<open>An assertion that a call keeps, whether it returns or throws.\<close>

definition c_keeps :: "('s \<Rightarrow> bool) \<Rightarrow> ('s, 'a) call \<Rightarrow> bool" where
  "c_keeps I m \<longleftrightarrow> c_post I m (\<lambda>_. I) I"

lemma c_keeps_bind: "c_keeps I m \<Longrightarrow> (\<And>x. c_keeps I (f x)) \<Longrightarrow> c_keeps I (c_bind m f)"
  unfolding c_keeps_def by (rule c_post_bind)

lemma c_keeps_catch: "c_keeps I m \<Longrightarrow> c_keeps I h \<Longrightarrow> c_keeps I (c_catch m h)"
  unfolding c_keeps_def by (rule c_post_catch)

lemma c_keeps_rethrow: "c_keeps I m \<Longrightarrow> c_keeps I h \<Longrightarrow> c_keeps I (c_catch_rethrow m h)"
  unfolding c_keeps_def by (rule c_post_rethrow)

lemma c_keeps_modify: "(\<And>s. I s \<Longrightarrow> I (f s)) \<Longrightarrow> c_keeps I (c_modify f)"
  unfolding c_keeps_def by (rule c_post_modify)

lemma c_keeps_pure: "c_keeps I (c_return x)" "c_keeps I (c_throw e)"
  unfolding c_keeps_def by (rule c_post_return c_post_throw, assumption)+

lemma c_keeps_state: "(\<And>s. I s \<Longrightarrow> c_keeps I (m s)) \<Longrightarrow> c_keeps I (\<lambda>s. m s s)"
  by (simp add: c_keeps_def c_post_def)

lemmas c_keeps = c_keeps_bind c_keeps_catch c_keeps_rethrow c_keeps_modify c_keeps_pure

end
