(* ===== verification/Version_Store.thy ===== *)
theory Version_Store
  imports Deployment Call_Assertions
begin

text \<open>
  The contract between the deployment service and its backend, as a locale; what the pipeline of \<open>deploy\<close> does to the
  versions under that contract; and the proof that the backend on files keeps it whatever call of the machine fails.
\<close>

section \<open>The contract of a backend\<close>

text \<open>
  What a backend promises about the version that is active and the versions that are saved, by deployment:
  commands leave both alone, staging saves the active version, installing makes a file that matches the
  artifact active, restoring brings the saved version back; and what a failed operation may leave: nothing of its
  effect, or all of it.
\<close>

definition matches :: "artifact \<Rightarrow> byte list option \<Rightarrow> bool" where
  "matches a c \<longleftrightarrow> (\<exists>bs. c = Some bs \<and> of_nat (length bs) = art_size a \<and> sha256_file (Some bs) = Inr (art_sha256 a))"

locale version_store =
  fixes ops :: "'b deployment_backend"
    and wf :: "'b \<Rightarrow> bool"
    and active :: "'b \<Rightarrow> byte list option"
    and saved :: "'b \<Rightarrow> string \<Rightarrow> byte list option"
  assumes stop: "wf b \<Longrightarrow> bk_stop ops b = (r, b') \<Longrightarrow> wf b' \<and> active b' = active b \<and> saved b' = saved b"
    and start: "wf b \<Longrightarrow> bk_start ops b = (r, b') \<Longrightarrow> wf b' \<and> active b' = active b \<and> saved b' = saved b"
    and health: "wf b \<Longrightarrow> bk_health_check ops b = (r, b') \<Longrightarrow> wf b' \<and> active b' = active b \<and> saved b' = saved b"
    and stage: "wf b \<Longrightarrow> valid_id d \<Longrightarrow> bk_stage_previous ops d b = (u, b') \<Longrightarrow> wf b' \<and>
      (case u of Inr _ \<Rightarrow> active b \<noteq> None \<and> saved b' = (saved b)(d := active b)
       | Inl _ \<Rightarrow> active b' = active b \<and> saved b' = saved b \<or>
           active b \<noteq> None \<and> saved b' = (saved b)(d := active b))"
    and install: "wf b \<Longrightarrow> valid_id d \<Longrightarrow> bk_install ops d p a b = (u, b') \<Longrightarrow> wf b' \<and> saved b' = saved b \<and>
      (case u of Inr _ \<Rightarrow> matches a (active b') | Inl _ \<Rightarrow> active b' = active b \<or> matches a (active b'))"
    and restore: "wf b \<Longrightarrow> valid_id d \<Longrightarrow> bk_restore_previous ops d b = (u, b') \<Longrightarrow> wf b' \<and>
      (case u of Inr _ \<Rightarrow> saved b d \<noteq> None \<and> active b' = saved b d
       | Inl _ \<Rightarrow> saved b' d = saved b d \<and> (saved b d = None \<longrightarrow> active b' = active b) \<or>
           saved b d \<noteq> None \<and> active b' = saved b d)"
begin

text \<open>An assertion about the active and the saved version of deployment \<open>d\<close>.\<close>

definition versions :: "string \<Rightarrow> (byte list option \<Rightarrow> byte list option \<Rightarrow> bool) \<Rightarrow> 'b deploying \<Rightarrow> bool" where
  "versions d A w \<longleftrightarrow> ds_ops (dp_service w) = ops \<and> wf (ds_backend (dp_service w)) \<and>
     A (active (ds_backend (dp_service w))) (saved (ds_backend (dp_service w)) d)"

lemma versions_step [simp]: "versions d A (w\<lparr>dp_step := st\<rparr>) = versions d A w"
  "versions d A (w\<lparr>dp_record := r\<rparr>) = versions d A w"
  by (simp_all add: versions_def)

lemma post_now: "c_post (versions d A) (on_service steady_now) (\<lambda>_. versions d A) E"
  by (simp add: c_post_def on_service_def steady_now_def versions_def)

lemma post_push: "c_post (versions d A) (push_evidence e) (\<lambda>_. versions d A) E"
  unfolding push_evidence_def by (rule c_post_modify) simp

lemma post_failure: "c_post (versions d A) (push_failure st t) (\<lambda>_. versions d A) E"
  unfolding push_failure_def by (rule c_post_bind, rule post_now, rule post_push)

lemma post_set_step: "c_post (versions d A) (c_modify (\<lambda>w. w\<lparr>dp_step := st\<rparr>)) (\<lambda>_. versions d A) E"
  by (rule c_post_modify) simp

text \<open>A process step leaves the versions as they are, whether it returns or throws.\<close>

definition harmless :: "('b deployment_backend \<Rightarrow> ('b, 'a) call) \<Rightarrow> bool" where
  "harmless operation \<longleftrightarrow> (\<forall>b r b'. wf b \<longrightarrow> operation ops b = (r, b') \<longrightarrow> wf b' \<and> active b' = active b \<and> saved b' = saved b)"

lemma harmless_commands: "harmless bk_stop" "harmless bk_start" "harmless bk_health_check"
  unfolding harmless_def using stop start health by blast+

lemma post_process:
  assumes "harmless operation"
  shows "c_post (versions d A) (process_step st operation) (\<lambda>_. versions d A) (versions d A)"
proof -
  have op: "c_post (versions d A) (on_service (on_backend operation)) (\<lambda>_. versions d A) (versions d A)"
    using assms by (fastforce simp: c_post_def on_service_def on_backend_def versions_def harmless_def
        split: prod.split sum.split)
  have require: "c_post (versions d A) (require_command e) (\<lambda>_. versions d A) (versions d A)" for e
    by (simp add: require_command_def c_post_return c_post_throw)
  have handler: "c_post (versions d A) (\<lambda>w. if dr_evidence (dp_record w) = [] \<or>
      se_step (last (dr_evidence (dp_record w))) \<noteq> st then push_failure st t w else c_return () w)
      (\<lambda>_. versions d A) (versions d A)" for t
    using post_failure [of d A st t "versions d A"] by (auto simp: c_post_def)
  show ?thesis
    unfolding process_step_def Let_def
    by (rule c_post_bind, rule post_set_step, rule c_post_bind, rule post_now, rule c_post_rethrow,
        rule c_post_bind, rule op, rule c_post_bind, rule post_push, rule require, rule handler)
qed

lemma post_file:
  assumes "c_post (versions d A) (on_service (on_backend operation)) (\<lambda>_. versions d B) (versions d C)"
  shows "c_post (versions d A) (file_step st operation) (\<lambda>_. versions d B) (versions d C)"
  unfolding file_step_def
  by (rule c_post_bind, rule post_set_step, rule c_post_bind, rule post_now, rule c_post_rethrow,
      rule c_post_bind, rule assms, rule c_post_bind, rule post_now, rule post_push, rule post_failure)

lemma post_stage:
  assumes "valid_id d"
  shows "c_post (versions d (\<lambda>a s. a = old \<and> s = None)) (file_step St_stage_previous (\<lambda>ops. bk_stage_previous ops d))
    (\<lambda>_. versions d (\<lambda>a s. s = old \<and> old \<noteq> None))
    (versions d (\<lambda>a s. (a = old \<and> s = None) \<or> (s = old \<and> old \<noteq> None)))"
  by (rule post_file) (use stage [OF _ assms] in
    \<open>fastforce simp: c_post_def on_service_def on_backend_def versions_def split: prod.split sum.split\<close>)

lemma post_restore:
  assumes "valid_id d"
  shows "c_post (versions d (\<lambda>a s. (a = old \<and> s = None) \<or> (s = old \<and> old \<noteq> None)))
    (file_step St_rollback_restore (\<lambda>ops. bk_restore_previous ops d))
    (\<lambda>_. versions d (\<lambda>a s. a = old)) (versions d (\<lambda>a s. a = old \<or> s = old))"
  by (rule post_file) (use restore [OF _ assms] in
    \<open>fastforce simp: c_post_def on_service_def on_backend_def versions_def split: prod.split sum.split\<close>)

lemma post_install:
  assumes "valid_id d"
  shows "c_post (versions d (\<lambda>a s. s = old \<and> old \<noteq> None))
    (\<lambda>w. file_step St_install (install_operation (ds_artifacts (dp_service w)) d art) w)
    (\<lambda>_. versions d (\<lambda>a s. s = old \<and> old \<noteq> None \<and> matches art a)) (versions d (\<lambda>a s. s = old \<and> old \<noteq> None))"
proof -
  have "c_post (versions d (\<lambda>a s. s = old \<and> old \<noteq> None)) (file_step St_install (install_operation store d art))
    (\<lambda>_. versions d (\<lambda>a s. s = old \<and> old \<noteq> None \<and> matches art a)) (versions d (\<lambda>a s. s = old \<and> old \<noteq> None))" for store
    by (rule post_file) (use install [OF _ assms] in
      \<open>fastforce simp: c_post_def on_service_def on_backend_def versions_def install_operation_def c_throw_def
        split: prod.split sum.split\<close>)
  then show ?thesis
    by (simp add: c_post_def)
qed

text \<open>What holds of the versions when the pipeline has ended, by the status it has set.\<close>

definition outcome_ok :: "artifact \<Rightarrow> byte list option \<Rightarrow> deployment_status \<Rightarrow> byte list option \<Rightarrow> byte list option \<Rightarrow> bool" where
  "outcome_ok art old st a s \<longleftrightarrow> (case st of
     Active \<Rightarrow> matches art a \<and> s = old
   | Rolled_back \<Rightarrow> a = old
   | Failed \<Rightarrow> a = old \<or> s = old
   | Deploying \<Rightarrow> False)"

lemma post_status:
  assumes "\<And>a s. A a s \<Longrightarrow> outcome_ok art old st a s"
  shows "c_post (versions d A) (set_status st)
    (\<lambda>_ w. versions d (outcome_ok art old (dr_status (dp_record w))) w) E"
  unfolding set_status_def by (rule c_post_modify) (use assms in \<open>auto simp: versions_def\<close>)

lemma post_reason:
  "c_post (versions d A) (c_modify (\<lambda>w. w\<lparr>dp_record := (dp_record w)\<lparr>dr_failure_reason := step_failure_reason (dp_step w)\<rparr>\<rparr>))
     (\<lambda>_. versions d A) E"
  by (rule c_post_modify) simp

lemma post_pipeline:
  assumes "valid_id (dq_deployment_id request)"
  shows "c_post (versions (dq_deployment_id request) (\<lambda>a s. a = old \<and> s = None)) (run_pipeline request art)
    (\<lambda>_ w. versions (dq_deployment_id request) (outcome_ok art old (dr_status (dp_record w))) w) (\<lambda>_. False)"
proof -
  let ?d = "dq_deployment_id request"
  let ?Q = "\<lambda>(_ :: unit) w. versions ?d (outcome_ok art old (dr_status (dp_record w))) w"
  let ?start = "versions ?d (\<lambda>a s. a = old \<and> s = None)"
  let ?saved = "versions ?d (\<lambda>a s. s = old \<and> old \<noteq> None)"
  let ?new = "versions ?d (\<lambda>a s. s = old \<and> old \<noteq> None \<and> matches art a)"
  let ?E = "versions ?d (\<lambda>a s. (a = old \<and> s = None) \<or> (s = old \<and> old \<noteq> None))"
  let ?was = "versions ?d (\<lambda>a s. a = old)"
  let ?lost = "versions ?d (\<lambda>a s. a = old \<or> s = old)"
  have weak: "?start w \<Longrightarrow> ?E w" "?saved w \<Longrightarrow> ?E w" "?new w \<Longrightarrow> ?E w" "?E w \<Longrightarrow> ?lost w" "?was w \<Longrightarrow> ?lost w" for w
    by (auto simp: versions_def)
  have stop: "c_post ?start (process_step St_stop bk_stop) (\<lambda>_. ?start) ?E"
    by (rule c_post_weaken [OF post_process [OF harmless_commands(1)]]) (assumption | erule weak)+
  have stage: "c_post ?start (file_step St_stage_previous (\<lambda>ops. bk_stage_previous ops ?d)) (\<lambda>_. ?saved) ?E"
    by (rule c_post_weaken [OF post_stage [OF assms]]) (assumption | erule weak)+
  have install: "c_post ?saved (\<lambda>w. file_step St_install (install_operation (ds_artifacts (dp_service w)) ?d art) w)
      (\<lambda>_. ?new) ?E"
    by (rule c_post_weaken [OF post_install [OF assms]]) (assumption | erule weak)+
  have start: "c_post ?new (process_step St_start bk_start) (\<lambda>_. ?new) ?E"
    by (rule c_post_weaken [OF post_process [OF harmless_commands(2)]]) (assumption | erule weak)+
  have health: "c_post ?new (process_step St_health_check bk_health_check) (\<lambda>_. ?new) ?E"
    by (rule c_post_weaken [OF post_process [OF harmless_commands(3)]]) (assumption | erule weak)+
  have status: "c_post ?new (set_status Active) ?Q ?E"
    by (rule post_status) (simp add: outcome_ok_def)
  have rollback_stop: "c_post ?E (process_step St_rollback_stop bk_stop) (\<lambda>_. ?E) ?lost"
    by (rule c_post_weaken [OF post_process [OF harmless_commands(1)]]) (assumption | erule weak)+
  have rollback_restore: "c_post ?E (file_step St_rollback_restore (\<lambda>ops. bk_restore_previous ops ?d)) (\<lambda>_. ?was) ?lost"
    by (rule post_restore [OF assms])
  have rollback_start: "c_post ?was (process_step St_rollback_start bk_start) (\<lambda>_. ?was) ?lost"
    by (rule c_post_weaken [OF post_process [OF harmless_commands(2)]]) (assumption | erule weak)+
  have rollback_health: "c_post ?was (process_step St_rollback_health_check bk_health_check) (\<lambda>_. ?was) ?lost"
    by (rule c_post_weaken [OF post_process [OF harmless_commands(3)]]) (assumption | erule weak)+
  have status_back: "c_post ?was (set_status Rolled_back) ?Q ?lost"
    by (rule post_status) (simp add: outcome_ok_def)
  have status_lost: "c_post ?lost (set_status Failed) ?Q (\<lambda>_. False)"
    by (rule post_status) (simp add: outcome_ok_def)
  show ?thesis
    unfolding run_pipeline_def
    by (rule c_post_catch,
        (rule c_post_bind, rule stop, rule c_post_bind, rule stage, rule c_post_bind, rule install,
         rule c_post_bind, rule start, rule c_post_bind, rule health, rule status),
        (rule c_post_bind, rule post_reason, rule c_post_catch,
          (rule c_post_bind, rule rollback_stop, rule c_post_bind, rule rollback_restore,
           rule c_post_bind, rule rollback_start, rule c_post_bind, rule rollback_health, rule status_back),
          rule status_lost))
qed

end

section \<open>The backend on files keeps the contract\<close>

text \<open>The backend \<open>b\<close> is \<open>b0\<close> with a machine in the same environment on which the contents are \<open>C\<close>.\<close>

definition contents :: "file_backend \<Rightarrow> (path \<Rightarrow> byte list option) \<Rightarrow> file_backend \<Rightarrow> bool" where
  "contents b0 C b \<longleftrightarrow> b = b0\<lparr>fb_machine := fb_machine b\<rparr> \<and> mc_os (fb_machine b) = mc_os (fb_machine b0) \<and>
     content_at (fb_files b) = C"

lemma content_at_upd [simp]:
  "content_at (fs(p := Some (File c))) = (content_at fs)(p := Some c)"
  "content_at (fs(p := Some Dir)) = (content_at fs)(p := None)"
  "content_at (fs(p := None)) = (content_at fs)(p := None)"
  by (auto simp: content_at_def)

lemma content_at_map_File: "content_at (fs(p := map_option File left)) = (content_at fs)(p := left)"
  by (cases left) simp_all

lemma regular_file_node: "regular_file fs p \<Longrightarrow> \<exists>c. fs p = Some (File c)"
  by (auto simp: regular_file_def split: option.splits fs_node.splits)

lemma contents_machine: "contents b0 C b \<Longrightarrow> mc_os m = mc_os (fb_machine b) \<Longrightarrow>
    contents b0 C' (b\<lparr>fb_machine := m\<rparr>) \<longleftrightarrow> content_at (mc_fs m) = C'"
  by (simp add: contents_def fb_files_def) (metis file_backend.update_convs(1) file_backend.surjective)

lemma post_contents:
  assumes "\<And>m. content_at (mc_fs m) = C \<Longrightarrow> (case op m of (Inr x, m') \<Rightarrow> Q x \<and> content_at (mc_fs m') = C' |
      (Inl e, m') \<Rightarrow> E (content_at (mc_fs m')))"
    and os: "\<And>m. mc_os (snd (op m)) = mc_os m"
  shows "c_post (contents b0 C) (on_machine op) (\<lambda>x b. Q x \<and> contents b0 C' b) (\<lambda>b. \<exists>D. contents b0 D b \<and> E D)"
proof -
  have "case on_machine op b of (Inl e, b') \<Rightarrow> \<exists>D. contents b0 D b' \<and> E D
      | (Inr x, b') \<Rightarrow> Q x \<and> contents b0 C' b'" if "contents b0 C b" for b
  proof -
    have "content_at (mc_fs (fb_machine b)) = C"
      using that by (simp add: contents_def fb_files_def)
    from assms(1) [OF this] show ?thesis
      using contents_machine [OF that] os [of "fb_machine b"]
      by (auto simp: on_machine_def split: prod.splits sum.splits)
  qed
  then show ?thesis
    by (auto simp: c_post_def split: prod.splits sum.splits)
qed

lemma same_environment [simp]:
  "mc_os (snd (os_do c effect left_behind m)) = mc_os m" "mc_os (snd (flush_file p m)) = mc_os m"
  "mc_os (snd (create_directories p m)) = mc_os m" "mc_os (snd (atomic_replace p q m)) = mc_os m"
  "mc_os (snd (copy_file p q m)) = mc_os m" "mc_os (snd (execute command m)) = mc_os m"
proof -
  show os_do: "mc_os (snd (os_do c effect left_behind m)) = mc_os m" for c effect left_behind
    by (simp add: os_do_def Let_def split: option.split)
  show "mc_os (snd (flush_file p m)) = mc_os m" "mc_os (snd (create_directories p m)) = mc_os m"
    "mc_os (snd (atomic_replace p q m)) = mc_os m" "mc_os (snd (copy_file p q m)) = mc_os m"
    "mc_os (snd (execute command m)) = mc_os m"
    by (simp_all add: flush_file_def create_directories_def atomic_replace_def copy_file_def execute_def os_do Let_def
        split: option.split)
qed

lemma post_flush: "c_post (contents b0 C) (on_machine (flush_file p)) (\<lambda>_. contents b0 C) (contents b0 C)"
  by (rule c_post_weaken [OF post_contents [where Q = "\<lambda>_. True" and C' = C and E = "\<lambda>D. D = C"]])
    (auto simp: flush_file_def os_do_def Let_def split: option.split)

lemma post_mkdir: "c_post (contents b0 C) (on_machine (create_directories p)) (\<lambda>_. contents b0 C) (contents b0 C)"
proof -
  have "content_at (\<lambda>q. if has_prefix p q \<and> fs q = None then Some Dir else fs q) = content_at fs" for fs
    by (auto simp: content_at_def)
  then show ?thesis
    by (intro c_post_weaken [OF post_contents [where Q = "\<lambda>_. True" and C' = C and E = "\<lambda>D. D = C"]])
      (auto simp: create_directories_def os_do_def Let_def split: option.split)
qed

lemma post_replace:
  assumes "p \<noteq> q"
  shows "c_post (contents b0 C) (on_machine (atomic_replace p q))
    (\<lambda>_ b. C p \<noteq> None \<and> contents b0 (C(q := C p, p := None)) b)
    (\<lambda>b. contents b0 C b \<or> C p \<noteq> None \<and> contents b0 (C(q := C p, p := None)) b)"
proof (rule c_post_weaken [OF post_contents [where Q = "\<lambda>_. C p \<noteq> None" and C' = "C(q := C p, p := None)"
        and E = "\<lambda>D. D = C \<or> C p \<noteq> None \<and> D = C(q := C p, p := None)"]])
  fix m :: machine
  assume C: "content_at (mc_fs m) = C"
  show "case atomic_replace p q m of (Inr x, m') \<Rightarrow> C p \<noteq> None \<and> content_at (mc_fs m') = C(q := C p, p := None)
      | (Inl e, m') \<Rightarrow> content_at (mc_fs m') = C \<or> C p \<noteq> None \<and> content_at (mc_fs m') = C(q := C p, p := None)"
  proof (cases "regular_file (mc_fs m) p")
    case False
    then show ?thesis
      using C by (simp add: atomic_replace_def)
  next
    case True
    then obtain c where c: "mc_fs m p = Some (File c)"
      using regular_file_node by blast
    then have "C p = Some c"
      using C by (auto simp: content_at_def)
    then show ?thesis
      using C c True assms by (auto simp: atomic_replace_def move_node os_do_def Let_def split: option.split)
  qed
qed auto

lemma post_copy:
  "c_post (contents b0 C) (on_machine (copy_file p q)) (\<lambda>_ b. C p \<noteq> None \<and> contents b0 (C(q := C p)) b)
     (\<lambda>b. \<exists>x. contents b0 (C(q := x)) b)"
proof (rule c_post_weaken [OF post_contents
      [where Q = "\<lambda>_. C p \<noteq> None" and C' = "C(q := C p)" and E = "\<lambda>D. \<exists>x. D = C(q := x)"]])
  fix m :: machine
  assume C: "content_at (mc_fs m) = C"
  show "case copy_file p q m of (Inr x, m') \<Rightarrow> C p \<noteq> None \<and> content_at (mc_fs m') = C(q := C p)
      | (Inl e, m') \<Rightarrow> \<exists>x. content_at (mc_fs m') = C(q := x)"
  proof (cases "\<not> regular_file (mc_fs m) p \<or> mc_fs m q \<noteq> None")
    case True
    then show ?thesis
      using C by (simp add: copy_file_def) (metis fun_upd_triv)
  next
    case False
    then obtain c where c: "mc_fs m p = Some (File c)"
      using regular_file_node by blast
    then have "C p = Some c"
      using C by (auto simp: content_at_def)
    then show ?thesis
      using C c False by (auto simp: copy_file_def os_do_def Let_def content_at_map_File split: option.split)
  qed
qed auto

lemma post_require_match:
  "c_post (contents b0 C) (require_match p a e) (\<lambda>_ b. matches a (C p) \<and> contents b0 C b) (contents b0 C)"
  by (auto simp: c_post_def require_match_def c_check_def file_matches_def matches_def contents_def and_then_def
      throw_if_def split: option.splits sum.splits if_splits)

definition fb_slot :: "file_backend \<Rightarrow> string \<Rightarrow> path" where
  "fb_slot b d = fb_root b @ [''rollback'', d @ ''.previous'']"

text \<open>The commands stop, start and check the service: they may write files, but neither the active version nor a saved one.\<close>

definition service_commands_harmless :: "file_backend \<Rightarrow> bool" where
  "service_commands_harmless b \<longleftrightarrow> (\<forall>calls command fs d.
     command \<in> {fb_stop_command b, fb_start_command b, fb_health_command b} \<longrightarrow>
     os_changes (mc_os (fb_machine b)) calls command fs (fb_active b) = fs (fb_active b) \<and>
     os_changes (mc_os (fb_machine b)) calls command fs (fb_slot b d) = fs (fb_slot b d))"

text \<open>The active version is below the root and not in the directories of saved and failed versions, and the commands leave
  the versions alone.\<close>

definition fb_wf :: "file_backend \<Rightarrow> bool" where
  "fb_wf b \<longleftrightarrow> canonical (fb_root b) \<and> (\<exists>rel. fb_active b = fb_root b @ rel \<and> rel \<noteq> [] \<and> canonical rel \<and>
     hd rel \<noteq> ''rollback'' \<and> hd rel \<noteq> ''failed'') \<and> service_commands_harmless b"

definition fb_failed_slot :: "file_backend \<Rightarrow> string \<Rightarrow> path" where
  "fb_failed_slot b d = fb_root b @ [''failed'', d @ ''.failed'']"

definition fb_installed :: "file_backend \<Rightarrow> byte list option" where
  "fb_installed b = content_at (fb_files b) (fb_active b)"

definition fb_saved :: "file_backend \<Rightarrow> string \<Rightarrow> byte list option" where
  "fb_saved b d = (if valid_id d then content_at (fb_files b) (fb_slot b d) else None)"

lemma contents_paths:
  assumes "contents b0 C b"
  shows "fb_root b = fb_root b0" "fb_active b = fb_active b0" "rollback_path b d = rollback_path b0 d"
    "failed_path b d = failed_path b0 d" "staging_path b d = staging_path b0 d" "fb_wf b = fb_wf b0"
    "fb_slot b d = fb_slot b0 d" "content_at (fb_files b) = C" "fb_stop_command b = fb_stop_command b0"
    "fb_start_command b = fb_start_command b0" "fb_health_command b = fb_health_command b0"
proof -
  have b: "b = b0\<lparr>fb_machine := fb_machine b\<rparr>" and C: "content_at (fb_files b) = C"
    and os: "mc_os (fb_machine b) = mc_os (fb_machine b0)"
    using assms by (simp_all add: contents_def)
  have eq: "fb_root b = fb_root b0" "fb_active b = fb_active b0"
    "fb_stop_command b = fb_stop_command b0" "fb_start_command b = fb_start_command b0"
    "fb_health_command b = fb_health_command b0"
    by (subst b, simp)+
  then show "fb_root b = fb_root b0" "fb_active b = fb_active b0" "rollback_path b d = rollback_path b0 d"
    "failed_path b d = failed_path b0 d" "staging_path b d = staging_path b0 d" "fb_wf b = fb_wf b0"
    "fb_slot b d = fb_slot b0 d" "content_at (fb_files b) = C" "fb_stop_command b = fb_stop_command b0"
    "fb_start_command b = fb_start_command b0" "fb_health_command b = fb_health_command b0"
    using C os by (simp_all add: rollback_path_def failed_path_def staging_path_def fb_wf_def fb_slot_def
        service_commands_harmless_def)
qed

lemma contents_refl: "contents b (content_at (fb_files b)) b"
  by (simp add: contents_def)

lemma slot_paths:
  assumes "fb_wf b" "valid_id d"
  shows "rollback_path b d = Inr (fb_slot b d)" "failed_path b d = Inr (fb_failed_slot b d)"
    "fb_active b \<noteq> fb_slot b d'" "fb_active b \<noteq> fb_failed_slot b d'" "fb_failed_slot b d \<noteq> fb_slot b d'"
    "staging_path b d \<noteq> fb_active b" "valid_id d' \<Longrightarrow> staging_path b d \<noteq> fb_slot b d'"
proof -
  have parts: "canonical [''rollback'', d @ ''.previous'']" "canonical [''failed'', d @ ''.failed'']"
    using arg_cong [of "''.''" "d @ ''.previous''" length] arg_cong [of "''.''" "d @ ''.failed''" length]
      arg_cong [of "''..''" "d @ ''.previous''" length] arg_cong [of "''..''" "d @ ''.failed''" length]
    by (auto simp: canonical_def)
  then show "rollback_path b d = Inr (fb_slot b d)" "failed_path b d = Inr (fb_failed_slot b d)"
    using assms scope_resolve_plain [of "fb_root b"]
    by (simp_all add: rollback_path_def failed_path_def fb_slot_def fb_failed_slot_def fb_wf_def)
  obtain rel where rel: "fb_active b = fb_root b @ rel" "rel \<noteq> []" "hd rel \<noteq> ''rollback''" "hd rel \<noteq> ''failed''"
    using assms by (auto simp: fb_wf_def)
  then show "fb_active b \<noteq> fb_slot b d'" "fb_active b \<noteq> fb_failed_slot b d'"
    by (auto simp: fb_slot_def fb_failed_slot_def)
  show "fb_failed_slot b d \<noteq> fb_slot b d'"
    by (simp add: fb_slot_def fb_failed_slot_def)
  have staging: "last (staging_path b d) = ''.'' @ last (fb_active b) @ ''.deploy-'' @ d @ ''.part''"
    by (simp add: staging_path_def)
  have "length (last (staging_path b d)) > length (last (fb_active b))"
    unfolding staging by simp
  then show "staging_path b d \<noteq> fb_active b"
    by auto
  show "staging_path b d \<noteq> fb_slot b d'" if "valid_id d'"
  proof
    assume "staging_path b d = fb_slot b d'"
    then have "last (staging_path b d) = d' @ ''.previous''"
      by (simp add: fb_slot_def)
    then have "hd d' = CHR ''.''"
      using that unfolding staging by (cases d') (auto simp: valid_id_def)
    then show False
      using that by (cases d') (auto simp: valid_id_def is_alnum_def is_digit_def)
  qed
qed

lemma post_fb_stage:
  assumes "fb_wf b0" "valid_id d"
  shows "c_post (contents b0 C) (fb_stage_previous d)
    (\<lambda>_ b. C (fb_active b0) \<noteq> None \<and> contents b0 (C(fb_slot b0 d := C (fb_active b0), fb_active b0 := None)) b)
    (\<lambda>b. contents b0 C b \<or>
       C (fb_active b0) \<noteq> None \<and> contents b0 (C(fb_slot b0 d := C (fb_active b0), fb_active b0 := None)) b)"
    (is "c_post ?P ?m ?Q ?E")
proof (rule c_post_split)
  fix b
  assume b: "contents b0 C b"
  let ?e = "Logic_error ''deployment rollback slot is unavailable''"
  let ?chain = "c_bind (on_machine (create_directories (butlast (fb_slot b0 d)))) (\<lambda>_.
    c_bind (on_machine (flush_file (fb_active b0))) (\<lambda>_. on_machine (atomic_replace (fb_active b0) (fb_slot b0 d))))"
  note paths = slot_paths [OF assms] contents_paths [OF b]
  have still: "c_post ?P m (\<lambda>_. ?P) ?E" if "c_post ?P m (\<lambda>_. ?P) ?P" for m :: "(file_backend, unit) call"
    by (rule c_post_weaken [OF that]) simp_all
  have chain: "c_post ?P ?chain ?Q ?E"
    by (rule c_post_bind, rule still [OF post_mkdir], rule c_post_bind, rule still [OF post_flush], rule post_replace)
      (rule paths(3))
  have throw: "c_post ?P (c_throw ?e) ?Q ?E"
    by (rule c_post_throw) simp
  have "?m b = c_throw ?e b \<or> ?m b = ?chain b"
    by (simp add: fb_stage_previous_def paths)
  then show "\<exists>m'. ?m b = m' b \<and> c_post ?P m' ?Q ?E"
    using chain throw by blast
qed

text \<open>Contents that differ at most at the staging path.\<close>

definition near :: "file_backend \<Rightarrow> path \<Rightarrow> (path \<Rightarrow> byte list option) \<Rightarrow> file_backend \<Rightarrow> bool" where
  "near b0 p C b \<longleftrightarrow> (\<exists>x. contents b0 (C(p := x)) b)"

lemma contents_near: "contents b0 C b \<Longrightarrow> near b0 p C b" "contents b0 (C(p := x)) b \<Longrightarrow> near b0 p C b"
  unfolding near_def using fun_upd_triv [of C p] by metis+

text \<open>Contents in which the active version is one that matches the artifact.\<close>

definition replaced :: "file_backend \<Rightarrow> string \<Rightarrow> artifact \<Rightarrow> (path \<Rightarrow> byte list option) \<Rightarrow> file_backend \<Rightarrow> bool" where
  "replaced b0 d a C b \<longleftrightarrow> (\<exists>c. matches a c \<and> contents b0 (C(fb_active b0 := c, staging_path b0 d := None)) b)"

lemma post_fb_install:
  assumes "fb_wf b0" "valid_id d"
  shows "c_post (contents b0 C) (fb_install d p a)
    (\<lambda>_. replaced b0 d a C) (\<lambda>b. near b0 (staging_path b0 d) C b \<or> replaced b0 d a C b)" (is "c_post ?P ?m ?Q ?E")
proof (rule c_post_split)
  fix b
  assume b: "contents b0 C b"
  let ?staging = "staging_path b0 d"
  let ?artifact = "Invalid_argument ''deployment artifact failed verification''"
  let ?unavailable = "Logic_error ''deployment staging path is unavailable''"
  let ?staged = "Runtime_error ''deployment staged artifact verification failed''"
  let ?free = "c_check (\<lambda>b. throw_if (\<not> scope_contains_resolved (fb_root b) (staging_path b d) \<or>
      fb_files b (staging_path b d) \<noteq> None) ?unavailable)"
  let ?chain = "c_bind (require_match p a ?artifact) (\<lambda>_.
    c_bind (on_machine (create_directories (butlast (fb_active b0)))) (\<lambda>_. c_bind ?free (\<lambda>_.
    c_bind (on_machine (copy_file p ?staging)) (\<lambda>_. c_bind (require_match ?staging a ?staged) (\<lambda>_.
    c_bind (on_machine (flush_file ?staging)) (\<lambda>_. on_machine (atomic_replace ?staging (fb_active b0))))))))"
  note paths = contents_paths [OF b]
  have free: "c_post ?P ?free (\<lambda>_. ?P) ?E"
    by (auto simp: c_post_def c_check_def throw_if_def intro: contents_near)
  have match: "c_post ?P (require_match p a ?artifact) (\<lambda>_. ?P) ?E"
    by (rule c_post_weaken [OF post_require_match]) (auto intro: contents_near)
  have mkdir: "c_post ?P (on_machine (create_directories q)) (\<lambda>_. ?P) ?E" for q
    by (rule c_post_weaken [OF post_mkdir]) (auto intro: contents_near)
  have copy: "c_post ?P (on_machine (copy_file p ?staging)) (\<lambda>_. contents b0 (C(?staging := C p))) ?E"
    by (rule c_post_weaken [OF post_copy]) (auto intro: contents_near)
  have same: "c_post (contents b0 (C(?staging := C p))) (require_match ?staging a ?staged)
      (\<lambda>_ b. matches a (C p) \<and> contents b0 (C(?staging := C p)) b) ?E"
    by (rule c_post_weaken [OF post_require_match]) (auto intro: contents_near)
  have flush: "c_post (\<lambda>b. matches a (C p) \<and> contents b0 (C(?staging := C p)) b) (on_machine (flush_file q))
      (\<lambda>_ b. matches a (C p) \<and> contents b0 (C(?staging := C p)) b) ?E" for q
    using post_flush [of b0 "C(?staging := C p)" q] contents_near(2) [of b0 C ?staging "C p"]
    by (fastforce simp: c_post_def split: prod.splits sum.splits)
  have moved: "?Q () b" if "matches a (C p)" "contents b0 (C(fb_active b0 := C p, ?staging := None)) b" for b
    using that unfolding replaced_def by blast
  have ne: "?staging \<noteq> fb_active b0"
    using slot_paths(6) [OF assms] .
  have upd: "C(?staging := x, fb_active b0 := x, ?staging := None) = C(fb_active b0 := x, ?staging := None)" for x
    using ne by (simp add: fun_upd_twist)
  have replace: "c_post (\<lambda>b. matches a (C p) \<and> contents b0 (C(?staging := C p)) b)
      (on_machine (atomic_replace ?staging (fb_active b0))) ?Q ?E"
    unfolding c_post_def
  proof (intro allI impI)
    fix b
    assume b: "matches a (C p) \<and> contents b0 (C(?staging := C p)) b"
    obtain r b' where run: "on_machine (atomic_replace ?staging (fb_active b0)) b = (r, b')"
      by fastforce
    have post: "c_post (contents b0 (C(?staging := C p))) (on_machine (atomic_replace ?staging (fb_active b0)))
        (\<lambda>_ b. C p \<noteq> None \<and> contents b0 (C(fb_active b0 := C p, ?staging := None)) b)
        (\<lambda>b. contents b0 (C(?staging := C p)) b \<or> C p \<noteq> None \<and> contents b0 (C(fb_active b0 := C p, ?staging := None)) b)"
      using post_replace [OF ne, of b0 "C(?staging := C p)"] by (simp add: upd)
    show "case on_machine (atomic_replace ?staging (fb_active b0)) b of (Inl e, s') \<Rightarrow> ?E s' | (Inr x, s') \<Rightarrow> ?Q x s'"
    proof (cases r)
      case (Inl e)
      then show ?thesis
        using c_postE [OF post conjunct2 [OF b] run [unfolded Inl]] contents_near(2) [of b0 C ?staging "C p"] moved b
        by (auto simp: run)
    next
      case (Inr u)
      then show ?thesis
        using c_postD [OF post conjunct2 [OF b] run [unfolded Inr]] moved b by (simp add: run)
    qed
  qed
  have "c_post ?P ?chain ?Q ?E"
    by (rule c_post_bind, rule match, rule c_post_bind, rule mkdir, rule c_post_bind, rule free,
        rule c_post_bind, rule copy, rule c_post_bind, rule same, rule c_post_bind, rule flush, rule replace)
  moreover have "?m b = ?chain b"
    by (simp only: fb_install_def paths)
  ultimately show "\<exists>m'. ?m b = m' b \<and> c_post ?P m' ?Q ?E"
    by blast
qed

lemma post_fb_quarantine:
  assumes "fb_wf b0" "valid_id d"
  shows "c_post (contents b0 C) (fb_quarantine d)
    (\<lambda>_. contents b0 (C(fb_failed_slot b0 d := C (fb_active b0), fb_active b0 := None)))
    (\<lambda>b. contents b0 C b \<or>
       C (fb_active b0) \<noteq> None \<and> contents b0 (C(fb_failed_slot b0 d := C (fb_active b0), fb_active b0 := None)) b)"
    (is "c_post ?P ?m ?Q ?E")
proof (rule c_post_split)
  fix b
  assume b: "contents b0 C b"
  let ?e = "Logic_error ''failed deployment quarantine already exists''"
  let ?chain = "c_bind (on_machine (create_directories (butlast (fb_failed_slot b0 d)))) (\<lambda>_.
    c_bind (on_machine (flush_file (fb_active b0))) (\<lambda>_. on_machine (atomic_replace (fb_active b0) (fb_failed_slot b0 d))))"
  note paths = slot_paths [OF assms] contents_paths [OF b]
  have replace: "c_post ?P (on_machine (atomic_replace (fb_active b0) (fb_failed_slot b0 d))) ?Q ?E"
    by (rule c_post_weaken [OF post_replace [OF paths(4)]]) auto
  have still: "c_post ?P m (\<lambda>_. ?P) ?E" if "c_post ?P m (\<lambda>_. ?P) ?P" for m :: "(file_backend, unit) call"
    by (rule c_post_weaken [OF that]) simp_all
  have chain: "c_post ?P ?chain ?Q ?E"
    by (rule c_post_bind, rule still [OF post_mkdir], rule c_post_bind, rule still [OF post_flush], rule replace)
  have throw: "c_post ?P (c_throw ?e) ?Q ?E"
    by (rule c_post_throw) simp
  have "?m b = c_throw ?e b \<or> ?m b = ?chain b"
    by (simp add: fb_quarantine_def paths)
  then show "\<exists>m'. ?m b = m' b \<and> c_post ?P m' ?Q ?E"
    using chain throw by blast
qed

lemma post_fb_restore:
  assumes "fb_wf b0" "valid_id d"
  shows "c_post (contents b0 C) (fb_restore_previous d)
    (\<lambda>_ b. C (fb_slot b0 d) \<noteq> None \<and> (\<exists>D. contents b0 D b \<and> D (fb_active b0) = C (fb_slot b0 d)))
    (\<lambda>b. \<exists>D. contents b0 D b \<and> (D (fb_slot b0 d) = C (fb_slot b0 d) \<and> (C (fb_slot b0 d) = None \<longrightarrow> D = C) \<or>
       C (fb_slot b0 d) \<noteq> None \<and> D (fb_active b0) = C (fb_slot b0 d)))"
    (is "c_post ?P ?m ?Q ?E")
proof (rule c_post_split)
  fix b
  assume b: "contents b0 C b"
  let ?e = "Logic_error ''deployment rollback artifact is missing''"
  let ?replace = "on_machine (atomic_replace (fb_slot b0 d) (fb_active b0))"
  note paths = slot_paths [OF assms] contents_paths [OF b]
  have ne: "fb_slot b0 d \<noteq> fb_active b0"
    using paths(3) [of d] by simp
  have throw: "c_post ?P (c_throw ?e) ?Q ?E"
    by (rule c_post_throw) auto
  show "\<exists>m'. ?m b = m' b \<and> c_post ?P m' ?Q ?E"
  proof (cases "C (fb_slot b0 d) = None")
    case True
    then have "\<not> regular_file (fb_files b) (fb_slot b0 d)"
      using paths(15) by (simp add: regular_file_content)
    then have "?m b = c_throw ?e b"
      by (simp add: fb_restore_previous_def paths)
    then show ?thesis
      using throw by blast
  next
    case False
    have replace: "c_post (contents b0 D) ?replace ?Q ?E" if "D (fb_slot b0 d) = C (fb_slot b0 d)" for D
    proof (rule c_post_weaken [OF post_replace [OF ne]])
      have moved: "(D(fb_active b0 := D (fb_slot b0 d), fb_slot b0 d := None)) (fb_active b0) = C (fb_slot b0 d)"
        using that ne by simp
      let ?D' = "D(fb_active b0 := D (fb_slot b0 d), fb_slot b0 d := None)"
      show "?Q x s" if "D (fb_slot b0 d) \<noteq> None \<and> contents b0 ?D' s" for x s
        using that False moved by (intro conjI exI [of _ ?D']) simp_all
      show "?E s" if "contents b0 D s \<or> D (fb_slot b0 d) \<noteq> None \<and> contents b0 ?D' s" for s
        using that
      proof
        assume "contents b0 D s"
        then show ?thesis
          using False \<open>D (fb_slot b0 d) = C (fb_slot b0 d)\<close> by (intro exI [of _ D] conjI disjI1) auto
      next
        assume "D (fb_slot b0 d) \<noteq> None \<and> contents b0 ?D' s"
        then show ?thesis
          using False moved by (intro exI [of _ ?D']) simp
      qed
    qed
    let ?D = "C(fb_failed_slot b0 d := C (fb_active b0), fb_active b0 := None)"
    have kept: "?D (fb_slot b0 d) = C (fb_slot b0 d)"
      using paths(5) [of d] ne by simp
    have start: "?E s" if "contents b0 C s" for s
      using that False by (intro exI [of _ C] conjI disjI1) auto
    have away: "?E s" if "contents b0 ?D s" for s
      using that False kept by (intro exI [of _ ?D] conjI disjI1) blast+
    have "c_post ?P (fb_quarantine d) (\<lambda>_. contents b0 ?D) ?E"
      by (rule c_post_weaken [OF post_fb_quarantine [OF assms, where C = C]]) (assumption, assumption, elim disjE conjE, rule start, assumption, rule away)
    then have "c_post ?P (c_bind (fb_quarantine d) (\<lambda>_. ?replace)) ?Q ?E"
      by (rule c_post_bind) (rule replace, use paths(5) [of d] ne in simp)
    moreover have "c_post ?P (c_bind (c_return ()) (\<lambda>_. ?replace)) ?Q ?E"
      by (rule c_post_bind, rule c_post_return, assumption, rule replace, rule refl)
    moreover have "?m b = c_bind (fb_quarantine d) (\<lambda>_. ?replace) b \<or> ?m b = c_bind (c_return ()) (\<lambda>_. ?replace) b
        \<or> ?m b = c_throw ?e b"
      by (simp add: fb_restore_previous_def paths)
    ultimately show ?thesis
      using throw by blast
  qed
qed

lemma contents_saved: "contents b0 C b \<Longrightarrow> fb_saved b d = (if valid_id d then C (fb_slot b0 d) else None)"
  "contents b0 C b \<Longrightarrow> fb_installed b = C (fb_active b0)"
  using contents_paths [of b0 C b] by (simp_all add: fb_saved_def fb_installed_def)

lemma command_law:
  assumes "fb_wf b" and "on_machine (execute command) b = (r, b')"
    and "command \<in> {fb_stop_command b, fb_start_command b, fb_health_command b}"
  shows "fb_wf b' \<and> fb_installed b' = fb_installed b \<and> fb_saved b' = fb_saved b"
proof -
  obtain m where m: "execute command (fb_machine b) = (r, m)" "b' = b\<lparr>fb_machine := m\<rparr>"
    using assms(2) by (auto simp: on_machine_def split: prod.splits)
  have os: "mc_os m = mc_os (fb_machine b)"
    using same_environment(6) [of command "fb_machine b"] m(1) by simp
  have files: "mc_fs m = os_changes (mc_os (fb_machine b)) (mc_calls (fb_machine b)) command (mc_fs (fb_machine b))"
    using m(1) by (auto simp: execute_def Let_def split: option.splits)
  have "mc_fs m (fb_active b) = fb_files b (fb_active b)" "mc_fs m (fb_slot b d) = fb_files b (fb_slot b d)" for d
    using assms(1,3) unfolding files fb_wf_def service_commands_harmless_def fb_files_def by blast+
  then have "fb_installed b' = fb_installed b" "fb_saved b' = fb_saved b"
    by (simp_all add: m(2) fb_installed_def fb_saved_def fb_files_def fb_slot_def content_at_def fun_eq_iff)
  moreover have "fb_wf b'"
    using assms(1) os by (simp add: m(2) fb_wf_def service_commands_harmless_def fb_slot_def)
  ultimately show ?thesis
    by blast
qed

interpretation files: version_store file_backend_ops fb_wf fb_installed fb_saved
proof (unfold_locales; unfold file_backend_ops_def deployment_backend.simps)
  fix b r b'
  show "fb_wf b \<Longrightarrow> fb_stop b = (r, b') \<Longrightarrow> fb_wf b' \<and> fb_installed b' = fb_installed b \<and> fb_saved b' = fb_saved b"
    using command_law [of b "fb_stop_command b"] by (simp add: fb_stop_def)
  show "fb_wf b \<Longrightarrow> fb_start b = (r, b') \<Longrightarrow> fb_wf b' \<and> fb_installed b' = fb_installed b \<and> fb_saved b' = fb_saved b"
    using command_law [of b "fb_start_command b"] by (simp add: fb_start_def)
  show "fb_wf b \<Longrightarrow> fb_health_check b = (r, b') \<Longrightarrow> fb_wf b' \<and> fb_installed b' = fb_installed b \<and> fb_saved b' = fb_saved b"
    using command_law [of b "fb_health_command b"] by (simp add: fb_health_check_def)
next
  fix b d u b'
  assume wf: "fb_wf b" and d: "valid_id d" and run: "fb_stage_previous d b = (u, b')"
  let ?C = "content_at (fb_files b)"
  have saved: "fb_saved b = (\<lambda>d. if valid_id d then ?C (fb_slot b d) else None)" "fb_installed b = ?C (fb_active b)"
    using contents_saved [OF contents_refl, of b] by (auto simp: fun_eq_iff)
  have slots: "fb_slot b d1 = fb_slot b d2 \<longleftrightarrow> d1 = d2" "fb_slot b d1 \<noteq> fb_active b" for d1 d2
    using slot_paths(3) [OF wf d, of d1] by (auto simp: fb_slot_def)
  show "fb_wf b' \<and> (case u of Inr _ \<Rightarrow> fb_installed b \<noteq> None \<and> fb_saved b' = (fb_saved b)(d := fb_installed b)
      | Inl _ \<Rightarrow> fb_installed b' = fb_installed b \<and> fb_saved b' = fb_saved b \<or>
          fb_installed b \<noteq> None \<and> fb_saved b' = (fb_saved b)(d := fb_installed b))"
  proof -
    let ?D = "?C(fb_slot b d := ?C (fb_active b), fb_active b := None)"
    have same: "fb_wf b' \<and> fb_installed b' = fb_installed b \<and> fb_saved b' = fb_saved b" if c: "contents b ?C b'"
      using wf contents_paths(6) [OF c] contents_saved [OF c] by (simp add: saved fun_eq_iff)
    have moved: "fb_wf b' \<and> fb_installed b \<noteq> None \<and> fb_saved b' = (fb_saved b)(d := fb_installed b)"
      if D: "?C (fb_active b) \<noteq> None" "contents b ?D b'"
      using D wf d contents_paths(6) [OF D(2)] contents_saved [OF D(2)] by (auto simp: saved fun_eq_iff slots)
    show ?thesis
    proof (cases u)
      case (Inl e)
      then show ?thesis
        using c_postE [OF post_fb_stage [OF wf d] contents_refl run [unfolded Inl]] same moved by auto
    next
      case (Inr x)
      then show ?thesis
        using c_postD [OF post_fb_stage [OF wf d] contents_refl run [unfolded Inr]] moved by simp
    qed
  qed
next
  fix b d p a u b'
  assume wf: "fb_wf b" and d: "valid_id d" and run: "fb_install d p a b = (u, b')"
  let ?C = "content_at (fb_files b)"
  have saved: "fb_saved b = (\<lambda>d. if valid_id d then ?C (fb_slot b d) else None)" "fb_installed b = ?C (fb_active b)"
    using contents_saved [OF contents_refl, of b] by (auto simp: fun_eq_iff)
  have ne: "staging_path b d \<noteq> fb_active b" "valid_id d' \<Longrightarrow> fb_slot b d' \<noteq> staging_path b d"
      "fb_slot b d' \<noteq> fb_active b" for d'
    using slot_paths(3,6,7) [OF wf d] by metis+
  show "fb_wf b' \<and> fb_saved b' = fb_saved b \<and>
    (case u of Inr _ \<Rightarrow> matches a (fb_installed b')
     | Inl _ \<Rightarrow> fb_installed b' = fb_installed b \<or> matches a (fb_installed b'))"
  proof -
    have same: "fb_wf b' \<and> fb_saved b' = fb_saved b \<and> fb_installed b' = fb_installed b"
      if x: "contents b (?C(staging_path b d := x)) b'" for x
      using wf contents_paths(6) [OF x] contents_saved [OF x] ne by (auto simp: saved fun_eq_iff)
    have moved: "fb_wf b' \<and> fb_saved b' = fb_saved b \<and> matches a (fb_installed b')" if "replaced b d a ?C b'"
    proof -
      obtain c where c: "matches a c" "contents b (?C(fb_active b := c, staging_path b d := None)) b'"
        using \<open>replaced b d a ?C b'\<close> by (auto simp: replaced_def)
      then show ?thesis
        using wf contents_paths(6) [OF c(2)] contents_saved [OF c(2)] ne by (auto simp: saved fun_eq_iff)
    qed
    show ?thesis
    proof (cases u)
      case (Inl e)
      then show ?thesis
        using c_postE [OF post_fb_install [OF wf d] contents_refl run [unfolded Inl]] same moved by (auto simp: near_def)
    next
      case (Inr y)
      then show ?thesis
        using c_postD [OF post_fb_install [OF wf d] contents_refl run [unfolded Inr]] moved by simp
    qed
  qed
next
  fix b d u b'
  assume wf: "fb_wf b" and d: "valid_id d" and run: "fb_restore_previous d b = (u, b')"
  let ?C = "content_at (fb_files b)"
  have saved: "fb_saved b d = ?C (fb_slot b d)" "fb_installed b = ?C (fb_active b)"
    using contents_saved [OF contents_refl, of b] d by auto
  show "fb_wf b' \<and> (case u of Inr _ \<Rightarrow> fb_saved b d \<noteq> None \<and> fb_installed b' = fb_saved b d
      | Inl _ \<Rightarrow> fb_saved b' d = fb_saved b d \<and> (fb_saved b d = None \<longrightarrow> fb_installed b' = fb_installed b) \<or>
          fb_saved b d \<noteq> None \<and> fb_installed b' = fb_saved b d)"
  proof (cases u)
    case (Inl e)
    obtain D where D: "contents b D b'" "D (fb_slot b d) = ?C (fb_slot b d) \<and> (?C (fb_slot b d) = None \<longrightarrow> D = ?C) \<or>
        ?C (fb_slot b d) \<noteq> None \<and> D (fb_active b) = ?C (fb_slot b d)"
      using c_postE [OF post_fb_restore [OF wf d] contents_refl run [unfolded Inl]] by (elim exE conjE) (rule that)
    have after: "fb_wf b'" "fb_saved b' d = D (fb_slot b d)" "fb_installed b' = D (fb_active b)"
      using wf d contents_paths(6) [OF D(1)] contents_saved(1) [OF D(1), of d] contents_saved(2) [OF D(1)] by simp_all
    then show ?thesis
      unfolding Inl using D(2) saved by auto
  next
    case (Inr y)
    obtain D where D: "?C (fb_slot b d) \<noteq> None" "contents b D b'" "D (fb_active b) = ?C (fb_slot b d)"
      using c_postD [OF post_fb_restore [OF wf d] contents_refl run [unfolded Inr]] by (elim exE conjE) (rule that)
    then show ?thesis
      using Inr wf contents_paths(6) [OF D(2)] contents_saved(2) [OF D(2)] saved by simp
  qed
qed

end
