(* ===== verification/Deployment_Safety.thy ===== *)
theory Deployment_Safety
  imports Version_Store
begin

text \<open>
  Properties of \<open>core/src/deployment.cpp\<close>: what a deployment and a manual rollback leave behind, and the abstract
  pipeline that \<open>deploy\<close> refines.
\<close>

section \<open>What a deployment may leave behind\<close>

text \<open>The pipeline changes of the record only the status, the reason and the evidence, of the service only the
  readings of the clock and the backend.\<close>

definition identity_of :: "deployment_record \<Rightarrow> string \<times> string \<times> string" where
  "identity_of r = (dr_id r, dr_artifact_id r, dr_artifact_sha256 r)"

definition same_surroundings :: "deployment_record \<Rightarrow> 'b deployment_service \<Rightarrow> 'b deploying \<Rightarrow> bool" where
  "same_surroundings r s w \<longleftrightarrow> identity_of (dp_record w) = identity_of r \<and> ds_records (dp_service w) = ds_records s \<and>
     ds_audit (dp_service w) = ds_audit s \<and> ds_ops (dp_service w) = ds_ops s"

lemma keeps_now: "c_keeps (same_surroundings r s) (on_service steady_now)"
  by (simp add: c_keeps_def c_post_def on_service_def steady_now_def same_surroundings_def)

lemma keeps_backend: "c_keeps (same_surroundings r s) (on_service (on_backend op))"
  by (simp add: c_keeps_def c_post_def on_service_def on_backend_def same_surroundings_def split: prod.split sum.split)

lemma keeps_push: "c_keeps (same_surroundings r s) (push_evidence e)"
  unfolding push_evidence_def by (rule c_keeps_modify) (simp add: same_surroundings_def identity_of_def)

lemma keeps_failure: "c_keeps (same_surroundings r s) (push_failure st t)"
  unfolding push_failure_def by (rule c_keeps_bind [OF keeps_now keeps_push])

lemma keeps_require: "c_keeps I (require_command e)"
  by (simp add: require_command_def c_keeps_pure)

lemma keeps_process: "c_keeps (same_surroundings r s) (process_step st op)"
proof -
  have "c_keeps (same_surroundings r s) (\<lambda>w. if dr_evidence (dp_record w) = [] \<or>
      se_step (last (dr_evidence (dp_record w))) \<noteq> st then push_failure st t w else c_return () w)" for t
    using keeps_failure [of r s st t] by (auto simp: c_keeps_def c_post_def)
  then show ?thesis
    unfolding process_step_def Let_def
    by (intro c_keeps keeps_now keeps_backend keeps_push keeps_require) (simp_all add: same_surroundings_def)
qed

lemma keeps_file: "c_keeps (same_surroundings r s) (file_step st op)"
  unfolding file_step_def
  by (intro c_keeps keeps_now keeps_backend keeps_push keeps_failure) (simp_all add: same_surroundings_def)

lemma keeps_pipeline: "c_keeps (same_surroundings r s) (run_pipeline request a)"
proof -
  have "c_keeps (same_surroundings r s) (\<lambda>w. file_step st (install_operation (f w) d a) w)" for st d and f :: "'a deploying \<Rightarrow> _"
    by (rule c_keeps_state) (rule keeps_file)
  then show ?thesis
    unfolding run_pipeline_def set_status_def
    by (intro c_keeps keeps_process keeps_file) (simp_all add: same_surroundings_def identity_of_def)
qed

lemma pipeline_returns: "\<exists>w'. run_pipeline request a w = (Inr (), w')"
proof -
  have "\<exists>w'. c_catch m (set_status Failed) w = (Inr (), w')" for m :: "('a deploying, unit) call" and w
    by (auto simp: c_catch_def set_status_def c_modify_def split: prod.split sum.split)
  then have "\<exists>w'. c_catch m0 (c_bind (c_modify f) (\<lambda>_. c_catch m (set_status Failed))) w = (Inr (), w')"
    for m0 m :: "('a deploying, unit) call" and f w
    by (auto simp: c_catch_def [of m0] c_bind_def c_modify_def split: prod.split sum.split)
  then show ?thesis
    unfolding run_pipeline_def .
qed

definition started_event :: "deployment_request \<Rightarrow> artifact \<Rightarrow> audit_event" where
  "started_event request a = deploy_event request a deployment_started res_allowed (dq_occurred_at request) []"

text \<open>The state in which the pipeline begins.\<close>

definition pipeline_start :: "deployment_request \<Rightarrow> artifact \<Rightarrow> audit_log \<Rightarrow> 'b deployment_service \<Rightarrow> 'b deploying" where
  "pipeline_start request a lg s = \<lparr>dp_service = s\<lparr>ds_readings := ds_readings s + 1, ds_audit := lg\<rparr>,
     dp_record = new_deployment request a, dp_step = St_stop\<rparr>"

lemma finish_deployment_effect:
  assumes "finish_deployment request a t r0 s = (res, s')" "ds_records s (dr_id r0) = None"
  shows "ds_backend s' = ds_backend s" "ds_ops s' = ds_ops s"
    "\<exists>t'. ds_records s' = (ds_records s)(dr_id r0 \<mapsto> r0\<lparr>dr_completed_at := t'\<rparr>)"
  using assms
  by (auto simp: finish_deployment_def steady_now_def c_bind_def c_modify_def append_audit_event_def Let_def
      split: sum.splits)

text \<open>A deployment is refused before anything is touched, or the pipeline runs to its end after the event of its
  start was written.\<close>

lemma deploy_run:
  assumes run: "deploy request s = (res, s')"
  obtains (refused) "ds_backend s' = ds_backend s" "ds_records s' = ds_records s"
      "\<not> (\<exists>a lg. deploy_checks request s = Inr a \<and> permits (dq_authorization request) deploy_execute \<and>
        audit_append (started_event request a) (ds_audit s) = Inr lg)"
  | (ran) a lg w t where "deploy_checks request s = Inr a" "permits (dq_authorization request) deploy_execute"
      "audit_append (started_event request a) (ds_audit s) = Inr lg"
      "run_pipeline request a (pipeline_start request a lg s) = (Inr (), w)"
      "ds_backend s' = ds_backend (dp_service w)"
      "ds_records s' = (ds_records s)(dq_deployment_id request \<mapsto> (dp_record w)\<lparr>dr_completed_at := t\<rparr>)"
      "identity_of (dp_record w) = identity_of (new_deployment request a)"
proof (cases "deploy_checks request s")
  case (Inl e)
  then show ?thesis
    using run refused by (simp add: deploy_def)
next
  case checked: (Inr a)
  show ?thesis
  proof (cases "permits (dq_authorization request) deploy_execute")
    case False
    then show ?thesis
      using run checked refused
      by (auto simp: deploy_def c_bind_def append_audit_event_def split: sum.splits)
  next
    case True
    show ?thesis
    proof (cases "audit_append (started_event request a) (ds_audit s)")
      case (Inl e)
      then show ?thesis
        using run checked True refused
        by (auto simp: deploy_def c_bind_def append_audit_event_def steady_now_def started_event_def)
    next
      case (Inr lg)
      obtain w where w: "run_pipeline request a (pipeline_start request a lg s) = (Inr (), w)"
        using pipeline_returns by blast
      have fresh: "ds_records s (dq_deployment_id request) = None"
        using checked by (auto simp: deploy_checks_def deploy_incomplete_def split: if_splits)
      let ?I = "same_surroundings (new_deployment request a) (dp_service (pipeline_start request a lg s))"
      have "c_post ?I (run_pipeline request a) (\<lambda>_. ?I) ?I"
        using keeps_pipeline unfolding c_keeps_def .
      then have "?I w"
        by (rule c_postD [where m = "run_pipeline request a", OF _ _ w]) (simp add: same_surroundings_def pipeline_start_def)
      then have id: "dr_id (dp_record w) = dq_deployment_id request" "ds_records (dp_service w) = ds_records s"
          "identity_of (dp_record w) = identity_of (new_deployment request a)"
        by (simp_all add: same_surroundings_def identity_of_def new_deployment_def pipeline_start_def)
      have "finish_deployment request a (ds_clock s (ds_readings s)) (dp_record w) (dp_service w) = (res, s')"
        using run checked True Inr w
        by (simp add: deploy_def c_bind_def append_audit_event_def steady_now_def started_event_def pipeline_start_def)
      from finish_deployment_effect [OF this] id fresh obtain t where
        "ds_backend s' = ds_backend (dp_service w)"
        "ds_records s' = (ds_records s)(dq_deployment_id request \<mapsto> (dp_record w)\<lparr>dr_completed_at := t\<rparr>)"
        by auto
      then show ?thesis
        using ran checked True Inr w id(3) by blast
    qed
  qed
qed

section \<open>The pipeline refines a list of steps\<close>

text \<open>
  The abstract pipeline: steps that succeed or fail on the backend, run in order up to the first
  failure; the trace of each step with its outcome; after a failure the steps of the rollback.
\<close>

fun run_steps :: "(deployment_step \<times> ('b \<Rightarrow> bool \<times> 'b)) list \<Rightarrow> 'b \<Rightarrow> bool \<times> (deployment_step \<times> bool) list \<times> 'b" where
  "run_steps [] b = (True, [], b)"
| "run_steps ((st, f) # ss) b = (case f b of
     (False, b') \<Rightarrow> (False, [(st, False)], b')
   | (True, b') \<Rightarrow> (case run_steps ss b' of (done, trace, b'') \<Rightarrow> (done, (st, True) # trace, b'')))"

definition process_result :: "('b, build_evidence) call \<Rightarrow> 'b \<Rightarrow> bool \<times> 'b" where
  "process_result m b = (case m b of (r, b') \<Rightarrow> (case r of Inl _ \<Rightarrow> False | Inr e \<Rightarrow> command_succeeded e, b'))"

definition file_result :: "('b, unit) call \<Rightarrow> 'b \<Rightarrow> bool \<times> 'b" where
  "file_result m b = (case m b of (r, b') \<Rightarrow> (succeeds r, b'))"

definition forward_steps ::
  "'b deployment_backend \<Rightarrow> artifact_store \<Rightarrow> string \<Rightarrow> artifact \<Rightarrow> (deployment_step \<times> ('b \<Rightarrow> bool \<times> 'b)) list" where
  "forward_steps ops store did a =
     [(St_stop, process_result (bk_stop ops)), (St_stage_previous, file_result (bk_stage_previous ops did)),
      (St_install, file_result (install_operation store did a ops)), (St_start, process_result (bk_start ops)),
      (St_health_check, process_result (bk_health_check ops))]"

definition back_steps :: "'b deployment_backend \<Rightarrow> string \<Rightarrow> (deployment_step \<times> ('b \<Rightarrow> bool \<times> 'b)) list" where
  "back_steps ops did =
     [(St_rollback_stop, process_result (bk_stop ops)), (St_rollback_restore, file_result (bk_restore_previous ops did)),
      (St_rollback_start, process_result (bk_start ops)), (St_rollback_health_check, process_result (bk_health_check ops))]"

definition abstract_pipeline ::
  "'b deployment_backend \<Rightarrow> artifact_store \<Rightarrow> string \<Rightarrow> artifact \<Rightarrow> 'b \<Rightarrow>
     deployment_status \<times> string \<times> (deployment_step \<times> bool) list \<times> 'b" where
  "abstract_pipeline ops store did a b = (case run_steps (forward_steps ops store did a) b of
     (True, trace, b') \<Rightarrow> (Active, [], trace, b')
   | (False, trace, b') \<Rightarrow> (case run_steps (back_steps ops did) b' of (restored, trace', b'') \<Rightarrow>
       (if restored then Rolled_back else Failed, step_failure_reason (fst (last trace)), trace @ trace', b'')))"

abbreviation backend_of :: "'b deploying \<Rightarrow> 'b" where
  "backend_of w \<equiv> ds_backend (dp_service w)"

definition trace_of :: "deployment_record \<Rightarrow> (deployment_step \<times> bool) list" where
  "trace_of r = map (\<lambda>e. (se_step e, se_succeeded e)) (dr_evidence r)"

definition settled :: "'b deploying \<Rightarrow> deployment_status \<times> string \<times> 'b deployment_backend \<times> artifact_store" where
  "settled w = (dr_status (dp_record w), dr_failure_reason (dp_record w), ds_ops (dp_service w), ds_artifacts (dp_service w))"

text \<open>A call of the pipeline performs a step: it ends with the outcome and the backend of the step, and has
  added the step to the evidence.\<close>

definition performs :: "deployment_step \<Rightarrow> ('b deployment_backend \<Rightarrow> artifact_store \<Rightarrow> 'b \<Rightarrow> bool \<times> 'b) \<Rightarrow> ('b deploying, unit) call \<Rightarrow> bool" where
  "performs st f m \<longleftrightarrow> (\<forall>w. st \<notin> fst ` set (trace_of (dp_record w)) \<longrightarrow>
     (case f (ds_ops (dp_service w)) (ds_artifacts (dp_service w)) (backend_of w) of (good, b') \<Rightarrow>
       \<exists>r w'. m w = (r, w') \<and> succeeds r = good \<and> backend_of w' = b' \<and> dp_step w' = st \<and> settled w' = settled w \<and>
         trace_of (dp_record w') = trace_of (dp_record w) @ [(st, good)]))"

lemmas step_simps = c_bind_def c_catch_rethrow_def c_modify_def on_service_def steady_now_def on_backend_def
  push_evidence_def push_failure_def require_command_def settled_def trace_of_def Let_def

lemma last_step: "st \<notin> fst ` set (trace_of r) \<Longrightarrow> dr_evidence r = [] \<or> se_step (last (dr_evidence r)) \<noteq> st"
  by (force simp: trace_of_def)

lemma process_step_performs: "performs st (\<lambda>ops store. process_result (operation ops)) (process_step st operation)"
proof -
  have "process_step st operation w = (case operation (ds_ops (dp_service w)) (backend_of w) of
      (r, b') \<Rightarrow> let s = (dp_service w)\<lparr>ds_readings := ds_readings (dp_service w) + 1, ds_backend := b'\<rparr>
      in (case r of Inl e \<Rightarrow> (Inl e, snd (push_failure st (ds_clock s (ds_readings (dp_service w))) (w\<lparr>dp_step := st, dp_service := s\<rparr>)))
       | Inr e \<Rightarrow> (if command_succeeded e then Inr () else Inl (Runtime_error ''deployment process step failed''),
          snd (push_evidence \<lparr>se_step = st, se_succeeded = command_succeeded e, se_process = e,
            se_reason_code = if command_succeeded e then [] else step_failure_reason st\<rparr> (w\<lparr>dp_step := st, dp_service := s\<rparr>)))))"
    if "st \<notin> fst ` set (trace_of (dp_record w))" for w
    using last_step [OF that]
    by (auto simp: process_step_def step_simps split: prod.split sum.split)
  then show ?thesis
    by (auto simp: performs_def process_result_def step_simps split: prod.split sum.split)
qed

lemma install_performs:
  "performs St_install (\<lambda>ops store. file_result (install_operation store did a ops))
     (\<lambda>w. file_step St_install (install_operation (ds_artifacts (dp_service w)) did a) w)"
  by (auto simp: performs_def file_result_def file_step_def step_simps split: prod.split sum.split)

lemma file_step_performs: "performs st (\<lambda>ops store. file_result (operation ops)) (file_step st operation)"
  by (auto simp: performs_def file_result_def file_step_def step_simps split: prod.split sum.split)

text \<open>A chain of steps runs up to the first failure, and then goes on with \<open>k\<close> or throws.\<close>

definition chain :: "'b deployment_backend \<Rightarrow> artifact_store \<Rightarrow> (deployment_step \<times> ('b \<Rightarrow> bool \<times> 'b)) list \<Rightarrow> ('b deploying, unit) call \<Rightarrow>
    ('b deploying, unit) call \<Rightarrow> bool" where
  "chain ops store ss k m \<longleftrightarrow> (\<forall>w. ds_ops (dp_service w) = ops \<longrightarrow> ds_artifacts (dp_service w) = store \<longrightarrow>
     (\<forall>st\<in>fst ` set ss. st \<notin> fst ` set (trace_of (dp_record w))) \<longrightarrow>
     (case run_steps ss (backend_of w) of (good, trace, b') \<Rightarrow>
       \<exists>w' e. m w = (if good then k w' else (Inl e, w')) \<and> backend_of w' = b' \<and> settled w' = settled w \<and>
         dp_step w' = (if trace = [] then dp_step w else fst (last trace)) \<and> trace_of (dp_record w') = trace_of (dp_record w) @ trace))"

lemma chain_Nil: "chain ops store [] k k"
  by (auto simp: chain_def)

lemma chainD:
  assumes "chain ops store ss k m" "ds_ops (dp_service w) = ops" "ds_artifacts (dp_service w) = store"
    "\<forall>st\<in>fst ` set ss. st \<notin> fst ` set (trace_of (dp_record w))" "run_steps ss (backend_of w) = (good, trace, b')"
  obtains w' e where "m w = (if good then k w' else (Inl e, w'))" "backend_of w' = b'" "settled w' = settled w"
    "dp_step w' = (if trace = [] then dp_step w else fst (last trace))"
    "trace_of (dp_record w') = trace_of (dp_record w) @ trace"
proof -
  have "case run_steps ss (backend_of w) of (good, trace, b') \<Rightarrow>
       \<exists>w' e. m w = (if good then k w' else (Inl e, w')) \<and> backend_of w' = b' \<and> settled w' = settled w \<and>
         dp_step w' = (if trace = [] then dp_step w else fst (last trace)) \<and> trace_of (dp_record w') = trace_of (dp_record w) @ trace"
    by (rule assms(1) [unfolded chain_def, THEN spec, THEN mp, OF assms(2), THEN mp, OF assms(3), THEN mp, OF assms(4)])
  then show thesis
    unfolding assms(5) by (simp only: prod.case) (elim exE conjE, rule that)
qed

lemma chain_Cons:
  assumes m: "performs st f m" and rest: "chain ops store ss k m'" and fresh: "st \<notin> fst ` set ss"
  shows "chain ops store ((st, f ops store) # ss) k (c_bind m (\<lambda>_. m'))"
  unfolding chain_def
proof (intro allI impI)
  fix w :: "'a deploying"
  assume w: "ds_ops (dp_service w) = ops" "ds_artifacts (dp_service w) = store"
    "\<forall>t\<in>fst ` set ((st, f ops store) # ss). t \<notin> fst ` set (trace_of (dp_record w))"
  obtain good b1 where f: "f ops store (backend_of w) = (good, b1)"
    by fastforce
  have new: "st \<notin> fst ` set (trace_of (dp_record w))"
    using w(3) by simp
  have "case f (ds_ops (dp_service w)) (ds_artifacts (dp_service w)) (backend_of w) of (good, b') \<Rightarrow>
      \<exists>r w'. m w = (r, w') \<and> succeeds r = good \<and> backend_of w' = b' \<and> dp_step w' = st \<and> settled w' = settled w \<and>
        trace_of (dp_record w') = trace_of (dp_record w) @ [(st, good)]"
    by (rule m [unfolded performs_def, THEN spec, THEN mp, OF new])
  then obtain r w1 where m1: "m w = (r, w1)" "succeeds r = good" "backend_of w1 = b1" "dp_step w1 = st"
      "settled w1 = settled w" "trace_of (dp_record w1) = trace_of (dp_record w) @ [(st, good)]"
    unfolding w(1,2) f by (simp only: prod.case) (elim exE conjE, rule that)
  show "case run_steps ((st, f ops store) # ss) (backend_of w) of (good, trace, b') \<Rightarrow>
       \<exists>w' e. c_bind m (\<lambda>_. m') w = (if good then k w' else (Inl e, w')) \<and> backend_of w' = b' \<and> settled w' = settled w \<and>
         dp_step w' = (if trace = [] then dp_step w else fst (last trace)) \<and> trace_of (dp_record w') = trace_of (dp_record w) @ trace"
  proof (cases good)
    case False
    then obtain e where "r = Inl e"
      using m1(2) by (cases r) auto
    then show ?thesis
      using False f m1 by (auto simp: c_bind_def)
  next
    case True
    then obtain u where r: "r = Inr u"
      using m1(2) by (cases r) auto
    obtain good2 tr2 b2 where rs: "run_steps ss b1 = (good2, tr2, b2)"
      by (cases "run_steps ss b1")
    have "ds_ops (dp_service w1) = ops" "ds_artifacts (dp_service w1) = store"
      using m1(5) w(1,2) by (simp_all add: settled_def)
    moreover have "\<forall>t\<in>fst ` set ss. t \<notin> fst ` set (trace_of (dp_record w1))"
      using w(3) fresh m1(6) by auto
    ultimately obtain w2 e where w2: "m' w1 = (if good2 then k w2 else (Inl e, w2))" "backend_of w2 = b2"
        "settled w2 = settled w1" "dp_step w2 = (if tr2 = [] then dp_step w1 else fst (last tr2))"
        "trace_of (dp_record w2) = trace_of (dp_record w1) @ tr2"
      using chainD [OF rest] rs m1(3) by blast
    then show ?thesis
      using True f r m1 rs by (auto simp: c_bind_def)
  qed
qed


lemma chain_forward:
  "chain ops store (forward_steps ops store did a) k
     (c_bind (process_step St_stop bk_stop) (\<lambda>_.
      c_bind (file_step St_stage_previous (\<lambda>ops. bk_stage_previous ops did)) (\<lambda>_.
      c_bind (\<lambda>w. file_step St_install (install_operation (ds_artifacts (dp_service w)) did a) w) (\<lambda>_.
      c_bind (process_step St_start bk_start) (\<lambda>_. c_bind (process_step St_health_check bk_health_check) (\<lambda>_. k))))))"
  unfolding forward_steps_def
  by (rule chain_Cons chain_Nil process_step_performs file_step_performs install_performs | simp)+

lemma chain_back:
  "chain ops store (back_steps ops did) k
     (c_bind (process_step St_rollback_stop bk_stop) (\<lambda>_.
      c_bind (file_step St_rollback_restore (\<lambda>ops. bk_restore_previous ops did)) (\<lambda>_.
      c_bind (process_step St_rollback_start bk_start) (\<lambda>_.
      c_bind (process_step St_rollback_health_check bk_health_check) (\<lambda>_. k)))))"
  unfolding back_steps_def
  by (rule chain_Cons chain_Nil process_step_performs file_step_performs install_performs | simp)+


lemma run_steps_trace: "run_steps ss b = (good, trace, b') \<Longrightarrow> fst ` set trace \<subseteq> fst ` set ss \<and> (\<not> good \<longrightarrow> trace \<noteq> [])"
proof (induction ss arbitrary: b good trace b')
  case (Cons s ss)
  obtain st f where s: "s = (st, f)"
    by (cases s)
  obtain good1 b1 where f: "f b = (good1, b1)"
    by (cases "f b")
  obtain good2 tr2 b2 where rest: "run_steps ss b1 = (good2, tr2, b2)"
    by (cases "run_steps ss b1")
  have trace: "trace = (if good1 then (st, True) # tr2 else [(st, False)])" "good = (good1 \<and> good2)"
    using Cons.prems by (simp_all add: s f rest split: if_splits bool.splits)
  have "fst ` set trace \<subseteq> insert st (fst ` set tr2)"
    by (auto simp: trace(1))
  moreover have "fst ` set (s # ss) = insert st (fst ` set ss)"
    by (simp add: s)
  ultimately show ?case
    using Cons.IH [OF rest] trace by auto
qed simp

text \<open>The pipeline of \<open>deploy\<close> is the abstract pipeline.\<close>

lemma pipeline_refines:
  assumes "dr_evidence (dp_record w) = []" "dr_failure_reason (dp_record w) = []"
    "abstract_pipeline (ds_ops (dp_service w)) (ds_artifacts (dp_service w)) (dq_deployment_id request) a (backend_of w) =
      (st, reason, trace, b')"
  shows "\<exists>w'. run_pipeline request a w = (Inr (), w') \<and> dr_status (dp_record w') = st \<and>
    dr_failure_reason (dp_record w') = reason \<and> trace_of (dp_record w') = trace \<and> backend_of w' = b'"
proof -
  let ?ops = "ds_ops (dp_service w)" and ?store = "ds_artifacts (dp_service w)" and ?d = "dq_deployment_id request"
  obtain good tr1 b1 where forward: "run_steps (forward_steps ?ops ?store ?d a) (backend_of w) = (good, tr1, b1)"
    by (cases "run_steps (forward_steps ?ops ?store ?d a) (backend_of w)")
  obtain good2 tr2 b2 where backward: "run_steps (back_steps ?ops ?d) b1 = (good2, tr2, b2)"
    by (cases "run_steps (back_steps ?ops ?d) b1")
  have empty: "trace_of (dp_record w) = []"
    using assms(1) by (simp add: trace_of_def)
  obtain w1 e where w1: "(c_bind (process_step St_stop bk_stop) (\<lambda>_.
      c_bind (file_step St_stage_previous (\<lambda>ops. bk_stage_previous ops ?d)) (\<lambda>_.
      c_bind (\<lambda>w. file_step St_install (install_operation (ds_artifacts (dp_service w)) ?d a) w) (\<lambda>_.
      c_bind (process_step St_start bk_start) (\<lambda>_. c_bind (process_step St_health_check bk_health_check)
        (\<lambda>_. set_status Active)))))) w = (if good then set_status Active w1 else (Inl e, w1))"
      "backend_of w1 = b1" "settled w1 = settled w" "dp_step w1 = (if tr1 = [] then dp_step w else fst (last tr1))"
      "trace_of (dp_record w1) = tr1"
    by (rule chainD [OF chain_forward [of ?ops ?store ?d a "set_status Active"] _ _ _ forward]) (use empty in auto)
  show ?thesis
  proof (cases good)
    case True
    then show ?thesis
      using w1 forward assms(2,3)
      by (simp add: run_pipeline_def c_catch_def set_status_def c_modify_def abstract_pipeline_def settled_def trace_of_def)
  next
    case False
    let ?w = "w1\<lparr>dp_record := (dp_record w1)\<lparr>dr_failure_reason := step_failure_reason (dp_step w1)\<rparr>\<rparr>"
    have fresh: "\<forall>st\<in>fst ` set (back_steps ?ops ?d). st \<notin> fst ` set (trace_of (dp_record ?w))"
      using run_steps_trace [OF forward] w1(5) by (auto simp: back_steps_def forward_steps_def trace_of_def)
    obtain w2 e2 where w2: "(c_bind (process_step St_rollback_stop bk_stop) (\<lambda>_.
      c_bind (file_step St_rollback_restore (\<lambda>ops. bk_restore_previous ops ?d)) (\<lambda>_.
      c_bind (process_step St_rollback_start bk_start) (\<lambda>_.
      c_bind (process_step St_rollback_health_check bk_health_check) (\<lambda>_. set_status Rolled_back))))) ?w =
        (if good2 then set_status Rolled_back w2 else (Inl e2, w2))"
        "backend_of w2 = b2" "settled w2 = settled ?w" "trace_of (dp_record w2) = trace_of (dp_record ?w) @ tr2"
      by (rule chainD [OF chain_back [of ?ops ?store ?d "set_status Rolled_back"] _ _ fresh]) (use w1(2,3) backward in \<open>auto simp: settled_def\<close>)
    have "tr1 \<noteq> []"
      using run_steps_trace [OF forward] False by simp
    then show ?thesis
      using w1 w2 forward backward False assms(3)
      by (auto simp: run_pipeline_def c_catch_def c_bind_def [of "c_modify _"] set_status_def c_modify_def
          abstract_pipeline_def settled_def trace_of_def)
  qed
qed

lemma deploy_checks_id: "deploy_checks request s = Inr a \<Longrightarrow> valid_id (dq_deployment_id request)"
  by (auto simp: deploy_checks_def deploy_incomplete_def split: if_splits)

text \<open>C6. A deployment never loses the version that was running: once a deployment has been recorded, the installed
  file is the artifact that was checked (active), or the previous version (rolled back), or the previous version is
  still installed or saved under the id of the deployment (failed); and a call that records nothing has not touched
  the backend. This holds whatever call of the file system or of the commands fails.\<close>

theorem deployment_keeps_a_version:
  assumes "ds_ops s = file_backend_ops" "fb_wf (ds_backend s)" "fb_installed (ds_backend s) = Some old"
    "fb_saved (ds_backend s) (dq_deployment_id request) = None" "ds_records s (dq_deployment_id request) = None"
    "deploy request s = (res, s')"
  shows "case ds_records s' (dq_deployment_id request) of
      None \<Rightarrow> ds_backend s' = ds_backend s
    | Some r \<Rightarrow> (case dr_status r of
        Active \<Rightarrow> \<exists>bs. fb_installed (ds_backend s') = Some bs \<and> sha256_file (Some bs) = Inr (dr_artifact_sha256 r) \<and>
          fb_saved (ds_backend s') (dq_deployment_id request) = Some old
      | Rolled_back \<Rightarrow> fb_installed (ds_backend s') = Some old
      | Failed \<Rightarrow> fb_installed (ds_backend s') = Some old \<or>
          fb_saved (ds_backend s') (dq_deployment_id request) = Some old
      | Deploying \<Rightarrow> False)"
  using assms(6)
proof (cases rule: deploy_run)
  case refused
  then show ?thesis
    using assms(5) by simp
next
  case (ran a lg w t)
  let ?d = "dq_deployment_id request"
  have "files.versions ?d (\<lambda>a s. a = Some old \<and> s = None) (pipeline_start request a lg s)"
    using assms(1-4) by (simp add: files.versions_def pipeline_start_def)
  then have "files.versions ?d (files.outcome_ok a (Some old) (dr_status (dp_record w))) w"
    using files.post_pipeline [OF deploy_checks_id [OF ran(1)], of "Some old" a] ran(4) by (fastforce simp: c_post_def)
  then show ?thesis
    using ran(5-7) by (cases "dr_status (dp_record w)")
      (auto simp: files.versions_def files.outcome_ok_def matches_def identity_of_def new_deployment_def)
qed

text \<open>The backend is touched only under the deploy capability, for an artifact of the same workspace whose stored
  object has just been verified, and after the event of the start was accepted by the audit log; and an existing
  record is never replaced.\<close>

theorem deployment_authorized_and_logged:
  assumes "deploy request s = (res, s')" "ds_backend s' \<noteq> ds_backend s \<or> ds_records s' \<noteq> ds_records s"
  shows "permits (dq_authorization request) deploy_execute \<and> ds_records s (dq_deployment_id request) = None \<and>
    (\<exists>a lg. store_metadata (ds_artifacts s) (dq_artifact_id request) = Inr a \<and>
      art_workspace_id a = dq_workspace_id request \<and>
      store_verify (ds_files s (ds_backend s)) (ds_artifacts s) (dq_artifact_id request) = Inr True \<and>
      audit_append (started_event request a) (ds_audit s) = Inr lg)"
  using assms(1)
proof (cases rule: deploy_run)
  case refused
  then show ?thesis
    using assms(2) by simp
next
  case (ran a lg w t)
  then show ?thesis
    by (auto simp: deploy_checks_def deploy_incomplete_def result_simps split: if_splits)
qed


definition sample_machine :: "(os_call list \<Rightarrow> os_call \<Rightarrow> exn option) \<Rightarrow> (path \<times> fs_node) list \<Rightarrow> machine" where
  "sample_machine fails nodes = \<lparr>mc_os = \<lparr>os_fails = fails, os_left = \<lambda>_ _. None, os_executes = \<lambda>_ _. sample_evidence_ok,
          os_changes = \<lambda>_ _ fs. fs\<rparr>,
     mc_fs = map_of nodes, mc_calls = []\<rparr>"

definition sample_artifact :: artifact where
  "sample_artifact = \<lparr>art_id = ''a1'', art_workspace_id = ''w1'', art_build_id = ''b1'', art_source_revision = 3,
     art_name = ''app'', art_sha256 = to_hex (sha256_reference [0x61]), art_size = 1, art_platform = ''linux'',
     art_architecture = ''x64'', art_created_at = 1\<rparr>"

definition sample_nodes :: "(path \<times> fs_node) list" where
  "sample_nodes = [([''r'', ''app''], File [1, 2]), ([''s'', ''o''], File [0x61])]"

definition sample_deployments ::
  "(os_call list \<Rightarrow> os_call \<Rightarrow> exn option) \<Rightarrow> (path \<times> fs_node) list \<Rightarrow> file_backend deployment_service" where
  "sample_deployments fails nodes = \<lparr>ds_ops = file_backend_ops, ds_files = fb_files,
     ds_artifacts = \<lparr>as_storage_root = [''s''], as_records = [''a1'' \<mapsto> (sample_artifact, relative [''o''])]\<rparr>,
     ds_clock = \<lambda>n. 0, ds_readings = 0,
     ds_backend = \<lparr>fb_machine = sample_machine fails nodes, fb_root = [''r''], fb_active = [''r'', ''app''],
       fb_stop_command = sample_command, fb_start_command = sample_command\<lparr>cs_argv := [''go'']\<rparr>,
       fb_health_command = sample_command\<lparr>cs_argv := [''check'']\<rparr>\<rparr>,
     ds_audit = empty_log 24 10 None, ds_records = Map.empty\<rparr>"

definition sample_deploy :: deployment_request where
  "sample_deploy = \<lparr>dq_deployment_id = ''d1'', dq_artifact_id = ''a1'', dq_principal_id = ''p'', dq_device_id = ''d'',
     dq_session_id = ''s'', dq_workspace_id = ''w1'', dq_authorization = \<lparr>ar_principal_matched = True,
       ar_workspace_allowed = True, ar_granted = {deploy_execute}, ar_denied = {}\<rparr>, dq_occurred_at = 5\<rparr>"

lemma sample_checks:
  "nodes = sample_nodes @ more_nodes \<Longrightarrow> deploy_checks sample_deploy (sample_deployments fails nodes) = Inr sample_artifact"
  using sha256_file_names_content [of "[0x61]"]
  by (simp add: deploy_checks_def deploy_incomplete_def sample_deploy_def sample_deployments_def valid_id_def is_alnum_def
      is_digit_def store_metadata_def store_verify_def store_object_path_def scope_resolve_plain canonical_def file_matches_def
      content_at_def fb_files_def sample_machine_def sample_nodes_def sample_artifact_def)


lemma lower_hex_digit: "is_lower_hex_digit = (\<lambda>c. is_digit c \<or> (97 \<le> (of_char c :: nat) \<and> (of_char c :: nat) \<le> 102))"
  by (rule ext) (simp add: is_lower_hex_digit_def is_digit_def Let_def)

lemma sample_event:
  "\<exists>lg. audit_append (started_event sample_deploy sample_artifact) (empty_log 24 10 None) = Inr lg"
proof -
  let ?e = "started_event sample_deploy sample_artifact"
  have "identifier_or_empty []" "identifier_or_empty ''a1''" "identifier_or_empty ''b1''" "identifier_or_empty ''w1''"
      "identifier_or_empty ''p''" "identifier_or_empty ''d''" "identifier_or_empty ''s''" "identifier_or_empty ''d1''"
      "identifier_or_empty ''privileged_broker''"
    by (simp_all add: identifier_or_empty_def is_alnum_def is_digit_def)
  moreover have "is_sha256_hex (art_sha256 sample_artifact)"
    using sha256_file_names_content [of "[0x61]"] by (simp add: sample_artifact_def)
  then have "art_sha256 sample_artifact \<noteq> []" "\<not> artifact_hash_invalid ?e"
    by (auto simp: artifact_hash_invalid_def is_sha256_hex_def lower_hex_digit started_event_def deploy_event_def
        default_event_def)
  ultimately have "\<not> missing_metadata ?e" "\<not> artifact_hash_invalid ?e"
    by (simp_all add: missing_metadata_def started_event_def deploy_event_def sample_deploy_def
        sample_artifact_def default_event_def session_action_def
        artifact_action_def deployment_action_def workspace_action_def build_action_def is_sha256_hex_def)
  then show ?thesis
    by (simp add: audit_append_def sink_line_def empty_log_def Let_def)
qed

lemma deploy_refines:
  assumes "deploy request s = (res, s')" "ds_records s' (dq_deployment_id request) = Some r"
    "ds_records s (dq_deployment_id request) = None"
  shows "\<exists>a. store_metadata (ds_artifacts s) (dq_artifact_id request) = Inr a \<and> valid_id (dq_deployment_id request) \<and>
    identity_of r = (dq_deployment_id request, art_id a, art_sha256 a) \<and>
    abstract_pipeline (ds_ops s) (ds_artifacts s) (dq_deployment_id request) a (ds_backend s) =
      (dr_status r, dr_failure_reason r, trace_of r, ds_backend s')"
  using assms(1)
proof (cases rule: deploy_run)
  case refused
  then show ?thesis
    using assms by simp
next
  case (ran a lg w t)
  let ?w = "pipeline_start request a lg s"
  obtain st reason trace b' where p: "abstract_pipeline (ds_ops s) (ds_artifacts s) (dq_deployment_id request) a (ds_backend s) =
      (st, reason, trace, b')"
    by (metis prod.exhaust)
  have "dr_status (dp_record w) = st \<and> dr_failure_reason (dp_record w) = reason \<and> trace_of (dp_record w) = trace \<and>
      backend_of w = b'"
    using pipeline_refines [of ?w request a st reason trace b'] p ran(4)
    by (simp add: pipeline_start_def new_deployment_def)
  moreover have "r = (dp_record w)\<lparr>dr_completed_at := t\<rparr>"
    using ran(6) assms(2) by simp
  moreover have "store_metadata (ds_artifacts s) (dq_artifact_id request) = Inr a"
    using ran(1) by (auto simp: deploy_checks_def result_simps split: if_splits)
  ultimately show ?thesis
    using p ran(5,7) deploy_checks_id [OF ran(1)]
    by (auto simp: identity_of_def new_deployment_def trace_of_def)
qed

text \<open>C22. What a deployment records is what happened: the status, the reason, the evidence with the outcome of each
  step, and the backend are those of the abstract pipeline, which runs the five steps in order up to the first
  failure and after a failure the four steps of the rollback up to their first failure.\<close>

theorem deployment_refines_steps:
  assumes "deploy request s = (res, s')" "ds_records s' (dq_deployment_id request) = Some r"
    "ds_records s (dq_deployment_id request) = None"
  shows "\<exists>a. store_metadata (ds_artifacts s) (dq_artifact_id request) = Inr a \<and>
    dr_id r = dq_deployment_id request \<and> dr_artifact_sha256 r = art_sha256 a \<and>
    abstract_pipeline (ds_ops s) (ds_artifacts s) (dq_deployment_id request) a (ds_backend s) =
      (dr_status r, dr_failure_reason r, trace_of r, ds_backend s')"
  using deploy_refines [OF assms] by (auto simp: identity_of_def)

lemma run_steps_True:
  "run_steps ((st, f) # ss) b = (True, trace, b') \<longleftrightarrow>
     (\<exists>b1 rest. f b = (True, b1) \<and> run_steps ss b1 = (True, rest, b') \<and> trace = (st, True) # rest)"
  by (auto split: prod.split bool.split)

lemma stage_needs_free_slot:
  assumes "fb_wf b" "valid_id d" "fb_saved b d \<noteq> None"
  shows "\<exists>e. fb_stage_previous d b = (Inl e, b)"
proof -
  have "fb_files b (fb_slot b d) \<noteq> None"
    using assms by (cases "fb_files b (fb_slot b d)") (simp_all add: fb_saved_def content_at_def)
  then show ?thesis
    by (simp add: fb_stage_previous_def slot_paths(1) [OF assms(1,2)])
qed

lemma restore_needs_slot:
  assumes "fb_wf b" "valid_id d" "fb_saved b d = None"
  shows "\<exists>e. fb_restore_previous d b = (Inl e, b)"
proof -
  have "\<not> regular_file (fb_files b) (fb_slot b d)"
    using assms by (simp add: fb_saved_def regular_file_content)
  then show ?thesis
    by (simp add: fb_restore_previous_def slot_paths(1) [OF assms(1,2)])
qed

text \<open>The steps that only execute a command keep the versions.\<close>

lemma stop_result:
  assumes "process_result fb_stop b = (good, b')" "fb_wf b"
  shows "fb_wf b' \<and> fb_installed b' = fb_installed b \<and> fb_saved b' = fb_saved b"
  using assms files.stop [of b] by (auto simp: process_result_def file_backend_ops_def split: prod.splits)

lemma start_result:
  assumes "process_result fb_start b = (good, b')" "fb_wf b"
  shows "fb_wf b' \<and> fb_installed b' = fb_installed b \<and> fb_saved b' = fb_saved b"
  using assms files.start [of b] by (auto simp: process_result_def file_backend_ops_def split: prod.splits)

lemma health_result:
  assumes "process_result fb_health_check b = (good, b')" "fb_wf b"
  shows "fb_wf b' \<and> fb_installed b' = fb_installed b \<and> fb_saved b' = fb_saved b"
  using assms files.health [of b] by (auto simp: process_result_def file_backend_ops_def split: prod.splits)

text \<open>C24. A service that cannot be stopped is left stopped: when the first step fails, nothing has been saved, so
  the step of the rollback that restores the previous version fails as well, and neither the start nor its check is
  ever reached. The previous version is still installed, but the deployment ends as failed.\<close>

theorem failed_stop_is_not_restarted:
  assumes "ds_ops s = file_backend_ops" "fb_wf (ds_backend s)" "fb_saved (ds_backend s) (dq_deployment_id request) = None"
    "ds_records s (dq_deployment_id request) = None" "\<not> fst (process_result fb_stop (ds_backend s))"
    "deploy request s = (res, s')" "ds_records s' (dq_deployment_id request) = Some r"
  shows "dr_status r = Failed \<and> dr_failure_reason r = ''stop_failed'' \<and>
    fst ` set (trace_of r) \<subseteq> {St_stop, St_rollback_stop, St_rollback_restore} \<and>
    fb_installed (ds_backend s') = fb_installed (ds_backend s)"
proof -
  let ?d = "dq_deployment_id request"
  obtain a where a: "valid_id ?d" "abstract_pipeline (ds_ops s) (ds_artifacts s) ?d a (ds_backend s) =
      (dr_status r, dr_failure_reason r, trace_of r, ds_backend s')"
    using deploy_refines [OF assms(6,7,4)] by blast
  obtain b1 where stop: "process_result fb_stop (ds_backend s) = (False, b1)"
    using assms(5) by (metis prod.collapse)
  obtain good b2 where stop2: "process_result fb_stop b1 = (good, b2)"
    by fastforce
  have b2: "fb_wf b2" "fb_saved b2 ?d = None" "fb_installed b2 = fb_installed (ds_backend s)"
    using stop_result [OF stop assms(2)] stop_result [OF stop2] assms(3) by auto
  obtain e where "fb_restore_previous ?d b2 = (Inl e, b2)"
    using restore_needs_slot [OF b2(1) a(1) b2(2)] by blast
  then have restore: "file_result (fb_restore_previous ?d) b2 = (False, b2)"
    by (simp add: file_result_def)
  have forward: "run_steps (forward_steps file_backend_ops (ds_artifacts s) ?d a) (ds_backend s) = (False, [(St_stop, False)], b1)"
    using stop by (simp add: forward_steps_def file_backend_ops_def)
  have "\<exists>trace. run_steps (back_steps file_backend_ops ?d) b1 = (False, trace, b2) \<and>
      fst ` set trace \<subseteq> {St_rollback_stop, St_rollback_restore}"
    using stop2 restore by (cases good) (simp_all add: back_steps_def file_backend_ops_def)
  then obtain trace where backward: "run_steps (back_steps file_backend_ops ?d) b1 = (False, trace, b2)"
      "fst ` set trace \<subseteq> {St_rollback_stop, St_rollback_restore}"
    by blast
  have "dr_status r = Failed" "dr_failure_reason r = ''stop_failed''" "trace_of r = (St_stop, False) # trace" "ds_backend s' = b2"
    using a(2) forward backward(1) assms(1) by (simp_all add: abstract_pipeline_def)
  then show ?thesis
    using backward(2) b2(3) by simp blast
qed


text \<open>C25. A rollback may bring back a stale version: when the slot for the previous version is already taken, as after
  a restart of the service that has forgotten an earlier deployment of the same id, the deployment cannot become
  active, and one that ends as rolled back has installed what was in the slot, not the version that was running.\<close>

theorem stale_slot_is_restored:
  assumes "ds_ops s = file_backend_ops" "fb_wf (ds_backend s)"
    "fb_saved (ds_backend s) (dq_deployment_id request) = Some stale" "ds_records s (dq_deployment_id request) = None"
    "deploy request s = (res, s')" "ds_records s' (dq_deployment_id request) = Some r"
  shows "dr_status r \<noteq> Active \<and> (dr_status r = Rolled_back \<longrightarrow> fb_installed (ds_backend s') = Some stale)"
proof -
  let ?d = "dq_deployment_id request"
  obtain a where a: "valid_id ?d" "abstract_pipeline (ds_ops s) (ds_artifacts s) ?d a (ds_backend s) =
      (dr_status r, dr_failure_reason r, trace_of r, ds_backend s')"
    using deploy_refines [OF assms(5,6,4)] by blast
  obtain good1 b1 where stop: "process_result fb_stop (ds_backend s) = (good1, b1)"
    by fastforce
  have b1: "fb_wf b1" "fb_saved b1 ?d = Some stale"
    using stop_result [OF stop assms(2)] assms(3) by auto
  obtain e where "fb_stage_previous ?d b1 = (Inl e, b1)"
    using stage_needs_free_slot [OF b1(1) a(1)] b1(2) by auto
  then have "file_result (fb_stage_previous ?d) b1 = (False, b1)"
    by (simp add: file_result_def)
  then have "\<exists>trace. run_steps (forward_steps file_backend_ops (ds_artifacts s) ?d a) (ds_backend s) = (False, trace, b1)"
    using stop by (cases good1) (simp_all add: forward_steps_def file_backend_ops_def)
  then obtain trace where forward: "run_steps (forward_steps file_backend_ops (ds_artifacts s) ?d a) (ds_backend s) = (False, trace, b1)"
    by blast
  obtain good trace' b' where backward: "run_steps (back_steps file_backend_ops ?d) b1 = (good, trace', b')"
    by (metis prod.exhaust)
  have r: "dr_status r = (if good then Rolled_back else Failed)" "ds_backend s' = b'"
    using a(2) forward backward assms(1) by (simp_all add: abstract_pipeline_def)
  have "fb_installed b' = Some stale" if restored: good
  proof -
    obtain b2 b3 b4 where backs: "process_result fb_stop b1 = (True, b2)" "file_result (fb_restore_previous ?d) b2 = (True, b3)"
        "process_result fb_start b3 = (True, b4)" "process_result fb_health_check b4 = (True, b')"
      using backward restored by (auto simp: back_steps_def file_backend_ops_def run_steps_True simp del: run_steps.simps(2))
    have b2: "fb_wf b2" "fb_saved b2 ?d = Some stale"
      using stop_result [OF backs(1) b1(1)] b1(2) by auto
    obtain u where "bk_restore_previous file_backend_ops ?d b2 = (Inr u, b3)"
      using backs(2) by (auto simp: file_result_def succeeds_iff file_backend_ops_def split: prod.splits)
    then have b3: "fb_wf b3" "fb_installed b3 = Some stale"
      using files.restore [OF b2(1) a(1)] b2(2) by auto
    then show ?thesis
      using start_result [OF backs(3)] health_result [OF backs(4)] by auto
  qed
  then show ?thesis
    using r by simp
qed

lemma deploy_proceeds:
  assumes "deploy_checks request s = Inr a" "permits (dq_authorization request) deploy_execute"
    "audit_append (started_event request a) (ds_audit s) = Inr lg"
  shows "\<exists>res s' r. deploy request s = (res, s') \<and> ds_records s' (dq_deployment_id request) = Some r"
proof -
  obtain res s' where run: "deploy request s = (res, s')"
    by fastforce
  then show ?thesis
    by (cases rule: deploy_run) (use assms run in auto)
qed

lemma sample_proceeds:
  assumes "nodes = sample_nodes @ extra"
  shows "\<exists>res s' r. deploy sample_deploy (sample_deployments fails nodes) = (res, s') \<and> ds_records s' ''d1'' = Some r"
proof -
  obtain lg where "audit_append (started_event sample_deploy sample_artifact) (ds_audit (sample_deployments fails nodes)) = Inr lg"
    using sample_event by (auto simp: sample_deployments_def)
  moreover have "permits (dq_authorization sample_deploy) deploy_execute" "dq_deployment_id sample_deploy = ''d1''"
    by (simp_all add: sample_deploy_def permits_def)
  ultimately show ?thesis
    using deploy_proceeds [OF sample_checks [OF assms], of fails] by simp
qed

lemma sample_backend:
  "fb_wf (ds_backend (sample_deployments fails nodes))" "ds_ops (sample_deployments fails nodes) = file_backend_ops"
  "ds_records (sample_deployments fails nodes) = Map.empty"
  "fb_installed (ds_backend (sample_deployments fails (sample_nodes @ extra))) = Some [1, 2]"
  "fb_saved (ds_backend (sample_deployments fails (sample_nodes @ extra))) (dq_deployment_id sample_deploy) =
     content_at (map_of extra) [''r'', ''rollback'', ''d1.previous'']"
  by (auto simp: fb_wf_def service_commands_harmless_def sample_deployments_def canonical_def fb_installed_def fb_saved_def content_at_def fb_files_def
      sample_machine_def sample_nodes_def sample_deploy_def valid_id_def is_alnum_def is_digit_def fb_slot_def)

lemmas file_backend_run = abstract_pipeline_def forward_steps_def back_steps_def file_backend_ops_def process_result_def
  file_result_def fb_stop_def fb_start_def fb_health_check_def on_machine_def execute_def Let_def command_succeeded_def
  fb_stage_previous_def rollback_path_def failed_path_def scope_resolve_plain canonical_def regular_file_def fb_files_def
  c_bind_def create_directories_def os_do_def flush_file_def atomic_replace_def move_node_def install_operation_def store_object_path_def
  fb_install_def fb_restore_previous_def fb_quarantine_def require_match_def c_check_def file_matches_def content_at_def
  staging_path_def copy_file_def scope_contains_resolved_def weakly_canonical_def
  sample_deployments_def sample_machine_def sample_nodes_def sample_evidence_ok_def sample_artifact_def

lemma sample_pipeline:
  "fst (abstract_pipeline file_backend_ops (ds_artifacts (sample_deployments fails nodes)) ''d1'' sample_artifact
     (ds_backend (sample_deployments (\<lambda>_ _. None) sample_nodes))) = Active"
  using sha256_file_names_content [of "[0x61]"] by (simp add: file_backend_run)

text \<open>Stopping fails whenever it is asked for.\<close>

definition stop_fails :: "os_call list \<Rightarrow> os_call \<Rightarrow> exn option" where
  "stop_fails calls c = (if c = Os_execute sample_command then Some (Runtime_error ''stop'') else None)"

lemma sample_stop_fails:
  "\<not> fst (process_result fb_stop (ds_backend (sample_deployments stop_fails nodes)))"
  by (simp add: process_result_def fb_stop_def on_machine_def execute_def sample_deployments_def sample_machine_def
      stop_fails_def Let_def)

definition stale_node :: "(path \<times> fs_node) list" where
  "stale_node = [([''r'', ''rollback'', ''d1.previous''], File [9])]"

lemma sample_stale_pipeline:
  "fst (abstract_pipeline file_backend_ops (ds_artifacts (sample_deployments fails nodes)) ''d1'' sample_artifact
     (ds_backend (sample_deployments (\<lambda>_ _. None) (sample_nodes @ stale_node)))) = Rolled_back"
  by (simp add: file_backend_run stale_node_def)

lemma sample_run:
  obtains res s' r a where "deploy sample_deploy (sample_deployments fails (sample_nodes @ extra)) = (res, s')"
    "ds_records s' (dq_deployment_id sample_deploy) = Some r"
    "abstract_pipeline file_backend_ops (ds_artifacts (sample_deployments fails (sample_nodes @ extra))) ''d1'' sample_artifact
       (ds_backend (sample_deployments fails (sample_nodes @ extra))) =
      (dr_status r, dr_failure_reason r, trace_of r, ds_backend s')"
proof -
  have d: "dq_deployment_id sample_deploy = ''d1''" "dq_artifact_id sample_deploy = ''a1''"
    by (simp_all add: sample_deploy_def)
  obtain res s' r where run: "deploy sample_deploy (sample_deployments fails (sample_nodes @ extra)) = (res, s')"
      "ds_records s' ''d1'' = Some r"
    using sample_proceeds [OF refl] by blast
  have "store_metadata (ds_artifacts (sample_deployments fails (sample_nodes @ extra))) ''a1'' = Inr sample_artifact"
    by (simp add: store_metadata_def sample_deployments_def)
  then show thesis
    using deploy_refines [OF run(1)] run that d by (simp add: sample_backend)
qed

theorem deployment_keeps_a_version_witness:
  "\<exists>res s' r. deploy sample_deploy (sample_deployments (\<lambda>_ _. None) (sample_nodes @ [])) = (res, s') \<and>
     ds_records s' (dq_deployment_id sample_deploy) = Some r \<and> dr_status r = Active \<and>
     (\<exists>bs. fb_installed (ds_backend s') = Some bs \<and> sha256_file (Some bs) = Inr (dr_artifact_sha256 r)) \<and>
     fb_saved (ds_backend s') (dq_deployment_id sample_deploy) = Some [1, 2]"
proof -
  let ?s = "sample_deployments (\<lambda>_ _. None) (sample_nodes @ [])"
  obtain res s' r where run: "deploy sample_deploy ?s = (res, s')" "ds_records s' (dq_deployment_id sample_deploy) = Some r"
      "fst (abstract_pipeline file_backend_ops (ds_artifacts ?s) ''d1'' sample_artifact (ds_backend ?s)) = dr_status r"
    by (rule sample_run [of "\<lambda>_ _. None" "[]"]) simp
  then have active: "dr_status r = Active"
    using sample_pipeline [of "\<lambda>_ _. None" "sample_nodes @ []"] by simp
  have "fb_saved (ds_backend ?s) (dq_deployment_id sample_deploy) = None" "ds_records ?s (dq_deployment_id sample_deploy) = None"
    by (simp_all only: sample_backend) (simp_all add: content_at_def)
  from deployment_keeps_a_version [OF sample_backend(2,1,4) this run(1)] show ?thesis
    using run active by auto
qed

theorem deployment_authorized_and_logged_witness:
  "permits (dq_authorization sample_deploy) deploy_execute \<and>
    (\<exists>a lg. store_verify (fb_files (ds_backend (sample_deployments (\<lambda>_ _. None) (sample_nodes @ []))))
        (ds_artifacts (sample_deployments (\<lambda>_ _. None) (sample_nodes @ []))) ''a1'' = Inr True \<and>
      audit_append (started_event sample_deploy a) (empty_log 24 10 None) = Inr lg)"
proof -
  let ?s = "sample_deployments (\<lambda>_ _. None) (sample_nodes @ [])"
  obtain res s' r where "deploy sample_deploy ?s = (res, s')" "ds_records s' (dq_deployment_id sample_deploy) = Some r"
    by (rule sample_run [of "\<lambda>_ _. None" "[]"])
  then have "permits (dq_authorization sample_deploy) deploy_execute \<and> ds_records ?s (dq_deployment_id sample_deploy) = None \<and>
    (\<exists>a lg. store_metadata (ds_artifacts ?s) (dq_artifact_id sample_deploy) = Inr a \<and>
      art_workspace_id a = dq_workspace_id sample_deploy \<and>
      store_verify (ds_files ?s (ds_backend ?s)) (ds_artifacts ?s) (dq_artifact_id sample_deploy) = Inr True \<and>
      audit_append (started_event sample_deploy a) (ds_audit ?s) = Inr lg)"
    by (intro deployment_authorized_and_logged [of sample_deploy ?s res s']) (auto simp: sample_backend(3))
  moreover have "ds_files ?s = fb_files" "ds_audit ?s = empty_log 24 10 None" "dq_artifact_id sample_deploy = ''a1''"
    by (simp_all add: sample_deployments_def sample_deploy_def)
  ultimately show ?thesis
    by auto
qed

theorem deployment_refines_steps_witness:
  "\<exists>res s' r a. deploy sample_deploy (sample_deployments (\<lambda>_ _. None) (sample_nodes @ [])) = (res, s') \<and>
     ds_records s' (dq_deployment_id sample_deploy) = Some r \<and>
     abstract_pipeline file_backend_ops (ds_artifacts (sample_deployments (\<lambda>_ _. None) (sample_nodes @ [])))
       (dq_deployment_id sample_deploy) a (ds_backend (sample_deployments (\<lambda>_ _. None) (sample_nodes @ []))) =
      (dr_status r, dr_failure_reason r, trace_of r, ds_backend s')"
proof -
  let ?s = "sample_deployments (\<lambda>_ _. None) (sample_nodes @ [])"
  obtain res s' r where run: "deploy sample_deploy ?s = (res, s')" "ds_records s' (dq_deployment_id sample_deploy) = Some r"
    by (rule sample_run [of "\<lambda>_ _. None" "[]"])
  from deployment_refines_steps [OF this] show ?thesis
    using run by (auto simp: sample_backend(2,3))
qed

theorem failed_stop_is_not_restarted_witness:
  "\<exists>res s' r. deploy sample_deploy (sample_deployments stop_fails (sample_nodes @ [])) = (res, s') \<and>
     ds_records s' (dq_deployment_id sample_deploy) = Some r \<and> dr_status r = Failed \<and>
     fst ` set (trace_of r) \<subseteq> {St_stop, St_rollback_stop, St_rollback_restore}"
proof -
  let ?s = "sample_deployments stop_fails (sample_nodes @ [])"
  obtain res s' r where run: "deploy sample_deploy ?s = (res, s')" "ds_records s' (dq_deployment_id sample_deploy) = Some r"
    by (rule sample_run [of stop_fails "[]"])
  have "fb_saved (ds_backend ?s) (dq_deployment_id sample_deploy) = None" "ds_records ?s (dq_deployment_id sample_deploy) = None"
    by (simp_all only: sample_backend) (simp_all add: content_at_def)
  from failed_stop_is_not_restarted [OF sample_backend(2,1) this sample_stop_fails run] show ?thesis
    using run by blast
qed

theorem stale_slot_is_restored_witness:
  "\<exists>res s' r. deploy sample_deploy (sample_deployments (\<lambda>_ _. None) (sample_nodes @ stale_node)) = (res, s') \<and>
     ds_records s' (dq_deployment_id sample_deploy) = Some r \<and> dr_status r = Rolled_back \<and>
     fb_installed (ds_backend s') = Some [9]"
proof -
  let ?s = "sample_deployments (\<lambda>_ _. None) (sample_nodes @ stale_node)"
  obtain res s' r where run: "deploy sample_deploy ?s = (res, s')" "ds_records s' (dq_deployment_id sample_deploy) = Some r"
      "fst (abstract_pipeline file_backend_ops (ds_artifacts ?s) ''d1'' sample_artifact (ds_backend ?s)) = dr_status r"
    by (rule sample_run [of "\<lambda>_ _. None" stale_node]) simp
  then have rolled: "dr_status r = Rolled_back"
    using sample_stale_pipeline by simp
  have "fb_saved (ds_backend ?s) (dq_deployment_id sample_deploy) = Some [9]"
      "ds_records ?s (dq_deployment_id sample_deploy) = None"
    by (simp_all only: sample_backend) (simp_all add: content_at_def stale_node_def)
  from stale_slot_is_restored [OF sample_backend(2,1) this run(1,2)] show ?thesis
    using run rolled by blast
qed

section \<open>Manual rollback\<close>

text \<open>An assertion about the installed and the saved version of deployment \<open>d\<close> over the service.\<close>

definition service_versions ::
  "string \<Rightarrow> (byte list option \<Rightarrow> byte list option \<Rightarrow> bool) \<Rightarrow> file_backend deployment_service \<Rightarrow> bool" where
  "service_versions d A s \<longleftrightarrow> ds_ops s = file_backend_ops \<and> fb_wf (ds_backend s) \<and> ds_records s d \<noteq> None \<and>
     A (fb_installed (ds_backend s)) (fb_saved (ds_backend s) d)"

lemma sv_now: "c_post (service_versions d A) steady_now (\<lambda>_. service_versions d A) E"
  by (simp add: c_post_def steady_now_def service_versions_def)

lemma sv_change: "c_post (service_versions d A) (change_record d' f) (\<lambda>_. service_versions d A) E"
  unfolding change_record_def by (rule c_post_modify) (auto simp: service_versions_def)

lemma sv_audit: "c_post (service_versions d A) (audit_rollback request res reason) (\<lambda>_. service_versions d A) (service_versions d A)"
  by (auto simp: c_post_def audit_rollback_def append_audit_event_def service_versions_def split: prod.split sum.split option.split)

lemma sv_process:
  assumes "files.harmless operation"
  shows "c_post (service_versions d A) (rollback_process d' st operation) (\<lambda>_. service_versions d A) (service_versions d A)"
proof -
  have op: "c_post (service_versions d A) (on_backend operation) (\<lambda>_. service_versions d A) (service_versions d A)"
    using assms by (fastforce simp: c_post_def on_backend_def service_versions_def files.harmless_def
        split: prod.split sum.split)
  have require: "c_post (service_versions d A) (require_command e) (\<lambda>_. service_versions d A) (service_versions d A)" for e
    by (simp add: require_command_def c_post_return c_post_throw)
  show ?thesis
    unfolding rollback_process_def Let_def
    by (rule c_post_bind, rule op, rule c_post_bind, rule sv_change, rule require)
qed

lemma sv_restore:
  assumes "valid_id d"
  shows "c_post (service_versions d (\<lambda>a s. s = Some old)) (on_backend (\<lambda>ops. bk_restore_previous ops d))
    (\<lambda>_. service_versions d (\<lambda>a s. a = Some old)) (service_versions d (\<lambda>a s. a = Some old \<or> s = Some old))"
  using files.restore [OF _ assms]
  by (fastforce simp: c_post_def on_backend_def service_versions_def split: prod.split sum.split)

lemma sv_steps:
  assumes "valid_id (rq_deployment_id request)"
  shows "c_post (service_versions (rq_deployment_id request) (\<lambda>a s. s = Some old)) (rollback_steps request)
    (\<lambda>_. service_versions (rq_deployment_id request) (\<lambda>a s. a = Some old))
    (service_versions (rq_deployment_id request) (\<lambda>a s. a = Some old \<or> s = Some old))"
proof -
  let ?d = "rq_deployment_id request"
  let ?saved = "service_versions ?d (\<lambda>a s. s = Some old)"
  let ?was = "service_versions ?d (\<lambda>a s. a = Some old)"
  let ?E = "service_versions ?d (\<lambda>a s. a = Some old \<or> s = Some old)"
  have weak: "?saved s \<Longrightarrow> ?E s" "?was s \<Longrightarrow> ?E s" for s
    by (auto simp: service_versions_def)
  have stop: "c_post ?saved (rollback_process ?d St_rollback_stop bk_stop) (\<lambda>_. ?saved) ?E"
    by (rule c_post_weaken [OF sv_process [OF files.harmless_commands(1)]]) (assumption | erule weak)+
  have restore: "c_post ?saved (on_backend (\<lambda>ops. bk_restore_previous ops ?d)) (\<lambda>_. ?was) ?E"
    by (rule sv_restore [OF assms])
  have start: "c_post ?was (rollback_process ?d St_rollback_start bk_start) (\<lambda>_. ?was) ?E"
    by (rule c_post_weaken [OF sv_process [OF files.harmless_commands(2)]]) (assumption | erule weak)+
  have health: "c_post ?was (rollback_process ?d St_rollback_health_check bk_health_check) (\<lambda>_. ?was) ?E"
    by (rule c_post_weaken [OF sv_process [OF files.harmless_commands(3)]]) (assumption | erule weak)+
  show ?thesis
    unfolding rollback_steps_def Let_def
    by (rule c_post_bind, rule stop, rule c_post_bind, rule sv_now, rule c_post_bind, rule restore,
        rule c_post_bind, rule sv_now, rule c_post_bind, rule sv_change, rule c_post_bind, rule start, rule health)
qed

text \<open>What holds when the record of the deployment has status \<open>st\<close>.\<close>

definition rolled_back_ok :: "byte list \<Rightarrow> rollback_request \<Rightarrow> file_backend deployment_service \<Rightarrow> bool" where
  "rolled_back_ok old request s \<longleftrightarrow> service_versions (rq_deployment_id request) (\<lambda>a s'. (case ds_records s (rq_deployment_id request) of
     None \<Rightarrow> False
   | Some r \<Rightarrow> (dr_status r = Rolled_back \<and> a = Some old) \<or> (dr_status r = Failed \<and> (a = Some old \<or> s' = Some old)))) s"

lemma sv_ended:
  assumes "\<And>a s. A a s \<Longrightarrow> (st = Rolled_back \<and> a = Some old) \<or> (st = Failed \<and> (a = Some old \<or> s = Some old))"
  shows "c_post (service_versions (rq_deployment_id request) A) (end_rollback request st reason)
    (\<lambda>_ s. rolled_back_ok old request s \<and> service_versions (rq_deployment_id request) A s) E"
  unfolding end_rollback_def change_record_def
  by (rule c_post_modify) (use assms in \<open>auto simp: service_versions_def rolled_back_ok_def\<close>)

lemma sv_audited: "c_post (rolled_back_ok old request) (audit_rollback request res reason) (\<lambda>_. rolled_back_ok old request)
    (rolled_back_ok old request)"
  by (auto simp: c_post_def audit_rollback_def append_audit_event_def rolled_back_ok_def service_versions_def
      split: prod.split sum.split option.split)

lemma sv_rollback:
  assumes "valid_id (rq_deployment_id request)"
  shows "c_post (service_versions (rq_deployment_id request) (\<lambda>a s. s = Some old))
    (c_catch
      (c_bind (rollback_steps request) (\<lambda>_.
       c_bind (end_rollback request Rolled_back ''manual_rollback'') (\<lambda>_.
       audit_rollback request res_allowed ''manual_rollback'')))
      (c_bind (end_rollback request Failed ''manual_rollback_failed'') (\<lambda>_.
       audit_rollback request res_failed ''manual_rollback_failed'')))
    (\<lambda>_. rolled_back_ok old request) (rolled_back_ok old request)"
proof -
  let ?d = "rq_deployment_id request"
  let ?was = "service_versions ?d (\<lambda>a s. a = Some old)"
  let ?E = "service_versions ?d (\<lambda>a s. a = Some old \<or> s = Some old)"
  let ?ok = "rolled_back_ok old request"
  have done_ok: "c_post ?was (end_rollback request Rolled_back reason) (\<lambda>_ s. ?ok s \<and> ?was s) ?E" for reason
    by (rule sv_ended) simp
  have failed_ok: "c_post ?E (end_rollback request Failed reason) (\<lambda>_. ?ok) ?ok" for reason
    by (rule c_post_weaken [OF sv_ended [where E = ?ok and A = "\<lambda>a s. a = Some old \<or> s = Some old" and old = old]]) auto
  have audit: "c_post (\<lambda>s. ?ok s \<and> ?was s) (audit_rollback request res reason) (\<lambda>_. ?ok) ?E" for res reason
    using sv_audited [of old request res reason] sv_audit [of ?d "\<lambda>a s. a = Some old" request res reason]
    by (fastforce simp: c_post_def service_versions_def split: prod.splits sum.splits)
  show ?thesis
    by (rule c_post_catch,
        (rule c_post_bind, rule sv_steps [OF assms], rule c_post_bind, rule done_ok, rule audit),
        (rule c_post_bind, rule failed_ok, rule sv_audited))
qed

text \<open>A manual rollback of an active deployment whose previous version is saved ends, whatever fails, with that
  version installed (rolled back), or with it installed or still saved (failed); no other outcome is recorded, and a
  rollback that is refused touches neither the backend nor the record.\<close>

theorem manual_rollback_outcome:
  assumes "ds_ops s = file_backend_ops" "fb_wf (ds_backend s)"
    "fb_saved (ds_backend s) (rq_deployment_id request) = Some old"
    "rollback_deployment request s = (res, s')"
  shows "(ds_backend s' = ds_backend s \<and> ds_records s' = ds_records s \<and> (\<exists>e. res = Inl e)) \<or>
    (permits (rq_authorization request) deploy_execute \<and>
     (\<exists>r r'. ds_records s (rq_deployment_id request) = Some r \<and> dr_status r = Active \<and>
       ds_records s' (rq_deployment_id request) = Some r' \<and>
       ((dr_status r' = Rolled_back \<and> fb_installed (ds_backend s') = Some old) \<or>
        (dr_status r' = Failed \<and> (fb_installed (ds_backend s') = Some old \<or>
          fb_saved (ds_backend s') (rq_deployment_id request) = Some old)))))"
proof -
  let ?d = "rq_deployment_id request"
  let ?m = "c_catch
      (c_bind (rollback_steps request) (\<lambda>_.
       c_bind (end_rollback request Rolled_back ''manual_rollback'') (\<lambda>_.
       audit_rollback request res_allowed ''manual_rollback'')))
      (c_bind (end_rollback request Failed ''manual_rollback_failed'') (\<lambda>_.
       audit_rollback request res_failed ''manual_rollback_failed''))"
  consider (refused) "ds_backend s' = ds_backend s" "ds_records s' = ds_records s" "\<exists>e. res = Inl e"
    | (ran) r s1 u where "valid_id ?d" "ds_records s ?d = Some r" "dr_status r = Active"
      "permits (rq_authorization request) deploy_execute" "?m s = (u, s1)" "s' = s1"
  proof (cases "\<exists>r. ds_records s ?d = Some r \<and> dr_status r = Active \<and> valid_id ?d \<and> rq_principal_id request \<noteq> [] \<and>
      rq_device_id request \<noteq> [] \<and> rq_session_id request \<noteq> [] \<and> permits (rq_authorization request) deploy_execute")
    case True
    then obtain r where r: "ds_records s ?d = Some r" "dr_status r = Active" "valid_id ?d" "rq_principal_id request \<noteq> []"
        "rq_device_id request \<noteq> []" "rq_session_id request \<noteq> []" "permits (rq_authorization request) deploy_execute"
      by blast
    obtain u s1 where m: "?m s = (u, s1)"
      by fastforce
    have "s' = s1"
      using assms(4) r m by (auto simp: rollback_deployment_def c_bind_def [of ?m] split: sum.splits option.splits)
    then show ?thesis
      using ran r m by blast
  next
    case False
    then show ?thesis
      using assms(4) refused
      by (auto simp: rollback_deployment_def c_bind_def audit_rollback_def append_audit_event_def
          split: sum.splits option.splits if_splits)
  qed
  then show ?thesis
  proof cases
    case ran
    have "service_versions ?d (\<lambda>a s. s = Some old) s"
      using assms(1-3) ran(2) by (simp add: service_versions_def)
    then have "rolled_back_ok old request s1"
      using sv_rollback [OF ran(1), of old] ran(5) by (cases u) (auto simp: c_post_def)
    then show ?thesis
      using ran by (auto simp: rolled_back_ok_def service_versions_def split: option.splits)
  qed simp
qed

definition sample_active :: "file_backend deployment_service" where
  "sample_active = (sample_deployments (\<lambda>_ _. None) (sample_nodes @ stale_node))
     \<lparr>ds_records := [''d1'' \<mapsto> (new_deployment sample_deploy sample_artifact)\<lparr>dr_status := Active\<rparr>]\<rparr>"

definition sample_rollback :: rollback_request where
  "sample_rollback = \<lparr>rq_deployment_id = ''d1'', rq_principal_id = ''p'', rq_device_id = ''d'', rq_session_id = ''s'',
     rq_authorization = dq_authorization sample_deploy, rq_occurred_at = 9\<rparr>"

theorem manual_rollback_outcome_witness:
  "\<exists>res s'. rollback_deployment sample_rollback sample_active = (res, s') \<and>
    ((ds_backend s' = ds_backend sample_active \<and> (\<exists>e. res = Inl e)) \<or>
     (\<exists>r'. ds_records s' ''d1'' = Some r' \<and>
       ((dr_status r' = Rolled_back \<and> fb_installed (ds_backend s') = Some [9]) \<or>
        (dr_status r' = Failed \<and> (fb_installed (ds_backend s') = Some [9] \<or> fb_saved (ds_backend s') ''d1'' = Some [9])))))"
proof -
  obtain res s' where run: "rollback_deployment sample_rollback sample_active = (res, s')"
    by fastforce
  have d: "rq_deployment_id sample_rollback = ''d1''" "dq_deployment_id sample_deploy = ''d1''"
    by (simp_all add: sample_rollback_def sample_deploy_def)
  have "fb_saved (ds_backend sample_active) (rq_deployment_id sample_rollback) = Some [9]"
    using sample_backend(5) [of "\<lambda>_ _. None" stale_node] d
    by (simp add: sample_active_def content_at_def stale_node_def)
  moreover have "ds_ops sample_active = file_backend_ops" "fb_wf (ds_backend sample_active)"
    using sample_backend(1,2) by (simp_all add: sample_active_def)
  ultimately have "(ds_backend s' = ds_backend sample_active \<and> (\<exists>e. res = Inl e)) \<or>
     (\<exists>r'. ds_records s' ''d1'' = Some r' \<and>
       ((dr_status r' = Rolled_back \<and> fb_installed (ds_backend s') = Some [9]) \<or>
        (dr_status r' = Failed \<and> (fb_installed (ds_backend s') = Some [9] \<or> fb_saved (ds_backend s') ''d1'' = Some [9]))))"
    using manual_rollback_outcome [OF _ _ _ run, of "[9]"] d by auto
  then show ?thesis
    using run by blast
qed

end
