(* ===== verification/Ordered_Map.thy ===== *)
theory Ordered_Map
  imports Main
begin

text \<open>
  A \<open>std::map\<close> over which the code iterates: the list of its entries, ordered by key. \<open>omap_assign\<close> is
  \<open>insert_or_assign\<close> and \<open>omap_erase\<close> is \<open>erase\<close>; a map is determined by what it maps.
\<close>

type_synonym ('k, 'v) omap = "('k \<times> 'v) list"

fun omap_assign :: "'k :: linorder \<Rightarrow> 'v \<Rightarrow> ('k, 'v) omap \<Rightarrow> ('k, 'v) omap" where
  "omap_assign k v [] = [(k, v)]"
| "omap_assign k v ((k', v') # m) =
     (if k < k' then (k, v) # (k', v') # m
      else if k = k' then (k, v) # m
      else (k', v') # omap_assign k v m)"

definition omap_erase :: "'k \<Rightarrow> ('k, 'v) omap \<Rightarrow> ('k, 'v) omap" where
  "omap_erase k m = filter (\<lambda>e. fst e \<noteq> k) m"

definition omap_wf :: "('k :: linorder, 'v) omap \<Rightarrow> bool" where
  "omap_wf m \<longleftrightarrow> sorted_wrt (<) (map fst m)"

lemma omap_wf_Nil [simp]: "omap_wf []"
  by (simp add: omap_wf_def)

lemma map_of_assign [simp]: "map_of (omap_assign k v m) = (map_of m)(k \<mapsto> v)"
  by (induction k v m rule: omap_assign.induct) (auto simp: fun_eq_iff)

lemma set_assign: "fst ` set (omap_assign k v m) = insert k (fst ` set m)"
  using map_of_assign [of k v m] dom_map_of_conv_image_fst [of "omap_assign k v m"] dom_map_of_conv_image_fst [of m]
  by simp

lemma omap_wf_assign [simp]: "omap_wf m \<Longrightarrow> omap_wf (omap_assign k v m)"
proof (induction k v m rule: omap_assign.induct)
  case (2 k v k' v' m)
  then show ?case
    using set_assign [of k v m] by (auto simp: omap_wf_def)
qed (simp add: omap_wf_def)

lemma map_of_erase [simp]: "map_of (omap_erase k m) = (map_of m)(k := None)"
  by (induction m) (auto simp: omap_erase_def fun_eq_iff)

lemma omap_wf_erase [simp]: "omap_wf m \<Longrightarrow> omap_wf (omap_erase k m)"
  unfolding omap_wf_def omap_erase_def by (induction m) auto

lemma omap_wf_distinct: "omap_wf m \<Longrightarrow> distinct (map fst m)"
  by (simp add: omap_wf_def strict_sorted_iff)

lemma omap_wf_map_of: "omap_wf m \<Longrightarrow> map_of m k = Some v \<longleftrightarrow> (k, v) \<in> set m"
  by (rule map_of_eq_Some_iff [OF omap_wf_distinct])

lemma omap_eqI:
  assumes "omap_wf m" "omap_wf n" "map_of m = map_of n"
  shows "m = n"
proof -
  have "set (map fst m) = set (map fst n)"
    using assms(3) dom_map_of_conv_image_fst [of m] dom_map_of_conv_image_fst [of n] by simp
  then have keys: "map fst m = map fst n"
    using assms(1,2) by (intro strict_sorted_equal) (simp_all add: omap_wf_def)
  have "v = w" if "(k, v) \<in> set m" "(k, w) \<in> set n" for k v w
    using that assms omap_wf_map_of by (metis option.inject)
  then have "m ! i = n ! i" if "i < length m" for i
    using that keys map_eq_imp_length_eq [OF keys] by (metis nth_map nth_mem prod.collapse)
  then show ?thesis
    using map_eq_imp_length_eq [OF keys] by (intro nth_equalityI)
qed

lemma omap_assign_last: "\<forall>e\<in>set m. fst e < k \<Longrightarrow> omap_assign k v m = m @ [(k, v)]"
  by (induction k v m rule: omap_assign.induct) auto

end
