(* ===== verification/Workspace_Sync.thy ===== *)
theory Workspace_Sync
  imports File_System Ordered_Map "HOL-Library.List_Lexorder" "HOL-Library.Char_ord"
begin

text \<open>
  \<open>core/src/workspace_sync.cpp\<close>: canonical workspace paths, manifests, the difference of two manifests and its
  application, the canonical form of a manifest, the history of revisions, and the ledger of confirmed
  chunks. Strings are compared by their bytes.
\<close>

section \<open>Canonical paths\<close>

definition to_upper :: "char \<Rightarrow> char" where
  "to_upper c = (if 97 \<le> (of_char c :: nat) \<and> (of_char c :: nat) \<le> 122 then char_of ((of_char c :: nat) - 32) else c)"

text \<open>The components that the loop over the path visits.\<close>

function path_components :: "string \<Rightarrow> string list" where
  "path_components s = (if s = [] then []
     else takeWhile (\<lambda>c. c \<noteq> CHR ''/'') s # path_components (drop 1 (dropWhile (\<lambda>c. c \<noteq> CHR ''/'') s)))"
  by pat_completeness auto
termination
proof (relation "measure length")
  fix s :: string
  assume "s \<noteq> []"
  then show "(drop 1 (dropWhile (\<lambda>c. c \<noteq> CHR ''/'') s), s) \<in> measure length"
    using length_dropWhile_le [of "\<lambda>c. c \<noteq> CHR ''/''" s] by (cases s) auto
qed simp

declare path_components.simps [simp del]

definition numbered_device :: "string \<Rightarrow> string \<Rightarrow> bool" where
  "numbered_device device pre \<longleftrightarrow> length device = 4 \<and> take (length pre) device = pre \<and>
     49 \<le> (of_char (device ! 3) :: nat) \<and> (of_char (device ! 3) :: nat) \<le> 57"

definition reserved_device :: "string \<Rightarrow> bool" where
  "reserved_device component =
     (let device = map to_upper (takeWhile (\<lambda>c. c \<noteq> CHR ''.'') component)
      in device \<in> set [''CON'', ''PRN'', ''AUX'', ''NUL'', ''CLOCK$'', ''CONIN$'', ''CONOUT$''] \<or>
        numbered_device device ''COM'' \<or> numbered_device device ''LPT'')"

definition component_ok :: "string \<Rightarrow> bool" where
  "component_ok component \<longleftrightarrow> component \<noteq> [] \<and> length component \<le> 255 \<and> component \<noteq> ''.'' \<and> component \<noteq> ''..'' \<and>
     hd component \<noteq> CHR '' '' \<and> last component \<noteq> CHR '' '' \<and> last component \<noteq> CHR ''.'' \<and>
     \<not> list_ex (\<lambda>c. c \<in> set [CHR '':'', CHR ''*'', CHR ''?'', CHR 0x22, CHR ''<'', CHR ''>'', CHR ''|'']) component \<and>
     \<not> list_ex (\<lambda>c. (of_char c :: nat) < 0x20 \<or> (of_char c :: nat) = 0x7f) component \<and>
     \<not> reserved_device component"

definition is_canonical_workspace_path :: "string \<Rightarrow> bool" where
  "is_canonical_workspace_path p \<longleftrightarrow>
     (if p = [] \<or> length p > 4096 \<or> hd p = CHR ''/'' \<or> last p = CHR ''/'' \<or> CHR 0x5C \<in> set p then False
      else list_all component_ok (path_components p))"

section \<open>Manifests\<close>

datatype entry_kind = Entry_file | Entry_directory | Entry_symlink

record workspace_entry =
  we_path :: string
  we_kind :: entry_kind
  we_size :: u64
  we_content_hash :: string
  we_mode :: u32
  we_symlink_target :: string

record workspace_manifest =
  wm_workspace_id :: string
  wm_revision :: u64
  wm_entries :: "workspace_entry list"

datatype change_kind = Change_create | Change_update | Change_remove | Change_rename | Change_metadata

record workspace_change =
  wc_kind :: change_kind
  wc_path :: string
  wc_previous_path :: string

text \<open>The loop of \<open>validate_manifest\<close> with the paths seen so far and the path before.\<close>

fun entries_valid :: "string list \<Rightarrow> string \<Rightarrow> workspace_entry list \<Rightarrow> bool" where
  "entries_valid paths previous [] = True"
| "entries_valid paths previous (e # es) =
     (if \<not> is_canonical_workspace_path (we_path e) \<or> we_path e \<in> set paths \<or>
         (previous \<noteq> [] \<and> previous \<ge> we_path e) \<or>
         (we_kind e = Entry_file \<and> \<not> is_sha256_hex (we_content_hash e)) \<or>
         (we_kind e \<noteq> Entry_symlink \<and> we_symlink_target e \<noteq> []) \<or>
         (we_kind e = Entry_symlink \<and> \<not> is_canonical_workspace_path (we_symlink_target e))
      then False
      else entries_valid (we_path e # paths) (we_path e) es)"

definition validate_manifest :: "workspace_manifest \<Rightarrow> unit result" where
  "validate_manifest m =
     (if wm_workspace_id m = [] \<or> wm_revision m = 0 then throw (Invalid_argument ''invalid workspace manifest identity'')
      else throw_if (\<not> entries_valid [] [] (wm_entries m)) (Invalid_argument ''invalid workspace manifest entry''))"

fun index_entries :: "(string, workspace_entry) omap \<Rightarrow> workspace_entry list \<Rightarrow> (string, workspace_entry) omap result" where
  "index_entries m [] = ok m"
| "index_entries m (e # es) = (if map_of m (we_path e) \<noteq> None then throw (Invalid_argument ''manifest contains duplicate paths'')
     else index_entries (omap_assign (we_path e) e m) es)"

definition indexed :: "workspace_manifest \<Rightarrow> (string, workspace_entry) omap result" where
  "indexed m = index_entries [] (wm_entries m)"

section \<open>Differences\<close>

definition equivalent_content :: "workspace_entry \<Rightarrow> workspace_entry \<Rightarrow> bool" where
  "equivalent_content left right \<longleftrightarrow> we_kind left = Entry_file \<and> we_kind right = Entry_file \<and>
     we_size left = we_size right \<and> we_content_hash left \<noteq> [] \<and> we_content_hash left = we_content_hash right"

definition find_rename ::
  "(string, workspace_entry) omap \<Rightarrow> (string, workspace_entry) omap \<Rightarrow> string set \<Rightarrow> workspace_entry \<Rightarrow>
     (string \<times> workspace_entry) option" where
  "find_rename source destination used e = List.find (\<lambda>(q, old). map_of source q = None \<and> q \<notin> used \<and>
     equivalent_content e old) destination"

text \<open>The loop over the source entries: the changes, and the destination paths used by renames.\<close>

fun source_changes ::
  "(string, workspace_entry) omap \<Rightarrow> (string, workspace_entry) omap \<Rightarrow> (string, workspace_entry) omap \<Rightarrow> string set \<Rightarrow>
     workspace_change list \<times> string set" where
  "source_changes source destination [] used = ([], used)"
| "source_changes source destination ((path, e) # es) used =
     (case map_of destination path of
       None \<Rightarrow> (case find_rename source destination used e of
           Some (q, _) \<Rightarrow> (case source_changes source destination es (insert q used) of
             (cs, all) \<Rightarrow> (\<lparr>wc_kind = Change_rename, wc_path = path, wc_previous_path = q\<rparr> # cs, all))
         | None \<Rightarrow> (case source_changes source destination es used of
             (cs, all) \<Rightarrow> (\<lparr>wc_kind = Change_create, wc_path = path, wc_previous_path = []\<rparr> # cs, all)))
     | Some old \<Rightarrow> (case source_changes source destination es used of
         (cs, all) \<Rightarrow>
           (if e \<noteq> old
            then \<lparr>wc_kind = (if we_content_hash e = we_content_hash old \<and> we_size e = we_size old
                then Change_metadata else Change_update), wc_path = path, wc_previous_path = []\<rparr> # cs
            else cs, all)))"

definition removals :: "(string, workspace_entry) omap \<Rightarrow> string set \<Rightarrow> (string, workspace_entry) omap \<Rightarrow> workspace_change list" where
  "removals source used destination =
     map (\<lambda>(path, _). \<lparr>wc_kind = Change_remove, wc_path = path, wc_previous_path = []\<rparr>)
       (filter (\<lambda>(path, _). map_of source path = None \<and> path \<notin> used) destination)"

definition diff_manifests :: "workspace_manifest \<Rightarrow> workspace_manifest \<Rightarrow> workspace_change list result" where
  "diff_manifests source destination =
     and_then (validate_manifest source) (\<lambda>_. and_then (validate_manifest destination) (\<lambda>_.
       if wm_workspace_id source \<noteq> wm_workspace_id destination \<or> wm_revision source \<le> wm_revision destination
       then throw (Invalid_argument ''invalid one-way manifest revision'')
       else and_then (indexed source) (\<lambda>source_index. and_then (indexed destination) (\<lambda>destination_index.
         case source_changes source_index destination_index source_index {} of
           (cs, used) \<Rightarrow> ok (cs @ removals source_index used destination_index)))))"

definition require_source_entry :: "(string, workspace_entry) omap \<Rightarrow> string \<Rightarrow> workspace_entry result" where
  "require_source_entry source path = (case map_of source path of
     None \<Rightarrow> throw (Invalid_argument ''manifest change references missing source entry'') | Some e \<Rightarrow> ok e)"

definition apply_change ::
  "(string, workspace_entry) omap \<Rightarrow> workspace_change \<Rightarrow> (string, workspace_entry) omap \<Rightarrow> (string, workspace_entry) omap result" where
  "apply_change source c m = (case wc_kind c of
     Change_remove \<Rightarrow> if map_of m (wc_path c) = None
       then throw (Invalid_argument ''remove change references missing entry'') else ok (omap_erase (wc_path c) m)
   | Change_rename \<Rightarrow> if map_of m (wc_previous_path c) = None
       then throw (Invalid_argument ''rename change references missing entry'')
       else and_then (require_source_entry source (wc_path c)) (\<lambda>e.
         ok (omap_assign (wc_path c) e (omap_erase (wc_previous_path c) m)))
   | _ \<Rightarrow> and_then (require_source_entry source (wc_path c)) (\<lambda>e. ok (omap_assign (wc_path c) e m)))"

fun apply_changes ::
  "(string, workspace_entry) omap \<Rightarrow> workspace_change list \<Rightarrow> (string, workspace_entry) omap \<Rightarrow> (string, workspace_entry) omap result" where
  "apply_changes source [] m = ok m"
| "apply_changes source (c # cs) m = and_then (apply_change source c m) (apply_changes source cs)"

text \<open>\<open>emplace\<close> keeps the entry that is there.\<close>

definition emplace_entry :: "(string, workspace_entry) omap \<Rightarrow> workspace_entry \<Rightarrow> (string, workspace_entry) omap" where
  "emplace_entry m e = (if map_of m (we_path e) \<noteq> None then m else omap_assign (we_path e) e m)"

definition apply_manifest_diff ::
  "workspace_manifest \<Rightarrow> workspace_manifest \<Rightarrow> workspace_change list \<Rightarrow> workspace_manifest result" where
  "apply_manifest_diff source destination changes =
     and_then (diff_manifests source destination) (\<lambda>expected.
       if changes \<noteq> expected then throw (Invalid_argument ''manifest changes do not match authoritative diff'')
       else and_then (indexed source) (\<lambda>source_index.
         and_then (apply_changes source_index changes (foldl emplace_entry [] (wm_entries destination))) (\<lambda>m.
           let applied = \<lparr>wm_workspace_id = wm_workspace_id source, wm_revision = wm_revision source,
             wm_entries = map snd m\<rparr>
           in and_then (validate_manifest applied) (\<lambda>_.
             if wm_entries applied \<noteq> wm_entries source
             then throw (Logic_error ''applied destination manifest differs from source'')
             else ok applied))))"

section \<open>The canonical form\<close>

definition append_u64_le :: "u64 \<Rightarrow> byte list" where
  "append_u64_le value = map (\<lambda>shift. ucast (drop_bit shift value)) [0, 8, 16, 24, 32, 40, 48, 56]"

definition append_string_le :: "string \<Rightarrow> byte list" where
  "append_string_le value = append_u64_le (of_nat (length value)) @ as_bytes value"

fun kind_value :: "entry_kind \<Rightarrow> u64" where
  "kind_value Entry_file = 0" | "kind_value Entry_directory = 1" | "kind_value Entry_symlink = 2"

definition entry_bytes :: "workspace_entry \<Rightarrow> byte list" where
  "entry_bytes e = append_string_le (we_path e) @ append_u64_le (kind_value (we_kind e)) @ append_u64_le (we_size e) @
     append_string_le (we_content_hash e) @ append_u64_le (ucast (we_mode e)) @ append_string_le (we_symlink_target e)"

definition manifest_bytes :: "workspace_manifest \<Rightarrow> byte list" where
  "manifest_bytes m = append_string_le (wm_workspace_id m) @ append_u64_le (wm_revision m) @
     append_u64_le (of_nat (length (wm_entries m))) @ concat (map entry_bytes (wm_entries m))"

definition manifest_content_hash :: "workspace_manifest \<Rightarrow> string result" where
  "manifest_content_hash m = and_then (validate_manifest m) (\<lambda>_. sha256_hex (manifest_bytes m))"


section \<open>The history of revisions\<close>

datatype sync_state = Sync_idle | Sync_synchronizing | Sync_synced | Sync_failed

record revision_record =
  rr_revision :: u64
  rr_manifest_hash :: string
  rr_entry_count :: nat

record revision_history =
  rh_workspace_id :: string
  rh_capacity :: nat
  rh_state :: sync_state
  rh_pending_revision :: "u64 option"
  rh_records :: "revision_record list"
  rh_failure_reason :: string

definition new_history :: "string \<Rightarrow> nat \<Rightarrow> revision_history result" where
  "new_history workspace_id capacity =
     (if workspace_id = [] \<or> capacity = 0 then throw (Invalid_argument ''invalid workspace revision history'')
      else ok \<lparr>rh_workspace_id = workspace_id, rh_capacity = capacity, rh_state = Sync_idle, rh_pending_revision = None,
        rh_records = [], rh_failure_reason = []\<rparr>)"

definition history_revision :: "revision_history \<Rightarrow> u64" where
  "history_revision h = (if rh_records h = [] then 0 else rr_revision (last (rh_records h)))"

definition history_begin :: "u64 \<Rightarrow> revision_history \<Rightarrow> revision_history result" where
  "history_begin revision h =
     (if rh_state h = Sync_synchronizing \<or> revision \<noteq> history_revision h + 1
      then throw (Logic_error ''workspace revision cannot begin'')
      else ok (h\<lparr>rh_pending_revision := Some revision, rh_state := Sync_synchronizing, rh_failure_reason := []\<rparr>))"

text \<open>\<open>reject_case_collisions\<close> of \<open>core/src/workspace_manifest.cpp\<close>: the loop with the map of folded paths.\<close>

definition to_lower :: "char \<Rightarrow> char" where
  "to_lower c = (if 65 \<le> (of_char c :: nat) \<and> (of_char c :: nat) \<le> 90 then char_of ((of_char c :: nat) + 32) else c)"

definition ascii_lower :: "string \<Rightarrow> string" where
  "ascii_lower value = map to_lower value"

fun case_collision :: "(string \<rightharpoonup> string) \<Rightarrow> workspace_entry list \<Rightarrow> bool" where
  "case_collision folded [] = False"
| "case_collision folded (e # es) = (case folded (ascii_lower (we_path e)) of
     Some path \<Rightarrow> if path \<noteq> we_path e then True else case_collision folded es
   | None \<Rightarrow> case_collision (folded(ascii_lower (we_path e) \<mapsto> we_path e)) es)"

definition reject_case_collisions :: "workspace_manifest \<Rightarrow> unit result" where
  "reject_case_collisions m = throw_if (case_collision Map.empty (wm_entries m))
     (Invalid_argument ''workspace contains a case-colliding path'')"

definition history_commit :: "workspace_manifest \<Rightarrow> revision_history \<Rightarrow> revision_history result" where
  "history_commit m h = and_then (validate_manifest m) (\<lambda>_. and_then (reject_case_collisions m) (\<lambda>_.
     if rh_state h \<noteq> Sync_synchronizing \<or> rh_pending_revision h = None \<or> wm_workspace_id m \<noteq> rh_workspace_id h \<or>
         Some (wm_revision m) \<noteq> rh_pending_revision h
     then throw (Logic_error ''workspace revision commit rejected'')
     else and_then (manifest_content_hash m) (\<lambda>hash.
       let records = rh_records h @ [\<lparr>rr_revision = wm_revision m, rr_manifest_hash = hash,
         rr_entry_count = length (wm_entries m)\<rparr>]
       in ok (h\<lparr>rh_records := (if length records > rh_capacity h then tl records else records),
         rh_pending_revision := None, rh_state := Sync_synced\<rparr>))))"

definition history_fail :: "string \<Rightarrow> revision_history \<Rightarrow> revision_history result" where
  "history_fail reason h =
     (if rh_state h \<noteq> Sync_synchronizing \<or> reason = [] then throw (Logic_error ''workspace revision failure rejected'')
      else ok (h\<lparr>rh_pending_revision := None, rh_failure_reason := reason, rh_state := Sync_failed\<rparr>))"

section \<open>The ledger of chunks\<close>

definition max_chunk_size :: nat where
  "max_chunk_size = 4 * 1024 * 1024"

type_synonym chunk_ledger = "bool list"

definition new_ledger :: "nat \<Rightarrow> chunk_ledger result" where
  "new_ledger chunk_count = (if chunk_count = 0 then throw (Invalid_argument ''transfer must have at least one chunk'')
     else ok (replicate chunk_count False))"

definition ledger_confirm :: "nat \<Rightarrow> nat \<Rightarrow> string \<Rightarrow> chunk_ledger \<Rightarrow> chunk_ledger result" where
  "ledger_confirm chunk_index byte_count verified_chunk_hash l =
     (if chunk_index \<ge> length l \<or> byte_count = 0 \<or> byte_count > max_chunk_size \<or> verified_chunk_hash = []
      then throw (Invalid_argument ''invalid verified chunk'') else ok (l[chunk_index := True]))"

definition ledger_complete :: "chunk_ledger \<Rightarrow> bool" where
  "ledger_complete l = list_all id l"

definition ledger_missing :: "chunk_ledger \<Rightarrow> nat list" where
  "ledger_missing l = filter (\<lambda>i. \<not> l ! i) [0..<length l]"

section \<open>Valid manifests\<close>

definition entry_ok :: "workspace_entry \<Rightarrow> bool" where
  "entry_ok e \<longleftrightarrow> is_canonical_workspace_path (we_path e) \<and>
     (we_kind e = Entry_file \<longrightarrow> is_sha256_hex (we_content_hash e)) \<and>
     (if we_kind e = Entry_symlink then is_canonical_workspace_path (we_symlink_target e) else we_symlink_target e = [])"

definition manifest_ok :: "workspace_manifest \<Rightarrow> bool" where
  "manifest_ok m \<longleftrightarrow> wm_workspace_id m \<noteq> [] \<and> wm_revision m \<noteq> 0 \<and> list_all entry_ok (wm_entries m) \<and>
     sorted_wrt (<) (map we_path (wm_entries m))"

lemma canonical_not_empty: "is_canonical_workspace_path p \<Longrightarrow> p \<noteq> []"
  by (auto simp: is_canonical_workspace_path_def)

lemma entries_valid_from:
  assumes "\<forall>p\<in>set paths. p \<le> previous" "previous = [] \<Longrightarrow> paths = []"
  shows "entries_valid paths previous es \<longleftrightarrow> list_all entry_ok es \<and> sorted_wrt (<) (map we_path es) \<and>
    (previous \<noteq> [] \<longrightarrow> (\<forall>e\<in>set es. previous < we_path e))"
  using assms
proof (induction es arbitrary: paths previous)
  case (Cons e es)
  show ?case
  proof (cases "entry_ok e \<and> (previous \<noteq> [] \<longrightarrow> previous < we_path e)")
    case True
    then have e: "we_path e \<noteq> []" "we_path e \<notin> set paths"
      using canonical_not_empty Cons.prems by (auto simp: entry_ok_def)
    then have "entries_valid paths previous (e # es) = entries_valid (we_path e # paths) (we_path e) es"
      using True by (auto simp: entry_ok_def)
    also have "\<dots> = (list_all entry_ok es \<and> sorted_wrt (<) (map we_path es) \<and> (\<forall>e'\<in>set es. we_path e < we_path e'))"
      using Cons.IH [of "we_path e # paths" "we_path e"] e True Cons.prems by fastforce
    finally show ?thesis
      using True by (auto simp del: entries_valid.simps intro: less_trans)
  next
    case False
    then show ?thesis
      by (auto simp: entry_ok_def not_less)
  qed
qed simp

lemma validate_manifest_iff: "validate_manifest m = Inr u \<longleftrightarrow> manifest_ok m"
  using entries_valid_from [of "[]" "[]" "wm_entries m"] by (auto simp: validate_manifest_def manifest_ok_def result_simps)

definition index_of :: "workspace_entry list \<Rightarrow> (string, workspace_entry) omap" where
  "index_of es = map (\<lambda>e. (we_path e, e)) es"

lemma omap_wf_index: "sorted_wrt (<) (map we_path es) \<Longrightarrow> omap_wf (index_of es)"
  by (simp add: omap_wf_def index_of_def comp_def)

lemma index_entries_sorted:
  "sorted_wrt (<) (map we_path es) \<Longrightarrow> \<forall>x\<in>set m. \<forall>e\<in>set es. fst x < we_path e \<Longrightarrow>
     index_entries m es = Inr (m @ index_of es)"
proof (induction es arbitrary: m)
  case (Cons e es)
  then have m: "omap_assign (we_path e) e m = m @ [(we_path e, e)]" "map_of m (we_path e) = None"
    using omap_assign_last [of m "we_path e" e] by (auto simp: map_of_eq_None_iff)
  have "index_entries (m @ [(we_path e, e)]) es = Inr ((m @ [(we_path e, e)]) @ index_of es)"
    using Cons.prems by (intro Cons.IH) auto
  then show ?case
    using m by (simp add: index_of_def)
qed (simp add: index_of_def)

lemma emplace_entries_sorted:
  "sorted_wrt (<) (map we_path es) \<Longrightarrow> \<forall>x\<in>set m. \<forall>e\<in>set es. fst x < we_path e \<Longrightarrow>
     foldl emplace_entry m es = m @ index_of es"
proof (induction es arbitrary: m)
  case (Cons e es)
  then have "emplace_entry m e = m @ [(we_path e, e)]"
    using omap_assign_last [of m "we_path e" e] by (auto simp: map_of_eq_None_iff emplace_entry_def)
  moreover have "foldl emplace_entry (m @ [(we_path e, e)]) es = (m @ [(we_path e, e)]) @ index_of es"
    using Cons.prems by (intro Cons.IH) auto
  ultimately show ?case
    by (simp add: index_of_def)
qed (simp add: index_of_def)

lemma indexed_ok: "manifest_ok m \<Longrightarrow> indexed m = Inr (index_of (wm_entries m))"
  using index_entries_sorted [of "wm_entries m" "[]"] by (simp add: indexed_def manifest_ok_def)

section \<open>Applying a difference\<close>

lemma apply_changes_append:
  "apply_changes source (cs @ ds) m = and_then (apply_changes source cs m) (apply_changes source ds)"
  by (induction cs arbitrary: m) (auto simp: and_then_def split: sum.splits)

text \<open>What the destination has become when the source paths of \<open>done_paths\<close> are in place and the paths of \<open>used\<close> are
  renamed away.\<close>

definition partly :: "(string, workspace_entry) omap \<Rightarrow> (string, workspace_entry) omap \<Rightarrow> string set \<Rightarrow> string set \<Rightarrow>
    (string \<rightharpoonup> workspace_entry)" where
  "partly source destination done_paths used p =
     (if p \<in> done_paths then map_of source p else if p \<in> used then None else map_of destination p)"

lemma apply_assign:
  assumes "map_of source p = Some e" "omap_wf m"
  shows "wc_kind c \<in> {Change_create, Change_update, Change_metadata} \<Longrightarrow> wc_path c = p \<Longrightarrow>
    \<exists>m'. apply_change source c m = Inr m' \<and> omap_wf m' \<and> map_of m' = (map_of m)(p \<mapsto> e)"
  using assms by (auto simp: apply_change_def require_source_entry_def)

lemma find_rename_Some:
  assumes "find_rename source destination used e = Some (q, old)" "omap_wf destination"
  shows "map_of source q = None" "q \<notin> used" "map_of destination q \<noteq> None"
  using assms omap_wf_map_of [OF assms(2), of q old]
  by (auto simp: find_rename_def find_Some_iff dest!: nth_mem)

text \<open>One step of the loop over the source entries, and its effect.\<close>

lemma source_change_step:
  assumes wf: "omap_wf source" "omap_wf destination" "omap_wf m"
    and e: "map_of source path = Some e"
    and m: "map_of m = partly source destination done_paths used"
    and used: "\<forall>q\<in>used. map_of source q = None"
    and placed: "\<forall>p\<in>done_paths. map_of source p \<noteq> None"
  obtains cs m' used' where
    "\<And>es. source_changes source destination ((path, e) # es) used =
      (case source_changes source destination es used' of (ds, all) \<Rightarrow> (cs @ ds, all))"
    "apply_changes source cs m = Inr m'" "omap_wf m'" "map_of m' = partly source destination (insert path done_paths) used'"
    "used \<subseteq> used'" "\<forall>q\<in>used'. map_of source q = None"
proof (cases "map_of destination path")
  case None
  show thesis
  proof (cases "find_rename source destination used e")
    case (Some found)
    obtain q old where q: "find_rename source destination used e = Some (q, old)"
      using Some by (cases found) auto
    note found = find_rename_Some [OF q wf(2)]
    let ?c = "\<lparr>wc_kind = Change_rename, wc_path = path, wc_previous_path = q\<rparr>"
    have "map_of m q \<noteq> None"
      using found m used placed by (auto simp: partly_def)
    then have "apply_changes source [?c] m = Inr (omap_assign path e (omap_erase q m))"
      using e by (simp add: apply_change_def require_source_entry_def)
    moreover have "map_of (omap_assign path e (omap_erase q m)) = partly source destination (insert path done_paths) (insert q used)"
      using m e found by (auto simp: partly_def fun_eq_iff)
    ultimately show thesis
      using None q wf found used by (intro that [where cs = "[?c]" and used' = "insert q used" and m' = "omap_assign path e (omap_erase q m)"]) (auto split: prod.split)
  next
    case none: None
    let ?c = "\<lparr>wc_kind = Change_create, wc_path = path, wc_previous_path = []\<rparr>"
    have "apply_changes source [?c] m = Inr (omap_assign path e m)"
      using e by (simp add: apply_change_def require_source_entry_def)
    moreover have "map_of (omap_assign path e m) = partly source destination (insert path done_paths) used"
      using m e by (auto simp: partly_def fun_eq_iff)
    ultimately show thesis
      using None none wf used by (intro that [where cs = "[?c]" and used' = used and m' = "omap_assign path e m"]) (auto split: prod.split)
  qed
next
  case (Some old)
  show thesis
  proof (cases "e = old")
    case True
    have "map_of m = partly source destination (insert path done_paths) used"
      using m e Some True used by (auto simp: partly_def fun_eq_iff)
    then show thesis
      using Some True wf used by (intro that [where cs = "[]" and used' = used and m' = m]) (auto split: prod.split)
  next
    case False
    let ?c = "\<lparr>wc_kind = (if we_content_hash e = we_content_hash old \<and> we_size e = we_size old
        then Change_metadata else Change_update), wc_path = path, wc_previous_path = []\<rparr>"
    have "apply_changes source [?c] m = Inr (omap_assign path e m)"
      using e by (simp add: apply_change_def require_source_entry_def)
    moreover have "map_of (omap_assign path e m) = partly source destination (insert path done_paths) used"
      using m e by (auto simp: partly_def fun_eq_iff)
    ultimately show thesis
      using Some False wf used by (intro that [where cs = "[?c]" and used' = used and m' = "omap_assign path e m"]) (auto split: prod.split)
  qed
qed

lemma source_changes_apply:
  assumes "omap_wf source" "omap_wf destination"
  shows "set es \<subseteq> set source \<Longrightarrow> omap_wf m \<Longrightarrow> map_of m = partly source destination done_paths used \<Longrightarrow>
    \<forall>q\<in>used. map_of source q = None \<Longrightarrow> \<forall>p\<in>done_paths. map_of source p \<noteq> None \<Longrightarrow> source_changes source destination es used = (cs, all) \<Longrightarrow>
    \<exists>m'. apply_changes source cs m = Inr m' \<and> omap_wf m' \<and>
      map_of m' = partly source destination (done_paths \<union> fst ` set es) all \<and> (\<forall>q\<in>all. map_of source q = None)"
proof (induction es arbitrary: m done_paths used cs all)
  case (Cons x es)
  obtain path e where x: "x = (path, e)"
    by (cases x)
  have e: "map_of source path = Some e"
    using Cons.prems(1) x omap_wf_map_of [OF assms(1)] by simp
  obtain cs1 m1 used1 where step: "source_changes source destination ((path, e) # es) used =
      (case source_changes source destination es used1 of (ds, all) \<Rightarrow> (cs1 @ ds, all))"
      "apply_changes source cs1 m = Inr m1" "omap_wf m1" "map_of m1 = partly source destination (insert path done_paths) used1"
      "\<forall>q\<in>used1. map_of source q = None"
    by (rule source_change_step [OF assms Cons.prems(2) e Cons.prems(3,4,5)]) blast
  obtain ds where ds: "source_changes source destination es used1 = (ds, all)" "cs = cs1 @ ds"
    using step(1) Cons.prems(6) x by (auto split: prod.splits)
  show ?case
    using Cons.IH [OF _ step(3,4,5) _ ds(1)] Cons.prems(1,5) e step(2) ds(2) x by (simp add: apply_changes_append)
qed auto

lemma removals_apply:
  "distinct (map fst rest) \<Longrightarrow> omap_wf m \<Longrightarrow> (\<forall>x\<in>set rest. map_of m (fst x) \<noteq> None) \<Longrightarrow>
   \<exists>m'. apply_changes source (map (\<lambda>(path, _). \<lparr>wc_kind = Change_remove, wc_path = path, wc_previous_path = []\<rparr>) rest) m = Inr m' \<and>
     omap_wf m' \<and> map_of m' = (\<lambda>p. if p \<in> fst ` set rest then None else map_of m p)"
proof (induction rest arbitrary: m)
  case (Cons x rest)
  obtain p e where x: "x = (p, e)"
    by (cases x)
  have "\<exists>m'. apply_changes source (map (\<lambda>(path, _). \<lparr>wc_kind = Change_remove, wc_path = path, wc_previous_path = []\<rparr>) rest)
      (omap_erase p m) = Inr m' \<and> omap_wf m' \<and>
      map_of m' = (\<lambda>p'. if p' \<in> fst ` set rest then None else map_of (omap_erase p m) p')"
    using Cons.prems x by (intro Cons.IH) auto
  then show ?case
    using Cons.prems x by (auto simp: apply_change_def fun_eq_iff)
qed auto

text \<open>Applying the difference of two maps turns the destination into the source.\<close>

lemma changes_apply:
  assumes "omap_wf source" "omap_wf destination" "source_changes source destination source {} = (cs, used)"
  shows "apply_changes source (cs @ removals source used destination) destination = Inr source"
proof -
  have "map_of destination = partly source destination {} {}"
    by (simp add: partly_def fun_eq_iff)
  from source_changes_apply [OF assms(1,2) order_refl assms(2) this _ _ assms(3)] obtain m where
    m: "apply_changes source cs destination = Inr m" "omap_wf m"
      "map_of m = partly source destination (fst ` set source) used" "\<forall>q\<in>used. map_of source q = None"
    by auto
  let ?rest = "filter (\<lambda>(path, _). map_of source path = None \<and> path \<notin> used) destination"
  have keys: "p \<in> fst ` set source \<longleftrightarrow> map_of source p \<noteq> None" for p
    by (simp add: map_of_eq_None_iff)
  have rest: "\<forall>x\<in>set ?rest. map_of m (fst x) \<noteq> None"
    using m(3) omap_wf_map_of [OF assms(2)] keys by (auto simp: partly_def)
  have "distinct (map fst ?rest)"
    using omap_wf_distinct [OF assms(2)] by (rule distinct_map_filter)
  with rest obtain m' where m': "apply_changes source (removals source used destination) m = Inr m'" "omap_wf m'"
      "map_of m' = (\<lambda>p. if p \<in> fst ` set ?rest then None else map_of m p)"
    using removals_apply [of ?rest m source] m(2) unfolding removals_def by blast
  have "map_of m' p = map_of source p" for p
  proof (cases "p \<in> fst ` set source")
    case True
    then have "p \<notin> fst ` set ?rest"
      using keys by auto
    then show ?thesis
      using m'(3) m(3) True by (simp add: partly_def)
  next
    case False
    have "p \<in> fst ` set ?rest" if "map_of destination p = Some e" "p \<notin> used" for e
    proof -
      have "(p, e) \<in> set ?rest"
        using that False keys [of p] omap_wf_map_of [OF assms(2), of p e] by simp
      then show ?thesis
        by (rule image_eqI [rotated]) simp
    qed
    then have "map_of m p = None \<or> p \<in> fst ` set ?rest"
      unfolding m(3) using False by (cases "map_of destination p") (simp_all add: partly_def)
    then have "map_of m' p = None"
      unfolding m'(3) by argo
    then show ?thesis
      using False keys [of p] by simp
  qed
  then have "m' = source"
    using m'(2) assms(1) by (intro omap_eqI) auto
  then show ?thesis
    using m(1) m'(1) by (simp add: apply_changes_append)
qed

lemma index_snd [simp]: "map snd (index_of es) = es"
  by (simp add: index_of_def comp_def)

lemma diff_manifests_eq:
  assumes "manifest_ok s" "manifest_ok d" "wm_workspace_id s = wm_workspace_id d" "wm_revision d < wm_revision s"
  shows "diff_manifests s d = (case source_changes (index_of (wm_entries s)) (index_of (wm_entries d)) (index_of (wm_entries s)) {} of
    (cs, used) \<Rightarrow> Inr (cs @ removals (index_of (wm_entries s)) used (index_of (wm_entries d))))"
proof -
  have "validate_manifest s = Inr ()" "validate_manifest d = Inr ()"
    using assms validate_manifest_iff by auto
  then show ?thesis
    using assms by (simp add: diff_manifests_def indexed_ok flip: not_less)
qed

lemma diff_manifests_succeeds:
  "diff_manifests s d = Inr cs \<Longrightarrow>
    manifest_ok s \<and> manifest_ok d \<and> wm_workspace_id s = wm_workspace_id d \<and> wm_revision d < wm_revision s"
  using validate_manifest_iff [of s "()"] validate_manifest_iff [of d "()"]
  by (auto simp: diff_manifests_def result_simps not_le split: if_splits)

text \<open>C18. The difference of two manifests, applied to the destination, gives the source: there is a difference exactly
  for valid manifests of one workspace with a newer source; the changes it lists are accepted and lead to the entries
  of the source; and no other list of changes is accepted.\<close>

theorem manifest_diff_applies:
  "(succeeds (diff_manifests s d) \<longleftrightarrow>
      manifest_ok s \<and> manifest_ok d \<and> wm_workspace_id s = wm_workspace_id d \<and> wm_revision d < wm_revision s) \<and>
   (apply_manifest_diff s d changes = Inr m \<longleftrightarrow> diff_manifests s d = Inr changes \<and> m = s)"
proof -
  have applied: "apply_manifest_diff s d changes = Inr s" if diff: "diff_manifests s d = Inr changes"
  proof -
    let ?s = "index_of (wm_entries s)" and ?d = "index_of (wm_entries d)"
    note ok = diff_manifests_succeeds [OF diff]
    obtain cs used where cs: "source_changes ?s ?d ?s {} = (cs, used)"
      by fastforce
    then have changes: "changes = cs @ removals ?s used ?d"
      using diff diff_manifests_eq [of s d] ok by auto
    have sorted: "sorted_wrt (<) (map we_path (wm_entries s))" "sorted_wrt (<) (map we_path (wm_entries d))"
      using ok by (auto simp: manifest_ok_def)
    have "apply_changes ?s changes ?d = Inr ?s"
      unfolding changes by (rule changes_apply [OF omap_wf_index [OF sorted(1)] omap_wf_index [OF sorted(2)] cs])
    moreover have "foldl emplace_entry [] (wm_entries d) = ?d"
      using emplace_entries_sorted [OF sorted(2), of "[]"] by simp
    moreover have valid: "validate_manifest s = Inr ()"
      using ok validate_manifest_iff by blast
    moreover have same: "\<lparr>wm_workspace_id = wm_workspace_id d, wm_revision = wm_revision s, wm_entries = wm_entries s\<rparr> = s"
      using ok by (cases s) auto
    ultimately show ?thesis
      using ok diff by (simp add: apply_manifest_diff_def indexed_ok Let_def) (simp only: same valid and_then_Inr)
  qed
  moreover have "diff_manifests s d = Inr changes \<and> m = s" if "apply_manifest_diff s d changes = Inr m"
  proof -
    have diff: "diff_manifests s d = Inr changes"
      using that by (auto simp: apply_manifest_diff_def result_simps split: if_splits)
    then show ?thesis
      using applied that by simp
  qed
  moreover have "succeeds (diff_manifests s d)" if "manifest_ok s" "manifest_ok d"
      "wm_workspace_id s = wm_workspace_id d" "wm_revision d < wm_revision s"
    using diff_manifests_eq [OF that] by (simp split: prod.split)
  ultimately show ?thesis
    using diff_manifests_succeeds by (auto simp: succeeds_iff)
qed

section \<open>The canonical form is unambiguous\<close>

lemma append_u64_le_rev: "append_u64_le v = List.rev (append_u64 v)"
  by (simp add: append_u64_le_def append_u64_def and_ff)

lemma append_u64_le_split: "append_u64_le a @ x = append_u64_le b @ y \<longleftrightarrow> a = b \<and> x = y"
proof -
  have "length (append_u64_le a) = length (append_u64_le b)"
    by (simp add: append_u64_le_def)
  moreover have "append_u64_le a = append_u64_le b \<longleftrightarrow> a = b"
    using append_u64_split [of a "[]" b "[]"] by (simp add: append_u64_le_rev)
  ultimately show ?thesis
    by (auto simp: append_eq_append_conv)
qed

lemma append_string_le_split:
  assumes "short s" "short t"
  shows "append_string_le s @ x = append_string_le t @ y \<longleftrightarrow> s = t \<and> x = y"
proof
  assume "append_string_le s @ x = append_string_le t @ y"
  then have "(of_nat (length s) :: u64) = of_nat (length t)" and rest: "as_bytes s @ x = as_bytes t @ y"
    by (simp_all add: append_string_le_def append_u64_le_split)
  then have "length s = length t"
    using assms of_nat_length_eq [of "length s" "length t"] by (simp add: short_def)
  then show "s = t \<and> x = y"
    using rest by (simp add: append_eq_append_conv)
qed simp

definition entry_short :: "workspace_entry \<Rightarrow> bool" where
  "entry_short e \<longleftrightarrow> short (we_path e) \<and> short (we_content_hash e) \<and> short (we_symlink_target e)"

definition manifest_short :: "workspace_manifest \<Rightarrow> bool" where
  "manifest_short m \<longleftrightarrow> short (wm_workspace_id m) \<and> short (wm_entries m) \<and> list_all entry_short (wm_entries m)"

lemma kind_value_inject: "kind_value k = kind_value k' \<longleftrightarrow> k = k'"
  by (cases k; cases k') simp_all

lemma entry_bytes_split:
  assumes "entry_short d" "entry_short e"
  shows "entry_bytes d @ x = entry_bytes e @ y \<longleftrightarrow> d = e \<and> x = y"
  using assms by (cases d; cases e) (auto simp: entry_short_def entry_bytes_def append_string_le_split append_u64_le_split
      kind_value_inject ucast_u64_inject)

lemma entries_bytes_inject:
  assumes "length ds = length es" "list_all entry_short ds" "list_all entry_short es"
  shows "concat (map entry_bytes ds) = concat (map entry_bytes es) \<longleftrightarrow> ds = es"
  using assms by (induction ds es rule: list_induct2) (simp_all add: entry_bytes_split)


lemma manifest_bytes_inject:
  assumes "manifest_short m" "manifest_short n"
  shows "manifest_bytes m = manifest_bytes n \<longleftrightarrow> m = n"
proof
  assume eq: "manifest_bytes m = manifest_bytes n"
  have len: "length (wm_entries m) < 2 ^ 64" "length (wm_entries n) < 2 ^ 64"
    using assms by (simp_all add: manifest_short_def short_def)
  have parts: "wm_workspace_id m = wm_workspace_id n" "wm_revision m = wm_revision n"
      "(of_nat (length (wm_entries m)) :: u64) = of_nat (length (wm_entries n))"
      "concat (map entry_bytes (wm_entries m)) = concat (map entry_bytes (wm_entries n))"
    using eq assms by (simp_all add: manifest_bytes_def manifest_short_def append_string_le_split append_u64_le_split)
  then have "length (wm_entries m) = length (wm_entries n)"
    using of_nat_length_eq [OF len] by simp
  then have "wm_entries m = wm_entries n"
    using parts(4) assms entries_bytes_inject by (auto simp: manifest_short_def)
  then show "m = n"
    using parts by simp
qed simp

text \<open>The hash of a manifest names the manifest: it exists for every valid manifest and is the SHA-256 of a canonical
  form that determines the workspace, the revision and every field of every entry.\<close>

theorem manifest_hash_names_manifest:
  assumes "manifest_short m" "manifest_short n"
  shows "(manifest_bytes m = manifest_bytes n \<longleftrightarrow> m = n) \<and>
    (manifest_content_hash m = Inr h \<longleftrightarrow> manifest_ok m \<and> sha256_hex (manifest_bytes m) = Inr h)"
proof -
  have "validate_manifest m = Inr () \<longleftrightarrow> manifest_ok m"
    by (rule validate_manifest_iff)
  then show ?thesis
    using manifest_bytes_inject [OF assms] by (auto simp: manifest_content_hash_def result_simps)
qed

definition sample_entry :: "string \<Rightarrow> workspace_entry" where
  "sample_entry p = \<lparr>we_path = p, we_kind = Entry_directory, we_size = 0, we_content_hash = [], we_mode = 0x1ed,
     we_symlink_target = []\<rparr>"

definition sample_manifest :: "u64 \<Rightarrow> string list \<Rightarrow> workspace_manifest" where
  "sample_manifest revision paths = \<lparr>wm_workspace_id = ''w1'', wm_revision = revision, wm_entries = map sample_entry paths\<rparr>"

theorem manifest_hash_names_manifest_witness:
  "(manifest_bytes (sample_manifest 2 [''a'', ''b'']) = manifest_bytes (sample_manifest 1 [''a'']) \<longleftrightarrow>
      sample_manifest 2 [''a'', ''b''] = sample_manifest 1 [''a'']) \<and>
    (manifest_content_hash (sample_manifest 2 [''a'', ''b'']) = Inr [] \<longleftrightarrow>
      manifest_ok (sample_manifest 2 [''a'', ''b'']) \<and> sha256_hex (manifest_bytes (sample_manifest 2 [''a'', ''b''])) = Inr [])"
  by (rule manifest_hash_names_manifest)
    (simp_all add: manifest_short_def short_def sample_manifest_def sample_entry_def entry_short_def)

section \<open>Canonical paths stay in their scope\<close>

lemma path_components_ne: "p \<noteq> [] \<Longrightarrow> path_components p \<noteq> []"
  by (subst path_components.simps) simp

lemma canonical_components:
  assumes "is_canonical_workspace_path p"
  shows "canonical (path_components p) \<and> path_components p \<noteq> []"
proof -
  have "list_all component_ok (path_components p)"
    using assms by (simp add: is_canonical_workspace_path_def split: if_splits)
  moreover have "\<not> component_ok ''.''" "\<not> component_ok ''..''"
    by (simp_all add: component_ok_def)
  ultimately show ?thesis
    using path_components_ne [OF canonical_not_empty [OF assms]] by (auto simp: canonical_def list_all_iff)
qed

text \<open>A path that the workspace accepts cannot leave an authorized root: resolving it in any scope succeeds and
  gives the root followed by the components of the path, so it lies below the root. Whatever resolving gives for any
  other path lies below the root as well.\<close>

theorem canonical_path_stays_in_scope:
  assumes "canonical root"
  shows "(is_canonical_workspace_path p \<longrightarrow>
      scope_resolve root (relative (path_components p)) = Inr (root @ path_components p) \<and>
      scope_contains_resolved root (root @ path_components p)) \<and>
    (scope_resolve root rel = Inr q \<longrightarrow> has_prefix q root \<and> canonical q)"
  using canonical_components [of p] scope_resolve_plain [OF assms, of "path_components p"] scope_resolve_within [of root rel q]
    assms
  by (auto simp: scope_contains_resolved_def weakly_canonical_plain canonical_def has_prefix_iff)

theorem canonical_path_stays_in_scope_witness:
  "scope_resolve [''srv''] (relative (path_components ''a/b'')) = Inr [''srv'', ''a'', ''b'']"
proof -
  have parts: "path_components ''a/b'' = [''a'', ''b'']"
    by (simp add: path_components.simps [of "''a/b''"] path_components.simps [of "''b''"] path_components.simps [of "[]"])
  have "is_canonical_workspace_path ''a/b''"
    by (simp add: is_canonical_workspace_path_def parts component_ok_def reserved_device_def numbered_device_def to_upper_def
        Let_def)
  then show ?thesis
    using canonical_path_stays_in_scope [of "[''srv'']" "''a/b''"] parts by (simp add: canonical_def)
qed

section \<open>The history is consecutive\<close>

datatype history_call = History_begin u64 | History_commit workspace_manifest | History_fail string

definition history_step :: "revision_history \<Rightarrow> history_call \<Rightarrow> revision_history" where
  "history_step h c = (case (case c of
       History_begin r \<Rightarrow> history_begin r h | History_commit m \<Rightarrow> history_commit m h | History_fail reason \<Rightarrow> history_fail reason h)
     of Inl _ \<Rightarrow> h | Inr h' \<Rightarrow> h')"

definition record_of :: "workspace_manifest \<Rightarrow> revision_record \<Rightarrow> bool" where
  "record_of m r \<longleftrightarrow> manifest_ok m \<and> reject_case_collisions m = Inr () \<and> rr_revision r = wm_revision m \<and>
     manifest_content_hash m = Inr (rr_manifest_hash r) \<and> rr_entry_count r = length (wm_entries m)"

text \<open>The manifests that were committed in a run: those of the calls of \<open>commit\<close> that returned, in their order.\<close>

fun committed_in :: "revision_history \<Rightarrow> history_call list \<Rightarrow> workspace_manifest list" where
  "committed_in h [] = []"
| "committed_in h (c # cs) = (case c of
     History_commit m \<Rightarrow> (case history_commit m h of Inr _ \<Rightarrow> [m] | Inl _ \<Rightarrow> [])
   | _ \<Rightarrow> []) @ committed_in (history_step h c) cs"

lemma committed_in_snoc: "committed_in h (cs @ [c]) = committed_in h cs @ committed_in (foldl history_step h cs) [c]"
  by (induction cs arbitrary: h) simp_all

text \<open>\<open>ms\<close> are the manifests committed so far.\<close>

definition history_ok :: "string \<Rightarrow> nat \<Rightarrow> workspace_manifest list \<Rightarrow> revision_history \<Rightarrow> bool" where
  "history_ok w n ms h \<longleftrightarrow> rh_workspace_id h = w \<and> rh_capacity h = n \<and> 0 < n \<and>
     successively (\<lambda>a b. rr_revision b = rr_revision a + 1) (rh_records h) \<and>
     (rh_state h = Sync_synchronizing \<longleftrightarrow> rh_pending_revision h \<noteq> None) \<and>
     (\<forall>r. rh_pending_revision h = Some r \<longrightarrow> r = history_revision h + 1) \<and>
     list_all (\<lambda>m. wm_workspace_id m = w) ms \<and> list_all2 record_of (drop (length ms - n) ms) (rh_records h)"

lemma history_begin_ok: "history_ok w n ms h \<Longrightarrow> history_begin r h = Inr h' \<Longrightarrow> history_ok w n ms h'"
  by (auto simp: history_ok_def history_begin_def history_revision_def split: if_splits)

lemma history_fail_ok: "history_ok w n ms h \<Longrightarrow> history_fail reason h = Inr h' \<Longrightarrow> history_ok w n ms h'"
  by (auto simp: history_ok_def history_fail_def history_revision_def split: if_splits)

lemma successively_tl: "successively P xs \<Longrightarrow> successively P (tl xs)"
  by (cases xs) (auto simp: successively_Cons)

definition committed :: "workspace_manifest \<Rightarrow> string \<Rightarrow> revision_record" where
  "committed m hash = \<lparr>rr_revision = wm_revision m, rr_manifest_hash = hash, rr_entry_count = length (wm_entries m)\<rparr>"

lemma history_commit_eq:
  "history_commit m h = Inr h' \<longleftrightarrow> manifest_ok m \<and> reject_case_collisions m = Inr () \<and> rh_state h = Sync_synchronizing \<and>
     wm_workspace_id m = rh_workspace_id h \<and> rh_pending_revision h = Some (wm_revision m) \<and>
     (\<exists>hash. manifest_content_hash m = Inr hash \<and>
       h' = h\<lparr>rh_records := (if length (rh_records h @ [committed m hash]) > rh_capacity h
           then tl (rh_records h @ [committed m hash]) else rh_records h @ [committed m hash]),
         rh_pending_revision := None, rh_state := Sync_synced\<rparr>)"
  unfolding history_commit_def Let_def committed_def [symmetric]
  by (simp add: result_simps validate_manifest_iff) metis

lemma kept_records:
  assumes "successively P (xs @ [x])" "list_all2 R (drop (length ms - n) ms) xs" "R m x" "0 < n"
  defines "ys \<equiv> (if length (xs @ [x]) > n then tl (xs @ [x]) else xs @ [x])"
  shows "successively P ys" "ys \<noteq> []" "last ys = x" "list_all2 R (drop (length (ms @ [m]) - n) (ms @ [m])) ys"
proof -
  have len: "length xs = min n (length ms)"
    using list_all2_lengthD [OF assms(2)] by simp
  show "successively P ys"
    using assms(1) successively_tl [OF assms(1)] by (auto simp: ys_def)
  show "ys \<noteq> []" "last ys = x"
    using len assms(4) by (cases xs; auto simp: ys_def)+
  show "list_all2 R (drop (length (ms @ [m]) - n) (ms @ [m])) ys"
  proof (cases "n \<le> length ms")
    case True
    then have "xs \<noteq> []" "length xs = n"
      using len assms(4) by auto
    then have "ys = tl xs @ [x]"
      by (cases xs) (simp_all add: ys_def)
    moreover have "drop (length (ms @ [m]) - n) (ms @ [m]) = tl (drop (length ms - n) ms) @ [m]"
      using True assms(4) by (simp add: Suc_diff_le tl_drop drop_Suc [symmetric] drop_tl [symmetric])
    moreover have "list_all2 R (tl (drop (length ms - n) ms)) (tl xs)"
      using assms(2) by (cases "drop (length ms - n) ms"; cases xs) auto
    ultimately show ?thesis
      using assms(3) by (simp add: list_all2_appendI)
  next
    case False
    then show ?thesis
      using len assms(2,3) by (simp add: ys_def list_all2_appendI)
  qed
qed

lemma history_commit_ok:
  assumes "history_ok w n ms h" "history_commit m h = Inr h'"
  shows "history_ok w n (ms @ [m]) h'"
proof -
  obtain hash where commit: "manifest_ok m" "reject_case_collisions m = Inr ()" "rh_pending_revision h = Some (wm_revision m)"
      "wm_workspace_id m = rh_workspace_id h" "manifest_content_hash m = Inr hash"
    and h': "h' = h\<lparr>rh_records := (if length (rh_records h @ [committed m hash]) > rh_capacity h
           then tl (rh_records h @ [committed m hash]) else rh_records h @ [committed m hash]),
         rh_pending_revision := None, rh_state := Sync_synced\<rparr>"
    using assms(2) unfolding history_commit_eq by blast
  have ok: "rh_workspace_id h = w" "rh_capacity h = n" "0 < n"
      "successively (\<lambda>a b. rr_revision b = rr_revision a + 1) (rh_records h)" "wm_revision m = history_revision h + 1"
      "list_all (\<lambda>m. wm_workspace_id m = w) ms" "list_all2 record_of (drop (length ms - n) ms) (rh_records h)"
    using assms(1) commit(3) by (simp_all add: history_ok_def)
  have "successively (\<lambda>a b. rr_revision b = rr_revision a + 1) (rh_records h @ [committed m hash])"
    using ok(4,5) by (auto simp: successively_append_iff history_revision_def committed_def)
  moreover have "record_of m (committed m hash)"
    using commit by (simp add: record_of_def committed_def)
  ultimately have kept: "successively (\<lambda>a b. rr_revision b = rr_revision a + 1) (rh_records h')"
    "list_all2 record_of (drop (length (ms @ [m]) - n) (ms @ [m])) (rh_records h')"
    using kept_records [OF _ ok(7) _ ok(3), of "\<lambda>a b. rr_revision b = rr_revision a + 1" "committed m hash" m] ok(2)
    by (simp_all add: h')
  have "rh_workspace_id h' = w" "rh_capacity h' = n" "rh_pending_revision h' = None" "rh_state h' = Sync_synced"
    "list_all (\<lambda>m. wm_workspace_id m = w) (ms @ [m])"
    using ok(1,2,6) commit(4) by (simp_all add: h')
  then show ?thesis
    using kept ok(3) unfolding history_ok_def by simp
qed

lemma history_step_ok: "history_ok w n ms h \<Longrightarrow> history_ok w n (ms @ committed_in h [c]) (history_step h c)"
  by (cases c) (auto simp: history_step_def split: sum.split intro: history_begin_ok history_commit_ok history_fail_ok)

definition empty_history :: "string \<Rightarrow> nat \<Rightarrow> revision_history" where
  "empty_history w n = \<lparr>rh_workspace_id = w, rh_capacity = n + 1, rh_state = Sync_idle, rh_pending_revision = None,
     rh_records = [], rh_failure_reason = []\<rparr>"

text \<open>The history together with what has been committed.\<close>

interpretation revisions: invariant_machine "\<lambda>(ms, h) c. (ms @ committed_in h [c], history_step h c)" "([], empty_history w n)"
    "\<lambda>(ms, h). history_ok w (n + 1) ms h" for w n
proof unfold_locales
  show "case ([], empty_history w n) of (ms, h) \<Rightarrow> history_ok w (n + 1) ms h"
    by (simp add: empty_history_def history_ok_def)
qed (auto simp del: committed_in.simps intro: history_step_ok)

lemma commits_of_run:
  "foldl (\<lambda>(ms, h) c. (ms @ committed_in h [c], history_step h c)) (ms, h) cs = (ms @ committed_in h cs, foldl history_step h cs)"
  by (induction cs rule: rev_induct) (simp_all add: committed_in_snoc del: committed_in.simps(2))

text \<open>C34. The history of a workspace has no gaps and holds what was committed: after any calls its records are those of
  the last \<open>capacity\<close> manifests whose commit returned in that run, in their order, each with the revision, the hash and the
  number of entries of that manifest, which was valid and of the workspace and had no colliding names. Each record is one
  revision after the one before, and only the next revision may be pending.\<close>

theorem history_has_no_gaps:
  assumes "new_history w n = Inr h0"
  shows "let h = foldl history_step h0 calls; ms = committed_in h0 calls in
    list_all2 record_of (drop (length ms - n) ms) (rh_records h) \<and> list_all (\<lambda>m. wm_workspace_id m = w) ms \<and>
    successively (\<lambda>a b. rr_revision b = rr_revision a + 1) (rh_records h) \<and>
    (\<forall>r. rh_pending_revision h = Some r \<longrightarrow> r = history_revision h + 1)"
proof -
  have "h0 = empty_history w (n - 1)" "n - 1 + 1 = n"
    using assms by (auto simp: new_history_def empty_history_def split: if_splits)
  then show ?thesis
    using revisions.run_inv [of w "n - 1" calls] unfolding commits_of_run by (simp add: history_ok_def Let_def)
qed

lemma sample_manifest_ok:
  "manifest_ok (sample_manifest 1 [''a''])" "reject_case_collisions (sample_manifest 1 [''a'']) = Inr ()"
  "\<exists>hash. manifest_content_hash (sample_manifest 1 [''a'']) = Inr hash"
proof -
  have "path_components ''a'' = [''a'']"
    by (simp add: path_components.simps [of "''a''"] path_components.simps [of "[]"])
  then have "is_canonical_workspace_path ''a''"
    by (simp add: is_canonical_workspace_path_def component_ok_def reserved_device_def numbered_device_def to_upper_def Let_def)
  then show ok: "manifest_ok (sample_manifest 1 [''a''])"
    by (simp add: manifest_ok_def sample_manifest_def sample_entry_def entry_ok_def)
  show "reject_case_collisions (sample_manifest 1 [''a'']) = Inr ()"
    by (simp add: reject_case_collisions_def sample_manifest_def throw_if_def)
  have "length (manifest_bytes (sample_manifest 1 [''a''])) < 2 ^ 64"
    by (simp add: manifest_bytes_def sample_manifest_def sample_entry_def entry_bytes_def append_string_le_def append_u64_le_def)
  then show "\<exists>hash. manifest_content_hash (sample_manifest 1 [''a'']) = Inr hash"
    using ok sha256_file_names_content by (auto simp: manifest_content_hash_def result_simps validate_manifest_iff)
qed

theorem history_has_no_gaps_witness:
  "\<exists>h0 r. new_history ''w1'' 2 = Inr h0 \<and>
    rh_records (foldl history_step h0 [History_begin 1, History_commit (sample_manifest 1 [''a''])]) = [r] \<and>
    record_of (sample_manifest 1 [''a'']) r"
proof -
  let ?m = "sample_manifest 1 [''a'']"
  obtain h0 where h0: "new_history ''w1'' 2 = Inr h0"
    by (simp add: new_history_def)
  obtain h1 where h1: "history_begin 1 h0 = Inr h1" "rh_state h1 = Sync_synchronizing" "rh_workspace_id h1 = ''w1''"
    "rh_pending_revision h1 = Some 1"
    using h0 by (auto simp: new_history_def history_begin_def history_revision_def)
  have "wm_workspace_id ?m = ''w1''" "wm_revision ?m = 1"
    by (simp_all add: sample_manifest_def)
  then have "\<exists>h2. history_commit ?m h1 = Inr h2"
    using h1 sample_manifest_ok unfolding history_commit_eq by auto
  then have commits: "committed_in h0 [History_begin 1, History_commit ?m] = [?m]"
    using h1(1) by (auto simp: history_step_def)
  have "list_all2 record_of [?m] (rh_records (foldl history_step h0 [History_begin 1, History_commit ?m]))"
    using history_has_no_gaps [OF h0, of "[History_begin 1, History_commit ?m]"] by (simp only: Let_def commits) simp
  then show ?thesis
    using h0 by (auto simp: list_all2_Cons1)
qed

end
