(* ===== verification/Ignore_Rules.thy ===== *)
theory Ignore_Rules
  imports Workspace_Sync
begin

text \<open>
  \<open>core/src/ignore_rules.cpp\<close>: the rules of an ignore file and the glob matcher with its one point of backtracking.
  The indices of the matcher are the suffixes that begin there. The reference \<open>glob\<close> says which paths a pattern
  matches; the matcher never matches more, and where it may match less is shown by an example.
\<close>

section \<open>The matcher\<close>

definition is_space :: "char \<Rightarrow> bool" where
  "is_space c \<longleftrightarrow> c = CHR '' '' \<or> (9 \<le> (of_char c :: nat) \<and> (of_char c :: nat) \<le> 13)"

definition trim_line :: "string \<Rightarrow> string" where
  "trim_line value = List.rev (dropWhile is_space (List.rev (dropWhile is_space value)))"

text \<open>The last star: the pattern after it, the value at it, and whether it is \<open>**\<close>.\<close>

record star =
  st_pattern :: string
  st_value :: string
  st_recursive :: bool

definition star_size :: "string \<Rightarrow> star option \<Rightarrow> nat" where
  "star_size p s = (case s of None \<Rightarrow> length p | Some st \<Rightarrow> max (length p) (length (st_pattern st)))"

function glob_loop :: "string \<Rightarrow> string \<Rightarrow> star option \<Rightarrow> bool" where
  "glob_loop p [] s = list_all (\<lambda>c. c = CHR ''*'') p"
| "glob_loop p (v # vs) s =
     (if p \<noteq> [] \<and> hd p = CHR ''?'' \<and> v \<noteq> CHR ''/'' then glob_loop (tl p) vs s
      else if p \<noteq> [] \<and> hd p = CHR ''*''
      then let recursive = (tl p \<noteq> [] \<and> hd (tl p) = CHR ''*''); rest = (if recursive then tl (tl p) else tl p)
        in glob_loop rest (v # vs) (Some \<lparr>st_pattern = rest, st_value = v # vs, st_recursive = recursive\<rparr>)
      else if p \<noteq> [] \<and> hd p = v then glob_loop (tl p) vs s
      else (case s of
          None \<Rightarrow> False
        | Some st \<Rightarrow> (case st_value st of
              [] \<Rightarrow> False
            | w # ws \<Rightarrow> if st_recursive st \<or> w \<noteq> CHR ''/''
                then glob_loop (st_pattern st) ws (Some (st\<lparr>st_value := ws\<rparr>)) else False)))"
  by pat_completeness auto
termination
proof (relation "measures [\<lambda>(p, v, s). star_size p s, \<lambda>(p, v, s). (case s of None \<Rightarrow> 0 | Some st \<Rightarrow> length (st_value st)),
    \<lambda>(p, v, s). length v, \<lambda>(p, v, s). length p]", goal_cases)
  case (2 p v vs s)
  then show ?case
    by (cases p; cases s) (auto simp: star_size_def max_def)
next
  case (3 p v vs s recursive rest)
  then have "length rest < length p"
    by (cases p; cases "tl p") auto
  then show ?case
    by (cases s) (auto simp: star_size_def max_def)
next
  case (4 p v vs s)
  then show ?case
    by (cases p; cases s) (auto simp: star_size_def max_def)
next
  case (5 p v vs s st w ws)
  then show ?case
    by (auto simp: star_size_def max_def)
qed simp

definition glob_match :: "string \<Rightarrow> string \<Rightarrow> bool" where
  "glob_match pattern value = glob_loop pattern value None"

text \<open>The suffixes of the path after each separator are tried in turn.\<close>

function matches_unanchored :: "string \<Rightarrow> string \<Rightarrow> bool" where
  "matches_unanchored pattern p = (if glob_match pattern p then True
     else if CHR ''/'' \<in> set p then matches_unanchored pattern (tl (dropWhile (\<lambda>c. c \<noteq> CHR ''/'') p)) else False)"
  by pat_completeness auto
termination
proof (relation "measure (\<lambda>(pattern, p). length p)", goal_cases)
  case (2 pattern p)
  then have "p \<noteq> []"
    by auto
  then show ?case
    using length_dropWhile_le [of "\<lambda>c. c \<noteq> CHR ''/''" p] by (cases p) auto
qed simp

declare matches_unanchored.simps [simp del]

section \<open>Rules\<close>

record ignore_rule =
  ig_pattern :: string
  ig_directory_only :: bool
  ig_anchored :: bool

type_synonym ignore_rules = "ignore_rule list"

fun contains_dots :: "string \<Rightarrow> bool" where
  "contains_dots (a # b # cs) = ((a = CHR ''.'' \<and> b = CHR ''.'') \<or> contains_dots (b # cs))"
| "contains_dots _ = False"

text \<open>One line: \<open>None\<close> when there is no rule on it.\<close>

definition parse_rule :: "string \<Rightarrow> ignore_rule option result" where
  "parse_rule raw =
     (let line = trim_line raw
      in if line = [] \<or> hd line = CHR ''#'' then ok None
         else if hd line = CHR ''!'' \<or> CHR 0x5C \<in> set line \<or> contains_dots line
         then throw (Invalid_argument ''unsupported or unsafe ignore rule'')
         else
           let anchored = (hd line = CHR ''/'');
               unrooted = (if anchored then tl line else line);
               directory_only = (unrooted \<noteq> [] \<and> last unrooted = CHR ''/'');
               pattern = (if directory_only then butlast unrooted else unrooted)
           in if pattern = [] then throw (Invalid_argument ''empty ignore rule'')
              else ok (Some \<lparr>ig_pattern = pattern, ig_directory_only = directory_only, ig_anchored = anchored\<rparr>))"

text \<open>The lines of the text: what lies between newlines, the last one ends at the end of the text.\<close>

function rule_lines :: "string \<Rightarrow> string list" where
  "rule_lines contents = takeWhile (\<lambda>c. c \<noteq> CHR 0x0A) contents #
     (if CHR 0x0A \<in> set contents then rule_lines (tl (dropWhile (\<lambda>c. c \<noteq> CHR 0x0A) contents)) else [])"
  by pat_completeness auto
termination
proof (relation "measure length", goal_cases)
  case (2 contents)
  then have "contents \<noteq> []"
    by auto
  then show ?case
    using length_dropWhile_le [of "\<lambda>c. c \<noteq> CHR 0x0A" contents] by (cases contents) auto
qed simp

declare rule_lines.simps [simp del]

fun parse_rules :: "string list \<Rightarrow> ignore_rules result" where
  "parse_rules [] = ok []"
| "parse_rules (line # ls) = and_then (parse_rule line) (\<lambda>r. and_then (parse_rules ls) (\<lambda>rs.
     ok (case r of None \<Rightarrow> rs | Some rule \<Rightarrow> rule # rs)))"

definition parse_ignore_rules :: "string \<Rightarrow> ignore_rules result" where
  "parse_ignore_rules contents = parse_rules (rule_lines contents)"

text \<open>The file is its content, absent, or there and unreadable.\<close>

definition load_optional_rules :: "bool \<Rightarrow> string option \<Rightarrow> ignore_rules result" where
  "load_optional_rules there contents = (case contents of
     None \<Rightarrow> if \<not> there then ok [] else throw (Runtime_error ''ignore file could not be opened'')
   | Some text \<Rightarrow> parse_ignore_rules text)"

definition merge_rules :: "ignore_rules \<Rightarrow> ignore_rules \<Rightarrow> ignore_rules" where
  "merge_rules rules additional = rules @ additional"

definition below_pattern :: "ignore_rule \<Rightarrow> string \<Rightarrow> bool" where
  "below_pattern rule p =
     (let pre = ig_pattern rule @ ''/''
      in if ig_anchored rule then take (length pre) p = pre else matches_unanchored (pre @ ''**'') p)"

definition rule_ignores :: "ignore_rule \<Rightarrow> string \<Rightarrow> bool \<Rightarrow> bool" where
  "rule_ignores rule p directory =
     (if ig_directory_only rule \<and> \<not> directory then below_pattern rule p
      else
        let matched = (if ig_anchored rule then glob_match (ig_pattern rule) p else matches_unanchored (ig_pattern rule) p)
        in matched \<or> (ig_directory_only rule \<and> directory \<and> below_pattern rule p))"

definition ignores :: "ignore_rules \<Rightarrow> string \<Rightarrow> bool \<Rightarrow> bool result" where
  "ignores rules canonical_path directory =
     (if \<not> is_canonical_workspace_path canonical_path
      then throw (Invalid_argument ''ignore query path is not canonical'')
      else ok (list_ex (\<lambda>rule. rule_ignores rule canonical_path directory) rules))"

section \<open>The reference matcher\<close>

function glob :: "string \<Rightarrow> string \<Rightarrow> bool" where
  "glob [] v = (v = [])"
| "glob (p # ps) v =
     (if p = CHR ''*''
      then if ps \<noteq> [] \<and> hd ps = CHR ''*'' then list_ex (\<lambda>n. glob (tl ps) (drop n v)) [0..<length v + 1]
        else list_ex (\<lambda>n. CHR ''/'' \<notin> set (take n v) \<and> glob ps (drop n v)) [0..<length v + 1]
      else v \<noteq> [] \<and> (p = hd v \<or> (p = CHR ''?'' \<and> hd v \<noteq> CHR ''/'')) \<and> glob ps (tl v))"
  by pat_completeness auto
termination
  by (relation "measure (\<lambda>(p, v). length p)") auto

definition lit :: "char \<Rightarrow> char \<Rightarrow> bool" where
  "lit a b \<longleftrightarrow> a \<noteq> CHR ''*'' \<and> (a = b \<or> (a = CHR ''?'' \<and> b \<noteq> CHR ''/''))"

lemma glob_lit: "a \<noteq> CHR ''*'' \<Longrightarrow> glob (a # ps) v \<longleftrightarrow> (\<exists>b bs. v = b # bs \<and> lit a b \<and> glob ps bs)"
  by (cases v) (auto simp: lit_def)

lemma some_split: "list_ex P [0..<Suc (length v)] \<longleftrightarrow> (\<exists>n\<le>length v. P n)"
  by (auto simp: list_ex_iff less_Suc_eq_le Bex_def simp del: upt_Suc)

lemma glob_single: "ps = [] \<or> hd ps \<noteq> CHR ''*'' \<Longrightarrow>
    glob (CHR ''*'' # ps) v \<longleftrightarrow> (\<exists>n\<le>length v. CHR ''/'' \<notin> set (take n v) \<and> glob ps (drop n v))"
  by (auto simp: some_split simp del: upt_Suc)

lemma glob_double: "glob (CHR ''*'' # CHR ''*'' # ps) v \<longleftrightarrow> (\<exists>n\<le>length v. glob ps (drop n v))"
  by (auto simp: some_split simp del: upt_Suc)

declare glob.simps(2) [simp del]

lemma glob_Nil: "glob p [] \<longleftrightarrow> list_all (\<lambda>c. c = CHR ''*'') p"
proof (induction p "[] :: string" rule: glob.induct)
  case (2 a ps)
  show ?case
  proof (cases "a = CHR ''*''")
    case star: True
    show ?thesis
    proof (cases "ps \<noteq> [] \<and> hd ps = CHR ''*''")
      case True
      then show ?thesis
        using 2(1) [OF star True, of 0] star by (cases ps) (auto simp: glob_double)
    next
      case False
      then show ?thesis
        using 2(2) [OF star False, of 0] star by (auto simp: glob_single)
    qed
  qed (simp add: glob_lit)
qed simp

text \<open>What the last star may still match: one or more characters.\<close>

definition extends :: "star \<Rightarrow> bool" where
  "extends st \<longleftrightarrow> (\<exists>n>0. n \<le> length (st_value st) \<and> (st_recursive st \<or> CHR ''/'' \<notin> set (take n (st_value st))) \<and>
     glob (st_pattern st) (drop n (st_value st)))"

lemma extends_step:
  assumes "st_value st = w # ws"
  shows "extends st \<longleftrightarrow> (st_recursive st \<or> w \<noteq> CHR ''/'') \<and> (glob (st_pattern st) ws \<or> extends (st\<lparr>st_value := ws\<rparr>))"
proof
  assume "extends st"
  then obtain n where n: "n > 0" "n \<le> length (w # ws)" "st_recursive st \<or> CHR ''/'' \<notin> set (take n (w # ws))"
      "glob (st_pattern st) (drop n (w # ws))"
    using assms by (auto simp: extends_def)
  then obtain m where m: "n = Suc m"
    by (cases n) auto
  show "(st_recursive st \<or> w \<noteq> CHR ''/'') \<and> (glob (st_pattern st) ws \<or> extends (st\<lparr>st_value := ws\<rparr>))"
    using n m by (cases m) (auto simp: extends_def)
next
  assume r: "(st_recursive st \<or> w \<noteq> CHR ''/'') \<and> (glob (st_pattern st) ws \<or> extends (st\<lparr>st_value := ws\<rparr>))"
  then consider "glob (st_pattern st) ws" | n where "n > 0" "n \<le> length ws" "st_recursive st \<or> CHR ''/'' \<notin> set (take n ws)"
      "glob (st_pattern st) (drop n ws)"
    by (auto simp: extends_def)
  then show "extends st"
  proof cases
    case 1
    then show ?thesis
      using r assms unfolding extends_def by (intro exI [of _ 1]) auto
  next
    case (2 n)
    then show ?thesis
      using r assms unfolding extends_def by (intro exI [of _ "Suc n"]) auto
  qed
qed

lemma glob_star:
  assumes "p = CHR ''*'' # ps" "rec \<longleftrightarrow> ps \<noteq> [] \<and> hd ps = CHR ''*''" "rest = (if rec then tl ps else ps)"
  shows "glob p v \<longleftrightarrow> glob rest v \<or> extends \<lparr>st_pattern = rest, st_value = v, st_recursive = rec\<rparr>"
proof -
  have "glob p v \<longleftrightarrow> (\<exists>n\<le>length v. (rec \<or> CHR ''/'' \<notin> set (take n v)) \<and> glob rest (drop n v))"
  proof (cases rec)
    case True
    then have "ps = CHR ''*'' # tl ps"
      using assms(2) by (cases ps) auto
    then show ?thesis
      using True assms(1,3) glob_double [of "tl ps" v] by simp
  next
    case False
    then show ?thesis
      using assms glob_single [of ps v] by auto
  qed
  also have "\<dots> \<longleftrightarrow> glob rest v \<or> extends \<lparr>st_pattern = rest, st_value = v, st_recursive = rec\<rparr>"
    unfolding extends_def by simp (metis bot_nat_0.not_eq_extremum drop0 le0 take0 empty_iff list.set(1))
  finally show ?thesis .
qed

text \<open>The matcher accepts nothing that the reference does not match.\<close>

lemma glob_loop_sound: "glob_loop p v s \<Longrightarrow> glob p v \<or> (\<exists>st. s = Some st \<and> extends st)"
proof (induction p v s rule: glob_loop.induct)
  case (1 p s)
  then show ?case
    by (simp add: glob_Nil)
next
  case (2 p v vs s)
  show ?case
  proof (cases "p \<noteq> [] \<and> hd p = CHR ''?'' \<and> v \<noteq> CHR ''/''")
    case True
    then have "glob (tl p) vs \<or> (\<exists>st. s = Some st \<and> extends st)"
      using "2.prems" "2.IH"(1) by simp
    then show ?thesis
      using True by (cases p) (auto simp: glob_lit lit_def)
  next
    case c1: False
    show ?thesis
    proof (cases "p \<noteq> [] \<and> hd p = CHR ''*''")
      case True
      then have ps: "p = CHR ''*'' # tl p"
        by (cases p) auto
      define rec where "rec \<longleftrightarrow> tl p \<noteq> [] \<and> hd (tl p) = CHR ''*''"
      define rest where "rest = (if rec then tl (tl p) else tl p)"
      have "glob_loop rest (v # vs) (Some \<lparr>st_pattern = rest, st_value = v # vs, st_recursive = rec\<rparr>)"
        using "2.prems" True by (simp add: rec_def rest_def Let_def)
      from "2.IH"(2) [OF c1 True rec_def rest_def this] show ?thesis
        using glob_star [OF ps rec_def rest_def] by simp
    next
      case c2: False
      show ?thesis
      proof (cases "p \<noteq> [] \<and> hd p = v")
        case True
        then have "glob (tl p) vs \<or> (\<exists>st. s = Some st \<and> extends st)"
          using "2.prems" "2.IH"(3) c1 c2 by simp
        then show ?thesis
          using True c2 by (cases p) (auto simp: glob_lit lit_def)
      next
        case c3: False
        obtain st w ws where st: "s = Some st" "st_value st = w # ws" "st_recursive st \<or> w \<noteq> CHR ''/''"
            "glob_loop (st_pattern st) ws (Some (st\<lparr>st_value := ws\<rparr>))"
          using "2.prems" c1 c2 c3 by (auto split: option.splits list.splits if_splits)
        then have "glob (st_pattern st) ws \<or> extends (st\<lparr>st_value := ws\<rparr>)"
          using "2.IH"(4) [OF c1 c2 c3 st(1,2,3)] by auto
        then show ?thesis
          using st extends_step [OF st(2)] by auto
      qed
    qed
  qed
qed


section \<open>When the matcher is complete\<close>

text \<open>Every star of the pattern is a \<open>**\<close>; and no single star comes after a \<open>**\<close>.\<close>

fun only_double :: "string \<Rightarrow> bool" where
  "only_double [] = True"
| "only_double (c # cs) = (if c = CHR ''*'' then cs \<noteq> [] \<and> hd cs = CHR ''*'' \<and> only_double (tl cs) else only_double cs)"

fun starred :: "string \<Rightarrow> bool" where
  "starred [] = True"
| "starred (c # cs) = (if c = CHR ''*'' then (if cs \<noteq> [] \<and> hd cs = CHR ''*'' then only_double (tl cs) else starred cs)
     else starred cs)"

lemma lits_append:
  "list_all2 lit q u \<Longrightarrow> only_double (q @ p) = only_double p \<and> starred (q @ p) = starred p"
  by (induction q u rule: list_all2_induct) (auto simp: lit_def)

lemma glob_lits:
  "list_all2 lit q u \<Longrightarrow> glob (q @ p) w \<longleftrightarrow>
    length q \<le> length w \<and> list_all2 lit q (take (length q) w) \<and> glob p (drop (length q) w)"
proof (induction q u arbitrary: w rule: list_all2_induct)
  case (Cons a q b u)
  then show ?case
    by (cases w) (auto simp: glob_lit lit_def)
qed simp

text \<open>The state of the matcher: between the last star and the current position, literals of the pattern have
  matched the value.\<close>

definition glob_state :: "string \<Rightarrow> string \<Rightarrow> star option \<Rightarrow> bool" where
  "glob_state p v s \<longleftrightarrow> (case s of None \<Rightarrow> starred p
     | Some st \<Rightarrow> (\<exists>q u. st_pattern st = q @ p \<and> st_value st = u @ v \<and> list_all2 lit q u) \<and>
         (if st_recursive st then only_double p else starred p))"

lemma glob_state_lit:
  assumes "glob_state (a # p) (b # v) s" "lit a b"
  shows "glob_state p v s"
proof (cases s)
  case None
  then show ?thesis
    using assms by (simp add: glob_state_def lit_def)
next
  case (Some st)
  then obtain q u where "st_pattern st = q @ a # p" "st_value st = u @ b # v" "list_all2 lit q u"
    using assms(1) by (auto simp: glob_state_def)
  then have "st_pattern st = (q @ [a]) @ p" "st_value st = (u @ [b]) @ v" "list_all2 lit (q @ [a]) (u @ [b])"
    using assms(2) by (simp_all add: list_all2_appendI)
  moreover have "if st_recursive st then only_double p else starred p"
    using assms Some by (auto simp: glob_state_def lit_def split: if_splits)
  ultimately show ?thesis
    unfolding glob_state_def using Some by (simp only: option.case) blast
qed

text \<open>When literals match the value both at the star and later, the value up to the later match has no separator.\<close>

lemma no_separator:
  assumes "list_all2 lit q u" "list_all2 lit q (take (length q) (drop n (u @ v)))" "CHR ''/'' \<notin> set (take n (u @ v))"
    "n \<le> length v" "0 < n"
  shows "i < length u + n \<Longrightarrow> (u @ v) ! i \<noteq> CHR ''/''"
proof (induction i rule: less_induct)
  case (less i)
  have len: "length q = length u"
    using assms(1) by (rule list_all2_lengthD)
  show ?case
  proof (cases "i < n")
    case True
    then have "(u @ v) ! i \<in> set (take n (u @ v))"
      using assms(4) by (metis in_set_conv_nth length_append length_take min_absorb2 nth_take trans_le_add2)
    then show ?thesis
      using assms(3) by metis
  next
    case False
    let ?j = "i - n"
    have j: "?j < length q"
      using False less.prems len by simp
    have "take (length q) (drop n (u @ v)) ! ?j = drop n (u @ v) ! ?j"
      by (rule nth_take [OF j])
    also have "\<dots> = (u @ v) ! (n + ?j)"
      using assms(4) by (intro nth_drop) simp
    finally have "take (length q) (drop n (u @ v)) ! ?j = (u @ v) ! i"
      using False by simp
    then have later: "lit (q ! ?j) ((u @ v) ! i)"
      using list_all2_nthD [OF assms(2) j] by metis
    have here: "lit (q ! ?j) (u ! ?j)"
      using list_all2_nthD [OF assms(1) j] .
    have "(u @ v) ! ?j \<noteq> CHR ''/''"
      using less.IH [of ?j] assms(5) False less.prems by simp
    then have "u ! ?j \<noteq> CHR ''/''"
      using j len by (simp add: nth_append)
    then show ?thesis
      using later here by (auto simp: lit_def)
  qed
qed

text \<open>What the last star may still match is matched as well from the next star on, so the last star may be forgotten.\<close>

lemma drop_star:
  assumes state: "glob_state p v (Some st)" and ext: "extends st" and p: "p = CHR ''*'' # ps"
  shows "glob p v"
proof -
  obtain q u where q: "st_pattern st = q @ p" "st_value st = u @ v" "list_all2 lit q u"
    using state by (auto simp: glob_state_def)
  have len: "length q = length u"
    using q(3) by (rule list_all2_lengthD)
  obtain n where n: "0 < n" "n \<le> length (u @ v)" "st_recursive st \<or> CHR ''/'' \<notin> set (take n (u @ v))"
      "glob (q @ p) (drop n (u @ v))"
    using ext q by (auto simp: extends_def)
  then have lits: "length q \<le> length (drop n (u @ v))" "list_all2 lit q (take (length q) (drop n (u @ v)))"
      "glob p (drop (length q) (drop n (u @ v)))"
    using glob_lits [OF q(3)] by blast+
  have nv: "n \<le> length v"
    using lits(1) len n(2) by simp
  have "drop (length q) (drop n (u @ v)) = drop n v"
    using len by (cases "n \<le> length u") simp_all
  then have p_n: "glob p (drop n v)"
    using lits(3) by simp
  show ?thesis
  proof (cases "ps \<noteq> [] \<and> hd ps = CHR ''*''")
    case True
    then obtain rest where rest: "ps = CHR ''*'' # rest"
      by (cases ps) auto
    obtain m where "m \<le> length (drop n v)" "glob rest (drop m (drop n v))"
      using p_n p rest by (auto simp: glob_double)
    then show ?thesis
      using nv p rest by (auto simp: glob_double intro!: exI [of _ "n + m"] simp: add.commute)
  next
    case False
    then have single: "ps = [] \<or> hd ps \<noteq> CHR ''*''"
      by blast
    then obtain m where m: "m \<le> length (drop n v)" "CHR ''/'' \<notin> set (take m (drop n v))" "glob ps (drop m (drop n v))"
      using p_n p by (auto simp: glob_single)
    have "\<not> st_recursive st"
      using state p False by (auto simp: glob_state_def)
    then have "\<And>i. i < length u + n \<Longrightarrow> (u @ v) ! i \<noteq> CHR ''/''"
      using no_separator [OF q(3) lits(2) _ nv n(1)] n(3) by blast
    from this [of "length u + _"] have "CHR ''/'' \<notin> set (take n v)"
      using nv by (auto simp: in_set_conv_nth)
    then have "CHR ''/'' \<notin> set (take (n + m) v)"
      using m(2) by (simp add: take_add)
    then show ?thesis
      unfolding p glob_single [OF single] using m(1,3) nv by (intro exI [of _ "n + m"]) (simp add: add.commute)
  qed
qed


lemma glob_loop_complete:
  "glob_state p v s \<Longrightarrow> glob p v \<or> (\<exists>st. s = Some st \<and> extends st) \<Longrightarrow> glob_loop p v s"
proof (induction p v s rule: glob_loop.induct)
  case (1 p s)
  have "glob p []" if st: "s = Some st" "extends st" for st
  proof -
    obtain q u n where q: "st_pattern st = q @ p" "st_value st = u" "list_all2 lit q u" "0 < n" "n \<le> length u"
        "glob (q @ p) (drop n u)"
      using 1 st by (auto simp: glob_state_def extends_def)
    then have "length q \<le> length (drop n u)"
      using glob_lits [OF q(3)] by blast
    then show ?thesis
      using q(4,5) list_all2_lengthD [OF q(3)] by simp
  qed
  then show ?case
    using 1 by (auto simp: glob_Nil)
next
  case (2 p v vs s)
  show ?case
  proof (cases "p \<noteq> [] \<and> hd p = CHR ''?'' \<and> v \<noteq> CHR ''/''")
    case True
    then obtain ps where p: "p = CHR ''?'' # ps" "lit CHR ''?'' v"
      by (cases p) (auto simp: lit_def)
    have "glob ps vs \<or> (\<exists>st. s = Some st \<and> extends st)"
      using "2.prems"(2) p by (auto simp: glob_lit)
    then show ?thesis
      using "2.IH"(1) [OF True] glob_state_lit [of "CHR ''?''" ps v vs s] "2.prems"(1) p True by simp
  next
    case c1: False
    show ?thesis
    proof (cases "p \<noteq> [] \<and> hd p = CHR ''*''")
      case True
      then have ps: "p = CHR ''*'' # tl p"
        by (cases p) auto
      define rec where "rec \<longleftrightarrow> tl p \<noteq> [] \<and> hd (tl p) = CHR ''*''"
      define rest where "rest = (if rec then tl (tl p) else tl p)"
      have "glob p (v # vs)"
        using "2.prems" drop_star [OF _ _ ps] by blast
      then have now: "glob rest (v # vs) \<or> extends \<lparr>st_pattern = rest, st_value = v # vs, st_recursive = rec\<rparr>"
        using glob_star [OF ps rec_def rest_def] by simp
      have "starred p \<or> only_double p"
        using "2.prems"(1) by (auto simp: glob_state_def split: option.splits if_splits)
      then have "if rec then only_double rest else starred rest"
        unfolding rest_def rec_def by (subst (asm) ps, subst (asm) ps) (auto split: if_splits)
      then have "glob_state rest (v # vs) (Some \<lparr>st_pattern = rest, st_value = v # vs, st_recursive = rec\<rparr>)"
        by (auto simp: glob_state_def)
      then have "glob_loop rest (v # vs) (Some \<lparr>st_pattern = rest, st_value = v # vs, st_recursive = rec\<rparr>)"
        using "2.IH"(2) [OF c1 True rec_def rest_def] now by simp
      then show ?thesis
        using c1 True by (simp add: rec_def rest_def Let_def)
    next
      case c2: False
      show ?thesis
      proof (cases "p \<noteq> [] \<and> hd p = v")
        case True
        then obtain ps where p: "p = v # ps" "lit v v"
          using c2 by (cases p) (auto simp: lit_def)
        have "glob ps vs \<or> (\<exists>st. s = Some st \<and> extends st)"
          using "2.prems"(2) p by (auto simp: glob_lit lit_def)
        then show ?thesis
          using "2.IH"(3) [OF c1 c2 True] glob_state_lit [of v ps v vs s] "2.prems"(1) p c1 c2 by simp
      next
        case c3: False
        have "\<not> glob p (v # vs)"
        proof (cases p)
          case (Cons a ps)
          then show ?thesis
            using c1 c2 c3 by (auto simp: glob_lit lit_def)
        qed simp
        then obtain st where st: "s = Some st" "extends st"
          using "2.prems"(2) by blast
        then have "st_value st \<noteq> []"
          by (auto simp: extends_def)
        then obtain w ws where w: "st_value st = w # ws"
          by (cases "st_value st") auto
        have ext: "st_recursive st \<or> w \<noteq> CHR ''/''" "glob (st_pattern st) ws \<or> extends (st\<lparr>st_value := ws\<rparr>)"
          using st(2) extends_step [OF w] by auto
        obtain q u where "st_pattern st = q @ p" "list_all2 lit q u"
            "if st_recursive st then only_double p else starred p"
          using "2.prems"(1) st(1) by (auto simp: glob_state_def)
        then have "if st_recursive st then only_double (st_pattern st) else starred (st_pattern st)"
          using lits_append by auto
        then have "glob_state (st_pattern st) ws (Some (st\<lparr>st_value := ws\<rparr>))"
          by (auto simp: glob_state_def)
        then have "glob_loop (st_pattern st) ws (Some (st\<lparr>st_value := ws\<rparr>))"
          using "2.IH"(4) [OF c1 c2 c3 st(1) w ext(1)] ext(2) by simp
        then have "if st_recursive st \<or> w \<noteq> CHR ''/'' then glob_loop (st_pattern st) ws (Some (st\<lparr>st_value := ws\<rparr>)) else False"
          using ext(1) by (rule if_P [THEN iffD2, rotated])
        then show ?thesis
          by (subst glob_loop.simps(2)) (subst if_not_P [OF c1], subst if_not_P [OF c2], subst if_not_P [OF c3],
            subst st(1), subst option.case, subst w, subst list.case, assumption)
      qed
    qed
  qed
qed

text \<open>C33. Whatever the pattern, the matcher with one point of backtracking accepts no path that the pattern does not
  mean: each path it accepts is given by some choice of what the stars stand for. The other direction is proved for the
  patterns in which no single star follows a \<open>**\<close>: of these it accepts exactly the paths they mean. For other patterns
  it does not hold, as \<open>rule_after_double_star_missed\<close> below shows.\<close>

theorem glob_match_exact:
  "(glob_match pattern p \<longrightarrow> glob pattern p) \<and> (starred pattern \<longrightarrow> glob_match pattern p = glob pattern p)"
  using glob_loop_sound [of pattern p None] glob_loop_complete [of pattern p None]
  by (auto simp: glob_match_def glob_state_def)

theorem glob_match_exact_witness:
  "starred ''src/*/a?**'' \<and> (glob_match ''src/*/a?**'' ''src/x/ab/c'' = glob ''src/*/a?**'' ''src/x/ab/c'')"
  using glob_match_exact [of "''src/*/a?**''" "''src/x/ab/c''"] by simp

text \<open>After a \<open>**\<close> the one point of backtracking is not enough: the anchored rule \<open>/src/**/x*y\<close> should ignore
  \<open>src/a/xq/xy\<close>, since \<open>**\<close> may stand for \<open>a/xq\<close>, but the matcher gives up at the separator and the path is not ignored.\<close>

theorem rule_after_double_star_missed:
  "parse_ignore_rules ''/src/**/x*y'' = Inr [\<lparr>ig_pattern = ''src/**/x*y'', ig_directory_only = False, ig_anchored = True\<rparr>] \<and>
   glob ''src/**/x*y'' ''src/a/xq/xy'' \<and>
   ignores [\<lparr>ig_pattern = ''src/**/x*y'', ig_directory_only = False, ig_anchored = True\<rparr>] ''src/a/xq/xy'' False = Inr False"
proof (intro conjI)
  show "glob ''src/**/x*y'' ''src/a/xq/xy''"
    by code_simp
  show "parse_ignore_rules ''/src/**/x*y'' =
      Inr [\<lparr>ig_pattern = ''src/**/x*y'', ig_directory_only = False, ig_anchored = True\<rparr>]"
    by code_simp
  show "ignores [\<lparr>ig_pattern = ''src/**/x*y'', ig_directory_only = False, ig_anchored = True\<rparr>] ''src/a/xq/xy'' False = Inr False"
    by code_simp
qed

text \<open>Merging rule sets ignores exactly what one of them ignores.\<close>

lemma merge_rules_ignores:
  "ignores (merge_rules a b) p directory =
    and_then (ignores a p directory) (\<lambda>x. and_then (ignores b p directory) (\<lambda>y. Inr (x \<or> y)))"
  by (simp add: ignores_def merge_rules_def)

end
