(* ===== verification/Workspace_Manifest.thy ===== *)
theory Workspace_Manifest
  imports Ignore_Rules
begin

text \<open>
  \<open>core/src/workspace_manifest.cpp\<close> and \<open>core/src/workspace_watcher.cpp\<close>: the manifest of a directory, the executable
  paths that git reports, and the debouncing of change notifications. A directory is a tree; the order in which
  its iterator gives the children is the order of their list, and every directory can be read.
\<close>

section \<open>The manifest of a directory\<close>

datatype fs_tree = Tree_file "byte list" | Tree_directory "(string \<times> fs_tree) list" | Tree_symlink string | Tree_other

record manifest_options =
  mo_workspace_id :: string
  mo_revision :: u64
  mo_ignore_rules :: ignore_rules
  mo_executable_paths :: "string set"

definition child_path :: "string \<Rightarrow> string \<Rightarrow> string" where
  "child_path parent name = (if parent = [] then name else parent @ ''/'' @ name)"

fun is_tree_directory :: "fs_tree \<Rightarrow> bool" where
  "is_tree_directory (Tree_directory _) = True" | "is_tree_directory _ = False"

text \<open>The entry of a node, for its canonical path.\<close>

definition tree_entry :: "manifest_options \<Rightarrow> string \<Rightarrow> fs_tree \<Rightarrow> workspace_entry result" where
  "tree_entry options p t =
     (let e = \<lparr>we_path = p, we_kind = Entry_file, we_size = 0, we_content_hash = [], we_mode = 0, we_symlink_target = []\<rparr>
      in case t of
        Tree_symlink target \<Rightarrow>
          if \<not> is_canonical_workspace_path target then throw (Invalid_argument ''workspace symlink target is unsafe'')
          else ok (e\<lparr>we_kind := Entry_symlink, we_mode := 0x1FF, we_symlink_target := target\<rparr>)
      | Tree_directory _ \<Rightarrow> ok (e\<lparr>we_kind := Entry_directory, we_mode := 0x1ED\<rparr>)
      | Tree_file content \<Rightarrow> and_then (sha256_file (Some content)) (\<lambda>h.
          ok (e\<lparr>we_size := of_nat (length content), we_content_hash := h,
            we_mode := if p \<in> mo_executable_paths options then 0x1ED else 0x1A4\<rparr>))
      | Tree_other \<Rightarrow> throw (Invalid_argument ''unsupported workspace filesystem entry''))"

text \<open>The iteration: an ignored directory is not descended into.\<close>

fun walk :: "manifest_options \<Rightarrow> string \<Rightarrow> (string \<times> fs_tree) list \<Rightarrow> workspace_entry list result" where
  "walk options parent [] = ok []"
| "walk options parent ((name, t) # rest) =
     (let p = child_path parent name
      in if \<not> is_canonical_workspace_path p then throw (Invalid_argument ''filesystem entry has a non-canonical path'')
         else and_then (ignores (mo_ignore_rules options) p (is_tree_directory t)) (\<lambda>ignored.
           if ignored then walk options parent rest
           else and_then (tree_entry options p t) (\<lambda>e.
             and_then (case t of Tree_directory children \<Rightarrow> walk options p children | _ \<Rightarrow> ok []) (\<lambda>below.
             and_then (walk options parent rest) (\<lambda>others. ok (e # below @ others))))))"

definition build_workspace_manifest :: "fs_tree option \<Rightarrow> manifest_options \<Rightarrow> workspace_manifest result" where
  "build_workspace_manifest root options =
     (if mo_workspace_id options = [] \<or> mo_revision options = 0
      then throw (Invalid_argument ''manifest build identity is invalid'')
      else case root of
        Some (Tree_directory children) \<Rightarrow> and_then (walk options [] children) (\<lambda>entries.
          let m = \<lparr>wm_workspace_id = mo_workspace_id options, wm_revision = mo_revision options,
            wm_entries = sort_key we_path entries\<rparr>
          in and_then (reject_case_collisions m) (\<lambda>_. and_then (validate_manifest m) (\<lambda>_. ok m)))
      | _ \<Rightarrow> throw (Invalid_argument ''workspace root is not a directory''))"

section \<open>Executable paths from git\<close>

function nul_records :: "string \<Rightarrow> string list" where
  "nul_records s = (if s = [] then [] else takeWhile (\<lambda>c. c \<noteq> CHR 0x00) s #
     (if CHR 0x00 \<in> set s then nul_records (tl (dropWhile (\<lambda>c. c \<noteq> CHR 0x00) s)) else []))"
  by pat_completeness auto
termination
proof (relation "measure length", goal_cases)
  case (2 s)
  then show ?case
    using length_dropWhile_le [of "\<lambda>c. c \<noteq> CHR 0x00" s] by (cases s) auto
qed simp

declare nul_records.simps [simp del]

definition git_record :: "string \<Rightarrow> string option result" where
  "git_record r =
     (if CHR 0x09 \<notin> set r \<or> length r < 7 then throw (Invalid_argument ''invalid git stage record'')
      else
        let mode = take 6 r; p = tl (dropWhile (\<lambda>c. c \<noteq> CHR 0x09) r)
        in if \<not> is_canonical_workspace_path p then throw (Invalid_argument ''git stage path is not canonical'')
           else if mode = ''100755'' then ok (Some p)
           else if mode \<noteq> ''100644'' \<and> mode \<noteq> ''120000'' \<and> mode \<noteq> ''160000''
           then throw (Invalid_argument ''unsupported git stage mode'')
           else ok None)"

fun git_records :: "string list \<Rightarrow> string set \<Rightarrow> string set result" where
  "git_records [] acc = ok acc"
| "git_records (r # rs) acc = and_then (git_record r) (\<lambda>p.
     git_records rs (case p of None \<Rightarrow> acc | Some p \<Rightarrow> insert p acc))"

definition parse_git_stage_executable_paths :: "string \<Rightarrow> string set result" where
  "parse_git_stage_executable_paths contents = git_records (nul_records contents) {}"

section \<open>Debouncing\<close>

text \<open>The quiet period is a number of milliseconds, points in time are microseconds.\<close>

datatype trigger_kind = Trigger_added | Trigger_removed | Trigger_modified | Trigger_renamed_from | Trigger_renamed_to
  | Trigger_overflow

record workspace_trigger =
  wt_kind :: trigger_kind
  wt_path :: string

record change_debouncer =
  cd_quiet_period :: int
  cd_pending :: "(string, workspace_trigger \<times> time_point) omap"

definition new_debouncer :: "int \<Rightarrow> change_debouncer result" where
  "new_debouncer quiet_period =
     (if quiet_period \<le> 0 then throw (Invalid_argument ''debounce quiet period must be positive'')
      else ok \<lparr>cd_quiet_period = quiet_period, cd_pending = []\<rparr>)"

definition trigger_key :: "workspace_trigger \<Rightarrow> string" where
  "trigger_key t = (if wt_kind t = Trigger_overflow then ''<overflow>'' else wt_path t)"

definition debouncer_notify :: "workspace_trigger \<Rightarrow> time_point \<Rightarrow> change_debouncer \<Rightarrow> change_debouncer result" where
  "debouncer_notify t now d =
     (if wt_kind t \<noteq> Trigger_overflow \<and> \<not> is_canonical_workspace_path (wt_path t)
      then throw (Invalid_argument ''workspace trigger path is not canonical'')
      else ok (d\<lparr>cd_pending := omap_assign (trigger_key t) (t, now) (cd_pending d)\<rparr>))"

fun take_ready_loop :: "int \<Rightarrow> time_point \<Rightarrow> (string, workspace_trigger \<times> time_point) omap \<Rightarrow>
    workspace_trigger list \<times> (string, workspace_trigger \<times> time_point) omap" where
  "take_ready_loop quiet now [] = ([], [])"
| "take_ready_loop quiet now ((k, t, seen) # rest) = (case take_ready_loop quiet now rest of (ready, kept) \<Rightarrow>
     if now \<ge> seen \<and> now - seen \<ge> quiet * 1000 then (t # ready, kept) else (ready, (k, t, seen) # kept))"

definition debouncer_take_ready :: "time_point \<Rightarrow> change_debouncer \<Rightarrow> workspace_trigger list \<times> change_debouncer" where
  "debouncer_take_ready now d = (case take_ready_loop (cd_quiet_period d) now (cd_pending d) of
     (ready, kept) \<Rightarrow> (ready, d\<lparr>cd_pending := kept\<rparr>))"


section \<open>What a manifest lists\<close>

text \<open>The nodes that are not ignored and not below an ignored directory, with their paths.\<close>

inductive listed :: "ignore_rules \<Rightarrow> string \<Rightarrow> (string \<times> fs_tree) list \<Rightarrow> string \<Rightarrow> fs_tree \<Rightarrow> bool" for rules where
  here: "(name, t) \<in> set ts \<Longrightarrow> ignores rules (child_path parent name) (is_tree_directory t) = Inr False \<Longrightarrow>
    listed rules parent ts (child_path parent name) t"
| below: "(name, Tree_directory children) \<in> set ts \<Longrightarrow> ignores rules (child_path parent name) True = Inr False \<Longrightarrow>
    listed rules (child_path parent name) children p t \<Longrightarrow> listed rules parent ts p t"

lemma listed_Nil [simp]: "\<not> listed rules parent [] p t"
  by (auto elim: listed.cases)

lemma listed_Cons:
  "listed rules parent ((name, t) # rest) p u \<longleftrightarrow>
     (ignores rules (child_path parent name) (is_tree_directory t) = Inr False \<and>
       ((p = child_path parent name \<and> u = t) \<or>
        (\<exists>children. t = Tree_directory children \<and> listed rules (child_path parent name) children p u))) \<or>
     listed rules parent rest p u" (is "?l \<longleftrightarrow> ?r")
proof
  show "?l \<Longrightarrow> ?r"
    by (cases rule: listed.cases) (fastforce intro: listed.intros)+
  show "?r \<Longrightarrow> ?l"
    by (auto intro: listed.intros elim!: listed.cases [of rules parent rest])
qed

lemma tree_entry_path: "tree_entry options p t = Inr e \<Longrightarrow> we_path e = p"
  by (auto simp: tree_entry_def Let_def result_simps split: fs_tree.splits if_splits)

definition entry_of :: "manifest_options \<Rightarrow> string \<Rightarrow> (string \<times> fs_tree) list \<Rightarrow> workspace_entry \<Rightarrow> bool" where
  "entry_of options parent ts e \<longleftrightarrow>
     (\<exists>t. listed (mo_ignore_rules options) parent ts (we_path e) t \<and> tree_entry options (we_path e) t = Inr e)"

lemma walk_listed: "walk options parent ts = Inr es \<Longrightarrow> e \<in> set es \<longleftrightarrow> entry_of options parent ts e"
proof (induction options parent ts arbitrary: es rule: walk.induct)
  case (1 options parent)
  then show ?case
    by (simp add: entry_of_def)
next
  case (2 options parent name t rest)
  let ?p = "child_path parent name"
  have canonical: "is_canonical_workspace_path ?p"
    using "2.prems" by (auto simp: Let_def split: if_splits)
  then obtain ignored where ig: "ignores (mo_ignore_rules options) ?p (is_tree_directory t) = Inr ignored"
    by (simp add: ignores_def)
  show ?case
  proof (cases ignored)
    case True
    then have "walk options parent rest = Inr es"
      using "2.prems" canonical ig by (simp add: Let_def)
    moreover have "entry_of options parent ((name, t) # rest) e \<longleftrightarrow> entry_of options parent rest e"
      using ig True by (simp add: entry_of_def listed_Cons)
    ultimately show ?thesis
      using "2.IH"(1) [OF refl _ True] canonical by simp
  next
    case False
    obtain e0 below others where parts: "tree_entry options ?p t = Inr e0"
        "(case t of Tree_directory children \<Rightarrow> walk options ?p children | _ \<Rightarrow> ok []) = Inr below"
        "walk options parent rest = Inr others" "es = e0 # below @ others"
      using "2.prems" canonical ig False by (auto simp: Let_def result_simps)
    have others: "e \<in> set others \<longleftrightarrow> entry_of options parent rest e"
      using "2.IH"(3) [OF refl _ False parts(3)] canonical by simp
    have below: "e \<in> set below \<longleftrightarrow> (\<exists>children. t = Tree_directory children \<and> entry_of options ?p children e)"
    proof (cases t)
      case (Tree_directory children)
      then show ?thesis
        using "2.IH"(2) [OF refl _ False Tree_directory] parts(2) canonical by simp
    qed (use parts(2) in auto)
    have e0: "e = e0 \<longleftrightarrow> we_path e = ?p \<and> tree_entry options (we_path e) t = Inr e"
      using parts(1) tree_entry_path [OF parts(1)] by auto
    have "entry_of options parent ((name, t) # rest) e \<longleftrightarrow> e = e0 \<or>
        (\<exists>children. t = Tree_directory children \<and> entry_of options ?p children e) \<or> entry_of options parent rest e"
      unfolding e0 using ig False by (auto simp: entry_of_def listed_Cons)
    then show ?thesis
      using others below parts(4) by auto
  qed
qed

text \<open>C32. The manifest of a directory lists exactly what is in it: every file, directory and link that no rule ignores
  and that is not below an ignored directory has its entry, with the hash of its content, and there is no other; the
  manifest is valid and free of paths that differ only in case.\<close>

theorem manifest_lists_tree:
  assumes "build_workspace_manifest root options = Inr m"
  shows "manifest_ok m \<and> reject_case_collisions m = Inr () \<and>
    (\<exists>children. root = Some (Tree_directory children) \<and>
      (\<forall>e. e \<in> set (wm_entries m) \<longleftrightarrow>
        (\<exists>t. listed (mo_ignore_rules options) [] children (we_path e) t \<and> tree_entry options (we_path e) t = Inr e)))"
proof -
  obtain children where children: "root = Some (Tree_directory children)"
    using assms by (auto simp: build_workspace_manifest_def split: option.splits fs_tree.splits if_splits)
  obtain es where es: "walk options [] children = Inr es"
    and m: "m = \<lparr>wm_workspace_id = mo_workspace_id options, wm_revision = mo_revision options,
        wm_entries = sort_key we_path es\<rparr>"
    and ok: "reject_case_collisions m = Inr ()" "validate_manifest m = Inr ()"
    using assms children by (auto simp: build_workspace_manifest_def Let_def result_simps split: if_splits)
  have "manifest_ok m"
    using ok(2) validate_manifest_iff by blast
  moreover have "set (wm_entries m) = set es"
    by (simp add: m)
  ultimately show ?thesis
    using children ok(1) walk_listed [OF es] by (simp add: entry_of_def)
qed

definition sample_options :: manifest_options where
  "sample_options = \<lparr>mo_workspace_id = ''w1'', mo_revision = 1, mo_ignore_rules = [], mo_executable_paths = {}\<rparr>"

lemma sample_tree_built:
  "build_workspace_manifest (Some (Tree_directory [(''a'', Tree_directory [])])) sample_options = Inr (sample_manifest 1 [''a''])"
proof -
  have "is_canonical_workspace_path ''a''"
    by (simp add: is_canonical_workspace_path_def path_components.simps component_ok_def reserved_device_def
        numbered_device_def to_upper_def Let_def)
  then show ?thesis
    by (simp add: build_workspace_manifest_def sample_options_def sample_manifest_def sample_entry_def child_path_def ignores_def
        tree_entry_def reject_case_collisions_def validate_manifest_def Let_def)
qed

theorem manifest_lists_tree_witness:
  "manifest_ok (sample_manifest 1 [''a'']) \<and>
   (\<forall>e. e \<in> set (wm_entries (sample_manifest 1 [''a''])) \<longleftrightarrow>
     (\<exists>t. listed [] [] [(''a'', Tree_directory [])] (we_path e) t \<and> tree_entry sample_options (we_path e) t = Inr e))"
  using manifest_lists_tree [OF sample_tree_built] by (simp add: sample_options_def)

section \<open>What the debouncer gives\<close>

definition quiet :: "int \<Rightarrow> time_point \<Rightarrow> string \<times> workspace_trigger \<times> time_point \<Rightarrow> bool" where
  "quiet period now entry \<longleftrightarrow> (case entry of (_, _, seen) \<Rightarrow> now \<ge> seen \<and> now - seen \<ge> period * 1000)"

lemma take_ready_loop_eq:
  "take_ready_loop period now m = (map (fst \<circ> snd) (filter (quiet period now) m), filter (Not \<circ> quiet period now) m)"
  by (induction period now m rule: take_ready_loop.induct) (auto simp: quiet_def split: prod.split)

text \<open>Each pending trigger is given once, when its path has been quiet for the period; the others stay.\<close>

lemma debouncer_take_ready_exact:
  "debouncer_take_ready now d = (map (fst \<circ> snd) (filter (quiet (cd_quiet_period d) now) (cd_pending d)),
     d\<lparr>cd_pending := filter (Not \<circ> quiet (cd_quiet_period d) now) (cd_pending d)\<rparr>)"
  by (simp add: debouncer_take_ready_def take_ready_loop_eq)

end
