(* ===== verification/File_Transfer.thy ===== *)
theory File_Transfer
  imports Workspace_Sync Call_Assertions
begin

text \<open>
  \<open>core/src/file_transfer.cpp\<close>: a file arrives in chunks in a staging file beside its destination, which it replaces
  when it is whole. The plan lists the chunks with their digests; what of a staging file is already right is
  recovered. The path of the plan is its generic string. The files are those of a machine whose calls may fail.
\<close>

section \<open>Plans\<close>

datatype transfer_encoding = Enc_identity | Enc_zstd

text \<open>\<open>extension()\<close> of a file name: from its last dot, unless that is the first character.\<close>

definition extension :: "string \<Rightarrow> string" where
  "extension name =
     (if name = ''.'' \<or> name = ''..'' \<or> CHR ''.'' \<notin> set (tl name) then []
      else CHR ''.'' # List.rev (takeWhile (\<lambda>c. c \<noteq> CHR ''.'') (List.rev name)))"

definition choose_transfer_encoding :: "string \<Rightarrow> bool \<Rightarrow> transfer_encoding" where
  "choose_transfer_encoding file_name zstd_available =
     (if \<not> zstd_available then Enc_identity
      else if ascii_lower (extension file_name) \<in>
          set [''.png'', ''.jpg'', ''.jpeg'', ''.zip'', ''.gz'', ''.zst'', ''.mp4'', ''.dmg'']
      then Enc_identity else Enc_zstd)"

record chunk_descriptor =
  ck_index :: nat
  ck_offset :: u64
  ck_size :: nat
  ck_sha256 :: string

record transfer_plan =
  tp_transfer_id :: string
  tp_relative_path :: string
  tp_total_size :: u64
  tp_sha256 :: string
  tp_chunks :: "chunk_descriptor list"

definition valid_transfer_id :: "string \<Rightarrow> bool" where
  "valid_transfer_id value \<longleftrightarrow> value \<noteq> [] \<and> length value \<le> 64 \<and> list_all (\<lambda>c. is_alnum c \<or> c = CHR ''-'') value"

text \<open>The loop of \<open>validate_plan\<close>: the offset after the last chunk.\<close>

fun chunk_layout :: "nat \<Rightarrow> u64 \<Rightarrow> chunk_descriptor list \<Rightarrow> u64 result" where
  "chunk_layout index expected_offset [] = ok expected_offset"
| "chunk_layout index expected_offset (c # cs) =
     (if ck_index c \<noteq> index \<or> ck_offset c \<noteq> expected_offset \<or> ck_size c = 0 \<or> ck_size c > max_chunk_size \<or>
         \<not> is_sha256_hex (ck_sha256 c)
      then throw (Invalid_argument ''invalid file transfer chunk layout'')
      else chunk_layout (index + 1) (expected_offset + of_nat (ck_size c)) cs)"

definition validate_plan :: "transfer_plan \<Rightarrow> unit result" where
  "validate_plan plan =
     (if \<not> valid_transfer_id (tp_transfer_id plan) \<or> \<not> is_canonical_workspace_path (tp_relative_path plan) \<or>
         tp_total_size plan = 0 \<or> \<not> is_sha256_hex (tp_sha256 plan) \<or> tp_chunks plan = []
      then throw (Invalid_argument ''invalid file transfer plan'')
      else and_then (chunk_layout 0 0 (tp_chunks plan)) (\<lambda>expected_offset.
        throw_if (expected_offset \<noteq> tp_total_size plan)
          (Invalid_argument ''file transfer chunks do not cover total size'')))"

section \<open>Reading and writing files\<close>

definition streamoff_max :: u64 where
  "streamoff_max = 2 ^ 63 - 1"

definition read_range :: "files \<Rightarrow> path \<Rightarrow> u64 \<Rightarrow> nat \<Rightarrow> byte list result" where
  "read_range fs p start n =
     (if start > streamoff_max then throw (Length_error ''chunk offset exceeds stream limit'')
      else case content_at fs p of
        None \<Rightarrow> throw (Runtime_error ''staging file could not be opened'')
      | Some c \<Rightarrow> if unat start + n > length c then throw (Runtime_error ''staging chunk could not be read'')
          else ok (take n (drop (unat start) c)))"

text \<open>Writing past the end fills the gap with zeros.\<close>

definition overwrite :: "byte list \<Rightarrow> nat \<Rightarrow> byte list \<Rightarrow> byte list" where
  "overwrite c start bytes = take start (c @ replicate (start - length c) 0) @ bytes @ drop (start + length bytes) c"

text \<open>A failed write leaves the file as it was, or with other bytes.\<close>

definition left_file :: "path \<Rightarrow> byte list option \<Rightarrow> files \<Rightarrow> files" where
  "left_file p left fs = (case left of None \<Rightarrow> fs | Some c \<Rightarrow> fs(p \<mapsto> File c))"

definition create_file :: "path \<Rightarrow> (machine, unit) call" where
  "create_file p = os_do (Os_create p) (\<lambda>fs. fs(p \<mapsto> File [])) (left_file p)"

definition write_at :: "path \<Rightarrow> nat \<Rightarrow> byte list \<Rightarrow> (machine, unit) call" where
  "write_at p start bytes m = (case content_at (mc_fs m) p of
     None \<Rightarrow> (throw (Runtime_error ''staging file could not be opened for update''), m)
   | Some c \<Rightarrow> os_do (Os_write p start bytes) (\<lambda>fs. fs(p \<mapsto> File (overwrite c start bytes)))
       (left_file p) m)"

section \<open>Transfers\<close>

record file_transfer =
  ft_machine :: machine
  ft_root :: path
  ft_plan :: transfer_plan
  ft_destination_path :: path
  ft_staging_path :: path
  ft_confirmed :: "nat set"

definition ft_files :: "file_transfer \<Rightarrow> files" where
  "ft_files t = mc_fs (ft_machine t)"

definition on_disk :: "(machine, 'a) call \<Rightarrow> (file_transfer, 'a) call" where
  "on_disk op t = (case op (ft_machine t) of (r, m) \<Rightarrow> (r, t\<lparr>ft_machine := m\<rparr>))"

fun recover_chunks :: "files \<Rightarrow> path \<Rightarrow> nat \<Rightarrow> chunk_descriptor list \<Rightarrow> nat set \<Rightarrow> nat set result" where
  "recover_chunks fs p existing_size [] confirmed = ok confirmed"
| "recover_chunks fs p existing_size (c # cs) confirmed =
     (if ck_offset c + of_nat (ck_size c) > of_nat existing_size then recover_chunks fs p existing_size cs confirmed
      else and_then (read_range fs p (ck_offset c) (ck_size c)) (\<lambda>bytes. and_then (sha256_hex bytes) (\<lambda>h.
        recover_chunks fs p existing_size cs (if h = ck_sha256 c then insert (ck_index c) confirmed else confirmed))))"

definition recover_verified_chunks :: "files \<Rightarrow> path \<Rightarrow> transfer_plan \<Rightarrow> nat set result" where
  "recover_verified_chunks fs staging plan = (case fs staging of
     None \<Rightarrow> ok {}
   | Some Dir \<Rightarrow> throw (Invalid_argument ''staging path is not a regular file'')
   | Some (File c) \<Rightarrow> recover_chunks fs staging (length c) (tp_chunks plan) {})"

definition staging_name :: "path \<Rightarrow> string \<Rightarrow> string" where
  "staging_name destination transfer_id = ''.'' @ last destination @ ''.rwn-'' @ transfer_id @ ''.part''"

definition new_file_transfer :: "path \<Rightarrow> transfer_plan \<Rightarrow> machine \<Rightarrow> file_transfer result" where
  "new_file_transfer root plan m =
     and_then (validate_plan plan) (\<lambda>_.
     and_then (scope_resolve root (relative (path_components (tp_relative_path plan)))) (\<lambda>destination.
       let staging = butlast destination @ [staging_name destination (tp_transfer_id plan)]
       in if \<not> scope_contains_resolved root staging
          then throw (Invalid_argument ''staging file escapes workspace scope'')
          else and_then (recover_verified_chunks (mc_fs m) staging plan) (\<lambda>confirmed.
            ok \<lparr>ft_machine = m, ft_root = root, ft_plan = plan, ft_destination_path = destination,
              ft_staging_path = staging, ft_confirmed = confirmed\<rparr>)))"

definition chunk_descriptor_at :: "nat \<Rightarrow> file_transfer \<Rightarrow> chunk_descriptor result" where
  "chunk_descriptor_at index t =
     (if index \<ge> length (tp_chunks (ft_plan t)) then throw (Out_of_range ''chunk index is outside transfer plan'')
      else ok (tp_chunks (ft_plan t) ! index))"

definition check_chunk :: "nat \<Rightarrow> byte list \<Rightarrow> file_transfer \<Rightarrow> chunk_descriptor result" where
  "check_chunk index bytes t = and_then (chunk_descriptor_at index t) (\<lambda>c.
     if length bytes \<noteq> ck_size c then throw (Invalid_argument ''chunk content hash mismatch'')
     else and_then (sha256_hex bytes) (\<lambda>h.
       if h \<noteq> ck_sha256 c then throw (Invalid_argument ''chunk content hash mismatch'') else ok c))"

definition create_staging :: "(file_transfer, unit) call" where
  "create_staging t = (if ft_files t (ft_staging_path t) = None then on_disk (create_file (ft_staging_path t)) t
     else c_return () t)"

definition accept_chunk :: "nat \<Rightarrow> byte list \<Rightarrow> (file_transfer, unit) call" where
  "accept_chunk index bytes t = (case check_chunk index bytes t of
     Inl e \<Rightarrow> (throw e, t)
   | Inr c \<Rightarrow>
       c_bind (on_disk (create_directories (butlast (ft_destination_path t)))) (\<lambda>_.
       c_bind create_staging (\<lambda>_.
       c_bind (c_check (\<lambda>_. throw_if (ck_offset c > streamoff_max) (Length_error ''chunk offset exceeds stream limit''))) (\<lambda>_.
       c_bind (on_disk (write_at (ft_staging_path t) (unat (ck_offset c)) bytes)) (\<lambda>_.
       c_bind (on_disk (flush_file (ft_staging_path t))) (\<lambda>_.
       c_modify (\<lambda>t. t\<lparr>ft_confirmed := insert index (ft_confirmed t)\<rparr>)))))) t)"

definition missing_chunks :: "file_transfer \<Rightarrow> nat list" where
  "missing_chunks t = filter (\<lambda>i. i \<notin> ft_confirmed t) [0..<length (tp_chunks (ft_plan t))]"

definition transfer_complete :: "file_transfer \<Rightarrow> bool" where
  "transfer_complete t \<longleftrightarrow> card (ft_confirmed t) = length (tp_chunks (ft_plan t))"

text \<open>\<open>file_size\<close> of a staging file that is gone throws as well.\<close>

definition whole_file_matches :: "file_transfer \<Rightarrow> unit result" where
  "whole_file_matches t = (case content_at (ft_files t) (ft_staging_path t) of
     None \<Rightarrow> throw (Runtime_error ''file_size'')
   | Some c \<Rightarrow> if of_nat (length c) \<noteq> tp_total_size (ft_plan t)
       then throw (Invalid_argument ''complete file content hash mismatch'')
       else and_then (sha256_file (Some c)) (\<lambda>h.
         throw_if (h \<noteq> tp_sha256 (ft_plan t)) (Invalid_argument ''complete file content hash mismatch'')))"

definition finalize_transfer :: "(file_transfer, unit) call" where
  "finalize_transfer t =
     (if \<not> transfer_complete t then c_throw (Logic_error ''incomplete transfer cannot be finalized'') t
      else c_bind (c_check whole_file_matches) (\<lambda>_.
        c_bind (on_disk (flush_file (ft_staging_path t))) (\<lambda>_.
        on_disk (atomic_replace (ft_staging_path t) (ft_destination_path t)))) t)"


section \<open>The destination holds what it held, or the planned file\<close>

definition planned :: "transfer_plan \<Rightarrow> fs_node option \<Rightarrow> bool" where
  "planned plan node \<longleftrightarrow> (case node of
     Some (File c) \<Rightarrow> of_nat (length c) = tp_total_size plan \<and> sha256_file (Some c) = Inr (tp_sha256 plan)
   | _ \<Rightarrow> False)"

text \<open>What happens to a transfer: its calls, and between them other programs, which may change every file but the
  destination.\<close>

datatype transfer_event = Accept_chunk nat "byte list" | Finalize | Other_programs files

fun transfer_step :: "file_transfer \<Rightarrow> transfer_event \<Rightarrow> file_transfer" where
  "transfer_step t (Accept_chunk index bytes) = snd (accept_chunk index bytes t)"
| "transfer_step t Finalize = snd (finalize_transfer t)"
| "transfer_step t (Other_programs fs) =
     t\<lparr>ft_machine := (ft_machine t)\<lparr>mc_fs := fs(ft_destination_path t := ft_files t (ft_destination_path t))\<rparr>\<rparr>"

text \<open>The fixed fields of a transfer.\<close>

definition same_transfer :: "file_transfer \<Rightarrow> file_transfer \<Rightarrow> bool" where
  "same_transfer t0 t \<longleftrightarrow> ft_root t = ft_root t0 \<and> ft_plan t = ft_plan t0 \<and>
     ft_destination_path t = ft_destination_path t0 \<and> ft_staging_path t = ft_staging_path t0"

lemma post_os_do:
  assumes "\<And>m. P m \<Longrightarrow> Q () (m\<lparr>mc_calls := mc_calls m @ [c], mc_fs := effect (mc_fs m)\<rparr>)"
    and "\<And>m left. P m \<Longrightarrow> E (m\<lparr>mc_calls := mc_calls m @ [c], mc_fs := left_behind left (mc_fs m)\<rparr>)"
  shows "c_post P (os_do c effect left_behind) Q E"
  using assms by (auto simp: c_post_def os_do_def Let_def split: option.splits)

text \<open>A call of the machine that keeps the files at some paths.\<close>

definition keeps_node :: "path \<Rightarrow> (machine, 'a) call \<Rightarrow> bool" where
  "keeps_node p op \<longleftrightarrow> (\<forall>n. c_keeps (\<lambda>m. mc_fs m p = n) op)"

lemma keeps_node_flush: "keeps_node p (flush_file q)"
  unfolding keeps_node_def c_keeps_def flush_file_def by (intro allI post_os_do) simp_all

lemma keeps_node_mkdir: "\<not> has_prefix q p \<Longrightarrow> keeps_node p (create_directories q)"
  by (auto simp: keeps_node_def c_keeps_def c_post_def create_directories_def os_do_def Let_def split: option.splits)

lemma keeps_node_create: "p \<noteq> q \<Longrightarrow> keeps_node p (create_file q)"
  unfolding keeps_node_def c_keeps_def create_file_def
  by (intro allI post_os_do) (simp_all add: left_file_def split: option.split)

lemma keeps_node_write: "p \<noteq> q \<Longrightarrow> keeps_node p (write_at q start bytes)"
  by (auto simp: keeps_node_def c_keeps_def c_post_def write_at_def os_do_def left_file_def Let_def split: option.splits)

lemma post_on_disk:
  assumes "c_post P op Q E"
  shows "c_post (\<lambda>t. P (ft_machine t) \<and> same_transfer t0 t) (on_disk op)
    (\<lambda>x t. Q x (ft_machine t) \<and> same_transfer t0 t) (\<lambda>t. E (ft_machine t) \<and> same_transfer t0 t)"
  using assms by (fastforce simp: c_post_def on_disk_def same_transfer_def split: prod.splits sum.splits)

text \<open>The assertion that a path holds a node, and that of the destination.\<close>

definition node_holds :: "file_transfer \<Rightarrow> path \<Rightarrow> fs_node option \<Rightarrow> file_transfer \<Rightarrow> bool" where
  "node_holds t0 q n t \<longleftrightarrow> ft_files t q = n \<and> same_transfer t0 t"

definition destination_holds :: "file_transfer \<Rightarrow> fs_node option \<Rightarrow> file_transfer \<Rightarrow> bool" where
  "destination_holds t0 n t \<longleftrightarrow> ft_files t (ft_destination_path t0) = n \<and> same_transfer t0 t"

lemma destination_node: "destination_holds t0 n = node_holds t0 (ft_destination_path t0) n"
  by (simp add: fun_eq_iff destination_holds_def node_holds_def)

lemma keeps_on_disk:
  assumes "keeps_node q op"
  shows "c_keeps (node_holds t0 q n) (on_disk op)"
proof -
  have "node_holds t0 q n = (\<lambda>t. mc_fs (ft_machine t) q = n \<and> same_transfer t0 t)"
    by (simp add: fun_eq_iff node_holds_def ft_files_def)
  then show ?thesis
    using assms post_on_disk [of "\<lambda>m. mc_fs m q = n" op "\<lambda>_ m. mc_fs m q = n" "\<lambda>m. mc_fs m q = n" t0]
    by (simp add: keeps_node_def c_keeps_def)
qed

lemma keeps_check: "c_keeps I (c_check f)"
  by (simp add: c_keeps_def c_post_def c_check_def split: sum.split)

lemma keeps_split: "(\<And>s. I s \<Longrightarrow> \<exists>m'. m s = m' s \<and> c_keeps I m') \<Longrightarrow> c_keeps I m"
  unfolding c_keeps_def by (rule c_post_split)

lemma keeps_snd: "c_keeps I m \<Longrightarrow> I s \<Longrightarrow> I (snd (m s))"
  by (auto simp: c_keeps_def c_post_def split_beta split: sum.splits)

lemma parent_not_below: "d \<noteq> [] \<Longrightarrow> \<not> has_prefix (butlast d) d"
  by (cases d rule: List.rev_cases) (auto simp: has_prefix_iff)

lemma keeps_accept:
  assumes paths: "ft_staging_path t0 \<noteq> q" "\<not> has_prefix (butlast (ft_destination_path t0)) q"
  shows "c_keeps (node_holds t0 q n) (accept_chunk index bytes)"
proof (rule keeps_split)
  fix t
  assume t: "node_holds t0 q n t"
  let ?d = "ft_destination_path t0" and ?s = "ft_staging_path t0"
  have same: "ft_destination_path t = ?d" "ft_staging_path t = ?s"
    using t by (auto simp: node_holds_def same_transfer_def)
  have create: "c_keeps (node_holds t0 q n) create_staging"
  proof (rule keeps_split)
    fix u
    assume "node_holds t0 q n u"
    then have "ft_staging_path u = ?s"
      by (auto simp: node_holds_def same_transfer_def)
    then have "create_staging u = (if ft_files u ?s = None then on_disk (create_file ?s) else c_return ()) u"
      by (simp add: create_staging_def)
    moreover have "c_keeps (node_holds t0 q n) (if ft_files u ?s = None then on_disk (create_file ?s) else c_return ())"
      using paths(1) [symmetric] by (auto intro: keeps_on_disk keeps_node_create c_keeps_pure)
    ultimately show "\<exists>m'. create_staging u = m' u \<and> c_keeps (node_holds t0 q n) m'"
      by blast
  qed
  show "\<exists>m'. accept_chunk index bytes t = m' t \<and> c_keeps (node_holds t0 q n) m'"
  proof (cases "check_chunk index bytes t")
    case (Inl e)
    then have "accept_chunk index bytes t = c_throw e t"
      by (simp add: accept_chunk_def)
    then show ?thesis
      using c_keeps_pure by blast
  next
    case (Inr c)
    let ?m = "c_bind (on_disk (create_directories (butlast ?d))) (\<lambda>_. c_bind create_staging (\<lambda>_.
      c_bind (c_check (\<lambda>_. throw_if (ck_offset c > streamoff_max) (Length_error ''chunk offset exceeds stream limit''))) (\<lambda>_.
      c_bind (on_disk (write_at ?s (unat (ck_offset c)) bytes)) (\<lambda>_. c_bind (on_disk (flush_file ?s)) (\<lambda>_.
      c_modify (\<lambda>t. t\<lparr>ft_confirmed := insert index (ft_confirmed t)\<rparr>))))))"
    have disk: "c_keeps (node_holds t0 q n) (on_disk (create_directories (butlast ?d)))"
      "c_keeps (node_holds t0 q n) (on_disk (write_at ?s (unat (ck_offset c)) bytes))"
      "c_keeps (node_holds t0 q n) (on_disk (flush_file ?s))"
      using paths paths(1) [symmetric]
      by (auto intro: keeps_on_disk keeps_node_mkdir keeps_node_write keeps_node_flush)
    have "c_keeps (node_holds t0 q n) ?m"
      by (intro c_keeps_bind disk create keeps_check c_keeps_modify)
        (auto simp: node_holds_def same_transfer_def ft_files_def)
    moreover have "accept_chunk index bytes t = ?m t"
      by (simp add: accept_chunk_def Inr same)
    ultimately show ?thesis
      by blast
  qed
qed

lemma keeps_finalize:
  assumes paths: "ft_staging_path t0 \<noteq> q" "ft_destination_path t0 \<noteq> q"
  shows "c_keeps (node_holds t0 q n) finalize_transfer"
proof (rule keeps_split)
  fix t
  assume t: "node_holds t0 q n t"
  have same: "ft_destination_path t = ft_destination_path t0" "ft_staging_path t = ft_staging_path t0"
    using t by (auto simp: node_holds_def same_transfer_def)
  have "keeps_node q (atomic_replace (ft_staging_path t0) (ft_destination_path t0))"
    using paths by (auto simp: keeps_node_def c_keeps_def c_post_def atomic_replace_def move_node_def os_do_def Let_def split: option.splits)
  then have "c_keeps (node_holds t0 q n) (c_bind (c_check whole_file_matches) (\<lambda>_.
      c_bind (on_disk (flush_file (ft_staging_path t0))) (\<lambda>_.
      on_disk (atomic_replace (ft_staging_path t0) (ft_destination_path t0)))))" (is "c_keeps _ ?m")
    by (intro c_keeps_bind keeps_check keeps_on_disk keeps_node_flush)
  moreover have "c_keeps (node_holds t0 q n) (c_throw e)" for e
    by (rule c_keeps_pure)
  moreover have "finalize_transfer t = ?m t \<or> (\<exists>e. finalize_transfer t = c_throw e t)"
    by (auto simp: finalize_transfer_def same)
  ultimately show "\<exists>m'. finalize_transfer t = m' t \<and> c_keeps (node_holds t0 q n) m'"
    by blast
qed

text \<open>The assertion that the staging file is the planned one.\<close>

definition staged :: "file_transfer \<Rightarrow> fs_node option \<Rightarrow> file_transfer \<Rightarrow> bool" where
  "staged t0 n t \<longleftrightarrow> planned (ft_plan t0) (ft_files t (ft_staging_path t0)) \<and> destination_holds t0 n t"

lemma whole_file_planned:
  "whole_file_matches t = Inr () \<Longrightarrow> planned (ft_plan t) (ft_files t (ft_staging_path t))"
  by (auto simp: whole_file_matches_def planned_def content_at_def result_simps
      split: option.splits fs_node.splits if_splits)

text \<open>Finalizing may throw after the move: the destination is what it was, or the planned file.\<close>

definition destination_after :: "file_transfer \<Rightarrow> fs_node option \<Rightarrow> file_transfer \<Rightarrow> bool" where
  "destination_after t0 n t \<longleftrightarrow> same_transfer t0 t \<and>
     (ft_files t (ft_destination_path t0) = n \<or> planned (ft_plan t0) (ft_files t (ft_destination_path t0)))"

lemma post_finalize:
  assumes paths: "ft_staging_path t0 \<noteq> ft_destination_path t0"
  shows "c_post (destination_holds t0 n) finalize_transfer
    (\<lambda>_ t. planned (ft_plan t0) (ft_files t (ft_destination_path t0)) \<and> ft_files t (ft_staging_path t0) = None \<and>
      same_transfer t0 t)
    (destination_after t0 n)"
proof -
  let ?d = "ft_destination_path t0" and ?s = "ft_staging_path t0"
  let ?Q = "\<lambda>_ t. planned (ft_plan t0) (ft_files t ?d) \<and> ft_files t ?s = None \<and> same_transfer t0 t"
  let ?E = "destination_after t0 n"
  have check: "c_post (destination_holds t0 n) (c_check whole_file_matches) (\<lambda>_. staged t0 n) ?E"
    using whole_file_planned
    by (fastforce simp: c_post_def c_check_def staged_def destination_after_def destination_holds_def same_transfer_def
        split: sum.splits)
  have flush: "c_post (staged t0 n) (on_disk (flush_file ?s)) (\<lambda>_. staged t0 n) ?E"
    by (auto simp: c_post_def on_disk_def flush_file_def os_do_def staged_def destination_after_def destination_holds_def
        same_transfer_def ft_files_def Let_def split: option.splits)
  have replace: "c_post (staged t0 n) (on_disk (atomic_replace ?s ?d)) ?Q ?E"
    using paths
    by (auto simp: c_post_def on_disk_def atomic_replace_def move_node os_do_def staged_def destination_after_def
        destination_holds_def same_transfer_def ft_files_def Let_def split: option.splits)
  have whole: "c_post (destination_holds t0 n)
      (c_bind (c_check whole_file_matches) (\<lambda>_. c_bind (on_disk (flush_file ?s)) (\<lambda>_. on_disk (atomic_replace ?s ?d))))
      ?Q ?E"
    by (intro c_post_bind [OF check] c_post_bind [OF flush] replace)
  show ?thesis
  proof (rule c_post_split)
    fix t
    assume t: "destination_holds t0 n t"
    then have same: "ft_destination_path t = ?d" "ft_staging_path t = ?s"
      by (auto simp: destination_holds_def same_transfer_def)
    show "\<exists>m'. finalize_transfer t = m' t \<and> c_post (destination_holds t0 n) m' ?Q ?E"
    proof (cases "transfer_complete t")
      case True
      then show ?thesis
        using whole by (auto simp: finalize_transfer_def same)
    next
      case False
      have "c_post (destination_holds t0 n) (c_throw e) ?Q ?E" for e
        by (rule c_post_throw) (simp add: destination_after_def destination_holds_def)
      then show ?thesis
        using False unfolding finalize_transfer_def by (metis (full_types))
    qed
  qed
qed

definition destination_sound :: "file_transfer \<Rightarrow> file_transfer \<Rightarrow> bool" where
  "destination_sound t0 t \<longleftrightarrow> same_transfer t0 t \<and>
     (ft_files t (ft_destination_path t0) = ft_files t0 (ft_destination_path t0) \<or>
      planned (ft_plan t0) (ft_files t (ft_destination_path t0)))"

lemma destination_sound_holds:
  "destination_sound t0 t \<longleftrightarrow> (\<exists>n. destination_holds t0 n t \<and>
     (n = ft_files t0 (ft_destination_path t0) \<or> planned (ft_plan t0) n))"
  by (auto simp: destination_sound_def destination_holds_def)

lemma destination_sound_step:
  assumes paths: "ft_staging_path t0 \<noteq> ft_destination_path t0" "ft_destination_path t0 \<noteq> []"
    and sound: "destination_sound t0 t"
  shows "destination_sound t0 (transfer_step t e)"
proof -
  obtain n where n: "destination_holds t0 n t" "n = ft_files t0 (ft_destination_path t0) \<or> planned (ft_plan t0) n"
    using sound by (auto simp: destination_sound_holds)
  show ?thesis
  proof (cases e)
    case (Accept_chunk index bytes)
    then show ?thesis
      using keeps_snd [OF keeps_accept [OF paths(1) parent_not_below [OF paths(2)]] n(1) [unfolded destination_node]] n(2)
      by (auto simp: destination_sound_holds destination_node)
  next
    case Finalize
    obtain r t' where run: "finalize_transfer t = (r, t')"
      by fastforce
    show ?thesis
    proof (cases r)
      case (Inl err)
      then show ?thesis
        using c_postE [OF post_finalize [OF paths(1)] n(1)] run n(2) Finalize
        by (auto simp: destination_sound_def destination_after_def)
    next
      case (Inr u)
      then show ?thesis
        using c_postD [OF post_finalize [OF paths(1)] n(1)] run Finalize by (auto simp: destination_sound_def)
    qed
  next
    case (Other_programs fs)
    then show ?thesis
      using sound by (auto simp: destination_sound_def same_transfer_def ft_files_def)
  qed
qed

lemma new_transfer_paths:
  assumes "new_file_transfer root plan m = Inr t" "canonical root"
  shows "ft_plan t = plan \<and> ft_machine t = m \<and> ft_root t = root \<and>
    is_canonical_workspace_path (tp_relative_path plan) \<and>
    ft_destination_path t = root @ path_components (tp_relative_path plan) \<and> ft_destination_path t \<noteq> [] \<and>
    ft_staging_path t = butlast (ft_destination_path t) @ [staging_name (ft_destination_path t) (tp_transfer_id plan)] \<and>
    ft_staging_path t \<noteq> ft_destination_path t \<and> validate_plan plan = Inr () \<and>
    recover_verified_chunks (mc_fs m) (ft_staging_path t) plan = Inr (ft_confirmed t)"
proof -
  have path: "is_canonical_workspace_path (tp_relative_path plan)"
    using assms(1) by (auto simp: new_file_transfer_def validate_plan_def result_simps split: if_splits)
  let ?d = "root @ path_components (tp_relative_path plan)"
  have d: "scope_resolve root (relative (path_components (tp_relative_path plan))) = Inr ?d" "?d \<noteq> []"
    using canonical_components [OF path] by (simp_all add: scope_resolve_plain assms(2))
  have "length (staging_name ?d i) > length (last ?d)" for i
    by (simp add: staging_name_def)
  then have "butlast ?d @ [staging_name ?d i] \<noteq> ?d" for i
    using d(2) by (metis append_butlast_last_id last_snoc less_irrefl)
  then show ?thesis
    using assms(1) d path
    by (auto simp: new_file_transfer_def result_simps Let_def split: if_splits)
qed

lemma destination_always_sound:
  assumes "new_file_transfer root plan m = Inr t0" and "canonical root"
  shows "destination_sound t0 (foldl transfer_step t0 events) \<and> has_prefix (ft_destination_path t0) root \<and>
    (finalize_transfer (foldl transfer_step t0 events) = (Inr (), t) \<longrightarrow>
      planned plan (ft_files t (ft_destination_path t0)) \<and> ft_files t (ft_staging_path t0) = None)"
proof -
  note paths = new_transfer_paths [OF assms]
  have sound: "destination_sound t0 (foldl transfer_step t0 events)"
  proof (induction events rule: List.rev_induct)
    case Nil
    show ?case
      by (simp add: destination_sound_def same_transfer_def)
  next
    case (snoc e events)
    have "ft_staging_path t0 \<noteq> ft_destination_path t0" "ft_destination_path t0 \<noteq> []"
      using paths by blast+
    then show ?case
      using destination_sound_step snoc.IH by simp
  qed
  then obtain n where n: "destination_holds t0 n (foldl transfer_step t0 events)"
    by (auto simp: destination_sound_holds)
  have "finalize_transfer (foldl transfer_step t0 events) = (Inr (), t) \<Longrightarrow>
      planned plan (ft_files t (ft_destination_path t0)) \<and> ft_files t (ft_staging_path t0) = None"
    using c_postD [OF post_finalize n] paths by blast
  then show ?thesis
    using sound paths by (auto simp: has_prefix_iff)
qed

end
