(* ===== verification/Transfer_Delivery.thy ===== *)
theory Transfer_Delivery
  imports File_Transfer
begin

text \<open>
  A transfer on a machine whose calls succeed: the staging file grows towards the planned content, whatever the order
  of the chunks and whatever a previous attempt left behind, and finalizing delivers it.
\<close>

definition reliable :: "machine \<Rightarrow> bool" where
  "reliable m \<longleftrightarrow> os_fails (mc_os m) = (\<lambda>_ _. None)"

lemma reliable_do:
  "reliable m \<Longrightarrow> os_do c effect left_behind m = (Inr (), m\<lparr>mc_calls := mc_calls m @ [c], mc_fs := effect (mc_fs m)\<rparr>)"
  by (simp add: reliable_def os_do_def Let_def)

lemma reliable_fields [simp]: "reliable (m\<lparr>mc_calls := cs\<rparr>) = reliable m" "reliable (m\<lparr>mc_fs := fs\<rparr>) = reliable m"
  by (simp_all add: reliable_def)

definition chunk_bytes :: "chunk_descriptor \<Rightarrow> byte list \<Rightarrow> byte list" where
  "chunk_bytes c content = take (ck_size c) (drop (unat (ck_offset c)) content)"

text \<open>A position that lies in a chunk.\<close>

definition in_chunk :: "chunk_descriptor \<Rightarrow> nat \<Rightarrow> bool" where
  "in_chunk c k \<longleftrightarrow> unat (ck_offset c) \<le> k \<and> k < unat (ck_offset c) + ck_size c"

definition describes :: "transfer_plan \<Rightarrow> byte list \<Rightarrow> bool" where
  "describes plan content \<longleftrightarrow>
     tp_total_size plan = of_nat (length content) \<and> length content < 2 ^ 63 \<and>
     sha256_file (Some content) = Inr (tp_sha256 plan) \<and>
     (\<forall>c \<in> set (tp_chunks plan). unat (ck_offset c) + ck_size c \<le> length content \<and>
        sha256_hex (chunk_bytes c content) = Inr (ck_sha256 c)) \<and>
     (\<forall>k < length content. \<exists>c \<in> set (tp_chunks plan). in_chunk c k)"

definition staged_bytes :: "file_transfer \<Rightarrow> byte list" where
  "staged_bytes t = (case ft_files t (ft_staging_path t) of Some (File c) \<Rightarrow> c | _ \<Rightarrow> [])"

text \<open>What lies above the destination are directories, or nothing yet.\<close>

definition no_file_above :: "files \<Rightarrow> path \<Rightarrow> bool" where
  "no_file_above fs p \<longleftrightarrow> (\<forall>n \<le> length p. \<not> regular_file fs (take n p))"

text \<open>Besides the staging file, a transfer has only made directories above the destination.\<close>

definition surroundings :: "file_transfer \<Rightarrow> file_transfer \<Rightarrow> bool" where
  "surroundings t0 t \<longleftrightarrow> (\<forall>p. p \<noteq> ft_staging_path t0 \<longrightarrow> ft_files t p = ft_files t0 p \<or>
     (ft_files t0 p = None \<and> ft_files t p = Some Dir \<and> has_prefix (butlast (ft_destination_path t0)) p))"

definition correct_at :: "byte list \<Rightarrow> file_transfer \<Rightarrow> nat \<Rightarrow> bool" where
  "correct_at content t k \<longleftrightarrow> k < length (staged_bytes t) \<and> staged_bytes t ! k = content ! k"

definition receiving :: "file_transfer \<Rightarrow> byte list \<Rightarrow> file_transfer \<Rightarrow> bool" where
  "receiving t0 content t \<longleftrightarrow> same_transfer t0 t \<and> reliable (ft_machine t) \<and> surroundings t0 t \<and>
     no_file_above (ft_files t0) (butlast (ft_destination_path t0)) \<and>
     ft_files t (ft_staging_path t) \<noteq> Some Dir \<and> length (staged_bytes t) \<le> length content \<and>
     ft_confirmed t \<subseteq> {..<length (tp_chunks (ft_plan t))} \<and>
     (\<forall>i \<in> ft_confirmed t. \<forall>k. in_chunk (tp_chunks (ft_plan t) ! i) k \<longrightarrow> correct_at content t k)"

section \<open>One chunk\<close>

lemma length_overwrite: "length (overwrite c start bytes) = max (length c) (start + length bytes)"
  by (simp add: overwrite_def)

lemma nth_overwrite:
  assumes "k < length (overwrite c start bytes)"
  shows "overwrite c start bytes ! k =
    (if start \<le> k \<and> k < start + length bytes then bytes ! (k - start) else if k < length c then c ! k else 0)"
  using assms by (auto simp: overwrite_def nth_append min_def)

lemma on_disk_eq: "op (ft_machine t) = (r, m) \<Longrightarrow> on_disk op t = (r, t\<lparr>ft_machine := m\<rparr>)"
  by (simp add: on_disk_def)

lemma c_bind_ok: "m s = (Inr x, s') \<Longrightarrow> c_bind m f s = f x s'"
  by (simp add: c_bind_def)

lemma mkdir_ok:
  "reliable m \<Longrightarrow> no_file_above (mc_fs m) p \<Longrightarrow> create_directories p m =
     (Inr (), m\<lparr>mc_calls := mc_calls m @ [Os_mkdir p],
        mc_fs := \<lambda>q. if has_prefix p q \<and> mc_fs m q = None then Some Dir else mc_fs m q\<rparr>)"
  by (auto simp: create_directories_def reliable_do no_file_above_def list_ex_iff)

lemma write_ok:
  "reliable m \<Longrightarrow> mc_fs m p = Some (File c) \<Longrightarrow> write_at p start bytes m =
     (Inr (), m\<lparr>mc_calls := mc_calls m @ [Os_write p start bytes], mc_fs := (mc_fs m)(p \<mapsto> File (overwrite c start bytes))\<rparr>)"
  by (simp add: write_at_def content_at_def reliable_do)

lemma flush_ok: "reliable m \<Longrightarrow> flush_file p m = (Inr (), m\<lparr>mc_calls := mc_calls m @ [Os_flush p]\<rparr>)"
  by (simp add: flush_file_def reliable_do)

text \<open>A chunk with the right digest: the calls that are made, and the files afterwards.\<close>

lemma accept_chunk_ok:
  assumes chunk: "check_chunk index bytes t = Inr c" and small: "ck_offset c \<le> streamoff_max"
    and m: "reliable (ft_machine t)" and above: "no_file_above (ft_files t) (butlast (ft_destination_path t))"
    and node: "ft_files t (ft_staging_path t) \<noteq> Some Dir"
    and apart: "\<not> has_prefix (butlast (ft_destination_path t)) (ft_staging_path t)"
  shows "\<exists>t'. accept_chunk index bytes t = (Inr (), t') \<and> same_transfer t t' \<and> reliable (ft_machine t') \<and>
    ft_confirmed t' = insert index (ft_confirmed t) \<and>
    ft_files t' = (\<lambda>q. if has_prefix (butlast (ft_destination_path t)) q \<and> ft_files t q = None then Some Dir
      else ft_files t q)(ft_staging_path t \<mapsto> File (overwrite (staged_bytes t) (unat (ck_offset c)) bytes))"
proof -
  let ?d = "butlast (ft_destination_path t)" and ?s = "ft_staging_path t"
  let ?fs = "\<lambda>q. if has_prefix ?d q \<and> ft_files t q = None then Some Dir else ft_files t q"
  let ?m1 = "(ft_machine t)\<lparr>mc_calls := mc_calls (ft_machine t) @ [Os_mkdir ?d], mc_fs := ?fs\<rparr>"
  have mkdir: "on_disk (create_directories ?d) t = (Inr (), t\<lparr>ft_machine := ?m1\<rparr>)"
    using mkdir_ok [OF m, of ?d] above unfolding ft_files_def by (simp add: on_disk_def)
  obtain m2 where m2: "create_staging (t\<lparr>ft_machine := ?m1\<rparr>) = (Inr (), t\<lparr>ft_machine := m2\<rparr>)" "reliable m2"
    "mc_fs m2 = ?fs(?s \<mapsto> File (staged_bytes t))"
  proof (cases "ft_files t ?s")
    case None
    have "create_staging (t\<lparr>ft_machine := ?m1\<rparr>) = (Inr (), t\<lparr>ft_machine := ?m1\<lparr>mc_calls := mc_calls ?m1 @ [Os_create ?s],
        mc_fs := ?fs(?s \<mapsto> File [])\<rparr>\<rparr>)"
      using None apart m by (simp add: create_staging_def ft_files_def on_disk_def create_file_def reliable_do)
    then show ?thesis
      using that None m by (auto simp: staged_bytes_def)
  next
    case (Some n)
    then obtain c where c: "n = File c"
      using node by (cases n) auto
    have "create_staging (t\<lparr>ft_machine := ?m1\<rparr>) = (Inr (), t\<lparr>ft_machine := ?m1\<rparr>)"
      using Some apart by (simp add: create_staging_def ft_files_def)
    then show ?thesis
      using that [of ?m1] Some c m by (auto simp: staged_bytes_def fun_eq_iff)
  qed
  let ?w = "overwrite (staged_bytes t) (unat (ck_offset c)) bytes"
  let ?m3 = "m2\<lparr>mc_calls := mc_calls m2 @ [Os_write ?s (unat (ck_offset c)) bytes], mc_fs := (mc_fs m2)(?s \<mapsto> File ?w)\<rparr>"
  have put: "on_disk (write_at ?s (unat (ck_offset c)) bytes) (t\<lparr>ft_machine := m2\<rparr>) = (Inr (), t\<lparr>ft_machine := ?m3\<rparr>)"
    using write_ok [OF m2(2), of ?s] m2(3) by (simp add: on_disk_def)
  let ?m4 = "?m3\<lparr>mc_calls := mc_calls ?m3 @ [Os_flush ?s]\<rparr>"
  have flush: "on_disk (flush_file ?s) (t\<lparr>ft_machine := ?m3\<rparr>) = (Inr (), t\<lparr>ft_machine := ?m4\<rparr>)"
    using flush_ok [of ?m3] m2(2) by (simp add: on_disk_def)
  have check: "c_check (\<lambda>_. throw_if (ck_offset c > streamoff_max) e) u = (Inr (), u)" for e and u :: file_transfer
    using leD [OF small] by (simp add: c_check_def)
  have "accept_chunk index bytes t = (Inr (), t\<lparr>ft_machine := ?m4, ft_confirmed := insert index (ft_confirmed t)\<rparr>)"
    unfolding accept_chunk_def chunk sum.case
    by (simp add: c_bind_def mkdir m2(1) check put flush c_modify_def)
  then show ?thesis
    using m2(2,3) by (simp add: same_transfer_def ft_files_def)
qed

text \<open>A received chunk is correct in the staging file, and so is all that was correct before.\<close>

lemma correct_at_overwrite:
  assumes range: "unat (ck_offset c) + ck_size c \<le> length content"
    and t: "length (staged_bytes t) \<le> length content"
    and t': "staged_bytes t' = overwrite (staged_bytes t) (unat (ck_offset c)) (chunk_bytes c content)"
  shows "(in_chunk c k \<or> correct_at content t k \<longrightarrow> correct_at content t' k) \<and>
    length (staged_bytes t') \<le> length content"
proof -
  have size: "length (chunk_bytes c content) = ck_size c"
    using range by (simp add: chunk_bytes_def)
  have len: "length (staged_bytes t') = max (length (staged_bytes t)) (unat (ck_offset c) + ck_size c)"
    by (simp add: t' length_overwrite size)
  moreover have "staged_bytes t' ! k = content ! k" if "in_chunk c k \<or> correct_at content t k"
  proof -
    have k: "k < length (staged_bytes t')"
      using that len by (auto simp: in_chunk_def correct_at_def)
    show ?thesis
      using that nth_overwrite [OF k [unfolded t']] range
      by (auto simp: t' size in_chunk_def correct_at_def chunk_bytes_def)
  qed
  ultimately show ?thesis
    using range t by (auto simp: in_chunk_def correct_at_def)
qed

lemma receive_chunk:
  assumes t: "receiving t0 content t" and plan: "describes (ft_plan t0) content"
    and i: "i < length (tp_chunks (ft_plan t0))" "c = tp_chunks (ft_plan t0) ! i"
    and paths: "\<not> has_prefix (butlast (ft_destination_path t0)) (ft_staging_path t0)"
  shows "\<exists>t'. accept_chunk i (chunk_bytes c content) t = (Inr (), t') \<and> receiving t0 content t' \<and>
    ft_confirmed t' = insert i (ft_confirmed t)"
proof -
  have same: "ft_plan t = ft_plan t0" "ft_destination_path t = ft_destination_path t0" "ft_staging_path t = ft_staging_path t0"
    using t by (auto simp: receiving_def same_transfer_def)
  have chunk: "unat (ck_offset c) + ck_size c \<le> length content" "length content < 2 ^ 63"
    "sha256_hex (chunk_bytes c content) = Inr (ck_sha256 c)"
    using plan i by (auto simp: describes_def)
  have "check_chunk i (chunk_bytes c content) t = Inr c"
    using chunk i by (simp add: check_chunk_def chunk_descriptor_at_def same chunk_bytes_def)
  moreover have "ck_offset c \<le> streamoff_max"
    using chunk by (simp add: word_le_nat_alt streamoff_max_def)
  moreover have "no_file_above (ft_files t) (butlast (ft_destination_path t))"
    unfolding no_file_above_def
  proof (intro allI impI)
    fix n
    let ?p = "take n (butlast (ft_destination_path t))"
    have "?p \<noteq> ft_staging_path t0"
      using paths append_take_drop_id [of n "butlast (ft_destination_path t0)"] unfolding has_prefix_iff same by metis
    then show "\<not> regular_file (ft_files t) ?p"
      using t by (cases "n \<le> length (butlast (ft_destination_path t))")
        (force simp: receiving_def surroundings_def no_file_above_def regular_file_def same)+
  qed
  ultimately obtain t' where t': "accept_chunk i (chunk_bytes c content) t = (Inr (), t')" "same_transfer t t'"
    "reliable (ft_machine t')" "ft_confirmed t' = insert i (ft_confirmed t)"
    and files: "ft_files t' = (\<lambda>q. if has_prefix (butlast (ft_destination_path t)) q \<and> ft_files t q = None then Some Dir
      else ft_files t q)(ft_staging_path t \<mapsto> File (overwrite (staged_bytes t) (unat (ck_offset c)) (chunk_bytes c content)))"
    using accept_chunk_ok [of i "chunk_bytes c content" t c] t paths by (auto simp: receiving_def same)
  have staged: "staged_bytes t' = overwrite (staged_bytes t) (unat (ck_offset c)) (chunk_bytes c content)"
    using t'(2) by (simp add: staged_bytes_def same_transfer_def files)
  have correct: "correct_at content t' k" if "in_chunk c k \<or> correct_at content t k" for k
    using correct_at_overwrite [OF chunk(1) _ staged] t that unfolding receiving_def by blast
  have "receiving t0 content t'"
    unfolding receiving_def
  proof (intro conjI ballI allI impI)
    show "length (staged_bytes t') \<le> length content"
      using correct_at_overwrite [OF chunk(1) _ staged] t by (simp add: receiving_def)
    show "surroundings t0 t'"
      using t by (auto simp: receiving_def surroundings_def files same)
    fix j k
    assume j: "j \<in> ft_confirmed t'" "in_chunk (tp_chunks (ft_plan t') ! j) k"
    show "correct_at content t' k"
      using j t t' i by (intro correct) (auto simp: receiving_def same_transfer_def)
  qed (use t t' i files in \<open>auto simp: receiving_def same_transfer_def\<close>)
  then show ?thesis
    using t' by blast
qed

section \<open>Delivery\<close>

text \<open>A new transfer: the chunks that it finds in the staging file are right unless two contents of a chunk have the
  same digest.\<close>

definition no_collision :: "transfer_plan \<Rightarrow> byte list \<Rightarrow> byte list \<Rightarrow> bool" where
  "no_collision plan content old \<longleftrightarrow> (\<forall>c \<in> set (tp_chunks plan).
     unat (ck_offset c) + ck_size c \<le> length old \<and> sha256_hex (chunk_bytes c old) = Inr (ck_sha256 c) \<longrightarrow>
       chunk_bytes c old = chunk_bytes c content)"

lemma recover_chunks_sound:
  assumes "recover_chunks fs p n cs confirmed = Inr found" and "content_at fs p = Some old"
    and "\<forall>c \<in> set cs. unat (ck_offset c) + ck_size c < 2 ^ 64" "length old = n" "n < 2 ^ 64"
  shows "\<forall>i \<in> found. i \<in> confirmed \<or> (\<exists>c \<in> set cs. ck_index c = i \<and> unat (ck_offset c) + ck_size c \<le> n \<and>
    sha256_hex (chunk_bytes c old) = Inr (ck_sha256 c))"
  using assms
proof (induction cs arbitrary: confirmed)
  case (Cons c cs)
  have "(ck_offset c + of_nat (ck_size c) > of_nat n) = (unat (ck_offset c) + ck_size c > n)"
    using Cons.prems(3,5) by (simp add: word_less_nat_alt unat_word_ariths unat_of_nat)
  then show ?case
    using Cons.prems Cons.IH
    by (fastforce simp: result_simps read_range_def chunk_bytes_def split: if_splits)
qed simp

lemma chunk_layout_indices:
  "chunk_layout n e cs = Inr e' \<Longrightarrow> j < length cs \<Longrightarrow> ck_index (cs ! j) = n + j"
proof (induction n e cs arbitrary: j rule: chunk_layout.induct)
  case (2 n e c cs)
  then show ?case
    by (cases j) (auto simp: result_simps)
qed simp

lemma validated_indices:
  "validate_plan plan = Inr () \<Longrightarrow> j < length (tp_chunks plan) \<Longrightarrow> ck_index (tp_chunks plan ! j) = j"
  using chunk_layout_indices by (fastforce simp: validate_plan_def result_simps)

lemma staging_not_above: "canonical root \<Longrightarrow> new_file_transfer root plan m = Inr t \<Longrightarrow>
    \<not> has_prefix (butlast (ft_destination_path t)) (ft_staging_path t)"
  using new_transfer_paths [of root plan m t] by (auto simp: has_prefix_iff dest: arg_cong [of _ _ length])

lemma new_transfer_receiving:
  assumes new: "new_file_transfer root plan m = Inr t0" and root: "canonical root"
    and plan: "describes plan content" and m: "reliable m"
    and above: "no_file_above (mc_fs m) (butlast (ft_destination_path t0))"
    and old: "length (staged_bytes t0) \<le> length content" "no_collision plan content (staged_bytes t0)"
  shows "receiving t0 content t0"
proof -
  note paths = new_transfer_paths [OF new root]
  have recovered: "recover_verified_chunks (ft_files t0) (ft_staging_path t0) (ft_plan t0) = Inr (ft_confirmed t0)"
    using paths by (auto simp: ft_files_def)
  then have node: "ft_files t0 (ft_staging_path t0) \<noteq> Some Dir"
    by (auto simp: recover_verified_chunks_def)
  have found: "\<exists>c \<in> set (tp_chunks plan). ck_index c = i \<and> unat (ck_offset c) + ck_size c \<le> length (staged_bytes t0) \<and>
      sha256_hex (chunk_bytes c (staged_bytes t0)) = Inr (ck_sha256 c)" if "i \<in> ft_confirmed t0" for i
  proof (cases "ft_files t0 (ft_staging_path t0)")
    case None
    then show ?thesis
      using recovered that by (auto simp: recover_verified_chunks_def)
  next
    case (Some n)
    then obtain c where c: "n = File c"
      using node by (cases n) auto
    have "\<forall>c \<in> set (tp_chunks plan). unat (ck_offset c) + ck_size c < 2 ^ 64"
      using plan by (fastforce simp: describes_def)
    then show ?thesis
      using recover_chunks_sound [of "ft_files t0" "ft_staging_path t0" "length c" "tp_chunks plan" "{}" "ft_confirmed t0" c]
        recovered that Some c paths old(1) plan
      by (auto simp: recover_verified_chunks_def content_at_def staged_bytes_def describes_def)
  qed
  have index: "i < length (tp_chunks plan) \<and> tp_chunks plan ! i = c"
    if "c \<in> set (tp_chunks plan)" "ck_index c = i" for i c
    using validated_indices that paths by (auto simp: in_set_conv_nth)
  have "correct_at content t0 k" if i: "i \<in> ft_confirmed t0" and k: "in_chunk (tp_chunks plan ! i) k" for i k
  proof -
    obtain c where c: "c \<in> set (tp_chunks plan)" "tp_chunks plan ! i = c"
      "unat (ck_offset c) + ck_size c \<le> length (staged_bytes t0)"
      "sha256_hex (chunk_bytes c (staged_bytes t0)) = Inr (ck_sha256 c)"
      using found [OF i] index by blast
    have "chunk_bytes c (staged_bytes t0) = chunk_bytes c content"
      using old(2) c by (auto simp: no_collision_def)
    then have "chunk_bytes c (staged_bytes t0) ! (k - unat (ck_offset c)) = chunk_bytes c content ! (k - unat (ck_offset c))"
      by simp
    moreover have "k - unat (ck_offset c) < ck_size c"
      using k c by (auto simp: in_chunk_def)
    ultimately show ?thesis
      using k c old(1) by (simp add: in_chunk_def correct_at_def chunk_bytes_def)
  qed
  moreover have "ft_confirmed t0 \<subseteq> {..<length (tp_chunks plan)}"
    using found index by blast
  ultimately show ?thesis
    using m above node old paths
    by (auto simp: receiving_def same_transfer_def surroundings_def ft_files_def)
qed

text \<open>The chunks of the given indices, one after the other.\<close>

fun accept_all :: "byte list \<Rightarrow> nat list \<Rightarrow> (file_transfer, unit) call" where
  "accept_all content [] = c_return ()"
| "accept_all content (i # is) = (\<lambda>t. c_bind (accept_chunk i (chunk_bytes (tp_chunks (ft_plan t) ! i) content))
     (\<lambda>_. accept_all content is) t)"

lemma receive_chunks:
  assumes "receiving t0 content t" "describes (ft_plan t0) content" "set is \<subseteq> {..<length (tp_chunks (ft_plan t0))}"
    and paths: "\<not> has_prefix (butlast (ft_destination_path t0)) (ft_staging_path t0)"
  shows "\<exists>t'. accept_all content is t = (Inr (), t') \<and> receiving t0 content t' \<and>
    ft_confirmed t' = set is \<union> ft_confirmed t"
  using assms(1,3)
proof (induction "is" arbitrary: t)
  case (Cons i js)
  have same: "ft_plan t = ft_plan t0"
    using Cons.prems by (simp add: receiving_def same_transfer_def)
  obtain t1 where t1: "accept_chunk i (chunk_bytes (tp_chunks (ft_plan t0) ! i) content) t = (Inr (), t1)"
    "receiving t0 content t1" "ft_confirmed t1 = insert i (ft_confirmed t)"
    using receive_chunk [OF Cons.prems(1) assms(2) _ refl paths, of i] Cons.prems(2) by auto
  then show ?case
    using Cons.IH [OF t1(2)] Cons.prems(2) by (auto simp: same t1(1) c_bind_def)
qed simp

lemma complete_is_content:
  assumes "receiving t0 content t" "describes (ft_plan t0) content" "ft_confirmed t = {..<length (tp_chunks (ft_plan t0))}"
  shows "staged_bytes t = content"
proof (rule nth_equalityI)
  have correct: "correct_at content t k" if "k < length content" for k
    using assms that unfolding receiving_def describes_def same_transfer_def
    by (metis in_set_conv_nth lessThan_iff)
  show "length (staged_bytes t) = length content"
    using correct [of "length content - 1"] assms(1) by (cases "length content") (auto simp: receiving_def correct_at_def)
  then show "staged_bytes t ! k = content ! k" if "k < length (staged_bytes t)" for k
    using correct that by (simp add: correct_at_def)
qed

lemma finalize_ok:
  assumes t: "receiving t0 content t" "staged_bytes t = content" "transfer_complete t"
    and plan: "describes (ft_plan t0) content" "content \<noteq> []"
    and d: "ft_files t0 (ft_destination_path t0) \<noteq> Some Dir" "ft_staging_path t0 \<noteq> ft_destination_path t0"
      "ft_destination_path t0 \<noteq> []"
  shows "\<exists>t'. finalize_transfer t = (Inr (), t') \<and> same_transfer t0 t' \<and> reliable (ft_machine t') \<and>
    ft_files t' = (ft_files t)(ft_destination_path t0 := Some (File content), ft_staging_path t0 := None)"
proof -
  have same: "ft_plan t = ft_plan t0" "ft_destination_path t = ft_destination_path t0" "ft_staging_path t = ft_staging_path t0"
    using t by (auto simp: receiving_def same_transfer_def)
  have node: "ft_files t (ft_staging_path t0) = Some (File content)"
    using t plan(2) by (auto simp: staged_bytes_def receiving_def same split: option.splits fs_node.splits)
  have dest: "ft_files t (ft_destination_path t0) \<noteq> Some Dir"
    using t(1) d parent_not_below [OF d(3)] unfolding receiving_def surroundings_def by metis
  have "whole_file_matches t = Inr ()"
    using plan(1) node by (simp add: whole_file_matches_def content_at_def same describes_def)
  then have check: "c_check whole_file_matches t = (Inr (), t)"
    by (simp add: c_check_def)
  let ?m1 = "(ft_machine t)\<lparr>mc_calls := mc_calls (ft_machine t) @ [Os_flush (ft_staging_path t0)]\<rparr>"
  have m: "reliable (ft_machine t)"
    using t(1) by (simp add: receiving_def)
  have flush: "on_disk (flush_file (ft_staging_path t0)) t = (Inr (), t\<lparr>ft_machine := ?m1\<rparr>)"
    by (simp add: on_disk_def flush_ok [OF m])
  let ?fs = "(ft_files t)(ft_destination_path t0 := Some (File content), ft_staging_path t0 := None)"
  let ?m2 = "?m1\<lparr>mc_calls := mc_calls ?m1 @ [Os_replace (ft_staging_path t0) (ft_destination_path t0)], mc_fs := ?fs\<rparr>"
  have replace: "on_disk (atomic_replace (ft_staging_path t0) (ft_destination_path t0)) (t\<lparr>ft_machine := ?m1\<rparr>) =
      (Inr (), t\<lparr>ft_machine := ?m2\<rparr>)"
    using node dest d(2) m by (simp add: on_disk_def atomic_replace_def move_node ft_files_def regular_file_def reliable_do)
  have "finalize_transfer t = (Inr (), t\<lparr>ft_machine := ?m2\<rparr>)"
    using t(3) by (simp add: finalize_transfer_def c_bind_def check same flush replace)
  then show ?thesis
    using m t(1) by (simp add: receiving_def same_transfer_def ft_files_def)
qed

lemma set_missing: "set (missing_chunks t) = {..<length (tp_chunks (ft_plan t))} - ft_confirmed t"
  by (auto simp: missing_chunks_def)

lemma planned_not_empty: "validate_plan plan = Inr () \<Longrightarrow> describes plan content \<Longrightarrow> content \<noteq> []"
  by (auto simp: validate_plan_def describes_def result_simps)

text \<open>What a transfer needs to find on the machine.\<close>

definition ready_to_receive :: "byte list \<Rightarrow> file_transfer \<Rightarrow> bool" where
  "ready_to_receive content t \<longleftrightarrow> reliable (ft_machine t) \<and>
     no_file_above (ft_files t) (butlast (ft_destination_path t)) \<and> ft_files t (ft_destination_path t) \<noteq> Some Dir \<and>
     length (staged_bytes t) \<le> length content \<and> no_collision (ft_plan t) content (staged_bytes t)"

lemma delivery:
  assumes new: "new_file_transfer root plan m = Inr t0" and root: "canonical root"
    and plan: "describes plan content" and ready: "ready_to_receive content t0"
    and missing: "set (missing_chunks t0) \<subseteq> set is" "set is \<subseteq> {..<length (tp_chunks plan)}"
  shows "\<exists>t1 t. accept_all content is t0 = (Inr (), t1) \<and> missing_chunks t1 = [] \<and> finalize_transfer t1 = (Inr (), t) \<and>
    same_transfer t0 t \<and> reliable (ft_machine t) \<and> ft_files t (ft_destination_path t0) = Some (File content) \<and>
    ft_files t (ft_staging_path t0) = None \<and>
    (\<forall>p. p \<noteq> ft_destination_path t0 \<and> p \<noteq> ft_staging_path t0 \<longrightarrow> ft_files t p = mc_fs m p \<or>
      (mc_fs m p = None \<and> ft_files t p = Some Dir \<and> has_prefix (butlast (ft_destination_path t0)) p))"
proof -
  note paths = new_transfer_paths [OF new root]
  have start: "receiving t0 content t0"
    using new_transfer_receiving [OF new root plan] ready paths by (auto simp: ready_to_receive_def ft_files_def)
  have plan0: "describes (ft_plan t0) content"
    using plan paths by simp
  obtain t1 where t1: "accept_all content is t0 = (Inr (), t1)" "receiving t0 content t1"
    "ft_confirmed t1 = set is \<union> ft_confirmed t0"
    using receive_chunks [OF start plan0 _ staging_not_above [OF root new], of "is"] missing(2) paths by auto
  have all: "ft_confirmed t1 = {..<length (tp_chunks (ft_plan t0))}" and same: "ft_plan t1 = ft_plan t0"
    using t1 missing start paths by (auto simp: set_missing receiving_def same_transfer_def)
  have whole: "staged_bytes t1 = content" "transfer_complete t1" "content \<noteq> []"
    using complete_is_content [OF t1(2) plan0 all] all same planned_not_empty [OF _ plan] paths
    by (auto simp: transfer_complete_def)
  obtain t where t: "finalize_transfer t1 = (Inr (), t)" "same_transfer t0 t" "reliable (ft_machine t)"
    "ft_files t = (ft_files t1)(ft_destination_path t0 := Some (File content), ft_staging_path t0 := None)"
    using finalize_ok [OF t1(2) whole(1,2) plan0 whole(3)] ready paths by (auto simp: ready_to_receive_def)
  have "surroundings t0 t1" "ft_files t0 = mc_fs m" "ft_staging_path t0 \<noteq> ft_destination_path t0"
    using t1(2) paths by (auto simp: receiving_def ft_files_def)
  moreover have "missing_chunks t1 = []"
    using all same by (simp add: missing_chunks_def filter_empty_conv)
  ultimately show ?thesis
    using t1(1) t by (auto simp: surroundings_def)
qed

text \<open>C8. On a machine whose calls succeed, a transfer delivers: whatever part of the content an earlier attempt has left
  in the staging file, once the missing chunks have come, in any order and with any repetitions, nothing is missing,
  finalizing returns, the destination holds exactly the planned content and the staging file is gone.\<close>

theorem transfer_delivers:
  assumes "new_file_transfer root plan m = Inr t0" and "canonical root"
    and "describes plan content" and "ready_to_receive content t0"
    and "set (missing_chunks t0) \<subseteq> set is" and "set is \<subseteq> {..<length (tp_chunks plan)}"
  shows "\<exists>t1 t. accept_all content is t0 = (Inr (), t1) \<and> missing_chunks t1 = [] \<and>
    finalize_transfer t1 = (Inr (), t) \<and> ft_files t (ft_destination_path t0) = Some (File content) \<and>
    ft_files t (ft_staging_path t0) = None"
  using delivery [OF assms] by blast

definition sample_content :: "byte list" where
  "sample_content = [0x61, 0x62]"

definition sample_plan :: transfer_plan where
  "sample_plan = \<lparr>tp_transfer_id = ''t1'', tp_relative_path = ''a'', tp_total_size = 2,
     tp_sha256 = to_hex (sha256_reference sample_content),
     tp_chunks = [\<lparr>ck_index = 0, ck_offset = 0, ck_size = 1, ck_sha256 = to_hex (sha256_reference [0x61])\<rparr>,
       \<lparr>ck_index = 1, ck_offset = 1, ck_size = 1, ck_sha256 = to_hex (sha256_reference [0x62])\<rparr>]\<rparr>"

definition empty_machine :: machine where
  "empty_machine = \<lparr>mc_os = \<lparr>os_fails = \<lambda>_ _. None, os_left = \<lambda>_ _. None,
       os_executes = \<lambda>_ _. \<lparr>be_exit_code = 0, be_stdout_log = [], be_stderr_log = [], be_elapsed = 0,
         be_timed_out = False, be_cancelled = False, be_stdout_truncated = False, be_stderr_truncated = False\<rparr>,
       os_changes = \<lambda>_ _ fs. fs\<rparr>, mc_fs = Map.empty, mc_calls = []\<rparr>"

definition sample_transfer :: file_transfer where
  "sample_transfer = \<lparr>ft_machine = empty_machine, ft_root = [''srv''], ft_plan = sample_plan,
     ft_destination_path = [''srv'', ''a''], ft_staging_path = [''srv'', ''.a.rwn-t1.part''], ft_confirmed = {}\<rparr>"

lemma sample_digests:
  "sha256_hex [0x61] = Inr (to_hex (sha256_reference [0x61]))" "is_sha256_hex (to_hex (sha256_reference [0x61]))"
  "sha256_hex [0x62] = Inr (to_hex (sha256_reference [0x62]))" "is_sha256_hex (to_hex (sha256_reference [0x62]))"
  "sha256_file (Some sample_content) = Inr (to_hex (sha256_reference sample_content))"
  "is_sha256_hex (to_hex (sha256_reference sample_content))"
  using sha256_file_names_content [of "[0x61]"] sha256_file_names_content [of "[0x62]"]
    sha256_file_names_content [of sample_content]
  by (simp_all add: sample_content_def)

lemma sample_path: "is_canonical_workspace_path ''a''" "path_components ''a'' = [''a'']"
proof -
  show "path_components ''a'' = [''a'']"
    by (simp add: path_components.simps [of "''a''"] path_components.simps [of "[]"])
  then show "is_canonical_workspace_path ''a''"
    by (simp add: is_canonical_workspace_path_def component_ok_def reserved_device_def numbered_device_def to_upper_def
        Let_def)
qed

lemma sample_plan_valid: "validate_plan sample_plan = Inr ()"
  using sample_digests sample_path
  by (simp add: validate_plan_def sample_plan_def valid_transfer_id_def is_alnum_def is_digit_def
      max_chunk_size_def)

lemma sample_transfer_new: "new_file_transfer [''srv''] sample_plan empty_machine = Inr sample_transfer"
  using sample_plan_valid sample_path scope_resolve_plain [of "[''srv'']" "[''a'']"]
  by (simp add: new_file_transfer_def sample_transfer_def Let_def sample_plan_def staging_name_def canonical_def
      scope_contains_resolved_def weakly_canonical_def recover_verified_chunks_def empty_machine_def)

lemma sample_plan_describes: "describes sample_plan sample_content"
  using sample_digests
  by (auto simp: describes_def sample_plan_def sample_content_def in_chunk_def chunk_bytes_def less_2_cases_iff)

theorem transfer_delivers_witness:
  "\<exists>t1 t. accept_all sample_content [1, 0, 1] sample_transfer = (Inr (), t1) \<and> missing_chunks t1 = [] \<and>
    finalize_transfer t1 = (Inr (), t) \<and> ft_files t (ft_destination_path sample_transfer) = Some (File sample_content) \<and>
    ft_files t (ft_staging_path sample_transfer) = None"
proof (rule transfer_delivers [OF sample_transfer_new _ sample_plan_describes])
  show "ready_to_receive sample_content sample_transfer"
    using sample_digests
    by (simp add: ready_to_receive_def sample_transfer_def empty_machine_def reliable_def no_file_above_def ft_files_def
        regular_file_def staged_bytes_def no_collision_def sample_plan_def chunk_bytes_def sha256_hex_def)
qed (auto simp: canonical_def missing_chunks_def sample_transfer_def sample_plan_def)

text \<open>C7. Whatever chunks are offered, with right or wrong content, in any order and however often, whichever calls of the
  machine fail, and whatever other programs do to the other files in between: the destination lies below the root,
  and holds either what it held when the transfer began or a file of exactly the planned size and digest. It
  is the latter, and the staging file is gone, once finalizing has returned.\<close>

theorem transfer_never_leaves_partial_file:
  assumes "new_file_transfer root plan m = Inr t0" and "canonical root"
  shows "destination_sound t0 (foldl transfer_step t0 events) \<and> has_prefix (ft_destination_path t0) root \<and>
    (finalize_transfer (foldl transfer_step t0 events) = (Inr (), t) \<longrightarrow>
      planned plan (ft_files t (ft_destination_path t0)) \<and> ft_files t (ft_staging_path t0) = None)"
  by (rule destination_always_sound [OF assms])

theorem transfer_never_leaves_partial_file_witness:
  "destination_sound sample_transfer (foldl transfer_step sample_transfer
      [Accept_chunk 1 [0x62], Finalize, Other_programs (Map.empty([''srv'', ''.a.rwn-t1.part''] \<mapsto> File [0x63]))]) \<and>
    has_prefix (ft_destination_path sample_transfer) [''srv'']"
  using transfer_never_leaves_partial_file [OF sample_transfer_new, of
      "[Accept_chunk 1 [0x62], Finalize, Other_programs (Map.empty([''srv'', ''.a.rwn-t1.part''] \<mapsto> File [0x63]))]"
      sample_transfer]
  by (simp add: canonical_def)

section \<open>A longer staging file\<close>

text \<open>The staging file is a file of some length.\<close>

definition staging_length :: "file_transfer \<Rightarrow> nat \<Rightarrow> file_transfer \<Rightarrow> bool" where
  "staging_length t0 n t \<longleftrightarrow> same_transfer t0 t \<and> reliable (ft_machine t) \<and>
     (\<exists>c. ft_files t (ft_staging_path t0) = Some (File c) \<and> length c = n)"

lemma accept_keeps_length:
  assumes t: "staging_length t0 n t" and plan: "describes (ft_plan t0) content" "length content \<le> n"
  shows "staging_length t0 n (snd (accept_chunk index bytes t))"
proof (cases "check_chunk index bytes t")
  case (Inl e)
  then show ?thesis
    using t by (simp add: accept_chunk_def)
next
  case (Inr c)
  have same: "ft_plan t = ft_plan t0" "ft_staging_path t = ft_staging_path t0"
    using t by (auto simp: staging_length_def same_transfer_def)
  have c: "c \<in> set (tp_chunks (ft_plan t0))" "length bytes = ck_size c"
    using Inr by (auto simp: check_chunk_def chunk_descriptor_at_def result_simps same split: if_splits)
  then have fits: "unat (ck_offset c) + length bytes \<le> n"
    using plan by (fastforce simp: describes_def)
  have mkdir: "c_keeps (staging_length t0 n) (on_disk (create_directories p))" for p
    by (auto simp: c_keeps_def c_post_def staging_length_def on_disk_def create_directories_def reliable_do ft_files_def
        same_transfer_def)
  have create: "c_keeps (staging_length t0 n) create_staging"
    by (auto simp: c_keeps_def c_post_def staging_length_def create_staging_def same_transfer_def)
  have put: "c_keeps (staging_length t0 n) (on_disk (write_at (ft_staging_path t0) (unat (ck_offset c)) bytes))"
    using fits
    by (auto simp: c_keeps_def c_post_def staging_length_def on_disk_def write_at_def content_at_def reliable_do
        ft_files_def same_transfer_def length_overwrite)
  have flush: "c_keeps (staging_length t0 n) (on_disk (flush_file p))" for p
    by (auto simp: c_keeps_def c_post_def staging_length_def on_disk_def flush_ok ft_files_def same_transfer_def)
  have "c_keeps (staging_length t0 n)
      (c_bind (on_disk (create_directories (butlast (ft_destination_path t)))) (\<lambda>_. c_bind create_staging (\<lambda>_.
       c_bind (c_check (\<lambda>_. throw_if (ck_offset c > streamoff_max) (Length_error ''chunk offset exceeds stream limit''))) (\<lambda>_.
       c_bind (on_disk (write_at (ft_staging_path t0) (unat (ck_offset c)) bytes)) (\<lambda>_.
       c_bind (on_disk (flush_file (ft_staging_path t0))) (\<lambda>_.
       c_modify (\<lambda>t. t\<lparr>ft_confirmed := insert index (ft_confirmed t)\<rparr>)))))))" (is "c_keeps _ ?m")
    by (intro c_keeps_bind mkdir create put flush keeps_check c_keeps_modify)
      (auto simp: staging_length_def same_transfer_def ft_files_def)
  then have "staging_length t0 n (snd (?m t))"
    using t by (rule keeps_snd)
  moreover have "accept_chunk index bytes t = ?m t"
    by (simp add: accept_chunk_def Inr same)
  ultimately show ?thesis
    by simp
qed

lemma finalize_refuses:
  assumes t: "staging_length t0 n t" and plan: "describes (ft_plan t0) content" "length content < n" "n < 2 ^ 64"
  shows "\<exists>e. finalize_transfer t = (Inl e, t)"
proof (cases "transfer_complete t")
  case True
  have same: "ft_plan t = ft_plan t0" "ft_staging_path t = ft_staging_path t0"
    using t by (auto simp: staging_length_def same_transfer_def)
  have "(of_nat n :: u64) \<noteq> of_nat (length content)"
    using plan(2,3) by (simp add: word_unat_eq_iff unat_of_nat)
  then have "\<exists>e. whole_file_matches t = Inl e"
    using t plan(1) by (auto simp: whole_file_matches_def staging_length_def content_at_def same describes_def)
  then show ?thesis
    by (auto simp: finalize_transfer_def True c_bind_def c_check_def)
qed (simp add: finalize_transfer_def)

text \<open>When a staging file of the same name is longer than the planned content, the transfer can never be
  finalized, not even on a machine whose calls all succeed: no chunk makes the file shorter, every finalizing throws,
  and the destination stays what it was. Missing chunks cannot be the reason: sending all of them changes nothing.\<close>

theorem oversized_staging_never_finalized:
  assumes "new_file_transfer root plan m = Inr t0" and "canonical root"
    and "describes plan content" and "reliable m"
    and "length content < length (staged_bytes t0)" and "length (staged_bytes t0) < 2 ^ 64"
  shows "\<exists>e. finalize_transfer (foldl (\<lambda>t (i, bytes). snd (accept_chunk i bytes t)) t0 chunks) =
    (Inl e, foldl (\<lambda>t (i, bytes). snd (accept_chunk i bytes t)) t0 chunks)"
proof -
  note paths = new_transfer_paths [OF assms(1,2)]
  have plan: "describes (ft_plan t0) content"
    using paths assms(3) by simp
  have "\<exists>c. ft_files t0 (ft_staging_path t0) = Some (File c)"
    using assms(5) by (auto simp: staged_bytes_def split: option.splits fs_node.splits)
  then have start: "staging_length t0 (length (staged_bytes t0)) t0"
    using assms(4) paths by (auto simp: staging_length_def same_transfer_def staged_bytes_def)
  have "staging_length t0 (length (staged_bytes t0)) (foldl (\<lambda>t (i, bytes). snd (accept_chunk i bytes t)) t0 chunks)"
    by (induction chunks rule: List.rev_induct)
      (use start accept_keeps_length [OF _ plan] assms(5) in \<open>auto simp: case_prod_beta\<close>)
  then show ?thesis
    using finalize_refuses [OF _ plan] assms(5,6) by blast
qed

definition stale_transfer :: file_transfer where
  "stale_transfer = sample_transfer\<lparr>ft_machine := empty_machine\<lparr>mc_fs :=
       Map.empty([''srv'', ''.a.rwn-t1.part''] \<mapsto> File [0x61, 0x62, 0x63])\<rparr>, ft_confirmed := {0, 1}\<rparr>"

lemma stale_transfer_new: "new_file_transfer [''srv''] sample_plan (ft_machine stale_transfer) = Inr stale_transfer"
proof -
  have "recover_verified_chunks (mc_fs (ft_machine stale_transfer)) [''srv'', ''.a.rwn-t1.part''] sample_plan = Inr {0, 1}"
    using sample_digests
    by (auto simp: recover_verified_chunks_def stale_transfer_def sample_plan_def read_range_def content_at_def
        streamoff_max_def)
  then show ?thesis
    using sample_plan_valid sample_path scope_resolve_plain [of "[''srv'']" "[''a'']"]
    by (simp add: new_file_transfer_def Let_def sample_plan_def staging_name_def canonical_def
        scope_contains_resolved_def weakly_canonical_def stale_transfer_def sample_transfer_def)
qed

theorem oversized_staging_never_finalized_witness:
  "transfer_complete stale_transfer \<and>
    (\<exists>e. finalize_transfer (foldl (\<lambda>t (i, bytes). snd (accept_chunk i bytes t)) stale_transfer [(0, [0x61]), (1, [0x62])]) =
      (Inl e, foldl (\<lambda>t (i, bytes). snd (accept_chunk i bytes t)) stale_transfer [(0, [0x61]), (1, [0x62])]))"
proof
  show "transfer_complete stale_transfer"
    by (simp add: transfer_complete_def stale_transfer_def sample_transfer_def sample_plan_def)
  show "\<exists>e. finalize_transfer (foldl (\<lambda>t (i, bytes). snd (accept_chunk i bytes t)) stale_transfer [(0, [0x61]), (1, [0x62])]) =
      (Inl e, foldl (\<lambda>t (i, bytes). snd (accept_chunk i bytes t)) stale_transfer [(0, [0x61]), (1, [0x62])])"
    by (rule oversized_staging_never_finalized [OF stale_transfer_new _ sample_plan_describes])
      (auto simp: canonical_def reliable_def stale_transfer_def sample_transfer_def empty_machine_def staged_bytes_def
        ft_files_def sample_content_def)
qed

end
