(* ===== verification/Durable_File.thy ===== *)
theory Durable_File
  imports File_Transfer Text_Format
begin

text \<open>
  Records kept in files, as the stores of \<open>core/\<close> keep them: written to a staging file, flushed, and moved over the
  file they replace. The locale \<open>durable_record\<close> is what a text format owes its store.
\<close>

definition write_new_file :: "path \<Rightarrow> byte list \<Rightarrow> (machine, unit) call" where
  "write_new_file p bytes = c_bind (create_file p) (\<lambda>_. c_bind (write_at p 0 bytes) (\<lambda>_. flush_file p))"

definition with_directories :: "path \<Rightarrow> files \<Rightarrow> files" where
  "with_directories p fs = (\<lambda>q. if has_prefix p q \<and> fs q = None then Some Dir else fs q)"

abbreviation files_are :: "files \<Rightarrow> machine \<Rightarrow> bool" where
  "files_are fs m \<equiv> mc_fs m = fs"

lemma post_mkdir_files:
  "c_post (files_are fs) (create_directories p) (\<lambda>_. files_are (with_directories p fs)) (files_are fs)"
  by (auto simp: c_post_def create_directories_def os_do_def with_directories_def Let_def split: option.splits)

lemma post_create:
  "c_post (files_are fs) (create_file p) (\<lambda>_. files_are (fs(p \<mapsto> File []))) (\<lambda>m. \<exists>n. files_are (fs(p := n)) m)"
  unfolding create_file_def
  by (intro post_os_do) (auto simp: left_file_def split: option.splits intro: exI [of _ "fs p"])

lemma post_write_empty:
  "c_post (files_are (fs(p \<mapsto> File []))) (write_at p 0 bytes) (\<lambda>_. files_are (fs(p \<mapsto> File bytes)))
     (\<lambda>m. \<exists>n. files_are (fs(p := n)) m)"
  by (auto simp: c_post_def write_at_def content_at_def os_do_def left_file_def overwrite_def Let_def split: option.splits)

lemma post_flush_files:
  "c_post (files_are fs) (flush_file p) (\<lambda>_. files_are fs) (files_are fs)"
  unfolding flush_file_def by (intro post_os_do) simp_all

lemma post_write_new_file:
  "c_post (files_are fs) (write_new_file p bytes) (\<lambda>_. files_are (fs(p \<mapsto> File bytes)))
     (\<lambda>m. \<exists>n. files_are (fs(p := n)) m)"
  unfolding write_new_file_def
  by (intro c_post_bind [OF post_create] c_post_bind [OF post_write_empty] c_post_weaken [OF post_flush_files]) auto

lemma post_move:
  "s \<noteq> d \<Longrightarrow> c_post (files_are fs) (atomic_replace s d) (\<lambda>_. files_are (fs(d := fs s, s := None)))
     (\<lambda>m. files_are fs m \<or> files_are (fs(d := fs s, s := None)) m)"
  by (auto simp: c_post_def atomic_replace_def move_node os_do_def Let_def split: option.splits)

text \<open>Writing a staging file and moving it: all or nothing, up to what is left in the staging file. A call that throws
  may have done it all.\<close>

lemma post_write_and_move:
  assumes "s \<noteq> d"
  shows "c_post (files_are fs) (c_bind (write_new_file s bytes) (\<lambda>_. atomic_replace s d))
    (\<lambda>_. files_are (fs(d \<mapsto> File bytes, s := None)))
    (\<lambda>m. (\<exists>n. files_are (fs(s := n)) m) \<or> files_are (fs(d \<mapsto> File bytes, s := None)) m)"
  by (rule c_post_bind [OF c_post_weaken [OF post_write_new_file]], assumption, assumption, blast, rule c_post_weaken [OF post_move [OF assms, of "fs(s \<mapsto> File bytes)"]])
    (use assms in \<open>auto simp: fun_upd_twist\<close>)

text \<open>
  A text format and where it may be kept: whatever it writes it reads back, as far as the format keeps it, and
  reading depends on that file alone.
\<close>

locale durable_record =
  fixes render :: "'r \<Rightarrow> string result"
    and load :: "files \<Rightarrow> path \<Rightarrow> 'r result"
    and kept :: "'r \<Rightarrow> 'r"
    and fits :: "'r \<Rightarrow> path \<Rightarrow> bool"
  assumes load_written:
      "fits r p \<Longrightarrow> render r = Inr text \<Longrightarrow> fs p = Some (File (as_bytes text)) \<Longrightarrow> load fs p = Inr (kept r)"
    and load_local: "fs p = fs' p \<Longrightarrow> load fs p = load fs' p"
begin

text \<open>A record that is written over another one: afterwards it is the new one, or, when the call threw, still the old one.\<close>

lemma post_store:
  assumes "s \<noteq> d" and "render r = Inr text" and "fits r d"
  shows "c_post (files_are fs) (c_bind (write_new_file s (as_bytes text)) (\<lambda>_. atomic_replace s d))
    (\<lambda>_ m. files_are (fs(d \<mapsto> File (as_bytes text), s := None)) m \<and> load (mc_fs m) d = Inr (kept r))
    (\<lambda>m. (\<exists>n. files_are (fs(s := n)) m) \<and> load (mc_fs m) d = load fs d \<or>
      files_are (fs(d \<mapsto> File (as_bytes text), s := None)) m \<and> load (mc_fs m) d = Inr (kept r))"
proof (rule c_post_weaken [OF post_write_and_move [OF assms(1)]])
  fix m :: machine
  have moved: "load (mc_fs m) d = Inr (kept r)" if "files_are (fs(d \<mapsto> File (as_bytes text), s := None)) m"
    using that assms(1) by (intro load_written [OF assms(3,2)]) simp
  then show "files_are (fs(d \<mapsto> File (as_bytes text), s := None)) m \<Longrightarrow>
      files_are (fs(d \<mapsto> File (as_bytes text), s := None)) m \<and> load (mc_fs m) d = Inr (kept r)"
    by blast
  have "load (mc_fs m) d = load fs d" if "files_are (fs(s := n)) m" for n
    using that assms(1) by (intro load_local) simp
  then show "(\<exists>n. files_are (fs(s := n)) m) \<or> files_are (fs(d \<mapsto> File (as_bytes text), s := None)) m \<Longrightarrow>
      (\<exists>n. files_are (fs(s := n)) m) \<and> load (mc_fs m) d = load fs d \<or>
      files_are (fs(d \<mapsto> File (as_bytes text), s := None)) m \<and> load (mc_fs m) d = Inr (kept r)"
    using moved by blast
qed

end

end
