(* ===== verification/Pairing_Store.thy ===== *)
theory Pairing_Store
  imports Durable_File
begin

text \<open>
  \<open>core/src/pairing_store.cpp\<close>: the one paired device of a node, kept in a text file that is replaced as a whole.
  A time point is an unbounded integer of microseconds, the file keeps seconds: the conversion of the seconds that are
  read is exact here, where the duration of the system clock overflows above \<open>2 ^ 63 / 10 ^ 6\<close> seconds. There are no symbolic links, so \<open>reject_link\<close> never
  throws.
\<close>

section \<open>The text of a device\<close>

definition maximum_state_bytes :: nat where
  "maximum_state_bytes = 16 * 1024"

definition store_identifier :: "string \<Rightarrow> bool" where
  "store_identifier value \<longleftrightarrow> value \<noteq> [] \<and> length value \<le> 64 \<and>
     list_all (\<lambda>c. is_alnum c \<or> c = CHR ''-'' \<or> c = CHR ''_'' \<or> c = CHR ''.'') value"

definition validate_device :: "paired_device \<Rightarrow> unit result" where
  "validate_device dev =
     (let display_valid = dev_display_name dev \<noteq> [] \<and> length (dev_display_name dev) \<le> 128 \<and>
        list_all (\<lambda>c. (of_char c :: nat) \<ge> 0x20 \<and> (of_char c :: nat) \<noteq> 0x7f) (dev_display_name dev)
      in throw_if
        (\<not> store_identifier (dev_id dev) \<or> \<not> display_valid \<or> \<not> is_canonical_fingerprint (dev_fingerprint dev) \<or>
         cert_device_id (dev_certificate dev) \<noteq> dev_id dev \<or>
         cert_fingerprint (dev_certificate dev) \<noteq> dev_fingerprint dev \<or>
         \<not> store_identifier (cert_serial (dev_certificate dev)) \<or>
         cert_not_before (dev_certificate dev) \<ge> cert_not_after (dev_certificate dev))
        (Invalid_argument ''pairing state device is invalid''))"

definition hex_digit :: "nat \<Rightarrow> char" where
  "hex_digit n = (if n < 10 then char_of (48 + n) else char_of (87 + n))"

definition hex_encode :: "string \<Rightarrow> string" where
  "hex_encode input = concat (map (\<lambda>c. [hex_digit (of_char c div 16), hex_digit (of_char c mod 16)]) input)"

definition nibble :: "char \<Rightarrow> nat result" where
  "nibble c =
     (if is_digit c then ok (of_char c - 48)
      else if 97 \<le> (of_char c :: nat) \<and> (of_char c :: nat) \<le> 102 then ok (of_char c - 97 + 10)
      else throw (Invalid_argument ''pairing state hex value is invalid''))"

fun decode_pairs :: "string \<Rightarrow> string result" where
  "decode_pairs (a # b # rest) = and_then (nibble a) (\<lambda>high. and_then (nibble b) (\<lambda>low.
     and_then (decode_pairs rest) (\<lambda>cs. ok (char_of (high * 16 + low) # cs))))"
| "decode_pairs _ = ok []"

definition hex_decode :: "string \<Rightarrow> string result" where
  "hex_decode input =
     (if input = [] \<or> length input > 256 \<or> length input mod 2 \<noteq> 0
      then throw (Invalid_argument ''pairing state display name is invalid'')
      else decode_pairs input)"

text \<open>\<open>std::from_chars\<close> of a signed 64-bit number, of the whole text.\<close>

definition parse_integer :: "string \<Rightarrow> int result" where
  "parse_integer input =
     (let negative = input \<noteq> [] \<and> hd input = CHR ''-''; ds = (if negative then tl input else input);
          magnitude = digits_value ds
      in if ds = [] \<or> \<not> list_all is_digit ds \<or> (if negative then magnitude > 2 ^ 63 else magnitude \<ge> 2 ^ 63)
         then throw (Invalid_argument ''pairing state integer is invalid'')
         else ok (if negative then - int magnitude else int magnitude))"

text \<open>The fields of the text; every line must be ended.\<close>

definition pairing_field :: "string \<Rightarrow> (string \<times> string) option" where
  "pairing_field line = (if line = [] \<or> CHR 0x0D \<in> set line then None else split_field line)"

definition parse_pairing_fields :: "string \<Rightarrow> (string \<rightharpoonup> string) result" where
  "parse_pairing_fields contents =
     (let unterminated = contents \<noteq> [] \<and> last contents \<noteq> CHR 0x0A; lines = file_lines contents
      in and_then (read_fields pairing_field (Invalid_argument ''pairing state line is invalid'')
           (Invalid_argument ''pairing state field is duplicated'') (if unterminated then butlast lines else lines) Map.empty)
         (\<lambda>fm. if unterminated then throw (Invalid_argument ''pairing state line is unterminated'') else ok fm))"

definition take_pairing :: "string \<Rightarrow> (string \<rightharpoonup> string) \<Rightarrow> (string \<times> (string \<rightharpoonup> string)) result" where
  "take_pairing = take_field (Invalid_argument ''pairing state field is missing'')"

text \<open>The cast to seconds, toward zero.\<close>

definition to_seconds :: "time_point \<Rightarrow> int" where
  "to_seconds t = (if t < 0 then - ((- t) div 1000000) else t div 1000000)"

definition serialize_device :: "paired_device \<Rightarrow> string result" where
  "serialize_device dev = and_then (validate_device dev) (\<lambda>_.
     let not_before = to_seconds (cert_not_before (dev_certificate dev));
         not_after = to_seconds (cert_not_after (dev_certificate dev))
     in if not_before < 0 \<or> not_after \<le> not_before
        then throw (Invalid_argument ''pairing state certificate time is invalid'')
        else ok (render_fields
          [(''schema_version'', ''1''),
           (''device_id'', dev_id dev),
           (''display_name_hex'', hex_encode (dev_display_name dev)),
           (''certificate_sha256'', dev_fingerprint dev),
           (''certificate_serial'', cert_serial (dev_certificate dev)),
           (''not_before_unix'', decimal (nat not_before)),
           (''not_after_unix'', decimal (nat not_after)),
           (''revoked'', if dev_revoked dev then ''1'' else ''0'')]))"

definition deserialize_device :: "string \<Rightarrow> paired_device result" where
  "deserialize_device contents =
     and_then (parse_pairing_fields contents) (\<lambda>fm.
     and_then (take_pairing ''schema_version'' fm) (\<lambda>(schema, fm).
     if schema \<noteq> ''1'' then throw (Invalid_argument ''pairing state schema is unsupported'')
     else and_then (take_pairing ''device_id'' fm) (\<lambda>(did, fm).
     and_then (take_pairing ''display_name_hex'' fm) (\<lambda>(hex, fm).
     and_then (hex_decode hex) (\<lambda>display_name.
     and_then (take_pairing ''certificate_sha256'' fm) (\<lambda>(fingerprint, fm).
     and_then (take_pairing ''certificate_serial'' fm) (\<lambda>(serial, fm).
     and_then (take_pairing ''not_before_unix'' fm) (\<lambda>(before_text, fm).
     and_then (parse_integer before_text) (\<lambda>not_before.
     and_then (take_pairing ''not_after_unix'' fm) (\<lambda>(after_text, fm).
     and_then (parse_integer after_text) (\<lambda>not_after.
     and_then (take_pairing ''revoked'' fm) (\<lambda>(revoked, fm).
     if fm \<noteq> Map.empty \<or> (revoked \<noteq> ''0'' \<and> revoked \<noteq> ''1'') \<or> not_before < 0 \<or> not_after \<le> not_before
     then throw (Invalid_argument ''pairing state contains invalid fields'')
     else
       let dev = \<lparr>dev_id = did, dev_display_name = display_name, dev_fingerprint = fingerprint,
         dev_certificate = \<lparr>cert_device_id = did, cert_fingerprint = fingerprint, cert_serial = serial,
           cert_not_before = not_before * 1000000, cert_not_after = not_after * 1000000\<rparr>,
         dev_revoked = (revoked = ''1'')\<rparr>
       in and_then (validate_device dev) (\<lambda>_. ok dev)))))))))))))"

section \<open>The store\<close>

record pairing_store =
  pst_machine :: machine
  pst_root :: path
  pst_state_path :: path
  pst_staging_path :: path

definition on_pairing_disk :: "(machine, 'a) call \<Rightarrow> (pairing_store, 'a) call" where
  "on_pairing_disk op s = (case op (pst_machine s) of (r, m) \<Rightarrow> (r, s\<lparr>pst_machine := m\<rparr>))"

definition pst_files :: "pairing_store \<Rightarrow> files" where
  "pst_files s = mc_fs (pst_machine s)"

definition resolve_state_path :: "path \<Rightarrow> fs_path \<Rightarrow> path result" where
  "resolve_state_path root rel =
     (if (\<not> fp_absolute rel \<and> fp_parts rel = []) \<or> fp_absolute rel
      then throw (Invalid_argument ''pairing state path must be relative'')
      else scope_resolve root rel)"

text \<open>\<open>relative_state_file.string() + ".staging"\<close>.\<close>

definition staging_file :: "fs_path \<Rightarrow> fs_path" where
  "staging_file rel = (if fp_parts rel = [] then rel\<lparr>fp_parts := [''.staging'']\<rparr>
     else rel\<lparr>fp_parts := butlast (fp_parts rel) @ [last (fp_parts rel) @ ''.staging'']\<rparr>)"

definition new_pairing_store :: "fs_path \<Rightarrow> fs_path \<Rightarrow> machine \<Rightarrow> pairing_store result \<times> machine" where
  "new_pairing_store root relative_state_file m =
     (case (if \<not> fp_absolute root then throw (Invalid_argument ''pairing root must be absolute'')
            else and_then (new_workspace_scope [] root) (\<lambda>scope.
              and_then (resolve_state_path scope relative_state_file) (\<lambda>state_path.
              and_then (resolve_state_path scope (staging_file relative_state_file)) (\<lambda>staging_path.
              ok (scope, state_path, staging_path))))) of
       Inl e \<Rightarrow> (throw e, m)
     | Inr (scope, state_path, staging_path) \<Rightarrow>
         c_bind (create_directories scope) (\<lambda>_.
         c_bind (create_directories (butlast state_path)) (\<lambda>_ m'.
         (ok \<lparr>pst_machine = m', pst_root = scope, pst_state_path = state_path, pst_staging_path = staging_path\<rparr>, m'))) m)"

definition pairing_exists :: "pairing_store \<Rightarrow> bool" where
  "pairing_exists s \<longleftrightarrow> regular_file (pst_files s) (pst_state_path s)"

definition device_load :: "files \<Rightarrow> path \<Rightarrow> paired_device result" where
  "device_load fs p = (case content_at fs p of
     None \<Rightarrow> throw (Invalid_argument ''pairing state file is invalid'')
   | Some c \<Rightarrow> if length c > maximum_state_bytes then throw (Invalid_argument ''pairing state file is invalid'')
       else deserialize_device (string_of_bytes c))"

definition pairing_load :: "pairing_store \<Rightarrow> paired_device result" where
  "pairing_load s = device_load (pst_files s) (pst_state_path s)"

definition pairing_persist :: "paired_device \<Rightarrow> bool \<Rightarrow> (pairing_store, unit) call" where
  "pairing_persist dev require_absent s =
     (case validate_device dev of Inl e \<Rightarrow> (throw e, s) | Inr _ \<Rightarrow>
      if require_absent \<and> pst_files s (pst_state_path s) \<noteq> None
      then (throw (Invalid_argument ''pairing state already exists''), s)
      else if pst_files s (pst_staging_path s) \<noteq> None
      then (throw (Invalid_argument ''pairing staging file already exists''), s)
      else case serialize_device dev of Inl e \<Rightarrow> (throw e, s) | Inr contents \<Rightarrow>
        on_pairing_disk (c_bind (write_new_file (pst_staging_path s) (as_bytes contents)) (\<lambda>_.
          atomic_replace (pst_staging_path s) (pst_state_path s))) s)"

definition pairing_create :: "paired_device \<Rightarrow> (pairing_store, unit) call" where
  "pairing_create dev = pairing_persist dev True"

definition pairing_replace_revoked :: "paired_device \<Rightarrow> (pairing_store, unit) call" where
  "pairing_replace_revoked dev s =
     (case and_then (validate_device dev) (\<lambda>_. pairing_load s) of
       Inl e \<Rightarrow> (throw e, s)
     | Inr current \<Rightarrow>
         if \<not> dev_revoked current \<or> dev_revoked dev \<or> dev_id current \<noteq> dev_id dev
         then (throw (Invalid_argument ''pairing rotation requires the same revoked device''), s)
         else pairing_persist dev False s)"

definition pairing_revoke :: "string \<Rightarrow> (pairing_store, paired_device) call" where
  "pairing_revoke device_id s =
     (case pairing_load s of
       Inl e \<Rightarrow> (throw e, s)
     | Inr dev \<Rightarrow>
         if dev_id dev \<noteq> device_id then (throw (Invalid_argument ''unknown device cannot be revoked''), s)
         else if dev_revoked dev then (ok dev, s)
         else c_bind (pairing_persist (dev\<lparr>dev_revoked := True\<rparr>) False)
           (\<lambda>_. c_return (dev\<lparr>dev_revoked := True\<rparr>)) s)"

section \<open>What is written is read back\<close>

lemma nibble_hex_digit: "n < 16 \<Longrightarrow> nibble (hex_digit n) = Inr n"
  by (auto simp: nibble_def hex_digit_def is_digit_def)

lemma char_high_nibble: "(of_char c :: nat) div 16 < 16"
  by (rule less_mult_imp_div_less) simp

lemma decode_hex_encode: "decode_pairs (hex_encode s) = Inr s"
proof (induction s)
  case (Cons c s)
  have "nibble (hex_digit (of_char c div 16)) = Inr (of_char c div 16)"
    "nibble (hex_digit (of_char c mod 16)) = Inr (of_char c mod 16)"
    using char_high_nibble [of c] by (auto intro: nibble_hex_digit)
  then show ?case
    using Cons by (simp add: hex_encode_def)
qed (simp add: hex_encode_def)

lemma length_hex_encode: "length (hex_encode s) = 2 * length s"
  by (induction s) (simp_all add: hex_encode_def)

lemma hex_digit_set: "c \<in> set (hex_encode s) \<Longrightarrow> \<exists>n < 16. c = hex_digit n"
proof -
  assume "c \<in> set (hex_encode s)"
  then obtain x where "c = hex_digit (of_char x div 16) \<or> c = hex_digit (of_char x mod 16)"
    by (auto simp: hex_encode_def)
  then show ?thesis
  proof
    assume "c = hex_digit (of_char x div 16)"
    then show ?thesis
      using char_high_nibble [of x] by blast
  next
    assume "c = hex_digit (of_char x mod 16)"
    then show ?thesis
      by (intro exI [of _ "of_char x mod 16 :: nat"]) simp
  qed
qed

lemma hex_decode_encode: "s \<noteq> [] \<Longrightarrow> length s \<le> 128 \<Longrightarrow> hex_decode (hex_encode s) = Inr s"
proof -
  assume "s \<noteq> []" "length s \<le> 128"
  moreover from this have "hex_encode s \<noteq> []"
    by (auto simp: hex_encode_def)
  ultimately show ?thesis
    by (simp add: hex_decode_def length_hex_encode decode_hex_encode)
qed

lemma parse_integer_decimal: "n < 2 ^ 63 \<Longrightarrow> parse_integer (decimal n) = Inr (int n)"
proof -
  assume n: "n < 2 ^ 63"
  have "hd (decimal n) \<noteq> CHR ''-''"
    using decimal_digits [of n] by (cases "decimal n") (auto simp: is_digit_def simp del: decimal_digits)
  then show ?thesis
    using n by (simp add: parse_integer_def)
qed

text \<open>A device as the file keeps it: its certificate times in whole seconds.\<close>

definition whole_seconds :: "paired_device \<Rightarrow> paired_device" where
  "whole_seconds dev = dev\<lparr>dev_certificate := (dev_certificate dev)
     \<lparr>cert_not_before := to_seconds (cert_not_before (dev_certificate dev)) * 1000000,
      cert_not_after := to_seconds (cert_not_after (dev_certificate dev)) * 1000000\<rparr>\<rparr>"

definition seconds_fit :: "paired_device \<Rightarrow> bool" where
  "seconds_fit dev \<longleftrightarrow> to_seconds (cert_not_after (dev_certificate dev)) < 2 ^ 63"

definition pairing_fields :: "paired_device \<Rightarrow> (string \<times> string) list" where
  "pairing_fields dev =
     [(''schema_version'', ''1''),
      (''device_id'', dev_id dev),
      (''display_name_hex'', hex_encode (dev_display_name dev)),
      (''certificate_sha256'', dev_fingerprint dev),
      (''certificate_serial'', cert_serial (dev_certificate dev)),
      (''not_before_unix'', decimal (nat (to_seconds (cert_not_before (dev_certificate dev))))),
      (''not_after_unix'', decimal (nat (to_seconds (cert_not_after (dev_certificate dev))))),
      (''revoked'', if dev_revoked dev then ''1'' else ''0'')]"

lemma serialize_eq:
  "serialize_device dev = Inr text \<longleftrightarrow> validate_device dev = Inr () \<and>
     0 \<le> to_seconds (cert_not_before (dev_certificate dev)) \<and>
     to_seconds (cert_not_before (dev_certificate dev)) < to_seconds (cert_not_after (dev_certificate dev)) \<and>
     text = render_fields (pairing_fields dev)"
  by (auto simp: serialize_device_def pairing_fields_def result_simps Let_def)

lemma identifier_field: "store_identifier v \<Longrightarrow> field_ok (k, v) \<longleftrightarrow> field_ok (k, ''x'')"
  by (auto simp: store_identifier_def field_ok_def list_all_iff is_alnum_def is_digit_def)

lemma fingerprint_field: "is_canonical_fingerprint v \<Longrightarrow> field_ok (k, v) \<longleftrightarrow> field_ok (k, ''x'')"
  by (auto simp: is_canonical_fingerprint_def field_ok_def list_all_iff is_digit_def)

lemma decimal_field: "field_ok (k, decimal n) \<longleftrightarrow> field_ok (k, ''x'')"
  using decimal_avoids [of _ n] by (auto simp: field_ok_def is_digit_def)

lemma hex_digit_printable: "n < 16 \<Longrightarrow> hex_digit n \<noteq> CHR 0x0A \<and> hex_digit n \<noteq> CHR 0x0D"
proof -
  assume "n < 16"
  then have "(of_char (hex_digit n) :: nat) \<ge> 48"
    by (simp add: hex_digit_def)
  then show ?thesis
    by auto
qed

lemma hex_field: "s \<noteq> [] \<Longrightarrow> field_ok (k, hex_encode s) \<longleftrightarrow> field_ok (k, ''x'')"
proof -
  have "CHR 0x0A \<notin> set (hex_encode s)" "CHR 0x0D \<notin> set (hex_encode s)"
    using hex_digit_set [of "CHR 0x0A" s] hex_digit_set [of "CHR 0x0D" s] hex_digit_printable by fastforce+
  moreover assume "s \<noteq> []"
  moreover from this have "hex_encode s \<noteq> []"
    by (auto simp: hex_encode_def)
  ultimately show ?thesis
    by (auto simp: field_ok_def)
qed

lemma pairing_fields_ok: "validate_device dev = Inr () \<Longrightarrow> list_all field_ok (pairing_fields dev)"
  by (simp add: pairing_fields_def validate_device_def Let_def result_simps identifier_field fingerprint_field
      decimal_field hex_field) (simp add: field_ok_def)

lemma pairing_field_line: "field_ok f \<Longrightarrow> pairing_field (field_line f) = Some f"
  using split_field_line [of f] by (cases f) (auto simp: pairing_field_def field_ok_def field_line_def)

lemma parse_rendered:
  assumes "validate_device dev = Inr ()"
  shows "parse_pairing_fields (render_fields (pairing_fields dev)) = Inr (map_of (pairing_fields dev))"
proof -
  have ok: "list_all field_ok (pairing_fields dev)"
    using assms by (rule pairing_fields_ok)
  moreover have "distinct (map fst (pairing_fields dev))"
    by (simp add: pairing_fields_def)
  moreover have "pairing_field (field_line f) = Some f" if "f \<in> set (pairing_fields dev)" for f
    using ok that by (auto simp: list_all_iff pairing_field_line)
  ultimately show ?thesis
    using read_rendered_fields [of "pairing_fields dev" pairing_field] render_fields_ends [of "pairing_fields dev"]
    by (simp add: parse_pairing_fields_def pairing_fields_def)
qed

lemma deserialize_serialized:
  assumes "serialize_device dev = Inr text" and "seconds_fit dev"
  shows "deserialize_device text = Inr (whole_seconds dev)"
proof -
  let ?b = "to_seconds (cert_not_before (dev_certificate dev))" and ?a = "to_seconds (cert_not_after (dev_certificate dev))"
  have dev: "validate_device dev = Inr ()" "0 \<le> ?b" "?b < ?a" "text = render_fields (pairing_fields dev)"
    using assms(1) by (auto simp: serialize_eq)
  have numbers: "parse_integer (decimal (nat ?b)) = Inr ?b" "parse_integer (decimal (nat ?a)) = Inr ?a"
    using dev assms(2) parse_integer_decimal [of "nat ?b"] parse_integer_decimal [of "nat ?a"]
    by (auto simp: seconds_fit_def)
  have name: "hex_decode (hex_encode (dev_display_name dev)) = Inr (dev_display_name dev)"
    using dev(1) by (intro hex_decode_encode) (auto simp: validate_device_def Let_def result_simps)
  have whole: "validate_device (whole_seconds dev) = Inr ()"
    using dev by (auto simp: validate_device_def whole_seconds_def Let_def result_simps)
  have shape: "\<lparr>dev_id = dev_id dev, dev_display_name = dev_display_name dev, dev_fingerprint = dev_fingerprint dev,
      dev_certificate = \<lparr>cert_device_id = dev_id dev, cert_fingerprint = dev_fingerprint dev,
        cert_serial = cert_serial (dev_certificate dev), cert_not_before = ?b * 1000000, cert_not_after = ?a * 1000000\<rparr>,
      dev_revoked = dev_revoked dev\<rparr> = whole_seconds dev"
    using dev(1) by (auto simp: whole_seconds_def validate_device_def Let_def result_simps)
  show ?thesis
    unfolding deserialize_device_def dev(4) parse_rendered [OF dev(1)]
    using name numbers whole dev shape
    by (cases "dev_revoked dev") (simp_all add: take_pairing_def take_field_def pairing_fields_def Let_def)
qed

lemma to_seconds_whole [simp]: "0 \<le> n \<Longrightarrow> to_seconds (n * 1000000) = n"
  by (simp add: to_seconds_def)

lemma parse_integer_bound: "parse_integer s = Inr n \<Longrightarrow> n < 2 ^ 63"
  by (auto simp: parse_integer_def Let_def split: if_splits)

text \<open>What is read can be written again, and is kept exactly.\<close>

lemma deserialize_sound:
  assumes "deserialize_device text = Inr dev"
  shows "validate_device dev = Inr () \<and> whole_seconds dev = dev \<and> seconds_fit dev"
proof -
  obtain not_before not_after after_text where n: "0 \<le> not_before" "not_before < not_after"
    "parse_integer after_text = Inr not_after" "cert_not_before (dev_certificate dev) = not_before * 1000000"
    "cert_not_after (dev_certificate dev) = not_after * 1000000" "validate_device dev = Inr ()"
    using assms by (auto simp: deserialize_device_def result_simps Let_def split: prod.splits if_splits)
  moreover have "not_after < 2 ^ 63"
    using n(3) by (rule parse_integer_bound)
  ultimately show ?thesis
    by (simp add: whole_seconds_def seconds_fit_def)
qed

lemma length_rendered:
  assumes "serialize_device dev = Inr text" and "seconds_fit dev"
  shows "length text \<le> maximum_state_bytes"
proof -
  let ?b = "to_seconds (cert_not_before (dev_certificate dev))" and ?a = "to_seconds (cert_not_after (dev_certificate dev))"
  have dev: "validate_device dev = Inr ()" "0 \<le> ?b" "?b < ?a" "text = render_fields (pairing_fields dev)"
    using assms(1) by (auto simp: serialize_eq)
  have "length (decimal (nat ?b)) \<le> 19" "length (decimal (nat ?a)) \<le> 19"
    using dev(2,3) assms(2) by (auto simp: seconds_fit_def intro!: length_decimal)
  moreover have "length (dev_id dev) \<le> 64" "length (dev_display_name dev) \<le> 128" "length (dev_fingerprint dev) = 64"
    "length (cert_serial (dev_certificate dev)) \<le> 64"
    using dev(1)
    by (auto simp: validate_device_def Let_def result_simps store_identifier_def is_canonical_fingerprint_def)
  ultimately show ?thesis
    by (simp add: dev(4) length_render_fields pairing_fields_def length_hex_encode maximum_state_bytes_def)
qed

interpretation pairing_file: durable_record serialize_device device_load whole_seconds "\<lambda>dev _. seconds_fit dev"
proof
  fix dev p contents and fs :: files
  assume "seconds_fit dev" "serialize_device dev = Inr contents" "fs p = Some (File (as_bytes contents))"
  then show "device_load fs p = Inr (whole_seconds dev)"
    using length_rendered [of dev contents] deserialize_serialized [of dev contents]
    by (simp add: device_load_def content_at_def)
next
  show "fs p = fs' p \<Longrightarrow> device_load fs p = device_load fs' p" for p and fs fs' :: files
    by (simp add: device_load_def content_at_def)
qed

section \<open>Operations on a machine that may fail\<close>

definition same_store :: "pairing_store \<Rightarrow> pairing_store \<Rightarrow> bool" where
  "same_store s0 s \<longleftrightarrow> pst_state_path s = pst_state_path s0 \<and> pst_staging_path s = pst_staging_path s0"

lemma persist_outcome:
  assumes paths: "pst_staging_path s \<noteq> pst_state_path s" and fit: "seconds_fit dev"
    and run: "pairing_persist dev require_absent s = (r, s')"
  shows "same_store s s' \<and> (case r of
      Inr _ \<Rightarrow> pairing_load s' = Inr (whole_seconds dev) \<and> pst_files s' (pst_staging_path s) = None \<and>
        pst_files s (pst_staging_path s) = None
    | Inl e \<Rightarrow> (pairing_load s' = pairing_load s \<or>
          pairing_load s' = Inr (whole_seconds dev) \<and> pst_files s' (pst_staging_path s) = None) \<and>
        (pst_files s (pst_staging_path s) \<noteq> None \<longrightarrow> pst_files s' (pst_staging_path s) = pst_files s (pst_staging_path s)))"
proof (cases "validate_device dev = Inr () \<and> \<not> (require_absent \<and> pst_files s (pst_state_path s) \<noteq> None) \<and>
    pst_files s (pst_staging_path s) = None \<and> (\<exists>contents. serialize_device dev = Inr contents)")
  case False
  then have "\<exists>e. r = Inl e \<and> s' = s"
    using run by (auto simp: pairing_persist_def split: sum.splits if_splits) metis
  then show ?thesis
    by (auto simp: same_store_def)
next
  case True
  then obtain contents where contents: "serialize_device dev = Inr contents"
    by blast
  let ?op = "c_bind (write_new_file (pst_staging_path s) (as_bytes contents)) (\<lambda>_. atomic_replace (pst_staging_path s) (pst_state_path s))"
  have run': "on_pairing_disk ?op s = (r, s')"
    using run True contents by (auto simp: pairing_persist_def)
  then obtain m where m: "?op (pst_machine s) = (r, m)" "s' = s\<lparr>pst_machine := m\<rparr>"
    by (auto simp: on_pairing_disk_def split: prod.splits)
  note store = pairing_file.post_store [OF paths contents fit, of "pst_files s"]
  have start: "mc_fs (pst_machine s) = pst_files s"
    by (simp add: pst_files_def)
  show ?thesis
  proof (cases r)
    case (Inl e)
    then show ?thesis
      using c_postE [OF store start, of e m] m True by (auto simp: same_store_def pairing_load_def pst_files_def)
  next
    case (Inr u)
    then show ?thesis
      using c_postD [OF store start, of u m] m True by (auto simp: same_store_def pairing_load_def pst_files_def)
  qed
qed

text \<open>The calls of a pairing store, whatever they return.\<close>

datatype pairing_call = Create_pairing paired_device | Replace_pairing paired_device | Revoke_pairing string

fun pairing_step :: "pairing_store \<Rightarrow> pairing_call \<Rightarrow> pairing_store" where
  "pairing_step s (Create_pairing dev) = snd (pairing_create dev s)"
| "pairing_step s (Replace_pairing dev) = snd (pairing_replace_revoked dev s)"
| "pairing_step s (Revoke_pairing did) = snd (pairing_revoke did s)"

text \<open>What one call may make of a stored device: nothing, its revocation, or, when it is revoked, its rotation.\<close>

inductive device_step :: "pairing_call \<Rightarrow> paired_device \<Rightarrow> paired_device \<Rightarrow> bool" where
  unchanged: "device_step c dev dev"
| revoked: "device_step (Revoke_pairing (dev_id dev)) dev (dev\<lparr>dev_revoked := True\<rparr>)"
| rotated: "dev_revoked dev \<Longrightarrow> \<not> dev_revoked new \<Longrightarrow> dev_id new = dev_id dev \<Longrightarrow>
    device_step (Replace_pairing new) dev (whole_seconds new)"

inductive_cases device_stepE: "device_step c dev dev'"

lemma loaded_device:
  "pairing_load s = Inr dev \<Longrightarrow> validate_device dev = Inr () \<and> whole_seconds dev = dev \<and> seconds_fit dev \<and>
     pst_files s (pst_state_path s) \<noteq> None"
  using deserialize_sound [of _ dev]
  by (auto simp: pairing_load_def device_load_def content_at_def split: option.splits if_splits fs_node.splits)

lemma revoked_fits:
  "seconds_fit (dev\<lparr>dev_revoked := b\<rparr>) = seconds_fit dev" "whole_seconds (dev\<lparr>dev_revoked := b\<rparr>) = (whole_seconds dev)\<lparr>dev_revoked := b\<rparr>"
  "dev_id (whole_seconds dev) = dev_id dev" "dev_revoked (whole_seconds dev) = dev_revoked dev"
  by (simp_all add: seconds_fit_def whole_seconds_def)

lemma pairing_step_device:
  assumes paths: "pst_staging_path s \<noteq> pst_state_path s" and load: "pairing_load s = Inr dev"
    and fit: "\<And>new. c = Replace_pairing new \<Longrightarrow> seconds_fit new"
  shows "same_store s (pairing_step s c) \<and> (\<exists>dev'. pairing_load (pairing_step s c) = Inr dev' \<and> device_step c dev dev')"
proof (cases c)
  case (Create_pairing new)
  have "snd (pairing_create new s) = s"
    using loaded_device [OF load] by (auto simp: pairing_create_def pairing_persist_def split: sum.split)
  then show ?thesis
    using Create_pairing load by (auto simp: same_store_def intro: device_step.intros)
next
  case (Replace_pairing new)
  show ?thesis
  proof (cases "validate_device new = Inr () \<and> dev_revoked dev \<and> \<not> dev_revoked new \<and> dev_id dev = dev_id new")
    case True
    obtain r s' where run: "pairing_persist new False s = (r, s')"
      by fastforce
    then have "pairing_step s c = s'"
      using True Replace_pairing load by (simp add: pairing_replace_revoked_def)
    moreover have "device_step c dev dev" "device_step c dev (whole_seconds new)"
      using True Replace_pairing by (simp_all add: device_step.intros)
    ultimately show ?thesis
      using persist_outcome [OF paths fit [OF Replace_pairing] run] load by (cases r) auto
  next
    case False
    then have "pairing_step s c = s"
      using Replace_pairing load by (auto simp: pairing_replace_revoked_def result_simps split: sum.splits)
    then show ?thesis
      using load by (auto simp: same_store_def intro: device_step.intros)
  qed
next
  case (Revoke_pairing did)
  show ?thesis
  proof (cases "dev_id dev = did \<and> \<not> dev_revoked dev")
    case True
    obtain r s' where run: "pairing_persist (dev\<lparr>dev_revoked := True\<rparr>) False s = (r, s')"
      by fastforce
    then have "pairing_step s c = s'"
      using True Revoke_pairing load by (cases r) (simp_all add: pairing_revoke_def c_bind_def)
    then show ?thesis
      using persist_outcome [OF paths _ run] True load Revoke_pairing loaded_device [OF load]
      by (cases r) (auto simp: revoked_fits intro: device_step.intros)
  next
    case False
    then have "pairing_step s c = s"
      using Revoke_pairing load by (auto simp: pairing_revoke_def)
    then show ?thesis
      using load by (auto simp: same_store_def intro: device_step.intros)
  qed
qed

text \<open>The devices along a run.\<close>

inductive device_run :: "pairing_call list \<Rightarrow> paired_device \<Rightarrow> paired_device \<Rightarrow> bool" where
  start: "device_run [] dev dev"
| call: "device_run cs dev dev' \<Longrightarrow> device_step c dev' dev'' \<Longrightarrow> device_run (cs @ [c]) dev dev''"

lemma pairing_run_device:
  assumes "pst_staging_path s \<noteq> pst_state_path s" "pairing_load s = Inr dev"
    and "\<forall>new. Replace_pairing new \<in> set calls \<longrightarrow> seconds_fit new"
  shows "same_store s (foldl pairing_step s calls) \<and>
    (\<exists>dev'. pairing_load (foldl pairing_step s calls) = Inr dev' \<and> device_run calls dev dev')"
  using assms(3)
proof (induction calls rule: List.rev_induct)
  case Nil
  then show ?case
    using assms(2) by (auto simp: same_store_def intro: device_run.intros)
next
  case (snoc c calls)
  let ?s = "foldl pairing_step s calls"
  obtain dev' where dev': "same_store s ?s" "pairing_load ?s = Inr dev'" "device_run calls dev dev'"
    using snoc by auto
  then have "pst_staging_path ?s \<noteq> pst_state_path ?s"
    using assms(1) by (simp add: same_store_def)
  then have "same_store ?s (pairing_step ?s c) \<and>
      (\<exists>dev''. pairing_load (pairing_step ?s c) = Inr dev'' \<and> device_step c dev' dev'')"
    using snoc.prems by (intro pairing_step_device dev') auto
  then show ?case
    using dev' by (auto simp: same_store_def intro: device_run.intros)
qed

lemma device_run_identity: "device_run calls dev dev' \<Longrightarrow> dev_id dev' = dev_id dev"
  by (induction rule: device_run.induct) (auto elim!: device_stepE simp: revoked_fits)

lemma device_run_revoked:
  "device_run calls dev dev' \<Longrightarrow> dev_revoked dev \<Longrightarrow> \<not> dev_revoked dev' \<Longrightarrow>
     \<exists>new. Replace_pairing new \<in> set calls \<and> dev' = whole_seconds new \<and> dev_id new = dev_id dev"
proof (induction rule: device_run.induct)
  case (call cs dev dev' c dev'')
  show ?case
    using call.hyps(2)
  proof (cases rule: device_step.cases)
    case unchanged
    then show ?thesis
      using call by auto
  next
    case revoked
    then show ?thesis
      using call.prems by auto
  next
    case (rotated new)
    then show ?thesis
      using device_run_identity [OF call.hyps(1)] by auto
  qed
qed simp

text \<open>A staging file that is there already makes every call keep everything.\<close>

lemma blocked_step:
  assumes "pst_files s (pst_staging_path s) \<noteq> None" "pairing_load s = Inr dev" "\<not> dev_revoked dev"
  shows "pairing_step s c = s"
proof -
  have blocked: "snd (pairing_persist new absent s) = s" for new absent
    using assms(1) by (auto simp: pairing_persist_def split: sum.splits)
  show ?thesis
  proof (cases c)
    case (Revoke_pairing did)
    obtain r s' where run: "pairing_persist (dev\<lparr>dev_revoked := True\<rparr>) False s = (r, s')"
      by fastforce
    then have "s' = s"
      using blocked [of "dev\<lparr>dev_revoked := True\<rparr>" False] by simp
    then show ?thesis
      using Revoke_pairing assms(2,3) run by (cases r) (auto simp: pairing_revoke_def c_bind_def)
  qed (use assms blocked in \<open>auto simp: pairing_create_def pairing_replace_revoked_def result_simps split: sum.split\<close>)
qed

lemma pairing_revoke_throws:
  assumes "pst_staging_path s \<noteq> pst_state_path s" and "pairing_revoke did s = (Inl e, s')"
    and "pst_files s' (pst_staging_path s') \<noteq> None"
  shows "pairing_load s' = pairing_load s"
proof (cases "pairing_load s")
  case (Inr d)
  obtain r t where run: "pairing_persist (d\<lparr>dev_revoked := True\<rparr>) False s = (r, t)"
    by fastforce
  have "seconds_fit (d\<lparr>dev_revoked := True\<rparr>)" "whole_seconds d = d"
    using loaded_device [OF Inr] by (simp_all add: revoked_fits)
  then show ?thesis
    using persist_outcome [OF assms(1) _ run] Inr assms(2,3)
    by (cases r) (auto simp: pairing_revoke_def c_bind_def run revoked_fits same_store_def split: if_splits)
qed (use assms(2) in \<open>simp add: pairing_revoke_def\<close>)

section \<open>Properties\<close>

text \<open>C9. Whatever the machine does, the file of a paired device implements the device: after any calls, whether they
  return or throw, a device can be loaded, it was reached by revocations and by rotations of a revoked device only, it
  is still the device of that identifier, and a revoked device is still revoked unless it was rotated to a new
  certificate.\<close>

theorem stored_device_refines_steps:
  assumes "pst_staging_path s \<noteq> pst_state_path s" and "pairing_load s = Inr dev"
    and "\<forall>new. Replace_pairing new \<in> set calls \<longrightarrow> seconds_fit new"
  shows "\<exists>dev'. pairing_load (foldl pairing_step s calls) = Inr dev' \<and> device_run calls dev dev' \<and>
    dev_id dev' = dev_id dev \<and>
    (dev_revoked dev \<longrightarrow> dev_revoked dev' \<or>
      (\<exists>new. Replace_pairing new \<in> set calls \<and> dev' = whole_seconds new \<and> dev_id new = dev_id dev))"
  using pairing_run_device [OF assms] device_run_identity device_run_revoked by metis

definition sample_device :: paired_device where
  "sample_device = \<lparr>dev_id = ''d1'', dev_display_name = ''pc'', dev_fingerprint = replicate 64 CHR ''a'',
     dev_certificate = \<lparr>cert_device_id = ''d1'', cert_fingerprint = replicate 64 CHR ''a'', cert_serial = ''s1'',
       cert_not_before = 1000000, cert_not_after = 2000000\<rparr>, dev_revoked = False\<rparr>"

lemma sample_device_valid:
  "validate_device sample_device = Inr ()" "validate_device (sample_device\<lparr>dev_revoked := True\<rparr>) = Inr ()"
  by (simp_all add: validate_device_def sample_device_def store_identifier_def is_canonical_fingerprint_def
      is_alnum_def is_digit_def list_all_iff)

lemma sample_device_kept:
  "whole_seconds sample_device = sample_device" "seconds_fit sample_device"
  by (simp_all add: whole_seconds_def sample_device_def to_seconds_def seconds_fit_def)

text \<open>A machine whose flushes fail, with the device in the state file.\<close>

definition sample_pairing_store :: "exn option \<Rightarrow> pairing_store" where
  "sample_pairing_store failure =
     \<lparr>pst_machine = \<lparr>mc_os = \<lparr>os_fails = \<lambda>_ c. (case c of Os_flush _ \<Rightarrow> failure | _ \<Rightarrow> None), os_left = \<lambda>_ _. None,
          os_executes = \<lambda>_ _. sample_evidence_ok,
          os_changes = \<lambda>_ _ fs. fs\<rparr>,
        mc_fs = [[''srv'', ''p''] \<mapsto> File (as_bytes (render_fields (pairing_fields sample_device)))], mc_calls = []\<rparr>,
      pst_root = [''srv''], pst_state_path = [''srv'', ''p''], pst_staging_path = [''srv'', ''p.staging'']\<rparr>"

lemma sample_serialized: "serialize_device sample_device = Inr (render_fields (pairing_fields sample_device))"
  using sample_device_valid by (simp add: serialize_eq) (simp add: sample_device_def to_seconds_def)

lemma sample_pairing_load: "pairing_load (sample_pairing_store failure) = Inr sample_device"
  using pairing_file.load_written [OF sample_device_kept(2) sample_serialized,
      of "pst_files (sample_pairing_store failure)" "[''srv'', ''p'']"]
  by (simp add: pairing_load_def sample_pairing_store_def pst_files_def sample_device_kept)

theorem stored_device_refines_steps_witness:
  "\<exists>dev'. pairing_load (foldl pairing_step (sample_pairing_store None) [Revoke_pairing ''d1'', Replace_pairing sample_device]) =
      Inr dev' \<and>
    device_run [Revoke_pairing ''d1'', Replace_pairing sample_device] sample_device dev' \<and>
    dev_id dev' = dev_id sample_device \<and>
    (dev_revoked sample_device \<longrightarrow> dev_revoked dev' \<or>
      (\<exists>new. Replace_pairing new \<in> set [Revoke_pairing ''d1'', Replace_pairing sample_device] \<and>
        dev' = whole_seconds new \<and> dev_id new = dev_id sample_device))"
  by (rule stored_device_refines_steps [OF _ sample_pairing_load])
    (simp_all add: sample_pairing_store_def sample_device_kept)

text \<open>A call that returns has its effect on the disk, and one that throws has none or all of it: what create returned for
  is loaded, in whole seconds; the device that revoke returns is the one that is loaded, and it is revoked; otherwise
  loading gives what it gave, or what the call was to write.\<close>

theorem pairing_calls_are_durable:
  assumes "pst_staging_path s \<noteq> pst_state_path s" and "seconds_fit dev"
  shows "(case pairing_create dev s of
      (Inr _, s') \<Rightarrow> pairing_load s' = Inr (whole_seconds dev)
    | (Inl _, s') \<Rightarrow> pairing_load s' = pairing_load s \<or> pairing_load s' = Inr (whole_seconds dev)) \<and>
    (case pairing_revoke did s of
      (Inr d, s') \<Rightarrow> pairing_load s' = Inr d \<and> dev_revoked d \<and> dev_id d = did
    | (Inl _, s') \<Rightarrow> pairing_load s' = pairing_load s \<or>
        (\<exists>d. pairing_load s = Inr d \<and> pairing_load s' = Inr (d\<lparr>dev_revoked := True\<rparr>)))"
proof
  obtain r s' where run: "pairing_persist dev True s = (r, s')"
    by fastforce
  show "case pairing_create dev s of
      (Inr _, s') \<Rightarrow> pairing_load s' = Inr (whole_seconds dev)
    | (Inl _, s') \<Rightarrow> pairing_load s' = pairing_load s \<or> pairing_load s' = Inr (whole_seconds dev)"
    using persist_outcome [OF assms run] by (cases r) (auto simp: pairing_create_def run)
  show "case pairing_revoke did s of
      (Inr d, s') \<Rightarrow> pairing_load s' = Inr d \<and> dev_revoked d \<and> dev_id d = did
    | (Inl _, s') \<Rightarrow> pairing_load s' = pairing_load s \<or>
        (\<exists>d. pairing_load s = Inr d \<and> pairing_load s' = Inr (d\<lparr>dev_revoked := True\<rparr>))"
  proof (cases "pairing_load s")
    case (Inr d)
    obtain r s' where run: "pairing_persist (d\<lparr>dev_revoked := True\<rparr>) False s = (r, s')"
      by fastforce
    have "seconds_fit (d\<lparr>dev_revoked := True\<rparr>)" "whole_seconds d = d"
      using loaded_device [OF Inr] by (simp_all add: revoked_fits)
    then show ?thesis
      using persist_outcome [OF assms(1) _ run] Inr
      by (cases r) (auto simp: pairing_revoke_def c_bind_def run revoked_fits)
  qed (simp add: pairing_revoke_def)
qed

lemmas pairing_run = on_pairing_disk_def write_new_file_def create_file_def write_at_def flush_file_def atomic_replace_def move_node
  os_do_def c_bind_def content_at_def regular_file_def left_file_def

lemma sample_revoke:
  "\<exists>s'. pairing_revoke ''d1'' (sample_pairing_store failure) =
     (case failure of None \<Rightarrow> Inr (sample_device\<lparr>dev_revoked := True\<rparr>) | Some e \<Rightarrow> Inl e, s') \<and>
     (failure \<noteq> None \<longrightarrow> pst_files s' (pst_staging_path s') \<noteq> None)"
proof -
  have load: "pairing_load (sample_pairing_store failure) = Inr sample_device"
    by (rule sample_pairing_load)
  have device: "dev_id sample_device = ''d1''" "\<not> dev_revoked sample_device"
    by (simp_all add: sample_device_def)
  obtain contents where contents: "serialize_device (sample_device\<lparr>dev_revoked := True\<rparr>) = Inr contents"
    using sample_device_valid(2) sample_serialized by (auto simp: serialize_eq)
  have "\<exists>s'. pairing_persist (sample_device\<lparr>dev_revoked := True\<rparr>) False (sample_pairing_store failure) =
      (case failure of None \<Rightarrow> Inr () | Some e \<Rightarrow> Inl e, s') \<and>
      (failure \<noteq> None \<longrightarrow> pst_files s' (pst_staging_path s') \<noteq> None)"
    by (simp add: pairing_persist_def sample_device_valid(2) contents pst_files_def sample_pairing_store_def Let_def
        pairing_run split: option.split)
  then show ?thesis
    using load device by (auto simp: pairing_revoke_def c_bind_def split: option.splits)
qed

theorem pairing_calls_are_durable_witness:
  "pairing_load (snd (pairing_revoke ''d1'' (sample_pairing_store None))) = Inr (sample_device\<lparr>dev_revoked := True\<rparr>)"
proof -
  obtain s' where "pairing_revoke ''d1'' (sample_pairing_store None) = (Inr (sample_device\<lparr>dev_revoked := True\<rparr>), s')"
    using sample_revoke [of None] by auto
  then show ?thesis
    using pairing_calls_are_durable [of "sample_pairing_store None" sample_device "''d1''"] sample_device_kept
    by (simp add: sample_pairing_store_def)
qed

text \<open>C40. A staging file that a failed call has left behind blocks the store: whatever is called, however often, and
  however well the machine works by then, nothing is changed any more, and a device cannot be revoked.\<close>

theorem leftover_staging_blocks_revocation:
  assumes "pst_files s (pst_staging_path s) \<noteq> None" and "pairing_load s = Inr dev" and "\<not> dev_revoked dev"
  shows "foldl pairing_step s calls = s \<and>
    fst (pairing_revoke (dev_id dev) (foldl pairing_step s calls)) =
      Inl (Invalid_argument ''pairing staging file already exists'')"
proof -
  have "foldl pairing_step s calls = s"
    by (induction calls) (simp_all add: blocked_step [OF assms])
  moreover have "validate_device (dev\<lparr>dev_revoked := True\<rparr>) = Inr ()"
    using loaded_device [OF assms(2)] by (auto simp: validate_device_def Let_def)
  ultimately show ?thesis
    using assms by (simp add: pairing_revoke_def pairing_persist_def c_bind_def)
qed

theorem leftover_staging_blocks_revocation_witness:
  "\<exists>s. s = snd (pairing_revoke ''d1'' (sample_pairing_store (Some (Runtime_error ''flush'')))) \<and>
    foldl pairing_step s [Revoke_pairing ''d1'', Revoke_pairing ''d1''] = s \<and>
    fst (pairing_revoke ''d1'' (foldl pairing_step s [Revoke_pairing ''d1'', Revoke_pairing ''d1''])) =
      Inl (Invalid_argument ''pairing staging file already exists'')"
proof -
  obtain s where s: "pairing_revoke ''d1'' (sample_pairing_store (Some (Runtime_error ''flush''))) =
      (Inl (Runtime_error ''flush''), s)" "pst_files s (pst_staging_path s) \<noteq> None"
    using sample_revoke [of "Some (Runtime_error ''flush'')"] by auto
  have load: "pairing_load s = Inr sample_device"
    using pairing_revoke_throws [OF _ s(1,2)] sample_pairing_load by (simp add: sample_pairing_store_def)
  have dev: "dev_id sample_device = ''d1''" "\<not> dev_revoked sample_device"
    by (simp_all add: sample_device_def)
  show ?thesis
    using leftover_staging_blocks_revocation [OF s(2) load dev(2), of "[Revoke_pairing ''d1'', Revoke_pairing ''d1'']"]
    unfolding dev(1) s(1) snd_conv by (intro exI [of _ s] conjI refl) (elim conjE, assumption)+
qed

end
