(* ===== verification/Artifact_Store.thy ===== *)
theory Artifact_Store
  imports Deployment Transfer_Delivery Durable_File
begin

text \<open>
  \<open>core/src/artifact_store.cpp\<close>: publication of the artifacts of successful builds. The content goes into the
  storage by a file transfer, under its digest; the metadata goes into a text file per artifact, from which
  the records are loaded when the store is opened. A time point counts microseconds, as the
  system clock of macOS does (elsewhere its unit is another one); the metadata counts nanoseconds. The lookups of the store are in \<open>Deployment\<close>.
\<close>

section \<open>Metadata\<close>

definition max_artifact_records :: nat where
  "max_artifact_records = 100000"

definition max_metadata_bytes :: nat where
  "max_metadata_bytes = 64 * 1024"

text \<open>\<open>find_first_of\<close> gets a C string, which ends before the NUL it is written with; the second test refuses NUL.\<close>

definition validate_name :: "string \<Rightarrow> unit result" where
  "validate_name value = throw_if
     (value = [] \<or> value = ''.'' \<or> value = ''..'' \<or>
      list_ex (\<lambda>c. c \<in> set [CHR ''/'', CHR 0x5C, CHR ''='', CHR 0x0D, CHR 0x0A]) value \<or>
      list_ex (\<lambda>c. (of_char c :: nat) < 0x20 \<or> (of_char c :: nat) = 0x7f) value)
     (Invalid_argument ''artifact name must be a single safe filename'')"

definition positive_integer :: "string \<Rightarrow> string \<Rightarrow> u64 result" where
  "positive_integer value label =
     (if value = [] \<or> \<not> list_all is_digit value \<or> digits_value value \<ge> 2 ^ 64 \<or> digits_value value = 0
      then throw (Invalid_argument (''artifact metadata '' @ label @ '' is invalid''))
      else ok (of_nat (digits_value value)))"

definition metadata_field :: "string \<Rightarrow> (string \<times> string) option" where
  "metadata_field line = split_field (if line \<noteq> [] \<and> last line = CHR 0x0D then butlast line else line)"

definition metadata_fields :: "files \<Rightarrow> path \<Rightarrow> (string \<rightharpoonup> string) result" where
  "metadata_fields fs p = (case content_at fs p of
     None \<Rightarrow> throw (Invalid_argument ''artifact metadata file is invalid'')
   | Some c \<Rightarrow>
       if length c > max_metadata_bytes then throw (Invalid_argument ''artifact metadata file is invalid'')
       else read_fields metadata_field (Invalid_argument ''artifact metadata schema is invalid'')
         (Invalid_argument ''artifact metadata schema is invalid'') (file_lines (string_of_bytes c)) Map.empty)"

definition take_metadata :: "string \<Rightarrow> (string \<rightharpoonup> string) \<Rightarrow> (string \<times> (string \<rightharpoonup> string)) result" where
  "take_metadata = take_field (Invalid_argument ''artifact metadata field is missing'')"

text \<open>\<open>stem()\<close>: the file name without its extension.\<close>

definition stem :: "string \<Rightarrow> string" where
  "stem name = take (length name - length (extension name)) name"

definition parse_metadata :: "files \<Rightarrow> path \<Rightarrow> artifact result" where
  "parse_metadata fs p =
     and_then (metadata_fields fs p) (\<lambda>fm.
     and_then (take_metadata ''schema'' fm) (\<lambda>(schema, fm).
     if schema \<noteq> ''1'' then throw (Invalid_argument ''artifact metadata schema is unsupported'')
     else and_then (take_metadata ''created_at_ns'' fm) (\<lambda>(created_text, fm).
     and_then (positive_integer created_text ''created_at_ns'') (\<lambda>created_at_ns.
     if created_at_ns > 2 ^ 63 - 1 then throw (Invalid_argument ''artifact creation time is out of range'')
     else and_then (take_metadata ''id'' fm) (\<lambda>(aid, fm).
     and_then (take_metadata ''workspace_id'' fm) (\<lambda>(workspace_id, fm).
     and_then (take_metadata ''build_id'' fm) (\<lambda>(build_id, fm).
     and_then (take_metadata ''source_revision'' fm) (\<lambda>(revision_text, fm).
     and_then (positive_integer revision_text ''source_revision'') (\<lambda>source_revision.
     and_then (take_metadata ''name'' fm) (\<lambda>(name, fm).
     and_then (take_metadata ''sha256'' fm) (\<lambda>(sha256, fm).
     and_then (take_metadata ''size'' fm) (\<lambda>(size_text, fm).
     and_then (positive_integer size_text ''size'') (\<lambda>bytes.
     and_then (take_metadata ''platform'' fm) (\<lambda>(platform, fm).
     and_then (take_metadata ''architecture'' fm) (\<lambda>(architecture, fm).
     let a = \<lparr>art_id = aid, art_workspace_id = workspace_id, art_build_id = build_id, art_source_revision = source_revision,
         art_name = name, art_sha256 = sha256, art_size = bytes, art_platform = platform, art_architecture = architecture,
         art_created_at = int (unat created_at_ns div 1000)\<rparr>
     in if fm \<noteq> Map.empty \<or> stem (last p) \<noteq> aid
        then throw (Invalid_argument ''artifact metadata has unknown or mismatched fields'')
        else and_then (validate_name name) (\<lambda>_. and_then (validate_artifact a) (\<lambda>_. ok a)))))))))))))))))"

definition render_metadata :: "artifact \<Rightarrow> string result" where
  "render_metadata a =
     and_then (validate_name (art_name a)) (\<lambda>_.
     and_then (validate_artifact a) (\<lambda>_.
     let created = art_created_at a * 1000
     in if created \<le> 0 then throw (Invalid_argument ''artifact creation time is invalid'')
        else ok (render_fields
          [(''schema'', ''1''),
           (''id'', art_id a),
           (''workspace_id'', art_workspace_id a),
           (''build_id'', art_build_id a),
           (''source_revision'', decimal (unat (art_source_revision a))),
           (''name'', art_name a),
           (''sha256'', art_sha256 a),
           (''size'', decimal (unat (art_size a))),
           (''platform'', art_platform a),
           (''architecture'', art_architecture a),
           (''created_at_ns'', decimal (nat created))])))"

section \<open>Planning and transferring a file\<close>

text \<open>The loop of \<open>plan_file\<close>: what is left of the source is read in chunks.\<close>

function plan_chunks :: "u64 \<Rightarrow> nat \<Rightarrow> nat \<Rightarrow> u64 \<Rightarrow> byte list \<Rightarrow> chunk_descriptor list result" where
  "plan_chunks bytes_total chunk_size index position rest =
     (if position < bytes_total
      then let count = unat (min (bytes_total - position) (of_nat chunk_size)); bytes = take count rest
        in if bytes = [] then throw (Runtime_error ''artifact source ended before its declared size'')
           else and_then (sha256_hex bytes) (\<lambda>h.
             and_then (plan_chunks bytes_total chunk_size (index + 1) (position + of_nat (length bytes)) (drop (length bytes) rest))
               (\<lambda>cs. ok (\<lparr>ck_index = index, ck_offset = position, ck_size = length bytes, ck_sha256 = h\<rparr> # cs)))
      else ok [])"
  by pat_completeness auto
termination
  by (relation "measure (\<lambda>(_, _, _, _, rest). length rest)") (auto simp: Let_def)

declare plan_chunks.simps [simp del]

definition plan_file :: "files \<Rightarrow> path \<Rightarrow> string \<Rightarrow> string \<Rightarrow> nat \<Rightarrow> transfer_plan result" where
  "plan_file fs source transfer_id destination chunk_size = (case content_at fs source of
     None \<Rightarrow> throw (Invalid_argument ''artifact transfer plan is invalid'')
   | Some content \<Rightarrow>
       if chunk_size = 0 \<or> chunk_size > max_chunk_size \<or> \<not> is_canonical_workspace_path destination
       then throw (Invalid_argument ''artifact transfer plan is invalid'')
       else
         let bytes_total = of_nat (length content) :: u64
         in if bytes_total = 0 \<or> bytes_total > streamoff_max
            then throw (Invalid_argument ''artifact file size is unsupported'')
            else and_then (sha256_file (Some content)) (\<lambda>h.
              and_then (plan_chunks bytes_total chunk_size 0 0 content) (\<lambda>cs.
              ok \<lparr>tp_transfer_id = transfer_id, tp_relative_path = destination, tp_total_size = bytes_total,
                tp_sha256 = h, tp_chunks = cs\<rparr>)))"

text \<open>The chunks that are missing are read from the source, of which the stream yields what it held when it was opened.\<close>

fun transfer_chunks :: "chunk_descriptor list \<Rightarrow> nat list \<Rightarrow> byte list \<Rightarrow> (file_transfer, unit) call" where
  "transfer_chunks [] missing rest = c_return ()"
| "transfer_chunks (c # cs) missing rest =
     (let bytes = take (ck_size c) rest
      in if bytes = [] then c_throw (Runtime_error ''artifact source ended before its declared size'')
         else c_bind (if ck_index c \<in> set missing then accept_chunk (ck_index c) bytes else c_return ())
           (\<lambda>_. transfer_chunks cs missing (drop (length bytes) rest)))"

definition run_transfer :: "path \<Rightarrow> transfer_plan \<Rightarrow> (file_transfer, unit) call" where
  "run_transfer source plan t =
     (if transfer_complete t then finalize_transfer t
      else case content_at (ft_files t) source of
        None \<Rightarrow> (throw (Runtime_error ''artifact source could not be reopened''), t)
      | Some content \<Rightarrow> c_bind (transfer_chunks (tp_chunks plan) (missing_chunks t) content) (\<lambda>_. finalize_transfer) t)"

definition transfer_file :: "path \<Rightarrow> path \<Rightarrow> transfer_plan \<Rightarrow> (machine, unit) call" where
  "transfer_file source root plan m = (case new_file_transfer root plan m of
     Inl e \<Rightarrow> (throw e, m)
   | Inr t \<Rightarrow> (case run_transfer source plan t of (r, t') \<Rightarrow> (r, ft_machine t')))"

section \<open>Opening the store\<close>

definition object_relative :: "string \<Rightarrow> fs_path" where
  "object_relative h = relative [''objects'', take 2 h, h]"

text \<open>The iteration over the directory: the names it yields, and how many of them are metadata files.\<close>

fun load_entries :: "files \<Rightarrow> path \<Rightarrow> string list \<Rightarrow> nat \<Rightarrow> (string \<rightharpoonup> artifact \<times> fs_path) \<Rightarrow>
    (string \<rightharpoonup> artifact \<times> fs_path) result" where
  "load_entries fs directory [] count records = ok records"
| "load_entries fs directory (name # names) count records =
     (if extension name = ''.pending'' then load_entries fs directory names count records
      else if count + 1 > max_artifact_records \<or> extension name \<noteq> ''.toml'' \<or> \<not> regular_file fs (directory @ [name])
      then throw (Invalid_argument ''artifact metadata directory is invalid'')
      else and_then (parse_metadata fs (directory @ [name])) (\<lambda>a.
        if records (art_id a) \<noteq> None then throw (Invalid_argument ''duplicate durable artifact id'')
        else load_entries fs directory names (count + 1) (records(art_id a \<mapsto> (a, object_relative (art_sha256 a))))))"

definition load_records :: "files \<Rightarrow> path \<Rightarrow> string list \<Rightarrow> (string \<rightharpoonup> artifact \<times> fs_path) result" where
  "load_records fs root listing = (case fs (root @ [''metadata'']) of
     None \<Rightarrow> ok Map.empty
   | Some (File _) \<Rightarrow> throw (Invalid_argument ''artifact metadata root is not a directory'')
   | Some Dir \<Rightarrow> load_entries fs (root @ [''metadata'']) listing 0 Map.empty)"

record artifact_publisher =
  ap_machine :: machine
  ap_builds :: build_queue
  ap_build_root :: path
  ap_store :: artifact_store
  ap_log :: audit_log

definition new_artifact_store ::
  "build_queue \<Rightarrow> path \<Rightarrow> fs_path \<Rightarrow> fs_path \<Rightarrow> string list \<Rightarrow> machine \<Rightarrow> audit_log \<Rightarrow> artifact_publisher result" where
  "new_artifact_store builds working_directory build_root storage_root listing m lg =
     and_then (new_workspace_scope working_directory build_root) (\<lambda>build_scope.
     and_then (new_workspace_scope working_directory storage_root) (\<lambda>storage_scope.
     and_then (load_records (mc_fs m) storage_scope listing) (\<lambda>records.
     ok \<lparr>ap_machine = m, ap_builds = builds, ap_build_root = build_scope,
       ap_store = \<lparr>as_storage_root = storage_scope, as_records = records\<rparr>, ap_log = lg\<rparr>)))"

section \<open>Publication\<close>

record publish_request =
  pq_id :: string
  pq_build_id :: string
  pq_source_revision :: u64
  pq_name :: string
  pq_platform :: string
  pq_architecture :: string
  pq_source_relative_path :: fs_path
  pq_principal_id :: string
  pq_device_id :: string
  pq_session_id :: string
  pq_occurred_at :: time_point

definition ap_files :: "artifact_publisher \<Rightarrow> files" where
  "ap_files p = mc_fs (ap_machine p)"

definition ap_root :: "artifact_publisher \<Rightarrow> path" where
  "ap_root p = as_storage_root (ap_store p)"

definition on_storage :: "(machine, 'a) call \<Rightarrow> (artifact_publisher, 'a) call" where
  "on_storage op p = (case op (ap_machine p) of (r, m) \<Rightarrow> (r, p\<lparr>ap_machine := m\<rparr>))"

definition metadata_path :: "path \<Rightarrow> string \<Rightarrow> path result" where
  "metadata_path root name = scope_resolve root (relative [''metadata'', name])"

definition stage_record :: "artifact \<Rightarrow> (artifact_publisher, path) call" where
  "stage_record a p = (case scope_resolve (ap_root p) (relative [''metadata'']) of
     Inl e \<Rightarrow> (throw e, p)
   | Inr directory \<Rightarrow> c_bind (on_storage (create_directories directory)) (\<lambda>_ p.
       case and_then (metadata_path (ap_root p) (art_id a @ ''.pending'')) (\<lambda>staging.
         and_then (metadata_path (ap_root p) (art_id a @ ''.toml'')) (\<lambda>destination.
         if ap_files p staging \<noteq> None \<or> ap_files p destination \<noteq> None
         then throw (Invalid_argument ''artifact metadata id already exists'')
         else and_then (render_metadata a) (\<lambda>contents. ok (staging, contents)))) of
         Inl e \<Rightarrow> (throw e, p)
       | Inr (staging, contents) \<Rightarrow>
           c_bind (on_storage (write_new_file staging (as_bytes contents))) (\<lambda>_. c_return staging) p) p)"

definition commit_record :: "artifact \<Rightarrow> path \<Rightarrow> (artifact_publisher, unit) call" where
  "commit_record a staging p = (case metadata_path (ap_root p) (art_id a @ ''.toml'') of
     Inl e \<Rightarrow> (throw e, p)
   | Inr destination \<Rightarrow> on_storage (atomic_replace staging destination) p)"

definition published_event :: "publish_request \<Rightarrow> artifact \<Rightarrow> audit_event" where
  "published_event request a = default_event\<lparr>ae_occurred_at := pq_occurred_at request,
     ae_principal_id := pq_principal_id request, ae_device_id := pq_device_id request,
     ae_session_id := pq_session_id request, ae_workspace_id := art_workspace_id a, ae_build_id := art_build_id a,
     ae_artifact_id := art_id a, ae_artifact_sha256 := art_sha256 a, ae_source_revision := art_source_revision a,
     ae_process_role := ''build_worker'', ae_action := artifact_published, ae_result := res_allowed\<rparr>"

definition append_published :: "publish_request \<Rightarrow> artifact \<Rightarrow> (artifact_publisher, unit) call" where
  "append_published request a p = (case audit_append (published_event request a) (ap_log p) of
     Inl e \<Rightarrow> (throw e, p) | Inr lg \<Rightarrow> (ok (), p\<lparr>ap_log := lg\<rparr>))"

text \<open>The part of \<open>publish\<close> before anything is written: the build, the source and its content and digest, and
  where the object goes.\<close>

definition publish_checks :: "publish_request \<Rightarrow> artifact_publisher \<Rightarrow> (build_request \<times> path \<times> byte list \<times> string \<times> path) result" where
  "publish_checks request p =
     (if \<not> valid_id (pq_id request) \<or> \<not> valid_id (pq_build_id request) \<or> pq_source_revision request = 0 \<or>
         pq_principal_id request = [] \<or> pq_device_id request = [] \<or> pq_session_id request = []
      then throw (Invalid_argument ''artifact publication identity is invalid'')
      else and_then (validate_name (pq_name request)) (\<lambda>_.
        if as_records (ap_store p) (pq_id request) \<noteq> None
        then throw (Invalid_argument ''artifact id is immutable and already exists'')
        else and_then (job_at (pq_build_id request) (ap_builds p)) (\<lambda>job.
          if bj_state job \<noteq> Build_succeeded \<or> bq_pinned_revision (bj_request job) \<noteq> pq_source_revision request
          then throw (Logic_error ''artifact requires a successful matching build'')
          else and_then (scope_resolve (ap_build_root p) (pq_source_relative_path request)) (\<lambda>source.
            case content_at (ap_files p) source of
              None \<Rightarrow> throw (Invalid_argument ''artifact source must be a regular file; package bundles first'')
            | Some content \<Rightarrow> and_then (sha256_file (Some content)) (\<lambda>h.
                and_then (scope_resolve (ap_root p) (object_relative h)) (\<lambda>destination.
                ok (bj_request job, source, content, h, destination)))))))"

text \<open>The object is there already and intact, or it is transferred.\<close>

definition store_object :: "path \<Rightarrow> byte list \<Rightarrow> string \<Rightarrow> path \<Rightarrow> (artifact_publisher, unit) call" where
  "store_object source content h destination p =
     (if ap_files p destination \<noteq> None
      then (case content_at (ap_files p) destination of
          None \<Rightarrow> (throw (Runtime_error ''content-addressed artifact object is corrupt''), p)
        | Some c \<Rightarrow>
            if (of_nat (length c) :: u64) \<noteq> of_nat (length content)
            then (throw (Runtime_error ''content-addressed artifact object is corrupt''), p)
            else c_check (\<lambda>_. and_then (sha256_file (Some c)) (\<lambda>h'.
              throw_if (h' \<noteq> h) (Runtime_error ''content-addressed artifact object is corrupt''))) p)
      else case plan_file (ap_files p) source (''publish-'' @ take 32 h) (''objects/'' @ take 2 h @ ''/'' @ h) max_chunk_size of
          Inl e \<Rightarrow> (throw e, p)
        | Inr plan \<Rightarrow> on_storage (transfer_file source (ap_root p) plan) p)"

definition register_artifact :: "publish_request \<Rightarrow> artifact \<Rightarrow> (artifact_publisher, artifact) call" where
  "register_artifact request a =
     c_bind (c_check (\<lambda>_. validate_artifact a)) (\<lambda>_.
     c_bind (c_check (\<lambda>p. throw_if (as_records (ap_store p) (art_id a) \<noteq> None)
       (Logic_error ''artifact record insertion failed''))) (\<lambda>_.
     c_bind (c_modify (\<lambda>p. p\<lparr>ap_store := (ap_store p)\<lparr>as_records := (as_records (ap_store p))
       (art_id a \<mapsto> (a, object_relative (art_sha256 a)))\<rparr>\<rparr>)) (\<lambda>_.
     c_bind (c_catch_rethrow
       (c_bind (stage_record a) (\<lambda>staging.
        c_bind (append_published request a) (\<lambda>_.
        commit_record a staging)))
       (c_modify (\<lambda>p. p\<lparr>ap_store := (ap_store p)\<lparr>as_records := (as_records (ap_store p))(art_id a := None)\<rparr>\<rparr>))) (\<lambda>_.
     c_return a))))"

text \<open>\<open>now\<close> is the reading of the system clock.\<close>

definition publish :: "publish_request \<Rightarrow> time_point \<Rightarrow> (artifact_publisher, artifact) call" where
  "publish request now p = (case publish_checks request p of
     Inl e \<Rightarrow> (throw e, p)
   | Inr (build, source, content, h, destination) \<Rightarrow>
       c_bind (store_object source content h destination) (\<lambda>_.
       register_artifact request \<lparr>art_id = pq_id request, art_workspace_id = bq_workspace_id build,
         art_build_id = pq_build_id request, art_source_revision = pq_source_revision request, art_name = pq_name request,
         art_sha256 = h, art_size = of_nat (length content), art_platform = pq_platform request,
         art_architecture = pq_architecture request, art_created_at = now\<rparr>) p)"

definition download_plan :: "artifact_publisher \<Rightarrow> string \<Rightarrow> string \<Rightarrow> string \<Rightarrow> nat \<Rightarrow> transfer_plan result" where
  "download_plan p artifact_id transfer_id destination chunk_size =
     and_then (store_verify (ap_files p) (ap_store p) artifact_id) (\<lambda>intact.
     if \<not> intact then throw (Runtime_error ''artifact object failed immutable verification'')
     else and_then (store_object_path (ap_store p) artifact_id) (\<lambda>object.
       plan_file (ap_files p) object transfer_id destination chunk_size))"

end
