(* ===== verification/Artifact_Durability.thy ===== *)
theory Artifact_Durability
  imports Artifact_Store
begin

text \<open>
  What the artifact store keeps on the disk: metadata files that are read back as they were written, records that a
  reopened store loads, objects that match their digest, on a machine that may fail at every call.
\<close>

section \<open>Metadata files\<close>

definition artifact_fields :: "artifact \<Rightarrow> (string \<times> string) list" where
  "artifact_fields a =
     [(''schema'', ''1''),
      (''id'', art_id a),
      (''workspace_id'', art_workspace_id a),
      (''build_id'', art_build_id a),
      (''source_revision'', decimal (unat (art_source_revision a))),
      (''name'', art_name a),
      (''sha256'', art_sha256 a),
      (''size'', decimal (unat (art_size a))),
      (''platform'', art_platform a),
      (''architecture'', art_architecture a),
      (''created_at_ns'', decimal (nat (art_created_at a * 1000)))]"

lemma render_metadata_eq:
  "render_metadata a = Inr contents \<longleftrightarrow> validate_name (art_name a) = Inr () \<and> validate_artifact a = Inr () \<and>
     0 < art_created_at a \<and> contents = render_fields (artifact_fields a)"
  by (auto simp: render_metadata_def artifact_fields_def result_simps Let_def)

lemma id_field: "valid_id v \<Longrightarrow> field_ok (k, v) \<longleftrightarrow> field_ok (k, ''x'')"
  by (auto simp: valid_id_def field_ok_def list_all_iff is_alnum_def is_digit_def)

lemma hash_field: "is_sha256_hex v \<Longrightarrow> field_ok (k, v) \<longleftrightarrow> field_ok (k, ''x'')"
  by (auto simp: is_sha256_hex_def is_lower_hex_digit_def field_ok_def list_all_iff)

lemma name_field: "validate_name v = Inr () \<Longrightarrow> field_ok (k, v) \<longleftrightarrow> field_ok (k, ''x'')"
  by (auto simp: validate_name_def field_ok_def list_ex_iff result_simps)

lemma number_field: "field_ok (k, decimal n) \<longleftrightarrow> field_ok (k, ''x'')"
  using decimal_avoids [of _ n] by (auto simp: field_ok_def is_digit_def)

lemma validate_artifact_ok:
  "validate_artifact a = Inr () \<longleftrightarrow> valid_id (art_id a) \<and> valid_id (art_workspace_id a) \<and> valid_id (art_build_id a) \<and>
     art_source_revision a \<noteq> 0 \<and> safe_name (art_name a) \<and> is_sha256_hex (art_sha256 a) \<and> art_size a \<noteq> 0 \<and>
     valid_id (art_platform a) \<and> valid_id (art_architecture a) \<and> art_created_at a \<noteq> 0"
  by (auto simp: validate_artifact_def result_simps)

lemma artifact_fields_ok:
  "validate_name (art_name a) = Inr () \<Longrightarrow> validate_artifact a = Inr () \<Longrightarrow> list_all field_ok (artifact_fields a)"
  by (simp add: artifact_fields_def validate_artifact_ok id_field hash_field name_field number_field)
    (simp add: field_ok_def)

lemma metadata_field_line: "field_ok f \<Longrightarrow> metadata_field (field_line f) = Some f"
proof -
  assume ok: "field_ok f"
  have "last (field_line f) \<in> set (snd f)"
    using ok by (cases f) (auto simp: field_ok_def field_line_def)
  then have "last (field_line f) \<noteq> CHR 0x0D"
    using ok by (cases f) (auto simp: field_ok_def)
  then show ?thesis
    using split_field_line [OF ok] by (simp add: metadata_field_def)
qed

lemma length_metadata:
  assumes "render_metadata a = Inr contents" and "art_created_at a * 1000 < 2 ^ 63"
  shows "length contents \<le> max_metadata_bytes"
proof -
  have a: "validate_artifact a = Inr ()" "contents = render_fields (artifact_fields a)"
    using assms(1) by (auto simp: render_metadata_eq)
  have word: "unat (w :: u64) < 10 ^ 20" for w
    by (rule order_less_le_trans [OF unsigned_less]) simp
  have "length (decimal (unat (art_source_revision a))) \<le> 20" "length (decimal (unat (art_size a))) \<le> 20"
    "length (decimal (nat (art_created_at a * 1000))) \<le> 20"
    using assms(2) by (auto intro!: length_decimal word)
  moreover have "length (art_id a) \<le> 64" "length (art_workspace_id a) \<le> 64" "length (art_build_id a) \<le> 64"
    "length (art_name a) \<le> 255" "length (art_sha256 a) = 64" "length (art_platform a) \<le> 64"
    "length (art_architecture a) \<le> 64"
    using a(1) by (auto simp: validate_artifact_ok valid_id_def safe_name_def is_sha256_hex_def)
  ultimately show ?thesis
    by (simp add: a(2) length_render_fields artifact_fields_def max_metadata_bytes_def)
qed

lemma extension_toml: "name \<noteq> [] \<Longrightarrow> extension (name @ ''.toml'') = ''.toml''"
  by (cases name) (auto simp: extension_def)

lemma extension_pending: "name \<noteq> [] \<Longrightarrow> extension (name @ ''.pending'') = ''.pending''"
  by (cases name) (auto simp: extension_def)

lemma stem_toml: "name \<noteq> [] \<Longrightarrow> stem (name @ ''.toml'') = name"
  by (simp add: stem_def extension_toml)

text \<open>The creation time fits and the file has the name of the artifact.\<close>

definition metadata_fits :: "artifact \<Rightarrow> path \<Rightarrow> bool" where
  "metadata_fits a p \<longleftrightarrow> art_created_at a * 1000 < 2 ^ 63 \<and> last p = art_id a @ ''.toml''"

lemma positive_integer_decimal:
  "0 < n \<Longrightarrow> n < 2 ^ 64 \<Longrightarrow> positive_integer (decimal n) label = Inr (of_nat n)"
  by (simp add: positive_integer_def)

lemma parse_written_metadata:
  assumes fits: "metadata_fits a p" and render: "render_metadata a = Inr contents"
    and disk: "fs p = Some (File (as_bytes contents))"
  shows "parse_metadata fs p = Inr a"
proof -
  have a: "validate_name (art_name a) = Inr ()" "validate_artifact a = Inr ()" "0 < art_created_at a"
    "contents = render_fields (artifact_fields a)"
    using render by (auto simp: render_metadata_eq)
  have ok: "list_all field_ok (artifact_fields a)"
    using a by (intro artifact_fields_ok)
  have "metadata_field (field_line f) = Some f" if "f \<in> set (artifact_fields a)" for f
    using ok that by (auto simp: list_all_iff metadata_field_line)
  then have "metadata_fields fs p = Inr (map_of (artifact_fields a))"
    using read_rendered_fields [OF ok, of metadata_field] length_metadata [OF render] fits disk
    by (simp add: metadata_fields_def content_at_def a(4) metadata_fits_def artifact_fields_def)
  moreover have "positive_integer (decimal (unat w)) label = Inr w" if "w \<noteq> 0" for w :: u64 and label
    using positive_integer_decimal [of "unat w" label] that unsigned_less [of w] by (simp add: unat_gt_0)
  moreover have "positive_integer (decimal (nat (art_created_at a * 1000))) label = Inr (of_nat (nat (art_created_at a * 1000)))"
    for label
    using a(3) fits by (intro positive_integer_decimal) (auto simp: metadata_fits_def)
  moreover have "unat (of_nat (nat (art_created_at a * 1000)) :: u64) = nat (art_created_at a * 1000)"
    using fits by (intro unat_le_of_nat_bound) (auto simp: metadata_fits_def)
  moreover from this have "(of_nat (nat (art_created_at a * 1000)) :: u64) \<le> 2 ^ 63 - 1"
    using fits by (simp add: word_le_nat_alt metadata_fits_def) linarith
  moreover have "stem (last p) = art_id a"
    using fits a(2) by (auto simp: metadata_fits_def validate_artifact_ok valid_id_def stem_toml)
  moreover have "int (nat (art_created_at a * 1000) div 1000) = art_created_at a"
    using a(3) by (simp add: nat_mult_distrib)
  moreover have "art_source_revision a \<noteq> 0" "art_size a \<noteq> 0"
    using a(2) by (auto simp: validate_artifact_ok)
  ultimately show ?thesis
    using a(1-3) by (cases a) (simp add: parse_metadata_def take_metadata_def take_field_def artifact_fields_def Let_def leD not_less)
qed

interpretation metadata_file: durable_record render_metadata parse_metadata "\<lambda>a. a" metadata_fits
proof
  fix a p contents and fs :: files
  assume "metadata_fits a p" "render_metadata a = Inr contents" "fs p = Some (File (as_bytes contents))"
  then show "parse_metadata fs p = Inr a"
    by (rule parse_written_metadata)
next
  show "fs p = fs' p \<Longrightarrow> parse_metadata fs p = parse_metadata fs' p" for p and fs fs' :: files
    by (simp add: parse_metadata_def metadata_fields_def content_at_def)
qed

section \<open>Loading\<close>

text \<open>What the disk holds for the records: a metadata file for each of them, under the name of its artifact, and nothing
  else in the directory but staging files.\<close>

definition metadata_directory :: "path \<Rightarrow> path" where
  "metadata_directory root = root @ [''metadata'']"

definition durable :: "path \<Rightarrow> files \<Rightarrow> (string \<rightharpoonup> artifact \<times> fs_path) \<Rightarrow> bool" where
  "durable root fs records \<longleftrightarrow>
     (\<forall>aid a rel. records aid = Some (a, rel) \<longrightarrow> art_id a = aid \<and> aid \<noteq> [] \<and> rel = object_relative (art_sha256 a) \<and>
        parse_metadata fs (metadata_directory root @ [aid @ ''.toml'']) = Inr a) \<and>
     (\<forall>n. fs (metadata_directory root @ [n]) \<noteq> None \<longrightarrow>
        extension n = ''.pending'' \<or> (\<exists>aid. aid \<noteq> [] \<and> n = aid @ ''.toml'' \<and> records aid \<noteq> None)) \<and>
     (fs (metadata_directory root) = None \<longrightarrow> records = Map.empty) \<and>
     \<not> regular_file fs (metadata_directory root)"

lemma parsed_regular: "parse_metadata fs p = Inr a \<Longrightarrow> regular_file fs p"
  by (auto simp: parse_metadata_def metadata_fields_def regular_file_content result_simps split: option.splits)

lemma parsed_exists: "parse_metadata fs p = Inr a \<Longrightarrow> fs p \<noteq> None"
  using parsed_regular [of fs p a] by (auto simp: regular_file_def split: option.splits)

lemma load_entries_durable:
  assumes records: "\<And>aid a rel. records aid = Some (a, rel) \<Longrightarrow> art_id a = aid \<and> aid \<noteq> [] \<and>
      rel = object_relative (art_sha256 a) \<and> parse_metadata fs (directory @ [aid @ ''.toml'']) = Inr a"
    and names: "\<And>n. n \<in> set names \<Longrightarrow>
      extension n = ''.pending'' \<or> (\<exists>aid. aid \<noteq> [] \<and> n = aid @ ''.toml'' \<and> records aid \<noteq> None)"
    and "distinct names" and "count + length (filter (\<lambda>n. extension n \<noteq> ''.pending'') names) \<le> max_artifact_records"
    and fresh: "\<And>n aid. n \<in> set names \<Longrightarrow> n = aid @ ''.toml'' \<Longrightarrow> aid \<noteq> [] \<Longrightarrow> found aid = None"
  shows "load_entries fs directory names count found =
    Inr (found ++ (records |` {aid. aid \<noteq> [] \<and> aid @ ''.toml'' \<in> set names}))"
  using assms(2-5)
proof (induction names arbitrary: count found)
  case (Cons n names)
  show ?case
  proof (cases "extension n = ''.pending''")
    case True
    then have "{aid. aid \<noteq> [] \<and> aid @ ''.toml'' \<in> set (n # names)} = {aid. aid \<noteq> [] \<and> aid @ ''.toml'' \<in> set names}"
      using extension_toml by auto
    moreover have "load_entries fs directory names count found =
        Inr (found ++ (records |` {aid. aid \<noteq> [] \<and> aid @ ''.toml'' \<in> set names}))"
      using Cons.prems True by (intro Cons.IH) auto
    ultimately show ?thesis
      using True by simp
  next
    case False
    then obtain aid a rel where aid: "n = aid @ ''.toml''" "records aid = Some (a, rel)" "aid \<noteq> []"
      using Cons.prems(1) [of n] by auto
    note a = records [OF aid(2)]
    have "found aid = None"
      using Cons.prems(4) [of n aid] aid by simp
    moreover have "load_entries fs directory names (count + 1) (found(aid \<mapsto> (a, rel))) =
        Inr (found(aid \<mapsto> (a, rel)) ++ (records |` {aid. aid \<noteq> [] \<and> aid @ ''.toml'' \<in> set names}))"
      using Cons.prems aid(1) False by (intro Cons.IH) auto
    moreover have "found(aid \<mapsto> (a, rel)) ++ (records |` {aid. aid \<noteq> [] \<and> aid @ ''.toml'' \<in> set names}) =
        found ++ (records |` {aid. aid \<noteq> [] \<and> aid @ ''.toml'' \<in> set (n # names)})"
      using aid by (auto simp: fun_eq_iff map_add_def restrict_map_def split: option.split)
    ultimately show ?thesis
      using a aid False Cons.prems(3) parsed_regular [of fs "directory @ [aid @ ''.toml'']" a]
      by (simp add: extension_toml)
  qed
qed (simp add: restrict_map_def map_add_def)

lemma durable_loads:
  assumes durable: "durable root fs records" and "distinct listing"
    and listing: "set listing = {n. fs (metadata_directory root @ [n]) \<noteq> None}"
    and few: "length (filter (\<lambda>n. extension n \<noteq> ''.pending'') listing) \<le> max_artifact_records"
  shows "load_records fs root listing = Inr records"
proof (cases "fs (metadata_directory root)")
  case None
  then show ?thesis
    using durable by (simp add: durable_def load_records_def metadata_directory_def)
next
  case (Some n)
  then have node: "n = Dir"
    using durable by (cases n) (auto simp: durable_def regular_file_def)
  let ?toml = "\<lambda>aid. aid @ ''.toml''"
  have "load_entries fs (metadata_directory root) listing 0 Map.empty =
      Inr (Map.empty ++ (records |` {aid. aid \<noteq> [] \<and> ?toml aid \<in> set listing}))"
    using durable few listing assms(2)
    by (intro load_entries_durable) (auto simp: durable_def)
  moreover have "records |` {aid. aid \<noteq> [] \<and> ?toml aid \<in> set listing} = records"
  proof
    fix aid
    show "(records |` {aid. aid \<noteq> [] \<and> ?toml aid \<in> set listing}) aid = records aid"
    proof (cases "records aid")
      case (Some r)
      obtain a rel where r: "r = (a, rel)"
        by fastforce
      then have "aid \<noteq> []" "parse_metadata fs (metadata_directory root @ [?toml aid]) = Inr a"
        using durable Some unfolding durable_def by blast+
      then have "?toml aid \<in> set listing"
        using parsed_exists listing by simp
      then show ?thesis
        using \<open>aid \<noteq> []\<close> by (simp add: restrict_map_def)
    qed (simp add: restrict_map_def)
  qed
  ultimately show ?thesis
    using Some node by (simp add: load_records_def metadata_directory_def)
qed

section \<open>Writing the metadata\<close>

definition pending_path :: "path \<Rightarrow> string \<Rightarrow> path" where
  "pending_path root aid = metadata_directory root @ [aid @ ''.pending'']"

definition record_path :: "path \<Rightarrow> string \<Rightarrow> path" where
  "record_path root aid = metadata_directory root @ [aid @ ''.toml'']"

lemma metadata_paths:
  assumes "canonical root"
  shows "scope_resolve root (relative [''metadata'']) = Inr (metadata_directory root)"
    and "metadata_path root (aid @ ''.pending'') = Inr (pending_path root aid)"
    and "metadata_path root (aid @ ''.toml'') = Inr (record_path root aid)"
proof -
  have "aid @ ''.pending'' \<noteq> ''.''" "aid @ ''.pending'' \<noteq> ''..''" "aid @ ''.toml'' \<noteq> ''.''" "aid @ ''.toml'' \<noteq> ''..''"
    by (auto dest: arg_cong [of _ _ length])
  then show "scope_resolve root (relative [''metadata'']) = Inr (metadata_directory root)"
    "metadata_path root (aid @ ''.pending'') = Inr (pending_path root aid)"
    "metadata_path root (aid @ ''.toml'') = Inr (record_path root aid)"
    using assms scope_resolve_plain [OF assms, of "[''metadata'']"]
      scope_resolve_plain [OF assms, of "[''metadata'', aid @ ''.pending'']"]
      scope_resolve_plain [OF assms, of "[''metadata'', aid @ ''.toml'']"]
    by (auto simp: metadata_path_def metadata_directory_def pending_path_def record_path_def canonical_def)
qed

lemma suffix_lists: "(xs @ ''.pending'' = ys @ ''.toml'') = False" "(xs @ ''.toml'' = ys @ ''.pending'') = False"
  by (auto dest: arg_cong [of _ _ last])

lemma record_paths_differ [simp]:
  "pending_path root aid \<noteq> record_path root aid'" "record_path root aid' \<noteq> pending_path root aid"
  "pending_path root aid = pending_path root aid' \<longleftrightarrow> aid = aid'"
  "record_path root aid = record_path root aid' \<longleftrightarrow> aid = aid'"
  "pending_path root aid \<noteq> metadata_directory root" "record_path root aid \<noteq> metadata_directory root"
  by (auto simp: pending_path_def record_path_def dest: arg_cong [of _ _ last])

lemma directory_children [simp]:
  "\<not> has_prefix (metadata_directory root) (metadata_directory root @ [n])"
  "\<not> has_prefix (metadata_directory root) (pending_path root aid)"
  "\<not> has_prefix (metadata_directory root) (record_path root aid)"
  "has_prefix (metadata_directory root) (metadata_directory root)"
  by (auto simp: has_prefix_iff pending_path_def record_path_def)

lemma parse_local: "fs p = fs' p \<Longrightarrow> parse_metadata fs p = parse_metadata fs' p"
  by (rule metadata_file.load_local)

lemma durable_local:
  assumes "durable root fs records" and "fs (metadata_directory root) = None \<longrightarrow> fs' (metadata_directory root) \<noteq> None \<or> records = Map.empty"
    and "\<not> regular_file fs' (metadata_directory root)"
    and "fs (metadata_directory root) \<noteq> None \<Longrightarrow> fs' (metadata_directory root) \<noteq> None"
    and "\<And>n. extension n \<noteq> ''.pending'' \<Longrightarrow> fs' (metadata_directory root @ [n]) = fs (metadata_directory root @ [n])"
  shows "durable root fs' records"
proof -
  have "fs' (metadata_directory root @ [aid @ ''.toml'']) = fs (metadata_directory root @ [aid @ ''.toml''])"
    if "aid \<noteq> []" for aid
    using assms(5) extension_toml [OF that] by simp
  then have "parse_metadata fs' (metadata_directory root @ [aid @ ''.toml'']) = Inr a"
    if "records aid = Some (a, rel)" for aid a rel
    using assms(1) that parse_local [of fs' "metadata_directory root @ [aid @ ''.toml'']" fs] unfolding durable_def by fastforce
  moreover have "extension n = ''.pending'' \<or> (\<exists>aid. aid \<noteq> [] \<and> n = aid @ ''.toml'' \<and> records aid \<noteq> None)"
    if "fs' (metadata_directory root @ [n]) \<noteq> None" for n
    using assms(1) assms(5) [of n] that unfolding durable_def by metis
  ultimately show ?thesis
    using assms(1-4) unfolding durable_def by blast
qed

lemma durable_with_directories:
  assumes "durable root fs records"
  shows "durable root (with_directories (metadata_directory root) fs) records"
proof (rule durable_local [OF assms])
  show "\<not> regular_file (with_directories (metadata_directory root) fs) (metadata_directory root)"
    using assms by (auto simp: durable_def regular_file_def with_directories_def split: option.splits)
qed (auto simp: with_directories_def)

lemma durable_pending:
  assumes "durable root fs records" and "aid \<noteq> []"
  shows "durable root (fs(pending_path root aid := n)) records"
proof (rule durable_local [OF assms(1)])
  show "\<not> regular_file (fs(pending_path root aid := n)) (metadata_directory root)"
    using assms(1) by (simp add: durable_def regular_file_def record_paths_differ(5) [symmetric])
  show "(fs(pending_path root aid := n)) (metadata_directory root @ [m]) = fs (metadata_directory root @ [m])"
    if "extension m \<noteq> ''.pending''" for m
    using that extension_pending [OF assms(2)] by (auto simp: pending_path_def)
qed (use assms(1) record_paths_differ(5) [of root aid] in \<open>auto simp: durable_def simp del: record_paths_differ\<close>)

lemma durable_commit:
  assumes durable: "durable root fs records" and directory: "fs (metadata_directory root) \<noteq> None"
    and pending: "fs (pending_path root (art_id a)) = Some (File (as_bytes contents))"
    and render: "render_metadata a = Inr contents" and time: "art_created_at a * 1000 < 2 ^ 63" and aid: "art_id a \<noteq> []"
  shows "durable root (fs(record_path root (art_id a) := fs (pending_path root (art_id a)), pending_path root (art_id a) := None))
    (records(art_id a \<mapsto> (a, object_relative (art_sha256 a))))" (is "durable root ?fs ?records")
proof -
  have "?fs (record_path root (art_id a)) = Some (File (as_bytes contents))"
    using pending by simp
  then have written: "parse_metadata ?fs (record_path root (art_id a)) = Inr a"
    using render time
    by (intro parse_written_metadata) (auto simp: metadata_fits_def record_path_def)
  have others: "?fs (metadata_directory root @ [n]) = fs (metadata_directory root @ [n])"
    if "n \<noteq> art_id a @ ''.toml''" "n \<noteq> art_id a @ ''.pending''" for n
    using that by (auto simp: record_path_def pending_path_def)
  have "parse_metadata ?fs (metadata_directory root @ [aid @ ''.toml'']) = Inr b"
    if "records aid = Some (b, rel)" "aid \<noteq> art_id a" for aid b rel
    using durable that others [of "aid @ ''.toml''"] parse_local [of ?fs "metadata_directory root @ [aid @ ''.toml'']" fs]
    unfolding durable_def by (auto simp: suffix_lists)
  moreover have "extension n = ''.pending'' \<or> (\<exists>aid. aid \<noteq> [] \<and> n = aid @ ''.toml'' \<and> ?records aid \<noteq> None)"
    if "?fs (metadata_directory root @ [n]) \<noteq> None" for n
  proof (cases "n = art_id a @ ''.toml''")
    case False
    moreover have "n \<noteq> art_id a @ ''.pending''"
      using that by (auto simp: pending_path_def)
    ultimately have "fs (metadata_directory root @ [n]) \<noteq> None"
      using others that by metis
    then have "extension n = ''.pending'' \<or> (\<exists>aid. aid \<noteq> [] \<and> n = aid @ ''.toml'' \<and> records aid \<noteq> None)"
      using durable unfolding durable_def by blast
    then show ?thesis
      by (metis fun_upd_apply option.distinct(1))
  qed (use aid in simp)
  moreover have "?fs (metadata_directory root) = fs (metadata_directory root)"
    using record_paths_differ(5,6) [of root "art_id a"] by (metis fun_upd_other)
  moreover have "\<not> regular_file ?fs (metadata_directory root)"
    using durable calculation(3) by (simp add: durable_def regular_file_def)
  ultimately show ?thesis
    unfolding durable_def
  proof (intro conjI allI impI)
    fix aid' b rel
    assume b: "?records aid' = Some (b, rel)"
    then show "parse_metadata ?fs (metadata_directory root @ [aid' @ ''.toml'']) = Inr b"
      using \<open>\<And>rel b aid. records aid = Some (b, rel) \<Longrightarrow> aid \<noteq> art_id a \<Longrightarrow>
        parse_metadata ?fs (metadata_directory root @ [aid @ ''.toml'']) = Inr b\<close> written
      by (cases "aid' = art_id a") (auto simp: record_path_def)
    show "art_id b = aid'" "aid' \<noteq> []" "rel = object_relative (art_sha256 b)"
      using b durable aid unfolding durable_def by (auto split: if_splits)
  qed (use directory in auto)
qed

section \<open>The steps of a publication\<close>

text \<open>What a publication leaves alone.\<close>

definition same_publisher :: "artifact_publisher \<Rightarrow> artifact_publisher \<Rightarrow> bool" where
  "same_publisher p p' \<longleftrightarrow> ap_builds p' = ap_builds p \<and> ap_build_root p' = ap_build_root p \<and> ap_root p' = ap_root p"

lemma on_storage_result:
  "on_storage op p = (r, p') \<Longrightarrow> \<exists>m. op (ap_machine p) = (r, m) \<and> p' = p\<lparr>ap_machine := m\<rparr>"
  by (auto simp: on_storage_def split: prod.splits)

lemma storage_fields [simp]:
  "ap_files (p\<lparr>ap_machine := m\<rparr>) = mc_fs m" "ap_root (p\<lparr>ap_machine := m\<rparr>) = ap_root p"
  "ap_files (p\<lparr>ap_log := lg\<rparr>) = ap_files p" "ap_root (p\<lparr>ap_log := lg\<rparr>) = ap_root p"
  by (simp_all add: ap_files_def ap_root_def)

lemma storage_post:
  assumes "on_storage op p = (r, p')" and "c_post (files_are (ap_files p)) op Q E"
  shows "\<exists>m. p' = p\<lparr>ap_machine := m\<rparr> \<and> (case r of Inr x \<Rightarrow> Q x m | Inl _ \<Rightarrow> E m)"
  using on_storage_result [OF assms(1)] assms(2)
  by (fastforce simp: c_post_def ap_files_def split: sum.splits)

text \<open>Staging: either the staging file holds the metadata of an artifact that has no metadata file yet, or everything is
  as it was but for the directory and that staging file.\<close>

lemma stage_outcome:
  assumes root: "canonical (ap_root p)" and run: "stage_record a p = (r, p')"
  shows "\<exists>m. p' = p\<lparr>ap_machine := m\<rparr> \<and> (case r of
      Inr staging \<Rightarrow> staging = pending_path (ap_root p) (art_id a) \<and> (\<exists>contents. render_metadata a = Inr contents \<and>
        ap_files p (pending_path (ap_root p) (art_id a)) = None \<and> ap_files p (record_path (ap_root p) (art_id a)) = None \<and>
        mc_fs m = (with_directories (metadata_directory (ap_root p)) (ap_files p))
          (pending_path (ap_root p) (art_id a) \<mapsto> File (as_bytes contents)))
    | Inl _ \<Rightarrow> mc_fs m = ap_files p \<or> mc_fs m = with_directories (metadata_directory (ap_root p)) (ap_files p) \<or>
        (ap_files p (pending_path (ap_root p) (art_id a)) = None \<and>
         (\<exists>n. mc_fs m = (with_directories (metadata_directory (ap_root p)) (ap_files p))
          (pending_path (ap_root p) (art_id a) := n))))"
proof -
  let ?dir = "metadata_directory (ap_root p)" and ?s = "pending_path (ap_root p) (art_id a)"
    and ?d = "record_path (ap_root p) (art_id a)"
  let ?fs = "with_directories ?dir (ap_files p)"
  note paths = metadata_paths [OF root]
  obtain r1 p1 where mkdir: "on_storage (create_directories ?dir) p = (r1, p1)"
    by fastforce
  obtain m1 where m1: "p1 = p\<lparr>ap_machine := m1\<rparr>" "case r1 of Inr _ \<Rightarrow> mc_fs m1 = ?fs | Inl _ \<Rightarrow> mc_fs m1 = ap_files p"
    using storage_post [OF mkdir post_mkdir_files] by blast
  show ?thesis
  proof (cases r1)
    case (Inl e)
    then have "r = throw e \<and> p' = p1"
      using run mkdir by (simp add: stage_record_def paths c_bind_def)
    then show ?thesis
      using m1 Inl by auto
  next
    case (Inr u)
    have nodes: "?fs ?s = ap_files p ?s" "?fs ?d = ap_files p ?d"
      by (simp_all add: with_directories_def)
    show ?thesis
    proof (cases "ap_files p ?s \<noteq> None \<or> ap_files p ?d \<noteq> None \<or> (\<exists>e. render_metadata a = Inl e)")
      case True
      then have "\<exists>e. r = throw e \<and> p' = p1"
        using run mkdir Inr m1 nodes
        by (cases "render_metadata a") (auto simp: stage_record_def paths c_bind_def split: if_splits)
      then show ?thesis
        using m1 Inr by auto
    next
      case False
      then obtain contents where contents: "render_metadata a = Inr contents"
        by (cases "render_metadata a") auto
      obtain r2 p2 where put: "on_storage (write_new_file ?s (as_bytes contents)) p1 = (r2, p2)"
        by fastforce
      have files: "ap_files p1 = ?fs"
        using m1 Inr by simp
      obtain m2 where m2: "p2 = p1\<lparr>ap_machine := m2\<rparr>"
        "case r2 of Inr _ \<Rightarrow> mc_fs m2 = ?fs(?s \<mapsto> File (as_bytes contents)) | Inl _ \<Rightarrow> \<exists>n. mc_fs m2 = ?fs(?s := n)"
        using storage_post [OF put post_write_new_file] unfolding files by blast
      have "stage_record a p = c_bind (on_storage (write_new_file ?s (as_bytes contents))) (\<lambda>_. c_return ?s) p1"
        using False Inr m1 nodes contents mkdir
        by (simp add: stage_record_def paths c_bind_def)
      then have "r = (case r2 of Inl e \<Rightarrow> Inl e | Inr _ \<Rightarrow> Inr ?s) \<and> p' = p2"
        using run put by (simp add: c_bind_def split: sum.splits)
      then show ?thesis
        using m1 m2 contents False by (cases r2) auto
    qed
  qed
qed

lemma append_published_result:
  "append_published request a p = (r, p') \<Longrightarrow>
     (case r of Inl _ \<Rightarrow> p' = p
      | Inr _ \<Rightarrow> \<exists>lg. audit_append (published_event request a) (ap_log p) = Inr lg \<and> p' = p\<lparr>ap_log := lg\<rparr>)"
  by (auto simp: append_published_def split: sum.splits)

lemma commit_outcome:
  assumes "canonical (ap_root p)" and "commit_record a (pending_path (ap_root p) (art_id a)) p = (r, p')"
  shows "\<exists>m. p' = p\<lparr>ap_machine := m\<rparr> \<and> (case r of
      Inr _ \<Rightarrow> mc_fs m = (ap_files p)(record_path (ap_root p) (art_id a) := ap_files p (pending_path (ap_root p) (art_id a)),
        pending_path (ap_root p) (art_id a) := None)
    | Inl _ \<Rightarrow> mc_fs m = ap_files p \<or>
        mc_fs m = (ap_files p)(record_path (ap_root p) (art_id a) := ap_files p (pending_path (ap_root p) (art_id a)),
        pending_path (ap_root p) (art_id a) := None))"
  using storage_post [OF _ post_move [OF record_paths_differ(1)]] assms(2)
  by (fastforce simp: commit_record_def metadata_paths [OF assms(1)])

text \<open>Outside the metadata directory nothing happens but that directories appear above it.\<close>

definition outside_kept :: "path \<Rightarrow> files \<Rightarrow> files \<Rightarrow> bool" where
  "outside_kept root fs fs' \<longleftrightarrow>
     (\<forall>q. \<not> has_prefix q (metadata_directory root) \<and> fs q \<noteq> None \<longrightarrow> fs' q = fs q)"

lemma outside_simps:
  "outside_kept root fs fs" "outside_kept root fs (with_directories p fs)"
  "outside_kept root fs fs' \<Longrightarrow> outside_kept root fs (fs'(pending_path root aid := n))"
  "outside_kept root fs fs' \<Longrightarrow> outside_kept root fs (fs'(record_path root aid := n))"
  by (auto simp: outside_kept_def with_directories_def has_prefix_iff pending_path_def record_path_def)

text \<open>A staging file that is there stays.\<close>

definition pending_kept :: "path \<Rightarrow> files \<Rightarrow> files \<Rightarrow> bool" where
  "pending_kept root fs fs' \<longleftrightarrow>
     (\<forall>aid. fs (pending_path root aid) \<noteq> None \<longrightarrow> fs' (pending_path root aid) = fs (pending_path root aid))"

lemma pending_simps:
  "pending_kept root fs fs" "pending_kept root fs (with_directories (metadata_directory root) fs)"
  "pending_kept root fs fs' \<Longrightarrow> fs (pending_path root aid) = None \<Longrightarrow> pending_kept root fs (fs'(pending_path root aid := n))"
  "pending_kept root fs fs' \<Longrightarrow> pending_kept root fs (fs'(record_path root aid := n))"
  "pending_kept root fs fs' \<Longrightarrow> pending_kept root fs' fs'' \<Longrightarrow> pending_kept root fs fs''"
  by (auto simp: pending_kept_def with_directories_def)

definition register_calls :: "publish_request \<Rightarrow> artifact \<Rightarrow> (artifact_publisher, unit) call" where
  "register_calls request a = c_bind (stage_record a) (\<lambda>staging. c_bind (append_published request a) (\<lambda>_.
     commit_record a staging))"

lemma durable_recorded:
  "durable root fs records \<Longrightarrow> fs (record_path root aid) = None \<Longrightarrow> records aid = None"
  using parsed_exists unfolding durable_def record_path_def by (cases "records aid") fastforce+

text \<open>The three calls of the \<open>try\<close> block, on a disk that holds the records: they leave a disk that holds the records. The
  new one is there when they return, and it may be there when the last of them throws, after the event was logged.\<close>

lemma register_calls_outcome:
  assumes root: "canonical (ap_root p)" and aid: "art_id a \<noteq> []" and time: "art_created_at a * 1000 < 2 ^ 63"
    and durable: "durable (ap_root p) (ap_files p) records" and run: "register_calls request a p = (r, p')"
  defines "added \<equiv> records (art_id a) = None \<and> audit_append (published_event request a) (ap_log p) = Inr (ap_log p') \<and>
        durable (ap_root p) (ap_files p') (records(art_id a \<mapsto> (a, object_relative (art_sha256 a))))"
  shows "same_publisher p p' \<and> ap_store p' = ap_store p \<and> outside_kept (ap_root p) (ap_files p) (ap_files p') \<and>
    pending_kept (ap_root p) (ap_files p) (ap_files p') \<and>
    (case r of
      Inr _ \<Rightarrow> ap_files p (pending_path (ap_root p) (art_id a)) = None \<and> added
    | Inl _ \<Rightarrow> durable (ap_root p) (ap_files p') records \<or> added)"
proof -
  let ?root = "ap_root p"
  let ?fs = "with_directories (metadata_directory ?root) (ap_files p)"
  obtain r1 p1 where stage: "stage_record a p = (r1, p1)"
    by fastforce
  obtain m1 where m1: "p1 = p\<lparr>ap_machine := m1\<rparr>" and outcome: "case r1 of
      Inr staging \<Rightarrow> staging = pending_path ?root (art_id a) \<and> (\<exists>contents. render_metadata a = Inr contents \<and>
        ap_files p (pending_path ?root (art_id a)) = None \<and> ap_files p (record_path ?root (art_id a)) = None \<and>
        mc_fs m1 = ?fs(pending_path ?root (art_id a) \<mapsto> File (as_bytes contents)))
    | Inl _ \<Rightarrow> mc_fs m1 = ap_files p \<or> mc_fs m1 = ?fs \<or> (ap_files p (pending_path ?root (art_id a)) = None \<and>
         (\<exists>n. mc_fs m1 = ?fs(pending_path ?root (art_id a) := n)))"
    using stage_outcome [OF root stage] by blast
  have fs: "durable ?root ?fs records"
    by (rule durable_with_directories [OF durable])
  have same: "same_publisher p p1" "ap_store p1 = ap_store p" "ap_log p1 = ap_log p" "ap_files p1 = mc_fs m1"
    using m1 by (simp_all add: same_publisher_def)
  show ?thesis
  proof (cases r1)
    case (Inl e)
    then have "p' = p1" "\<exists>e. r = Inl e"
      using run stage by (auto simp: register_calls_def c_bind_def)
    moreover have "durable ?root (mc_fs m1) records"
      using outcome Inl durable fs durable_pending [OF fs aid] by auto
    moreover have "outside_kept ?root (ap_files p) (mc_fs m1)"
      using outcome Inl by (auto simp: outside_simps)
    moreover have "pending_kept ?root (ap_files p) (mc_fs m1)"
      using outcome Inl by (auto simp: pending_simps)
    ultimately show ?thesis
      using same by auto
  next
    case (Inr staging)
    then obtain contents where contents: "render_metadata a = Inr contents" "staging = pending_path ?root (art_id a)"
      "mc_fs m1 = ?fs(pending_path ?root (art_id a) \<mapsto> File (as_bytes contents))"
      and absent: "ap_files p (pending_path ?root (art_id a)) = None" "ap_files p (record_path ?root (art_id a)) = None"
      using outcome by auto
    have free: "records (art_id a) = None"
      using durable_recorded [OF durable] absent(2) by blast
    have staged: "durable ?root (mc_fs m1) records"
      unfolding contents(3) by (rule durable_pending [OF fs aid])
    have kept: "outside_kept ?root (ap_files p) (mc_fs m1)"
      unfolding contents(3) by (intro outside_simps)
    have pending: "pending_kept ?root (ap_files p) (mc_fs m1)"
      unfolding contents(3) by (intro pending_simps absent(1))
    obtain r2 p2 where append: "append_published request a p1 = (r2, p2)"
      by fastforce
    show ?thesis
    proof (cases r2)
      case (Inl e)
      then have "p' = p1" "\<exists>e. r = Inl e"
        using run stage append Inr append_published_result [OF append] by (auto simp: register_calls_def c_bind_def)
      then show ?thesis
        using same staged kept pending by auto
    next
      case (Inr u)
      obtain lg where lg: "audit_append (published_event request a) (ap_log p) = Inr lg" "p2 = p1\<lparr>ap_log := lg\<rparr>"
        using append_published_result [OF append] Inr same(3) by auto
      have root2: "ap_root p2 = ?root"
        using lg m1 by simp
      have files2: "ap_files p2 = mc_fs m1"
        using lg m1 by simp
      have commit: "commit_record a (pending_path (ap_root p2) (art_id a)) p2 = (r, p')"
        using run stage append Inr \<open>r1 = Inr staging\<close> contents(2) root2
        by (simp add: register_calls_def c_bind_def)
      obtain m3 where m3: "p' = p2\<lparr>ap_machine := m3\<rparr>" "case r of
          Inr _ \<Rightarrow> mc_fs m3 = (mc_fs m1)(record_path ?root (art_id a) := mc_fs m1 (pending_path ?root (art_id a)),
            pending_path ?root (art_id a) := None)
        | Inl _ \<Rightarrow> mc_fs m3 = mc_fs m1 \<or>
          mc_fs m3 = (mc_fs m1)(record_path ?root (art_id a) := mc_fs m1 (pending_path ?root (art_id a)),
            pending_path ?root (art_id a) := None)"
        using commit_outcome [OF _ commit] root unfolding root2 files2 by blast
      have fields: "same_publisher p p'" "ap_store p' = ap_store p" "ap_log p' = lg" "ap_files p' = mc_fs m3"
        using m3(1) lg(2) m1 by (simp_all add: same_publisher_def)
      have moved: "outside_kept ?root (ap_files p) (mc_fs m3) \<and> pending_kept ?root (ap_files p) (mc_fs m3) \<and> added"
        if "mc_fs m3 = (mc_fs m1)(record_path ?root (art_id a) := mc_fs m1 (pending_path ?root (art_id a)),
            pending_path ?root (art_id a) := None)"
      proof (intro conjI)
        have "mc_fs m1 (metadata_directory ?root) \<noteq> None"
          using record_paths_differ(5) [of ?root "art_id a"] by (simp add: contents(3) with_directories_def)
        then have "durable ?root (mc_fs m3) (records(art_id a \<mapsto> (a, object_relative (art_sha256 a))))"
          using that durable_commit [OF staged _ _ contents(1) time aid] contents(3) by simp
        then show added
          using free lg(1) fields by (simp add: added_def)
      qed (use that kept pending absent in \<open>simp_all add: outside_simps pending_simps\<close>)
      show ?thesis
        using m3(2) moved fields staged kept pending absent(1) by (cases r) auto
    qed
  qed
qed

text \<open>The records of a publisher.\<close>

definition ap_records :: "artifact_publisher \<Rightarrow> (string \<rightharpoonup> artifact \<times> fs_path)" where
  "ap_records p = as_records (ap_store p)"

text \<open>The metadata on the disk: that of every record, and perhaps of artifacts whose publication threw after the
  metadata file had been moved into place.\<close>

definition store_holds :: "artifact_publisher \<Rightarrow> (string \<rightharpoonup> artifact \<times> fs_path) \<Rightarrow> bool" where
  "store_holds p known \<longleftrightarrow> canonical (ap_root p) \<and> durable (ap_root p) (ap_files p) known \<and> ap_records p \<subseteq>\<^sub>m known"

definition store_durable :: "artifact_publisher \<Rightarrow> bool" where
  "store_durable p \<longleftrightarrow> (\<exists>known. store_holds p known)"

text \<open>What a call makes of the metadata on the disk.\<close>

definition metadata_after :: "publish_request \<Rightarrow> string \<Rightarrow> artifact_publisher \<Rightarrow> artifact result \<Rightarrow> artifact_publisher \<Rightarrow>
    (string \<rightharpoonup> artifact \<times> fs_path) \<Rightarrow> (string \<rightharpoonup> artifact \<times> fs_path) \<Rightarrow> bool" where
  "metadata_after request aid p r p' known known' \<longleftrightarrow> store_holds p' known' \<and>
     (known' = known \<and> (\<exists>e. r = Inl e) \<or>
      (\<exists>a. art_id a = aid \<and> known aid = None \<and> known' = known(aid \<mapsto> (a, object_relative (art_sha256 a))) \<and>
        audit_append (published_event request a) (ap_log p) = Inr (ap_log p')))"

lemma registered_metadata:
  assumes "canonical (ap_root p')" and "ap_records p' \<subseteq>\<^sub>m known \<or> ap_records p' \<subseteq>\<^sub>m known(art_id a \<mapsto> (a, object_relative (art_sha256 a)))"
    and "durable (ap_root p') (ap_files p') known \<and> (\<exists>e. r = Inl e) \<and> ap_records p' \<subseteq>\<^sub>m known \<or>
      known (art_id a) = None \<and> audit_append (published_event request a) (ap_log p) = Inr (ap_log p') \<and>
      durable (ap_root p') (ap_files p') (known(art_id a \<mapsto> (a, object_relative (art_sha256 a))))"
  shows "\<exists>known'. metadata_after request (art_id a) p r p' known known'"
  using assms(3)
proof (elim disjE conjE exE)
  fix e
  assume "durable (ap_root p') (ap_files p') known" "r = Inl e" "ap_records p' \<subseteq>\<^sub>m known"
  then show ?thesis
    using assms(1) by (intro exI [of _ known]) (simp add: metadata_after_def store_holds_def)
next
  let ?known = "known(art_id a \<mapsto> (a, object_relative (art_sha256 a)))"
  assume free: "known (art_id a) = None" "audit_append (published_event request a) (ap_log p) = Inr (ap_log p')"
    "durable (ap_root p') (ap_files p') ?known"
  have "known \<subseteq>\<^sub>m ?known"
    using free(1) by (auto simp: map_le_def)
  then have "ap_records p' \<subseteq>\<^sub>m ?known"
    using assms(2) map_le_trans by blast
  then show ?thesis
    using assms(1) free unfolding metadata_after_def store_holds_def by (intro exI [of _ ?known]) blast
qed

lemma register_outcome:
  assumes store: "store_holds p known" and time: "art_created_at a * 1000 < 2 ^ 63"
    and run: "register_artifact request a p = (r, p')"
  shows "same_publisher p p' \<and> (\<exists>known'. metadata_after request (art_id a) p r p' known known') \<and>
    outside_kept (ap_root p) (ap_files p) (ap_files p') \<and> pending_kept (ap_root p) (ap_files p) (ap_files p') \<and>
    (case r of
      Inr b \<Rightarrow> b = a \<and> ap_files p (pending_path (ap_root p) (art_id a)) = None \<and> validate_artifact a = Inr () \<and> ap_records p (art_id a) = None \<and>
        ap_records p' = (ap_records p)(art_id a \<mapsto> (a, object_relative (art_sha256 a))) \<and>
        audit_append (published_event request a) (ap_log p) = Inr (ap_log p')
    | Inl _ \<Rightarrow> ap_records p' = ap_records p)"
proof (cases "validate_artifact a = Inr () \<and> ap_records p (art_id a) = None")
  case False
  then have thrown: "\<exists>e. r = Inl e \<and> p' = p"
    using run by (auto simp: register_artifact_def c_bind_def c_check_def ap_records_def throw_if_def split: sum.splits if_splits)
  then have "metadata_after request (art_id a) p r p' known known"
    using store by (auto simp: metadata_after_def)
  then show ?thesis
    using thrown by (auto simp: same_publisher_def outside_simps pending_simps)
next
  case True
  let ?new = "(a, object_relative (art_sha256 a))"
  let ?p = "p\<lparr>ap_store := (ap_store p)\<lparr>as_records := (as_records (ap_store p))(art_id a \<mapsto> ?new)\<rparr>\<rparr>"
  obtain r1 p1 where calls: "register_calls request a ?p = (r1, p1)"
    by fastforce
  have p_fields: "ap_root ?p = ap_root p" "ap_files ?p = ap_files p" "ap_log ?p = ap_log p"
    by (simp_all add: ap_root_def ap_files_def)
  have aid: "art_id a \<noteq> []"
    using True by (auto simp: validate_artifact_ok valid_id_def)
  have canonical: "canonical (ap_root ?p)" and durable: "durable (ap_root ?p) (ap_files ?p) known" and le: "ap_records p \<subseteq>\<^sub>m known"
    using store by (simp_all add: store_holds_def p_fields)
  note outcome = register_calls_outcome [OF canonical aid time durable calls]
  have run1: "register_artifact request a p = (case r1 of
      Inl e \<Rightarrow> (Inl e, p1\<lparr>ap_store := (ap_store p1)\<lparr>as_records := (as_records (ap_store p1))(art_id a := None)\<rparr>\<rparr>)
    | Inr _ \<Rightarrow> (Inr a, p1))"
    using True calls
    by (simp add: register_artifact_def c_bind_def c_check_def ap_records_def c_modify_def c_catch_rethrow_def
        register_calls_def split: sum.split prod.split)
  show ?thesis
  proof (cases r1)
    case (Inl e)
    then have r: "r = Inl e" "p' = p1\<lparr>ap_store := (ap_store p1)\<lparr>as_records := (as_records (ap_store p1))(art_id a := None)\<rparr>\<rparr>"
      using run run1 by simp_all
    have records: "ap_records p' = ap_records p"
      using outcome r True by (auto simp: ap_records_def fun_eq_iff)
    have same: "ap_files p' = ap_files p1" "ap_root p' = ap_root p1" "same_publisher p1 p'" "ap_log p' = ap_log p1"
      by (simp_all add: r ap_files_def ap_root_def same_publisher_def)
    moreover have "\<exists>known'. metadata_after request (art_id a) p r p' known known'"
      using outcome Inl r(1) canonical le by (intro registered_metadata) (auto simp: records same same_publisher_def p_fields)
    ultimately show ?thesis
      using outcome Inl r(1) records by (auto simp: same_publisher_def p_fields)
  next
    case (Inr u)
    then have r: "r = Inr a" "p' = p1"
      using run run1 by simp_all
    have records: "ap_records p' = (ap_records p)(art_id a \<mapsto> ?new)"
      using outcome r by (simp add: ap_records_def)
    have "ap_records p' \<subseteq>\<^sub>m known(art_id a \<mapsto> ?new)"
      using le by (auto simp: records map_le_def)
    then have "\<exists>known'. metadata_after request (art_id a) p r p' known known'"
      using outcome Inr r canonical by (intro registered_metadata) (auto simp: same_publisher_def p_fields)
    then show ?thesis
      using outcome Inr r True records by (auto simp: same_publisher_def p_fields)
  qed
qed

section \<open>The object\<close>

lemma keeps_transfer_chunks:
  assumes "ft_staging_path t0 \<noteq> q" "\<not> has_prefix (butlast (ft_destination_path t0)) q"
  shows "c_keeps (node_holds t0 q n) (transfer_chunks cs missing rest)"
proof (induction cs arbitrary: rest)
  case (Cons c cs)
  then show ?case
    using keeps_accept [OF assms] by (auto simp: Let_def intro: c_keeps_bind c_keeps_pure)
qed (simp add: c_keeps_pure)

lemma keeps_run_transfer:
  assumes "ft_staging_path t0 \<noteq> q" "ft_destination_path t0 \<noteq> q" "\<not> has_prefix (butlast (ft_destination_path t0)) q"
  shows "c_keeps (node_holds t0 q n) (run_transfer source plan)"
proof (rule keeps_split)
  fix t
  have "c_keeps (node_holds t0 q n) (c_bind (transfer_chunks (tp_chunks plan) (missing_chunks t) content) (\<lambda>_. finalize_transfer))"
    for content
    using keeps_transfer_chunks [OF assms(1,3)] keeps_finalize [OF assms(1,2)] by (rule c_keeps_bind)
  moreover have "c_keeps (node_holds t0 q n) (c_throw e)" for e
    by (rule c_keeps_pure)
  moreover have "run_transfer source plan t = finalize_transfer t \<or> (\<exists>e. run_transfer source plan t = c_throw e t) \<or>
      (\<exists>content. run_transfer source plan t =
        c_bind (transfer_chunks (tp_chunks plan) (missing_chunks t) content) (\<lambda>_. finalize_transfer) t)"
    by (auto simp: run_transfer_def split: option.split)
  ultimately show "\<exists>m'. run_transfer source plan t = m' t \<and> c_keeps (node_holds t0 q n) m'"
    using keeps_finalize [OF assms(1,2), of n] by blast
qed

lemma run_transfer_planned:
  assumes paths: "ft_staging_path t \<noteq> ft_destination_path t" "ft_destination_path t \<noteq> []"
    and run: "run_transfer source plan t = (Inr u, t')"
  shows "planned (ft_plan t) (ft_files t' (ft_destination_path t))"
proof -
  let ?n = "ft_files t (ft_destination_path t)"
  have start: "destination_holds t ?n t"
    by (simp add: destination_holds_def same_transfer_def)
  show ?thesis
  proof (cases "transfer_complete t")
    case True
    then show ?thesis
      using c_postD [OF post_finalize [OF paths(1)] start, of u t'] run by (simp add: run_transfer_def)
  next
    case False
    then obtain content where "c_bind (transfer_chunks (tp_chunks plan) (missing_chunks t) content) (\<lambda>_. finalize_transfer) t =
        (Inr u, t')"
      using run by (auto simp: run_transfer_def split: option.splits)
    then obtain t1 where t1: "transfer_chunks (tp_chunks plan) (missing_chunks t) content t = (Inr (), t1)"
      "finalize_transfer t1 = (Inr u, t')"
      by (auto simp: c_bind_def split: prod.splits sum.splits)
    have "destination_holds t ?n t1"
      using keeps_snd [OF keeps_transfer_chunks [OF paths(1) parent_not_below [OF paths(2)]],
          of ?n t "tp_chunks plan" "missing_chunks t" content] start t1(1)
      by (simp add: destination_node)
    then show ?thesis
      using c_postD [OF post_finalize [OF paths(1)] _ t1(2)] by blast
  qed
qed

lemma transfer_file_outcome:
  assumes root: "canonical root" and run: "transfer_file source root plan m = (r, m')"
    and dest: "d = root @ path_components (tp_relative_path plan)"
  shows "(r = Inr () \<longrightarrow> planned plan (mc_fs m' d)) \<and>
    (\<forall>q. q \<noteq> d \<and> butlast q \<noteq> butlast d \<and> \<not> has_prefix (butlast d) q \<longrightarrow> mc_fs m' q = mc_fs m q)"
proof (cases "new_file_transfer root plan m")
  case (Inl e)
  then show ?thesis
    using run by (auto simp: transfer_file_def)
next
  case (Inr t)
  note paths = new_transfer_paths [OF Inr root]
  obtain t' where t': "run_transfer source plan t = (r, t')" "m' = ft_machine t'"
    using run Inr by (auto simp: transfer_file_def split: prod.splits)
  have "mc_fs m' q = mc_fs m q" if q: "q \<noteq> d" "butlast q \<noteq> butlast d" "\<not> has_prefix (butlast d) q" for q
  proof -
    have "ft_staging_path t \<noteq> q" "ft_destination_path t \<noteq> q" "\<not> has_prefix (butlast (ft_destination_path t)) q"
      using q paths dest by auto
    then have "node_holds t q (ft_files t q) t'"
      using keeps_snd [OF keeps_run_transfer, of t q "ft_files t q" t source plan] t'(1)
      by (simp add: node_holds_def same_transfer_def)
    then show ?thesis
      using t'(2) paths by (simp add: node_holds_def ft_files_def)
  qed
  moreover have "planned plan (mc_fs m' d)" if "r = Inr ()"
  proof -
    have "ft_staging_path t \<noteq> ft_destination_path t" "ft_destination_path t \<noteq> []" "ft_plan t = plan" "ft_destination_path t = d"
      using paths dest by blast+
    then show ?thesis
      using run_transfer_planned [of t source plan "()" t'] t' that by (simp add: ft_files_def)
  qed
  ultimately show ?thesis
    by blast
qed

lemma hex_char: "is_lower_hex_digit c \<Longrightarrow> c \<noteq> CHR ''/'' \<and> c \<noteq> CHR ''.''"
  by (auto simp: is_lower_hex_digit_def)

definition object_path :: "path \<Rightarrow> string \<Rightarrow> path" where
  "object_path root h = root @ [''objects'', take 2 h, h]"

lemma path_components_cons: "CHR ''/'' \<notin> set a \<Longrightarrow> path_components (a @ CHR ''/'' # b) = a # path_components b"
  by (subst path_components.simps) (auto simp: takeWhile_tail dropWhile_append)

lemma path_components_last: "b \<noteq> [] \<Longrightarrow> CHR ''/'' \<notin> set b \<Longrightarrow> path_components b = [b]"
proof -
  assume b: "b \<noteq> []" "CHR ''/'' \<notin> set b"
  then have "takeWhile (\<lambda>c. c \<noteq> CHR ''/'') b = b" "dropWhile (\<lambda>c. c \<noteq> CHR ''/'') b = []"
    by (auto simp: takeWhile_eq_all_conv)
  then show ?thesis
    using b(1) path_components.simps [of "[]"]
    by (subst path_components.simps) (simp del: dropWhile_eq_Nil_conv takeWhile_eq_all_conv)
qed

lemma object_paths:
  assumes "is_sha256_hex h" and "canonical root"
  shows "scope_resolve root (object_relative h) = Inr (object_path root h)"
    and "path_components (''objects/'' @ take 2 h @ ''/'' @ h) = [''objects'', take 2 h, h]"
proof -
  have chars: "c \<noteq> CHR ''/'' \<and> c \<noteq> CHR ''.''" if "c \<in> set h" for c
    using assms(1) that hex_char by (auto simp: is_sha256_hex_def list_all_iff)
  have length: "length h = 64"
    using assms(1) by (simp add: is_sha256_hex_def)
  have "CHR ''.'' \<notin> set (take 2 h)" "CHR ''.'' \<notin> set h"
    using chars by (auto dest: in_set_takeD)
  then have "take 2 h \<noteq> ''.''" "take 2 h \<noteq> ''..''" "h \<noteq> ''.''" "h \<noteq> ''..''" "h \<noteq> []"
    using length by auto
  then show "scope_resolve root (object_relative h) = Inr (object_path root h)"
    using scope_resolve_plain [OF assms(2), of "[''objects'', take 2 h, h]"]
    by (auto simp: object_relative_def object_path_def canonical_def)
  have "CHR ''/'' \<notin> set (take 2 h)" "CHR ''/'' \<notin> set h"
    using chars by (auto dest: in_set_takeD)
  then show "path_components (''objects/'' @ take 2 h @ ''/'' @ h) = [''objects'', take 2 h, h]"
    using path_components_cons [of "''objects''" "take 2 h @ ''/'' @ h"] path_components_cons [of "take 2 h" h]
      path_components_last [OF \<open>h \<noteq> []\<close>]
    by simp
qed

lemma plan_file_fields:
  "plan_file fs source tid rel n = Inr plan \<Longrightarrow> \<exists>content. content_at fs source = Some content \<and>
     sha256_file (Some content) = Inr (tp_sha256 plan) \<and> tp_total_size plan = of_nat (length content) \<and>
     tp_relative_path plan = rel"
  by (auto simp: plan_file_def result_simps Let_def split: option.splits if_splits)

lemma transfer_needs_hex: "new_file_transfer root plan m = Inr t \<Longrightarrow> is_sha256_hex (tp_sha256 plan)"
  by (auto simp: new_file_transfer_def validate_plan_def result_simps split: if_splits)

lemma durable_same_metadata:
  assumes "durable root fs records" and "fs' (metadata_directory root) = fs (metadata_directory root)"
    and "\<And>n. fs' (metadata_directory root @ [n]) = fs (metadata_directory root @ [n])"
  shows "durable root fs' records"
  by (rule durable_local [OF assms(1)]) (use assms in \<open>auto simp: durable_def regular_file_def\<close>)

text \<open>Storing an object: the metadata stays, and when the call returns, what is at the place of the object has the size
  and the digest of the source.\<close>

lemma store_object_outcome:
  assumes store: "store_holds p known" and source: "content_at (ap_files p) source = Some content"
    "sha256_file (Some content) = Inr h"
    and dest: "scope_resolve (ap_root p) (object_relative h) = Inr destination"
    and run: "store_object source content h destination p = (r, p')"
  shows "\<exists>m. p' = p\<lparr>ap_machine := m\<rparr> \<and> store_holds p' known \<and>
    pending_kept (ap_root p) (ap_files p) (mc_fs m) \<and>
    (r = Inr () \<longrightarrow> (\<exists>c. mc_fs m destination = Some (File c) \<and> (of_nat (length c) :: u64) = of_nat (length content) \<and>
      sha256_file (Some c) = Inr h))"
proof -
  have here: "p = p\<lparr>ap_machine := ap_machine p\<rparr>"
    by simp
  show ?thesis
  proof (cases "ap_files p destination \<noteq> None \<or> (\<exists>e. plan_file (ap_files p) source (''publish-'' @ take 32 h)
      (''objects/'' @ take 2 h @ ''/'' @ h) max_chunk_size = Inl e)")
    case True
    then have "p' = p \<and> (r = Inr () \<longrightarrow> (\<exists>c. mc_fs (ap_machine p) destination = Some (File c) \<and>
        (of_nat (length c) :: u64) = of_nat (length content) \<and> sha256_file (Some c) = Inr h))"
      using run by (auto simp: store_object_def content_at_def ap_files_def c_check_def result_simps throw_if_eq_Inr
          split: option.splits fs_node.splits if_splits sum.splits)
    then show ?thesis
      using here store by (intro exI [of _ "ap_machine p"]) (simp add: ap_files_def pending_simps)
  next
    case False
    then obtain plan where plan: "plan_file (ap_files p) source (''publish-'' @ take 32 h)
        (''objects/'' @ take 2 h @ ''/'' @ h) max_chunk_size = Inr plan"
      by (cases "plan_file (ap_files p) source (''publish-'' @ take 32 h) (''objects/'' @ take 2 h @ ''/'' @ h) max_chunk_size")
        auto
    then have fields: "tp_sha256 plan = h" "tp_total_size plan = of_nat (length content)"
      "tp_relative_path plan = ''objects/'' @ take 2 h @ ''/'' @ h"
      using plan_file_fields [OF plan] source by auto
    have "on_storage (transfer_file source (ap_root p) plan) p = (r, p')"
      using run False plan by (simp add: store_object_def)
    then obtain m where m: "transfer_file source (ap_root p) plan (ap_machine p) = (r, m)" "p' = p\<lparr>ap_machine := m\<rparr>"
      using on_storage_result by blast
    have root: "canonical (ap_root p)"
      using store by (simp add: store_holds_def)
    show ?thesis
    proof (cases "new_file_transfer (ap_root p) plan (ap_machine p)")
      case (Inl e)
      then have "r = Inl e" "m = ap_machine p"
        using m(1) by (simp_all add: transfer_file_def)
      then show ?thesis
        using m(2) store here by (intro exI [of _ m]) (simp add: ap_files_def pending_simps)
    next
      case (Inr t)
      then have hex: "is_sha256_hex h"
        using transfer_needs_hex fields by blast
      have path: "object_path (ap_root p) h = ap_root p @ path_components (tp_relative_path plan)"
        unfolding fields object_path_def object_paths(2) [OF hex root] by (rule refl)
      have destination: "destination = object_path (ap_root p) h"
        using dest object_paths(1) [OF hex root] by simp
      note outcome = transfer_file_outcome [OF root m(1) path]
      have "mc_fs m (metadata_directory (ap_root p)) = ap_files p (metadata_directory (ap_root p))"
        using outcome by (auto simp: object_path_def metadata_directory_def has_prefix_iff ap_files_def butlast_append)
      moreover have "mc_fs m (metadata_directory (ap_root p) @ [n]) = ap_files p (metadata_directory (ap_root p) @ [n])" for n
        using outcome by (auto simp: object_path_def metadata_directory_def has_prefix_iff ap_files_def butlast_append)
      ultimately have "store_holds p' known" "pending_kept (ap_root p) (ap_files p) (mc_fs m)"
        using store durable_same_metadata [of "ap_root p" "ap_files p" known "mc_fs m"]
        by (simp_all add: m(2) store_holds_def ap_records_def pending_kept_def pending_path_def)
      moreover have "\<exists>c. mc_fs m destination = Some (File c) \<and> (of_nat (length c) :: u64) = of_nat (length content) \<and>
          sha256_file (Some c) = Inr h" if "r = Inr ()"
        using outcome that by (auto simp: planned_def destination fields split: option.splits fs_node.splits)
      ultimately show ?thesis
        using m(2) by blast
    qed
  qed
qed

lemma publish_checks_result:
  "publish_checks request p = Inr (build, source, content, h, destination) \<Longrightarrow>
     content_at (ap_files p) source = Some content \<and> sha256_file (Some content) = Inr h \<and>
     scope_resolve (ap_root p) (object_relative h) = Inr destination \<and> valid_id (pq_id request) \<and>
     (\<exists>job. ap_builds p (pq_build_id request) = Some job \<and> bj_state job = Build_succeeded \<and> bj_request job = build \<and>
       bq_pinned_revision build = pq_source_revision request)"
  by (auto simp: publish_checks_def job_at_def result_simps split: option.splits if_splits)

text \<open>What a publication does to the store, whether it returns or throws.\<close>

lemma publish_outcome:
  assumes store: "store_holds p known" and time: "now * 1000 < 2 ^ 63" and run: "publish request now p = (r, p')"
  shows "(\<exists>known'. metadata_after request (pq_id request) p r p' known known') \<and> same_publisher p p' \<and> pending_kept (ap_root p) (ap_files p) (ap_files p') \<and> (case r of
      Inr a \<Rightarrow> art_id a = pq_id request \<and> ap_records p (art_id a) = None \<and>
        ap_records p' = (ap_records p)(art_id a \<mapsto> (a, object_relative (art_sha256 a))) \<and>
        store_verify (ap_files p') (ap_store p') (art_id a) = Inr True \<and>
        ap_files p (pending_path (ap_root p) (art_id a)) = None \<and>
        audit_append (published_event request a) (ap_log p) = Inr (ap_log p') \<and>
        (\<exists>job. ap_builds p (art_build_id a) = Some job \<and> bj_state job = Build_succeeded \<and>
          bq_pinned_revision (bj_request job) = art_source_revision a \<and> bq_workspace_id (bj_request job) = art_workspace_id a)
    | Inl _ \<Rightarrow> ap_records p' = ap_records p)"
proof (cases "publish_checks request p")
  case (Inl e)
  then show ?thesis
    using run store by (auto simp: publish_def same_publisher_def pending_simps metadata_after_def)
next
  case (Inr x)
  obtain build source content h destination where x: "x = (build, source, content, h, destination)"
    by (cases x) auto
  note checks = publish_checks_result [OF Inr [unfolded x]]
  let ?a = "\<lparr>art_id = pq_id request, art_workspace_id = bq_workspace_id build,
         art_build_id = pq_build_id request, art_source_revision = pq_source_revision request, art_name = pq_name request,
         art_sha256 = h, art_size = of_nat (length content), art_platform = pq_platform request,
         art_architecture = pq_architecture request, art_created_at = now\<rparr>"
  obtain r1 p1 where object: "store_object source content h destination p = (r1, p1)"
    by fastforce
  obtain m where m: "p1 = p\<lparr>ap_machine := m\<rparr>" "store_holds p1 known" "pending_kept (ap_root p) (ap_files p) (ap_files p1)" "r1 = Inr () \<longrightarrow>
      (\<exists>c. mc_fs m destination = Some (File c) \<and> (of_nat (length c) :: u64) = of_nat (length content) \<and>
      sha256_file (Some c) = Inr h)"
    using store_object_outcome [OF store _ _ _ object] checks by auto
  have same: "same_publisher p p1" "ap_records p1 = ap_records p" "ap_log p1 = ap_log p"
    using m(1) by (simp_all add: same_publisher_def ap_records_def)
  show ?thesis
  proof (cases r1)
    case (Inl e)
    then show ?thesis
      using run Inr object m same by (auto simp: publish_def x c_bind_def metadata_after_def)
  next
    case (Inr u)
    then have register: "register_artifact request ?a p1 = (r, p')"
      using run \<open>publish_checks request p = Inr x\<close> object by (simp add: publish_def x c_bind_def)
    have "art_created_at ?a * 1000 < 2 ^ 63"
      using time by simp
    note outcome = register_outcome [OF m(2) this register]
    have r: "r = Inr ?a \<or> (\<exists>e. r = Inl e)"
      using outcome by (cases r) auto
    have "store_verify (ap_files p') (ap_store p') (pq_id request) = Inr True" if ok: "r = Inr ?a"
    proof -
      have entry: "as_records (ap_store p') (pq_id request) = Some (?a, object_relative h)"
        and valid: "validate_artifact ?a = Inr ()" and kept: "outside_kept (ap_root p1) (ap_files p1) (ap_files p')"
        and root: "ap_root p' = ap_root p"
        using outcome ok same by (auto simp: ap_records_def same_publisher_def)
      have "is_sha256_hex h" "canonical (ap_root p)"
        using valid store by (auto simp: validate_artifact_ok store_holds_def)
      then have "destination = object_path (ap_root p) h"
        using checks object_paths(1) [of h "ap_root p"] by simp
      then have "\<not> has_prefix destination (metadata_directory (ap_root p1))"
        using m(1) by (auto simp: object_path_def metadata_directory_def has_prefix_iff)
      moreover obtain c where c: "ap_files p1 destination = Some (File c)" "(of_nat (length c) :: u64) = of_nat (length content)"
        "sha256_file (Some c) = Inr h"
        using m Inr by auto
      ultimately have "ap_files p' destination = Some (File c)"
        using kept unfolding outside_kept_def by (metis option.distinct(1))
      then show ?thesis
        using c checks entry root
        by (simp add: store_verify_def store_metadata_def store_object_path_def file_matches_def content_at_def ap_root_def)
    qed
    moreover have "ap_files p (pending_path (ap_root p) (pq_id request)) = None" if "r = Inr ?a"
      using outcome that m(1,3) by (auto simp: pending_kept_def)
    moreover have "pending_kept (ap_root p) (ap_files p) (ap_files p')"
      using outcome m(1) pending_simps(5) [OF m(3)] by simp
    moreover have "\<exists>known'. metadata_after request (pq_id request) p r p' known known'"
      using outcome same(3) by (simp add: metadata_after_def)
    ultimately show ?thesis
      using outcome r same checks by (auto simp: same_publisher_def)
  qed
qed

end
