(* ===== verification/Object_Delivery.thy ===== *)
theory Object_Delivery
  imports Artifact_Store
begin

text \<open>
  The plan of a file cuts it into chunks without gap or overlap, and transferring the file by its plan copies it.
\<close>

text \<open>Chunks that cut a content, from a position to its end.\<close>

fun tiling :: "byte list \<Rightarrow> nat \<Rightarrow> nat \<Rightarrow> chunk_descriptor list \<Rightarrow> bool" where
  "tiling content index p [] \<longleftrightarrow> p = length content"
| "tiling content index p (c # cs) \<longleftrightarrow> ck_index c = index \<and> unat (ck_offset c) = p \<and> 0 < ck_size c \<and>
     p + ck_size c \<le> length content \<and> sha256_hex (chunk_bytes c content) = Inr (ck_sha256 c) \<and>
     tiling content (index + 1) (p + ck_size c) cs"

lemma plan_chunks_tiling:
  assumes "plan_chunks bytes_total chunk_size index position rest = Inr cs" and "rest = drop (unat position) content"
    and "bytes_total = of_nat (length content)" and "length content < 2 ^ 63" and "unat position \<le> length content"
  shows "tiling content index (unat position) cs"
  using assms
proof (induction bytes_total chunk_size index position rest arbitrary: cs rule: plan_chunks.induct)
  case (1 bytes_total chunk_size index position rest)
  have total: "unat bytes_total = length content"
    using "1.prems"(3,4) by (simp add: unat_of_nat)
  show ?case
  proof (cases "position < bytes_total")
    case False
    then have "cs = []"
      using "1.prems"(1) by (subst (asm) plan_chunks.simps) simp
    then show ?thesis
      using False total "1.prems"(5) by (simp add: word_less_nat_alt)
  next
    case True
    let ?bytes = "take (unat (min (bytes_total - position) (of_nat chunk_size))) rest"
    let ?n = "length ?bytes"
    let ?position = "position + of_nat ?n"
    have step: "plan_chunks bytes_total chunk_size index position rest =
        (if ?bytes = [] then throw (Runtime_error ''artifact source ended before its declared size'')
         else and_then (sha256_hex ?bytes) (\<lambda>h.
           and_then (plan_chunks bytes_total chunk_size (index + 1) ?position (drop ?n rest))
             (\<lambda>cs. ok (\<lparr>ck_index = index, ck_offset = position, ck_size = ?n, ck_sha256 = h\<rparr> # cs))))"
      using True by (subst plan_chunks.simps) (simp only: Let_def if_True)
    obtain h cs' where cs: "?bytes \<noteq> []" "sha256_hex ?bytes = Inr h"
      "plan_chunks bytes_total chunk_size (index + 1) ?position (drop ?n rest) = Inr cs'"
      "cs = \<lparr>ck_index = index, ck_offset = position, ck_size = ?n, ck_sha256 = h\<rparr> # cs'"
      using "1.prems"(1) unfolding step by (auto simp: result_simps simp del: length_take split: if_split_asm)
    have n: "unat position + ?n \<le> length content"
      using "1.prems"(2) True total by (simp add: word_less_nat_alt)
    then have position: "unat ?position = unat position + ?n"
      using "1.prems"(4) by (simp add: unat_word_ariths unat_of_nat del: length_take)
    have "tiling content (index + 1) (unat ?position) cs'"
    proof (rule "1.IH" [OF True refl refl cs(1) cs(3)])
      show "drop ?n rest = drop (unat ?position) content"
        unfolding position by (simp only: "1.prems"(2) drop_drop add.commute)
    qed (use "1.prems" n position in simp_all)
    moreover have "chunk_bytes \<lparr>ck_index = index, ck_offset = position, ck_size = ?n, ck_sha256 = h\<rparr> content = ?bytes"
      using "1.prems"(2) by (simp add: chunk_bytes_def min_def)
    ultimately show ?thesis
      using cs n position by (simp del: length_take)
  qed
qed

lemma tiling_in:
  "tiling content index p cs \<Longrightarrow> c \<in> set cs \<Longrightarrow>
     unat (ck_offset c) + ck_size c \<le> length content \<and> sha256_hex (chunk_bytes c content) = Inr (ck_sha256 c)"
  by (induction content index p cs rule: tiling.induct) auto

lemma tiling_covers:
  "tiling content index p cs \<Longrightarrow> p \<le> k \<Longrightarrow> k < length content \<Longrightarrow> \<exists>c \<in> set cs. in_chunk c k"
proof (induction content index p cs rule: tiling.induct)
  case (2 content index p c cs)
  then show ?case
    by (cases "k < p + ck_size c") (auto simp: in_chunk_def)
qed simp

lemma plan_file_describes:
  assumes "plan_file fs source tid rel n = Inr plan" and "content_at fs source = Some content" and "length content < 2 ^ 64"
  shows "describes plan content \<and> tiling content 0 0 (tp_chunks plan)"
proof -
  have plan: "(of_nat (length content) :: u64) \<le> streamoff_max" "sha256_file (Some content) = Inr (tp_sha256 plan)"
    "plan_chunks (of_nat (length content)) n 0 0 content = Inr (tp_chunks plan)" "tp_total_size plan = of_nat (length content)"
    using assms(1,2) by (auto simp: plan_file_def result_simps Let_def not_less split: if_splits)
  have small: "length content < 2 ^ 63"
    using plan(1) assms(3) by (simp add: word_le_nat_alt streamoff_max_def unat_of_nat)
  have "tiling content 0 0 (tp_chunks plan)"
    using plan_chunks_tiling [OF plan(3), of content] small by simp
  then show ?thesis
    using plan small tiling_in tiling_covers by (auto simp: describes_def)
qed

text \<open>The chunks that are missing are accepted in their order.\<close>

lemma receive_missing:
  assumes "receiving t0 content t" and "describes (ft_plan t0) content" and "tiling content index p cs"
    and "cs = drop index (tp_chunks (ft_plan t0))"
    and paths: "\<not> has_prefix (butlast (ft_destination_path t0)) (ft_staging_path t0)"
  shows "\<exists>t'. transfer_chunks cs missing (drop p content) t = (Inr (), t') \<and> receiving t0 content t' \<and>
    ft_confirmed t' = ft_confirmed t \<union> (set missing \<inter> {index..<length (tp_chunks (ft_plan t0))})"
  using assms(1,3,4)
proof (induction cs arbitrary: index p t)
  case Nil
  then have "{index..<length (tp_chunks (ft_plan t0))} = {}"
    using drop_eq_Nil [of index "tp_chunks (ft_plan t0)"] by simp
  then show ?case
    using Nil by simp
next
  case (Cons c cs)
  have c: "ck_index c = index" "unat (ck_offset c) = p" "0 < ck_size c" "p + ck_size c \<le> length content"
    "tiling content (index + 1) (p + ck_size c) cs"
    using Cons.prems(2) by auto
  have less: "index < length (tp_chunks (ft_plan t0))"
  proof (rule ccontr)
    assume "\<not> index < length (tp_chunks (ft_plan t0))"
    then show False
      using Cons.prems(3) by simp
  qed
  have "c # cs = tp_chunks (ft_plan t0) ! index # drop (Suc index) (tp_chunks (ft_plan t0))"
    using Cons.prems(3) Cons_nth_drop_Suc [OF less] by simp
  then have index: "index < length (tp_chunks (ft_plan t0))" "c = tp_chunks (ft_plan t0) ! index"
    "cs = drop (index + 1) (tp_chunks (ft_plan t0))"
    using less by simp_all
  have bytes: "take (ck_size c) (drop p content) = chunk_bytes c content" "chunk_bytes c content \<noteq> []"
    "length (chunk_bytes c content) = ck_size c"
    using c by (auto simp: chunk_bytes_def)
  obtain t1 where t1: "(if index \<in> set missing then accept_chunk index (chunk_bytes c content) else c_return ()) t = (Inr (), t1)"
    "receiving t0 content t1" "ft_confirmed t1 = ft_confirmed t \<union> (set missing \<inter> {index})"
    using receive_chunk [OF Cons.prems(1) assms(2) index(1,2) paths] Cons.prems(1)
    by (cases "index \<in> set missing") auto
  obtain t' where t': "transfer_chunks cs missing (drop (p + ck_size c) content) t1 = (Inr (), t')" "receiving t0 content t'"
    "ft_confirmed t' = ft_confirmed t1 \<union> (set missing \<inter> {index + 1..<length (tp_chunks (ft_plan t0))})"
    using Cons.IH [OF t1(2) c(5) index(3)] by blast
  have "transfer_chunks (c # cs) missing (drop p content) t = (Inr (), t')"
    using t1(1) t'(1) bytes c(1)
    by (cases "index \<in> set missing") (simp_all add: Let_def c_bind_def add.commute)
  moreover have "{index..<length (tp_chunks (ft_plan t0))} = insert index {index + 1..<length (tp_chunks (ft_plan t0))}"
    using index(1) by auto
  ultimately show ?case
    using t' t1(3) by auto
qed

lemma transfer_file_delivers:
  assumes plan: "plan_file (mc_fs m) source tid rel n = Inr plan" and new: "new_file_transfer root plan m = Inr t0"
    and root: "canonical root" and source: "content_at (mc_fs m) source = Some content" "length content < 2 ^ 64"
    and ready: "ready_to_receive content t0"
  shows "\<exists>m'. transfer_file source root plan m = (Inr (), m') \<and> reliable m' \<and>
    mc_fs m' (ft_destination_path t0) = Some (File content) \<and> mc_fs m' (ft_staging_path t0) = None"
proof -
  have described: "describes plan content" "tiling content 0 0 (tp_chunks plan)"
    using plan_file_describes [OF plan source] by auto
  note paths = new_transfer_paths [OF new root]
  have plan0: "describes (ft_plan t0) content" "content \<noteq> []" "tp_chunks plan = tp_chunks (ft_plan t0)"
    using described paths planned_not_empty by auto
  have start: "receiving t0 content t0"
    using new_transfer_receiving [OF new root described(1)] ready paths by (auto simp: ready_to_receive_def ft_files_def)
  have place: "ft_files t0 (ft_destination_path t0) \<noteq> Some Dir" "ft_staging_path t0 \<noteq> ft_destination_path t0"
    "ft_destination_path t0 \<noteq> []"
    using ready paths by (auto simp: ready_to_receive_def)
  have final: "\<exists>t'. finalize_transfer t = (Inr (), t') \<and> reliable (ft_machine t') \<and>
      ft_files t' (ft_destination_path t0) = Some (File content) \<and> ft_files t' (ft_staging_path t0) = None"
    if t: "receiving t0 content t" "ft_confirmed t = {..<length (tp_chunks (ft_plan t0))}" for t
  proof -
    have "staged_bytes t = content" "transfer_complete t"
      using complete_is_content [OF t(1) plan0(1) t(2)] t
      by (auto simp: transfer_complete_def receiving_def same_transfer_def)
    then show ?thesis
      using finalize_ok [OF t(1) _ _ plan0(1,2) place] place(2) by fastforce
  qed
  have confirmed: "ft_confirmed t0 \<subseteq> {..<length (tp_chunks (ft_plan t0))}"
    using start by (simp add: receiving_def)
  have "\<exists>t'. run_transfer source plan t0 = (Inr (), t') \<and> reliable (ft_machine t') \<and>
      ft_files t' (ft_destination_path t0) = Some (File content) \<and> ft_files t' (ft_staging_path t0) = None"
  proof (cases "transfer_complete t0")
    case True
    then have "ft_confirmed t0 = {..<length (tp_chunks (ft_plan t0))}"
      using confirmed by (simp add: transfer_complete_def card_subset_eq)
    then show ?thesis
      using final [OF start] True by (simp add: run_transfer_def)
  next
    case False
    obtain t1 where t1: "transfer_chunks (tp_chunks (ft_plan t0)) (missing_chunks t0) (drop 0 content) t0 = (Inr (), t1)"
      "receiving t0 content t1"
      "ft_confirmed t1 = ft_confirmed t0 \<union> (set (missing_chunks t0) \<inter> {0..<length (tp_chunks (ft_plan t0))})"
      using receive_missing [OF start plan0(1) described(2) _ staging_not_above [OF root new]] plan0(3) by auto
    have "ft_confirmed t1 = {..<length (tp_chunks (ft_plan t0))}"
      using t1(3) confirmed by (auto simp: set_missing)
    moreover have "content_at (ft_files t0) source = Some content"
      using source(1) paths by (simp add: ft_files_def)
    ultimately show ?thesis
      using final [OF t1(2)] t1(1) False plan0(3) by (simp add: run_transfer_def c_bind_def)
  qed
  then show ?thesis
    using new by (auto simp: transfer_file_def ft_files_def)
qed

end
