(* ===== verification/Publication.thy ===== *)
theory Publication
  imports Artifact_Durability Object_Delivery Deployment_Safety
begin

text \<open>
  The properties of publishing and transferring artifacts, with concrete runs: a publication that returns, one that
  the audit log refuses, a file that is planned and copied.
\<close>

section \<open>Copying a file\<close>

text \<open>C14. A file that is planned and then transferred by its plan is copied: on a machine whose calls succeed the transfer
  returns, the destination holds exactly the bytes of the source, and the staging file is gone. This is so for every
  chunk size, for chunks that are recovered from an earlier attempt, and for a last chunk that is shorter.\<close>

theorem transfer_file_copies:
  assumes "plan_file (mc_fs m) source tid rel n = Inr plan" and "new_file_transfer root plan m = Inr t0"
    and "canonical root" and "content_at (mc_fs m) source = Some content" and "length content < 2 ^ 64"
    and "ready_to_receive content t0"
  shows "\<exists>m'. transfer_file source root plan m = (Inr (), m') \<and>
    mc_fs m' (ft_destination_path t0) = Some (File content) \<and> mc_fs m' (ft_staging_path t0) = None"
  using transfer_file_delivers [OF assms] by blast

definition source_machine :: machine where
  "source_machine = empty_machine\<lparr>mc_fs := [[''b'', ''x''] \<mapsto> File sample_content]\<rparr>"

lemma sample_planned: "plan_file (mc_fs source_machine) [''b'', ''x''] ''t1'' ''a'' 1 = Inr sample_plan"
proof -
  have "plan_chunks 2 (Suc 0) (Suc (Suc 0)) 2 [] = Inr []"
    by (subst plan_chunks.simps) simp
  then have "plan_chunks 2 (Suc 0) (Suc 0) 1 [0x62] = Inr (tl (tp_chunks sample_plan))"
    using sample_digests by (subst plan_chunks.simps) (simp add: sample_plan_def)
  then have "plan_chunks 2 (Suc 0) 0 0 sample_content = Inr (tp_chunks sample_plan)"
    using sample_digests by (subst plan_chunks.simps) (simp add: sample_plan_def sample_content_def)
  then show ?thesis
    using sample_digests sample_path
    by (simp add: plan_file_def source_machine_def content_at_def max_chunk_size_def streamoff_max_def sample_plan_def
        sample_content_def)
qed

definition copy_transfer :: file_transfer where
  "copy_transfer = sample_transfer\<lparr>ft_machine := source_machine\<rparr>"

lemma copy_transfer_new: "new_file_transfer [''srv''] sample_plan source_machine = Inr copy_transfer"
  using sample_plan_valid sample_path scope_resolve_plain [of "[''srv'']" "[''a'']"]
  by (simp add: new_file_transfer_def sample_transfer_def Let_def sample_plan_def staging_name_def canonical_def copy_transfer_def
      scope_contains_resolved_def weakly_canonical_def recover_verified_chunks_def empty_machine_def source_machine_def)

theorem transfer_file_copies_witness:
  "\<exists>m'. transfer_file [''b'', ''x''] [''srv''] sample_plan source_machine = (Inr (), m') \<and>
    mc_fs m' (ft_destination_path copy_transfer) = Some (File sample_content) \<and>
    mc_fs m' (ft_staging_path copy_transfer) = None"
proof (rule transfer_file_copies [OF sample_planned copy_transfer_new])
  show "ready_to_receive sample_content copy_transfer"
    using sample_digests
    by (simp add: ready_to_receive_def copy_transfer_def sample_transfer_def empty_machine_def reliable_def no_file_above_def
        ft_files_def regular_file_def staged_bytes_def no_collision_def sample_plan_def source_machine_def take_Cons')
qed (auto simp: canonical_def source_machine_def content_at_def sample_content_def)

section \<open>Publications\<close>

text \<open>Publications one after the other, each with the reading of the clock, whatever they give.\<close>

definition publish_step :: "artifact_publisher \<Rightarrow> publish_request \<times> time_point \<Rightarrow> artifact_publisher" where
  "publish_step p = (\<lambda>(request, now). snd (publish request now p))"

definition clock_fits :: "(publish_request \<times> time_point) list \<Rightarrow> bool" where
  "clock_fits calls \<longleftrightarrow> list_all (\<lambda>(request, now). now * 1000 < 2 ^ 63) calls"

text \<open>The calls that threw although the event of the publication had been logged.\<close>

fun half_published :: "artifact_publisher \<Rightarrow> (publish_request \<times> time_point) list \<Rightarrow> string \<Rightarrow> bool" where
  "half_published p [] aid \<longleftrightarrow> False"
| "half_published p ((request, now) # calls) aid \<longleftrightarrow> half_published (publish_step p (request, now)) calls aid \<or>
     (case publish request now p of
        (Inl e, p') \<Rightarrow> pq_id request = aid \<and>
          (\<exists>a. art_id a = aid \<and> audit_append (published_event request a) (ap_log p) = Inr (ap_log p'))
      | (Inr a, p') \<Rightarrow> False)"

lemma publish_step_outcome:
  assumes "store_holds p known" and "now * 1000 < 2 ^ 63" and "publish_step p (request, now) = p'"
  shows "\<exists>known'. store_holds p' known' \<and> known \<subseteq>\<^sub>m known' \<and> ap_records p \<subseteq>\<^sub>m ap_records p' \<and>
    dom known' \<subseteq> dom known \<union> dom (ap_records p') \<union> {aid. half_published p [(request, now)] aid} \<and>
    same_publisher p p' \<and> pending_kept (ap_root p) (ap_files p) (ap_files p')"
proof -
  obtain r where run: "publish request now p = (r, p')"
    using assms(3) by (cases "publish request now p") (simp add: publish_step_def)
  note outcome = publish_outcome [OF assms(1,2) run]
  obtain known' where known': "metadata_after request (pq_id request) p r p' known known'"
    using outcome by blast
  have "ap_records p \<subseteq>\<^sub>m ap_records p'"
    using outcome by (cases r) (auto simp: map_le_def)
  moreover have "known \<subseteq>\<^sub>m known'"
    using known' by (auto simp: metadata_after_def map_le_def)
  moreover have "dom known' \<subseteq> dom known \<union> dom (ap_records p') \<union> {aid. half_published p [(request, now)] aid}"
  proof (cases "known' = known")
    case False
    then have new: "dom known' \<subseteq> insert (pq_id request) (dom known)"
      and logged: "\<exists>a. art_id a = pq_id request \<and> audit_append (published_event request a) (ap_log p) = Inr (ap_log p')"
      using known' unfolding metadata_after_def by auto
    have "pq_id request \<in> dom (ap_records p') \<or> half_published p [(request, now)] (pq_id request)"
      using outcome run logged by (cases r) auto
    then show ?thesis
      using new by blast
  qed blast
  ultimately show ?thesis
    using outcome known' by (auto simp: metadata_after_def)
qed

lemma publish_run_outcome:
  "store_holds p known \<Longrightarrow> clock_fits calls \<Longrightarrow> foldl publish_step p calls = p' \<Longrightarrow>
     (\<exists>known'. store_holds p' known' \<and> known \<subseteq>\<^sub>m known' \<and> ap_records p \<subseteq>\<^sub>m ap_records p' \<and>
       dom known' \<subseteq> dom known \<union> dom (ap_records p') \<union> {aid. half_published p calls aid}) \<and>
     ap_root p' = ap_root p \<and> pending_kept (ap_root p) (ap_files p) (ap_files p')"
proof (induction calls arbitrary: p known)
  case (Cons c calls)
  obtain request now where c: "c = (request, now)" "now * 1000 < 2 ^ 63"
    using Cons.prems(2) by (cases c) (auto simp: clock_fits_def)
  let ?p = "publish_step p (request, now)"
  obtain known1 where step: "store_holds ?p known1" "known \<subseteq>\<^sub>m known1" "ap_records p \<subseteq>\<^sub>m ap_records ?p"
    "dom known1 \<subseteq> dom known \<union> dom (ap_records ?p) \<union> {aid. half_published p [(request, now)] aid}"
    "same_publisher p ?p" "pending_kept (ap_root p) (ap_files p) (ap_files ?p)"
    using publish_step_outcome [OF Cons.prems(1) c(2) refl, of request] by blast
  have "clock_fits calls" "foldl publish_step ?p calls = p'"
    using Cons.prems(2,3) c by (simp_all add: clock_fits_def)
  from Cons.IH [OF step(1) this] obtain known' where run: "store_holds p' known'" "known1 \<subseteq>\<^sub>m known'"
    "ap_records ?p \<subseteq>\<^sub>m ap_records p'" "dom known' \<subseteq> dom known1 \<union> dom (ap_records p') \<union> {aid. half_published ?p calls aid}"
    "ap_root p' = ap_root ?p" "pending_kept (ap_root ?p) (ap_files ?p) (ap_files p')"
    by blast
  have root: "ap_root ?p = ap_root p"
    using step(5) by (simp add: same_publisher_def)
  have "dom (ap_records ?p) \<subseteq> dom (ap_records p')"
    using run(3) by (rule map_le_implies_dom_le)
  moreover have "half_published p (c # calls) aid \<longleftrightarrow> half_published ?p calls aid \<or> half_published p [(request, now)] aid" for aid
    by (simp add: c)
  ultimately have "dom known' \<subseteq> dom known \<union> dom (ap_records p') \<union> {aid. half_published p (c # calls) aid}"
    using run(4) step(4) by blast
  then show ?case
    using run root map_le_trans [OF step(2) run(2)] map_le_trans [OF step(3) run(3)]
      pending_simps(5) [OF step(6)] by auto
qed (auto simp: pending_simps)

lemma recorded_metadata:
  "store_durable p \<Longrightarrow> ap_records p aid = Some (a, rel) \<Longrightarrow>
     parse_metadata (ap_files p) (record_path (ap_root p) aid) = Inr a"
  unfolding store_durable_def store_holds_def durable_def record_path_def map_le_def by (metis domI)

text \<open>C12. A publication that returns has published what it says: the artifact is of a build that succeeded, at the
  revision and of the workspace of that build; its identifier was free; the object is in the storage with the size and
  the digest of the artifact; the metadata file is on the disk and reads back as the artifact; and the event is in
  the audit log. This holds on a machine that may fail at any call.\<close>

theorem published_artifact_is_sound:
  assumes "store_durable p" and "now * 1000 < 2 ^ 63" and "publish request now p = (Inr a, p')"
  shows "(\<exists>job. ap_builds p (art_build_id a) = Some job \<and> bj_state job = Build_succeeded \<and>
      bq_pinned_revision (bj_request job) = art_source_revision a \<and> bq_workspace_id (bj_request job) = art_workspace_id a) \<and>
    art_id a = pq_id request \<and> ap_records p (art_id a) = None \<and>
    store_verify (ap_files p') (ap_store p') (art_id a) = Inr True \<and>
    parse_metadata (ap_files p') (record_path (ap_root p) (art_id a)) = Inr a \<and>
    audit_append (published_event request a) (ap_log p) = Inr (ap_log p')"
proof -
  obtain known where "store_holds p known"
    using assms(1) by (auto simp: store_durable_def)
  note outcome = publish_outcome [OF this assms(2,3), unfolded sum.case]
  have "store_durable p'"
    using outcome unfolding store_durable_def metadata_after_def by blast
  moreover have "ap_records p' (art_id a) = Some (a, object_relative (art_sha256 a))"
  proof -
    have "ap_records p' = (ap_records p)(art_id a \<mapsto> (a, object_relative (art_sha256 a)))"
      using outcome by (elim conjE)
    then show ?thesis
      by (simp only: fun_upd_same)
  qed
  ultimately have "parse_metadata (ap_files p') (record_path (ap_root p') (art_id a)) = Inr a"
    by (rule recorded_metadata)
  moreover have "ap_root p' = ap_root p"
    using outcome unfolding same_publisher_def by (elim conjE)
  ultimately have "parse_metadata (ap_files p') (record_path (ap_root p) (art_id a)) = Inr a"
    by (simp only:)
  then show ?thesis
    using outcome by blast
qed

text \<open>A store with a build that succeeded, whose object is in the storage already.\<close>

definition sample_digest :: string where
  "sample_digest = to_hex (sha256_reference [0x61])"

definition sample_disk :: files where
  "sample_disk = [[''b'', ''x''] \<mapsto> File [0x61], object_path [''st''] sample_digest \<mapsto> File [0x61]]"

text \<open>A system whose calls succeed, and one on which a replacement reports a failure when the file has been moved.\<close>

definition good_os :: os where
  "good_os = mc_os empty_machine"

definition half_os :: os where
  "half_os = good_os\<lparr>os_fails := \<lambda>_ c. (case c of Os_replace _ _ \<Rightarrow> Some (Runtime_error ''directory flush'') | _ \<Rightarrow> None),
     os_left := \<lambda>_ _. Some []\<rparr>"

definition sample_publisher :: "os \<Rightarrow> artifact_publisher" where
  "sample_publisher system = \<lparr>ap_machine = empty_machine\<lparr>mc_os := system, mc_fs := sample_disk\<rparr>,
     ap_builds = [''b1'' \<mapsto> \<lparr>bj_request = \<lparr>bq_id = ''b1'', bq_workspace_id = ''w1'', bq_pinned_revision = 3, bq_profile = ''r'',
       bq_command = sample_command\<rparr>, bj_state = Build_succeeded, bj_evidence = None\<rparr>],
     ap_build_root = [''b''], ap_store = \<lparr>as_storage_root = [''st''], as_records = Map.empty\<rparr>, ap_log = empty_log 24 10 None\<rparr>"

definition sample_publication :: publish_request where
  "sample_publication = \<lparr>pq_id = ''a1'', pq_build_id = ''b1'', pq_source_revision = 3, pq_name = ''x'', pq_platform = ''m'',
     pq_architecture = ''a'', pq_source_relative_path = relative [''x''], pq_principal_id = ''p'', pq_device_id = ''d'',
     pq_session_id = ''s'', pq_occurred_at = 5\<rparr>"

text \<open>The audit log refuses the second publication: its session identifier has a space.\<close>

definition refused_publication :: publish_request where
  "refused_publication = sample_publication\<lparr>pq_session_id := ''s s''\<rparr>"

definition sample_published :: artifact where
  "sample_published = \<lparr>art_id = ''a1'', art_workspace_id = ''w1'', art_build_id = ''b1'', art_source_revision = 3,
     art_name = ''x'', art_sha256 = sample_digest, art_size = 1, art_platform = ''m'', art_architecture = ''a'',
     art_created_at = 7\<rparr>"

lemma sample_digest:
  "sha256_file (Some [0x61]) = Inr sample_digest" "is_sha256_hex sample_digest"
  using sha256_file_names_content [of "[0x61]"] by (simp_all add: sample_digest_def)

lemma sample_publish_checks:
  "request \<in> {sample_publication, refused_publication} \<Longrightarrow> publish_checks request (sample_publisher system) =
     Inr (\<lparr>bq_id = ''b1'', bq_workspace_id = ''w1'', bq_pinned_revision = 3, bq_profile = ''r'', bq_command = sample_command\<rparr>,
       [''b'', ''x''], [0x61], sample_digest, object_path [''st''] sample_digest)"
  using sample_digest object_paths(1) [OF sample_digest(2), of "[''st'']"] scope_resolve_plain [of "[''b'']" "[''x'']"]
  by (auto simp: publish_checks_def refused_publication_def sample_publication_def sample_publisher_def valid_id_def is_alnum_def is_digit_def
      validate_name_def job_at_def canonical_def ap_files_def ap_root_def content_at_def sample_disk_def object_path_def)

lemma sample_publish_object:
  "store_object [''b'', ''x''] [0x61] sample_digest (object_path [''st''] sample_digest) (sample_publisher system) =
     (Inr (), sample_publisher system)"
  using sample_digest
  by (simp add: store_object_def sample_publisher_def ap_files_def content_at_def sample_disk_def c_check_def throw_if_def)


lemma sample_rendered: "\<exists>contents. render_metadata sample_published = Inr contents"
  using sample_digest
  by (simp add: render_metadata_def sample_published_def validate_artifact_def validate_name_def valid_id_def is_alnum_def
      is_digit_def safe_name_def Let_def)

lemma sample_publish_event: "\<exists>lg. audit_append (published_event sample_publication sample_published) (empty_log 24 10 None) = Inr lg"
proof -
  let ?e = "published_event sample_publication sample_published"
  have "identifier_or_empty []" "identifier_or_empty ''a1''" "identifier_or_empty ''b1''" "identifier_or_empty ''w1''"
      "identifier_or_empty ''p''" "identifier_or_empty ''d''" "identifier_or_empty ''s''" "identifier_or_empty ''build_worker''"
    by (simp_all add: identifier_or_empty_def is_alnum_def is_digit_def)
  moreover have "sample_digest \<noteq> []" "\<not> artifact_hash_invalid ?e"
    using sample_digest(2)
    by (auto simp: artifact_hash_invalid_def is_sha256_hex_def lower_hex_digit published_event_def sample_published_def
        default_event_def)
  ultimately have "\<not> missing_metadata ?e" "\<not> artifact_hash_invalid ?e"
    by (simp_all add: missing_metadata_def published_event_def sample_publication_def
        sample_published_def default_event_def session_action_def
        artifact_action_def deployment_action_def workspace_action_def build_action_def)
  then show ?thesis
    by (simp add: audit_append_def sink_line_def empty_log_def Let_def)
qed

lemma sample_artifact_valid: "validate_artifact sample_published = Inr ()" "art_id sample_published = ''a1''"
  using sample_digest
  by (simp_all add: sample_published_def validate_artifact_def valid_id_def is_alnum_def is_digit_def safe_name_def)

lemma sample_metadata_paths:
  "scope_resolve [''st''] (relative [''metadata'']) = Inr [''st'', ''metadata'']"
  "metadata_path [''st''] ''a1.pending'' = Inr [''st'', ''metadata'', ''a1.pending'']"
  "metadata_path [''st''] ''a1.toml'' = Inr [''st'', ''metadata'', ''a1.toml'']"
  using scope_resolve_plain [of "[''st'']" "[''metadata'']"] scope_resolve_plain [of "[''st'']" "[''metadata'', ''a1.pending'']"]
    scope_resolve_plain [of "[''st'']" "[''metadata'', ''a1.toml'']"]
  by (simp_all add: metadata_path_def canonical_def)

lemmas register_run = register_artifact_def c_bind_def c_check_def throw_if_def c_modify_def c_catch_rethrow_def
  stage_record_def sample_publisher_def ap_root_def ap_files_def on_storage_def create_directories_def
  os_do_def empty_machine_def good_os_def half_os_def regular_file_def sample_disk_def object_path_def append_published_def commit_record_def
  write_new_file_def create_file_def write_at_def flush_file_def atomic_replace_def move_node_def content_at_def Let_def

lemma sample_register:
  "\<exists>p'. register_artifact sample_publication sample_published (sample_publisher good_os) = (Inr sample_published, p') \<and>
    (\<forall>n. ap_files p' [''st'', ''metadata'', n] \<noteq> None \<longleftrightarrow> n = ''a1.toml'')"
  using sample_rendered sample_publish_event sample_artifact_valid sample_metadata_paths
  by (auto simp: register_run)

lemma refused_publish_event:
  "\<exists>e. audit_append (published_event refused_publication sample_published) (empty_log 24 10 None) = Inl e"
proof -
  have "\<not> identifier_or_empty ''s s''"
    by (simp add: identifier_or_empty_def is_alnum_def is_digit_def)
  then show ?thesis
    by (simp add: audit_append_def missing_metadata_def published_event_def refused_publication_def sample_publication_def
        default_event_def)
qed

lemma refused_register:
  "\<exists>e p'. register_artifact refused_publication sample_published (sample_publisher good_os) = (Inl e, p') \<and>
    ap_files p' [''st'', ''metadata'', ''a1.pending''] \<noteq> None"
  using sample_rendered refused_publish_event sample_artifact_valid sample_metadata_paths
  by (auto simp: register_run)

lemma sample_publish:
  assumes "request \<in> {sample_publication, refused_publication}"
  shows "publish request 7 (sample_publisher system) =
    register_artifact request sample_published (sample_publisher system)"
proof -
  have "\<lparr>art_id = pq_id request, art_workspace_id = ''w1'', art_build_id = pq_build_id request,
      art_source_revision = pq_source_revision request, art_name = pq_name request, art_sha256 = sample_digest,
      art_size = 1, art_platform = pq_platform request, art_architecture = pq_architecture request, art_created_at = 7\<rparr> =
      sample_published"
    using assms by (auto simp: refused_publication_def sample_publication_def sample_published_def)
  then show ?thesis
    using sample_publish_checks [OF assms] sample_publish_object by (simp add: publish_def c_bind_def)
qed

lemma sample_store_holds: "store_holds (sample_publisher system) Map.empty"
  by (simp add: store_holds_def durable_def sample_publisher_def ap_root_def ap_files_def ap_records_def canonical_def
      sample_disk_def object_path_def metadata_directory_def regular_file_def)

lemma sample_store_durable: "store_durable (sample_publisher system)"
  using sample_store_holds unfolding store_durable_def by blast

theorem published_artifact_is_sound_witness:
  "\<exists>p'. publish sample_publication 7 (sample_publisher good_os) = (Inr sample_published, p') \<and>
    store_verify (ap_files p') (ap_store p') ''a1'' = Inr True \<and>
    parse_metadata (ap_files p') [''st'', ''metadata'', ''a1.toml''] = Inr sample_published"
proof -
  obtain p' where run: "publish sample_publication 7 (sample_publisher good_os) = (Inr sample_published, p')"
    using sample_publish [of sample_publication] sample_register by auto
  have "record_path (ap_root (sample_publisher good_os)) ''a1'' = [''st'', ''metadata'', ''a1.toml'']"
    by (simp add: record_path_def metadata_directory_def ap_root_def sample_publisher_def)
  then show ?thesis
    using published_artifact_is_sound [OF sample_store_durable _ run] run sample_artifact_valid(2) by auto
qed

lemma half_register:
  "\<exists>e p'. register_artifact sample_publication sample_published (sample_publisher half_os) = (Inl e, p') \<and>
    (\<forall>n. ap_files p' [''st'', ''metadata'', n] \<noteq> None \<longleftrightarrow> n = ''a1.toml'')"
  using sample_rendered sample_publish_event sample_artifact_valid sample_metadata_paths
  by (auto simp: register_run)

text \<open>A publication that threw and is there when the store is opened again: the file was moved, the flush of the
  directory failed, and only the record in memory was taken back.\<close>

theorem failed_publication_reappears:
  "\<exists>e p' loaded. publish sample_publication 7 (sample_publisher half_os) = (Inl e, p') \<and> ap_records p' = Map.empty \<and>
    set [''a1.toml''] = {n. ap_files p' (metadata_directory [''st''] @ [n]) \<noteq> None} \<and>
    load_records (ap_files p') [''st''] [''a1.toml''] = Inr loaded \<and> loaded ''a1'' \<noteq> None"
proof -
  obtain e p' where run: "publish sample_publication 7 (sample_publisher half_os) = (Inl e, p')"
    and files: "\<forall>n. ap_files p' [''st'', ''metadata'', n] \<noteq> None \<longleftrightarrow> n = ''a1.toml''"
    using sample_publish [of sample_publication] half_register by auto
  have root: "ap_root (sample_publisher half_os) = [''st'']" and start: "ap_records (sample_publisher half_os) = Map.empty"
    by (simp_all add: ap_root_def ap_records_def sample_publisher_def)
  note outcome = publish_outcome [OF sample_store_holds _ run]
  then obtain known where known: "store_holds p' known"
    unfolding metadata_after_def by auto
  have p': "ap_root p' = [''st'']" "ap_records p' = Map.empty"
    using outcome root start by (simp_all add: same_publisher_def)
  have durable: "durable [''st''] (ap_files p') known"
    using known p' by (simp add: store_holds_def)
  have listing: "set [''a1.toml''] = {n. ap_files p' (metadata_directory [''st''] @ [n]) \<noteq> None}"
    using files by (auto simp: metadata_directory_def)
  have "load_records (ap_files p') [''st''] [''a1.toml''] = Inr known"
    using durable listing by (intro durable_loads) (auto simp: max_artifact_records_def)
  moreover have "\<exists>aid. ''a1.toml'' = aid @ ''.toml'' \<and> known aid \<noteq> None"
    using durable files extension_toml [of "''a1''"] unfolding durable_def metadata_directory_def by fastforce
  then have "known ''a1'' \<noteq> None"
    by (metis append_same_eq append_Cons append_Nil)
  ultimately show ?thesis
    using run p' listing by blast
qed

text \<open>C13. A store that is opened again has kept every artifact: after any publications, of which some may have thrown
  at any point, on a machine that may fail at any call, also by reporting the failure of a replacement that took
  place, loading the metadata directory, in whatever order its entries come, succeeds and gives every record that
  the store has in memory, and all that was on the disk before, unchanged. Whatever else it gives is an artifact of
  a publication that threw when its event was in the audit log already. The directory may hold no more metadata files
  than the limit.\<close>

theorem reopened_store_has_records:
  assumes "store_holds p known" and "clock_fits calls" and "foldl publish_step p calls = p'" and "distinct listing"
    and "set listing = {n. ap_files p' (metadata_directory (ap_root p) @ [n]) \<noteq> None}"
    and "length (filter (\<lambda>n. extension n \<noteq> ''.pending'') listing) \<le> max_artifact_records"
  shows "\<exists>loaded. load_records (ap_files p') (ap_root p) listing = Inr loaded \<and>
    known \<subseteq>\<^sub>m loaded \<and> ap_records p' \<subseteq>\<^sub>m loaded \<and>
    (\<forall>aid. loaded aid \<noteq> None \<longrightarrow> known aid \<noteq> None \<or> ap_records p' aid \<noteq> None \<or> half_published p calls aid)"
proof -
  obtain known' where known': "store_holds p' known'" "known \<subseteq>\<^sub>m known'"
    "dom known' \<subseteq> dom known \<union> dom (ap_records p') \<union> {aid. half_published p calls aid}" "ap_root p' = ap_root p"
    using publish_run_outcome [OF assms(1-3)] by blast
  then have "load_records (ap_files p') (ap_root p) listing = Inr known'"
    using assms(4-6) by (intro durable_loads) (simp_all add: store_holds_def)
  moreover have "ap_records p' \<subseteq>\<^sub>m known'"
    using known'(1) by (simp add: store_holds_def)
  ultimately show ?thesis
    using known'(2,3) by (intro exI [of _ known']) blast
qed

theorem reopened_store_has_records_witness:
  "\<exists>e p' loaded. publish sample_publication 7 (sample_publisher half_os) = (Inl e, p') \<and> ap_records p' = Map.empty \<and>
    load_records (ap_files p') [''st''] [''a1.toml''] = Inr loaded \<and> loaded ''a1'' \<noteq> None \<and>
    half_published (sample_publisher half_os) [(sample_publication, 7)] ''a1''"
proof -
  obtain e p' loaded where run: "publish sample_publication 7 (sample_publisher half_os) = (Inl e, p')"
    and lost: "ap_records p' = Map.empty" and listing: "set [''a1.toml''] = {n. ap_files p' (metadata_directory [''st''] @ [n]) \<noteq> None}"
    and loaded: "load_records (ap_files p') [''st''] [''a1.toml''] = Inr loaded" "loaded ''a1'' \<noteq> None"
    using failed_publication_reappears by blast
  have root: "ap_root (sample_publisher half_os) = [''st'']"
    by (simp add: ap_root_def sample_publisher_def)
  have p': "foldl publish_step (sample_publisher half_os) [(sample_publication, 7)] = p'"
    using run by (simp add: publish_step_def)
  have "clock_fits [(sample_publication, 7)]" "distinct [''a1.toml'']"
    "length (filter (\<lambda>n. extension n \<noteq> ''.pending'') [''a1.toml'']) \<le> max_artifact_records"
    by (simp_all add: clock_fits_def max_artifact_records_def)
  then have "half_published (sample_publisher half_os) [(sample_publication, 7)] ''a1''"
    using reopened_store_has_records [OF sample_store_holds _ p', of "[''a1.toml'']"] listing loaded lost
    unfolding root by fastforce
  then show ?thesis
    using run lost loaded by blast
qed

lemma pending_blocks:
  assumes "store_holds p known" and "now * 1000 < 2 ^ 63" and "ap_files p (pending_path (ap_root p) (pq_id request)) \<noteq> None"
  shows "\<exists>e. fst (publish request now p) = Inl e"
proof -
  obtain r p' where run: "publish request now p = (r, p')"
    by fastforce
  then show ?thesis
    using publish_outcome [OF assms(1,2) run] assms(3) by (cases r) auto
qed

text \<open>C39. The staging file of a publication that failed is never removed: once it is there, no request can publish an
  artifact of that identifier any more, whatever else is published in between and however well the machine works, also
  not with the store opened again.\<close>

theorem leftover_metadata_blocks_artifact:
  assumes "store_durable p" and "clock_fits calls" and "now * 1000 < 2 ^ 63"
    and "ap_files p (pending_path (ap_root p) (pq_id request)) \<noteq> None"
  shows "\<exists>e. fst (publish request now (foldl publish_step p calls)) = Inl e"
proof -
  obtain known where "store_holds p known"
    using assms(1) by (auto simp: store_durable_def)
  from publish_run_outcome [OF this assms(2) refl] show ?thesis
    using assms(3,4) by (elim conjE exE, intro pending_blocks) (simp_all add: pending_kept_def)
qed

theorem leftover_metadata_blocks_artifact_witness:
  "\<exists>e p'. publish refused_publication 7 (sample_publisher good_os) = (Inl e, p') \<and>
    (\<exists>e. fst (publish sample_publication 8 p') = Inl e) \<and>
    (\<exists>a. fst (publish sample_publication 7 (sample_publisher good_os)) = Inr a)"
proof -
  obtain e p' where run: "publish refused_publication 7 (sample_publisher good_os) = (Inl e, p')"
    and files: "ap_files p' [''st'', ''metadata'', ''a1.pending''] \<noteq> None"
    using sample_publish [of refused_publication] refused_register by auto
  have step: "publish_step (sample_publisher good_os) (refused_publication, 7) = p'"
    by (simp add: publish_step_def run)
  obtain known where outcome: "store_holds p' known" "same_publisher (sample_publisher good_os) p'"
    using publish_step_outcome [OF sample_store_holds _ step] by auto
  have "ap_root p' = [''st'']"
    using outcome(2) by (simp add: same_publisher_def) (simp add: ap_root_def sample_publisher_def)
  then have "pending_path (ap_root p') (pq_id sample_publication) = [''st'', ''metadata'', ''a1.pending'']"
    by (simp add: pending_path_def metadata_directory_def sample_publication_def)
  then have pending: "ap_files p' (pending_path (ap_root p') (pq_id sample_publication)) \<noteq> None"
    using files by metis
  have clock: "clock_fits []" "(8::time_point) * 1000 < 2 ^ 63"
    by (simp_all add: clock_fits_def)
  have durable: "store_durable p'"
    using outcome(1) unfolding store_durable_def by blast
  have blocked: "\<exists>e. fst (publish sample_publication 8 p') = Inl e"
    using leftover_metadata_blocks_artifact [OF durable clock pending] unfolding foldl_Nil .
  obtain p2 where "publish sample_publication 7 (sample_publisher good_os) = (Inr sample_published, p2)"
    using sample_publish [of sample_publication] sample_register by auto
  then have "\<exists>a. fst (publish sample_publication 7 (sample_publisher good_os)) = Inr a"
    by (intro exI [of _ sample_published]) (simp only: fst_conv)
  then show ?thesis
    by (intro exI [of _ e] exI [of _ p'] conjI run blocked)
qed

end
