(* ===== verification/Build_Config.thy ===== *)
theory Build_Config
  imports Workspace_Manifest File_Transfer Text_Format
begin

text \<open>
  \<open>core/src/build_config.cpp\<close>: the configuration of a remote workspace, which names the commands that may be run on
  it, the requests for builds that are made from it, and the search for the artifacts of a build. The profiles are a
  \<open>std::map\<close> that is only looked up and checked as a whole, so a function; paths are those of a POSIX system.
\<close>

section \<open>Data\<close>

record artifact_profile =
  afp_paths :: "string list"
  afp_platform :: string
  afp_architecture :: string
  afp_archive_app_bundles :: bool

record build_profile =
  bp_name :: string
  bp_node :: string
  bp_command :: command_spec
  bp_environment_allowlist :: "string set"
  bp_artifacts :: artifact_profile

record workspace_config =
  wc_workspace_id :: string
  wc_workspace_name :: string
  wc_source :: string
  wc_mirror :: string
  wc_sync_direction :: string
  wc_sync_excludes :: "string list"
  wc_profiles :: "(string, build_profile) omap"

definition empty_profile :: build_profile where
  "empty_profile = \<lparr>bp_name = [], bp_node = [],
     bp_command = \<lparr>cs_argv = [], cs_working_directory = [], cs_timeout = 0, cs_environment = []\<rparr>,
     bp_environment_allowlist = {},
     bp_artifacts = \<lparr>afp_paths = [], afp_platform = [], afp_architecture = [], afp_archive_app_bundles = True\<rparr>\<rparr>"

definition empty_config :: workspace_config where
  "empty_config = \<lparr>wc_workspace_id = [], wc_workspace_name = [], wc_source = [], wc_mirror = [], wc_sync_direction = [],
     wc_sync_excludes = [], wc_profiles = []\<rparr>"

section \<open>Values\<close>

text \<open>The loop over the line, with the character before and whether a string is open.\<close>

fun without_comment_from :: "char option \<Rightarrow> bool \<Rightarrow> string \<Rightarrow> string result" where
  "without_comment_from before quoted [] =
     (if quoted then throw (Invalid_argument ''unterminated config string'') else ok [])"
| "without_comment_from before quoted (c # cs) =
     (if c = CHR 0x22 \<and> before \<noteq> Some (CHR 0x5C)
      then and_then (without_comment_from (Some c) (\<not> quoted) cs) (\<lambda>r. ok (c # r))
      else if c = CHR ''#'' \<and> \<not> quoted then ok []
      else and_then (without_comment_from (Some c) quoted cs) (\<lambda>r. ok (c # r)))"

definition without_comment :: "string \<Rightarrow> string result" where
  "without_comment line = without_comment_from None False line"

text \<open>\<open>find_first_of\<close> gets a C string, which ends before the NUL it is written with: NUL is not refused here.\<close>

definition parse_string :: "string \<Rightarrow> string result" where
  "parse_string value =
     (let input = trim_line value; body = butlast (tl input)
      in if length input < 2 \<or> hd input \<noteq> CHR 0x22 \<or> last input \<noteq> CHR 0x22
         then throw (Invalid_argument ''config value must be a quoted string'')
         else if body = [] \<or> list_ex (\<lambda>c. c \<in> set [CHR 0x5C, CHR 0x0D, CHR 0x0A]) body \<or> CHR 0x22 \<in> set body
         then throw (Invalid_argument ''config string is empty or unsupported'')
         else ok body)"

lemma length_trim_line: "length (trim_line s) \<le> length s"
  unfolding trim_line_def by (metis length_dropWhile_le length_rev order_trans)

text \<open>The loop over the items; \<open>close\<close> is the index of the quote that ends the item.\<close>

function parse_items :: "string \<Rightarrow> string list result" where
  "parse_items input =
     (if input = [] then ok []
      else if hd input \<noteq> CHR 0x22 then throw (Invalid_argument ''config array item must be a string'')
      else if CHR 0x22 \<notin> set (tl input) then throw (Invalid_argument ''unterminated config array string'')
      else
        let close = 1 + length (takeWhile (\<lambda>c. c \<noteq> CHR 0x22) (tl input));
            rest = trim_line (drop (close + 1) input)
        in and_then (parse_string (take (close + 1) input)) (\<lambda>item.
          if rest = [] then ok [item]
          else if hd rest \<noteq> CHR '','' then throw (Invalid_argument ''config array items must be comma separated'')
          else if trim_line (tl rest) = [] then throw (Invalid_argument ''config array has a trailing comma'')
          else and_then (parse_items (trim_line (tl rest))) (\<lambda>items. ok (item # items))))"
  by pat_completeness auto
termination
proof (relation "measure length", goal_cases)
  case (2 input close rest item)
  have "length rest \<le> length input - (close + 1)"
    using length_trim_line [of "drop (close + 1) input"] unfolding 2(5) by simp
  moreover have "length (trim_line (tl rest)) \<le> length rest - 1"
    using length_trim_line [of "tl rest"] by simp
  ultimately show ?case
    using 2(1) by (cases input) auto
qed simp

declare parse_items.simps [simp del]

definition parse_string_array :: "string \<Rightarrow> string list result" where
  "parse_string_array value =
     (let input = trim_line value
      in if length input < 2 \<or> hd input \<noteq> CHR ''['' \<or> last input \<noteq> CHR '']''
         then throw (Invalid_argument ''config value must be a string array'')
         else and_then (parse_items (trim_line (butlast (tl input)))) (\<lambda>items.
           if items = [] then throw (Invalid_argument ''config array must not be empty'') else ok items))"

definition parse_positive_integer :: "string \<Rightarrow> u64 result" where
  "parse_positive_integer value =
     (let input = trim_line value
      in if input = [] \<or> \<not> list_all is_digit input \<or> digits_value input \<ge> 2 ^ 64 \<or> digits_value input = 0
         then throw (Invalid_argument ''config value must be a positive integer'')
         else ok (of_nat (digits_value input)))"

definition parse_bool :: "string \<Rightarrow> bool result" where
  "parse_bool value =
     (let input = trim_line value
      in if input = ''true'' then ok True
         else if input = ''false'' then ok False
         else throw (Invalid_argument ''config value must be boolean''))"

definition portable_absolute_executable :: "string \<Rightarrow> bool" where
  "portable_absolute_executable value \<longleftrightarrow> (value \<noteq> [] \<and> hd value = CHR ''/'') \<or>
     (length value > 3 \<and> is_alpha (hd value) \<and> value ! 1 = CHR '':'' \<and> value ! 2 = CHR ''/'')"

text \<open>The parts between the slashes, empty ones included.\<close>

fun slash_parts :: "string \<Rightarrow> string list" where
  "slash_parts [] = [[]]"
| "slash_parts (c # cs) = (if c = CHR ''/'' then [] # slash_parts cs
     else (c # hd (slash_parts cs)) # tl (slash_parts cs))"

definition part_ok :: "string \<Rightarrow> bool" where
  "part_ok part \<longleftrightarrow> part \<noteq> [] \<and> part \<noteq> ''.'' \<and> part \<noteq> ''..''"

definition require_safe_relative_pattern :: "string \<Rightarrow> unit result" where
  "require_safe_relative_pattern value =
     (if value = [] \<or> hd value = CHR ''/'' \<or> CHR 0x5C \<in> set value \<or> CHR 0x00 \<in> set value
      then throw (Invalid_argument ''artifact pattern is not a canonical relative path'')
      else throw_if (\<not> list_all part_ok (slash_parts value)) (Invalid_argument ''artifact pattern escapes workspace''))"

section \<open>The parser\<close>

record config_parser =
  cp_config :: workspace_config
  cp_section :: string
  cp_seen :: "string set"

definition profile_at :: "workspace_config \<Rightarrow> string \<Rightarrow> build_profile" where
  "profile_at config name = (case map_of (wc_profiles config) name of None \<Rightarrow> empty_profile | Some p \<Rightarrow> p)"

text \<open>\<open>target\<close> gives a reference to the profile, which it makes when there is none; here it is changed by \<open>change\<close>.\<close>

definition target :: "string \<Rightarrow> (build_profile \<Rightarrow> build_profile result) \<Rightarrow> workspace_config \<Rightarrow> workspace_config result" where
  "target name change config =
     (if \<not> valid_id name then throw (Invalid_argument ''invalid target profile name'')
      else and_then (change ((profile_at config name)\<lparr>bp_name := name\<rparr>)) (\<lambda>p.
        ok (config\<lparr>wc_profiles := omap_assign name p (wc_profiles config)\<rparr>)))"

definition target_prefix :: string where "target_prefix = ''target.''"
definition artifacts_suffix :: string where "artifacts_suffix = ''.artifacts''"

definition starts_with :: "string \<Rightarrow> string \<Rightarrow> bool" where
  "starts_with start s \<longleftrightarrow> take (length start) s = start"

definition ends_with :: "string \<Rightarrow> string \<Rightarrow> bool" where
  "ends_with ending s \<longleftrightarrow> length ending \<le> length s \<and> drop (length s - length ending) s = ending"

text \<open>The name of the target of a section, and whether the section is that of its artifacts.\<close>

definition section_target :: "string \<Rightarrow> string \<times> bool" where
  "section_target sec =
     (let remainder = drop (length target_prefix) sec
      in if ends_with artifacts_suffix remainder
         then (take (length remainder - length artifacts_suffix) remainder, True) else (remainder, False))"

definition set_section :: "string \<Rightarrow> config_parser \<Rightarrow> config_parser result" where
  "set_section value ps =
     (if value = ''workspace'' \<or> value = ''sync'' then ok (ps\<lparr>cp_section := value\<rparr>)
      else if \<not> starts_with target_prefix value then throw (Invalid_argument ''unknown config section'')
      else and_then (target (fst (section_target value)) ok (cp_config ps)) (\<lambda>config.
        ok (ps\<lparr>cp_config := config, cp_section := value\<rparr>)))"

definition assign_workspace :: "string \<Rightarrow> string \<Rightarrow> workspace_config \<Rightarrow> workspace_config result" where
  "assign_workspace key value config =
     (if key = ''id'' then and_then (parse_string value) (\<lambda>s. ok (config\<lparr>wc_workspace_id := s\<rparr>))
      else if key = ''name'' then and_then (parse_string value) (\<lambda>s. ok (config\<lparr>wc_workspace_name := s\<rparr>))
      else if key = ''source'' then and_then (parse_string value) (\<lambda>s. ok (config\<lparr>wc_source := s\<rparr>))
      else if key = ''mirror'' then and_then (parse_string value) (\<lambda>s. ok (config\<lparr>wc_mirror := s\<rparr>))
      else throw (Invalid_argument ''unknown workspace config key''))"

definition assign_sync :: "string \<Rightarrow> string \<Rightarrow> workspace_config \<Rightarrow> workspace_config result" where
  "assign_sync key value config =
     (if key = ''direction'' then and_then (parse_string value) (\<lambda>s. ok (config\<lparr>wc_sync_direction := s\<rparr>))
      else if key = ''exclude'' then and_then (parse_string_array value) (\<lambda>ss. ok (config\<lparr>wc_sync_excludes := ss\<rparr>))
      else throw (Invalid_argument ''unknown sync config key''))"

definition assign_target :: "string \<Rightarrow> string \<Rightarrow> build_profile \<Rightarrow> build_profile result" where
  "assign_target key value p =
     (if key = ''node'' then and_then (parse_string value) (\<lambda>s. ok (p\<lparr>bp_node := s\<rparr>))
      else if key = ''working_dir'' then and_then (parse_string value) (\<lambda>s.
        ok (p\<lparr>bp_command := (bp_command p)\<lparr>cs_working_directory := s\<rparr>\<rparr>))
      else if key = ''command'' then and_then (parse_string_array value) (\<lambda>ss.
        ok (p\<lparr>bp_command := (bp_command p)\<lparr>cs_argv := ss\<rparr>\<rparr>))
      else if key = ''timeout_seconds'' then and_then (parse_positive_integer value) (\<lambda>seconds.
        if seconds > 86400 then throw (Invalid_argument ''build timeout exceeds one day'')
        else ok (p\<lparr>bp_command := (bp_command p)\<lparr>cs_timeout := seconds\<rparr>\<rparr>))
      else if key = ''environment_allowlist'' then and_then (parse_string_array value) (\<lambda>names.
        if \<not> list_all valid_environment_name names
        then throw (Invalid_argument ''invalid environment allowlist entry'')
        else
          let allowlist = bp_environment_allowlist p \<union> set names
          in if card allowlist \<noteq> length names then throw (Invalid_argument ''duplicate environment allowlist entry'')
             else ok (p\<lparr>bp_environment_allowlist := allowlist\<rparr>))
      else throw (Invalid_argument ''unknown target config key''))"

definition assign_artifacts :: "string \<Rightarrow> string \<Rightarrow> build_profile \<Rightarrow> build_profile result" where
  "assign_artifacts key value p =
     (let a = bp_artifacts p
      in if key = ''paths'' then and_then (parse_string_array value) (\<lambda>ss. ok (p\<lparr>bp_artifacts := a\<lparr>afp_paths := ss\<rparr>\<rparr>))
         else if key = ''platform'' then and_then (parse_string value) (\<lambda>s. ok (p\<lparr>bp_artifacts := a\<lparr>afp_platform := s\<rparr>\<rparr>))
         else if key = ''architecture''
         then and_then (parse_string value) (\<lambda>s. ok (p\<lparr>bp_artifacts := a\<lparr>afp_architecture := s\<rparr>\<rparr>))
         else if key = ''archive_app_bundles''
         then and_then (parse_bool value) (\<lambda>b. ok (p\<lparr>bp_artifacts := a\<lparr>afp_archive_app_bundles := b\<rparr>\<rparr>))
         else throw (Invalid_argument ''unknown artifact config key''))"

definition assign :: "string \<Rightarrow> string \<Rightarrow> config_parser \<Rightarrow> config_parser result" where
  "assign key value ps =
     (let identity = cp_section ps @ ''.'' @ key; sec = cp_section ps
      in if sec = [] \<or> identity \<in> cp_seen ps
         then throw (Invalid_argument ''config key is outside a section or duplicated'')
         else and_then
           (if sec = ''workspace'' then assign_workspace key value (cp_config ps)
            else if sec = ''sync'' then assign_sync key value (cp_config ps)
            else target (fst (section_target sec))
              ((if snd (section_target sec) then assign_artifacts else assign_target) key value) (cp_config ps))
           (\<lambda>config. ok (ps\<lparr>cp_config := config, cp_seen := insert identity (cp_seen ps)\<rparr>)))"

fun check_all :: "('a \<Rightarrow> unit result) \<Rightarrow> 'a list \<Rightarrow> unit result" where
  "check_all f [] = ok ()"
| "check_all f (x # xs) = and_then (f x) (\<lambda>_. check_all f xs)"

definition profile_complete :: "build_profile \<Rightarrow> unit result" where
  "profile_complete p =
     (let command = bp_command p; a = bp_artifacts p
      in if bp_node p = [] \<or> cs_argv command = [] \<or> cs_working_directory command = [] \<or> sint (cs_timeout command) \<le> 0 \<or>
            afp_paths a = [] \<or> afp_platform a = [] \<or> afp_architecture a = []
         then throw (Invalid_argument ''build target config is incomplete'')
         else if \<not> portable_absolute_executable (hd (cs_argv command))
         then throw (Invalid_argument ''build profile executable must be an absolute path'')
         else if hd (cs_working_directory command) = CHR ''/''
         then throw (Invalid_argument ''build working directory must be relative'')
         else if ''..'' \<in> set (slash_parts (cs_working_directory command))
         then throw (Invalid_argument ''build working directory escapes workspace'')
         else check_all require_safe_relative_pattern (afp_paths a))"

definition config_complete :: "workspace_config \<Rightarrow> workspace_config result" where
  "config_complete config =
     (if \<not> valid_id (wc_workspace_id config) \<or> wc_workspace_name config = [] \<or> wc_source config \<noteq> ''windows'' \<or>
         wc_mirror config \<noteq> ''macos'' \<or> wc_sync_direction config \<noteq> ''one-way'' \<or> wc_profiles config = []
      then throw (Invalid_argument ''remote workspace config is incomplete'')
      else and_then (check_all require_safe_relative_pattern (wc_sync_excludes config)) (\<lambda>_.
        and_then (check_all (\<lambda>(name, p). profile_complete p) (wc_profiles config)) (\<lambda>_. ok config)))"

definition config_line :: "string \<Rightarrow> config_parser \<Rightarrow> config_parser result" where
  "config_line line ps = and_then (without_comment line) (\<lambda>uncommented.
     let current = trim_line uncommented; key = trim_line (takeWhile (\<lambda>c. c \<noteq> CHR ''='') current)
     in if current = [] then ok ps
        else if hd current = CHR ''['' \<and> last current = CHR '']'' then set_section (trim_line (butlast (tl current))) ps
        else if CHR ''='' \<notin> set current then throw (Invalid_argument ''invalid config assignment'')
        else if \<not> valid_id key then throw (Invalid_argument ''invalid config key'')
        else assign key (trim_line (tl (dropWhile (\<lambda>c. c \<noteq> CHR ''='') current))) ps)"

fun config_lines :: "string list \<Rightarrow> config_parser \<Rightarrow> config_parser result" where
  "config_lines [] ps = ok ps"
| "config_lines (l # ls) ps = and_then (config_line l ps) (config_lines ls)"

definition parse_remote_workspace_config :: "string \<Rightarrow> workspace_config result" where
  "parse_remote_workspace_config contents =
     and_then (config_lines (file_lines contents) \<lparr>cp_config = empty_config, cp_section = [], cp_seen = {}\<rparr>) (\<lambda>ps.
       config_complete (cp_config ps))"

definition load_remote_workspace_config :: "string option \<Rightarrow> workspace_config result" where
  "load_remote_workspace_config contents = (case contents of
     None \<Rightarrow> throw (Runtime_error ''remote workspace config could not be opened'')
   | Some c \<Rightarrow> parse_remote_workspace_config c)"

section \<open>Requests for builds\<close>

definition config_profile :: "workspace_config \<Rightarrow> string \<Rightarrow> build_profile result" where
  "config_profile config name = (case map_of (wc_profiles config) name of
     None \<Rightarrow> throw (Out_of_range ''unknown build profile'') | Some p \<Rightarrow> ok p)"

definition make_build_request ::
  "workspace_config \<Rightarrow> string \<Rightarrow> u64 \<Rightarrow> string \<Rightarrow> (string \<times> string) list \<Rightarrow> build_request result" where
  "make_build_request config build_id pinned_revision profile_name environment =
     and_then (config_profile config profile_name) (\<lambda>selected.
       if \<not> valid_id build_id \<or> pinned_revision = 0
       then throw (Invalid_argument ''build request identity is invalid'')
       else
         let command = (bp_command selected)\<lparr>cs_environment := environment\<rparr>
         in and_then (validate_command command (bp_environment_allowlist selected)) (\<lambda>_.
           ok \<lparr>bq_id = build_id, bq_workspace_id = wc_workspace_id config, bq_pinned_revision = pinned_revision,
             bq_profile = bp_name selected, bq_command = command\<rparr>))"

section \<open>Artifacts\<close>

text \<open>A row of the matcher: the cells after the first, from the cell to the left, the row before and the value, both
  from the index before.\<close>

fun glob_cells :: "char \<Rightarrow> bool \<Rightarrow> bool list \<Rightarrow> string \<Rightarrow> bool list" where
  "glob_cells token left (p0 # p1 # ps) (c # cs) =
     (let cell = (if token = CHR ''*'' then p1 \<or> (c \<noteq> CHR ''/'' \<and> left)
        else if token = CHR ''?'' then c \<noteq> CHR ''/'' \<and> p0
        else token = c \<and> p0)
      in cell # glob_cells token cell (p1 # ps) cs)"
| "glob_cells token left previous value = []"

definition glob_row :: "string \<Rightarrow> bool list \<Rightarrow> char \<Rightarrow> bool list" where
  "glob_row value previous token =
     (let first = (token = CHR ''*'' \<and> hd previous) in first # glob_cells token first previous value)"

definition glob_matches :: "string \<Rightarrow> string \<Rightarrow> bool" where
  "glob_matches pattern value = last (foldl (glob_row value) (True # replicate (length value) False) pattern)"

text \<open>The loop stops at the end, so a slash at the end, which is refused before, would not give an empty part.\<close>

definition safe_artifact_pattern :: "string \<Rightarrow> bool" where
  "safe_artifact_pattern pattern \<longleftrightarrow> \<not> (pattern = [] \<or> length pattern > 4096 \<or> hd pattern = CHR ''/'' \<or>
     last pattern = CHR ''/'' \<or> CHR 0x5C \<in> set pattern \<or> CHR 0x00 \<in> set pattern) \<and>
     list_all part_ok (slash_parts pattern)"

fun generic_string :: "path \<Rightarrow> string" where
  "generic_string [] = []"
| "generic_string [n] = n"
| "generic_string (n # ns) = n @ CHR ''/'' # generic_string ns"

definition is_bundle :: "string \<Rightarrow> fs_tree \<Rightarrow> bool" where
  "is_bundle name t \<longleftrightarrow> is_tree_directory t \<and> extension name = ''.app''"

definition pattern_matched :: "string list \<Rightarrow> path \<Rightarrow> bool" where
  "pattern_matched patterns p = list_ex (\<lambda>pattern. glob_matches pattern (generic_string p)) patterns"

text \<open>The iteration: how many entries have been seen, and what has been found.\<close>

fun discover :: "string list \<Rightarrow> nat \<Rightarrow> path \<Rightarrow> (string \<times> fs_tree) list \<Rightarrow> nat \<times> path list \<Rightarrow> (nat \<times> path list) result" where
  "discover patterns maximum parent [] st = ok st"
| "discover patterns maximum parent ((name, t) # rest) (scanned, found) =
     (if scanned + 1 > 1000000 then throw (Length_error ''artifact discovery scan exceeds limit'')
      else
        let p = parent @ [name]; matched = pattern_matched patterns p
        in and_then
          (case t of
             Tree_symlink _ \<Rightarrow>
               if matched then throw (Invalid_argument ''artifact pattern matched a symlink'') else ok (scanned + 1, found)
           | Tree_directory children \<Rightarrow>
               if is_bundle name t
               then if \<not> matched then ok (scanned + 1, found)
                 else if length found + 1 > maximum then throw (Length_error ''artifact discovery count exceeds limit'')
                 else ok (scanned + 1, found @ [p])
               else if matched
               then throw (Invalid_argument ''artifact pattern matched an unsupported filesystem entry'')
               else discover patterns maximum p children (scanned + 1, found)
           | Tree_file _ \<Rightarrow>
               if \<not> matched then ok (scanned + 1, found)
               else if length found + 1 > maximum then throw (Length_error ''artifact discovery count exceeds limit'')
               else ok (scanned + 1, found @ [p])
           | Tree_other \<Rightarrow>
               if matched then throw (Invalid_argument ''artifact pattern matched an unsupported filesystem entry'')
               else ok (scanned + 1, found))
          (discover patterns maximum parent rest))"

text \<open>\<open>tree_at\<close> is what the root holds. Paths are ordered part by part.\<close>

definition discover_build_artifacts ::
  "path \<Rightarrow> (path \<Rightarrow> fs_tree option) \<Rightarrow> fs_path \<Rightarrow> build_profile \<Rightarrow> nat \<Rightarrow> path list result" where
  "discover_build_artifacts working_directory tree_at root p maximum =
     (let patterns = afp_paths (bp_artifacts p)
      in if patterns = [] \<or> maximum = 0 \<or> maximum > 1024 \<or> \<not> list_all safe_artifact_pattern patterns
         then throw (Invalid_argument ''artifact discovery options are invalid'')
         else and_then (new_workspace_scope working_directory root) (\<lambda>scope.
           case tree_at scope of
             Some (Tree_directory children) \<Rightarrow> and_then (discover patterns maximum [] children (0, [])) (\<lambda>(scanned, found).
               let found = sort found
               in if \<not> distinct found then throw (Invalid_argument ''artifact discovery produced duplicates'')
                  else if found = [] then throw (Runtime_error ''successful build produced no configured artifacts'')
                  else ok found)
           | _ \<Rightarrow> throw (Invalid_argument ''artifact workspace root is not a directory'')))"

section \<open>The matcher is exact\<close>

text \<open>Which values a pattern means: a star stands for any text without a slash, a question mark for one character that
  is no slash.\<close>

fun pattern_means :: "string \<Rightarrow> string \<Rightarrow> bool" where
  "pattern_means [] v \<longleftrightarrow> v = []"
| "pattern_means (p # ps) v \<longleftrightarrow>
     (if p = CHR ''*'' then \<exists>n\<le>length v. CHR ''/'' \<notin> set (take n v) \<and> pattern_means ps (drop n v)
      else v \<noteq> [] \<and> (if p = CHR ''?'' then hd v \<noteq> CHR ''/'' else p = hd v) \<and> pattern_means ps (tl v))"

lemma ex_le_Suc: "(\<exists>n\<le>Suc m. P n) \<longleftrightarrow> P 0 \<or> (\<exists>n\<le>m. P (Suc n))"
  by (metis Suc_le_mono not0_implies_Suc zero_le)

lemma pattern_means_split: "pattern_means (ps @ qs) v \<longleftrightarrow> (\<exists>n\<le>length v. pattern_means ps (take n v) \<and> pattern_means qs (drop n v))"
proof (induction ps arbitrary: v)
  case (Cons p ps)
  show ?case
  proof (cases "p = CHR ''*''")
    case True
    show ?thesis
    proof
      assume "pattern_means ((p # ps) @ qs) v"
      then obtain n m where "n \<le> length v" "CHR ''/'' \<notin> set (take n v)" "m \<le> length v - n"
          "pattern_means ps (take m (drop n v))" "pattern_means qs (drop m (drop n v))"
        using True Cons.IH by auto
      then show "\<exists>n\<le>length v. pattern_means (p # ps) (take n v) \<and> pattern_means qs (drop n v)"
        using True by (intro exI [of _ "n + m"]) (auto simp: drop_take ac_simps intro!: exI [of _ n])
    next
      assume "\<exists>n\<le>length v. pattern_means (p # ps) (take n v) \<and> pattern_means qs (drop n v)"
      then obtain n m where "n \<le> length v" "m \<le> n" "CHR ''/'' \<notin> set (take m v)"
          "pattern_means ps (drop m (take n v))" "pattern_means qs (drop n v)"
        using True by (auto simp: min.absorb1 min.absorb2)
      then have "pattern_means (ps @ qs) (drop m v)" "m \<le> length v" "CHR ''/'' \<notin> set (take m v)"
        using Cons.IH by (auto simp: drop_take intro!: exI [of _ "n - m"])
      then show "pattern_means ((p # ps) @ qs) v"
        using True by auto
    qed
  next
    case False
    show ?thesis
    proof (cases v)
      case (Cons c cs)
      then show ?thesis
        using False Cons.IH [of cs] by (auto simp: ex_le_Suc)
    qed (use False in auto)
  qed
qed auto

lemma pattern_means_star: "pattern_means [CHR ''*''] v \<longleftrightarrow> CHR ''/'' \<notin> set v"
  by (auto dest: in_set_takeD intro!: exI [of _ "length v"])

lemma pattern_means_lit: "t \<noteq> CHR ''*'' \<Longrightarrow>
    pattern_means [t] v \<longleftrightarrow> (\<exists>c. v = [c] \<and> (if t = CHR ''?'' then c \<noteq> CHR ''/'' else t = c))"
  by (cases v) auto

lemma ex_split_last: "(\<exists>n\<le>length v. P (take n v) \<and> (\<exists>c. drop n v = [c] \<and> Q c)) \<longleftrightarrow> v \<noteq> [] \<and> Q (last v) \<and> P (butlast v)"
proof (cases v rule: rev_cases)
  case (snoc us c)
  have "drop n (us @ [c]) = [d] \<longleftrightarrow> n = length us \<and> c = d" if "n \<le> Suc (length us)" for n d
    using that by (cases "n = length us") (auto simp: drop_Cons' dest!: arg_cong [where f = length])
  then show ?thesis
    unfolding snoc by (auto cong: conj_cong)
qed simp

lemma pattern_means_snoc:
  "pattern_means (ps @ [t]) v \<longleftrightarrow>
     (if t = CHR ''*'' then \<exists>n\<le>length v. CHR ''/'' \<notin> set (drop n v) \<and> pattern_means ps (take n v)
      else v \<noteq> [] \<and> (if t = CHR ''?'' then last v \<noteq> CHR ''/'' else t = last v) \<and> pattern_means ps (butlast v))"
proof (cases "t = CHR ''*''")
  case True
  then show ?thesis
    unfolding pattern_means_split [of ps "[t]"] by (auto simp: pattern_means_star simp del: pattern_means.simps)
next
  case False
  then show ?thesis
    using ex_split_last [of v "pattern_means ps" "\<lambda>c. if t = CHR ''?'' then c \<noteq> CHR ''/'' else t = c"]
    by (simp only: pattern_means_split [of ps "[t]"] pattern_means_lit [OF False] if_False)
qed

text \<open>The row for a pattern holds, for each beginning of the value, whether the pattern means it.\<close>

definition row_of :: "string \<Rightarrow> string \<Rightarrow> bool list" where
  "row_of ps value = map (\<lambda>n. pattern_means ps (take n value)) [0..<length value + 1]"

text \<open>One cell from its neighbours.\<close>

lemma pattern_means_cell:
  "pattern_means (ps @ [t]) (v @ [c]) \<longleftrightarrow>
     (if t = CHR ''*'' then pattern_means ps (v @ [c]) \<or> (c \<noteq> CHR ''/'' \<and> pattern_means (ps @ [t]) v)
      else if t = CHR ''?'' then c \<noteq> CHR ''/'' \<and> pattern_means ps v else t = c \<and> pattern_means ps v)"
proof (cases "t = CHR ''*''")
  case True
  have "(\<exists>n\<le>length (v @ [c]). CHR ''/'' \<notin> set (drop n (v @ [c])) \<and> pattern_means ps (take n (v @ [c]))) \<longleftrightarrow>
      pattern_means ps (v @ [c]) \<or> (c \<noteq> CHR ''/'' \<and> (\<exists>n\<le>length v. CHR ''/'' \<notin> set (drop n v) \<and> pattern_means ps (take n v)))"
    (is "?l \<longleftrightarrow> ?r")
    by (auto simp: le_Suc_eq cong: conj_cong)
  then show ?thesis
    using True by (simp only: pattern_means_snoc if_True) simp
qed (simp add: pattern_means_snoc)


lemma glob_cells_row:
  assumes "n \<le> length value"
  shows "glob_cells t (pattern_means (ps @ [t]) (take n value))
      (map (\<lambda>m. pattern_means ps (take m value)) [n..<length value + 1]) (drop n value) =
    map (\<lambda>m. pattern_means (ps @ [t]) (take m value)) [n + 1..<length value + 1]"
  using assms
proof (induction "length value - n" arbitrary: n)
  case (Suc k)
  then have n: "n < length value"
    by simp
  have upt: "[n..<length value + 1] = n # Suc n # [Suc n + 1..<length value + 1]"
      "[Suc n..<length value + 1] = Suc n # [Suc n + 1..<length value + 1]"
      "[n + 1..<length value + 1] = Suc n # [Suc n + 1..<length value + 1]"
    using n by (simp_all add: upt_rec)
  have cell: "(if t = CHR ''*'' then pattern_means ps (take (Suc n) value) \<or> (value ! n \<noteq> CHR ''/'' \<and> pattern_means (ps @ [t]) (take n value))
      else if t = CHR ''?'' then value ! n \<noteq> CHR ''/'' \<and> pattern_means ps (take n value)
      else t = value ! n \<and> pattern_means ps (take n value)) \<longleftrightarrow> pattern_means (ps @ [t]) (take (Suc n) value)"
    using pattern_means_cell [of ps t "take n value" "value ! n"] take_Suc_conv_app_nth [OF n] by simp
  have "glob_cells t (pattern_means (ps @ [t]) (take (Suc n) value))
      (map (\<lambda>m. pattern_means ps (take m value)) [Suc n..<length value + 1]) (drop (Suc n) value) =
    map (\<lambda>m. pattern_means (ps @ [t]) (take m value)) [Suc n + 1..<length value + 1]"
    using Suc(2) n by (intro Suc.hyps(1)) simp_all
  then show ?case
    unfolding Cons_nth_drop_Suc [OF n, symmetric] upt list.map glob_cells.simps Let_def cell by (simp only:)
qed simp

lemma glob_row_of: "glob_row value (row_of ps value) t = row_of (ps @ [t]) value"
proof -
  have upt: "[0..<length value + 1] = 0 # [1..<length value + 1]"
    by (simp add: upt_rec)
  have "t = CHR ''*'' \<and> hd (row_of ps value) \<longleftrightarrow> pattern_means (ps @ [t]) (take 0 value)"
    by (simp add: row_of_def pattern_means_snoc list.map_sel del: upt_Suc)
  then show ?thesis
    using glob_cells_row [of 0 "value" t ps]
    unfolding glob_row_def row_of_def upt list.map by (simp add: Let_def upt row_of_def del: upt_Suc)
qed

lemma glob_rows: "foldl (glob_row value) (row_of ps value) qs = row_of (ps @ qs) value"
  by (induction qs arbitrary: ps) (simp_all add: glob_row_of)

theorem glob_matches_exact: "glob_matches pattern value \<longleftrightarrow> pattern_means pattern value"
proof -
  have "True # replicate (length value) False = row_of [] value"
  proof (rule nth_equalityI)
    fix i
    assume "i < length (True # replicate (length value) False)"
    then show "(True # replicate (length value) False) ! i = row_of [] value ! i"
      by (cases i) (auto simp: row_of_def simp del: upt_Suc)
  qed (simp add: row_of_def)
  then have "glob_matches pattern value = last (row_of pattern value)"
    by (simp only: glob_matches_def glob_rows append_Nil)
  then show ?thesis
    by (simp add: row_of_def)
qed


section \<open>What the search finds\<close>

text \<open>The nodes below a directory in the order of the iteration, which does not go into a bundle.\<close>

fun nodes :: "path \<Rightarrow> (string \<times> fs_tree) list \<Rightarrow> (path \<times> fs_tree) list" where
  "nodes parent [] = []"
| "nodes parent ((name, t) # rest) = (parent @ [name], t) #
     (case t of Tree_directory children \<Rightarrow> if is_bundle name t then [] else nodes (parent @ [name]) children | _ \<Rightarrow> []) @
     nodes parent rest"

definition wanted :: "string list \<Rightarrow> path \<times> fs_tree \<Rightarrow> bool" where
  "wanted patterns = (\<lambda>(p, t). \<exists>pattern\<in>set patterns. pattern_means pattern (generic_string p))"

definition packable :: "path \<times> fs_tree \<Rightarrow> bool" where
  "packable = (\<lambda>(p, t). (\<exists>c. t = Tree_file c) \<or> is_bundle (last p) t)"

definition found_paths :: "string list \<Rightarrow> (path \<times> fs_tree) list \<Rightarrow> path list" where
  "found_paths patterns ns = map fst (filter (wanted patterns) ns)"

lemma pattern_matched_wanted: "pattern_matched patterns p \<longleftrightarrow> wanted patterns (p, t)"
  by (simp add: pattern_matched_def wanted_def glob_matches_exact list_ex_iff)

lemma found_paths_simps [simp]:
  "found_paths patterns [] = []"
  "found_paths patterns (n # ns) = (if wanted patterns n then [fst n] else []) @ found_paths patterns ns"
  "found_paths patterns (ns @ ms) = found_paths patterns ns @ found_paths patterns ms"
  by (simp_all add: found_paths_def)

definition scan_ok :: "string list \<Rightarrow> nat \<Rightarrow> (path \<times> fs_tree) list \<Rightarrow> nat \<times> path list \<Rightarrow> bool" where
  "scan_ok patterns maximum ns st \<longleftrightarrow> fst st + length ns \<le> 1000000 \<and>
     length (snd st) + length (found_paths patterns ns) \<le> maximum \<and> (\<forall>n\<in>set ns. wanted patterns n \<longrightarrow> packable n)"

definition scan_end :: "string list \<Rightarrow> (path \<times> fs_tree) list \<Rightarrow> nat \<times> path list \<Rightarrow> nat \<times> path list" where
  "scan_end patterns ns st = (fst st + length ns, snd st @ found_paths patterns ns)"

lemma scan_append:
  "scan_ok patterns maximum (ns @ ms) st \<longleftrightarrow> scan_ok patterns maximum ns st \<and> scan_ok patterns maximum ms (scan_end patterns ns st)"
  "scan_end patterns (ns @ ms) st = scan_end patterns ms (scan_end patterns ns st)"
  by (auto simp: scan_ok_def scan_end_def)

lemma scan_Nil: "scan_end patterns [] st = st"
  by (simp add: scan_end_def)

lemma scan_one:
  "scan_ok patterns maximum [n] (scanned, found) \<longleftrightarrow> scanned + 1 \<le> 1000000 \<and>
     (if wanted patterns n then packable n \<and> length found + 1 \<le> maximum else length found \<le> maximum)"
  "scan_end patterns [n] (scanned, found) = (scanned + 1, if wanted patterns n then found @ [fst n] else found)"
  by (auto simp: scan_ok_def scan_end_def)

lemma discover_scan:
  "fst st \<le> 1000000 \<Longrightarrow> length (snd st) \<le> maximum \<Longrightarrow> discover patterns maximum parent ts st = Inr st' \<longleftrightarrow>
     scan_ok patterns maximum (nodes parent ts) st \<and> st' = scan_end patterns (nodes parent ts) st"
proof (induction patterns maximum parent ts st arbitrary: st' rule: discover.induct)
  case (1 patterns maximum parent st)
  then show ?case
    by (cases st) (auto simp: scan_ok_def scan_end_def)
next
  case (2 patterns maximum parent name t rest scanned found)
  let ?p = "parent @ [name]" and ?n = "(parent @ [name], t)" and ?s = "(scanned, found)"
  let ?sub = "case t of Tree_directory children \<Rightarrow> if is_bundle name t then [] else nodes ?p children | _ \<Rightarrow> []"
  show ?case
  proof (cases "scanned + 1 > 1000000")
    case True
    then show ?thesis
      by (simp add: scan_ok_def)
  next
    case False
    have inner: "discover patterns maximum ?p children (scanned + 1, found) = Inr st \<longleftrightarrow>
        scan_ok patterns maximum (nodes ?p children) (scanned + 1, found) \<and> st = scan_end patterns (nodes ?p children) (scanned + 1, found)"
      if "t = Tree_directory children" "\<not> is_bundle name t" "\<not> pattern_matched patterns ?p" for children st
      using 2(1) [OF False refl refl that] 2(4) False by simp
    have rest: "discover patterns maximum parent rest st = Inr st' \<longleftrightarrow>
        scan_ok patterns maximum (nodes parent rest) st \<and> st' = scan_end patterns (nodes parent rest) st"
      if "scan_ok patterns maximum ms ?s" "st = scan_end patterns ms ?s" for st ms
      using 2(2) [OF False refl refl, of st] that by (auto simp: scan_ok_def scan_end_def)
    have wanted: "pattern_matched patterns ?p \<longleftrightarrow> wanted patterns ?n"
      by (rule pattern_matched_wanted)
    have "discover patterns maximum parent ((name, t) # rest) ?s = Inr st' \<longleftrightarrow>
        scan_ok patterns maximum ([?n] @ ?sub) ?s \<and> discover patterns maximum parent rest (scan_end patterns ([?n] @ ?sub) ?s) = Inr st'"
    proof (cases t)
      case (Tree_directory children)
      show ?thesis
      proof (cases "is_bundle name t")
        case True
        then show ?thesis
          using False 2(4) Tree_directory by (auto simp: wanted scan_append scan_one scan_Nil result_simps packable_def)
      next
        case plain: False
        have Cons: "?n # nodes ?p children = [?n] @ nodes ?p children"
          by simp
        show ?thesis
        proof (cases "wanted patterns ?n")
          case True
          then show ?thesis
            using False plain Tree_directory by (simp add: wanted scan_ok_def packable_def Let_def)
        next
          case unwanted: False
          then have "\<not> pattern_matched patterns ?p"
            by (simp add: wanted)
          then have "discover patterns maximum parent ((name, t) # rest) ?s = Inr st' \<longleftrightarrow>
              (\<exists>st. discover patterns maximum ?p children (scanned + 1, found) = Inr st \<and>
                discover patterns maximum parent rest st = Inr st')"
            using False plain Tree_directory by (simp add: result_simps Let_def)
          then have "discover patterns maximum parent ((name, t) # rest) ?s = Inr st' \<longleftrightarrow>
              scan_ok patterns maximum (nodes ?p children) (scanned + 1, found) \<and>
              discover patterns maximum parent rest (scan_end patterns (nodes ?p children) (scanned + 1, found)) = Inr st'"
            unfolding inner [OF Tree_directory plain \<open>\<not> pattern_matched patterns ?p\<close>] by blast
          then show ?thesis
            using False plain Tree_directory unwanted 2(4)
            by (simp add: Cons scan_append scan_one del: append.simps discover.simps)
        qed
      qed
    qed (use False 2(4) in \<open>auto simp: wanted scan_one scan_Nil result_simps packable_def is_bundle_def Let_def\<close>)
    moreover have "nodes parent ((name, t) # rest) = ([?n] @ ?sub) @ nodes parent rest"
      by simp
    ultimately show ?thesis
      using rest [of "[?n] @ ?sub" "scan_end patterns ([?n] @ ?sub) ?s"]
        scan_append(1) [of patterns maximum "[?n] @ ?sub" "nodes parent rest" ?s]
        scan_append(2) [of patterns "[?n] @ ?sub" "nodes parent rest" ?s] by metis
  qed
qed

lemma tree_directory_result:
  "(case t of Some (Tree_directory children) \<Rightarrow> f children | _ \<Rightarrow> throw e) = Inr y \<longleftrightarrow>
     (\<exists>children. t = Some (Tree_directory children) \<and> f children = Inr y)"
  by (auto split: option.splits fs_tree.splits)

text \<open>C17. The search returns exactly when the patterns are safe, the root is a directory, not too many entries were seen, and
  what the patterns mean below it are files and bundles, at least one of them and not too many; it then gives their
  paths in order.\<close>

theorem artifacts_found_exactly:
  "discover_build_artifacts working_directory tree_at root p maximum = Inr found \<longleftrightarrow>
     (let patterns = afp_paths (bp_artifacts p)
      in patterns \<noteq> [] \<and> 0 < maximum \<and> maximum \<le> 1024 \<and> list_all safe_artifact_pattern patterns \<and>
         (\<exists>scope children ns. new_workspace_scope working_directory root = Inr scope \<and>
           tree_at scope = Some (Tree_directory children) \<and> ns = nodes [] children \<and> length ns \<le> 1000000 \<and>
           {n \<in> set ns. wanted patterns n} \<subseteq> {n. packable n} \<and> found = sort (found_paths patterns ns) \<and>
           distinct found \<and> found \<noteq> [] \<and> length found \<le> maximum))"
  by (auto simp: discover_build_artifacts_def Let_def result_simps tree_directory_result discover_scan scan_ok_def
      scan_end_def)

section \<open>What an accepted configuration has\<close>

text \<open>\<open>chars\<close> are the characters that the texts of the configuration are made of.\<close>

definition command_read :: "char set \<Rightarrow> command_spec \<Rightarrow> bool" where
  "command_read chars c \<longleftrightarrow> cs_environment c = [] \<and> cs_timeout c \<le> 86400 \<and> set (cs_working_directory c) \<subseteq> chars \<and>
     (\<forall>arg\<in>set (cs_argv c). arg \<noteq> [] \<and> set arg \<subseteq> chars)"

definition profile_read :: "char set \<Rightarrow> build_profile \<Rightarrow> bool" where
  "profile_read chars p \<longleftrightarrow> command_read chars (bp_command p) \<and> finite (bp_environment_allowlist p) \<and>
     (\<forall>n\<in>bp_environment_allowlist p. valid_environment_name n)"

definition config_read :: "char set \<Rightarrow> workspace_config \<Rightarrow> bool" where
  "config_read chars config \<longleftrightarrow> omap_wf (wc_profiles config) \<and>
     (\<forall>name p. map_of (wc_profiles config) name = Some p \<longrightarrow> bp_name p = name \<and> valid_id name \<and> profile_read chars p)"

lemma set_trim_line: "set (trim_line s) \<subseteq> set s"
  by (auto simp: trim_line_def dest!: set_dropWhileD)

lemma set_inner: "set (butlast (tl s)) \<subseteq> set s" "set (tl s) \<subseteq> set s"
  by (cases s; auto dest: in_set_butlastD)+

lemma parse_string_read: "parse_string v = Inr s \<Longrightarrow> s \<noteq> [] \<and> set s \<subseteq> set v"
proof -
  assume "parse_string v = Inr s"
  then have "s = butlast (tl (trim_line v))" "s \<noteq> []"
    by (auto simp: parse_string_def Let_def split: if_splits)
  then show ?thesis
    using set_trim_line [of v] set_inner [of "trim_line v"] by blast
qed

lemma if_resultE: "(if c then a else b) = Inr y \<Longrightarrow> (c \<Longrightarrow> a = Inr y \<Longrightarrow> P) \<Longrightarrow> (\<not> c \<Longrightarrow> b = Inr y \<Longrightarrow> P) \<Longrightarrow> P"
  by (cases c) auto

lemma and_then_resultE: "and_then m f = Inr y \<Longrightarrow> (\<And>x. m = Inr x \<Longrightarrow> f x = Inr y \<Longrightarrow> P) \<Longrightarrow> P"
  by (cases m) auto

lemma ok_resultE: "Inr a = Inr y \<Longrightarrow> (y = a \<Longrightarrow> P) \<Longrightarrow> P"
  by auto

lemmas resultE = if_resultE and_then_resultE ok_resultE

lemma parse_items_step:
  assumes "parse_items v = Inr ss" and "v \<noteq> []"
  obtains k item where "k > 0" and "parse_string (take k v) = Inr item"
    and "ss = [item] \<or> (\<exists>items. parse_items (trim_line (tl (trim_line (drop k v)))) = Inr items \<and> ss = item # items)"
proof -
  let ?k = "Suc (Suc (length (takeWhile (\<lambda>c. c \<noteq> CHR 0x22) (tl v))))"
  have "?k > 0"
    by simp
  moreover obtain item where "parse_string (take ?k v) = Inr item"
    and "ss = [item] \<or> (\<exists>items. parse_items (trim_line (tl (trim_line (drop ?k v)))) = Inr items \<and> ss = item # items)"
    using assms parse_items.simps [of v] by (auto simp: Let_def elim!: if_resultE and_then_resultE)
  ultimately show thesis
    by (rule that)
qed

lemma parse_items_read: "parse_items v = Inr ss \<Longrightarrow> s \<in> set ss \<Longrightarrow> s \<noteq> [] \<and> set s \<subseteq> set v"
proof (induction v arbitrary: ss rule: measure_induct_rule [of length])
  case (less v)
  show ?case
  proof (cases "v = []")
    case True
    then show ?thesis
      using less.prems parse_items.simps [of v] by auto
  next
    case False
    obtain k item where k: "k > 0" "parse_string (take k v) = Inr item"
      and ss: "ss = [item] \<or> (\<exists>items. parse_items (trim_line (tl (trim_line (drop k v)))) = Inr items \<and> ss = item # items)"
      using parse_items_step [OF less.prems(1) False] by blast
    let ?rest = "trim_line (tl (trim_line (drop k v)))"
    have "length ?rest \<le> length (drop k v)"
      using length_trim_line [of "tl (trim_line (drop k v))"] length_trim_line [of "drop k v"] by simp
    then have shorter: "length ?rest < length v"
      using k(1) False by (cases v) auto
    have "set ?rest \<subseteq> set v"
      using set_trim_line [of "tl (trim_line (drop k v))"] set_inner(2) [of "trim_line (drop k v)"]
        set_trim_line [of "drop k v"] set_drop_subset [of k v] by blast
    moreover have "item \<noteq> [] \<and> set item \<subseteq> set v"
      using parse_string_read [OF k(2)] by (meson order_trans set_take_subset)
    ultimately show ?thesis
      using ss less.IH [OF shorter] less.prems(2) by fastforce
  qed
qed

lemma parse_string_array_read:
  assumes "parse_string_array v = Inr ss"
  shows "ss \<noteq> [] \<and> (\<forall>s\<in>set ss. s \<noteq> [] \<and> set s \<subseteq> set v)"
proof -
  let ?w = "trim_line (butlast (tl (trim_line v)))"
  have "parse_items ?w = Inr ss" "ss \<noteq> []"
    using assms by (auto simp: parse_string_array_def Let_def result_simps split: if_splits)
  moreover have "set ?w \<subseteq> set v"
    using set_trim_line [of v] set_trim_line [of "butlast (tl (trim_line v))"] set_inner(1) [of "trim_line v"] by blast
  ultimately show ?thesis
    using parse_items_read [of ?w ss] by blast
qed

lemma target_read:
  assumes "target name change config = Inr config'" and "config_read chars config"
    and "\<And>p p'. profile_read chars p \<Longrightarrow> change p = Inr p' \<Longrightarrow> bp_name p' = bp_name p \<and> profile_read chars p'"
  shows "config_read chars config'"
proof -
  have "profile_read chars ((profile_at config name)\<lparr>bp_name := name\<rparr>)"
    using assms(2) by (auto simp: config_read_def profile_at_def empty_profile_def profile_read_def command_read_def
        split: option.splits)
  moreover obtain p' where p': "valid_id name" "change ((profile_at config name)\<lparr>bp_name := name\<rparr>) = Inr p'"
      "config' = config\<lparr>wc_profiles := omap_assign name p' (wc_profiles config)\<rparr>"
    using assms(1) by (auto simp: target_def result_simps split: if_splits)
  ultimately have "bp_name p' = name \<and> profile_read chars p'"
    using assms(3) [OF _ p'(2)] by simp
  then show ?thesis
    using assms(2) p'(1) unfolding p'(3) by (simp add: config_read_def)
qed

lemma assign_target_read:
  assumes "assign_target key v p = Inr p'" and "set v \<subseteq> chars" and "profile_read chars p"
  shows "bp_name p' = bp_name p \<and> profile_read chars p'"
proof -
  have array: "ss \<noteq> [] \<and> (\<forall>s\<in>set ss. s \<noteq> [] \<and> set s \<subseteq> chars)" if "parse_string_array v = Inr ss" for ss
    using parse_string_array_read [OF that] assms(2) by blast
  have one: "set s \<subseteq> chars" if "parse_string v = Inr s" for s
    using parse_string_read [OF that] assms(2) by blast
  show ?thesis
    using assms(1,3) unfolding assign_target_def Let_def profile_read_def command_read_def
    by (elim resultE conjE)
      (simp, simp add: one, use array in simp, simp add: not_less, simp_all add: list_all_iff ball_Un)
qed

lemma assign_artifacts_read:
  "assign_artifacts key v p = Inr p' \<Longrightarrow> profile_read chars p \<Longrightarrow> bp_name p' = bp_name p \<and> profile_read chars p'"
  unfolding assign_artifacts_def Let_def
  by (elim resultE; simp add: profile_read_def)

lemma assign_read:
  assumes "assign key v ps = Inr ps'" and "set v \<subseteq> chars" and "config_read chars (cp_config ps)"
  shows "config_read chars (cp_config ps')"
proof -
  obtain config where config: "(if cp_section ps = ''workspace'' then assign_workspace key v (cp_config ps)
      else if cp_section ps = ''sync'' then assign_sync key v (cp_config ps)
      else target (fst (section_target (cp_section ps)))
        ((if snd (section_target (cp_section ps)) then assign_artifacts else assign_target) key v) (cp_config ps)) = Inr config"
      "cp_config ps' = config"
    using assms(1) by (auto simp: assign_def Let_def result_simps)
  consider "cp_section ps = ''workspace''" | "cp_section ps = ''sync''" |
      "target (fst (section_target (cp_section ps)))
        ((if snd (section_target (cp_section ps)) then assign_artifacts else assign_target) key v) (cp_config ps) = Inr config"
    using config(1) by (auto split: if_splits)
  then show ?thesis
  proof cases
    case 1
    then have "assign_workspace key v (cp_config ps) = Inr config"
      using config(1) by simp
    then show ?thesis
      unfolding assign_workspace_def config(2) by (elim resultE) (use assms(3) in \<open>simp_all add: config_read_def\<close>)
  next
    case 2
    then have "assign_sync key v (cp_config ps) = Inr config"
      using config(1) by simp
    then show ?thesis
      unfolding assign_sync_def config(2) by (elim resultE) (use assms(3) in \<open>simp_all add: config_read_def\<close>)
  next
    case 3
    then show ?thesis
      unfolding config(2)
      by (rule target_read [OF _ assms(3)]) (auto split: if_splits dest: assign_artifacts_read assign_target_read [OF _ assms(2)])
  qed
qed


lemma set_section_read:
  assumes "set_section v ps = Inr ps'" and "config_read chars (cp_config ps)"
  shows "config_read chars (cp_config ps')"
proof -
  have "config_read chars config" if "target name ok (cp_config ps) = Inr config" for name config
    by (rule target_read [OF that assms(2)]) simp
  then show ?thesis
    using assms unfolding set_section_def by (elim resultE) auto
qed

lemma without_comment_read: "without_comment_from before quoted s = Inr r \<Longrightarrow> set r \<subseteq> set s"
  by (induction before quoted s arbitrary: r rule: without_comment_from.induct)
    (fastforce simp: result_simps split: if_splits)+

lemma config_line_read:
  assumes "config_line line ps = Inr ps'" and "set line \<subseteq> chars" and "config_read chars (cp_config ps)"
  shows "config_read chars (cp_config ps')"
proof -
  obtain u where u: "without_comment line = Inr u"
    using assms(1) by (auto simp: config_line_def result_simps)
  let ?val = "trim_line (tl (dropWhile (\<lambda>c. c \<noteq> CHR ''='') (trim_line u)))"
  have "set ?val \<subseteq> set (trim_line u)"
    using set_trim_line [of "tl (dropWhile (\<lambda>c. c \<noteq> CHR ''='') (trim_line u))"]
      set_inner(2) [of "dropWhile (\<lambda>c. c \<noteq> CHR ''='') (trim_line u)"] set_dropWhileD by fastforce
  then have "set ?val \<subseteq> chars"
    using set_trim_line [of u] without_comment_read [of None False line u] u assms(2)
    unfolding without_comment_def by blast
  then show ?thesis
    using assms(1,3) assign_read set_section_read unfolding config_line_def u and_then_Inr Let_def
    by (elim resultE) auto
qed

lemma file_lines_read: "l \<in> set (file_lines s) \<Longrightarrow> set l \<subseteq> set s"
proof (induction s rule: file_lines.induct)
  case (1 s)
  show ?case
  proof (cases "s = []")
    case False
    then have "l = takeWhile (\<lambda>c. c \<noteq> CHR 0x0A) s \<or> l \<in> set (file_lines (drop 1 (dropWhile (\<lambda>c. c \<noteq> CHR 0x0A) s)))"
      using "1.prems" file_lines.simps [of s] by auto
    then show ?thesis
    proof
      assume "l \<in> set (file_lines (drop 1 (dropWhile (\<lambda>c. c \<noteq> CHR 0x0A) s)))"
      then have "set l \<subseteq> set (drop 1 (dropWhile (\<lambda>c. c \<noteq> CHR 0x0A) s))"
        by (rule "1.IH" [OF False])
      then show ?thesis
        using set_drop_subset [of 1 "dropWhile (\<lambda>c. c \<noteq> CHR 0x0A) s"] set_dropWhileD [of _ "\<lambda>c. c \<noteq> CHR 0x0A" s] by blast
    qed (auto dest: set_takeWhileD)
  qed (use "1.prems" in simp)
qed

lemma config_lines_read:
  "config_lines ls ps = Inr ps' \<Longrightarrow> \<forall>l\<in>set ls. set l \<subseteq> chars \<Longrightarrow> config_read chars (cp_config ps) \<Longrightarrow>
     config_read chars (cp_config ps')"
  by (induction ls ps rule: config_lines.induct) (auto simp: result_simps dest: config_line_read)

lemma check_all_iff: "check_all f xs = Inr u \<longleftrightarrow> (\<forall>x\<in>set xs. f x = Inr ())"
  by (induction xs) (auto simp: result_simps)

definition safe_pattern :: "string \<Rightarrow> bool" where
  "safe_pattern v \<longleftrightarrow> v \<noteq> [] \<and> hd v \<noteq> CHR ''/'' \<and> CHR 0x5C \<notin> set v \<and> CHR 0x00 \<notin> set v \<and> list_all part_ok (slash_parts v)"

lemma require_safe_pattern: "require_safe_relative_pattern v = Inr u \<longleftrightarrow> safe_pattern v"
  by (auto simp: require_safe_relative_pattern_def safe_pattern_def result_simps)

definition profile_ready :: "build_profile \<Rightarrow> bool" where
  "profile_ready p \<longleftrightarrow> bp_node p \<noteq> [] \<and> cs_argv (bp_command p) \<noteq> [] \<and>
     portable_absolute_executable (hd (cs_argv (bp_command p))) \<and>
     0 < cs_timeout (bp_command p) \<and> cs_timeout (bp_command p) \<le> 86400 \<and>
     cs_working_directory (bp_command p) \<noteq> [] \<and> hd (cs_working_directory (bp_command p)) \<noteq> CHR ''/'' \<and>
     ''..'' \<notin> set (slash_parts (cs_working_directory (bp_command p))) \<and>
     afp_paths (bp_artifacts p) \<noteq> [] \<and> list_all safe_pattern (afp_paths (bp_artifacts p)) \<and>
     afp_platform (bp_artifacts p) \<noteq> [] \<and> afp_architecture (bp_artifacts p) \<noteq> []"

lemma seconds_signed: "(t :: u64) \<le> 86400 \<Longrightarrow> \<not> sint t \<le> 0 \<longleftrightarrow> 0 < t"
proof -
  assume "t \<le> 86400"
  then have "uint t \<le> 86400"
    by (simp add: word_le_def)
  then have "sint t = uint t"
    unfolding sint_uint using order_trans [OF _ uint_ge_0 [of t], of "- (2 ^ 63)"]
    by (intro signed_take_bit_int_eq_self) simp_all
  then show ?thesis
    by (auto simp: word_less_def not_le less_le)
qed

lemma profile_complete_ready: "profile_complete p = Inr u \<Longrightarrow> profile_read chars p \<Longrightarrow> profile_ready p"
  by (auto simp: profile_complete_def Let_def result_simps profile_ready_def check_all_iff require_safe_pattern
      list_all_iff profile_read_def command_read_def seconds_signed split: if_splits)

lemma accepted_config:
  assumes "parse_remote_workspace_config contents = Inr config"
  shows "valid_id (wc_workspace_id config) \<and> wc_workspace_name config \<noteq> [] \<and> wc_source config = ''windows'' \<and>
    wc_mirror config = ''macos'' \<and> wc_sync_direction config = ''one-way'' \<and> wc_profiles config \<noteq> [] \<and>
    list_all safe_pattern (wc_sync_excludes config) \<and> config_read (set contents) config \<and>
    (\<forall>name p. config_profile config name = Inr p \<longrightarrow> profile_ready p)"
proof -
  obtain ps where ps: "config_lines (file_lines contents) \<lparr>cp_config = empty_config, cp_section = [], cp_seen = {}\<rparr> = Inr ps"
    and complete: "config_complete (cp_config ps) = Inr config"
    using assms by (auto simp: parse_remote_workspace_config_def result_simps)
  have "config_read (set contents) (cp_config ps)"
    by (rule config_lines_read [OF ps]) (auto dest: file_lines_read simp: config_read_def empty_config_def)
  moreover have "cp_config ps = config"
    using complete by (auto simp: config_complete_def result_simps)
  ultimately have "config_read (set contents) config"
    by simp
  moreover have "profile_ready p" if "config_profile config name = Inr p" for name p
  proof -
    have "map_of (wc_profiles config) name = Some p"
      using that by (auto simp: config_profile_def split: option.splits)
    then have "profile_read (set contents) p" "(name, p) \<in> set (wc_profiles config)"
      using calculation map_of_SomeD by (fastforce simp: config_read_def)+
    then show ?thesis
      using complete unfolding \<open>cp_config ps = config\<close>
      by (auto simp: config_complete_def result_simps check_all_iff intro: profile_complete_ready)
  qed
  ultimately show ?thesis
    using complete unfolding \<open>cp_config ps = config\<close>
    by (auto simp: config_complete_def result_simps check_all_iff require_safe_pattern list_all_iff)
qed

text \<open>C15. A configuration that is accepted is complete: its profiles have the names under which they are, name an absolute
  executable and a working directory that cannot leave the workspace, a time limit of at most a day, environment
  variables with valid names, and patterns that cannot leave the workspace.\<close>

theorem accepted_config_complete:
  assumes "parse_remote_workspace_config contents = Inr config"
  shows "valid_id (wc_workspace_id config) \<and> wc_workspace_name config \<noteq> [] \<and> wc_source config = ''windows'' \<and>
    wc_mirror config = ''macos'' \<and> wc_sync_direction config = ''one-way'' \<and> wc_profiles config \<noteq> [] \<and>
    list_all safe_pattern (wc_sync_excludes config) \<and> config_read (set contents) config \<and>
    (\<forall>name p. config_profile config name = Inr p \<longrightarrow> profile_ready p)"
  using assms by (rule accepted_config)

text \<open>C16. Every profile of an accepted configuration can be built, as often as wanted: the request is made, the queue takes
  it, and it runs the command of the profile without environment variables. The one exception is a text with a NUL
  character, see below.\<close>

theorem accepted_config_builds:
  assumes "parse_remote_workspace_config contents = Inr config" and "CHR 0x00 \<notin> set contents"
    and "config_profile config name = Inr p" and "valid_id build_id" and "revision \<noteq> 0" and "q build_id = None"
  shows "\<exists>r. make_build_request config build_id revision name [] = Inr r \<and>
    bq_workspace_id r = wc_workspace_id config \<and> bq_pinned_revision r = revision \<and> bq_command r = bp_command p \<and>
    queue_submit r (bp_environment_allowlist p) q =
      Inr (q(build_id \<mapsto> \<lparr>bj_request = r, bj_state = Build_queued, bj_evidence = None\<rparr>))"
proof -
  have "map_of (wc_profiles config) name = Some p"
    using assms(3) by (auto simp: config_profile_def split: option.splits)
  then have p: "bp_name p = name" "valid_id name" "profile_read (set contents) p" "profile_ready p"
      "valid_id (wc_workspace_id config)"
    using accepted_config [OF assms(1)] assms(3) by (auto simp: config_read_def)
  then have environment: "(bp_command p)\<lparr>cs_environment := []\<rparr> = bp_command p"
    by (simp add: profile_read_def command_read_def)
  have "\<not> sint (cs_timeout (bp_command p)) \<le> 0"
    using p(4) by (simp add: profile_ready_def seconds_signed)
  then have "validate_command (bp_command p) (bp_environment_allowlist p) = Inr ()"
    using p(3,4) assms(2) unfolding validate_command_def profile_read_def command_read_def profile_ready_def
    by (auto simp: list_ex_iff result_simps)
  then show ?thesis
    using p assms(3-6) by (simp add: make_build_request_def environment queue_submit_def)
qed

text \<open>An example, as a text and as it is read.\<close>

definition q1 :: "string \<Rightarrow> string" where
  "q1 s = CHR 0x22 # s @ [CHR 0x22]"

definition sample_config_lines :: "string list" where
  "sample_config_lines = [''[workspace]'', ''id = '' @ q1 ''w1'', ''name='' @ q1 ''n'', ''source='' @ q1 ''windows'',
     ''mirror='' @ q1 ''macos'', ''[sync]'', ''direction='' @ q1 ''one-way'', ''[target.rel]'', ''node='' @ q1 ''m'',
     ''working_dir='' @ q1 ''src'' @ '' # below the root'', ''command = ['' @ q1 ''/usr/bin/make'' @ '', '' @ q1 ''all'' @ '']'',
     ''timeout_seconds = 60'', ''[target.rel.artifacts]'', ''paths=['' @ q1 ''out/*.zip'' @ '']'', ''platform='' @ q1 ''macos'',
     ''architecture='' @ q1 ''arm64'']"

definition sample_build_profile :: build_profile where
  "sample_build_profile = \<lparr>bp_name = ''rel'', bp_node = ''m'',
     bp_command = \<lparr>cs_argv = [''/usr/bin/make'', ''all''], cs_working_directory = ''src'', cs_timeout = 60, cs_environment = []\<rparr>,
     bp_environment_allowlist = {},
     bp_artifacts = \<lparr>afp_paths = [''out/*.zip''], afp_platform = ''macos'', afp_architecture = ''arm64'',
       afp_archive_app_bundles = True\<rparr>\<rparr>"

definition sample_config :: workspace_config where
  "sample_config = \<lparr>wc_workspace_id = ''w1'', wc_workspace_name = ''n'', wc_source = ''windows'', wc_mirror = ''macos'',
     wc_sync_direction = ''one-way'', wc_sync_excludes = [], wc_profiles = [(''rel'', sample_build_profile)]\<rparr>"

lemmas config_values = parse_string_def parse_string_array_def parse_items.simps parse_positive_integer_def trim_line_def
  is_space_def q1_def Let_def is_digit_def digits_value_def

lemmas config_steps = config_line_def without_comment_def set_section_def assign_def assign_workspace_def assign_sync_def
  assign_target_def assign_artifacts_def target_def section_target_def target_prefix_def artifacts_suffix_def
  starts_with_def ends_with_def profile_at_def valid_id_def is_alnum_def empty_config_def empty_profile_def

lemma sample_config_lines_read: "\<exists>ps. config_lines sample_config_lines \<lparr>cp_config = empty_config, cp_section = [], cp_seen = {}\<rparr> = Inr ps \<and>
    cp_config ps = sample_config"
  unfolding sample_config_lines_def
  by (simp add: config_steps config_values) (simp add: sample_config_def sample_build_profile_def)

lemma sample_config_accepted: "config_complete sample_config = Inr sample_config"
  by (simp add: config_complete_def sample_config_def sample_build_profile_def profile_complete_def Let_def valid_id_def
      is_alnum_def is_digit_def portable_absolute_executable_def require_safe_relative_pattern_def part_ok_def)

lemma sample_config_parsed: "parse_remote_workspace_config (join_lines sample_config_lines) = Inr sample_config"
proof -
  have "file_lines (join_lines sample_config_lines) = sample_config_lines"
    by (rule file_lines_join) (simp add: sample_config_lines_def q1_def)
  then show ?thesis
    using sample_config_lines_read sample_config_accepted by (auto simp: parse_remote_workspace_config_def)
qed

theorem accepted_config_complete_witness:
  "safe_pattern ''out/*.zip'' \<and> profile_ready sample_build_profile \<and>
    config_read (set (join_lines sample_config_lines)) sample_config"
proof -
  have "config_profile sample_config ''rel'' = Inr sample_build_profile"
    by (simp add: config_profile_def sample_config_def)
  then have ready: "profile_ready sample_build_profile" and "config_read (set (join_lines sample_config_lines)) sample_config"
    using accepted_config_complete [OF sample_config_parsed] by blast+
  moreover have "list_all safe_pattern (afp_paths (bp_artifacts sample_build_profile))"
    using ready unfolding profile_ready_def by blast
  ultimately show ?thesis
    by (simp add: sample_build_profile_def)
qed

theorem accepted_config_builds_witness:
  "\<exists>r. make_build_request sample_config ''b1'' 3 ''rel'' [] = Inr r \<and>
    queue_submit r {} Map.empty = Inr [''b1'' \<mapsto> \<lparr>bj_request = r, bj_state = Build_queued, bj_evidence = None\<rparr>] \<and>
    cs_argv (bq_command r) = [''/usr/bin/make'', ''all'']"
proof -
  have "CHR 0x00 \<notin> set (join_lines sample_config_lines)"
    by (simp add: join_lines_def sample_config_lines_def q1_def)
  moreover have "config_profile sample_config ''rel'' = Inr sample_build_profile" "valid_id ''b1''"
    by (simp_all add: config_profile_def sample_config_def valid_id_def is_alnum_def is_digit_def)
  ultimately show ?thesis
    using accepted_config_builds [OF sample_config_parsed, of "''rel''" sample_build_profile "''b1''" 3 Map.empty]
    by (auto simp: sample_build_profile_def)
qed

text \<open>A string with a NUL character is accepted, but a command with one is not.\<close>

lemma nul_string_accepted: "parse_string [CHR 0x22, CHR 0x00, CHR 0x22] = Inr [CHR 0x00]"
  by (simp add: config_values)

lemma nul_command_never_built:
  assumes "config_profile config name = Inr p" and "arg \<in> set (cs_argv (bp_command p))" and "CHR 0x00 \<in> set arg"
  shows "\<exists>e. make_build_request config build_id revision name environment = Inl e"
  using assms by (auto simp: make_build_request_def validate_command_def Let_def list_ex_iff)

end
