(* ===== verification/Process_Isolation.thy ===== *)
theory Process_Isolation
  imports File_System Authorization Audit_Log
begin

text \<open>
  \<open>core/src/process_isolation.cpp\<close>: what each kind of process may do, and the boundary around the workspace. A role has a
  fixed set of capabilities; a process acts with a capability only when its role has it and the session was granted
  it; a path is resolved below the workspace root, and a refusal is an event of the audit log.
\<close>

section \<open>Roles\<close>

datatype process_role = Privileged_broker | Desktop_agent | Build_worker

fun role_to_string :: "process_role \<Rightarrow> string" where
  "role_to_string Privileged_broker = ''privileged_broker''"
| "role_to_string Desktop_agent = ''desktop_agent''"
| "role_to_string Build_worker = ''build_worker''"

record process_policy =
  po_role :: process_role
  po_allowed_capabilities :: "capability set"
  po_workspace_access :: bool

fun default_process_policy :: "process_role \<Rightarrow> process_policy" where
  "default_process_policy Privileged_broker =
     \<lparr>po_role = Privileged_broker, po_allowed_capabilities = {deploy_execute, system_admin}, po_workspace_access = False\<rparr>"
| "default_process_policy Desktop_agent =
     \<lparr>po_role = Desktop_agent,
      po_allowed_capabilities = {desktop_view, desktop_control, clipboard_read, clipboard_write}, po_workspace_access = False\<rparr>"
| "default_process_policy Build_worker =
     \<lparr>po_role = Build_worker,
      po_allowed_capabilities = {workspace_read, workspace_write, workspace_sync, terminal_open, command_exec, build_submit,
        test_run, artifact_read, artifact_download, git_status, git_diff}, po_workspace_access = True\<rparr>"

section \<open>The boundary\<close>

record process_boundary =
  bn_policy :: process_policy
  bn_root :: path

definition new_process_boundary :: "process_policy \<Rightarrow> path \<Rightarrow> fs_path \<Rightarrow> process_boundary result" where
  "new_process_boundary policy working_directory workspace_root =
     and_then (new_workspace_scope working_directory workspace_root) (\<lambda>scope.
       if po_allowed_capabilities policy = {}
       then throw (Invalid_argument ''process policy must allow an explicit capability set'')
       else ok \<lparr>bn_policy = policy, bn_root = scope\<rparr>)"

record scoped_access_request =
  sa_principal_id :: string
  sa_device_id :: string
  sa_session_id :: string
  sa_workspace_id :: string
  sa_capability :: capability
  sa_relative_path :: fs_path
  sa_authorization :: authorization_result
  sa_occurred_at :: time_point
  sa_agent_job_id :: string

definition boundary_permits :: "process_boundary \<Rightarrow> capability \<Rightarrow> authorization_result \<Rightarrow> bool" where
  "boundary_permits b c auth \<longleftrightarrow> c \<in> po_allowed_capabilities (bn_policy b) \<and> permits auth c"

definition denied_event :: "process_boundary \<Rightarrow> scoped_access_request \<Rightarrow> string \<Rightarrow> audit_event" where
  "denied_event b r reason = default_event\<lparr>ae_occurred_at := sa_occurred_at r, ae_principal_id := sa_principal_id r,
     ae_device_id := sa_device_id r, ae_session_id := sa_session_id r, ae_workspace_id := sa_workspace_id r,
     ae_process_role := role_to_string (po_role (bn_policy b)), ae_reason_code := reason,
     ae_agent_job_id := sa_agent_job_id r, ae_action := scope_access_denied, ae_result := res_denied\<rparr>"

text \<open>\<open>deny\<close> always throws: what the log throws, or that the access is denied.\<close>

definition boundary_deny :: "process_boundary \<Rightarrow> scoped_access_request \<Rightarrow> string \<Rightarrow> (audit_log, path) call" where
  "boundary_deny b r reason lg = (case audit_append (denied_event b r reason) lg of
     Inl e \<Rightarrow> (throw e, lg)
   | Inr lg' \<Rightarrow> (throw (Logic_error ''process workspace access denied''), lg'))"

text \<open>\<open>resolve\<close> throws nothing but \<open>invalid_argument\<close>.\<close>

definition resolve_workspace_access :: "process_boundary \<Rightarrow> scoped_access_request \<Rightarrow> (audit_log, path) call" where
  "resolve_workspace_access b r lg =
     (if sa_principal_id r = [] \<or> sa_device_id r = [] \<or> sa_session_id r = [] \<or> sa_workspace_id r = []
      then (throw (Invalid_argument ''scoped access actor metadata is incomplete''), lg)
      else if \<not> po_workspace_access (bn_policy b) then boundary_deny b r ''role_has_no_workspace_access'' lg
      else if \<not> boundary_permits b (sa_capability r) (sa_authorization r) then boundary_deny b r ''capability_not_granted'' lg
      else case scope_resolve (bn_root b) (sa_relative_path r) of
        Inl _ \<Rightarrow> boundary_deny b r ''workspace_scope_escape'' lg
      | Inr p \<Rightarrow> (ok p, lg))"

section \<open>What the boundary guarantees\<close>

lemma boundary_deny_throws: "\<exists>e lg'. boundary_deny b r reason lg = (Inl e, lg')"
  by (auto simp: boundary_deny_def split: sum.splits)

text \<open>A path that is given out lies below the root of the workspace, the role and the session have the capability, and
  nothing was logged; everything else throws.\<close>

lemma workspace_access_sound:
  assumes "resolve_workspace_access b r lg = (Inr p, lg')"
  shows "has_prefix p (bn_root b) \<and> canonical p \<and> po_workspace_access (bn_policy b) \<and>
    boundary_permits b (sa_capability r) (sa_authorization r) \<and> lg' = lg"
proof -
  have "scope_resolve (bn_root b) (sa_relative_path r) = Inr p" "po_workspace_access (bn_policy b)"
      "boundary_permits b (sa_capability r) (sa_authorization r)" "lg' = lg"
    using assms boundary_deny_throws by (auto simp: resolve_workspace_access_def boundary_deny_def split: if_splits sum.splits)
  then show ?thesis
    using scope_resolve_within by blast
qed

text \<open>The roles are kept apart: no capability belongs to two of them, and only the build worker touches the workspace.\<close>

lemma roles_disjoint:
  "role \<noteq> role' \<Longrightarrow> po_allowed_capabilities (default_process_policy role) \<inter>
     po_allowed_capabilities (default_process_policy role') = {}"
  by (cases role; cases role') auto

lemma only_worker_has_workspace: "po_workspace_access (default_process_policy role) \<longleftrightarrow> role = Build_worker"
  by (cases role) auto

end
