(* ===== verification/Agent_Runtime.thy ===== *)
theory Agent_Runtime
  imports Process_Isolation Build_Config Artifact_Store
begin

text \<open>
  \<open>core/src/agent_runtime.cpp\<close>: the jobs of an agent on the workspace. A job has a fixed set of tools, each under a
  capability; it is limited in time, in calls and in number, a patch needs the review of a human each time, and every
  call leaves evidence that the runtime has produced itself. The files, the executor and the calls that may fail are
  those of a machine, the build queue, the artifacts and the audit log those of their components. Points in time are
  microseconds. \<open>job\<close> is a reference into the map of the jobs, so it is the key of one here.
\<close>

section \<open>Data\<close>

datatype agent_tool = Tool_workspace_read | Tool_workspace_patch | Tool_build_submit | Tool_test_run | Tool_git_status
  | Tool_git_diff | Tool_artifact_inspect

fun tool_to_string :: "agent_tool \<Rightarrow> string" where
  "tool_to_string Tool_workspace_read = ''workspace.read''"
| "tool_to_string Tool_workspace_patch = ''workspace.patch''"
| "tool_to_string Tool_build_submit = ''build.submit''"
| "tool_to_string Tool_test_run = ''test.run''"
| "tool_to_string Tool_git_status = ''git.status''"
| "tool_to_string Tool_git_diff = ''git.diff''"
| "tool_to_string Tool_artifact_inspect = ''artifact.inspect''"

fun required_capability :: "agent_tool \<Rightarrow> capability" where
  "required_capability Tool_workspace_read = workspace_read"
| "required_capability Tool_workspace_patch = workspace_write"
| "required_capability Tool_build_submit = build_submit"
| "required_capability Tool_test_run = test_run"
| "required_capability Tool_git_status = git_status"
| "required_capability Tool_git_diff = git_diff"
| "required_capability Tool_artifact_inspect = artifact_read"

datatype agent_job_state = Job_running | Job_waiting_review | Job_succeeded | Job_failed | Job_cancelled | Job_timed_out

definition active :: "agent_job_state \<Rightarrow> bool" where
  "active st \<longleftrightarrow> st = Job_running \<or> st = Job_waiting_review"

text \<open>The time limit is a number of minutes.\<close>

record agent_limits =
  lm_maximum_parallel_jobs :: nat
  lm_maximum_jobs_per_minute :: nat
  lm_maximum_tool_calls_per_job :: nat
  lm_maximum_read_bytes :: nat
  lm_maximum_patch_bytes :: nat
  lm_job_timeout :: int

record agent_job_request =
  jr_job_id :: string
  jr_principal_id :: string
  jr_device_id :: string
  jr_session_id :: string
  jr_workspace_id :: string
  jr_principal_kind :: principal_kind
  jr_source_revision :: u64
  jr_authorization :: authorization_result
  jr_occurred_at :: time_point

record agent_tool_request =
  tr_tool :: agent_tool
  tr_relative_path :: fs_path
  tr_expected_sha256 :: string
  tr_replacement :: string
  tr_profile :: string
  tr_operation_id :: string
  tr_artifact_id :: string
  tr_maximum_bytes :: nat
  tr_occurred_at :: time_point

record agent_evidence =
  ev_id :: string
  ev_job_id :: string
  ev_tool :: agent_tool
  ev_succeeded :: bool
  ev_exit_code :: u32
  ev_timed_out :: bool
  ev_cancelled :: bool
  ev_stdout_truncated :: bool
  ev_stderr_truncated :: bool
  ev_stdout_log :: string
  ev_stderr_log :: string
  ev_before_sha256 :: string
  ev_after_sha256 :: string
  ev_diff_summary :: string
  ev_build_id :: string
  ev_artifact_id :: string
  ev_artifact_sha256 :: string
  ev_source_revision :: u64
  ev_elapsed :: u64

record agent_job =
  jb_request :: agent_job_request
  jb_state :: agent_job_state
  jb_started_at :: time_point
  jb_finished_at :: "time_point option"
  jb_tool_calls :: nat
  jb_patch_review_granted :: bool
  jb_evidence_ids :: "string list"
  jb_last_event_at :: time_point

record agent_review_grant =
  rg_reviewer_id :: string
  rg_device_id :: string
  rg_session_id :: string
  rg_reviewer_kind :: principal_kind
  rg_authorization :: authorization_result
  rg_occurred_at :: time_point

datatype agent_claim = Claim_tool_succeeded | Claim_build_succeeded | Claim_test_succeeded | Claim_patch_applied
  | Claim_artifact_verified

record agent_runtime =
  ag_machine :: machine
  ag_builds :: build_queue
  ag_artifacts :: "artifact_store option"
  ag_log :: audit_log
  ag_root :: path
  ag_config :: workspace_config
  ag_boundary :: process_boundary
  ag_git_executable :: path
  ag_build_profiles :: "string set"
  ag_test_profiles :: "string set"
  ag_limits :: agent_limits
  ag_jobs :: "(string, agent_job) omap"
  ag_evidence :: "string \<rightharpoonup> agent_evidence"
  ag_job_starts :: "time_point list"

definition valid_agent_identifier :: "string \<Rightarrow> bool" where
  "valid_agent_identifier value \<longleftrightarrow> value \<noteq> [] \<and> length value \<le> 64 \<and>
     list_all (\<lambda>c. is_alnum c \<or> c = CHR ''-'' \<or> c = CHR ''_'' \<or> c = CHR ''.'') value"

section \<open>Evidence\<close>

text \<open>The evidence of the aggregate initialisers, with the members that are not named at their defaults.\<close>

definition plain_evidence :: "agent_job \<Rightarrow> agent_tool \<Rightarrow> string \<Rightarrow> agent_evidence" where
  "plain_evidence job tool eid = \<lparr>ev_id = eid, ev_job_id = jr_job_id (jb_request job), ev_tool = tool,
     ev_succeeded = False, ev_exit_code = 0, ev_timed_out = False, ev_cancelled = False, ev_stdout_truncated = False,
     ev_stderr_truncated = False, ev_stdout_log = [], ev_stderr_log = [], ev_before_sha256 = [], ev_after_sha256 = [],
     ev_diff_summary = [], ev_build_id = [], ev_artifact_id = [], ev_artifact_sha256 = [],
     ev_source_revision = jr_source_revision (jb_request job), ev_elapsed = 0\<rparr>"

definition failed_evidence :: "agent_job \<Rightarrow> agent_tool \<Rightarrow> string \<Rightarrow> string \<Rightarrow> agent_evidence" where
  "failed_evidence job tool eid reason = (plain_evidence job tool eid)\<lparr>ev_exit_code := -1, ev_stderr_log := reason\<rparr>"

definition maximum_evidence_log :: nat where
  "maximum_evidence_log = 1024 * 1024"

definition bound_log :: "string \<Rightarrow> bool \<Rightarrow> string \<times> bool" where
  "bound_log value truncated =
     (if length value > maximum_evidence_log then (take maximum_evidence_log value, True) else (value, truncated))"

definition bound_logs :: "agent_evidence \<Rightarrow> agent_evidence" where
  "bound_logs e =
     (let (out, out_cut) = bound_log (ev_stdout_log e) (ev_stdout_truncated e);
          (err, err_cut) = bound_log (ev_stderr_log e) (ev_stderr_truncated e)
      in e\<lparr>ev_stdout_log := out, ev_stdout_truncated := out_cut, ev_stderr_log := err, ev_stderr_truncated := err_cut\<rparr>)"

definition build_diff_summary :: "string \<Rightarrow> string \<Rightarrow> nat \<Rightarrow> string" where
  "build_diff_summary before after bytes =
     ''before_sha256='' @ before @ '';after_sha256='' @ after @ '';replacement_bytes='' @ decimal bytes"

definition boolean_digit :: "bool \<Rightarrow> string" where
  "boolean_digit b = (if b then ''1'' else ''0'')"

definition render_agent_evidence :: "agent_evidence \<Rightarrow> string result" where
  "render_agent_evidence e =
     (if \<not> valid_agent_identifier (ev_id e) \<or> \<not> valid_agent_identifier (ev_job_id e)
      then throw (Invalid_argument ''Agent evidence identifiers are invalid'')
      else ok (render_fields
          [(''evidence_id'', ev_id e), (''job_id'', ev_job_id e), (''tool'', tool_to_string (ev_tool e)),
           (''succeeded'', boolean_digit (ev_succeeded e)), (''exit_code'', signed_decimal (sint (ev_exit_code e))),
           (''timed_out'', boolean_digit (ev_timed_out e)), (''cancelled'', boolean_digit (ev_cancelled e)),
           (''elapsed_ms'', signed_decimal (sint (ev_elapsed e))), (''source_revision'', decimal (unat (ev_source_revision e))),
           (''build_id'', ev_build_id e), (''artifact_id'', ev_artifact_id e), (''artifact_sha256'', ev_artifact_sha256 e),
           (''before_sha256'', ev_before_sha256 e), (''after_sha256'', ev_after_sha256 e),
           (''diff_summary'', ev_diff_summary e), (''stdout_truncated'', boolean_digit (ev_stdout_truncated e)),
           (''stderr_truncated'', boolean_digit (ev_stderr_truncated e))] @
        ''--- stdout ---'' @ CHR 0x0A # ev_stdout_log e @ CHR 0x0A # ''--- stderr ---'' @ CHR 0x0A # ev_stderr_log e @ [CHR 0x0A]))"

section \<open>The runtime\<close>

definition minutes :: "int \<Rightarrow> int" where
  "minutes n = n * 60000000"

definition new_agent_runtime ::
  "path \<Rightarrow> fs_path \<Rightarrow> workspace_config \<Rightarrow> build_queue \<Rightarrow> machine \<Rightarrow> artifact_store option \<Rightarrow> audit_log \<Rightarrow> fs_path \<Rightarrow>
     string set \<Rightarrow> string set \<Rightarrow> agent_limits \<Rightarrow> agent_runtime result" where
  "new_agent_runtime working_directory workspace_root config builds m artifacts lg git_executable build_profiles
       test_profiles limits =
     (let canonical_path = (\<lambda>p. weakly_canonical (if fp_absolute p then fp_parts p else working_directory @ fp_parts p));
          root = canonical_path workspace_root; git = canonical_path git_executable
      in and_then (new_process_boundary (default_process_policy Build_worker) working_directory
             \<lparr>fp_absolute = True, fp_parts = root\<rparr>) (\<lambda>boundary.
         if mc_fs m root \<noteq> Some Dir \<or> \<not> fp_absolute git_executable \<or> \<not> regular_file (mc_fs m) git \<or>
            wc_workspace_id config = [] \<or>
            lm_maximum_parallel_jobs limits = 0 \<or> lm_maximum_parallel_jobs limits > 32 \<or>
            lm_maximum_jobs_per_minute limits = 0 \<or> lm_maximum_jobs_per_minute limits > 1000 \<or>
            lm_maximum_tool_calls_per_job limits = 0 \<or> lm_maximum_tool_calls_per_job limits > 1000 \<or>
            lm_maximum_read_bytes limits = 0 \<or> lm_maximum_read_bytes limits > 16 * 1024 * 1024 \<or>
            lm_maximum_patch_bytes limits = 0 \<or> lm_maximum_patch_bytes limits > 16 * 1024 * 1024 \<or>
            lm_job_timeout limits \<le> 0 \<or> lm_job_timeout limits > 24 * 60
         then throw (Invalid_argument ''Agent runtime configuration is invalid'')
         else if \<exists>name\<in>build_profiles \<union> test_profiles. map_of (wc_profiles config) name = None
         then throw (Out_of_range ''unknown build profile'')
         else ok \<lparr>ag_machine = m, ag_builds = builds, ag_artifacts = artifacts, ag_log = lg, ag_root = root,
           ag_config = config, ag_boundary = boundary, ag_git_executable = git, ag_build_profiles = build_profiles,
           ag_test_profiles = test_profiles, ag_limits = limits, ag_jobs = [], ag_evidence = Map.empty,
           ag_job_starts = []\<rparr>))"

text \<open>The text of an exception.\<close>

fun exn_what :: "exn \<Rightarrow> string" where
  "exn_what (Invalid_argument s) = s"
| "exn_what (Length_error s) = s"
| "exn_what (Logic_error s) = s"
| "exn_what (Runtime_error s) = s"
| "exn_what (Overflow_error s) = s"
| "exn_what (Out_of_range s) = s"

definition agent_audit :: "audit_event \<Rightarrow> (agent_runtime, unit) call" where
  "agent_audit e rt = (case audit_append e (ag_log rt) of
     Inl x \<Rightarrow> (throw x, rt) | Inr lg \<Rightarrow> (ok (), rt\<lparr>ag_log := lg\<rparr>))"

text \<open>Assigning to the job that a reference refers to.\<close>

definition set_job :: "string \<Rightarrow> (agent_job \<Rightarrow> agent_job) \<Rightarrow> (agent_runtime, unit) call" where
  "set_job jid f rt = (case map_of (ag_jobs rt) jid of
     None \<Rightarrow> (ok (), rt) | Some job \<Rightarrow> (ok (), rt\<lparr>ag_jobs := omap_assign jid (f job) (ag_jobs rt)\<rparr>))"

text \<open>What all events of a job share.\<close>

definition job_event :: "agent_job \<Rightarrow> time_point \<Rightarrow> audit_event" where
  "job_event job now = (let r = jb_request job
     in default_event\<lparr>ae_occurred_at := now, ae_principal_id := jr_principal_id r, ae_device_id := jr_device_id r,
       ae_session_id := jr_session_id r, ae_workspace_id := jr_workspace_id r, ae_source_revision := jr_source_revision r,
       ae_process_role := role_to_string Build_worker, ae_agent_job_id := jr_job_id r\<rparr>)"

definition timeout_event :: "agent_job \<Rightarrow> time_point \<Rightarrow> audit_event" where
  "timeout_event job now = (job_event job now)\<lparr>ae_reason_code := ''job_timeout'', ae_action := agent_job_completed,
     ae_result := res_failed\<rparr>"

definition job_timed_out :: "time_point \<Rightarrow> agent_job \<Rightarrow> agent_job" where
  "job_timed_out now job = job\<lparr>jb_state := Job_timed_out, jb_finished_at := Some now, jb_last_event_at := now\<rparr>"

definition time_is_up :: "agent_limits \<Rightarrow> agent_job \<Rightarrow> time_point \<Rightarrow> bool" where
  "time_is_up limits job now \<longleftrightarrow> now - jb_started_at job > minutes (lm_job_timeout limits)"

section \<open>Creating a job\<close>

text \<open>The loop over the jobs, in the order of their identifiers.\<close>

fun expire_jobs :: "time_point \<Rightarrow> string list \<Rightarrow> (agent_runtime, unit) call" where
  "expire_jobs now [] rt = (ok (), rt)"
| "expire_jobs now (jid # jids) rt = (case map_of (ag_jobs rt) jid of
     None \<Rightarrow> expire_jobs now jids rt
   | Some job \<Rightarrow>
       if \<not> active (jb_state job) then expire_jobs now jids rt
       else if now < jb_last_event_at job
       then (throw (Invalid_argument ''Agent job creation time precedes an active job event''), rt)
       else if time_is_up (ag_limits rt) job now
       then c_bind (set_job jid (job_timed_out now)) (\<lambda>_.
         c_bind (agent_audit (timeout_event job now)) (\<lambda>_. expire_jobs now jids)) rt
       else expire_jobs now jids rt)"

definition active_jobs :: "agent_runtime \<Rightarrow> nat" where
  "active_jobs rt = length (filter (\<lambda>(jid, job). active (jb_state job)) (ag_jobs rt))"

definition started_job :: "agent_job_request \<Rightarrow> agent_job" where
  "started_job r = \<lparr>jb_request = r, jb_state = Job_running, jb_started_at = jr_occurred_at r, jb_finished_at = None,
     jb_tool_calls = 0, jb_patch_review_granted = False, jb_evidence_ids = [], jb_last_event_at = jr_occurred_at r\<rparr>"

definition job_denied_event :: "agent_job_request \<Rightarrow> audit_event" where
  "job_denied_event r = default_event\<lparr>ae_occurred_at := jr_occurred_at r, ae_principal_id := jr_principal_id r,
     ae_device_id := jr_device_id r, ae_session_id := jr_session_id r, ae_workspace_id := jr_workspace_id r,
     ae_process_role := role_to_string Build_worker, ae_reason_code := ''capability_not_granted'',
     ae_agent_job_id := jr_job_id r, ae_action := agent_job_started, ae_result := res_denied\<rparr>"

definition create_job :: "agent_job_request \<Rightarrow> (agent_runtime, unit) call" where
  "create_job r rt =
     (if \<not> valid_agent_identifier (jr_job_id r) \<or> \<not> valid_agent_identifier (jr_principal_id r) \<or>
         \<not> valid_agent_identifier (jr_device_id r) \<or> \<not> valid_agent_identifier (jr_session_id r) \<or>
         jr_workspace_id r \<noteq> wc_workspace_id (ag_config rt) \<or> jr_principal_kind r \<noteq> agent \<or>
         jr_source_revision r = 0 \<or> jr_occurred_at r = 0
      then (throw (Invalid_argument ''Agent job metadata is invalid''), rt)
      else c_bind (expire_jobs (jr_occurred_at r) (map fst (ag_jobs rt))) (\<lambda>_.
        c_bind (c_modify (\<lambda>rt. rt\<lparr>ag_job_starts :=
          filter (\<lambda>started. \<not> started < jr_occurred_at r - minutes 1) (ag_job_starts rt)\<rparr>)) (\<lambda>_ rt.
        if active_jobs rt \<ge> lm_maximum_parallel_jobs (ag_limits rt) \<or>
           length (ag_job_starts rt) \<ge> lm_maximum_jobs_per_minute (ag_limits rt)
        then (throw (Runtime_error ''Agent job rate or parallel limit reached''), rt)
        else if map_of (ag_jobs rt) (jr_job_id r) \<noteq> None
        then (throw (Invalid_argument ''duplicate Agent job id''), rt)
        else if \<not> permits (jr_authorization r) agent_run
        then c_bind (agent_audit (job_denied_event r)) (\<lambda>_.
          c_throw (Logic_error ''agent.run capability is required'')) rt
        else c_bind (c_modify (\<lambda>rt. rt\<lparr>ag_jobs := omap_assign (jr_job_id r) (started_job r) (ag_jobs rt),
            ag_job_starts := ag_job_starts rt @ [jr_occurred_at r]\<rparr>)) (\<lambda>_.
          agent_audit ((job_event (started_job r) (jr_occurred_at r))\<lparr>ae_action := agent_job_started,
            ae_result := res_allowed\<rparr>)) rt)) rt)"

section \<open>References to an active job\<close>

definition require_event_time :: "string \<Rightarrow> time_point \<Rightarrow> (agent_runtime, unit) call" where
  "require_event_time jid now rt = (case map_of (ag_jobs rt) jid of
     None \<Rightarrow> (ok (), rt)
   | Some job \<Rightarrow>
       if now = 0 \<or> now < jb_last_event_at job
       then (throw (Invalid_argument ''Agent job event time is not monotonic''), rt)
       else set_job jid (\<lambda>job. job\<lparr>jb_last_event_at := now\<rparr>) rt)"

text \<open>The result is the job as it is then.\<close>

definition active_job :: "string \<Rightarrow> time_point \<Rightarrow> (agent_runtime, agent_job) call" where
  "active_job jid now rt = (case map_of (ag_jobs rt) jid of
     None \<Rightarrow> (throw (Out_of_range ''unknown Agent job''), rt)
   | Some job \<Rightarrow>
       if \<not> active (jb_state job) then (throw (Logic_error ''Agent job is not active''), rt)
       else if now = 0 \<or> now < jb_last_event_at job
       then (throw (Invalid_argument ''Agent job event time is not monotonic''), rt)
       else if time_is_up (ag_limits rt) job now
       then c_bind (set_job jid (job_timed_out now)) (\<lambda>_.
         c_bind (agent_audit (timeout_event job now)) (\<lambda>_.
         c_throw (Runtime_error ''Agent job timed out''))) rt
       else (ok job, rt))"

definition granted_event :: "agent_job \<Rightarrow> agent_review_grant \<Rightarrow> audit_event" where
  "granted_event job g = (job_event job (rg_occurred_at g))\<lparr>ae_principal_id := rg_reviewer_id g,
     ae_device_id := rg_device_id g, ae_session_id := rg_session_id g, ae_reason_code := ''one_patch'',
     ae_action := agent_review_granted, ae_result := res_allowed\<rparr>"

definition approve_patch :: "string \<Rightarrow> agent_review_grant \<Rightarrow> (agent_runtime, unit) call" where
  "approve_patch jid g = c_bind (active_job jid (rg_occurred_at g)) (\<lambda>job.
     if jb_state job \<noteq> Job_waiting_review \<or> \<not> valid_agent_identifier (rg_reviewer_id g) \<or>
        \<not> valid_agent_identifier (rg_device_id g) \<or> \<not> valid_agent_identifier (rg_session_id g) \<or>
        rg_reviewer_kind g \<noteq> human \<or> \<not> permits (rg_authorization g) workspace_write
     then c_throw (Invalid_argument ''Agent patch review grant is invalid'')
     else c_bind (require_event_time jid (rg_occurred_at g)) (\<lambda>_.
       c_bind (set_job jid (\<lambda>job. job\<lparr>jb_patch_review_granted := True, jb_state := Job_running\<rparr>)) (\<lambda>_.
       agent_audit (granted_event job g))))"

section \<open>The tools\<close>

definition scoped_request :: "agent_job \<Rightarrow> capability \<Rightarrow> fs_path \<Rightarrow> time_point \<Rightarrow> scoped_access_request" where
  "scoped_request job c relative_path now = (let r = jb_request job
     in \<lparr>sa_principal_id = jr_principal_id r, sa_device_id = jr_device_id r, sa_session_id = jr_session_id r,
       sa_workspace_id = jr_workspace_id r, sa_capability = c, sa_relative_path = relative_path,
       sa_authorization = jr_authorization r, sa_occurred_at = now, sa_agent_job_id = jr_job_id r\<rparr>)"

definition agent_resolve :: "agent_job \<Rightarrow> capability \<Rightarrow> fs_path \<Rightarrow> time_point \<Rightarrow> (agent_runtime, path) call" where
  "agent_resolve job c relative_path now rt =
     (case resolve_workspace_access (ag_boundary rt) (scoped_request job c relative_path now) (ag_log rt) of
        (r, lg) \<Rightarrow> (r, rt\<lparr>ag_log := lg\<rparr>))"

definition on_agent_machine :: "(machine, 'a) call \<Rightarrow> (agent_runtime, 'a) call" where
  "on_agent_machine op rt = (case op (ag_machine rt) of (r, m) \<Rightarrow> (r, rt\<lparr>ag_machine := m\<rparr>))"

text \<open>A function of the state that may throw and changes nothing.\<close>

definition ag_query :: "(agent_runtime \<Rightarrow> 'a result) \<Rightarrow> (agent_runtime, 'a) call" where
  "ag_query f rt = (f rt, rt)"

definition path_empty :: "fs_path \<Rightarrow> bool" where
  "path_empty p \<longleftrightarrow> \<not> fp_absolute p \<and> fp_parts p = []"

definition tool_workspace_read :: "agent_job \<Rightarrow> agent_tool_request \<Rightarrow> string \<Rightarrow> (agent_runtime, agent_evidence) call" where
  "tool_workspace_read job r eid rt =
     (let maximum = (if tr_maximum_bytes r = 0 then lm_maximum_read_bytes (ag_limits rt) else tr_maximum_bytes r)
      in if maximum = 0 \<or> maximum > lm_maximum_read_bytes (ag_limits rt) \<or> path_empty (tr_relative_path r)
         then (throw (Invalid_argument ''Agent workspace read bounds are invalid''), rt)
         else c_bind (agent_resolve job workspace_read (tr_relative_path r) (tr_occurred_at r)) (\<lambda>p.
           ag_query (\<lambda>rt. case content_at (mc_fs (ag_machine rt)) p of
             None \<Rightarrow> throw (Invalid_argument ''Agent workspace read target is not a bounded file'')
           | Some content \<Rightarrow>
               if length content > maximum
               then throw (Invalid_argument ''Agent workspace read target is not a bounded file'')
               else and_then (sha256_hex content) (\<lambda>h.
                 ok ((plain_evidence job Tool_workspace_read eid)\<lparr>ev_succeeded := True,
                   ev_stdout_log := string_of_bytes content, ev_after_sha256 := h\<rparr>)))) rt)"

text \<open>The staging file beside the target.\<close>

definition staging_relative :: "agent_job \<Rightarrow> fs_path \<Rightarrow> string \<Rightarrow> fs_path" where
  "staging_relative job p eid = p\<lparr>fp_parts := butlast (fp_parts p) @
     [last (fp_parts p) @ ''.rwn-agent-'' @ jr_job_id (jb_request job) @ ''-'' @ eid @ ''.staging'']\<rparr>"

text \<open>\<open>std::filesystem::remove\<close>, whose error is ignored. Whether a directory can be removed is up to the environment.\<close>

definition remove_file :: "path \<Rightarrow> (machine, unit) call" where
  "remove_file p m = (ok (), snd (os_do (Os_remove p) (\<lambda>fs. fs(p := None)) (\<lambda>_ fs. fs) m))"

definition write_staging :: "path \<Rightarrow> byte list \<Rightarrow> (machine, unit) call" where
  "write_staging staging bytes = c_catch (c_bind (create_file staging) (\<lambda>_. write_at staging 0 bytes))
     (c_throw (Runtime_error ''Agent patch staging write failed''))"

definition replace_content :: "path \<Rightarrow> path \<Rightarrow> byte list \<Rightarrow> (machine, unit) call" where
  "replace_content staging destination bytes = c_catch_rethrow
     (c_bind (write_staging staging bytes) (\<lambda>_.
      c_bind (flush_file staging) (\<lambda>_.
      atomic_replace staging destination)))
     (remove_file staging)"

definition file_digest :: "path \<Rightarrow> agent_runtime \<Rightarrow> string result" where
  "file_digest p rt = sha256_file (content_at (mc_fs (ag_machine rt)) p)"

definition tool_workspace_patch :: "agent_job \<Rightarrow> agent_tool_request \<Rightarrow> string \<Rightarrow> (agent_runtime, agent_evidence) call" where
  "tool_workspace_patch job r eid rt =
     (let replacement = as_bytes (tr_replacement r)
      in if path_empty (tr_relative_path r) \<or> length replacement > lm_maximum_patch_bytes (ag_limits rt) \<or>
            \<not> is_sha256_hex (tr_expected_sha256 r)
         then (throw (Invalid_argument ''Agent workspace patch is invalid''), rt)
         else c_bind (agent_resolve job workspace_write (tr_relative_path r) (tr_occurred_at r)) (\<lambda>destination.
           c_bind (ag_query (\<lambda>rt. throw_if (\<not> regular_file (mc_fs (ag_machine rt)) destination)
             (Invalid_argument ''Agent patch target must be an existing regular file''))) (\<lambda>_.
           c_bind (ag_query (file_digest destination)) (\<lambda>before.
           c_bind (ag_query (\<lambda>_. throw_if (before \<noteq> tr_expected_sha256 r)
             (Runtime_error ''Agent patch compare-and-swap hash mismatch''))) (\<lambda>_.
           c_bind (ag_query (\<lambda>_. sha256_hex replacement)) (\<lambda>after.
           c_bind (ag_query (\<lambda>_. throw_if (after = before) (Invalid_argument ''Agent patch must change file content''))) (\<lambda>_.
           c_bind (agent_resolve job workspace_write (staging_relative job (tr_relative_path r) eid) (tr_occurred_at r))
             (\<lambda>staging.
           c_bind (on_agent_machine (replace_content staging destination replacement)) (\<lambda>_.
           c_bind (ag_query (file_digest destination)) (\<lambda>now_there.
           c_bind (ag_query (\<lambda>_. throw_if (now_there \<noteq> after)
             (Runtime_error ''Agent patch durable replacement hash mismatch''))) (\<lambda>_.
           c_return ((plain_evidence job Tool_workspace_patch eid)\<lparr>ev_succeeded := True, ev_before_sha256 := before,
             ev_after_sha256 := after,
             ev_diff_summary := build_diff_summary before after (length replacement)\<rparr>))))))))))) rt)"

text \<open>The seconds that are left, cut off, but at least one.\<close>

definition seconds_left :: "agent_limits \<Rightarrow> agent_job \<Rightarrow> time_point \<Rightarrow> int" where
  "seconds_left limits job now =
     (let left = jb_started_at job + minutes (lm_job_timeout limits) - now
      in max 1 (if left < 0 then - ((- left) div 1000000) else left div 1000000))"

definition limit_timeout :: "int \<Rightarrow> command_spec \<Rightarrow> command_spec" where
  "limit_timeout seconds command = command\<lparr>cs_timeout := of_int (min (sint (cs_timeout command)) seconds)\<rparr>"

definition runtime_succeeded :: "build_evidence \<Rightarrow> bool" where
  "runtime_succeeded e \<longleftrightarrow> be_exit_code e = 0 \<and> \<not> be_timed_out e \<and> \<not> be_cancelled e"

definition runtime_evidence :: "agent_job \<Rightarrow> agent_tool \<Rightarrow> string \<Rightarrow> build_evidence \<Rightarrow> agent_evidence" where
  "runtime_evidence job tool eid e = (plain_evidence job tool eid)\<lparr>ev_succeeded := runtime_succeeded e,
     ev_exit_code := be_exit_code e, ev_timed_out := be_timed_out e, ev_cancelled := be_cancelled e,
     ev_stdout_truncated := be_stdout_truncated e, ev_stderr_truncated := be_stderr_truncated e,
     ev_stdout_log := be_stdout_log e, ev_stderr_log := be_stderr_log e, ev_elapsed := be_elapsed e\<rparr>"

text \<open>The runner executes the command of a build that was queued just before, so it always starts it.\<close>

definition run_queued :: "string \<Rightarrow> command_spec \<Rightarrow> (agent_runtime, build_evidence) call" where
  "run_queued bid command rt = (case execute command (ag_machine rt) of (r, m) \<Rightarrow>
     case runner_run (\<lambda>_. map_sum exn_what id r) False id bid (ag_builds rt) of
       (res, q) \<Rightarrow> (res, rt\<lparr>ag_machine := m, ag_builds := q\<rparr>))"

definition tool_build_or_test :: "agent_job \<Rightarrow> agent_tool_request \<Rightarrow> string \<Rightarrow> bool \<Rightarrow> (agent_runtime, agent_evidence) call" where
  "tool_build_or_test job r eid test rt =
     (if tr_profile r \<notin> (if test then ag_test_profiles rt else ag_build_profiles rt) \<or> \<not> valid_agent_identifier (tr_operation_id r)
      then (throw (Invalid_argument ''Agent build/test profile or operation id is not allowlisted''), rt)
      else case and_then (make_build_request (ag_config rt) (tr_operation_id r) (jr_source_revision (jb_request job))
           (tr_profile r) []) (\<lambda>request.
         let limited = request\<lparr>bq_command :=
           limit_timeout (seconds_left (ag_limits rt) job (tr_occurred_at r)) (bq_command request)\<rparr>
         in and_then (config_profile (ag_config rt) (tr_profile r)) (\<lambda>profile.
            and_then (queue_submit limited (bp_environment_allowlist profile) (ag_builds rt)) (\<lambda>q. ok (limited, q)))) of
        Inl e \<Rightarrow> (throw e, rt)
      | Inr (limited, q) \<Rightarrow>
          c_bind (run_queued (tr_operation_id r) (bq_command limited)) (\<lambda>e.
            c_return ((runtime_evidence job (if test then Tool_test_run else Tool_build_submit) eid e)
              \<lparr>ev_build_id := tr_operation_id r\<rparr>)) (rt\<lparr>ag_builds := q\<rparr>))"

definition path_string :: "path \<Rightarrow> string" where
  "path_string p = concat (map (\<lambda>n. CHR ''/'' # n) p)"

definition git_command :: "path \<Rightarrow> agent_tool \<Rightarrow> command_spec" where
  "git_command git tool = \<lparr>cs_argv = [path_string git, ''--no-optional-locks'', ''-c'', ''core.fsmonitor=false'', ''-c'',
       ''core.untrackedCache=false''] @
       (if tool = Tool_git_status then [''status'', ''--porcelain=v1'', ''--untracked-files=no'']
        else [''diff'', ''--no-ext-diff'', ''--no-textconv'', ''--src-prefix=a/'', ''--dst-prefix=b/'', ''--'']),
     cs_working_directory = ''.'', cs_timeout = 30, cs_environment = []\<rparr>"

definition tool_git_query :: "agent_job \<Rightarrow> agent_tool_request \<Rightarrow> string \<Rightarrow> (agent_runtime, agent_evidence) call" where
  "tool_git_query job r eid rt =
     (if \<not> path_empty (tr_relative_path r) \<or> tr_profile r \<noteq> [] \<or> tr_operation_id r \<noteq> [] \<or> tr_artifact_id r \<noteq> [] \<or>
         tr_expected_sha256 r \<noteq> [] \<or> tr_replacement r \<noteq> []
      then (throw (Invalid_argument ''Git Agent tools accept no user-controlled arguments''), rt)
      else c_bind (on_agent_machine (execute (limit_timeout (seconds_left (ag_limits rt) job (tr_occurred_at r))
          (git_command (ag_git_executable rt) (tr_tool r))))) (\<lambda>e.
        c_return (runtime_evidence job (tr_tool r) eid e)) rt)"

definition tool_artifact_inspect :: "agent_job \<Rightarrow> agent_tool_request \<Rightarrow> string \<Rightarrow> agent_runtime \<Rightarrow> agent_evidence result" where
  "tool_artifact_inspect job r eid rt = (case ag_artifacts rt of
     None \<Rightarrow> throw (Invalid_argument ''Agent artifact store or artifact id is unavailable'')
   | Some store \<Rightarrow>
       if \<not> valid_agent_identifier (tr_artifact_id r)
       then throw (Invalid_argument ''Agent artifact store or artifact id is unavailable'')
       else and_then (store_metadata store (tr_artifact_id r)) (\<lambda>a.
         if art_workspace_id a \<noteq> jr_workspace_id (jb_request job) \<or>
            art_source_revision a \<noteq> jr_source_revision (jb_request job)
         then throw (Logic_error ''Agent artifact is outside the pinned workspace revision'')
         else and_then (store_verify (mc_fs (ag_machine rt)) store (tr_artifact_id r)) (\<lambda>verified.
           ok ((plain_evidence job Tool_artifact_inspect eid)\<lparr>ev_succeeded := verified,
             ev_exit_code := (if verified then 0 else 1),
             ev_stdout_log := render_fields [(''artifact_id'', art_id a), (''build_id'', art_build_id a),
               (''source_revision'', decimal (unat (art_source_revision a))), (''sha256'', art_sha256 a),
               (''size'', decimal (unat (art_size a)))],
             ev_build_id := art_build_id a, ev_artifact_id := art_id a, ev_artifact_sha256 := art_sha256 a,
             ev_source_revision := art_source_revision a\<rparr>))))"

definition run_tool :: "string \<Rightarrow> agent_job \<Rightarrow> agent_tool_request \<Rightarrow> string \<Rightarrow> (agent_runtime, agent_evidence) call" where
  "run_tool jid job r eid = (case tr_tool r of
     Tool_workspace_read \<Rightarrow> tool_workspace_read job r eid
   | Tool_workspace_patch \<Rightarrow>
       c_bind (set_job jid (\<lambda>job. job\<lparr>jb_patch_review_granted := False\<rparr>)) (\<lambda>_. tool_workspace_patch job r eid)
   | Tool_build_submit \<Rightarrow> tool_build_or_test job r eid False
   | Tool_test_run \<Rightarrow> tool_build_or_test job r eid True
   | Tool_git_status \<Rightarrow> tool_git_query job r eid
   | Tool_git_diff \<Rightarrow> tool_git_query job r eid
   | Tool_artifact_inspect \<Rightarrow> ag_query (tool_artifact_inspect job r eid))"

section \<open>Executing a tool\<close>

definition evidence_id :: "string \<Rightarrow> nat \<Rightarrow> string" where
  "evidence_id jid n = jid @ ''-e'' @ decimal n"

definition tool_event :: "agent_job \<Rightarrow> agent_evidence \<Rightarrow> time_point \<Rightarrow> audit_event" where
  "tool_event job e now = (job_event job now)\<lparr>ae_build_id := ev_build_id e, ae_artifact_id := ev_artifact_id e,
     ae_artifact_sha256 := ev_artifact_sha256 e, ae_source_revision := ev_source_revision e,
     ae_reason_code := (if ev_succeeded e then ''runtime_verified'' else ''runtime_failed''),
     ae_tool_name := tool_to_string (ev_tool e), ae_evidence_id := ev_id e, ae_action := agent_tool_completed,
     ae_result := (if ev_succeeded e then res_allowed else res_failed)\<rparr>"

text \<open>\<open>emplace\<close> keeps an entry that is there.\<close>

definition keep_evidence :: "string \<Rightarrow> agent_job \<Rightarrow> agent_evidence \<Rightarrow> time_point \<Rightarrow> (agent_runtime, unit) call" where
  "keep_evidence jid job e now =
     c_bind (c_modify (\<lambda>rt. if ag_evidence rt (ev_id e) \<noteq> None then rt
       else rt\<lparr>ag_evidence := (ag_evidence rt)(ev_id e \<mapsto> e)\<rparr>)) (\<lambda>_.
     c_bind (set_job jid (\<lambda>job. job\<lparr>jb_evidence_ids := jb_evidence_ids job @ [ev_id e],
       jb_tool_calls := jb_tool_calls job + 1\<rparr>)) (\<lambda>_.
     agent_audit (tool_event job e now)))"

definition review_event :: "agent_job \<Rightarrow> time_point \<Rightarrow> audit_event" where
  "review_event job now = (job_event job now)\<lparr>ae_reason_code := ''workspace_patch'', ae_action := agent_review_requested,
     ae_result := res_allowed\<rparr>"

text \<open>The tool runs; an exception becomes the evidence of a failure.\<close>

definition attempt_tool :: "string \<Rightarrow> agent_job \<Rightarrow> agent_tool_request \<Rightarrow> string \<Rightarrow> (agent_runtime, agent_evidence) call" where
  "attempt_tool jid job r eid rt = (case run_tool jid job r eid rt of
     (Inr e, rt') \<Rightarrow> (ok e, rt')
   | (Inl x, rt') \<Rightarrow> (ok (failed_evidence job (tr_tool r) eid (exn_what x)), rt'))"

text \<open>What follows when the job is running and the time is noted.\<close>

definition execute_checked :: "string \<Rightarrow> agent_job \<Rightarrow> agent_tool_request \<Rightarrow> (agent_runtime, agent_evidence) call" where
  "execute_checked jid job r rt =
     (if jb_tool_calls job \<ge> lm_maximum_tool_calls_per_job (ag_limits rt)
      then (throw (Runtime_error ''Agent tool-call limit reached''), rt)
      else
        let eid = evidence_id (jr_job_id (jb_request job)) (jb_tool_calls job + 1)
        in if \<not> boundary_permits (ag_boundary rt) (required_capability (tr_tool r)) (jr_authorization (jb_request job))
           then c_bind (keep_evidence jid job (failed_evidence job (tr_tool r) eid ''capability_not_granted'')
               (tr_occurred_at r)) (\<lambda>_. c_throw (Logic_error ''Agent tool capability is not granted'')) rt
           else if tr_tool r = Tool_workspace_patch \<and> \<not> jb_patch_review_granted job
           then c_bind (set_job jid (\<lambda>job. job\<lparr>jb_state := Job_waiting_review\<rparr>)) (\<lambda>_.
             c_bind (agent_audit (review_event job (tr_occurred_at r))) (\<lambda>_.
             c_throw (Logic_error ''workspace patch requires one-shot human review''))) rt
           else c_bind (attempt_tool jid job r eid) (\<lambda>e.
             c_bind (keep_evidence jid job (bound_logs e) (tr_occurred_at r)) (\<lambda>_.
             c_return (bound_logs e))) rt)"

definition agent_execute :: "string \<Rightarrow> agent_tool_request \<Rightarrow> (agent_runtime, agent_evidence) call" where
  "agent_execute jid r = c_bind (active_job jid (tr_occurred_at r)) (\<lambda>job.
     if jb_state job \<noteq> Job_running then c_throw (Logic_error ''Agent job is waiting for review'')
     else c_bind (require_event_time jid (tr_occurred_at r)) (\<lambda>_. execute_checked jid job r))"

section \<open>The end of a job\<close>

definition finish_job :: "string \<Rightarrow> agent_job_state \<Rightarrow> time_point \<Rightarrow> (agent_runtime, unit) call" where
  "finish_job jid st now = set_job jid (\<lambda>job. job\<lparr>jb_state := st, jb_finished_at := Some now\<rparr>)"

definition completed_event :: "agent_job \<Rightarrow> time_point \<Rightarrow> string \<Rightarrow> audit_result \<Rightarrow> audit_event" where
  "completed_event job now reason res = (job_event job now)\<lparr>ae_reason_code := reason, ae_action := agent_job_completed,
     ae_result := res\<rparr>"

text \<open>\<open>all_of\<close> stops at the first evidence that failed.\<close>

fun all_succeeded :: "(string \<rightharpoonup> agent_evidence) \<Rightarrow> string list \<Rightarrow> bool result" where
  "all_succeeded ev [] = ok True"
| "all_succeeded ev (eid # eids) = (case ev eid of
     None \<Rightarrow> throw (Out_of_range ''map::at'')
   | Some e \<Rightarrow> if ev_succeeded e then all_succeeded ev eids else ok False)"

definition complete_job :: "string \<Rightarrow> time_point \<Rightarrow> (agent_runtime, unit) call" where
  "complete_job jid now = c_bind (active_job jid now) (\<lambda>job.
     if jb_state job \<noteq> Job_running \<or> jb_evidence_ids job = []
     then c_throw (Logic_error ''Agent job cannot complete without reviewed evidence'')
     else c_bind (require_event_time jid now) (\<lambda>_.
       c_bind (ag_query (\<lambda>rt. all_succeeded (ag_evidence rt) (jb_evidence_ids job))) (\<lambda>succeeded.
       c_bind (finish_job jid (if succeeded then Job_succeeded else Job_failed) now) (\<lambda>_.
       agent_audit (if succeeded then completed_event job now ''evidence_verified'' res_allowed
         else completed_event job now ''evidence_failed'' res_failed)))))"

definition cancel_job :: "string \<Rightarrow> time_point \<Rightarrow> (agent_runtime, unit) call" where
  "cancel_job jid now = c_bind (active_job jid now) (\<lambda>job.
     c_bind (require_event_time jid now) (\<lambda>_.
     c_bind (finish_job jid Job_cancelled now) (\<lambda>_.
     agent_audit (completed_event job now ''cancelled'' res_failed))))"

section \<open>Queries\<close>

definition job_record :: "string \<Rightarrow> agent_runtime \<Rightarrow> agent_job result" where
  "job_record jid rt = (case map_of (ag_jobs rt) jid of None \<Rightarrow> throw (Out_of_range ''map::at'') | Some job \<Rightarrow> ok job)"

definition evidence_record :: "string \<Rightarrow> agent_runtime \<Rightarrow> agent_evidence result" where
  "evidence_record eid rt = (case ag_evidence rt eid of None \<Rightarrow> throw (Out_of_range ''map::at'') | Some e \<Rightarrow> ok e)"

fun claim_holds :: "agent_claim \<Rightarrow> agent_evidence \<Rightarrow> bool" where
  "claim_holds Claim_tool_succeeded e \<longleftrightarrow> ev_exit_code e = 0 \<and> \<not> ev_timed_out e \<and> \<not> ev_cancelled e"
| "claim_holds Claim_build_succeeded e \<longleftrightarrow> ev_tool e = Tool_build_submit \<and> ev_exit_code e = 0 \<and> ev_build_id e \<noteq> []"
| "claim_holds Claim_test_succeeded e \<longleftrightarrow> ev_tool e = Tool_test_run \<and> ev_exit_code e = 0 \<and> ev_build_id e \<noteq> []"
| "claim_holds Claim_patch_applied e \<longleftrightarrow> ev_tool e = Tool_workspace_patch \<and> is_sha256_hex (ev_before_sha256 e) \<and>
     is_sha256_hex (ev_after_sha256 e) \<and> ev_before_sha256 e \<noteq> ev_after_sha256 e \<and> ev_diff_summary e \<noteq> []"
| "claim_holds Claim_artifact_verified e \<longleftrightarrow> ev_tool e = Tool_artifact_inspect \<and> ev_artifact_id e \<noteq> [] \<and>
     is_sha256_hex (ev_artifact_sha256 e)"

definition verify_claim :: "string \<Rightarrow> agent_claim \<Rightarrow> agent_runtime \<Rightarrow> bool result" where
  "verify_claim eid claim rt = and_then (evidence_record eid rt) (\<lambda>e.
     ok (if \<not> ev_succeeded e then False else claim_holds claim e))"

end
