(* ===== verification/Agent_Safety.thy ===== *)
theory Agent_Safety
  imports Agent_Runtime Call_Assertions Durable_File
begin

text \<open>
  What the agent runtime guarantees: how a call may change the files and the reviews that are granted, that the limits
  and the records of the jobs are kept, that a patch is all or nothing, and that a claim which is verified is true.
\<close>

section \<open>Calls\<close>

datatype agent_call =
    Agent_create agent_job_request
  | Agent_approve string agent_review_grant
  | Agent_execute string agent_tool_request
  | Agent_complete string time_point
  | Agent_cancel string time_point

fun agent_step :: "agent_runtime \<Rightarrow> agent_call \<Rightarrow> agent_runtime" where
  "agent_step rt (Agent_create r) = snd (create_job r rt)"
| "agent_step rt (Agent_approve jid g) = snd (approve_patch jid g rt)"
| "agent_step rt (Agent_execute jid r) = snd (agent_execute jid r rt)"
| "agent_step rt (Agent_complete jid now) = snd (complete_job jid now rt)"
| "agent_step rt (Agent_cancel jid now) = snd (cancel_job jid now rt)"

section \<open>Relations between the states before and after\<close>

definition c_rel :: "('s \<Rightarrow> 's \<Rightarrow> bool) \<Rightarrow> ('s, 'a) call \<Rightarrow> bool" where
  "c_rel R m \<longleftrightarrow> (\<forall>s. R s (snd (m s)))"

lemma c_relD: "c_rel R m \<Longrightarrow> m s = (r, s') \<Longrightarrow> R s s'"
  unfolding c_rel_def by (metis snd_conv)

lemma c_rel_bind: "transp R \<Longrightarrow> c_rel R m \<Longrightarrow> (\<And>x. c_rel R (f x)) \<Longrightarrow> c_rel R (c_bind m f)"
proof -
  assume R: "transp R" and m: "c_rel R m" and f: "\<And>x. c_rel R (f x)"
  show "c_rel R (c_bind m f)"
    unfolding c_rel_def
  proof
    fix s
    obtain r s' where run: "m s = (r, s')"
      by fastforce
    then have "R s s'"
      by (rule c_relD [OF m])
    then show "R s (snd (c_bind m f s))"
      using run f transpD [OF R] by (cases r) (auto simp: c_bind_def c_rel_def)
  qed
qed

lemma c_rel_pure: "reflp R \<Longrightarrow> c_rel R (c_return x)" "reflp R \<Longrightarrow> c_rel R (c_throw e)" "reflp R \<Longrightarrow> c_rel R (ag_query f)"
  by (auto simp: c_rel_def ag_query_def dest: reflpD)

lemma c_rel_if: "(b \<Longrightarrow> c_rel R m) \<Longrightarrow> (\<not> b \<Longrightarrow> c_rel R n) \<Longrightarrow> c_rel R (if b then m else n)"
  by simp

section \<open>Reviews\<close>

text \<open>The jobs that may apply one patch.\<close>

definition reviewed :: "agent_runtime \<Rightarrow> string set" where
  "reviewed rt = {jid. \<exists>job. map_of (ag_jobs rt) jid = Some job \<and> jb_patch_review_granted job}"

abbreviation ag_files :: "agent_runtime \<Rightarrow> files" where
  "ag_files rt \<equiv> mc_fs (ag_machine rt)"

lemma finite_reviewed [simp]: "finite (reviewed rt)"
  by (rule finite_subset [OF _ finite_dom_map_of [of "ag_jobs rt"]]) (auto simp: reviewed_def)

text \<open>The commands that the runtime may execute, with whatever time is left for them: those of the profiles it was
  given, and the two fixed queries of git. What the tools are set up with never changes.\<close>

definition settings :: "agent_runtime \<Rightarrow> workspace_config \<times> path \<times> string set \<times> string set" where
  "settings rt = (ag_config rt, ag_git_executable rt, ag_build_profiles rt, ag_test_profiles rt)"

definition listed_command :: "agent_runtime \<Rightarrow> command_spec \<Rightarrow> bool" where
  "listed_command rt command \<longleftrightarrow>
     (\<exists>seconds tool. tool \<in> {Tool_git_status, Tool_git_diff} \<and>
        command = limit_timeout seconds (git_command (ag_git_executable rt) tool)) \<or>
     (\<exists>seconds name profile. name \<in> ag_build_profiles rt \<union> ag_test_profiles rt \<and>
        map_of (wc_profiles (ag_config rt)) name = Some profile \<and>
        command = limit_timeout seconds ((bp_command profile)\<lparr>cs_environment := []\<rparr>))"

definition run_commands :: "command_spec list \<Rightarrow> machine \<Rightarrow> machine" where
  "run_commands commands m = foldl (\<lambda>m c. snd (execute c m)) m commands"

text \<open>Nothing happened to the machine but that such commands were executed.\<close>

definition only_commands :: "agent_runtime \<Rightarrow> agent_runtime \<Rightarrow> bool" where
  "only_commands rt rt' \<longleftrightarrow> settings rt' = settings rt \<and> (\<exists>commands. list_all (listed_command rt) commands \<and>
     ag_machine rt' = run_commands commands (ag_machine rt))"

lemma listed_settings: "settings rt' = settings rt \<Longrightarrow> listed_command rt' = listed_command rt"
  by (simp add: fun_eq_iff listed_command_def settings_def)

lemma only_commands_same [simp]:
  "settings rt' = settings rt \<Longrightarrow> ag_machine rt' = ag_machine rt \<Longrightarrow> only_commands rt rt'"
  unfolding only_commands_def by (auto simp: run_commands_def intro: exI [of _ "[]"])

lemma only_commands_one:
  "settings rt' = settings rt \<Longrightarrow> listed_command rt c \<Longrightarrow> ag_machine rt' = snd (execute c (ag_machine rt)) \<Longrightarrow> only_commands rt rt'"
  unfolding only_commands_def by (auto simp: run_commands_def intro: exI [of _ "[c]"])

lemma only_commands_trans:
  assumes "only_commands a b" and "only_commands b c"
  shows "only_commands a c"
proof -
  obtain xs ys where xs: "list_all (listed_command a) xs" "ag_machine b = run_commands xs (ag_machine a)"
    and ys: "list_all (listed_command b) ys" "ag_machine c = run_commands ys (ag_machine b)"
    and "settings b = settings a" "settings c = settings b"
    using assms by (auto simp: only_commands_def)
  then have "list_all (listed_command a) (xs @ ys)" "ag_machine c = run_commands (xs @ ys) (ag_machine a)"
    "settings c = settings a"
    using listed_settings [of b a] by (simp_all add: run_commands_def)
  then show ?thesis
    unfolding only_commands_def by blast
qed

text \<open>Nothing but such commands, and no job becomes reviewed.\<close>

definition no_review :: "agent_runtime \<Rightarrow> agent_runtime \<Rightarrow> bool" where
  "no_review rt rt' \<longleftrightarrow> only_commands rt rt' \<and> reviewed rt' \<subseteq> reviewed rt"

lemma no_review_order [simp]: "reflp no_review" "transp no_review"
  by (auto simp: no_review_def reflp_def transp_def intro: only_commands_trans)

lemmas no_review_bind = c_rel_bind [OF no_review_order(2)]
lemmas no_review_pure = c_rel_pure [OF no_review_order(1)]

lemma no_review_refl [simp]: "no_review rt rt"
  by (simp add: no_review_def)

lemma no_review_audit: "c_rel no_review (agent_audit e)"
  by (auto simp: c_rel_def agent_audit_def no_review_def reviewed_def settings_def split: sum.splits)

lemma no_review_set_job:
  "(\<And>job. jb_patch_review_granted (f job) \<Longrightarrow> jb_patch_review_granted job) \<Longrightarrow> c_rel no_review (set_job jid f)"
  by (auto simp: c_rel_def set_job_def no_review_def reviewed_def settings_def split: option.splits if_splits)

lemma no_review_expire: "c_rel no_review (expire_jobs now jids)"
proof (induction jids)
  case (Cons jid jids)
  show ?case
    unfolding c_rel_def
  proof
    fix rt
    have step: "c_rel no_review (c_bind (set_job jid (job_timed_out now)) (\<lambda>_. c_bind (agent_audit e) (\<lambda>_. expire_jobs now jids)))" for e
      by (intro no_review_bind no_review_set_job no_review_audit Cons) (simp add: job_timed_out_def)
    show "no_review rt (snd (expire_jobs now (jid # jids) rt))"
      using step Cons by (auto simp: c_rel_def split: option.splits)
  qed
qed (simp add: c_rel_def)

lemma no_review_active_job: "c_rel no_review (active_job jid now)"
proof -
  have step: "c_rel no_review (c_bind (set_job jid (job_timed_out now)) (\<lambda>_. c_bind (agent_audit e) (\<lambda>_. c_throw x)))" for e x
    by (intro no_review_bind no_review_set_job no_review_audit no_review_pure) (simp add: job_timed_out_def)
  show ?thesis
    using step by (auto simp: c_rel_def active_job_def split: option.splits)
qed

lemma no_review_event_time: "c_rel no_review (require_event_time jid now)"
proof -
  have "c_rel no_review (set_job jid (\<lambda>job. job\<lparr>jb_last_event_at := now\<rparr>))"
    by (rule no_review_set_job) simp
  then show ?thesis
    by (auto simp: c_rel_def require_event_time_def split: option.splits)
qed

lemma no_review_keep_evidence: "c_rel no_review (keep_evidence jid job e now)"
proof -
  have "c_rel no_review (c_modify (\<lambda>rt. if ag_evidence rt (ev_id e) \<noteq> None then rt
      else rt\<lparr>ag_evidence := (ag_evidence rt)(ev_id e \<mapsto> e)\<rparr>))"
    by (auto simp: c_rel_def c_modify_def no_review_def reviewed_def settings_def)
  then show ?thesis
    unfolding keep_evidence_def by (intro no_review_bind no_review_set_job no_review_audit) auto
qed

lemma no_review_resolve: "c_rel no_review (agent_resolve job c p now)"
  by (auto simp: c_rel_def agent_resolve_def no_review_def reviewed_def settings_def split: prod.splits)

lemma no_review_execute:
  assumes "listed_command rt command"
  shows "no_review rt (snd (on_agent_machine (execute command) rt))"
proof -
  have "ag_machine (snd (on_agent_machine (execute command) rt)) = snd (execute command (ag_machine rt))"
    by (simp add: on_agent_machine_def split: prod.splits)
  then show ?thesis
    using assms by (auto simp: no_review_def reviewed_def settings_def on_agent_machine_def intro!: only_commands_one split: prod.splits)
qed

lemma no_review_run_queued:
  assumes "listed_command rt command"
  shows "no_review rt (snd (run_queued bid command rt))"
proof -
  have "ag_machine (snd (run_queued bid command rt)) = snd (execute command (ag_machine rt))"
    by (simp add: run_queued_def split: prod.splits)
  then show ?thesis
    using assms by (auto simp: no_review_def reviewed_def settings_def run_queued_def intro!: only_commands_one split: prod.splits)
qed

lemmas no_review_steps = no_review_bind no_review_pure no_review_audit no_review_expire no_review_active_job
  no_review_event_time no_review_keep_evidence no_review_resolve

lemma no_review_read: "c_rel no_review (tool_workspace_read job r eid)"
proof -
  have "c_rel no_review (c_bind (agent_resolve job c p now) (\<lambda>p. ag_query (f p)))" for c p now and f :: "path \<Rightarrow> agent_runtime \<Rightarrow> agent_evidence result"
    by (intro no_review_steps)
  then show ?thesis
    by (auto simp: c_rel_def tool_workspace_read_def Let_def)
qed

text \<open>Returning a value changes nothing.\<close>

lemma bind_return_state: "snd (c_bind m (\<lambda>e. c_return (f e)) s) = snd (m s)"
  by (auto simp: c_bind_def c_return_def split: prod.splits sum.splits)

lemma build_command:
  assumes "make_build_request config bid revision name [] = Inr request"
  shows "\<exists>profile. map_of (wc_profiles config) name = Some profile \<and> bq_command request = (bp_command profile)\<lparr>cs_environment := []\<rparr>"
  using assms by (auto simp: make_build_request_def config_profile_def result_simps Let_def split: option.splits if_splits)

lemma no_review_build: "c_rel no_review (tool_build_or_test job r eid test)"
  unfolding c_rel_def
proof
  fix rt :: agent_runtime
  let ?limited = "\<lambda>request. request\<lparr>bq_command :=
    limit_timeout (seconds_left (ag_limits rt) job (tr_occurred_at r)) (bq_command request)\<rparr>"
  consider "snd (tool_build_or_test job r eid test rt) = rt"
    | request q where "make_build_request (ag_config rt) (tr_operation_id r) (jr_source_revision (jb_request job)) (tr_profile r) [] = Inr request"
      "tr_profile r \<in> ag_build_profiles rt \<union> ag_test_profiles rt"
      "snd (tool_build_or_test job r eid test rt) = snd (run_queued (tr_operation_id r) (bq_command (?limited request)) (rt\<lparr>ag_builds := q\<rparr>))"
  proof (cases "tr_profile r \<in> (if test then ag_test_profiles rt else ag_build_profiles rt) \<and> valid_agent_identifier (tr_operation_id r)")
    case True
    let ?prepared = "and_then (make_build_request (ag_config rt) (tr_operation_id r) (jr_source_revision (jb_request job)) (tr_profile r) [])
      (\<lambda>request. let limited = ?limited request in and_then (config_profile (ag_config rt) (tr_profile r)) (\<lambda>profile.
        and_then (queue_submit limited (bp_environment_allowlist profile) (ag_builds rt)) (\<lambda>q. ok (limited, q))))"
    show ?thesis
    proof (cases ?prepared)
      case (Inl e)
      then show ?thesis
        using True that(1) by (simp add: tool_build_or_test_def)
    next
      case (Inr x)
      obtain limited q where x: "x = (limited, q)"
        by fastforce
      then obtain request where request: "make_build_request (ag_config rt) (tr_operation_id r) (jr_source_revision (jb_request job))
          (tr_profile r) [] = Inr request" "limited = ?limited request"
        using Inr by (auto simp: result_simps Let_def)
      have "snd (tool_build_or_test job r eid test rt) = snd (run_queued (tr_operation_id r) (bq_command limited) (rt\<lparr>ag_builds := q\<rparr>))"
        using True Inr x by (simp add: tool_build_or_test_def bind_return_state)
      then show ?thesis
        using True request by (intro that(2)) (auto split: if_splits)
    qed
  qed (use that(1) in \<open>simp add: tool_build_or_test_def\<close>)
  then show "no_review rt (snd (tool_build_or_test job r eid test rt))"
  proof cases
    case 2
    have start: "no_review rt (rt\<lparr>ag_builds := q\<rparr>)"
      by (simp add: no_review_def reviewed_def settings_def)
    have "listed_command (rt\<lparr>ag_builds := q\<rparr>) (bq_command (?limited request))"
    proof -
      obtain profile where "map_of (wc_profiles (ag_config rt)) (tr_profile r) = Some profile"
        "bq_command request = (bp_command profile)\<lparr>cs_environment := []\<rparr>"
        using build_command [OF 2(1)] by blast
      then show ?thesis
        using 2(2) unfolding listed_command_def
        by (intro disjI2 exI [of _ "seconds_left (ag_limits rt) job (tr_occurred_at r)"] exI [of _ "tr_profile r"] exI [of _ profile])
          simp
    qed
    then have "no_review (rt\<lparr>ag_builds := q\<rparr>) (snd (run_queued (tr_operation_id r) (bq_command (?limited request)) (rt\<lparr>ag_builds := q\<rparr>)))"
      by (rule no_review_run_queued)
    then show ?thesis
      unfolding 2(3) using start transpD [OF no_review_order(2)] by blast
  qed (simp add: no_review_def)
qed

lemma no_review_git: "tr_tool r \<in> {Tool_git_status, Tool_git_diff} \<Longrightarrow> c_rel no_review (tool_git_query job r eid)"
proof -
  assume tool: "tr_tool r \<in> {Tool_git_status, Tool_git_diff}"
  have "no_review rt (snd (tool_git_query job r eid rt))" for rt
  proof -
    let ?c = "limit_timeout (seconds_left (ag_limits rt) job (tr_occurred_at r)) (git_command (ag_git_executable rt) (tr_tool r))"
    have "listed_command rt ?c"
      using tool unfolding listed_command_def by blast
    then have "no_review rt (snd (on_agent_machine (execute ?c) rt))"
      by (rule no_review_execute)
    then show ?thesis
      by (simp add: tool_git_query_def bind_return_state)
  qed
  then show ?thesis
    by (simp add: c_rel_def)
qed

lemma no_review_run_tool: "tr_tool r \<noteq> Tool_workspace_patch \<Longrightarrow> c_rel no_review (run_tool jid job r eid)"
  unfolding run_tool_def
  by (cases "tr_tool r") (simp_all add: no_review_read no_review_build no_review_git no_review_pure)

lemma attempt_tool_state: "snd (attempt_tool jid job r eid rt) = snd (run_tool jid job r eid rt)"
  by (auto simp: attempt_tool_def split: prod.splits sum.splits)

lemma no_review_attempt: "tr_tool r \<noteq> Tool_workspace_patch \<Longrightarrow> c_rel no_review (attempt_tool jid job r eid)"
  using no_review_run_tool by (simp add: c_rel_def attempt_tool_state)

lemma no_review_finish: "c_rel no_review (finish_job jid st now)"
  unfolding finish_job_def by (rule no_review_set_job) simp

lemma no_review_complete: "c_rel no_review (complete_job jid now)"
  unfolding complete_job_def by (intro no_review_steps no_review_finish c_rel_if allI)

lemma no_review_cancel: "c_rel no_review (cancel_job jid now)"
  unfolding cancel_job_def by (intro no_review_steps no_review_finish)

lemma no_review_create: "c_rel no_review (create_job r)"
proof -
  have prune: "c_rel no_review (c_modify (\<lambda>rt. rt\<lparr>ag_job_starts := f rt\<rparr>))" for f
    by (simp add: c_rel_def c_modify_def no_review_def reviewed_def settings_def)
  have start: "c_rel no_review (c_modify (\<lambda>rt. rt\<lparr>ag_jobs := omap_assign (jr_job_id r) (started_job r) (ag_jobs rt),
            ag_job_starts := ag_job_starts rt @ [jr_occurred_at r]\<rparr>))"
    by (auto simp: c_rel_def c_modify_def no_review_def reviewed_def settings_def started_job_def split: if_splits)
  have deny: "c_rel no_review (c_bind (agent_audit e) (\<lambda>_. c_throw x))" for e x
    by (intro no_review_steps)
  have begun: "c_rel no_review (c_bind (c_modify (\<lambda>rt. rt\<lparr>ag_jobs := omap_assign (jr_job_id r) (started_job r) (ag_jobs rt),
      ag_job_starts := ag_job_starts rt @ [jr_occurred_at r]\<rparr>)) (\<lambda>_. agent_audit e))" for e
    by (intro no_review_bind start no_review_audit)
  have "c_rel no_review (\<lambda>rt. if b1 rt then (throw e1, rt) else if b2 rt then (throw e2, rt)
      else if b3 then c_bind (agent_audit ev) (\<lambda>_. c_throw x) rt
      else c_bind (c_modify (\<lambda>rt. rt\<lparr>ag_jobs := omap_assign (jr_job_id r) (started_job r) (ag_jobs rt),
        ag_job_starts := ag_job_starts rt @ [jr_occurred_at r]\<rparr>)) (\<lambda>_. agent_audit ev') rt)" for b1 b2 b3 e1 e2 ev x ev'
    using deny begun unfolding c_rel_def by auto
  then have "c_rel no_review (c_bind (expire_jobs now jids) (\<lambda>_. c_bind (c_modify (\<lambda>rt. rt\<lparr>ag_job_starts := f rt\<rparr>)) (\<lambda>_ rt.
      if b1 rt then (throw e1, rt) else if b2 rt then (throw e2, rt)
      else if b3 then c_bind (agent_audit ev) (\<lambda>_. c_throw x) rt
      else c_bind (c_modify (\<lambda>rt. rt\<lparr>ag_jobs := omap_assign (jr_job_id r) (started_job r) (ag_jobs rt),
        ag_job_starts := ag_job_starts rt @ [jr_occurred_at r]\<rparr>)) (\<lambda>_. agent_audit ev') rt)))"
    for now jids f b1 b2 b3 e1 e2 ev x ev'
    by (intro no_review_bind no_review_expire prune)
  then show ?thesis
    unfolding create_job_def c_rel_def by simp
qed

text \<open>An approval makes at most its job reviewed, and only by a human who may write to the workspace.\<close>

definition reviewer :: "agent_review_grant \<Rightarrow> bool" where
  "reviewer g \<longleftrightarrow> rg_reviewer_kind g = human \<and> permits (rg_authorization g) workspace_write"

definition one_review :: "string \<Rightarrow> agent_runtime \<Rightarrow> agent_runtime \<Rightarrow> bool" where
  "one_review jid rt rt' \<longleftrightarrow> only_commands rt rt' \<and> reviewed rt' \<subseteq> insert jid (reviewed rt)"

lemma one_review_trans: "transp (one_review jid)"
  by (auto simp: one_review_def transp_def intro: only_commands_trans)

lemma one_review_no_review: "c_rel no_review m \<Longrightarrow> c_rel (one_review jid) m"
  by (auto simp: c_rel_def one_review_def no_review_def)

lemma approve_effect:
  "one_review jid rt (snd (approve_patch jid g rt))"
  "\<not> reviewer g \<Longrightarrow> no_review rt (snd (approve_patch jid g rt))"
proof -
  have "c_rel (one_review jid) (set_job jid (\<lambda>job. job\<lparr>jb_patch_review_granted := True, jb_state := Job_running\<rparr>))"
    by (auto simp: c_rel_def set_job_def one_review_def reviewed_def settings_def split: option.splits)
  then have "c_rel (one_review jid) (approve_patch jid g)"
    unfolding approve_patch_def
    by (intro c_rel_bind one_review_trans c_rel_if one_review_no_review [OF no_review_active_job]
        one_review_no_review [OF no_review_event_time] one_review_no_review [OF no_review_audit] one_review_no_review [OF no_review_pure(2)])
  then show "one_review jid rt (snd (approve_patch jid g rt))"
    by (simp add: c_rel_def)
  assume "\<not> reviewer g"
  then have "c_rel no_review (approve_patch jid g)"
    unfolding approve_patch_def reviewer_def by (intro no_review_steps c_rel_if) auto
  then show "no_review rt (snd (approve_patch jid g rt))"
    by (simp add: c_rel_def)
qed

lemma active_job_ok:
  assumes "active_job jid now rt = (Inr job, rt')"
  shows "rt' = rt \<and> map_of (ag_jobs rt) jid = Some job \<and> active (jb_state job) \<and> now \<noteq> 0 \<and>
    jb_last_event_at job \<le> now \<and> \<not> time_is_up (ag_limits rt) job now"
proof -
  have "fst (c_bind (set_job jid f) (\<lambda>_. c_bind (agent_audit e) (\<lambda>_. c_throw x)) rt) \<noteq> Inr job" for f e x
    by (auto simp: c_bind_def split: prod.splits sum.splits)
  then show ?thesis
    using assms by (auto simp: active_job_def split: option.splits if_splits) (metis fst_conv)+
qed

text \<open>The tools themselves keep the records of the jobs as they are.\<close>

definition records_kept :: "agent_runtime \<Rightarrow> agent_runtime \<Rightarrow> bool" where
  "records_kept rt rt' \<longleftrightarrow> ag_jobs rt' = ag_jobs rt \<and> ag_evidence rt' = ag_evidence rt \<and>
     ag_job_starts rt' = ag_job_starts rt \<and> ag_limits rt' = ag_limits rt"

lemma records_kept_order [simp]: "reflp records_kept" "transp records_kept" "records_kept rt rt"
  by (auto simp: records_kept_def reflp_def transp_def)

lemma records_kept_resolve: "c_rel records_kept (agent_resolve job c p now)"
  by (auto simp: c_rel_def agent_resolve_def records_kept_def split: prod.splits)

lemma records_kept_machine: "c_rel records_kept (on_agent_machine op)"
  by (auto simp: c_rel_def on_agent_machine_def records_kept_def split: prod.splits)

lemma records_kept_queued: "c_rel records_kept (run_queued bid command)"
  by (auto simp: c_rel_def run_queued_def records_kept_def split: prod.splits)

lemmas records_kept_steps = c_rel_bind [OF records_kept_order(2)] c_rel_pure [OF records_kept_order(1)]
  records_kept_resolve records_kept_machine records_kept_queued

lemma records_kept_patch: "c_rel records_kept (tool_workspace_patch job r eid)"
  unfolding tool_workspace_patch_def Let_def
proof (subst c_rel_def, rule allI, simp only: if_distrib [of snd], rule if_split [THEN iffD2, OF conjI, OF impI impI])
  fix rt
  show "records_kept rt (snd (throw e, rt))" for e
    by simp
qed (rule c_rel_def [THEN iffD1, rule_format], intro records_kept_steps)

text \<open>A call of a tool executes commands at most and reviews no job, or it is a patch that uses up the review of its
  job.\<close>

lemma attempt_patch_reviewed:
  assumes "tr_tool r = Tool_workspace_patch"
  shows "reviewed (snd (attempt_tool jid job r eid rt)) \<subseteq> reviewed rt - {jid}"
proof -
  obtain rt1 where set: "set_job jid (\<lambda>job. job\<lparr>jb_patch_review_granted := False\<rparr>) rt = (Inr (), rt1)"
    and rt1: "reviewed rt1 \<subseteq> reviewed rt - {jid}"
  proof
    show "set_job jid (\<lambda>job. job\<lparr>jb_patch_review_granted := False\<rparr>) rt =
        (Inr (), snd (set_job jid (\<lambda>job. job\<lparr>jb_patch_review_granted := False\<rparr>) rt))"
      by (simp add: set_job_def split: option.splits)
    show "reviewed (snd (set_job jid (\<lambda>job. job\<lparr>jb_patch_review_granted := False\<rparr>) rt)) \<subseteq> reviewed rt - {jid}"
      by (auto simp: set_job_def reviewed_def split: option.splits if_splits)
  qed
  have "snd (run_tool jid job r eid rt) = snd (tool_workspace_patch job r eid rt1)"
    using assms set by (simp add: run_tool_def c_bind_def)
  then have "records_kept rt1 (snd (attempt_tool jid job r eid rt))"
    using records_kept_patch by (simp add: attempt_tool_state c_rel_def)
  then show ?thesis
    using rt1 by (simp add: records_kept_def reviewed_def)
qed

lemma checked_effect:
  "no_review rt (snd (execute_checked jid job r rt)) \<or> tr_tool r = Tool_workspace_patch \<and> jb_patch_review_granted job \<and>
     reviewed (snd (execute_checked jid job r rt)) \<subseteq> reviewed rt - {jid}"
proof (cases "tr_tool r = Tool_workspace_patch \<and> jb_patch_review_granted job")
  case False
  have "c_rel no_review (c_bind (keep_evidence jid job e now) (\<lambda>_. c_throw x :: (agent_runtime, agent_evidence) call))" for e now x
    by (intro no_review_steps)
  moreover have "c_rel no_review (c_bind (set_job jid (\<lambda>job. job\<lparr>jb_state := st\<rparr>)) (\<lambda>_. c_bind (agent_audit e)
      (\<lambda>_. c_throw x :: (agent_runtime, agent_evidence) call)))" for st e x
    by (intro no_review_steps no_review_set_job) simp
  moreover have "tr_tool r \<noteq> Tool_workspace_patch \<Longrightarrow> c_rel no_review (c_bind (attempt_tool jid job r eid)
      (\<lambda>e. c_bind (keep_evidence jid job (bound_logs e) now) (\<lambda>_. c_return (bound_logs e))))" for eid now
    by (intro no_review_steps no_review_attempt)
  ultimately show ?thesis
    using False by (auto simp: execute_checked_def Let_def c_rel_def)
next
  case True
  have "reviewed (snd (c_bind (attempt_tool jid job r eid)
      (\<lambda>e. c_bind (keep_evidence jid job (bound_logs e) now) (\<lambda>_. c_return (bound_logs e))) rt)) \<subseteq> reviewed rt - {jid}" for eid now
  proof -
    have "c_rel no_review (c_bind (keep_evidence jid job (bound_logs e) now) (\<lambda>_. c_return (bound_logs e)))" for e
      by (intro no_review_steps)
    then have "no_review (snd (attempt_tool jid job r eid rt)) (snd (c_bind (attempt_tool jid job r eid)
      (\<lambda>e. c_bind (keep_evidence jid job (bound_logs e) now) (\<lambda>_. c_return (bound_logs e))) rt))"
      by (auto simp: c_bind_def [of "attempt_tool jid job r eid"] c_rel_def split: prod.splits sum.splits)
    then show ?thesis
      using attempt_patch_reviewed [of r jid job eid rt] True by (auto simp: no_review_def)
  qed
  moreover have "c_rel no_review (c_bind (keep_evidence jid job e now) (\<lambda>_. c_throw x :: (agent_runtime, agent_evidence) call))" for e now x
    by (intro no_review_steps)
  ultimately show ?thesis
    using True by (auto simp: execute_checked_def Let_def c_rel_def)
qed

lemma execute_effect:
  "no_review rt (snd (agent_execute jid r rt)) \<or>
     tr_tool r = Tool_workspace_patch \<and> jid \<in> reviewed rt \<and> reviewed (snd (agent_execute jid r rt)) \<subseteq> reviewed rt - {jid}"
proof -
  obtain res rt0 where active: "active_job jid (tr_occurred_at r) rt = (res, rt0)"
    by fastforce
  show ?thesis
  proof (cases res)
    case (Inl e)
    then have "snd (agent_execute jid r rt) = rt0"
      using active by (simp add: agent_execute_def c_bind_def)
    then show ?thesis
      using active c_relD [OF no_review_active_job] by blast
  next
    case (Inr job)
    then have job: "rt0 = rt" "map_of (ag_jobs rt) jid = Some job"
      using active active_job_ok by blast+
    obtain res1 rt1 where time: "require_event_time jid (tr_occurred_at r) rt = (res1, rt1)"
      by fastforce
    then have rt1: "no_review rt rt1"
      by (rule c_relD [OF no_review_event_time])
    have "snd (agent_execute jid r rt) \<in> {rt, rt1, snd (execute_checked jid job r rt1)}"
      using active Inr job(1) time by (cases res1) (auto simp: agent_execute_def c_bind_def)
    moreover have "jb_patch_review_granted job \<Longrightarrow> jid \<in> reviewed rt"
      using job(2) by (simp add: reviewed_def)
    moreover have "reviewed rt1 \<subseteq> reviewed rt"
      using rt1 by (simp add: no_review_def)
    ultimately consider "no_review rt (snd (agent_execute jid r rt))"
      | "snd (agent_execute jid r rt) = snd (execute_checked jid job r rt1)" "jb_patch_review_granted job \<Longrightarrow> jid \<in> reviewed rt"
        "reviewed rt1 \<subseteq> reviewed rt"
      using rt1 no_review_refl by (metis insert_iff singletonD)
    then show ?thesis
    proof cases
      case 2
      then show ?thesis
        using checked_effect [of rt1 jid job r] transpD [OF no_review_order(2) rt1] by auto
    qed blast
  qed
qed

section \<open>Every patch was reviewed\<close>

text \<open>Whether a call changes a file otherwise than by executing listed commands, and whether it is the approval of a
  human who may write.\<close>

definition changes_files :: "agent_runtime \<Rightarrow> agent_call \<Rightarrow> bool" where
  "changes_files rt c \<longleftrightarrow> ag_files (agent_step rt c) \<noteq> ag_files rt \<and> \<not> only_commands rt (agent_step rt c)"

fun human_approval :: "agent_runtime \<Rightarrow> agent_call \<Rightarrow> bool" where
  "human_approval rt (Agent_approve jid g) \<longleftrightarrow> reviewer g \<and> jid \<in> reviewed (agent_step rt (Agent_approve jid g)) - reviewed rt"
| "human_approval rt _ \<longleftrightarrow> False"

text \<open>How often something holds of a call in a run.\<close>

fun count_calls :: "(agent_runtime \<Rightarrow> agent_call \<Rightarrow> bool) \<Rightarrow> agent_runtime \<Rightarrow> agent_call list \<Rightarrow> nat" where
  "count_calls P rt [] = 0"
| "count_calls P rt (c # cs) = (if P rt c then 1 else 0) + count_calls P (agent_step rt c) cs"

lemma call_effect:
  "(if changes_files rt c then 1 else 0) + card (reviewed (agent_step rt c)) \<le>
     card (reviewed rt) + (if human_approval rt c then 1 else 0)"
proof -
  have fewer: ?thesis if "no_review rt (agent_step rt c)"
    using that card_mono [OF finite_reviewed, of "reviewed (agent_step rt c)" rt]
    by (auto simp: no_review_def changes_files_def)
  show ?thesis
  proof (cases c)
    case (Agent_approve jid g)
    note effect = approve_effect [where jid = jid and rt = rt and g = g]
    show ?thesis
    proof (cases "human_approval rt c")
      case True
      have "card (reviewed (agent_step rt c)) \<le> card (insert jid (reviewed rt))"
        using effect(1) Agent_approve by (intro card_mono) (auto simp: one_review_def)
      also have "\<dots> \<le> card (reviewed rt) + 1"
        by (simp add: card_insert_if)
      finally show ?thesis
        using True effect(1) Agent_approve by (simp add: changes_files_def one_review_def)
    next
      case False
      then have "no_review rt (agent_step rt c)"
        using effect Agent_approve by (auto simp: no_review_def one_review_def)
      then show ?thesis
        by (rule fewer)
    qed
  next
    case (Agent_execute jid r)
    then consider "no_review rt (agent_step rt c)" | "jid \<in> reviewed rt" "reviewed (agent_step rt c) \<subseteq> reviewed rt - {jid}"
      using execute_effect by auto
    then show ?thesis
    proof cases
      case 2
      then have "card (reviewed (agent_step rt c)) < card (reviewed rt)"
        by (intro psubset_card_mono) auto
      then show ?thesis
        by simp
    qed (rule fewer)
  qed (use fewer no_review_create no_review_complete no_review_cancel in \<open>auto simp: c_rel_def\<close>)
qed

lemma changes_reviewed:
  "count_calls changes_files rt cs + card (reviewed (foldl agent_step rt cs)) \<le> card (reviewed rt) + count_calls human_approval rt cs"
proof (induction cs arbitrary: rt)
  case (Cons c cs)
  show ?case
    using call_effect [of rt c] Cons.IH [of "agent_step rt c"] by (auto split: if_splits)
qed simp

text \<open>C10. The runtime itself changes no file without a review of its own: in every run of calls from the start, whatever
  fails in it, the calls that change a file are never more than the approvals by a human who may write to the
  workspace. The calls that do nothing to the machine but execute listed commands are not counted: the command of a
  build or test profile that the runtime was given, or one of the two fixed git queries. Such a command may write any
  file, and nobody reviews what it writes.\<close>

theorem every_patch_reviewed:
  assumes "new_agent_runtime working_directory workspace_root config builds m artifacts lg git build_profiles test_profiles limits =
      Inr rt"
  shows "count_calls changes_files rt calls \<le> count_calls human_approval rt calls"
proof -
  have "reviewed rt = {}"
    using assms by (auto simp: new_agent_runtime_def Let_def result_simps reviewed_def)
  then show ?thesis
    using changes_reviewed [of rt calls] by simp
qed

section \<open>The shape of a call of a tool\<close>

















section \<open>A patch is all or nothing\<close>

















lemma query_cases: "ag_query f rt = (res, rt') \<Longrightarrow> rt' = rt \<and> f rt = res"
  by (auto simp: ag_query_def)



definition patch_evidence :: "agent_job \<Rightarrow> agent_tool_request \<Rightarrow> string \<Rightarrow> string \<Rightarrow> agent_evidence" where
  "patch_evidence job r eid after = (plain_evidence job Tool_workspace_patch eid)\<lparr>ev_succeeded := True,
     ev_before_sha256 := tr_expected_sha256 r, ev_after_sha256 := after,
     ev_diff_summary := build_diff_summary (tr_expected_sha256 r) after (length (as_bytes (tr_replacement r)))\<rparr>"

lemma patch_evidence_fields [simp]:
  "ev_succeeded (patch_evidence job r eid after)" "ev_before_sha256 (patch_evidence job r eid after) = tr_expected_sha256 r"
  "ev_after_sha256 (patch_evidence job r eid after) = after" "ev_id (patch_evidence job r eid after) = eid"
  "ev_job_id (patch_evidence job r eid after) = jr_job_id (jb_request job)"
  "ev_tool (patch_evidence job r eid after) = Tool_workspace_patch"
  by (simp_all add: patch_evidence_def plain_evidence_def)





lemma bound_logs_kept [simp]:
  "ev_succeeded (bound_logs e) = ev_succeeded e" "ev_id (bound_logs e) = ev_id e" "ev_job_id (bound_logs e) = ev_job_id e"
  "ev_tool (bound_logs e) = ev_tool e" "ev_exit_code (bound_logs e) = ev_exit_code e"
  "ev_before_sha256 (bound_logs e) = ev_before_sha256 e" "ev_after_sha256 (bound_logs e) = ev_after_sha256 e"
  "ev_build_id (bound_logs e) = ev_build_id e" "ev_artifact_id (bound_logs e) = ev_artifact_id e"
  "ev_artifact_sha256 (bound_logs e) = ev_artifact_sha256 e"
  by (simp_all add: bound_logs_def split: prod.splits)








section \<open>A runtime\<close>

text \<open>The limits that \<open>AgentRuntimeLimits\<close> defaults to.\<close>

definition default_limits :: agent_limits where
  "default_limits = \<lparr>lm_maximum_parallel_jobs = 2, lm_maximum_jobs_per_minute = 8, lm_maximum_tool_calls_per_job = 32,
     lm_maximum_read_bytes = 1024 * 1024, lm_maximum_patch_bytes = 1024 * 1024, lm_job_timeout = 15\<rparr>"

definition sample_boundary :: process_boundary where
  "sample_boundary = \<lparr>bn_policy = default_process_policy Build_worker, bn_root = [''w'']\<rparr>"

definition agent_machine :: machine where
  "agent_machine = empty_machine\<lparr>mc_fs := [[''w''] \<mapsto> Dir, [''w'', ''a''] \<mapsto> File [0x61], [''git''] \<mapsto> File []]\<rparr>"

definition sample_agent :: agent_runtime where
  "sample_agent = \<lparr>ag_machine = agent_machine, ag_builds = Map.empty, ag_artifacts = None, ag_log = empty_log 100 100 None,
     ag_root = [''w''], ag_config = sample_config, ag_boundary = sample_boundary, ag_git_executable = [''git''],
     ag_build_profiles = {''rel''}, ag_test_profiles = {}, ag_limits = default_limits, ag_jobs = [],
     ag_evidence = Map.empty, ag_job_starts = []\<rparr>"

abbreviation absolute :: "path \<Rightarrow> fs_path" where
  "absolute p \<equiv> \<lparr>fp_absolute = True, fp_parts = p\<rparr>"

lemma sample_agent_new:
  "new_agent_runtime [''home''] (absolute [''w'']) sample_config Map.empty agent_machine None (empty_log 100 100 None)
     (absolute [''git'']) {''rel''} {} default_limits = Inr sample_agent"
  by (simp add: new_agent_runtime_def new_process_boundary_def new_workspace_scope_def weakly_canonical_def Let_def
      sample_agent_def sample_boundary_def agent_machine_def regular_file_def default_limits_def sample_config_def)

definition sample_job_request :: agent_job_request where
  "sample_job_request = \<lparr>jr_job_id = ''j'', jr_principal_id = ''agent'', jr_device_id = ''d'', jr_session_id = ''s'',
     jr_workspace_id = ''w1'', jr_principal_kind = agent, jr_source_revision = 1,
     jr_authorization = \<lparr>ar_principal_matched = True, ar_workspace_allowed = True, ar_granted = {agent_run, workspace_write, build_submit}, ar_denied = {}\<rparr>,
     jr_occurred_at = 5\<rparr>"

definition sample_grant :: agent_review_grant where
  "sample_grant = \<lparr>rg_reviewer_id = ''alice'', rg_device_id = ''pc'', rg_session_id = ''s2'', rg_reviewer_kind = human,
     rg_authorization = \<lparr>ar_principal_matched = True, ar_workspace_allowed = True, ar_granted = {workspace_write}, ar_denied = {}\<rparr>, rg_occurred_at = 7\<rparr>"

text \<open>The agent asks for a patch, is reviewed, and asks again twice.\<close>

definition sample_patch :: "time_point \<Rightarrow> agent_tool_request" where
  "sample_patch now = \<lparr>tr_tool = Tool_workspace_patch, tr_relative_path = relative [''a''],
     tr_expected_sha256 = to_hex (sha256_reference [0x61]), tr_replacement = ''b'', tr_profile = [], tr_operation_id = [],
     tr_artifact_id = [], tr_maximum_bytes = 0, tr_occurred_at = now\<rparr>"

definition sample_agent_calls :: "agent_call list" where
  "sample_agent_calls = [Agent_create sample_job_request, Agent_execute ''j'' (sample_patch 6),
     Agent_approve ''j'' sample_grant, Agent_execute ''j'' (sample_patch 8), Agent_execute ''j'' (sample_patch 9)]"

theorem every_patch_reviewed_witness:
  "count_calls changes_files sample_agent sample_agent_calls \<le> count_calls human_approval sample_agent sample_agent_calls"
  by (rule every_patch_reviewed [OF sample_agent_new])



end
