(* ===== verification/Spec2Isabelle.thy ===== *)
theory Spec2Isabelle
  imports Prelude Wire Content_Hash Authorization Identity Session Audit_Log Session_Service
    Visual_Headers Visual_Payloads Video_Fragments Input Framebuffer Snapshot Clipboard Desktop_Session Channel_Session
    Text_Format Transport_Settings Resilient_Transport Encrypted_Fallback Build_Queue File_System Deployment
    Call_Assertions Version_Store Deployment_Safety Ordered_Map Workspace_Sync Ignore_Rules Workspace_Manifest File_Transfer
    Transfer_Delivery Durable_File Pairing_Store Artifact_Store Artifact_Durability Object_Delivery
    Publication Build_Config Process_Isolation Agent_Runtime
    Agent_Safety
begin

text \<open>
  LanPilot lets one machine of a local network view and control the desktop of another, and build
  and deploy on it. Its logic is C++23. This development models the parts that decide who may do what and
  that build, publish, deploy and synchronise files (\<open>core/\<close>), the protocol and state machines of the remote
  desktop (\<open>desktop/\<close>), and the state machines of its transports (\<open>transport/\<close>).

  How the parts interact. A device is paired once (\<open>identity.cpp\<close>); a client presents its certificate,
  and the session service (\<open>session_service.cpp\<close>) opens a session when the trust gate accepts the peer
  and the policy (\<open>authorization.cpp\<close>) grants what it asks for, and writes an audit event
  (\<open>audit.cpp\<close>). The result of the authorization is then held by the desktop objects: the transport
  session sends frames, input and clipboard updates only under their capabilities, and the input
  receiver checks the capability of every event again. Frames go as video datagrams that are cut and
  put together again, or as visual messages: a full snapshot in chunks, or a transaction of raw
  rectangles on an exactly known frame. The canonical framebuffer state says which of these may be
  committed and acknowledged.

  A workspace is described by a manifest, which is compared and sent chunk by chunk; a build of a revision of it
  that succeeded may be published as an artifact, which is stored under its digest by a file transfer; a
  deployment puts an artifact in place of the active version and goes back when a step fails. The paired device,
  the metadata of the artifacts and the transferred files live on the disk: they are written to a staging file
  that then replaces what was there. An agent runs its tools - reading and patching files, builds, tests, queries of
  git and of artifacts - inside the boundary of its process role, and its patches need the review of a human.

  The machine (\<open>File_System\<close>). The disk and the executor of commands are a machine of which every call may fail, and the
  answers of which may depend on all calls made before. Replacing a file is atomic, but the call may report a failure
  after the file has been moved. An executed command may change any file. Where a property needs more, it says so:
  \<open>fb_wf\<close> of a deployment asks that the commands that stop, start and check the service write neither the active nor a
  saved version, and \<open>reliable\<close> is a machine whose calls succeed.

  Which theory models which source.

  \<^item> \<open>Prelude\<close>: words, exceptions as results, calls that change an object and may throw, the locales
    \<open>invariant_machine\<close> and \<open>monotone_machine\<close> that every stateful component interprets.
  \<^item> \<open>Wire\<close>: \<open>Writer\<close> and \<open>Reader\<close> of \<open>desktop.cpp\<close>; the locales \<open>wire_field\<close> (a field that reads what was
    written) and \<open>message_codec\<close> (a decoder that accepts exactly the encodings), which every message
    interprets.
  \<^item> \<open>Content_Hash\<close>: \<open>content_hash.cpp\<close>. The accumulator against a block-wise reference.
  \<^item> \<open>Authorization\<close>, \<open>Identity\<close>, \<open>Session\<close>, \<open>Audit_Log\<close>, \<open>Session_Service\<close>: the files of \<open>core/src\<close> with
    those names.
  \<^item> \<open>Visual_Headers\<close>, \<open>Visual_Payloads\<close>: headers and payloads of the visual protocol, the payload check, the
    digest of a rectangle transaction, the sequence tracker.
  \<^item> \<open>Video_Fragments\<close>: \<open>fragment_frame\<close>, \<open>FrameReassembler\<close>, \<open>LatestFrameQueue\<close>, keyframe requests.
  \<^item> \<open>Input\<close>: \<open>valid_utf8\<close>, input events, \<open>InputReceiver\<close>, \<open>InputFocusReleaseGate\<close>.
  \<^item> \<open>Framebuffer\<close>: \<open>CanonicalFramebufferState\<close>.
  \<^item> \<open>Snapshot\<close>: \<open>FullSnapshotAssemblyGuard\<close>, \<open>SnapshotWireDrainPlan\<close>, \<open>RawRectTransactionGuard\<close>.
  \<^item> \<open>Clipboard\<close>: clipboard updates and \<open>ClipboardSynchronizer\<close>.
  \<^item> \<open>Desktop_Session\<close>: \<open>adapt_video_settings\<close>, \<open>LatencyTelemetry::record\<close>, \<open>DesktopTransportSession\<close>.
  \<^item> \<open>Channel_Session\<close>: \<open>transport/src/channel_session.cpp\<close> and \<open>certificate_identity.cpp\<close>, the binding of the visual
    and the control connection of one peer to a session.
  \<^item> \<open>Transport_Settings\<close>, \<open>Resilient_Transport\<close>: \<open>transport/src/resilient_transport.cpp\<close>, its settings file and
    negotiation, and the state machine \<open>ResilientTransport\<close> over a connector whose answers are a parameter.
  \<^item> \<open>Encrypted_Fallback\<close>: \<open>transport/src/encrypted_fallback.cpp\<close>, a connector for \<open>ResilientTransport\<close>;
    \<open>fallback_planes_bound\<close> is about the two together.
  \<^item> \<open>Build_Queue\<close>: \<open>build.cpp\<close>. \<open>File_System\<close>: \<open>workspace_scope.cpp\<close> and the machine. \<open>Call_Assertions\<close>: what holds
    after a call that returns and after one that throws, with a rule per way of composing calls.
  \<^item> \<open>Deployment\<close>, \<open>Version_Store\<close>, \<open>Deployment_Safety\<close>: \<open>deployment.cpp\<close>, the locale \<open>version_store\<close> of what the
    service relies on in its backend, and the safety of the two together.
  \<^item> \<open>Ordered_Map\<close>, \<open>Workspace_Sync\<close>, \<open>Ignore_Rules\<close>, \<open>Workspace_Manifest\<close>: \<open>workspace_sync.cpp\<close>, \<open>ignore_rules.cpp\<close>,
    \<open>workspace_manifest.cpp\<close> and \<open>workspace_watcher.cpp\<close>.
  \<^item> \<open>File_Transfer\<close>, \<open>Transfer_Delivery\<close>: \<open>file_transfer.cpp\<close>, its safety and its delivery.
  \<^item> \<open>Text_Format\<close>, \<open>Durable_File\<close>, \<open>Pairing_Store\<close>, \<open>Artifact_Store\<close>: the lines and fields of text files, the locale
    \<open>durable_record\<close> of a record kept in a file, \<open>pairing_store.cpp\<close> and \<open>artifact_store.cpp\<close>.
  \<^item> \<open>Artifact_Durability\<close>, \<open>Object_Delivery\<close>, \<open>Publication\<close>: what the disk holds after each call of a publication, the
    delivery of an object, and the properties of publishing with concrete runs.
  \<^item> \<open>Build_Config\<close>: \<open>build_config.cpp\<close>, the line format of the workspace configuration, build requests, and the
    search for build artifacts.
  \<^item> \<open>Process_Isolation\<close>: \<open>process_isolation.cpp\<close>, roles, boundaries and scoped access.
  \<^item> \<open>Agent_Runtime\<close>, \<open>Agent_Safety\<close>: \<open>agent_runtime.cpp\<close>, its jobs, reviews, tools, evidence and claims, and how its
    calls may change the files.

  Correspondence. A class is a record with its members in order, named with a short prefix; a member
  function is a definition that takes the object last and returns the result with the new object;
  an exception is \<open>Inl\<close> with its class and message, and what was changed before it stays changed.
  Unsigned integers are words and wrap; container sizes are naturals; points in time and durations
  are integers. \<open>std::map\<close> is a map, or a sorted association list where the code iterates over it.
  Interfaces whose implementations lie outside (the host of the input receiver, the transport, the sink
  of the audit log) are parameters that may fail at any call, and their calls are a trace.

  What the lemmas show. For each message, an equation for what the encoder gives, and the codec law.
  For each object, an invariant and one preservation lemma per member function, the interpretation of
  the machine locale, and from it the properties of every run. \<open>frame_crosses_transport\<close> and
  \<open>snapshot_sent_is_assembled\<close> compose a sender with a receiver; \<open>session_use_authorized\<close> composes pairing,
  trust gate, policy, lease and session. On the disk, the lemmas say what holds after a call that returned and
  after one that threw: \<open>deployment_keeps_a_version\<close>, \<open>transfer_never_leaves_partial_file\<close>,
  \<open>stored_device_refines_steps\<close>, \<open>reopened_store_has_records\<close>, \<open>patch_all_or_nothing\<close>. Where the code does not keep
  what it seems to promise, a theorem shows the run: \<open>failed_publication_reappears\<close>, \<open>leftover_metadata_blocks_artifact\<close>,
  \<open>leftover_staging_blocks_revocation\<close>, \<open>rule_after_double_star_missed\<close>. \<open>fixed_messages_exact\<close>, below, collects the messages of fixed size.

  Bounds. There is no fuel: every loop is structural, has a measure, or is the partial function
  \<open>burst_loop\<close>, whose result is shown to exist for every plan that \<open>begin\<close> accepts. The bounds on sizes
  are those of the code. Points in time are unbounded integers, so conversions between units do not overflow.

  Not modelled. Functions that compute with floating point (\<open>map_pointer_to_surface\<close>,
  \<open>percentile_end_to_end\<close>) and the scaling of preview pixels (\<open>fit_preview_frame\<close>); threads and locks;
  the glue to MsQuic, Schannel, Direct3D and the operating systems; the entry points \<open>main.cpp\<close>, which
  are event loops around these objects, and the services of \<open>node/\<close> and \<open>client/\<close> that call them over the network; the
  release tooling (\<open>release_*.cpp\<close>); symbolic links, which the model of the disk does not have; the policy and product
  configuration files (\<open>policy_file.cpp\<close>, \<open>product_config.cpp\<close>); the control protocols (\<open>protocol/\<close>); audio, the
  terminal, and the visual trace and evidence.
\<close>

section \<open>The messages of fixed size\<close>

text \<open>C38. The messages of fixed size - preview and visual headers, the reverse control header, input events, the
  hello and the admission of a channel - are decoded exactly from the encodings of valid messages: an
  encoded message decodes to itself, and nothing is accepted but its one canonical form.\<close>

theorem fixed_messages_exact:
  "(decode_preview_frame_header bs = Inr p) = (encode_preview_frame_header p = Inr bs) \<and>
   (decode_encoded_preview_frame_header bs = Inr ep) = (encode_encoded_preview_frame_header ep = Inr bs) \<and>
   (decode_visual_message_header bs = Inr v) = (encode_visual_message_header v = Inr bs) \<and>
   (decode_reverse_control_header bs = Inr r) = (encode_reverse_control_header r = Inr bs) \<and>
   (decode_input_event bs = Inr e) = (encode_input_event e = Inr bs) \<and>
   (decode_channel_hello bs = Inr h) = (length (ch_session_id h) = 16 \<and> encode_channel_hello h = Inr bs) \<and>
   (decode_channel_admission bs = Inr a) =
     (length (ca_session_id a) = 16 \<and> encode_channel_admission a = Inr bs)"
  using header_codecs [of bs p ep v r] input_event_codec_exact [of bs e] channel_message_codecs [of bs h a] by simp

end
